(* ===== verification/Prelude.thy ===== *)
theory Prelude
  imports Main "HOL-Library.Word"
begin

text \<open>
  Shared vocabulary of the development: the fixed-width integers and byte strings of the
  C++ code, exceptions as values, and the two sequencing combinators every component is
  written with.

  \<^item> \<open>error\<close> is what a \<open>throw\<close> carries: the exception class and its message.
  \<^item> \<open>'a result\<close> is the outcome of a pure function that may throw.
  \<^item> \<open>('s, 'a) op\<close> is a member function on an object of state \<open>'s\<close>: it returns the
    outcome and the state the object is left in, also when it throws, since C++ keeps
    every assignment made before the \<open>throw\<close>.
  \<^item> Where the code indexes a vector or array without a check of its own, the model uses
    \<open>vec_get\<close> and \<open>vec_set\<close>, which answer \<open>UndefinedBehaviour\<close> out of range. No C++ code
    throws that: it is the outcome a memory-safety theorem excludes.
\<close>

unbundle bit_operations_syntax

section \<open>Types\<close>

type_synonym u8 = "8 word"
type_synonym u16 = "16 word"
type_synonym u32 = "32 word"
type_synonym u64 = "64 word"
type_synonym bytes = "u8 list"

datatype error =
    RuntimeError string
  | InvalidArgument string
  | ProtocolError string
  | NotConnectedError string
  | LoginRejectedError u32 string
  | UndefinedBehaviour string

type_synonym 'a result = "error + 'a"
type_synonym ('s, 'a) op = "'s \<Rightarrow> 'a result \<times> 's"

section \<open>Lemma collections\<close>

named_theorems unat_simps "unsigned readings of the word operations the code uses"
named_theorems op_simps "evaluation of sequenced operations"

section \<open>Sequencing of pure functions that may throw\<close>

definition res_bind :: "'a result \<Rightarrow> ('a \<Rightarrow> 'b result) \<Rightarrow> 'b result" where
  "res_bind r f = (case r of Inl e \<Rightarrow> Inl e | Inr x \<Rightarrow> f x)"

lemma res_bind_simps [simp, op_simps]:
  "res_bind (Inl e) f = Inl e"
  "res_bind (Inr x) f = f x"
  by (simp_all add: res_bind_def)

lemma res_bind_cong [fundef_cong]:
  "r = r' \<Longrightarrow> (\<And>x. r' = Inr x \<Longrightarrow> f x = f' x) \<Longrightarrow> res_bind r f = res_bind r' f'"
  by (cases r') simp_all

lemma res_bind_eq_Inr:
  "res_bind r f = Inr y \<longleftrightarrow> (\<exists>x. r = Inr x \<and> f x = Inr y)"
  by (cases r) simp_all

lemma res_bind_eq_Inl:
  "res_bind r f = Inl e \<longleftrightarrow> r = Inl e \<or> (\<exists>x. r = Inr x \<and> f x = Inl e)"
  by (cases r) simp_all

text \<open>A loop that pushes the result of one call per element onto a vector.\<close>

fun res_map :: "('a \<Rightarrow> 'b result) \<Rightarrow> 'a list \<Rightarrow> 'b list result" where
  "res_map f [] = Inr []"
| "res_map f (x # xs) = res_bind (f x) (\<lambda>y. res_bind (res_map f xs) (\<lambda>ys. Inr (y # ys)))"

lemma res_map_Inr: "res_map f xs = Inr ys \<Longrightarrow> list_all2 (\<lambda>x y. f x = Inr y) xs ys"
  by (induction xs arbitrary: ys) (auto simp: res_bind_eq_Inr)

lemma res_map_eqI: "(\<And>x. x \<in> set xs \<Longrightarrow> f x = Inr (g x)) \<Longrightarrow> res_map f xs = Inr (map g xs)"
  by (induction xs) auto

section \<open>Unchecked element access\<close>

definition vec_get :: "'a list \<Rightarrow> nat \<Rightarrow> 'a result" where
  "vec_get xs i = (if i < length xs then Inr (xs ! i) else Inl (UndefinedBehaviour ''index''))"

definition vec_set :: "'a list \<Rightarrow> nat \<Rightarrow> 'a \<Rightarrow> 'a list result" where
  "vec_set xs i x = (if i < length xs then Inr (xs[i := x]) else Inl (UndefinedBehaviour ''index''))"

lemma vec_get_in [simp]: "i < length xs \<Longrightarrow> vec_get xs i = Inr (xs ! i)"
  by (simp add: vec_get_def)

lemma vec_set_in [simp]: "i < length xs \<Longrightarrow> vec_set xs i x = Inr (xs[i := x])"
  by (simp add: vec_set_def)

section \<open>Sequencing of member functions\<close>

definition op_return :: "'a \<Rightarrow> ('s, 'a) op" where
  "op_return x s = (Inr x, s)"

definition op_throw :: "error \<Rightarrow> ('s, 'a) op" where
  "op_throw e s = (Inl e, s)"

definition op_bind :: "('s, 'a) op \<Rightarrow> ('a \<Rightarrow> ('s, 'b) op) \<Rightarrow> ('s, 'b) op" where
  "op_bind m f s = (case m s of (Inl e, s') \<Rightarrow> (Inl e, s') | (Inr x, s') \<Rightarrow> f x s')"

definition op_lift :: "'a result \<Rightarrow> ('s, 'a) op" where
  "op_lift r s = (r, s)"

definition op_gets :: "('s \<Rightarrow> 'a) \<Rightarrow> ('s, 'a) op" where
  "op_gets f s = (Inr (f s), s)"

definition op_modify :: "('s \<Rightarrow> 's) \<Rightarrow> ('s, unit) op" where
  "op_modify f s = (Inr (), f s)"

definition op_when :: "bool \<Rightarrow> ('s, unit) op \<Rightarrow> ('s, unit) op" where
  "op_when b m = (if b then m else op_return ())"

text \<open>A \<open>for\<close> loop over a sequence; the first exception leaves the loop.\<close>

fun op_for :: "'a list \<Rightarrow> ('a \<Rightarrow> ('s, unit) op) \<Rightarrow> ('s, unit) op" where
  "op_for [] f = op_return ()"
| "op_for (x # xs) f = op_bind (f x) (\<lambda>_. op_for xs f)"

lemma op_for_append: "op_for (xs @ ys) f = op_bind (op_for xs f) (\<lambda>_. op_for ys f)"
  by (induction xs) (auto simp: op_bind_def op_return_def fun_eq_iff split: prod.splits sum.splits)

text \<open>Running a member function of a part of the state.\<close>

definition op_zoom :: "('s \<Rightarrow> 't) \<Rightarrow> ('t \<Rightarrow> 's \<Rightarrow> 's) \<Rightarrow> ('t, 'a) op \<Rightarrow> ('s, 'a) op" where
  "op_zoom get put m s = (case m (get s) of (r, t) \<Rightarrow> (r, put t s))"

lemma op_run [simp, op_simps]:
  "op_return x s = (Inr x, s)"
  "op_throw e s = (Inl e, s)"
  "op_lift r s = (r, s)"
  "op_gets g s = (Inr (g s), s)"
  "op_modify h s = (Inr (), h s)"
  "op_when b m s = (if b then m s else (Inr (), s))"
  by (simp_all add: op_return_def op_throw_def op_lift_def op_gets_def op_modify_def op_when_def)

lemma op_bind_run [op_simps]:
  "m s = (Inl e, s') \<Longrightarrow> op_bind m f s = (Inl e, s')"
  "m s = (Inr x, s') \<Longrightarrow> op_bind m f s = f x s'"
  by (simp_all add: op_bind_def)

lemma op_bind_simps [simp]:
  "op_bind (op_return x) f = f x"
  "op_bind (op_throw e) f = op_throw e"
  "op_bind (op_lift (Inr x)) f = f x"
  "op_bind (op_lift (Inl e)) f = op_throw e"
  "op_bind (op_gets g) f s = f (g s) s"
  "op_bind (op_modify h) f' s = f' () (h s)"
  by (auto simp: op_bind_def fun_eq_iff)

lemma op_bind_cong [fundef_cong]:
  "s = s' \<Longrightarrow> m s' = m' s' \<Longrightarrow> (\<And>x t. m' s' = (Inr x, t) \<Longrightarrow> f x t = f' x t) \<Longrightarrow>
   op_bind m f s = op_bind m' f' s'"
  by (auto simp: op_bind_def split: prod.splits sum.splits)

lemma op_bind_eq_Inr:
  "op_bind m f s = (Inr y, s') \<longleftrightarrow> (\<exists>x t. m s = (Inr x, t) \<and> f x t = (Inr y, s'))"
  by (auto simp: op_bind_def split: prod.splits sum.splits)

lemma op_bind_eq_Inl:
  "op_bind m f s = (Inl e, s') \<longleftrightarrow>
   m s = (Inl e, s') \<or> (\<exists>x t. m s = (Inr x, t) \<and> f x t = (Inl e, s'))"
  by (auto simp: op_bind_def split: prod.splits sum.splits)

text \<open>The error values a memory-safe execution can end in.\<close>

fun safe_error :: "error \<Rightarrow> bool" where
  "safe_error (UndefinedBehaviour s) = False"
| "safe_error e = True"

definition no_ub :: "'a result \<Rightarrow> bool" where
  "no_ub r \<longleftrightarrow> (\<forall>e. r = Inl e \<longrightarrow> safe_error e)"

lemma no_ub_simps [simp]: "no_ub (Inr x)" "no_ub (Inl e) = safe_error e"
  by (simp_all add: no_ub_def)

lemma no_ub_bind: "no_ub r \<Longrightarrow> (\<And>x. r = Inr x \<Longrightarrow> no_ub (f x)) \<Longrightarrow> no_ub (res_bind r f)"
  by (cases r) simp_all

text \<open>
  An invariant of the object is kept by a sequence when it is kept by its parts, whether or
  not one of them throws. \<open>op_keeps\<close> is the proof obligation of every member function.
\<close>

definition op_keeps :: "('s \<Rightarrow> bool) \<Rightarrow> ('s, 'a) op \<Rightarrow> bool" where
  "op_keeps I m \<longleftrightarrow> (\<forall>s. I s \<longrightarrow> I (snd (m s)))"

lemma op_keepsD: "op_keeps I m \<Longrightarrow> I s \<Longrightarrow> I (snd (m s))"
  by (simp add: op_keeps_def)

lemma op_keepsD': "op_keeps I m \<Longrightarrow> I s \<Longrightarrow> m s = (r, s') \<Longrightarrow> I s'"
  by (metis op_keepsD snd_conv)

lemma op_keepsI: "(\<And>s. I s \<Longrightarrow> I (snd (m s))) \<Longrightarrow> op_keeps I m"
  by (simp add: op_keeps_def)

lemma op_keeps_return [intro]: "op_keeps I (op_return x)"
  and op_keeps_throw [intro]: "op_keeps I (op_throw e)"
  and op_keeps_lift [intro]: "op_keeps I (op_lift r)"
  and op_keeps_gets [intro]: "op_keeps I (op_gets g)"
  and op_keeps_modify: "(\<And>s. I s \<Longrightarrow> I (h s)) \<Longrightarrow> op_keeps I (op_modify h)"
  and op_keeps_when [intro]: "op_keeps I m \<Longrightarrow> op_keeps I (op_when b m)"
  by (simp_all add: op_keeps_def)

lemma op_keeps_bind [intro]:
  "op_keeps I m \<Longrightarrow> (\<And>x. op_keeps I (f x)) \<Longrightarrow> op_keeps I (op_bind m f)"
  unfolding op_keeps_def op_bind_def by (fastforce split: prod.splits sum.splits)

lemma op_keeps_for [intro]:
  "(\<And>x. x \<in> set xs \<Longrightarrow> op_keeps I (f x)) \<Longrightarrow> op_keeps I (op_for xs f)"
  by (induction xs) auto

section \<open>Words\<close>

lemma unat_ucast_up [unat_simps]:
  "LENGTH('a::len) \<le> LENGTH('b::len) \<Longrightarrow> unat (ucast (w::'a word) :: 'b word) = unat w"
  by (simp add: unsigned_ucast_eq take_bit_nat_eq_self_iff order.strict_trans2 [OF unsigned_less])

text \<open>Two fields packed side by side into one word read as a mixed-radix number.\<close>

lemma unat_push_or [unat_simps]:
  fixes x y :: "'a::len word"
  assumes y: "unat y < 2 ^ n" and x: "unat x * 2 ^ n < 2 ^ LENGTH('a)"
  shows "unat (push_bit n x OR y) = unat x * 2 ^ n + unat y"
proof -
  have "unat (push_bit n x) = unat x * 2 ^ n"
    using x by (simp add: unsigned_push_bit_eq push_bit_nat_def take_bit_nat_eq_self)
  moreover have "unat x * 2 ^ n + unat y = (unat x * 2 ^ n) OR unat y"
  proof (rule disjunctive_add_eq_or, rule bit_eqI)
    fix k
    have "\<not> bit (unat y) k" if "n \<le> k"
      using y that by (metis bit_take_bit_iff not_le take_bit_nat_eq_self)
    then show "bit (unat x * 2 ^ n AND unat y) k = bit 0 k"
      by (auto simp: bit_simps push_bit_nat_def [symmetric])
  qed
  ultimately show ?thesis
    by (simp add: unsigned_or_eq)
qed

end
