(* ===== verification/Std_Map.thy ===== *)
theory Std_Map
  imports Prelude
begin

text \<open>
  The C++ standard associative containers the program keeps its state in.
  A \<open>std::map<K, V>\<close> is the list of its entries in iteration order, that is, with
  strictly increasing keys; a \<open>std::set<K>\<close> is the same with values of type unit, kept
  as the increasing list of its elements. Operations follow the container's members:
  \<open>sm_put\<close> is \<open>insert_or_assign\<close>, \<open>sm_try_emplace\<close> is \<open>try_emplace\<close> (and \<open>emplace\<close>),
  \<open>sm_erase\<close> is \<open>erase(key)\<close>, \<open>sm_find\<close> is \<open>find\<close> and \<open>size\<close> is \<open>length\<close>.

  The interface the components rely on is the locale \<open>map_interface\<close>, extended by
  \<open>ordered_map_interface\<close> with the iteration order; both are interpreted on this model.
\<close>

section \<open>The map operations\<close>

type_synonym ('k, 'v) smap = "('k \<times> 'v) list"

fun sm_put :: "'k::linorder \<Rightarrow> 'v \<Rightarrow> ('k, 'v) smap \<Rightarrow> ('k, 'v) smap" where
  "sm_put k v [] = [(k, v)]"
| "sm_put k v ((k', v') # m) =
     (if k < k' then (k, v) # (k', v') # m
      else if k = k' then (k, v) # m
      else (k', v') # sm_put k v m)"

definition sm_find :: "('k, 'v) smap \<Rightarrow> 'k \<Rightarrow> 'v option" where
  "sm_find m = map_of m"

definition sm_contains :: "('k, 'v) smap \<Rightarrow> 'k \<Rightarrow> bool" where
  "sm_contains m k \<longleftrightarrow> sm_find m k \<noteq> None"

definition sm_erase :: "'k \<Rightarrow> ('k, 'v) smap \<Rightarrow> ('k, 'v) smap" where
  "sm_erase k m = filter (\<lambda>e. fst e \<noteq> k) m"

definition sm_try_emplace :: "'k::linorder \<Rightarrow> 'v \<Rightarrow> ('k, 'v) smap \<Rightarrow> ('k, 'v) smap" where
  "sm_try_emplace k v m = (if sm_contains m k then m else sm_put k v m)"

definition sm_ok :: "('k::linorder, 'v) smap \<Rightarrow> bool" where
  "sm_ok m \<longleftrightarrow> sorted_wrt (<) (map fst m)"

text \<open>Loops that change the mapped values in place.\<close>

definition sm_update_all :: "('k \<Rightarrow> 'v \<Rightarrow> 'v) \<Rightarrow> ('k, 'v) smap \<Rightarrow> ('k, 'v) smap" where
  "sm_update_all f m = map (\<lambda>e. (fst e, f (fst e) (snd e))) m"

fun sm_update_first ::
  "('k \<Rightarrow> 'v \<Rightarrow> bool) \<Rightarrow> ('v \<Rightarrow> 'v) \<Rightarrow> ('k, 'v) smap \<Rightarrow> ('k, 'v) smap" where
  "sm_update_first P f [] = []"
| "sm_update_first P f ((k, v) # m) =
     (if P k v then (k, f v) # m else (k, v) # sm_update_first P f m)"

section \<open>The set operations\<close>

fun ss_insert :: "'k::linorder \<Rightarrow> 'k list \<Rightarrow> 'k list" where
  "ss_insert k [] = [k]"
| "ss_insert k (x # xs) = (if k < x then k # x # xs else if k = x then x # xs else x # ss_insert k xs)"

definition ss_erase :: "'k \<Rightarrow> 'k list \<Rightarrow> 'k list" where
  "ss_erase k s = filter (\<lambda>x. x \<noteq> k) s"

definition ss_ok :: "'k::linorder list \<Rightarrow> bool" where
  "ss_ok s \<longleftrightarrow> sorted_wrt (<) s"

section \<open>Interfaces\<close>

locale map_interface =
  fixes lookup :: "'m \<Rightarrow> 'k \<Rightarrow> 'v option"
    and empty :: "'m"
    and put :: "'k \<Rightarrow> 'v \<Rightarrow> 'm \<Rightarrow> 'm"
    and erase :: "'k \<Rightarrow> 'm \<Rightarrow> 'm"
    and count :: "'m \<Rightarrow> nat"
    and ok :: "'m \<Rightarrow> bool"
  assumes lookup_empty: "lookup empty k = None"
    and lookup_put: "ok m \<Longrightarrow> lookup (put k v m) = (lookup m)(k \<mapsto> v)"
    and lookup_erase: "ok m \<Longrightarrow> lookup (erase k m) = (lookup m)(k := None)"
    and ok_empty: "ok empty"
    and ok_put: "ok m \<Longrightarrow> ok (put k v m)"
    and ok_erase: "ok m \<Longrightarrow> ok (erase k m)"
    and finite_dom: "finite (dom (lookup m))"
    and count_card: "ok m \<Longrightarrow> count m = card (dom (lookup m))"
begin

lemma count_put_new: "ok m \<Longrightarrow> lookup m k = None \<Longrightarrow> count (put k v m) = Suc (count m)"
  by (simp add: count_card ok_put lookup_put finite_dom card_insert_if domIff)

lemma count_put_old: "ok m \<Longrightarrow> lookup m k \<noteq> None \<Longrightarrow> count (put k v m) = count m"
  by (auto simp: count_card ok_put lookup_put finite_dom card_insert_if domIff)

lemma count_put_le: "ok m \<Longrightarrow> count (put k v m) \<le> Suc (count m)"
  by (cases "lookup m k = None") (simp_all add: count_put_new count_put_old)

lemma count_erase_le: "ok m \<Longrightarrow> count (erase k m) \<le> count m"
  by (simp add: count_card ok_erase lookup_erase finite_dom card_Diff1_le)

lemma count_erase: "ok m \<Longrightarrow> lookup m k \<noteq> None \<Longrightarrow> Suc (count (erase k m)) = count m"
proof -
  assume ok: "ok m" and "lookup m k \<noteq> None"
  then have "k \<in> dom (lookup m)" by auto
  then have "Suc (card (dom (lookup m) - {k})) = card (dom (lookup m))"
    by (metis card_Suc_Diff1 finite_dom)
  with ok show ?thesis by (simp add: count_card ok_erase lookup_erase)
qed

lemma count_zero_iff: "ok m \<Longrightarrow> count m = 0 \<longleftrightarrow> lookup m = Map.empty"
  by (simp add: count_card finite_dom)

lemma erase_put_lookup:
  "ok m \<Longrightarrow> lookup m k = None \<Longrightarrow> lookup (erase k (put k v m)) = lookup m"
  by (auto simp: lookup_erase lookup_put ok_put fun_eq_iff)

end

locale ordered_map_interface = map_interface lookup empty put erase count ok
  for lookup :: "'m \<Rightarrow> 'k::linorder \<Rightarrow> 'v option" and empty put erase count ok +
  fixes entries :: "'m \<Rightarrow> ('k \<times> 'v) list"
  assumes entries_lookup: "lookup m = map_of (entries m)"
    and entries_sorted: "ok m \<Longrightarrow> sorted_wrt (<) (map fst (entries m))"
begin

lemma entries_distinct: "ok m \<Longrightarrow> distinct (map fst (entries m))"
  using entries_sorted by (simp add: strict_sorted_iff)

lemma entry_iff_lookup: "ok m \<Longrightarrow> (k, v) \<in> set (entries m) \<longleftrightarrow> lookup m k = Some v"
  by (simp add: entries_lookup entries_distinct)

lemma entries_from_lookup:
  assumes "ok m"
  shows "entries m = map (\<lambda>k. (k, the (lookup m k))) (map fst (entries m))"
proof -
  have "(fst e, the (lookup m (fst e))) = e" if "e \<in> set (entries m)" for e
    using that assms entry_iff_lookup [of m "fst e" "snd e"] by simp
  then show ?thesis by (simp add: map_idI)
qed

lemma entries_inject:
  assumes "ok m" "ok m'" "lookup m = lookup m'"
  shows "entries m = entries m'"
proof -
  have "set (map fst (entries m)) = set (map fst (entries m'))"
    using assms by (metis dom_map_of_conv_image_fst entries_lookup list.set_map)
  with assms have "map fst (entries m) = map fst (entries m')"
    by (intro sorted_distinct_set_unique)
       (simp_all add: entries_distinct strict_sorted_imp_sorted [OF entries_sorted])
  with assms show ?thesis
    by (metis entries_from_lookup)
qed

end

section \<open>The model satisfies the interfaces\<close>

lemma sm_find_Nil [simp]: "sm_find [] k = None"
  by (simp add: sm_find_def)

lemma sm_find_Cons: "sm_find ((k', v) # m) k = (if k' = k then Some v else sm_find m k)"
  by (simp add: sm_find_def)

lemma sm_ok_Nil [simp]: "sm_ok []"
  by (simp add: sm_ok_def)

lemma sm_ok_Cons: "sm_ok ((k, v) # m) \<longleftrightarrow> (\<forall>e \<in> set m. k < fst e) \<and> sm_ok m"
  by (auto simp: sm_ok_def)

lemma sm_ok_distinct: "sm_ok m \<Longrightarrow> distinct (map fst m)"
  by (simp add: sm_ok_def strict_sorted_iff)

lemma set_sm_put: "fst ` set (sm_put k v m) = insert k (fst ` set m)"
  by (induction k v m rule: sm_put.induct) auto

lemma sm_find_put: "sm_ok m \<Longrightarrow> sm_find (sm_put k v m) = (sm_find m)(k \<mapsto> v)"
proof (induction k v m rule: sm_put.induct)
  case (1 k v)
  then show ?case by (auto simp: sm_find_def)
next
  case (2 k v k' v' m)
  then show ?case by (auto simp: sm_ok_Cons sm_find_Cons fun_eq_iff)
qed

lemma sm_ok_put: "sm_ok m \<Longrightarrow> sm_ok (sm_put k v m)"
proof (induction k v m rule: sm_put.induct)
  case (2 k v k' v' m)
  show ?case
  proof (cases "k' < k")
    case True
    with 2 have "\<forall>x \<in> insert k (fst ` set m). k' < x"
      by (auto simp: sm_ok_Cons)
    then have "\<forall>e \<in> set (sm_put k v m). k' < fst e"
      by (metis image_eqI set_sm_put)
    moreover have "sm_ok (sm_put k v m)"
      using 2 True by (simp add: sm_ok_Cons)
    ultimately show ?thesis using True by (auto simp: sm_ok_Cons)
  next
    case False
    with 2 show ?thesis by (auto simp: sm_ok_Cons)
  qed
qed (simp add: sm_ok_def)

lemma sm_find_erase [simp]: "sm_find (sm_erase k m) = (sm_find m)(k := None)"
  by (induction m) (auto simp: sm_find_def sm_erase_def)

lemma sm_ok_erase: "sm_ok m \<Longrightarrow> sm_ok (sm_erase k m)"
  by (simp add: sm_ok_def sm_erase_def sorted_wrt_filter sorted_wrt_map)

lemma sm_length_card: "sm_ok m \<Longrightarrow> length m = card (dom (sm_find m))"
  by (simp add: sm_find_def dom_map_of_conv_image_fst distinct_card [symmetric] sm_ok_distinct)
     (metis distinct_card length_map list.set_map sm_ok_distinct)

interpretation sm: ordered_map_interface sm_find "[]" sm_put sm_erase length sm_ok "\<lambda>m. m"
proof unfold_locales
  fix k :: 'a show "sm_find [] k = (None :: 'b option)" by simp
next
  fix m :: "('a, 'b) smap" and k v
  assume "sm_ok m"
  then show "sm_find (sm_put k v m) = (sm_find m)(k \<mapsto> v)" by (rule sm_find_put)
next
  fix m :: "('a, 'b) smap"
  show "finite (dom (sm_find m))" by (simp add: sm_find_def finite_dom_map_of)
next
  fix m :: "('a, 'b) smap"
  show "sm_find m = map_of m" by (simp add: sm_find_def)
qed (simp_all add: sm_ok_put sm_ok_erase sm_length_card, simp add: sm_ok_def)

lemmas sm_facts = sm_find_put sm_ok_put sm_ok_erase sm.entry_iff_lookup

lemma sm_contains_iff: "sm_contains m k \<longleftrightarrow> k \<in> fst ` set m"
  by (simp add: sm_contains_def sm_find_def map_of_eq_None_iff)

lemma sm_ok_try_emplace: "sm_ok m \<Longrightarrow> sm_ok (sm_try_emplace k v m)"
  by (simp add: sm_try_emplace_def sm_ok_put)

lemma sm_find_try_emplace:
  "sm_ok m \<Longrightarrow> sm_find (sm_try_emplace k v m) k' =
     (if k' = k \<and> sm_find m k = None then Some v else sm_find m k')"
  by (auto simp: sm_try_emplace_def sm_contains_def sm_find_put)

lemma sm_update_all_simps [simp]:
  "sm_find (sm_update_all f m) k = map_option (f k) (sm_find m k)"
  "sm_ok (sm_update_all f m) = sm_ok m"
  "length (sm_update_all f m) = length m"
  "map fst (sm_update_all f m) = map fst m"
  by (induction m) (auto simp: sm_update_all_def sm_find_def sm_ok_def)

lemma sm_update_first_keys [simp]: "map fst (sm_update_first P f m) = map fst m"
  by (induction P f m rule: sm_update_first.induct) auto

lemma sm_update_first_ok [simp]: "sm_ok (sm_update_first P f m) = sm_ok m"
  by (simp add: sm_ok_def)

lemma sm_update_first_length [simp]: "length (sm_update_first P f m) = length m"
  by (metis length_map sm_update_first_keys)

lemma sm_update_first_none: "(\<forall>e \<in> set m. \<not> P (fst e) (snd e)) \<Longrightarrow> sm_update_first P f m = m"
  by (induction P f m rule: sm_update_first.induct) auto

text \<open>Where at most one entry matches, the first match is the only one.\<close>

lemma sm_update_first_unique:
  assumes "sm_ok m" and "(k, v) \<in> set m" and "P k v"
    and "\<And>k' v'. (k', v') \<in> set m \<Longrightarrow> P k' v' \<Longrightarrow> k' = k"
  shows "sm_find (sm_update_first P f m) = (sm_find m)(k \<mapsto> f v)"
  using assms
proof (induction P f m rule: sm_update_first.induct)
  case (2 P f k' v' m)
  show ?case
  proof (cases "P k' v'")
    case True
    with "2.prems"(4) have k: "k' = k" by auto
    with "2.prems"(1,2) have "v' = v" by (auto simp: sm_ok_Cons)
    with True k show ?thesis by (simp add: sm_find_Cons fun_eq_iff)
  next
    case False
    with "2.prems"(2,3) have mem: "(k, v) \<in> set m" by auto
    with "2.prems"(1) have ne: "k \<noteq> k'" by (auto simp: sm_ok_Cons)
    have "sm_find (sm_update_first P f m) = (sm_find m)(k \<mapsto> f v)"
    proof (rule "2.IH" [OF False _ mem "2.prems"(3)])
      show "sm_ok m" using "2.prems"(1) by (simp add: sm_ok_Cons)
      show "k'' = k" if "(k'', v'') \<in> set m" and "P k'' v''" for k'' v''
        by (rule "2.prems"(4) [OF _ that(2)]) (simp add: that(1))
    qed
    with ne False show ?thesis by (simp add: sm_find_Cons fun_eq_iff)
  qed
qed simp

lemma set_ss_insert [simp]: "set (ss_insert k s) = insert k (set s)"
  by (induction k s rule: ss_insert.induct) auto

lemma ss_ok_insert [simp]: "ss_ok s \<Longrightarrow> ss_ok (ss_insert k s)"
  by (induction k s rule: ss_insert.induct) (auto simp: ss_ok_def)

lemma set_ss_erase [simp]: "set (ss_erase k s) = set s - {k}"
  by (auto simp: ss_erase_def)

lemma ss_ok_erase [simp]: "ss_ok s \<Longrightarrow> ss_ok (ss_erase k s)"
  by (simp add: ss_ok_def ss_erase_def sorted_wrt_filter)

lemma ss_length_card: "ss_ok s \<Longrightarrow> length s = card (set s)"
  by (metis distinct_card ss_ok_def strict_sorted_iff)

end
