(* ===== verification/Binary_IO.thy ===== *)
theory Binary_IO
  imports Prelude
begin

text \<open>
  The bounds-checked big-endian cursor and writer of \<open>protocol/src/binary_reader.cpp\<close> and
  \<open>protocol/src/binary_writer.cpp\<close>. A reader is the span it reads and its offset; every read
  is guarded by \<open>Require\<close>. \<open>size_t\<close> values are natural numbers: the only subtraction on
  them, in \<open>Require\<close> and \<open>Remaining\<close>, is guarded by the code against wrap-around.

  The contract between the two classes is the locale \<open>wire_field\<close>: what a writer appends for
  a value, a reader positioned there returns, stepping over exactly those bytes.
\<close>

unbundle bit_operations_syntax

section \<open>BinaryReader\<close>

record BinaryReader =
  br_data :: bytes
  br_offset :: nat

definition make_reader :: "bytes \<Rightarrow> BinaryReader" where
  "make_reader data = \<lparr>br_data = data, br_offset = 0\<rparr>"

definition Remaining :: "BinaryReader \<Rightarrow> nat" where
  "Remaining r = length (br_data r) - br_offset r"

definition Require :: "nat \<Rightarrow> (BinaryReader, unit) op" where
  "Require count r =
     (if br_offset r > length (br_data r) \<or> count > length (br_data r) - br_offset r
      then (Inl (RuntimeError ''BinaryReader exceeds buffer''), r)
      else (Inr (), r))"

definition ReadU8 :: "(BinaryReader, u8) op" where
  "ReadU8 = op_bind (Require 1) (\<lambda>_ r.
     (Inr (br_data r ! br_offset r), r\<lparr>br_offset := br_offset r + 1\<rparr>))"

definition ReadU16 :: "(BinaryReader, u16) op" where
  "ReadU16 = op_bind (Require 2) (\<lambda>_ r.
     (Inr (push_bit 8 (ucast (br_data r ! br_offset r)) OR ucast (br_data r ! (br_offset r + 1))),
      r\<lparr>br_offset := br_offset r + 2\<rparr>))"

definition ReadU32 :: "(BinaryReader, u32) op" where
  "ReadU32 = op_bind (Require 4) (\<lambda>_ r.
     (Inr (push_bit 24 (ucast (br_data r ! br_offset r)) OR
           push_bit 16 (ucast (br_data r ! (br_offset r + 1))) OR
           push_bit 8 (ucast (br_data r ! (br_offset r + 2))) OR
           ucast (br_data r ! (br_offset r + 3))),
      r\<lparr>br_offset := br_offset r + 4\<rparr>))"

definition ReadBytes :: "nat \<Rightarrow> (BinaryReader, bytes) op" where
  "ReadBytes count = op_bind (Require count) (\<lambda>_ r.
     (Inr (take count (drop (br_offset r) (br_data r))), r\<lparr>br_offset := br_offset r + count\<rparr>))"

definition Skip :: "nat \<Rightarrow> (BinaryReader, unit) op" where
  "Skip count = op_bind (Require count) (\<lambda>_ r. (Inr (), r\<lparr>br_offset := br_offset r + count\<rparr>))"

section \<open>BinaryWriter\<close>

text \<open>The writer's only member is its byte vector; \<open>Take\<close> hands it out.\<close>

record BinaryWriter =
  bw_data :: bytes

definition empty_writer :: BinaryWriter where
  "empty_writer = \<lparr>bw_data = []\<rparr>"

definition WriteU8 :: "u8 \<Rightarrow> BinaryWriter \<Rightarrow> BinaryWriter" where
  "WriteU8 v w = w\<lparr>bw_data := bw_data w @ [v]\<rparr>"

definition WriteU16 :: "u16 \<Rightarrow> BinaryWriter \<Rightarrow> BinaryWriter" where
  "WriteU16 v w = w\<lparr>bw_data := bw_data w @
     [ucast (drop_bit 8 v AND 0xff), ucast (v AND 0xff)]\<rparr>"

definition WriteU32 :: "u32 \<Rightarrow> BinaryWriter \<Rightarrow> BinaryWriter" where
  "WriteU32 v w = w\<lparr>bw_data := bw_data w @
     [ucast (drop_bit 24 v AND 0xff), ucast (drop_bit 16 v AND 0xff),
      ucast (drop_bit 8 v AND 0xff), ucast (v AND 0xff)]\<rparr>"

definition WriteU64 :: "u64 \<Rightarrow> BinaryWriter \<Rightarrow> BinaryWriter" where
  "WriteU64 v w = w\<lparr>bw_data := bw_data w @
     [ucast (drop_bit 56 v AND 0xff), ucast (drop_bit 48 v AND 0xff),
      ucast (drop_bit 40 v AND 0xff), ucast (drop_bit 32 v AND 0xff),
      ucast (drop_bit 24 v AND 0xff), ucast (drop_bit 16 v AND 0xff),
      ucast (drop_bit 8 v AND 0xff), ucast (v AND 0xff)]\<rparr>"

definition WriteBytes :: "bytes \<Rightarrow> BinaryWriter \<Rightarrow> BinaryWriter" where
  "WriteBytes data w = w\<lparr>bw_data := bw_data w @ data\<rparr>"

definition WriteZeros :: "nat \<Rightarrow> BinaryWriter \<Rightarrow> BinaryWriter" where
  "WriteZeros count w = w\<lparr>bw_data := bw_data w @ replicate count 0\<rparr>"

definition Take :: "BinaryWriter \<Rightarrow> bytes" where
  "Take w = bw_data w"

section \<open>The wire contract\<close>

text \<open>A reader that has consumed \<open>pre\<close> and has \<open>rest\<close> ahead of it.\<close>

definition reader_at :: "bytes \<Rightarrow> bytes \<Rightarrow> BinaryReader" where
  "reader_at pre rest = \<lparr>br_data = pre @ rest, br_offset = length pre\<rparr>"

lemma make_reader_at: "make_reader d = reader_at [] d"
  by (simp add: make_reader_def reader_at_def)

lemma Remaining_at [simp]: "Remaining (reader_at pre rest) = length rest"
  by (simp add: Remaining_def reader_at_def)

lemma Require_at [simp]:
  "Require n (reader_at pre rest) =
     (if n > length rest then (Inl (RuntimeError ''BinaryReader exceeds buffer''), reader_at pre rest)
      else (Inr (), reader_at pre rest))"
  by (simp add: Require_def reader_at_def)

locale wire_field =
  fixes encode :: "'a \<Rightarrow> bytes"
    and width :: nat
    and put :: "'a \<Rightarrow> BinaryWriter \<Rightarrow> BinaryWriter"
    and get :: "(BinaryReader, 'a) op"
  assumes put_data: "bw_data (put v w) = bw_data w @ encode v"
    and encode_width: "length (encode v) = width"
    and get_encoded: "get (reader_at pre (encode v @ rest)) = (Inr v, reader_at (pre @ encode v) rest)"
    and get_short: "length rest < width \<Longrightarrow>
      get (reader_at pre rest) = (Inl (RuntimeError ''BinaryReader exceeds buffer''), reader_at pre rest)"
begin

text \<open>A value written after anything is read back from that position.\<close>

lemma read_written:
  "get (reader_at (bw_data w) (drop (length (bw_data w)) (bw_data (put v w)) @ rest)) =
   (Inr v, reader_at (bw_data (put v w)) rest)"
  by (simp add: put_data get_encoded)

lemma encode_inject: "encode v = encode v' \<Longrightarrow> v = v'"
  using get_encoded [of "[]" v "[]"] get_encoded [of "[]" v' "[]"] by simp

text \<open>A run of fields, written by a loop, is decoded field by field.\<close>

lemma foldl_put_data: "bw_data (foldl (\<lambda>w v. put v w) w vs) = bw_data w @ concat (map encode vs)"
  by (induction vs arbitrary: w) (simp_all add: put_data)

lemma concat_encode_width: "length (concat (map encode vs)) = width * length vs"
  by (induction vs) (simp_all add: encode_width)

end

lemma nth_reader_at [simp]:
  "br_data (reader_at pre rest) = pre @ rest" "br_offset (reader_at pre rest) = length pre"
  by (simp_all add: reader_at_def)

lemma reader_at_step: "br_data r = pre @ rest \<Longrightarrow> n \<le> length rest \<Longrightarrow>
    r\<lparr>br_offset := length pre + n\<rparr> = reader_at (pre @ take n rest) (drop n rest)"
  by (simp add: reader_at_def)

text \<open>
  The writer's \<open>(value >> k) & 0xff\<close> byte is the truncation of \<open>value >> k\<close>; joining the
  truncations back gives the value.
\<close>

lemma ucast_and_255 [simp]: "(ucast (w AND 0xff) :: u8) = ucast w"
proof -
  have "(0xff :: 'a word) = mask 8" by (simp add: mask_eq_exp_minus_1)
  show ?thesis
    unfolding \<open>0xff = mask 8\<close> by (rule bit_word_eqI) (auto simp: bit_simps dest: bit_imp_le_length)
qed

lemma join_u16: "push_bit 8 (ucast (ucast (drop_bit 8 v) :: u8)) OR ucast (ucast v :: u8) = (v :: u16)"
  by (rule bit_word_eqI) (auto simp: bit_simps)

lemma join_u32:
  "push_bit 24 (ucast (ucast (drop_bit 24 v) :: u8)) OR push_bit 16 (ucast (ucast (drop_bit 16 v) :: u8)) OR
   push_bit 8 (ucast (ucast (drop_bit 8 v) :: u8)) OR ucast (ucast v :: u8) = (v :: u32)"
  (is "?l = v")
proof (rule bit_word_eqI)
  fix n
  assume "n < LENGTH(32)"
  consider "n < 8" | "8 \<le> n" "n < 16" | "16 \<le> n" "n < 24" | "24 \<le> n" by linarith
  then show "bit ?l n = bit v n"
    using \<open>n < LENGTH(32)\<close> by cases (auto simp: bit_simps)
qed

lemmas read_defs = ReadU8_def ReadU16_def ReadU32_def ReadBytes_def Skip_def op_bind_def

definition enc_u8 :: "u8 \<Rightarrow> bytes" where "enc_u8 v = [v]"

definition enc_u16 :: "u16 \<Rightarrow> bytes" where "enc_u16 v = [ucast (drop_bit 8 v), ucast v]"

definition enc_u32 :: "u32 \<Rightarrow> bytes" where
  "enc_u32 v = [ucast (drop_bit 24 v), ucast (drop_bit 16 v), ucast (drop_bit 8 v), ucast v]"

interpretation u8_field: wire_field enc_u8 1 WriteU8 ReadU8
  by unfold_locales
     (auto simp: enc_u8_def WriteU8_def read_defs reader_at_def Require_def nth_append)

interpretation u16_field: wire_field enc_u16 2 WriteU16 ReadU16
  by unfold_locales
     (auto simp: enc_u16_def WriteU16_def read_defs reader_at_def Require_def nth_append join_u16)

interpretation u32_field: wire_field enc_u32 4 WriteU32 ReadU32
  by unfold_locales
     (auto simp: enc_u32_def WriteU32_def read_defs reader_at_def Require_def nth_append join_u32)

text \<open>A 64-bit field is written only (the server never sends one); its bytes are big-endian.\<close>

definition enc_u64 :: "u64 \<Rightarrow> bytes" where
  "enc_u64 v = [ucast (drop_bit 56 v), ucast (drop_bit 48 v), ucast (drop_bit 40 v), ucast (drop_bit 32 v),
     ucast (drop_bit 24 v), ucast (drop_bit 16 v), ucast (drop_bit 8 v), ucast v]"

lemma WriteU64_data: "bw_data (WriteU64 v w) = bw_data w @ enc_u64 v"
  by (simp add: WriteU64_def enc_u64_def)

text \<open>Byte blocks have no fixed width; \<open>ReadBytes\<close> is told the length.\<close>

lemma ReadBytes_at:
  "ReadBytes n (reader_at pre rest) =
     (if n \<le> length rest then (Inr (take n rest), reader_at (pre @ take n rest) (drop n rest))
      else (Inl (RuntimeError ''BinaryReader exceeds buffer''), reader_at pre rest))"
  by (simp add: read_defs reader_at_def Require_def)

lemma Skip_at:
  "Skip n (reader_at pre rest) =
     (if n \<le> length rest then (Inr (), reader_at (pre @ take n rest) (drop n rest))
      else (Inl (RuntimeError ''BinaryReader exceeds buffer''), reader_at pre rest))"
  by (simp add: read_defs reader_at_def Require_def)

lemma write_simps [simp]:
  "bw_data (WriteU8 v8 w) = bw_data w @ enc_u8 v8"
  "bw_data (WriteU16 v16 w) = bw_data w @ enc_u16 v16"
  "bw_data (WriteU32 v32 w) = bw_data w @ enc_u32 v32"
  "bw_data (WriteU64 v64 w) = bw_data w @ enc_u64 v64"
  "bw_data (WriteBytes bs w) = bw_data w @ bs"
  "bw_data (WriteZeros n w) = bw_data w @ replicate n 0"
  "bw_data empty_writer = []"
  by (simp_all add: u8_field.put_data u16_field.put_data u32_field.put_data WriteU64_data
      WriteBytes_def WriteZeros_def empty_writer_def)

lemma enc_lengths [simp]:
  "length (enc_u8 v8) = 1" "length (enc_u16 v16) = 2" "length (enc_u32 v32) = 4" "length (enc_u64 v64) = 8"
  by (simp_all add: enc_u8_def enc_u16_def enc_u32_def enc_u64_def)

text \<open>Every field read is an encoding: reading decodes the next \<open>width\<close> bytes.\<close>

lemma ReadU8_at: "ReadU8 (reader_at pre (b # rest)) = (Inr b, reader_at (pre @ [b]) rest)"
  using u8_field.get_encoded [of pre b rest] by (simp add: enc_u8_def)

lemma enc_u16_surj: "\<exists>v. enc_u16 v = [a, b]"
proof
  have "ucast (drop_bit 8 (push_bit 8 (ucast a) OR ucast b :: u16)) = a"
    by (rule bit_word_eqI) (use bit_imp_le_length [of b] in \<open>force simp: bit_simps\<close>)
  moreover have "ucast (push_bit 8 (ucast a) OR ucast b :: u16) = b"
    by (rule bit_word_eqI) (auto simp: bit_simps)
  ultimately show "enc_u16 (push_bit 8 (ucast a) OR ucast b) = [a, b]"
    by (simp add: enc_u16_def)
qed

definition u16_of :: "u8 \<Rightarrow> u8 \<Rightarrow> u16" where
  "u16_of a b = push_bit 8 (ucast a) OR ucast b"

lemma ReadU16_at: "ReadU16 (reader_at pre (a # b # rest)) = (Inr (u16_of a b), reader_at (pre @ [a, b]) rest)"
  by (simp add: read_defs reader_at_def Require_def u16_of_def nth_append)

lemma u16_of_enc: "enc_u16 v = [a, b] \<Longrightarrow> u16_of a b = v"
  by (auto simp: enc_u16_def u16_of_def join_u16)

lemma enc_u16_of [simp]: "enc_u16 (u16_of a b) = [a, b]"
  using enc_u16_surj u16_of_enc by metis

lemma unat_u16_of [unat_simps]: "unat (u16_of a b) = unat a * 256 + unat b"
  using unsigned_less [of a] unsigned_less [of b]
  unfolding u16_of_def by (subst unat_push_or) (simp_all add: unat_ucast_up)

end
