(* ===== verification/Packet.thy ===== *)
theory Packet
  imports Binary_IO
begin

text \<open>
  Packet types, flags, headers and their codecs: \<open>protocol/include/protocol/packet/*.hpp\<close>,
  \<open>protocol/src/packet/codec.cpp\<close>, \<open>init_codec.cpp\<close>, \<open>packet.cpp\<close>, \<open>server_packet.cpp\<close> and
  \<open>command_fragmenter.cpp\<close>.

  \<open>PacketType\<close> is an \<open>enum class : uint8_t\<close>, and the header codec casts any 4-bit number to
  it, so the values 9 to 15 occur at run time although no enumerator names them: they are
  \<open>UnknownType\<close>. \<open>PacketFlags\<close> is a bit mask and stays a byte.
\<close>

unbundle bit_operations_syntax

section \<open>Limits, types and flags\<close>

definition MaxDatagramSize :: nat where "MaxDatagramSize = 500"
definition ClientHeaderSize :: nat where "ClientHeaderSize = 13"
definition ServerHeaderSize :: nat where "ServerHeaderSize = 11"
definition MaxClientPayload :: nat where "MaxClientPayload = MaxDatagramSize - ClientHeaderSize"
definition MaxServerPayload :: nat where "MaxServerPayload = MaxDatagramSize - ServerHeaderSize"
definition MaxCommandSize :: nat where "MaxCommandSize = 64 * 1024"
definition Ipv4UdpOverhead :: nat where "Ipv4UdpOverhead = 8 + 20"

lemmas limit_defs = MaxDatagramSize_def ClientHeaderSize_def ServerHeaderSize_def MaxClientPayload_def
  MaxServerPayload_def MaxCommandSize_def Ipv4UdpOverhead_def

datatype PacketType =
  Voice | VoiceWhisper | CommandType | CommandLow | Ping | Pong | Ack | AckLow | Init1 | UnknownType u8

fun packet_type_value :: "PacketType \<Rightarrow> u8" where
  "packet_type_value Voice = 0x00"
| "packet_type_value VoiceWhisper = 0x01"
| "packet_type_value CommandType = 0x02"
| "packet_type_value CommandLow = 0x03"
| "packet_type_value Ping = 0x04"
| "packet_type_value Pong = 0x05"
| "packet_type_value Ack = 0x06"
| "packet_type_value AckLow = 0x07"
| "packet_type_value Init1 = 0x08"
| "packet_type_value (UnknownType v) = v"

definition packet_type_of :: "u8 \<Rightarrow> PacketType" where
  "packet_type_of v =
     (if v = 0 then Voice else if v = 1 then VoiceWhisper else if v = 2 then CommandType
      else if v = 3 then CommandLow else if v = 4 then Ping else if v = 5 then Pong
      else if v = 6 then Ack else if v = 7 then AckLow else if v = 8 then Init1 else UnknownType v)"

type_synonym PacketFlags = u8

abbreviation FlagNone :: PacketFlags where "FlagNone \<equiv> 0x00"
abbreviation Fragmented :: PacketFlags where "Fragmented \<equiv> 0x10"
abbreviation NewProtocol :: PacketFlags where "NewProtocol \<equiv> 0x20"
abbreviation Compressed :: PacketFlags where "Compressed \<equiv> 0x40"
abbreviation Unencrypted :: PacketFlags where "Unencrypted \<equiv> 0x80"

definition HasFlag :: "PacketFlags \<Rightarrow> PacketFlags \<Rightarrow> bool" where
  "HasFlag v flag \<longleftrightarrow> v AND flag \<noteq> 0"

section \<open>Session packet headers\<close>

record ServerPacketHeader =
  sh_mac :: bytes
  sh_packetId :: u16
  sh_type :: PacketType
  sh_flags :: PacketFlags

record ClientPacketHeader =
  ch_mac :: bytes
  ch_packetId :: u16
  ch_clientId :: u16
  ch_type :: PacketType
  ch_flags :: PacketFlags

definition ReadServerHeader :: "(BinaryReader, ServerPacketHeader) op" where
  "ReadServerHeader =
     op_bind (ReadBytes 8) (\<lambda>mac.
     op_bind ReadU16 (\<lambda>packetId.
     op_bind ReadU8 (\<lambda>typeAndFlags.
     op_return \<lparr>sh_mac = mac, sh_packetId = packetId,
                sh_type = packet_type_of (typeAndFlags AND 0x0f),
                sh_flags = typeAndFlags AND 0xf0\<rparr>)))"

definition WriteClientMeta :: "ClientPacketHeader \<Rightarrow> BinaryWriter \<Rightarrow> BinaryWriter" where
  "WriteClientMeta h w =
     WriteU8 (packet_type_value (ch_type h) OR ch_flags h)
       (WriteU16 (ch_clientId h) (WriteU16 (ch_packetId h) w))"

definition WriteClientHeader :: "ClientPacketHeader \<Rightarrow> BinaryWriter \<Rightarrow> BinaryWriter" where
  "WriteClientHeader h w = WriteClientMeta h (WriteBytes (ch_mac h) w)"

record ServerPacket =
  sp_header :: ServerPacketHeader
  sp_meta :: bytes
  sp_data :: bytes

text \<open>A \<open>Packet\<close> is its byte vector; \<open>Size\<close> is its length.\<close>

type_synonym Packet = bytes

definition ServerPacket_Parse :: "Packet \<Rightarrow> ServerPacket result" where
  "ServerPacket_Parse packet =
     (if length packet < 11 then Inl (RuntimeError ''Server packet is too small'')
      else fst (op_bind ReadServerHeader (\<lambda>h.
                op_bind (op_gets Remaining) (\<lambda>n.
                op_bind (ReadBytes n) (\<lambda>data.
                op_return \<lparr>sp_header = h, sp_meta = take 3 (drop 8 packet), sp_data = data\<rparr>)))
              (make_reader packet)))"

section \<open>Init packet headers\<close>

record ClientInitHeader =
  ci_packetId :: u16
  ci_clientId :: u16
  ci_flags :: u8
  ci_version :: u32
  ci_command :: u8

record ServerInitHeader =
  si_packetId :: u16
  si_flags :: u8
  si_command :: u8

definition InitMagic :: bytes where
  "InitMagic = [0x54, 0x53, 0x33, 0x49, 0x4e, 0x49, 0x54, 0x31]"

definition Init_WriteClientHeader :: "ClientInitHeader \<Rightarrow> BinaryWriter \<Rightarrow> BinaryWriter" where
  "Init_WriteClientHeader h w =
     WriteU8 (ci_command h) (WriteU32 (ci_version h) (WriteU8 (ci_flags h)
       (WriteU16 (ci_clientId h) (WriteU16 (ci_packetId h) (WriteBytes InitMagic w)))))"

definition Init_ReadServerHeader :: "(BinaryReader, ServerInitHeader) op" where
  "Init_ReadServerHeader =
     op_bind (ReadBytes (length InitMagic)) (\<lambda>magic.
     if magic \<noteq> InitMagic then op_throw (RuntimeError ''Invalid Init response magic'')
     else op_bind ReadU16 (\<lambda>packetId.
          op_bind ReadU8 (\<lambda>flags.
          op_bind ReadU8 (\<lambda>command.
          op_return \<lparr>si_packetId = packetId, si_flags = flags, si_command = command\<rparr>))))"

section \<open>CommandFragmenter\<close>

record CommandFragment =
  cf_offset :: nat
  cf_size :: nat
  cf_flags :: PacketFlags

function plan_loop :: "nat \<Rightarrow> nat \<Rightarrow> CommandFragment list" where
  "plan_loop commandSize offset =
     (if offset < commandSize then
        (let fragmentSize = min MaxClientPayload (commandSize - offset);
             firstFragment = (offset = 0);
             lastFragment = (offset + fragmentSize = commandSize);
             flags = (if firstFragment \<or> lastFragment then NewProtocol OR Fragmented else NewProtocol)
         in \<lparr>cf_offset = offset, cf_size = fragmentSize, cf_flags = flags\<rparr>
              # plan_loop commandSize (offset + fragmentSize))
      else [])"
  by pat_completeness auto
termination
  by (relation "measure (\<lambda>(n, offset). n - offset)") (auto simp: limit_defs)

declare plan_loop.simps [simp del]

definition Plan :: "nat \<Rightarrow> CommandFragment list result" where
  "Plan commandSize =
     (if commandSize > MaxCommandSize then Inl (RuntimeError ''Session client command is too large'')
      else if commandSize \<le> MaxClientPayload
      then Inr [\<lparr>cf_offset = 0, cf_size = commandSize, cf_flags = NewProtocol\<rparr>]
      else Inr (plan_loop commandSize 0))"

text \<open>The bytes of one fragment: \<open>data.subspan(fragment.offset, fragment.size)\<close>.\<close>

definition fragment_slice :: "bytes \<Rightarrow> CommandFragment \<Rightarrow> bytes" where
  "fragment_slice data f = take (cf_size f) (drop (cf_offset f) data)"

section \<open>Header lemmas\<close>

lemma packet_type_of_value: "packet_type_of (packet_type_value t) = t \<or> (\<exists>v. t = UnknownType v)"
  by (cases t) (simp_all add: packet_type_of_def)

lemma packet_type_value_of [simp]: "packet_type_value (packet_type_of v) = v"
  by (simp add: packet_type_of_def)

lemma packet_type_of_inj: "packet_type_of a = packet_type_of b \<Longrightarrow> a = b"
  by (metis packet_type_value_of)

text \<open>The low nibble is the type, the high nibble the flags: packing and unpacking agree.\<close>

lemma nibble_split: "(b AND 0x0f) OR (b AND 0xf0) = (b :: u8)"
proof -
  have "(b AND 0x0f) OR (b AND 0xf0) = b AND (0x0f OR 0xf0)"
    by (simp only: bit.conj_disj_distrib)
  also have "(0x0f OR 0xf0 :: u8) = - 1" by simp
  finally show ?thesis by simp
qed

lemma nibble_join:
  assumes "t AND 0xf0 = (0 :: u8)" and "f AND 0x0f = (0 :: u8)"
  shows "(t OR f) AND 0x0f = t" and "(t OR f) AND 0xf0 = f"
proof -
  have "t = (t AND 0x0f) OR (t AND 0xf0)" "f = (f AND 0x0f) OR (f AND 0xf0)"
    by (simp_all add: nibble_split)
  then have "t AND 0x0f = t" "f AND 0xf0 = f"
    using assms by simp_all
  then show "(t OR f) AND 0x0f = t" "(t OR f) AND 0xf0 = f"
    using assms by (simp_all add: bit.conj_disj_distrib2)
qed

lemma HasFlag_masked: "flag AND 0xf0 = flag \<Longrightarrow> HasFlag (b AND 0xf0) flag = HasFlag b flag"
proof -
  assume flag: "flag AND 0xf0 = flag"
  have "(b AND 0xf0) AND flag = b AND (flag AND 0xf0)"
    by (simp only: and.assoc and.commute [of "0xf0" flag])
  with flag show ?thesis by (simp add: HasFlag_def)
qed

lemma ReadServerHeader_at:
  assumes "length mac = 8"
  shows "ReadServerHeader (reader_at pre (mac @ [a, b, tf] @ rest)) =
     (Inr \<lparr>sh_mac = mac, sh_packetId = u16_of a b, sh_type = packet_type_of (tf AND 0x0f),
           sh_flags = tf AND 0xf0\<rparr>, reader_at (pre @ mac @ [a, b, tf]) rest)"
  using assms by (simp add: ReadServerHeader_def op_bind_def ReadBytes_at ReadU16_at ReadU8_at)

lemma split_server_packet:
  assumes "11 \<le> length p"
  obtains mac a b tf rest where "p = mac @ [a, b, tf] @ rest" "length mac = 8"
proof -
  have "p = take 8 p @ [p ! 8, p ! 9, p ! 10] @ drop 11 p"
    using assms by (simp add: Cons_nth_drop_Suc append_take_drop_id numeral_eq_Suc)
  moreover have "length (take 8 p) = 8" using assms by simp
  ultimately show ?thesis using that by blast
qed

lemma ServerPacket_Parse_split:
  "length mac = 8 \<Longrightarrow> ServerPacket_Parse (mac @ [a, b, tf] @ rest) =
     Inr \<lparr>sp_header = \<lparr>sh_mac = mac, sh_packetId = u16_of a b, sh_type = packet_type_of (tf AND 0x0f),
                      sh_flags = tf AND 0xf0\<rparr>,
          sp_meta = [a, b, tf], sp_data = rest\<rparr>"
  using ReadServerHeader_at [of mac "[]" a b tf rest]
  by (simp add: ServerPacket_Parse_def make_reader_at op_bind_def ReadBytes_at)

lemma ServerPacket_Parse_short:
  "length p < 11 \<Longrightarrow> ServerPacket_Parse p = Inl (RuntimeError ''Server packet is too small'')"
  by (simp add: ServerPacket_Parse_def)

section \<open>Fragmenter lemmas\<close>

lemma plan_loop_done: "commandSize \<le> offset \<Longrightarrow> plan_loop commandSize offset = []"
  by (simp add: plan_loop.simps)

lemma plan_loop_step:
  "offset < n \<Longrightarrow> plan_loop n offset =
     \<lparr>cf_offset = offset, cf_size = min 487 (n - offset),
      cf_flags = (if offset = 0 \<or> n - offset \<le> 487 then NewProtocol OR Fragmented else NewProtocol)\<rparr>
     # plan_loop n (offset + min 487 (n - offset))"
  by (subst plan_loop.simps) (auto simp: Let_def limit_defs min_def)

lemma plan_loop_slices:
  "concat (map (fragment_slice data) (plan_loop (length data) offset)) = drop offset data"
proof (induction "length data" offset rule: plan_loop.induct)
  case (1 offset)
  show ?case
  proof (cases "offset < length data")
    case True
    let ?s = "min 487 (length data - offset)"
    have "concat (map (fragment_slice data) (plan_loop (length data) (offset + ?s))) = drop (offset + ?s) data"
      using 1 [OF True] by (simp add: limit_defs)
    moreover have "take ?s (drop offset data) @ drop (offset + ?s) data = drop offset data"
      by (metis append_take_drop_id drop_drop add.commute)
    ultimately show ?thesis
      by (simp add: plan_loop_step [OF True] fragment_slice_def)
  qed (simp add: plan_loop_done)
qed

lemma plan_loop_sizes: "f \<in> set (plan_loop n offset) \<Longrightarrow> 0 < cf_size f \<and> cf_size f \<le> 487 \<and> cf_offset f + cf_size f \<le> n"
proof (induction n offset rule: plan_loop.induct)
  case (1 n offset)
  show ?case
  proof (cases "offset < n")
    case True
    with 1 show ?thesis by (auto simp: plan_loop_step [OF True] limit_defs)
  next
    case False
    with "1.prems" show ?thesis by (simp add: plan_loop_done)
  qed
qed

text \<open>After the first fragment: unmarked fragments, then one marked \<open>Fragmented\<close>.\<close>

lemma plan_loop_tail_flags:
  "0 < offset \<Longrightarrow> offset < n \<Longrightarrow>
   \<exists>mid l. plan_loop n offset = mid @ [l] \<and> (\<forall>f \<in> set mid. cf_flags f = NewProtocol) \<and>
           cf_flags l = NewProtocol OR Fragmented"
proof (induction n offset rule: plan_loop.induct)
  case (1 n offset)
  show ?case
  proof (cases "n - offset \<le> 487")
    case True
    with "1.prems" have "plan_loop n offset =
        [] @ [\<lparr>cf_offset = offset, cf_size = n - offset, cf_flags = NewProtocol OR Fragmented\<rparr>]"
      by (simp add: plan_loop_step plan_loop_done)
    then show ?thesis by (metis CommandFragment.select_convs(3) empty_iff empty_set)
  next
    case False
    let ?f = "\<lparr>cf_offset = offset, cf_size = 487, cf_flags = NewProtocol\<rparr>"
    from False "1.prems" have "\<exists>mid l. plan_loop n (offset + 487) = mid @ [l] \<and>
        (\<forall>f \<in> set mid. cf_flags f = NewProtocol) \<and> cf_flags l = NewProtocol OR Fragmented"
      using "1.IH" [of 487] by (simp add: limit_defs min_def)
    then obtain mid l where "plan_loop n (offset + 487) = mid @ [l]"
      "\<forall>f \<in> set mid. cf_flags f = NewProtocol" "cf_flags l = NewProtocol OR Fragmented" by blast
    moreover from False "1.prems" have "plan_loop n offset = ?f # plan_loop n (offset + 487)"
      by (simp add: plan_loop_step min_def)
    ultimately have "plan_loop n offset = (?f # mid) @ [l]" "\<forall>f \<in> set (?f # mid). cf_flags f = NewProtocol"
      by auto
    then show ?thesis using \<open>cf_flags l = NewProtocol OR Fragmented\<close> by blast
  qed
qed

lemma plan_loop_shape:
  assumes "487 < n"
  shows "\<exists>first mid l. plan_loop n 0 = first # mid @ [l] \<and> cf_flags first = NewProtocol OR Fragmented \<and>
     (\<forall>f \<in> set mid. cf_flags f = NewProtocol) \<and> cf_flags l = NewProtocol OR Fragmented"
proof -
  have "plan_loop n 0 = \<lparr>cf_offset = 0, cf_size = 487, cf_flags = NewProtocol OR Fragmented\<rparr> # plan_loop n 487"
    using assms by (simp add: plan_loop_step)
  with plan_loop_tail_flags [of 487 n] assms show ?thesis by force
qed

section \<open>Properties\<close>

lemma Plan_slices:
  "Plan (length data) = Inr fs \<Longrightarrow> concat (map (fragment_slice data) fs) = data"
  using plan_loop_slices [of data 0]
  by (auto simp: Plan_def fragment_slice_def split: if_splits)

lemma Plan_sizes: "Plan n = Inr fs \<Longrightarrow> list_all (\<lambda>f. cf_size f \<le> MaxClientPayload \<and> cf_offset f + cf_size f \<le> n) fs"
  using plan_loop_sizes [of _ n 0]
  by (auto simp: Plan_def list_all_iff limit_defs split: if_splits)

lemma Plan_Inl: "Plan n = Inl e \<Longrightarrow> MaxCommandSize < n"
  by (simp add: Plan_def split: if_splits)

text \<open>
  \<open>ServerPacket::Parse\<close> loses nothing. It refuses exactly the datagrams shorter than a
  header; any other datagram is the concatenation of the MAC, the header fields as they are
  encoded on the wire and the payload, and the associated data handed to the cipher are those
  encoded header fields.
\<close>

theorem server_packet_lossless:
  "case ServerPacket_Parse packet of
     Inl e \<Rightarrow> length packet < ServerHeaderSize \<and> e = RuntimeError ''Server packet is too small''
   | Inr sp \<Rightarrow> (let h = sp_header sp in
       length (sh_mac h) = 8 \<and>
       sp_meta sp = enc_u16 (sh_packetId h) @ [packet_type_value (sh_type h) OR sh_flags h] \<and>
       packet = sh_mac h @ sp_meta sp @ sp_data sp)"
proof (cases "length packet < 11")
  case True
  then show ?thesis by (simp add: ServerPacket_Parse_short limit_defs)
next
  case False
  then have "11 \<le> length packet" by simp
  then obtain mac a b tf rest where "packet = mac @ [a, b, tf] @ rest" "length mac = 8"
    by (rule split_server_packet)
  then show ?thesis
    using ServerPacket_Parse_split [of mac a b tf rest] by (simp add: Let_def enc_u16_of nibble_split)
qed

text \<open>
  \<open>CommandFragmenter::Plan\<close> refuses exactly the commands above the size limit; otherwise
  the planned slices, in order, are the whole command and each fits one client datagram.
\<close>

theorem plan_covers_command:
  "case Plan (length data) of
     Inl e \<Rightarrow> MaxCommandSize < length data
   | Inr fs \<Rightarrow> concat (map (fragment_slice data) fs) = data \<and> length data \<le> MaxCommandSize \<and>
       list_all (\<lambda>f. cf_size f \<le> MaxClientPayload \<and> cf_offset f + cf_size f \<le> length data) fs"
proof (cases "Plan (length data)")
  case (Inl e)
  then show ?thesis using Plan_Inl by simp
next
  case (Inr fs)
  then show ?thesis
    using Plan_slices [OF Inr] Plan_sizes [OF Inr] by (auto simp: Plan_def split: if_splits)
qed

end
