(* ===== verification/Sequence.thy ===== *)
theory Sequence
  imports Packet
begin

text \<open>
  Packet numbering: \<open>protocol/include/protocol/packet/sequence.hpp\<close>, \<open>sequence_state.hpp\<close> and
  \<open>protocol/src/packet/sequence.cpp\<close>, \<open>sequence_state.cpp\<close>. A stream counts its packets in a
  16-bit id and a 32-bit generation; \<open>SequenceKey\<close> joins them into one 48-bit number, and
  \<open>ResolveGeneration\<close> recovers the generation of a received id. All integers keep the width
  they have in the code.

  Abstractly a stream position is the natural number \<open>seq_pos\<close>: \<open>Advance\<close> is the successor,
  \<open>SequenceKey\<close> is order preserving, and \<open>ResolveGeneration\<close> picks the position congruent to
  the received id that is nearest to the expected one.
\<close>

unbundle bit_operations_syntax

section \<open>Model\<close>

record PacketSequence =
  ps_packetId :: u16
  ps_generationId :: u32

definition Advance :: "(PacketSequence, unit) op" where
  "Advance s =
     (if ps_packetId s = - 1 then
        (if ps_generationId s = - 1 then (Inl (RuntimeError ''Packet generation overflow''), s)
         else (Inr (), s\<lparr>ps_packetId := 0, ps_generationId := ps_generationId s + 1\<rparr>))
      else (Inr (), s\<lparr>ps_packetId := ps_packetId s + 1\<rparr>))"

definition ResolveGeneration :: "PacketSequence \<Rightarrow> u16 \<Rightarrow> u32 result" where
  "ResolveGeneration expected packetId =
     (let SequenceSize = (65536 :: u32); HalfSequenceSize = SequenceSize div 2;
          expectedId = (ucast (ps_packetId expected) :: u32); receivedId = (ucast packetId :: u32);
          forwardDistance = (receivedId + SequenceSize - expectedId) mod SequenceSize
      in if forwardDistance = 0 then Inr (ps_generationId expected)
         else if forwardDistance = HalfSequenceSize
         then Inl (RuntimeError ''Ambiguous server packet generation'')
         else if forwardDistance < HalfSequenceSize then
           (if packetId < ps_packetId expected then
              (if ps_generationId expected = - 1 then Inl (RuntimeError ''Packet generation overflow'')
               else Inr (ps_generationId expected + 1))
            else Inr (ps_generationId expected))
         else if packetId > ps_packetId expected then
           (if ps_generationId expected = 0
            then Inl (RuntimeError ''Server packet belongs to an invalid previous generation'')
            else Inr (ps_generationId expected - 1))
         else Inr (ps_generationId expected))"

definition SequenceKey :: "u16 \<Rightarrow> u32 \<Rightarrow> u64" where
  "SequenceKey packetId generationId = push_bit 16 (ucast generationId) OR ucast packetId"

definition SequenceKey_of :: "PacketSequence \<Rightarrow> u64" where
  "SequenceKey_of s = SequenceKey (ps_packetId s) (ps_generationId s)"

record PacketSequenceState =
  pss_outgoing :: "PacketSequence list"
  pss_incoming :: "PacketSequence list"

definition TrackedPacketTypeCount :: nat where "TrackedPacketTypeCount = 8"

definition initial_sequence_state :: PacketSequenceState where
  "initial_sequence_state =
     \<lparr>pss_outgoing = replicate TrackedPacketTypeCount \<lparr>ps_packetId = 1, ps_generationId = 0\<rparr>,
      pss_incoming = replicate TrackedPacketTypeCount \<lparr>ps_packetId = 1, ps_generationId = 0\<rparr>\<rparr>"

definition sequence_index :: "PacketType \<Rightarrow> nat result" where
  "sequence_index type =
     (let v = packet_type_value type
      in if unat v \<ge> TrackedPacketTypeCount
         then Inl (RuntimeError ''Packet type does not use normal packet sequence state'')
         else Inr (unat v))"

definition Outgoing :: "PacketType \<Rightarrow> PacketSequenceState \<Rightarrow> PacketSequence result" where
  "Outgoing type s = res_bind (sequence_index type) (\<lambda>i. Inr (pss_outgoing s ! i))"

definition Incoming :: "PacketType \<Rightarrow> PacketSequenceState \<Rightarrow> PacketSequence result" where
  "Incoming type s = res_bind (sequence_index type) (\<lambda>i. Inr (pss_incoming s ! i))"

text \<open>Assignment through the references \<open>Outgoing(type)\<close> and \<open>Incoming(type)\<close>.\<close>

definition set_Outgoing :: "PacketType \<Rightarrow> PacketSequence \<Rightarrow> PacketSequenceState \<Rightarrow> PacketSequenceState" where
  "set_Outgoing type q s =
     (case sequence_index type of Inl _ \<Rightarrow> s | Inr i \<Rightarrow> s\<lparr>pss_outgoing := (pss_outgoing s)[i := q]\<rparr>)"

definition set_Incoming :: "PacketType \<Rightarrow> PacketSequence \<Rightarrow> PacketSequenceState \<Rightarrow> PacketSequenceState" where
  "set_Incoming type q s =
     (case sequence_index type of Inl _ \<Rightarrow> s | Inr i \<Rightarrow> s\<lparr>pss_incoming := (pss_incoming s)[i := q]\<rparr>)"

section \<open>Positions\<close>

definition key_nat :: "u16 \<Rightarrow> u32 \<Rightarrow> nat" where
  "key_nat packetId generationId = unat generationId * 65536 + unat packetId"

definition seq_pos :: "PacketSequence \<Rightarrow> nat" where
  "seq_pos s = key_nat (ps_packetId s) (ps_generationId s)"

lemma u16_less: "unat (w :: u16) < 65536" using unsigned_less [of w] by simp

lemma u32_less: "unat (w :: u32) < 4294967296" using unsigned_less [of w] by simp

lemma unat_SequenceKey [unat_simps]: "unat (SequenceKey p g) = key_nat p g"
  using u16_less [of p] u32_less [of g] unfolding SequenceKey_def key_nat_def
  by (subst unat_push_or) (simp_all add: unat_ucast_up)

lemma SequenceKey_less_iff: "SequenceKey p g < SequenceKey p' g' \<longleftrightarrow> key_nat p g < key_nat p' g'"
  by (simp add: word_less_nat_alt unat_SequenceKey)

lemma SequenceKey_le_iff: "SequenceKey p g \<le> SequenceKey p' g' \<longleftrightarrow> key_nat p g \<le> key_nat p' g'"
  by (simp add: word_le_nat_alt unat_SequenceKey)

lemma key_nat_inj: "key_nat p g = key_nat p' g' \<Longrightarrow> p = p' \<and> g = g'"
proof -
  assume eq: "key_nat p g = key_nat p' g'"
  have "key_nat p g mod 65536 = unat p" "key_nat p' g' mod 65536 = unat p'"
    "key_nat p g div 65536 = unat g" "key_nat p' g' div 65536 = unat g'"
    using u16_less [of p] u16_less [of p'] by (simp_all add: key_nat_def)
  with eq show ?thesis by (simp add: word_unat_eq_iff)
qed

lemma SequenceKey_inj: "SequenceKey p g = SequenceKey p' g' \<longleftrightarrow> p = p' \<and> g = g'"
  by (metis key_nat_inj unat_SequenceKey)

lemma seq_pos_inj: "seq_pos s = seq_pos t \<longleftrightarrow> s = t"
  by (auto simp: seq_pos_def dest!: key_nat_inj)

lemma unat_SequenceKey_of [unat_simps]: "unat (SequenceKey_of s) = seq_pos s"
  by (simp add: SequenceKey_of_def seq_pos_def unat_SequenceKey)

lemma seq_pos_bound: "seq_pos s < 2 ^ 48"
  using u16_less [of "ps_packetId s"] u32_less [of "ps_generationId s"]
  by (simp add: seq_pos_def key_nat_def)

lemma unat_max [simp]: "unat (- 1 :: u16) = 65535" "unat (- 1 :: u32) = 4294967295"
  by (simp_all add: unsigned_minus_1_eq_mask mask_eq_exp_minus_1)

lemma unat_u16_max: "unat (w :: u16) = 65535 \<longleftrightarrow> w = - 1"
  by (simp add: word_unat_eq_iff)

lemma unat_u32_max: "unat (w :: u32) = 4294967295 \<longleftrightarrow> w = - 1"
  by (simp add: word_unat_eq_iff)

lemma unat_u16_Suc: "(w :: u16) \<noteq> - 1 \<Longrightarrow> unat (w + 1) = unat w + 1"
  using u16_less [of w] unat_u16_max [of w] by (subst unat_add_lem [THEN iffD1]) auto

lemma unat_u32_Suc: "(w :: u32) \<noteq> - 1 \<Longrightarrow> unat (w + 1) = unat w + 1"
  using u32_less [of w] unat_u32_max [of w] by (subst unat_add_lem [THEN iffD1]) auto

lemma Advance_cases:
  "Advance s = (Inl e, s') \<longleftrightarrow>
     s' = s \<and> e = RuntimeError ''Packet generation overflow'' \<and> seq_pos s = 2 ^ 48 - 1"
  "Advance s = (Inr (), s') \<longleftrightarrow> seq_pos s < 2 ^ 48 - 1 \<and> seq_pos s' = Suc (seq_pos s)"
proof -
  show "Advance s = (Inl e, s') \<longleftrightarrow>
     s' = s \<and> e = RuntimeError ''Packet generation overflow'' \<and> seq_pos s = 2 ^ 48 - 1"
    using u16_less [of "ps_packetId s"] u32_less [of "ps_generationId s"]
      unat_u16_max [of "ps_packetId s"] unat_u32_max [of "ps_generationId s"]
    by (auto simp: Advance_def seq_pos_def key_nat_def)
  have "seq_pos (snd (Advance s)) = Suc (seq_pos s)" if "fst (Advance s) = Inr ()"
    using that unat_u16_Suc [of "ps_packetId s"] unat_u32_Suc [of "ps_generationId s"]
    by (auto simp: Advance_def seq_pos_def key_nat_def split: if_splits)
  moreover have "fst (Advance s) = Inr () \<longleftrightarrow> seq_pos s < 2 ^ 48 - 1"
    using u16_less [of "ps_packetId s"] u32_less [of "ps_generationId s"]
      unat_u16_max [of "ps_packetId s"] unat_u32_max [of "ps_generationId s"]
    by (auto simp: Advance_def seq_pos_def key_nat_def)
  ultimately show "Advance s = (Inr (), s') \<longleftrightarrow> seq_pos s < 2 ^ 48 - 1 \<and> seq_pos s' = Suc (seq_pos s)"
    by (metis prod.collapse prod.inject seq_pos_inj)
qed

section \<open>Resolving a generation\<close>

lemma forward_distance:
  "unat (((ucast p :: u32) + 65536 - ucast e) mod 65536) = (unat (p :: u16) + 65536 - unat (e :: u16)) mod 65536"
proof -
  have "unat ((ucast p :: u32) + 65536) = unat p + 65536"
    using u16_less [of p] by (subst unat_add_lem [THEN iffD1]) (simp_all add: unat_ucast_up)
  moreover from this have "(ucast e :: u32) \<le> ucast p + 65536"
    using u16_less [of e] by (simp add: word_le_nat_alt unat_ucast_up)
  ultimately show ?thesis
    by (simp add: unat_mod unat_sub unat_ucast_up)
qed

lemma nearest_multiple:
  fixes a b D :: int
  assumes "0 \<le> D" "D < 65536"
  shows "\<bar>(a - b) * 65536 + D\<bar> < 32768 \<longleftrightarrow> D < 32768 \<and> a = b \<or> 32768 < D \<and> a = b - 1"
proof -
  consider "a \<ge> b + 1" | "a = b" | "a = b - 1" | "a \<le> b - 2" by linarith
  then show ?thesis using assms by cases (auto simp: abs_less_iff)
qed

text \<open>The function over the unsigned readings of its words.\<close>

lemma ResolveGeneration_nat:
  "ResolveGeneration e p =
     (let d = (unat p + 65536 - unat (ps_packetId e)) mod 65536
      in if d = 0 then Inr (ps_generationId e)
         else if d = 32768 then Inl (RuntimeError ''Ambiguous server packet generation'')
         else if d < 32768 then
           (if unat p < unat (ps_packetId e) then
              (if ps_generationId e = - 1 then Inl (RuntimeError ''Packet generation overflow'')
               else Inr (ps_generationId e + 1))
            else Inr (ps_generationId e))
         else if unat p > unat (ps_packetId e) then
           (if ps_generationId e = 0
            then Inl (RuntimeError ''Server packet belongs to an invalid previous generation'')
            else Inr (ps_generationId e - 1))
         else Inr (ps_generationId e))"
proof -
  define d where "d = ((ucast p :: u32) + 65536 - ucast (ps_packetId e)) mod 65536"
  have d: "unat d = (unat p + 65536 - unat (ps_packetId e)) mod 65536"
    by (simp add: d_def forward_distance)
  have "d = 0 \<longleftrightarrow> unat d = 0" "d = 32768 \<longleftrightarrow> unat d = 32768" "d < 32768 \<longleftrightarrow> unat d < 32768"
    by (simp_all add: word_unat_eq_iff word_less_nat_alt)
  then show ?thesis
    unfolding ResolveGeneration_def Let_def d_def [symmetric] d [symmetric]
    by (simp add: word_less_nat_alt [where 'a = 16])
qed

lemma u32_pred_iff: "(w :: u32) \<noteq> 0 \<and> g = w - 1 \<longleftrightarrow> unat w = unat g + 1"
proof
  assume "w \<noteq> 0 \<and> g = w - 1"
  then show "unat w = unat g + 1"
    by (metis diff_add_cancel linorder_neqE_nat not_less_zero unat_0 unat_1 unat_minus_one
        unat_eq_zero add.commute One_nat_def Suc_pred plus_1_eq_Suc gr0I)
next
  assume "unat w = unat g + 1"
  then show "w \<noteq> 0 \<and> g = w - 1"
    by (metis Suc_eq_plus1 diff_Suc_1 nat.simps(3) unat_0 unat_minus_one word_unat_eq_iff)
qed

lemma u32_succ_iff: "(w :: u32) \<noteq> - 1 \<and> g = w + 1 \<longleftrightarrow> unat g = unat w + 1"
proof
  assume "w \<noteq> - 1 \<and> g = w + 1"
  then show "unat g = unat w + 1" by (simp add: unat_u32_Suc)
next
  assume g: "unat g = unat w + 1"
  have "w \<noteq> - 1"
    using g u32_less [of g] by auto
  with g show "w \<noteq> - 1 \<and> g = w + 1"
    by (simp add: word_unat_eq_iff unat_u32_Suc)
qed

lemma nearest_position:
  fixes P E g G :: nat
  assumes "P < 65536" "E < 65536"
  shows "\<bar>int (g * 65536 + P) - int (G * 65536 + E)\<bar> < 32768 \<longleftrightarrow>
     (if E \<le> P then P - E < 32768 \<and> g = G \<or> 32768 < P - E \<and> G = g + 1
      else P + 65536 - E < 32768 \<and> g = G + 1 \<or> 32768 < P + 65536 - E \<and> g = G)"
proof (cases "E \<le> P")
  case True
  have eq: "int (g * 65536 + P) - int (G * 65536 + E) = (int g - int G) * 65536 + int (P - E)"
    using True by (simp add: algebra_simps of_nat_diff)
  have "\<bar>int (g * 65536 + P) - int (G * 65536 + E)\<bar> < 32768 \<longleftrightarrow>
      int (P - E) < 32768 \<and> int g = int G \<or> 32768 < int (P - E) \<and> int g = int G - 1"
    unfolding eq by (rule nearest_multiple) (use assms in simp_all)
  also have "\<dots> \<longleftrightarrow> P - E < 32768 \<and> g = G \<or> 32768 < P - E \<and> G = g + 1" by linarith
  finally show ?thesis using True by simp
next
  case False
  have eq: "int (g * 65536 + P) - int (G * 65536 + E) = (int g - (int G + 1)) * 65536 + int (P + 65536 - E)"
    using False assms by (simp add: algebra_simps of_nat_diff)
  have "\<bar>int (g * 65536 + P) - int (G * 65536 + E)\<bar> < 32768 \<longleftrightarrow>
      int (P + 65536 - E) < 32768 \<and> int g = int G + 1 \<or>
      32768 < int (P + 65536 - E) \<and> int g = int G + 1 - 1"
    unfolding eq by (rule nearest_multiple) (use False assms in simp_all)
  also have "\<dots> \<longleftrightarrow> P + 65536 - E < 32768 \<and> g = G + 1 \<or> 32768 < P + 65536 - E \<and> g = G" by linarith
  finally show ?thesis using False by simp
qed

text \<open>
  A generation is returned exactly when it puts the received id strictly less than half a
  cycle away from the expected position.
\<close>

lemma ResolveGeneration_iff:
  "ResolveGeneration e p = Inr g \<longleftrightarrow> \<bar>int (key_nat p g) - int (seq_pos e)\<bar> < 32768"
proof -
  define P where "P = unat p"
  define E where "E = unat (ps_packetId e)"
  have bounds: "P < 65536" "E < 65536"
    by (simp_all add: P_def E_def u16_less)
  have d: "(P + 65536 - E) mod 65536 = (if E \<le> P then P - E else P + 65536 - E)"
    using bounds by (auto simp: mod_nat_eqI)
  have eq: "unat g = unat (ps_generationId e) \<longleftrightarrow> ps_generationId e = g"
    by (auto simp: word_unat_eq_iff)
  have wrap: "ps_generationId e + 1 = 0 \<longleftrightarrow> ps_generationId e = - 1"
    by (simp add: eq_neg_iff_add_eq_0)
  show ?thesis
    unfolding key_nat_def seq_pos_def P_def [symmetric] E_def [symmetric] nearest_position [OF bounds]
      ResolveGeneration_nat Let_def d eq u32_pred_iff [symmetric] u32_succ_iff [symmetric]
    using bounds wrap by auto
qed

section \<open>The per-type counters\<close>

definition sequences_ok :: "PacketSequenceState \<Rightarrow> bool" where
  "sequences_ok s \<longleftrightarrow> length (pss_outgoing s) = TrackedPacketTypeCount \<and>
                     length (pss_incoming s) = TrackedPacketTypeCount"

lemma sequences_ok_initial: "sequences_ok initial_sequence_state"
  by (simp add: sequences_ok_def initial_sequence_state_def)

lemma sequence_index_bound: "sequence_index t = Inr i \<Longrightarrow> i < TrackedPacketTypeCount"
  by (simp add: sequence_index_def Let_def split: if_splits)

lemma sequence_index_inj: "sequence_index t = Inr i \<Longrightarrow> sequence_index t' = Inr i \<Longrightarrow>
    packet_type_value t = packet_type_value t'"
  by (auto simp: sequence_index_def Let_def word_unat_eq_iff split: if_splits)

lemma sequences_ok_set [simp]:
  "sequences_ok (set_Outgoing t q s) = sequences_ok s"
  "sequences_ok (set_Incoming t q s) = sequences_ok s"
  by (auto simp: sequences_ok_def set_Outgoing_def set_Incoming_def split: sum.splits)

text \<open>
  Storing through one counter reference is seen by the same type and by no other type, and
  leaves the other direction alone: the interface the transport relies on.
\<close>

locale counter_family =
  fixes fetch :: "'t \<Rightarrow> 's \<Rightarrow> 'q result"
    and store :: "'t \<Rightarrow> 'q \<Rightarrow> 's \<Rightarrow> 's"
    and same :: "'t \<Rightarrow> 't \<Rightarrow> bool"
    and ok :: "'s \<Rightarrow> bool"
  assumes fetch_error_free: "fetch t s = Inl e \<Longrightarrow> fetch t s' = Inl e"
    and fetch_store_same: "ok s \<Longrightarrow> same t t' \<Longrightarrow> fetch t s = Inr q0 \<Longrightarrow> fetch t' (store t q s) = Inr q"
    and fetch_store_other: "\<not> same t t' \<Longrightarrow> fetch t' (store t q s) = fetch t' s"
    and same_refl: "same t t"
    and ok_store: "ok s \<Longrightarrow> ok (store t q s)"
begin

lemma fetch_store: "ok s \<Longrightarrow> fetch t s = Inr q0 \<Longrightarrow> fetch t (store t q s) = Inr q"
  by (rule fetch_store_same [OF _ same_refl])

lemma store_all_ok: "ok s \<Longrightarrow> ok (fold (\<lambda>(t, q). store t q) xs s)"
  by (induction xs arbitrary: s) (auto simp: ok_store)

lemma fetch_fold_other:
  "(\<forall>x \<in> set xs. \<not> same (fst x) t) \<Longrightarrow> fetch t (fold (\<lambda>(t, q). store t q) xs s) = fetch t s"
  by (induction xs arbitrary: s) (auto simp: fetch_store_other)

end

definition same_counter :: "PacketType \<Rightarrow> PacketType \<Rightarrow> bool" where
  "same_counter t t' \<longleftrightarrow> packet_type_value t = packet_type_value t'"

lemma sequence_index_same: "same_counter t t' \<Longrightarrow> sequence_index t' = sequence_index t"
  by (simp add: same_counter_def sequence_index_def)

interpretation outgoing: counter_family Outgoing set_Outgoing same_counter sequences_ok
proof
  fix t t' s q q0
  assume "sequences_ok s" "same_counter t t'" "Outgoing t s = Inr q0"
  then show "Outgoing t' (set_Outgoing t q s) = Inr q"
    using sequence_index_bound [of t]
    by (auto simp: Outgoing_def set_Outgoing_def res_bind_eq_Inr sequence_index_same sequences_ok_def)
next
  fix t t' s q
  assume "\<not> same_counter t t'"
  then show "Outgoing t' (set_Outgoing t q s) = Outgoing t' s"
    using sequence_index_inj [of t _ t']
    by (force simp: Outgoing_def set_Outgoing_def same_counter_def res_bind_def split: sum.splits
        intro!: nth_list_update_neq)
qed (auto simp: Outgoing_def same_counter_def res_bind_eq_Inl)

interpretation incoming: counter_family Incoming set_Incoming same_counter sequences_ok
proof
  fix t t' s q q0
  assume "sequences_ok s" "same_counter t t'" "Incoming t s = Inr q0"
  then show "Incoming t' (set_Incoming t q s) = Inr q"
    using sequence_index_bound [of t]
    by (auto simp: Incoming_def set_Incoming_def res_bind_eq_Inr sequence_index_same sequences_ok_def)
next
  fix t t' s q
  assume "\<not> same_counter t t'"
  then show "Incoming t' (set_Incoming t q s) = Incoming t' s"
    using sequence_index_inj [of t _ t']
    by (force simp: Incoming_def set_Incoming_def same_counter_def res_bind_def split: sum.splits
        intro!: nth_list_update_neq)
qed (auto simp: Incoming_def same_counter_def res_bind_eq_Inl)

lemma counters_independent [simp]:
  "Incoming t (set_Outgoing t' q s) = Incoming t s"
  "Outgoing t (set_Incoming t' q s) = Outgoing t s"
  by (auto simp: Incoming_def Outgoing_def set_Outgoing_def set_Incoming_def split: sum.splits)

section \<open>Properties\<close>

text \<open>
  C25: the received 16-bit id is resolved to the generation that puts it strictly less than half
  a cycle (32768 positions) from the expected position, across the wrap-around of the id in
  either direction, and to an error exactly when no generation does.
\<close>

theorem generation_is_nearest:
  "ResolveGeneration expected packetId = Inr generation \<longleftrightarrow>
     \<bar>int (key_nat packetId generation) - int (seq_pos expected)\<bar> < 32768"
  by (rule ResolveGeneration_iff)

text \<open>
  \<open>Advance\<close> is the successor on stream positions; it throws only at the last of the
  2^48 positions, and then leaves the sequence as it was, so a position is never numbered twice.
\<close>

theorem advance_is_successor:
  "case Advance s of
     (Inl e, s') \<Rightarrow> s' = s \<and> seq_pos s = 2 ^ 48 - 1 \<and> e = RuntimeError ''Packet generation overflow''
   | (Inr _, s') \<Rightarrow> unat (SequenceKey_of s') = Suc (unat (SequenceKey_of s))"
proof (cases "Advance s")
  case (Pair r s')
  show ?thesis
  proof (cases r)
    case (Inl e)
    with Pair show ?thesis using Advance_cases(1) [THEN iffD1, of s e s'] by simp
  next
    case (Inr u)
    with Pair show ?thesis using Advance_cases(2) [THEN iffD1, of s s'] by (simp add: unat_SequenceKey_of)
  qed
qed

end
