(* ===== verification/Quick_Lz.thy ===== *)
theory Quick_Lz
  imports Prelude
begin

text \<open>
  The QuickLZ level-1 decompressor of \<open>protocol/src/compression/quick_lz.cpp\<close>, the one parser
  in the program that walks attacker-supplied lengths and offsets with unchecked indexing.
  \<open>QuickLzDecoder\<close> holds the members of the class except the input span, which every function
  takes as \<open>data\<close>. Every \<open>operator[]\<close> is \<open>vec_get\<close> or \<open>vec_set\<close>.

  \<open>lz_inv\<close> is the class invariant. The obligation of each member has two parts: from a state
  satisfying the invariant it never reaches undefined behaviour (\<open>no_ub\<close>), and when it returns
  it keeps the invariant, the output length and the bytes already produced (\<open>lz_produces\<close>).
\<close>

unbundle bit_operations_syntax

section \<open>Model\<close>

record QuickLzDecoder =
  lz_src :: nat
  lz_dst :: nat
  lz_out :: bytes
  lz_table :: "nat list"
  lz_valid :: "bool list"
  lz_last :: int

definition lz_ReadU16Little :: "bytes \<Rightarrow> nat \<Rightarrow> u16 result" where
  "lz_ReadU16Little data offset =
     (if offset > length data \<or> 2 > length data - offset
      then Inl (RuntimeError ''Unexpected end of QuickLZ data'')
      else res_bind (vec_get data offset) (\<lambda>b0.
           res_bind (vec_get data (offset + 1)) (\<lambda>b1.
           Inr (ucast b0 OR push_bit 8 (ucast b1)))))"

definition lz_ReadU32Little :: "bytes \<Rightarrow> nat \<Rightarrow> u32 result" where
  "lz_ReadU32Little data offset =
     (if offset > length data \<or> 4 > length data - offset
      then Inl (RuntimeError ''Unexpected end of QuickLZ data'')
      else res_bind (vec_get data offset) (\<lambda>b0.
           res_bind (vec_get data (offset + 1)) (\<lambda>b1.
           res_bind (vec_get data (offset + 2)) (\<lambda>b2.
           res_bind (vec_get data (offset + 3)) (\<lambda>b3.
           Inr (ucast b0 OR push_bit 8 (ucast b1) OR push_bit 16 (ucast b2) OR push_bit 24 (ucast b3)))))))"

definition lz_Hash :: "u32 \<Rightarrow> nat" where
  "lz_Hash v = unat ((drop_bit 12 v XOR v) AND 0x0fff)"

definition lz_RequireSource :: "bytes \<Rightarrow> nat \<Rightarrow> (QuickLzDecoder, unit) op" where
  "lz_RequireSource data count q =
     (if lz_src q > length data \<or> count > length data - lz_src q
      then (Inl (RuntimeError ''Unexpected end of QuickLZ data''), q) else (Inr (), q))"

definition lz_ReadControlWord :: "bytes \<Rightarrow> (QuickLzDecoder, u32) op" where
  "lz_ReadControlWord data =
     op_bind (lz_RequireSource data 4) (\<lambda>_.
     op_bind (\<lambda>q. (lz_ReadU32Little data (lz_src q), q)) (\<lambda>v.
     op_bind (op_modify (\<lambda>q. q\<lparr>lz_src := lz_src q + 4\<rparr>)) (\<lambda>_.
     if v = 0 then op_throw (RuntimeError ''Invalid QuickLZ control word'') else op_return v)))"

text \<open>One iteration of the hash loop.\<close>

definition lz_hash_position :: "nat \<Rightarrow> (QuickLzDecoder, unit) op" where
  "lz_hash_position position =
     op_bind (\<lambda>q. (vec_get (lz_out q) position, q)) (\<lambda>b0.
     op_bind (\<lambda>q. (vec_get (lz_out q) (position + 1), q)) (\<lambda>b1.
     op_bind (\<lambda>q. (vec_get (lz_out q) (position + 2), q)) (\<lambda>b2.
     let hash = lz_Hash (ucast b0 OR push_bit 8 (ucast b1) OR push_bit 16 (ucast b2))
     in op_bind (\<lambda>q. (vec_set (lz_table q) hash position, q)) (\<lambda>table.
        op_bind (op_modify (\<lambda>q. q\<lparr>lz_table := table\<rparr>)) (\<lambda>_.
        op_bind (\<lambda>q. (vec_set (lz_valid q) hash True, q)) (\<lambda>valid.
        op_modify (\<lambda>q. q\<lparr>lz_valid := valid\<rparr>)))))))"

definition lz_UpdateHashUpto :: "nat \<Rightarrow> (QuickLzDecoder, unit) op" where
  "lz_UpdateHashUpto maximumPosition q =
     (if lz_dst q < 3 then (Inr (), q)
      else let availableMaximum = lz_dst q - 3;
               maximum = min maximumPosition availableMaximum;
               position = (if lz_last q \<ge> 0 then nat (lz_last q) + 1 else 0)
           in if position > maximum then (Inr (), q)
              else op_bind (op_for [position ..< maximum + 1] lz_hash_position)
                     (\<lambda>_. op_modify (\<lambda>q. q\<lparr>lz_last := int maximum\<rparr>)) q)"

text \<open>\<open>m_Output[m_DestinationPosition] = m_Data[m_SourcePosition]\<close>, both stepped.\<close>

definition lz_copy_literal :: "bytes \<Rightarrow> (QuickLzDecoder, unit) op" where
  "lz_copy_literal data =
     op_bind (\<lambda>q. (vec_get data (lz_src q), q)) (\<lambda>b.
     op_bind (\<lambda>q. (vec_set (lz_out q) (lz_dst q) b, q)) (\<lambda>out.
     op_modify (\<lambda>q. q\<lparr>lz_out := out, lz_src := lz_src q + 1, lz_dst := lz_dst q + 1\<rparr>)))"

definition lz_DecodeLiteral :: "bytes \<Rightarrow> (QuickLzDecoder, unit) op" where
  "lz_DecodeLiteral data =
     op_bind (lz_RequireSource data 1) (\<lambda>_.
     op_bind (lz_copy_literal data) (\<lambda>_ q.
     if lz_dst q \<ge> 3 then lz_UpdateHashUpto (lz_dst q - 3) q else (Inr (), q)))"

definition lz_IsTail :: "QuickLzDecoder \<Rightarrow> bool" where
  "lz_IsTail q \<longleftrightarrow> length (lz_out q) \<le> 10 \<or> lz_dst q \<ge> length (lz_out q) - 10"

text \<open>One iteration of \<open>DecodeTail\<close>'s loop; the result is the next control word.\<close>

definition lz_tail_step :: "bytes \<Rightarrow> u32 \<Rightarrow> (QuickLzDecoder, u32) op" where
  "lz_tail_step data control =
     op_bind (op_when (control = 1)
       (op_bind (lz_RequireSource data 4) (\<lambda>_. op_modify (\<lambda>q. q\<lparr>lz_src := lz_src q + 4\<rparr>)))) (\<lambda>_.
     op_bind (lz_RequireSource data 1) (\<lambda>_.
     op_bind (lz_copy_literal data) (\<lambda>_.
     op_return (drop_bit 1 (if control = 1 then push_bit 31 1 else control)))))"

text \<open>The byte-by-byte copy of a match, \<open>m_Output[dst + i] = m_Output[reference + i]\<close>.\<close>

definition lz_copy_byte :: "nat \<Rightarrow> nat \<Rightarrow> (QuickLzDecoder, unit) op" where
  "lz_copy_byte reference i =
     op_bind (\<lambda>q. (vec_get (lz_out q) (reference + i), q)) (\<lambda>b.
     op_bind (\<lambda>q. (vec_set (lz_out q) (lz_dst q + i) b, q)) (\<lambda>out.
     op_modify (\<lambda>q. q\<lparr>lz_out := out\<rparr>)))"

text \<open>The length and hash fields of a reference, and the source bytes they occupy.\<close>

definition lz_read_reference :: "bytes \<Rightarrow> (QuickLzDecoder, nat \<times> nat) op" where
  "lz_read_reference data =
     op_bind (lz_RequireSource data 2) (\<lambda>_.
     op_bind (\<lambda>q. (lz_ReadU16Little data (lz_src q), q)) (\<lambda>encoded.
     let hash = unat (drop_bit 4 encoded AND 0x0fff)
     in if encoded AND 0x0f \<noteq> 0
        then op_bind (op_modify (\<lambda>q. q\<lparr>lz_src := lz_src q + 2\<rparr>)) (\<lambda>_.
             op_return (hash, unat (encoded AND 0x0f) + 2))
        else op_bind (lz_RequireSource data 3) (\<lambda>_.
             op_bind (\<lambda>q. (vec_get data (lz_src q + 2), q)) (\<lambda>b.
             op_bind (op_modify (\<lambda>q. q\<lparr>lz_src := lz_src q + 3\<rparr>)) (\<lambda>_.
             op_return (hash, unat b))))))"

definition lz_apply_reference :: "nat \<Rightarrow> nat \<Rightarrow> (QuickLzDecoder, unit) op" where
  "lz_apply_reference hash matchLength =
     (if matchLength < 3 then op_throw (RuntimeError ''Invalid QuickLZ match length'')
      else op_bind (\<lambda>q. (vec_get (lz_valid q) hash, q)) (\<lambda>valid.
      if \<not> valid then op_throw (RuntimeError ''Invalid QuickLZ hash reference'')
      else op_bind (\<lambda>q. (vec_get (lz_table q) hash, q)) (\<lambda>reference.
      op_bind (op_gets lz_dst) (\<lambda>matchStart.
      op_bind (op_gets (\<lambda>q. length (lz_out q))) (\<lambda>size.
      if reference \<ge> matchStart then op_throw (RuntimeError ''Invalid QuickLZ reference offset'')
      else if matchLength > size - matchStart then op_throw (RuntimeError ''QuickLZ reference exceeds output'')
      else op_bind (op_for [0 ..< matchLength] (lz_copy_byte reference)) (\<lambda>_.
           op_bind (op_modify (\<lambda>q. q\<lparr>lz_dst := lz_dst q + matchLength\<rparr>)) (\<lambda>_.
           op_bind (lz_UpdateHashUpto matchStart) (\<lambda>_.
           op_modify (\<lambda>q. q\<lparr>lz_last := int (lz_dst q) - 1\<rparr>)))))))))"

definition lz_DecodeReference :: "bytes \<Rightarrow> (QuickLzDecoder, unit) op" where
  "lz_DecodeReference data = op_bind (lz_read_reference data) (\<lambda>(hash, matchLength). lz_apply_reference hash matchLength)"

section \<open>The class invariant\<close>

definition lz_inv :: "QuickLzDecoder \<Rightarrow> bool" where
  "lz_inv q \<longleftrightarrow> length (lz_table q) = 4096 \<and> length (lz_valid q) = 4096 \<and> lz_dst q \<le> length (lz_out q)"

text \<open>
  What a successful step does to the output: the length stays, produced bytes stay, the
  write position advances by \<open>n\<close>.
\<close>

definition lz_produces :: "nat \<Rightarrow> QuickLzDecoder \<Rightarrow> QuickLzDecoder \<Rightarrow> bool" where
  "lz_produces n q q' \<longleftrightarrow> lz_inv q' \<and> length (lz_out q') = length (lz_out q) \<and> lz_dst q' = lz_dst q + n \<and>
     take (lz_dst q) (lz_out q') = take (lz_dst q) (lz_out q)"

lemma lz_produces_trans:
  "lz_produces n q q' \<Longrightarrow> lz_produces m q' q'' \<Longrightarrow> lz_produces (n + m) q q''"
  unfolding lz_produces_def by (metis add.assoc le_add1 take_take min.absorb1)

lemma lz_Hash_less: "lz_Hash v < 4096"
proof -
  have "unat ((drop_bit 12 v XOR v) AND 0x0fff) \<le> unat (0x0fff :: u32)"
    by (rule word_and_le1 [THEN word_le_nat_alt [THEN iffD1]])
  then show ?thesis by (simp add: lz_Hash_def)
qed

lemma encoded_hash_less: "unat ((e :: u16) AND 0x0fff) < 4096"
proof -
  have "unat (e AND 0x0fff) \<le> unat (0x0fff :: u16)"
    by (rule word_and_le1 [THEN word_le_nat_alt [THEN iffD1]])
  then show ?thesis by simp
qed

lemma lz_hash_position_run:
  assumes "lz_inv q" and "position + 2 < length (lz_out q)"
  shows "\<exists>t v. lz_hash_position position q = (Inr (), q\<lparr>lz_table := t, lz_valid := v\<rparr>) \<and>
               length t = 4096 \<and> length v = 4096"
  using assms lz_Hash_less
  by (simp add: lz_hash_position_def op_bind_def lz_inv_def Let_def) (metis length_list_update)

lemma lz_hash_loop_run:
  "lz_inv q \<Longrightarrow> \<forall>p \<in> set ps. p + 2 < length (lz_out q) \<Longrightarrow>
   \<exists>t v. op_for ps lz_hash_position q = (Inr (), q\<lparr>lz_table := t, lz_valid := v\<rparr>) \<and>
         length t = 4096 \<and> length v = 4096"
proof (induction ps arbitrary: q)
  case Nil
  then show ?case
    by (intro exI [of _ "lz_table q"] exI [of _ "lz_valid q"]) (simp add: lz_inv_def)
next
  case (Cons p ps)
  then obtain t v where step: "lz_hash_position p q = (Inr (), q\<lparr>lz_table := t, lz_valid := v\<rparr>)"
    "length t = 4096" "length v = 4096"
    using lz_hash_position_run [of q p] by auto
  with Cons.prems have "lz_inv (q\<lparr>lz_table := t, lz_valid := v\<rparr>)" by (simp add: lz_inv_def)
  from Cons.IH [OF this] Cons.prems(2) step show ?case
    by (auto simp: op_bind_def)
qed

lemma lz_UpdateHashUpto_run:
  assumes "lz_inv q"
  shows "\<exists>t v l. lz_UpdateHashUpto m q = (Inr (), q\<lparr>lz_table := t, lz_valid := v, lz_last := l\<rparr>) \<and>
                 length t = 4096 \<and> length v = 4096"
proof -
  let ?max = "min m (lz_dst q - 3)" and ?pos = "if lz_last q \<ge> 0 then nat (lz_last q) + 1 else 0"
  show ?thesis
  proof (cases "lz_dst q < 3 \<or> ?pos > ?max")
    case True
    then have "lz_UpdateHashUpto m q = (Inr (), q\<lparr>lz_table := lz_table q, lz_valid := lz_valid q, lz_last := lz_last q\<rparr>)"
      by (auto simp: lz_UpdateHashUpto_def)
    with assms show ?thesis unfolding lz_inv_def by blast
  next
    case False
    have "\<forall>p \<in> set [?pos ..< ?max + 1]. p + 2 < length (lz_out q)"
      using False assms by (auto simp: lz_inv_def)
    from lz_hash_loop_run [OF assms this] obtain t v where
      "op_for [?pos ..< ?max + 1] lz_hash_position q = (Inr (), q\<lparr>lz_table := t, lz_valid := v\<rparr>)"
      "length t = 4096" "length v = 4096" by blast
    with False show ?thesis
      by (intro exI [of _ t] exI [of _ v] exI [of _ "int ?max"]) (simp add: lz_UpdateHashUpto_def Let_def op_bind_def)
  qed
qed

section \<open>Members\<close>

lemma lz_copy_literal_run:
  "lz_src q < length data \<Longrightarrow> lz_dst q < length (lz_out q) \<Longrightarrow>
   lz_copy_literal data q =
     (Inr (), q\<lparr>lz_out := (lz_out q)[lz_dst q := data ! lz_src q], lz_src := lz_src q + 1, lz_dst := lz_dst q + 1\<rparr>)"
  by (simp add: lz_copy_literal_def op_bind_def)

lemma lz_DecodeLiteral_run:
  assumes "lz_inv q" and "lz_dst q < length (lz_out q)" and "lz_DecodeLiteral data q = (r, q')"
  shows "no_ub r" and "r = Inr () \<Longrightarrow> lz_produces 1 q q' \<and> lz_out q' ! lz_dst q = data ! lz_src q \<and> lz_src q' = lz_src q + 1"
proof -
  let ?q1 = "q\<lparr>lz_out := (lz_out q)[lz_dst q := data ! lz_src q], lz_src := lz_src q + 1, lz_dst := lz_dst q + 1\<rparr>"
  consider "lz_src q > length data \<or> 1 > length data - lz_src q" | "lz_src q < length data"
    by linarith
  then have "no_ub r \<and> (r = Inr () \<longrightarrow> lz_produces 1 q q' \<and> lz_out q' ! lz_dst q = data ! lz_src q \<and> lz_src q' = lz_src q + 1)"
  proof cases
    case 1
    with assms(3) show ?thesis
      by (auto simp: lz_DecodeLiteral_def lz_RequireSource_def op_bind_def)
  next
    case 2
    have inv: "lz_inv ?q1" using assms(1,2) by (simp add: lz_inv_def)
    have run: "lz_DecodeLiteral data q =
        (if lz_dst ?q1 \<ge> 3 then lz_UpdateHashUpto (lz_dst ?q1 - 3) ?q1 else (Inr (), ?q1))"
      using 2 assms(2) by (simp add: lz_DecodeLiteral_def lz_RequireSource_def op_bind_def lz_copy_literal_run)
    from lz_UpdateHashUpto_run [OF inv, of "lz_dst ?q1 - 3"] obtain t v l where
      "lz_UpdateHashUpto (lz_dst ?q1 - 3) ?q1 = (Inr (), ?q1\<lparr>lz_table := t, lz_valid := v, lz_last := l\<rparr>)"
      "length t = 4096" "length v = 4096" by blast
    with run assms inv show ?thesis
      by (auto simp: lz_produces_def lz_inv_def split: if_splits)
  qed
  then show "no_ub r" and "r = Inr () \<Longrightarrow> lz_produces 1 q q' \<and> lz_out q' ! lz_dst q = data ! lz_src q \<and> lz_src q' = lz_src q + 1"
    by simp_all
qed

lemma lz_tail_step_run:
  assumes "lz_inv q" and "lz_dst q < length (lz_out q)" and "lz_tail_step data control q = (r, q')"
  shows "no_ub r" and "r = Inr c \<Longrightarrow> lz_produces 1 q q'"
proof -
  have step: "no_ub r \<and> (\<forall>c. r = Inr c \<longrightarrow> lz_produces 1 q q')"
    if "op_bind (lz_RequireSource data 1) (\<lambda>_. op_bind (lz_copy_literal data) (\<lambda>_. op_return c'))
          (q\<lparr>lz_src := n\<rparr>) = (r, q')" for n c'
  proof (cases "n < length data")
    case True
    with that assms(1,2) show ?thesis
      by (auto simp: lz_RequireSource_def op_bind_def lz_copy_literal_run lz_produces_def lz_inv_def)
  next
    case False
    with that show ?thesis
      by (auto simp: lz_RequireSource_def op_bind_def)
  qed
  have "no_ub r \<and> (\<forall>c. r = Inr c \<longrightarrow> lz_produces 1 q q')"
  proof (cases "control = 1 \<and> (lz_src q > length data \<or> 4 > length data - lz_src q)")
    case True
    with assms(3) show ?thesis
      by (auto simp: lz_tail_step_def op_bind_def lz_RequireSource_def)
  next
    case False
    define n where "n = (if control = 1 then lz_src q + 4 else lz_src q)"
    from False assms(3) have "op_bind (lz_RequireSource data 1) (\<lambda>_. op_bind (lz_copy_literal data)
        (\<lambda>_. op_return (drop_bit 1 (if control = 1 then push_bit 31 1 else control)))) (q\<lparr>lz_src := n\<rparr>) = (r, q')"
      by (cases "control = 1")
         (auto simp: n_def lz_tail_step_def op_bind_def lz_RequireSource_def simp del: push_bit_of_1)
    then show ?thesis by (rule step)
  qed
  then show "no_ub r" and "r = Inr c \<Longrightarrow> lz_produces 1 q q'" by simp_all
qed

text \<open>
  The overlapping match copy. Its result satisfies the LZ equation: every copied byte equals
  the byte \<open>dst - reference\<close> positions before it, in the \<^emph>\<open>new\<close> output.
\<close>

lemma lz_copy_loop_run:
  assumes "reference < lz_dst q" and "lz_dst q + n \<le> length (lz_out q)"
  shows "\<exists>out. op_for [0 ..< n] (lz_copy_byte reference) q = (Inr (), q\<lparr>lz_out := out\<rparr>) \<and>
     length out = length (lz_out q) \<and> take (lz_dst q) out = take (lz_dst q) (lz_out q) \<and>
     (\<forall>i < n. out ! (lz_dst q + i) = out ! (reference + i))"
  using assms(2)
proof (induction n)
  case 0
  then show ?case by (intro exI [of _ "lz_out q"]) simp
next
  case (Suc n)
  then obtain out where IH: "op_for [0 ..< n] (lz_copy_byte reference) q = (Inr (), q\<lparr>lz_out := out\<rparr>)"
    "length out = length (lz_out q)" "take (lz_dst q) out = take (lz_dst q) (lz_out q)"
    "\<forall>i < n. out ! (lz_dst q + i) = out ! (reference + i)" by auto
  let ?out = "out[lz_dst q + n := out ! (reference + n)]"
  have "op_for [0 ..< Suc n] (lz_copy_byte reference) q = (Inr (), q\<lparr>lz_out := ?out\<rparr>)"
    using IH(1,2) Suc.prems assms(1) by (simp add: op_for_append op_bind_def lz_copy_byte_def)
  moreover have "?out ! (lz_dst q + i) = ?out ! (reference + i)" if "i < Suc n" for i
    using IH(2,4) Suc.prems assms(1) that by (cases "i = n") (auto simp: nth_list_update)
  ultimately show ?case using IH(2,3) by (intro exI [of _ ?out]) auto
qed

lemma lz_read_reference_run:
  assumes "lz_read_reference data q = (r, q')"
  shows "no_ub r" and "r = Inr (hash, n) \<Longrightarrow> hash < 4096 \<and> (\<exists>src. q' = q\<lparr>lz_src := src\<rparr>)"
proof -
  have u16: "lz_ReadU16Little data (lz_src q) = Inr e \<or> (\<exists>s. lz_ReadU16Little data (lz_src q) = Inl (RuntimeError s))"
    if "e = ucast (data ! lz_src q) OR push_bit 8 (ucast (data ! (lz_src q + 1)))" for e
    using that by (auto simp: lz_ReadU16Little_def)
  show "no_ub r" "r = Inr (hash, n) \<Longrightarrow> hash < 4096 \<and> (\<exists>src. q' = q\<lparr>lz_src := src\<rparr>)"
    using assms u16 [OF refl] encoded_hash_less
    by (auto simp: lz_read_reference_def op_bind_def lz_RequireSource_def Let_def split: if_splits prod.splits sum.splits)
qed

lemma lz_apply_reference_run:
  assumes "lz_inv q" and "hash < 4096" and "lz_apply_reference hash n q = (r, q')"
  shows "no_ub r" and "r = Inr () \<Longrightarrow> 3 \<le> n \<and> lz_produces n q q' \<and>
     (\<exists>reference < lz_dst q. \<forall>i < n. lz_out q' ! (lz_dst q + i) = lz_out q' ! (reference + i))"
proof -
  define ref where "ref = lz_table q ! hash"
  have len: "hash < length (lz_valid q)" "hash < length (lz_table q)"
    using assms(1,2) by (simp_all add: lz_inv_def)
  have "no_ub r \<and> (r = Inr () \<longrightarrow> 3 \<le> n \<and> lz_produces n q q' \<and>
     (\<exists>reference < lz_dst q. \<forall>i < n. lz_out q' ! (lz_dst q + i) = lz_out q' ! (reference + i)))"
  proof (cases "3 \<le> n \<and> lz_valid q ! hash \<and> ref < lz_dst q \<and> n \<le> length (lz_out q) - lz_dst q")
    case False
    with assms(3) len show ?thesis
      by (auto simp: lz_apply_reference_def op_bind_def ref_def split: if_splits)
  next
    case True
    then have "lz_dst q + n \<le> length (lz_out q)" "ref < lz_dst q"
      using assms(1) by (auto simp: lz_inv_def)
    then obtain out where copy: "op_for [0 ..< n] (lz_copy_byte ref) q = (Inr (), q\<lparr>lz_out := out\<rparr>)"
      "length out = length (lz_out q)" "take (lz_dst q) out = take (lz_dst q) (lz_out q)"
      "\<forall>i < n. out ! (lz_dst q + i) = out ! (ref + i)"
      using lz_copy_loop_run [of ref q n] by blast
    let ?q1 = "q\<lparr>lz_out := out, lz_dst := lz_dst q + n\<rparr>"
    have "lz_inv ?q1"
      using assms(1) copy(2) \<open>lz_dst q + n \<le> length (lz_out q)\<close> by (simp add: lz_inv_def)
    then obtain t v l where hash: "lz_UpdateHashUpto (lz_dst q) ?q1 =
        (Inr (), ?q1\<lparr>lz_table := t, lz_valid := v, lz_last := l\<rparr>)" "length t = 4096" "length v = 4096"
      using lz_UpdateHashUpto_run by blast
    have "(r, q') = (Inr (), ?q1\<lparr>lz_table := t, lz_valid := v, lz_last := int (lz_dst q + n) - 1\<rparr>)"
      unfolding assms(3) [symmetric] lz_apply_reference_def
      using True len copy(1) hash(1) by (simp add: op_bind_def ref_def [symmetric])
    with copy hash(2,3) True \<open>lz_dst q + n \<le> length (lz_out q)\<close> show ?thesis
      by (auto simp: lz_produces_def lz_inv_def)
  qed
  then show "no_ub r" and "r = Inr () \<Longrightarrow> 3 \<le> n \<and> lz_produces n q q' \<and>
     (\<exists>reference < lz_dst q. \<forall>i < n. lz_out q' ! (lz_dst q + i) = lz_out q' ! (reference + i))"
    by simp_all
qed

lemma lz_DecodeReference_run:
  assumes "lz_inv q" and "lz_DecodeReference data q = (r, q')"
  shows "no_ub r"
    and "r = Inr () \<Longrightarrow> \<exists>n reference. 3 \<le> n \<and> lz_produces n q q' \<and> reference < lz_dst q \<and>
           (\<forall>i < n. lz_out q' ! (lz_dst q + i) = lz_out q' ! (reference + i))"
proof -
  obtain r1 q1 where r1: "lz_read_reference data q = (r1, q1)" by fastforce
  have "no_ub r \<and> (r = Inr () \<longrightarrow> (\<exists>n reference. 3 \<le> n \<and> lz_produces n q q' \<and> reference < lz_dst q \<and>
           (\<forall>i < n. lz_out q' ! (lz_dst q + i) = lz_out q' ! (reference + i))))"
  proof (cases r1)
    case (Inl e)
    with r1 assms(2) lz_read_reference_run(1) [OF r1] show ?thesis
      by (auto simp: lz_DecodeReference_def op_bind_def)
  next
    case (Inr hn)
    then obtain hash n where hn: "r1 = Inr (hash, n)" by (cases hn) auto
    from lz_read_reference_run(2) [OF r1 hn] obtain src where "hash < 4096" and q1: "q1 = q\<lparr>lz_src := src\<rparr>" by blast
    moreover have "lz_inv q1" using assms(1) q1 by (simp add: lz_inv_def)
    moreover have "lz_apply_reference hash n q1 = (r, q')"
      using assms(2) r1 hn by (simp add: lz_DecodeReference_def op_bind_def)
    ultimately show ?thesis
      using lz_apply_reference_run [of q1 hash n r q'] by (auto simp: lz_produces_def)
  qed
  then show "no_ub r" and "r = Inr () \<Longrightarrow> \<exists>n reference. 3 \<le> n \<and> lz_produces n q q' \<and> reference < lz_dst q \<and>
           (\<forall>i < n. lz_out q' ! (lz_dst q + i) = lz_out q' ! (reference + i))"
    by simp_all
qed

section \<open>The loops\<close>

text \<open>
  The loops end because every iteration that returns moves the write position forward and
  keeps the output length; this needs no invariant.
\<close>

definition lz_frame :: "QuickLzDecoder \<Rightarrow> QuickLzDecoder \<Rightarrow> bool" where
  "lz_frame q q' \<longleftrightarrow> lz_dst q' = lz_dst q \<and> length (lz_out q') = length (lz_out q)"

lemma lz_frame_simps [simp]:
  "lz_frame q q"
  "lz_frame q (q\<lparr>lz_src := n\<rparr>)"
  "lz_frame q (q\<lparr>lz_table := t\<rparr>)"
  "lz_frame q (q\<lparr>lz_valid := v\<rparr>)"
  "lz_frame q (q\<lparr>lz_last := l\<rparr>)"
  by (simp_all add: lz_frame_def)

lemma lz_frame_for:
  "(\<And>x q q'. f x q = (Inr (), q') \<Longrightarrow> lz_frame q q') \<Longrightarrow> op_for xs f q = (Inr (), q') \<Longrightarrow> lz_frame q q'"
proof (induction xs arbitrary: q)
  case (Cons x xs)
  from Cons.prems(2) obtain q1 where "f x q = (Inr (), q1)" "op_for xs f q1 = (Inr (), q')"
    by (auto simp: op_bind_eq_Inr)
  with Cons.prems(1) Cons.IH [OF Cons.prems(1)] show ?case
    unfolding lz_frame_def by fastforce
qed simp

lemma lz_hash_position_frame: "lz_hash_position p q = (Inr (), q') \<Longrightarrow> lz_frame q q'"
  by (auto simp: lz_hash_position_def op_bind_eq_Inr Let_def lz_frame_def)

lemma lz_copy_byte_frame: "lz_copy_byte r i q = (Inr (), q') \<Longrightarrow> lz_frame q q'"
  by (auto simp: lz_copy_byte_def op_bind_eq_Inr lz_frame_def vec_set_def split: if_splits)

lemma lz_UpdateHashUpto_frame: "lz_UpdateHashUpto m q = (Inr (), q') \<Longrightarrow> lz_frame q q'"
  by (auto simp: lz_UpdateHashUpto_def Let_def op_bind_eq_Inr lz_frame_def split: if_splits
      dest!: lz_frame_for [OF lz_hash_position_frame, rotated])

lemma lz_copy_literal_step:
  "lz_copy_literal data q = (Inr (), q') \<Longrightarrow>
   length (lz_out q') = length (lz_out q) \<and> lz_dst q' = lz_dst q + 1"
  by (auto simp: lz_copy_literal_def op_bind_eq_Inr vec_set_def split: if_splits)

lemma lz_tail_step_progress:
  "lz_tail_step data c q = (Inr x, q') \<Longrightarrow> length (lz_out q') = length (lz_out q) \<and> lz_dst q' = lz_dst q + 1"
  by (auto simp: lz_tail_step_def op_bind_eq_Inr lz_RequireSource_def split: if_splits
      dest!: lz_copy_literal_step)

lemma lz_DecodeLiteral_progress:
  "lz_DecodeLiteral data q = (Inr (), q') \<Longrightarrow> length (lz_out q') = length (lz_out q) \<and> lz_dst q' = lz_dst q + 1"
  by (auto simp: lz_DecodeLiteral_def op_bind_eq_Inr lz_RequireSource_def lz_frame_def split: if_splits
      dest!: lz_copy_literal_step lz_UpdateHashUpto_frame)

lemma lz_read_reference_frame: "lz_read_reference data q = (Inr x, q') \<Longrightarrow> lz_frame q q'"
  by (auto simp: lz_read_reference_def op_bind_eq_Inr lz_RequireSource_def Let_def split: if_splits)

lemma lz_apply_reference_progress:
  assumes "lz_apply_reference hash n q = (Inr (), q')"
  shows "length (lz_out q') = length (lz_out q) \<and> lz_dst q' = lz_dst q + n \<and> 3 \<le> n"
proof -
  from assms obtain ref q1 q2 where "3 \<le> n" "op_for [0 ..< n] (lz_copy_byte ref) q = (Inr (), q1)"
    "lz_UpdateHashUpto (lz_dst q) (q1\<lparr>lz_dst := lz_dst q1 + n\<rparr>) = (Inr (), q2)" "q' = q2\<lparr>lz_last := int (lz_dst q2) - 1\<rparr>"
    by (auto simp: lz_apply_reference_def op_bind_eq_Inr split: if_splits)
  with lz_frame_for [OF lz_copy_byte_frame] lz_UpdateHashUpto_frame show ?thesis
    by (fastforce simp: lz_frame_def)
qed

lemma lz_DecodeReference_progress:
  "lz_DecodeReference data q = (Inr (), q') \<Longrightarrow> length (lz_out q') = length (lz_out q) \<and> lz_dst q < lz_dst q'"
  by (auto simp: lz_DecodeReference_def op_bind_eq_Inr lz_frame_def
      dest!: lz_read_reference_frame lz_apply_reference_progress)

function lz_DecodeTail :: "bytes \<Rightarrow> u32 \<Rightarrow> QuickLzDecoder \<Rightarrow> unit result \<times> QuickLzDecoder" where
  "lz_DecodeTail data control q =
     (if lz_dst q < length (lz_out q)
      then op_bind (lz_tail_step data control) (lz_DecodeTail data) q
      else (Inr (), q))"
  by pat_completeness auto
termination
  by (relation "measure (\<lambda>(data, control, q). length (lz_out q) - lz_dst q)")
     (auto dest: lz_tail_step_progress)

declare lz_DecodeTail.simps [simp del]

text \<open>
  One iteration of \<open>Run\<close>'s loop: \<open>Some control\<close> continues with that control word, \<open>None\<close> is
  the \<open>break\<close> after the tail.
\<close>

definition lz_run_step :: "bytes \<Rightarrow> u32 \<Rightarrow> (QuickLzDecoder, u32 option) op" where
  "lz_run_step data control =
     op_bind (if control = 1 then lz_ReadControlWord data else op_return control) (\<lambda>control.
     if control AND 0x01 \<noteq> 0
     then op_bind (lz_DecodeReference data) (\<lambda>_. op_return (Some (drop_bit 1 control)))
     else (\<lambda>q. if lz_IsTail q
               then op_bind (lz_DecodeTail data control) (\<lambda>_. op_return None) q
               else op_bind (lz_DecodeLiteral data) (\<lambda>_. op_return (Some (drop_bit 1 control))) q))"

lemma lz_ReadControlWord_frame: "lz_ReadControlWord data q = (Inr c, q') \<Longrightarrow> lz_frame q q'"
  by (auto simp: lz_ReadControlWord_def op_bind_eq_Inr lz_RequireSource_def split: if_splits)

lemma lz_run_step_progress:
  assumes "lz_run_step data control q = (Inr (Some c), q')"
  shows "length (lz_out q') = length (lz_out q) \<and> lz_dst q < lz_dst q'"
proof -
  have "\<exists>q1. lz_frame q q1 \<and> (lz_DecodeReference data q1 = (Inr (), q') \<or> lz_DecodeLiteral data q1 = (Inr (), q'))"
    using assms
    by (auto simp: lz_run_step_def op_bind_eq_Inr split: if_splits
        dest!: lz_ReadControlWord_frame intro: lz_frame_simps(1))
  then obtain q1 where q1: "lz_frame q q1"
    and step: "lz_DecodeReference data q1 = (Inr (), q') \<or> lz_DecodeLiteral data q1 = (Inr (), q')" by blast
  from step q1 show ?thesis
    by (auto simp: lz_frame_def dest!: lz_DecodeReference_progress lz_DecodeLiteral_progress)
qed

function lz_run_loop :: "bytes \<Rightarrow> u32 \<Rightarrow> QuickLzDecoder \<Rightarrow> unit result \<times> QuickLzDecoder" where
  "lz_run_loop data control q =
     (if lz_dst q < length (lz_out q)
      then op_bind (lz_run_step data control)
             (\<lambda>next q'. case next of None \<Rightarrow> (Inr (), q') | Some control' \<Rightarrow> lz_run_loop data control' q') q
      else (Inr (), q))"
  by pat_completeness auto
termination
  by (relation "measure (\<lambda>(data, control, q). length (lz_out q) - lz_dst q)")
     (auto dest: lz_run_step_progress intro: diff_less_mono2)

declare lz_run_loop.simps [simp del]

definition lz_Run :: "bytes \<Rightarrow> QuickLzDecoder \<Rightarrow> bytes result" where
  "lz_Run data q =
     fst (op_bind (lz_run_loop data 1) (\<lambda>_ q.
          (if lz_dst q \<noteq> length (lz_out q) then Inl (RuntimeError ''QuickLZ output size mismatch'')
           else Inr (lz_out q), q)) q)"

definition lz_decoder :: "nat \<Rightarrow> nat \<Rightarrow> QuickLzDecoder" where
  "lz_decoder sourcePosition outputSize =
     \<lparr>lz_src = sourcePosition, lz_dst = 0, lz_out = replicate outputSize 0,
      lz_table = replicate 4096 0, lz_valid = replicate 4096 False, lz_last = - 1\<rparr>"

definition Decompress :: "bytes \<Rightarrow> nat \<Rightarrow> bytes result" where
  "Decompress data maximumOutputSize =
     (if length data < 3 then Inl (RuntimeError ''QuickLZ data is too small'')
      else res_bind (vec_get data 0) (\<lambda>flags.
      let headerSize = (if flags AND 0x02 \<noteq> 0 then 9 else 3)
      in if length data < headerSize then Inl (RuntimeError ''QuickLZ header is truncated'')
      else if drop_bit 2 flags AND 0x03 \<noteq> 1 then Inl (RuntimeError ''Unsupported QuickLZ compression level'')
      else if drop_bit 4 flags AND 0x03 \<noteq> 0 then Inl (RuntimeError ''QuickLZ streaming mode is not supported'')
      else res_bind (if headerSize = 9 then res_bind (lz_ReadU32Little data 1) (\<lambda>v. Inr (unat v))
                     else res_bind (vec_get data 1) (\<lambda>b. Inr (unat b))) (\<lambda>compressedSize.
      res_bind (if headerSize = 9 then res_bind (lz_ReadU32Little data 5) (\<lambda>v. Inr (unat v))
                else res_bind (vec_get data 2) (\<lambda>b. Inr (unat b))) (\<lambda>decompressedSize.
      if compressedSize \<noteq> length data then Inl (RuntimeError ''QuickLZ compressed size does not match input'')
      else if decompressedSize > maximumOutputSize
      then Inl (RuntimeError ''QuickLZ output exceeds maximum command size'')
      else if flags AND 0x01 = 0 then
        (if length data - headerSize \<noteq> decompressedSize
         then Inl (RuntimeError ''Invalid uncompressed QuickLZ size'')
         else Inr (drop headerSize data))
      else if decompressedSize = 0 then Inl (RuntimeError ''Invalid empty QuickLZ payload'')
      else lz_Run data (lz_decoder headerSize decompressedSize)))))"

section \<open>Safety of the whole decoder\<close>

lemma lz_produces_of_frame:
  "lz_inv q \<Longrightarrow> q' = q\<lparr>lz_src := n\<rparr> \<Longrightarrow> lz_produces 0 q q'"
  by (simp add: lz_produces_def lz_inv_def)

lemma lz_ReadU32Little_safe: "no_ub (lz_ReadU32Little data i)"
  by (auto simp: lz_ReadU32Little_def)

lemma lz_ReadControlWord_run:
  assumes "lz_ReadControlWord data q = (r, q')"
  shows "no_ub r" and "\<exists>n. q' = q\<lparr>lz_src := n\<rparr>"
proof -
  have self: "\<exists>n. q = q\<lparr>lz_src := n\<rparr>" by (rule exI [of _ "lz_src q"]) simp
  show "no_ub r" and "\<exists>n. q' = q\<lparr>lz_src := n\<rparr>"
    using assms lz_ReadU32Little_safe self
    by (auto simp: lz_ReadControlWord_def op_bind_def lz_RequireSource_def split: if_splits sum.splits prod.splits)
qed

lemma lz_DecodeTail_safe:
  "lz_inv q \<Longrightarrow> lz_DecodeTail data control q = (r, q') \<Longrightarrow>
   no_ub r \<and> (r = Inr () \<longrightarrow> lz_inv q' \<and> length (lz_out q') = length (lz_out q))"
proof (induction data control q rule: lz_DecodeTail.induct)
  case (1 data control q)
  show ?case
  proof (cases "lz_dst q < length (lz_out q)")
    case False
    with "1.prems" show ?thesis by (auto simp: lz_DecodeTail.simps)
  next
    case True
    obtain r1 q1 where step: "lz_tail_step data control q = (r1, q1)" by fastforce
    note run = lz_tail_step_run [OF "1.prems"(1) True step]
    show ?thesis
    proof (cases r1)
      case (Inl e)
      with True step run "1.prems"(2) show ?thesis
        by (auto simp: lz_DecodeTail.simps [of data control q] op_bind_def)
    next
      case (Inr c)
      with run have "lz_inv q1" "length (lz_out q1) = length (lz_out q)" by (auto simp: lz_produces_def)
      moreover have "lz_DecodeTail data c q1 = (r, q')"
        using "1.prems"(2) True step Inr by (simp add: lz_DecodeTail.simps [of data control q] op_bind_def)
      ultimately show ?thesis
        using "1.IH" [OF True _ ] step Inr by auto
    qed
  qed
qed

lemma lz_run_step_safe:
  assumes "lz_inv q" and "lz_dst q < length (lz_out q)" and "lz_run_step data control q = (r, q')"
  shows "no_ub r \<and> (\<forall>x. r = Inr x \<longrightarrow> lz_inv q' \<and> length (lz_out q') = length (lz_out q))"
proof -
  obtain r1 q1 where c: "(if control = 1 then lz_ReadControlWord data else op_return control) q = (r1, q1)" by fastforce
  have r1: "no_ub r1" and q1: "\<exists>n. q1 = q\<lparr>lz_src := n\<rparr>"
    using c lz_ReadControlWord_run [of data q r1 q1]
    by (auto split: if_splits intro: exI [of _ "lz_src q"])
  have inv1: "lz_inv q1" "lz_dst q1 < length (lz_out q1)" "length (lz_out q1) = length (lz_out q)"
    using q1 assms(1,2) by (auto simp: lz_inv_def)
  show ?thesis
  proof (cases r1)
    case (Inl e)
    with c assms(3) r1 show ?thesis by (auto simp: lz_run_step_def op_bind_def)
  next
    case (Inr cw)
    consider (ref) r2 q2 where "lz_DecodeReference data q1 = (r2, q2)" "cw AND 0x01 \<noteq> 0"
      | (tail) r2 q2 where "lz_DecodeTail data cw q1 = (r2, q2)" "cw AND 0x01 = 0" "lz_IsTail q1"
      | (lit) r2 q2 where "lz_DecodeLiteral data q1 = (r2, q2)" "cw AND 0x01 = 0" "\<not> lz_IsTail q1"
      by (metis surj_pair)
    then show ?thesis
    proof cases
      case ref
      from lz_DecodeReference_run [OF inv1(1) ref(1)] ref c Inr assms(3) inv1(3) show ?thesis
        by (cases r2) (auto simp: lz_run_step_def op_bind_def lz_produces_def)
    next
      case tail
      from lz_DecodeTail_safe [OF inv1(1) tail(1)] tail c Inr assms(3) inv1(3) show ?thesis
        by (cases r2) (auto simp: lz_run_step_def op_bind_def)
    next
      case lit
      from lz_DecodeLiteral_run [OF inv1(1,2) lit(1)] lit c Inr assms(3) inv1(3) show ?thesis
        by (cases r2) (auto simp: lz_run_step_def op_bind_def lz_produces_def)
    qed
  qed
qed

lemma lz_run_loop_safe:
  "lz_inv q \<Longrightarrow> lz_run_loop data control q = (r, q') \<Longrightarrow>
   no_ub r \<and> (r = Inr () \<longrightarrow> lz_inv q' \<and> length (lz_out q') = length (lz_out q))"
proof (induction data control q rule: lz_run_loop.induct)
  case (1 data control q)
  show ?case
  proof (cases "lz_dst q < length (lz_out q)")
    case False
    with "1.prems" show ?thesis by (auto simp: lz_run_loop.simps)
  next
    case True
    obtain r1 q1 where step: "lz_run_step data control q = (r1, q1)" by fastforce
    note run = lz_run_step_safe [OF "1.prems"(1) True step]
    consider (err) e where "r1 = Inl e" | (stop) "r1 = Inr None" | (cont) c where "r1 = Inr (Some c)"
      by (metis obj_sumE option.exhaust)
    then show ?thesis
    proof cases
      case cont
      with step have "lz_run_loop data c q1 = (r, q')"
        using "1.prems"(2) True by (simp add: lz_run_loop.simps [of data control q] op_bind_def)
      with run cont step True "1.IH" show ?thesis by force
    qed (use True step run "1.prems"(2) in \<open>auto simp: lz_run_loop.simps [of data control q] op_bind_def\<close>)
  qed
qed

lemma lz_Run_safe:
  assumes "lz_inv q"
  shows "no_ub (lz_Run data q)" and "lz_Run data q = Inr out \<Longrightarrow> length out = length (lz_out q)"
proof -
  obtain r q' where loop: "lz_run_loop data 1 q = (r, q')" by fastforce
  show "no_ub (lz_Run data q)" "lz_Run data q = Inr out \<Longrightarrow> length out = length (lz_out q)"
    using lz_run_loop_safe [OF assms loop] loop
    by (cases r; auto simp: lz_Run_def op_bind_def split: if_splits)+
qed

lemma lz_inv_decoder: "lz_inv (lz_decoder p n)"
  by (simp add: lz_inv_def lz_decoder_def)

lemma Decompress_safe: "no_ub (Decompress data m)"
proof (cases "length data < 3")
  case True
  then show ?thesis by (simp add: Decompress_def)
next
  case False
  then have header: "no_ub (vec_get data 0)" "no_ub (vec_get data 1)" "no_ub (vec_get data 2)"
    by (auto simp: vec_get_def)
  from False show ?thesis
    using lz_Run_safe(1) [OF lz_inv_decoder] lz_ReadU32Little_safe
    by (auto simp: Decompress_def Let_def intro!: no_ub_bind header header [simplified])
qed

lemma Decompress_length: "Decompress data m = Inr out \<Longrightarrow> length out \<le> m"
  by (auto simp: Decompress_def Let_def res_bind_eq_Inr lz_decoder_def lz_inv_def split: if_splits
      dest!: lz_Run_safe(2) [rotated])

section \<open>The contract a caller relies on\<close>

locale decompressor =
  fixes decompress :: "bytes \<Rightarrow> nat \<Rightarrow> bytes result"
  assumes decompress_safe: "no_ub (decompress data m)"
    and decompress_bounded: "decompress data m = Inr out \<Longrightarrow> length out \<le> m"
begin

text \<open>A caller that hands the decompressed block on within its own limit stays within it.\<close>

lemma decompress_cases:
  obtains (returned) out where "decompress data m = Inr out" "length out \<le> m"
  | (refused) e where "decompress data m = Inl e" "safe_error e"
proof (cases "decompress data m")
  case (Inl e)
  with decompress_safe [of data m] show ?thesis by (simp add: refused)
next
  case (Inr out)
  then show ?thesis using decompress_bounded by (simp add: returned)
qed

lemma decompress_zero: "decompress data 0 = Inr out \<Longrightarrow> out = []"
  using decompress_bounded [of data 0 out] by simp

end

interpretation quick_lz: decompressor Decompress
  by unfold_locales (fact Decompress_safe, fact Decompress_length)

section \<open>Properties\<close>

text \<open>
  C7: whatever bytes the peer sends, the decompressor terminates, never indexes outside the
  input, the output, the hash table or the validity table, and returns at most
  \<open>maximumSize\<close> bytes; every other outcome is one of the exceptions the code throws.
\<close>

theorem decompress_memory_safe:
  "case Decompress data maximumSize of
     Inl e \<Rightarrow> safe_error e
   | Inr out \<Rightarrow> length out \<le> maximumSize"
  by (rule quick_lz.decompress_cases [of data maximumSize]) auto

text \<open>
  A back-reference that is decoded satisfies the LZ equation, overlapping matches
  included: it appends \<open>n\<close> bytes, each equal to the byte a fixed distance before it in the new
  output, and leaves the bytes produced earlier and the size of the output as they were.
\<close>

theorem back_reference_equation:
  assumes "lz_inv q"
  shows "case lz_DecodeReference data q of
     (Inl e, q') \<Rightarrow> safe_error e
   | (Inr _, q') \<Rightarrow> \<exists>n reference. 3 \<le> n \<and> lz_produces n q q' \<and> reference < lz_dst q \<and>
       (\<forall>i. i < n \<longrightarrow> lz_out q' ! (lz_dst q + i) = lz_out q' ! (reference + i))"
proof (cases "lz_DecodeReference data q")
  case (Pair r q')
  then show ?thesis
    using lz_DecodeReference_run [OF assms Pair] by (cases r) auto
qed

definition sample_decoder :: QuickLzDecoder where
  "sample_decoder = \<lparr>lz_src = 0, lz_dst = 3, lz_out = [1, 2, 3, 0, 0, 0, 0, 0], lz_table = replicate 4096 0,
     lz_valid = replicate 4096 True, lz_last = 0\<rparr>"

theorem back_reference_equation_witness:
  "lz_inv sample_decoder \<and>
   (case lz_DecodeReference [3, 0] sample_decoder of
     (Inl e, q') \<Rightarrow> safe_error e
   | (Inr _, q') \<Rightarrow> \<exists>n reference. 3 \<le> n \<and> lz_produces n sample_decoder q' \<and> reference < lz_dst sample_decoder \<and>
       (\<forall>i. i < n \<longrightarrow> lz_out q' ! (lz_dst sample_decoder + i) = lz_out q' ! (reference + i)))"
proof -
  have inv: "lz_inv sample_decoder" by (simp add: lz_inv_def sample_decoder_def)
  show ?thesis by (rule conjI [OF inv back_reference_equation [OF inv, of "[3, 0]"]])
qed

end
