(* ===== verification/Receive_Window.thy ===== *)
theory Receive_Window
  imports Std_Map Sequence Quick_Lz
begin

text \<open>
  \<open>CommandReceiveWindow\<close> (\<open>protocol/src/reliability/command_receive_window.cpp\<close>): reordering,
  deduplication and reassembly of one reliable command stream. \<open>Feed\<close> works on the pair of
  the caller's \<open>PacketSequence\<close>, which it advances, and the window itself.

  The abstract specification is a stream: the sender's packets \<open>pkt\<close>, indexed by position,
  processed one after the other by \<open>process_run\<close>. The refinement theorem says that whatever
  order packets arrive in and however often, the window has processed exactly a contiguous
  run of that stream, in order and once each.
\<close>

section \<open>Model\<close>

record QueuedPacket =
  qp_flags :: PacketFlags
  qp_data :: bytes

record CommandReceiveWindow =
  rw_queued :: "(u64, QueuedPacket) smap"
  rw_assembling :: bool
  rw_compressed :: bool
  rw_fragments :: bytes

definition empty_window :: CommandReceiveWindow where
  "empty_window = \<lparr>rw_queued = [], rw_assembling = False, rw_compressed = False, rw_fragments = []\<rparr>"

definition MaxQueuedPackets :: nat where "MaxQueuedPackets = 64"

text \<open>The payloads pushed onto \<open>ready\<close> are the result (none or one).\<close>

definition ProcessOrdered :: "PacketFlags \<Rightarrow> bytes \<Rightarrow> (CommandReceiveWindow, bytes list) op" where
  "ProcessOrdered flags data w =
     (if length data > MaxCommandSize - length (rw_fragments w)
      then (Inl (RuntimeError ''Session command is too large''), w)
      else if \<not> rw_assembling w then
        (let fragmented = HasFlag flags Fragmented; compressed = HasFlag flags Compressed
         in if \<not> fragmented then
              (if compressed then (res_bind (Decompress data MaxCommandSize) (\<lambda>out. Inr [out]), w)
               else (Inr [data], w))
            else (Inr [], w\<lparr>rw_assembling := True, rw_compressed := compressed, rw_fragments := data\<rparr>))
      else
        (let w = w\<lparr>rw_fragments := rw_fragments w @ data\<rparr>
         in if \<not> HasFlag flags Fragmented then (Inr [], w)
            else case (if rw_compressed w then Decompress (rw_fragments w) MaxCommandSize
                       else Inr (rw_fragments w)) of
                   Inl e \<Rightarrow> (Inl e, w)
                 | Inr out \<Rightarrow> (Inr [out], w\<lparr>rw_fragments := [], rw_assembling := False, rw_compressed := False\<rparr>)))"

text \<open>\<open>ProcessOrdered\<close> on the window and \<open>Advance\<close> on the sequence, as \<open>Feed\<close> pairs them.\<close>

definition process_and_advance ::
  "PacketFlags \<Rightarrow> bytes \<Rightarrow> (PacketSequence \<times> CommandReceiveWindow, bytes list) op" where
  "process_and_advance flags data s =
     (case ProcessOrdered flags data (snd s) of
        (Inl e, w) \<Rightarrow> (Inl e, (fst s, w))
      | (Inr out, w) \<Rightarrow>
          (case Advance (fst s) of (Inl e, q) \<Rightarrow> (Inl e, (q, w)) | (Inr _, q) \<Rightarrow> (Inr out, (q, w))))"

lemma ProcessOrdered_queue: "ProcessOrdered flags data w = (r, w') \<Longrightarrow> rw_queued w' = rw_queued w"
  by (auto simp: ProcessOrdered_def Let_def split: if_splits sum.splits)

lemma process_and_advance_queue:
  "process_and_advance flags data s = (r, s') \<Longrightarrow> rw_queued (snd s') = rw_queued (snd s)"
  by (auto simp: process_and_advance_def split: prod.splits sum.splits dest: ProcessOrdered_queue)

lemma sm_erase_shrinks: "sm_find m k = Some v \<Longrightarrow> length (sm_erase k m) < length m"
  unfolding sm_erase_def sm_find_def
  by (rule length_filter_less [of "(k, v)"]) (auto dest: map_of_SomeD)

function drain :: "PacketSequence \<times> CommandReceiveWindow \<Rightarrow> bytes list result \<times> PacketSequence \<times> CommandReceiveWindow" where
  "drain s =
     (case sm_find (rw_queued (snd s)) (SequenceKey_of (fst s)) of
        None \<Rightarrow> (Inr [], s)
      | Some queued \<Rightarrow>
          op_bind (process_and_advance (qp_flags queued) (qp_data queued)) (\<lambda>out.
            op_bind drain (\<lambda>outs. op_return (out @ outs)))
          (fst s, (snd s)\<lparr>rw_queued := sm_erase (SequenceKey_of (fst s)) (rw_queued (snd s))\<rparr>))"
  by pat_completeness auto
termination
  by (relation "measure (\<lambda>s. length (rw_queued (snd s)))")
     (auto dest!: process_and_advance_queue simp: sm_erase_shrinks)

declare drain.simps [simp del]

definition Feed :: "u16 \<Rightarrow> u32 \<Rightarrow> PacketFlags \<Rightarrow> bytes \<Rightarrow> (PacketSequence \<times> CommandReceiveWindow, bytes list) op" where
  "Feed packetId generationId flags plaintext s =
     (let packetKey = SequenceKey packetId generationId; expectedKey = SequenceKey_of (fst s); w = snd s
      in if packetKey < expectedKey then (Inr [], s)
         else if packetKey > expectedKey then
           (if unat (packetKey - expectedKey) > MaxQueuedPackets
            then (Inl (RuntimeError ''Server Command packet is outside the receive window''), s)
            else if sm_contains (rw_queued w) packetKey then (Inr [], s)
            else if length (rw_queued w) \<ge> MaxQueuedPackets
            then (Inl (RuntimeError ''Server Command receive queue is full''), s)
            else (Inr [], (fst s, w\<lparr>rw_queued :=
                    sm_try_emplace packetKey \<lparr>qp_flags = flags, qp_data = plaintext\<rparr> (rw_queued w)\<rparr>)))
         else op_bind (process_and_advance flags plaintext) (\<lambda>out.
                op_bind drain (\<lambda>outs. op_return (out @ outs))) s)"

lemma Feed_cases:
  "SequenceKey p g < SequenceKey_of (fst s) \<Longrightarrow> Feed p g flags data s = (Inr [], s)"
  "SequenceKey_of (fst s) < SequenceKey p g \<Longrightarrow> Feed p g flags data s =
     (if unat (SequenceKey p g - SequenceKey_of (fst s)) > MaxQueuedPackets
      then (Inl (RuntimeError ''Server Command packet is outside the receive window''), s)
      else if sm_contains (rw_queued (snd s)) (SequenceKey p g) then (Inr [], s)
      else if length (rw_queued (snd s)) \<ge> MaxQueuedPackets
      then (Inl (RuntimeError ''Server Command receive queue is full''), s)
      else (Inr [], (fst s, (snd s)\<lparr>rw_queued :=
              sm_put (SequenceKey p g) \<lparr>qp_flags = flags, qp_data = data\<rparr> (rw_queued (snd s))\<rparr>)))"
  "SequenceKey p g = SequenceKey_of (fst s) \<Longrightarrow> Feed p g flags data s =
     op_bind (process_and_advance flags data) (\<lambda>out. op_bind drain (\<lambda>outs. op_return (out @ outs))) s"
  by (auto simp: Feed_def Let_def sm_try_emplace_def)

section \<open>Invariant\<close>

definition fragments_ok :: "CommandReceiveWindow \<Rightarrow> bool" where
  "fragments_ok w \<longleftrightarrow> length (rw_fragments w) \<le> MaxCommandSize \<and> (rw_assembling w \<or> rw_fragments w = [])"

text \<open>Queued packets lie at most 64 positions ahead of \<open>from\<close>, which is not queued itself.\<close>

definition queue_within :: "nat \<Rightarrow> nat \<Rightarrow> (u64, QueuedPacket) smap \<Rightarrow> bool" where
  "queue_within low high Q \<longleftrightarrow> sm_ok Q \<and> (\<forall>k \<in> dom (sm_find Q). low \<le> unat k \<and> unat k \<le> high)"

definition window_inv :: "PacketSequence \<times> CommandReceiveWindow \<Rightarrow> bool" where
  "window_inv s \<longleftrightarrow>
     queue_within (Suc (seq_pos (fst s))) (seq_pos (fst s) + MaxQueuedPackets) (rw_queued (snd s)) \<and>
     fragments_ok (snd s)"

lemma window_inv_empty: "window_inv (q, empty_window)"
  by (simp add: window_inv_def empty_window_def queue_within_def fragments_ok_def sm_find_def)

lemma queue_within_mono: "queue_within l h Q \<Longrightarrow> l' \<le> l \<Longrightarrow> h \<le> h' \<Longrightarrow> queue_within l' h' Q"
  by (force simp: queue_within_def)

lemma queue_within_erase:
  "queue_within l h Q \<Longrightarrow> unat k = l \<Longrightarrow> queue_within (Suc l) h (sm_erase k Q)"
  unfolding queue_within_def by (auto simp: sm_ok_erase Suc_le_eq word_unat_eq_iff split: if_splits)
     (metis domI le_neq_implies_less word_unat_eq_iff)

lemma queue_within_not_low:
  "queue_within l h Q \<Longrightarrow> unat k = l \<Longrightarrow> sm_find Q k = None \<Longrightarrow> queue_within (Suc l) h Q"
  unfolding queue_within_def by (metis Suc_leI domIff le_neq_implies_less word_unat_eq_iff)

lemma queue_within_put:
  "queue_within l h Q \<Longrightarrow> l \<le> unat k \<Longrightarrow> unat k \<le> h \<Longrightarrow> queue_within l h (sm_put k v Q)"
  by (auto simp: queue_within_def sm_find_put sm_ok_put)

text \<open>There is room for one packet per position of the window.\<close>

lemma queue_within_length: "queue_within (Suc l) (l + n) Q \<Longrightarrow> length Q \<le> n"
proof -
  assume Q: "queue_within (Suc l) (l + n) Q"
  then have "unat ` dom (sm_find Q) \<subseteq> {Suc l .. l + n}"
    by (auto simp: queue_within_def)
  then have "card (unat ` dom (sm_find Q)) \<le> n"
    using card_mono [of "{Suc l .. l + n}"] by simp
  moreover have "card (unat ` dom (sm_find Q)) = card (dom (sm_find Q))"
    by (rule card_image) (auto intro: inj_onI simp: word_unat_eq_iff)
  ultimately show ?thesis
    using Q by (simp add: sm_length_card queue_within_def)
qed

lemma queue_within_full:
  assumes "queue_within (Suc l) (l + n) Q" and "Suc l \<le> unat k" "unat k \<le> l + n" and "sm_find Q k = None"
  shows "length Q < n"
proof -
  have "length (sm_put k (undefined :: QueuedPacket) Q) \<le> n"
    by (rule queue_within_length [OF queue_within_put [OF assms(1-3)]])
  then show ?thesis
    using assms by (simp add: sm.count_put_new queue_within_def)
qed

lemma ProcessOrdered_keeps_fragments:
  assumes "fragments_ok w"
  shows "fragments_ok (snd (ProcessOrdered flags data w))"
proof (cases "length data > MaxCommandSize - length (rw_fragments w)")
  case True
  with assms show ?thesis by (simp add: ProcessOrdered_def)
next
  case False
  have "length (rw_fragments w) + length data \<le> MaxCommandSize"
    using False assms unfolding fragments_ok_def by linarith
  with assms False show ?thesis
    by (simp add: ProcessOrdered_def Let_def fragments_ok_def split: sum.split) blast
qed

lemma ProcessOrdered_fragments:
  "fragments_ok w \<Longrightarrow> ProcessOrdered flags data w = (r, w') \<Longrightarrow> fragments_ok w'"
  by (metis ProcessOrdered_keeps_fragments snd_conv)

section \<open>The ordered stream\<close>

text \<open>Processing consecutive packets of the stream, stopping at the first exception.\<close>

fun process_run :: "(PacketFlags \<times> bytes) list \<Rightarrow> (CommandReceiveWindow, bytes list) op" where
  "process_run [] = op_return []"
| "process_run (p # ps) =
     op_bind (ProcessOrdered (fst p) (snd p)) (\<lambda>out. op_bind (process_run ps) (\<lambda>outs. op_return (out @ outs)))"

lemma process_run_append:
  "process_run ps w = (Inr outs, w') \<Longrightarrow> process_run qs w' = (Inr outs', w'') \<Longrightarrow>
   process_run (ps @ qs) w = (Inr (outs @ outs'), w'')"
  by (induction ps arbitrary: w outs) (auto simp: op_bind_eq_Inr)

text \<open>The reassembly state, without the reorder queue.\<close>

definition core :: "CommandReceiveWindow \<Rightarrow> CommandReceiveWindow" where
  "core w = w\<lparr>rw_queued := []\<rparr>"

lemma core_simps [simp]:
  "core (w\<lparr>rw_queued := Q\<rparr>) = core w"
  "core (core w) = core w"
  "rw_fragments (core w) = rw_fragments w" "rw_assembling (core w) = rw_assembling w"
  "rw_compressed (core w) = rw_compressed w"
  by (simp_all add: core_def)

lemma ProcessOrdered_core: "ProcessOrdered flags data w = (r, w') \<Longrightarrow> ProcessOrdered flags data (core w) = (r, core w')"
proof -
  assume "ProcessOrdered flags data w = (r, w')"
  moreover have "ProcessOrdered flags data (core w) =
      (fst (ProcessOrdered flags data w), core (snd (ProcessOrdered flags data w)))"
    by (cases "rw_assembling w"; cases "rw_compressed w"; cases "Decompress (rw_fragments w @ data) MaxCommandSize")
       (simp_all add: ProcessOrdered_def core_def Let_def)
  ultimately show ?thesis by simp
qed

lemma process_and_advance_Inr:
  "process_and_advance flags data s = (Inr out, s') \<longleftrightarrow>
     ProcessOrdered flags data (snd s) = (Inr out, snd s') \<and> Advance (fst s) = (Inr (), fst s')"
  by (cases s') (auto simp: process_and_advance_def split: prod.splits sum.splits)

text \<open>The queue holds packets of the stream, under their own positions.\<close>

definition queue_from :: "(nat \<Rightarrow> PacketFlags \<times> bytes) \<Rightarrow> CommandReceiveWindow \<Rightarrow> bool" where
  "queue_from pkt w \<longleftrightarrow>
     (\<forall>k qp. sm_find (rw_queued w) k = Some qp \<longrightarrow> (qp_flags qp, qp_data qp) = pkt (unat k))"

abbreviation stream_slice :: "(nat \<Rightarrow> PacketFlags \<times> bytes) \<Rightarrow> nat \<Rightarrow> nat \<Rightarrow> (PacketFlags \<times> bytes) list" where
  "stream_slice pkt from to \<equiv> map pkt [from ..< to]"

lemma slice_append:
  "a \<le> b \<Longrightarrow> b \<le> c \<Longrightarrow> stream_slice pkt a c = stream_slice pkt a b @ stream_slice pkt b c"
  by (metis le_Suc_ex map_append upt_add_eq_append)

lemma process_and_advance_stream:
  assumes "process_and_advance (fst (pkt (seq_pos (fst s)))) (snd (pkt (seq_pos (fst s)))) s = (Inr out, s')"
  shows "seq_pos (fst s') = Suc (seq_pos (fst s))"
    and "process_run (stream_slice pkt (seq_pos (fst s)) (seq_pos (fst s'))) (core (snd s)) = (Inr out, core (snd s'))"
proof -
  from assms have po: "ProcessOrdered (fst (pkt (seq_pos (fst s)))) (snd (pkt (seq_pos (fst s)))) (snd s) = (Inr out, snd s')"
    and adv: "Advance (fst s) = (Inr (), fst s')"
    by (auto simp: process_and_advance_Inr)
  from adv show pos: "seq_pos (fst s') = Suc (seq_pos (fst s))"
    by (simp add: Advance_cases)
  show "process_run (stream_slice pkt (seq_pos (fst s)) (seq_pos (fst s'))) (core (snd s)) = (Inr out, core (snd s'))"
    using ProcessOrdered_core [OF po] by (simp add: pos op_bind_def)
qed

text \<open>
  Draining the queue: a contiguous run of the stream is processed, and the packet at the new
  expected position is not in the queue.
\<close>

lemma drain_stream:
  "queue_from pkt (snd s) \<Longrightarrow> drain s = (Inr outs, s') \<Longrightarrow>
   seq_pos (fst s) \<le> seq_pos (fst s') \<and> queue_from pkt (snd s') \<and>
   process_run (stream_slice pkt (seq_pos (fst s)) (seq_pos (fst s'))) (core (snd s)) = (Inr outs, core (snd s')) \<and>
   sm_find (rw_queued (snd s')) (SequenceKey_of (fst s')) = None \<and>
   (\<forall>k. sm_find (rw_queued (snd s')) k =
          (if unat k \<in> {seq_pos (fst s) ..< seq_pos (fst s')} then None else sm_find (rw_queued (snd s)) k)) \<and>
   (\<forall>p \<in> {seq_pos (fst s) ..< seq_pos (fst s')}. \<exists>k. unat k = p \<and> sm_find (rw_queued (snd s)) k \<noteq> None)"
proof (induction s arbitrary: outs rule: drain.induct)
  case (1 s)
  let ?k = "SequenceKey_of (fst s)" and ?p = "seq_pos (fst s)"
  show ?case
  proof (cases "sm_find (rw_queued (snd s)) ?k")
    case None
    with "1.prems" show ?thesis by (simp add: drain.simps [of s])
  next
    case (Some qp)
    let ?s1 = "(fst s, (snd s)\<lparr>rw_queued := sm_erase ?k (rw_queued (snd s))\<rparr>)"
    have "(qp_flags qp, qp_data qp) = pkt ?p"
      using "1.prems"(1) Some by (auto simp: queue_from_def unat_SequenceKey_of)
    then have qp: "qp_flags qp = fst (pkt ?p)" "qp_data qp = snd (pkt ?p)"
      by (metis fst_conv, metis snd_conv)
    from "1.prems"(2) Some obtain out s2 outs2 where
      step: "process_and_advance (qp_flags qp) (qp_data qp) ?s1 = (Inr out, s2)"
      and rest: "drain s2 = (Inr outs2, s')" and outs: "outs = out @ outs2"
      by (auto simp: drain.simps [of s] op_bind_eq_Inr)
    from step have pos: "seq_pos (fst s2) = Suc ?p"
      and run: "process_run (stream_slice pkt ?p (Suc ?p)) (core (snd s)) = (Inr out, core (snd s2))"
      using process_and_advance_stream [of pkt ?s1 out s2] qp by simp_all
    have queue: "rw_queued (snd s2) = sm_erase ?k (rw_queued (snd s))"
      using process_and_advance_queue [OF step] by simp
    then have "queue_from pkt (snd s2)"
      using "1.prems"(1) by (auto simp: queue_from_def split: if_splits)
    note IH = "1.IH" [OF Some step this rest]
    have key: "unat k = ?p \<longleftrightarrow> k = ?k" for k
      using unat_SequenceKey_of [of "fst s"] by (auto simp: word_unat_eq_iff)
    have slice: "stream_slice pkt ?p (seq_pos (fst s')) =
        stream_slice pkt ?p (Suc ?p) @ stream_slice pkt (Suc ?p) (seq_pos (fst s'))"
      using IH pos by (simp add: upt_conv_Cons)
    have "process_run (stream_slice pkt ?p (seq_pos (fst s'))) (core (snd s)) = (Inr outs, core (snd s'))"
      unfolding slice outs using process_run_append [OF run] IH pos by simp
    moreover have "\<exists>k. unat k = p \<and> sm_find (rw_queued (snd s)) k \<noteq> None" if "p \<in> {?p ..< seq_pos (fst s')}" for p
    proof (cases "p = ?p")
      case True
      with Some key show ?thesis by auto
    next
      case False
      with that pos have "p \<in> {seq_pos (fst s2) ..< seq_pos (fst s')}" by auto
      with IH obtain k where "unat k = p" "sm_find (rw_queued (snd s2)) k \<noteq> None" by blast
      with queue show ?thesis by (auto split: if_splits)
    qed
    moreover have "sm_find (rw_queued (snd s')) k =
        (if unat k \<in> {?p ..< seq_pos (fst s')} then None else sm_find (rw_queued (snd s)) k)" for k
      using IH pos queue key [of k] by auto
    moreover have "queue_from pkt (snd s')" "sm_find (rw_queued (snd s')) (SequenceKey_of (fst s')) = None"
      using IH by blast+
    moreover have "?p \<le> seq_pos (fst s')"
      using IH pos by linarith
    ultimately show ?thesis by blast
  qed
qed

section \<open>Feeding packets\<close>

text \<open>A packet of the stream, identified by its id and generation.\<close>

definition feed_from :: "(nat \<Rightarrow> PacketFlags \<times> bytes) \<Rightarrow> u16 \<times> u32 \<Rightarrow> (PacketSequence \<times> CommandReceiveWindow, bytes list) op" where
  "feed_from pkt pg = Feed (fst pg) (snd pg) (fst (pkt (key_nat (fst pg) (snd pg)))) (snd (pkt (key_nat (fst pg) (snd pg))))"

lemma unat_key_diff: "SequenceKey_of q < k \<Longrightarrow> unat (k - SequenceKey_of q) = unat k - seq_pos q"
  by (simp add: unat_sub unat_SequenceKey_of)

lemma feed_from_stream:
  assumes "window_inv s" and "queue_from pkt (snd s)" and "feed_from pkt (p, g) s = (Inr outs, s')"
    and "sm_find (rw_queued (snd s)) (SequenceKey_of (fst s)) = None"
  shows "seq_pos (fst s) \<le> seq_pos (fst s')" and "queue_from pkt (snd s')"
    and "process_run (stream_slice pkt (seq_pos (fst s)) (seq_pos (fst s'))) (core (snd s)) = (Inr outs, core (snd s'))"
    and "sm_find (rw_queued (snd s')) (SequenceKey_of (fst s')) = None"
    and "{n. seq_pos (fst s') \<le> n \<and> (\<exists>k. unat k = n \<and> sm_find (rw_queued (snd s')) k \<noteq> None)} =
         {n. seq_pos (fst s') \<le> n \<and> (n = key_nat p g \<or> (\<exists>k. unat k = n \<and> sm_find (rw_queued (snd s)) k \<noteq> None))}"
    and "\<forall>n \<in> {seq_pos (fst s) ..< seq_pos (fst s')}.
           n = key_nat p g \<or> (\<exists>k. unat k = n \<and> sm_find (rw_queued (snd s)) k \<noteq> None)"
proof -
  let ?k = "SequenceKey p g" and ?e = "SequenceKey_of (fst s)" and ?Q = "rw_queued (snd s)"
  have ok: "sm_ok ?Q" using assms(1) by (simp add: window_inv_def queue_within_def)
  have key: "unat k = key_nat p g \<longleftrightarrow> k = ?k" for k
    by (metis unat_SequenceKey word_unat_eq_iff)
  consider (old) "?k < ?e" | (ahead) "?k > ?e" | (inorder) "?k = ?e" by (metis linorder_neqE)
  then have goal: "seq_pos (fst s) \<le> seq_pos (fst s') \<and> queue_from pkt (snd s') \<and>
    process_run (stream_slice pkt (seq_pos (fst s)) (seq_pos (fst s'))) (core (snd s)) = (Inr outs, core (snd s')) \<and>
    sm_find (rw_queued (snd s')) (SequenceKey_of (fst s')) = None \<and>
    {n. seq_pos (fst s') \<le> n \<and> (\<exists>k. unat k = n \<and> sm_find (rw_queued (snd s')) k \<noteq> None)} =
    {n. seq_pos (fst s') \<le> n \<and> (n = key_nat p g \<or> (\<exists>k. unat k = n \<and> sm_find ?Q k \<noteq> None))} \<and>
    (\<forall>n \<in> {seq_pos (fst s) ..< seq_pos (fst s')}.
           n = key_nat p g \<or> (\<exists>k. unat k = n \<and> sm_find ?Q k \<noteq> None))"
  proof cases
    case old
    then have "key_nat p g < seq_pos (fst s)"
      by (simp add: word_less_nat_alt unat_SequenceKey unat_SequenceKey_of)
    moreover from old assms(3) have "outs = []" "s' = s"
      by (simp_all add: feed_from_def Feed_def)
    ultimately show ?thesis using assms(2,4) by auto
  next
    case ahead
    let ?qp = "\<lparr>qp_flags = fst (pkt (key_nat p g)), qp_data = snd (pkt (key_nat p g))\<rparr>"
    from ahead assms(3) have s': "outs = []" "s' = (fst s, (snd s)\<lparr>rw_queued := sm_try_emplace ?k ?qp ?Q\<rparr>)"
      by (auto simp: feed_from_def Feed_def Let_def sm_try_emplace_def split: if_splits)
    then have find: "sm_find (rw_queued (snd s')) k = (if k = ?k \<and> sm_find ?Q ?k = None then Some ?qp else sm_find ?Q k)" for k
      by (simp add: sm_find_try_emplace ok)
    have "queue_from pkt (snd s')"
      using assms(2) by (auto simp: queue_from_def find unat_SequenceKey split: if_splits)
    moreover have "(\<exists>k. unat k = n \<and> sm_find (rw_queued (snd s')) k \<noteq> None) \<longleftrightarrow>
        (n = key_nat p g \<or> (\<exists>k. unat k = n \<and> sm_find ?Q k \<noteq> None))" for n
      using key find by (metis option.distinct(1))
    moreover have "?e \<noteq> ?k" using ahead by auto
    ultimately show ?thesis
      using s' find assms(4) by simp
  next
    case inorder
    then have pos: "key_nat p g = seq_pos (fst s)"
      by (metis unat_SequenceKey unat_SequenceKey_of)
    from inorder assms(3) obtain out s1 outs1 where
      step: "process_and_advance (fst (pkt (seq_pos (fst s)))) (snd (pkt (seq_pos (fst s)))) s = (Inr out, s1)"
      and rest: "drain s1 = (Inr outs1, s')" and outs: "outs = out @ outs1"
      by (auto simp: feed_from_def Feed_def pos op_bind_eq_Inr)
    note first = process_and_advance_stream [of pkt s out s1, OF step]
    have queue: "rw_queued (snd s1) = ?Q" by (rule process_and_advance_queue [OF step])
    with assms(2) have "queue_from pkt (snd s1)" by (simp add: queue_from_def)
    note more = drain_stream [OF this rest]
    let ?n = "seq_pos (fst s)"
    have slice: "stream_slice pkt ?n (seq_pos (fst s')) =
        stream_slice pkt ?n (seq_pos (fst s1)) @ stream_slice pkt (seq_pos (fst s1)) (seq_pos (fst s'))"
      using first(1) more by (simp add: upt_conv_Cons)
    have "process_run (stream_slice pkt ?n (seq_pos (fst s'))) (core (snd s)) = (Inr outs, core (snd s'))"
      unfolding slice outs using process_run_append [OF first(2)] more by simp
    then show ?thesis
      using more first(1) pos queue by (fastforce simp: less_Suc_eq_le)
  qed
  then show "seq_pos (fst s) \<le> seq_pos (fst s')" and "queue_from pkt (snd s')"
    and "process_run (stream_slice pkt (seq_pos (fst s)) (seq_pos (fst s'))) (core (snd s)) = (Inr outs, core (snd s'))"
    and "sm_find (rw_queued (snd s')) (SequenceKey_of (fst s')) = None"
    and "{n. seq_pos (fst s') \<le> n \<and> (\<exists>k. unat k = n \<and> sm_find (rw_queued (snd s')) k \<noteq> None)} =
         {n. seq_pos (fst s') \<le> n \<and> (n = key_nat p g \<or> (\<exists>k. unat k = n \<and> sm_find ?Q k \<noteq> None))}"
    and "\<forall>n \<in> {seq_pos (fst s) ..< seq_pos (fst s')}.
           n = key_nat p g \<or> (\<exists>k. unat k = n \<and> sm_find ?Q k \<noteq> None)"
    by blast+
qed

section \<open>The invariant is kept, also by a call that throws\<close>

lemma process_and_advance_inv:
  assumes "fragments_ok (snd s)" and "process_and_advance flags data s = (r, s')"
  shows "fragments_ok (snd s')" "seq_pos (fst s') \<in> {seq_pos (fst s), Suc (seq_pos (fst s))}"
    "r = Inr out \<Longrightarrow> seq_pos (fst s') = Suc (seq_pos (fst s))" "r = Inl e \<Longrightarrow> fst s' = fst s"
proof -
  obtain r1 w1 where po: "ProcessOrdered flags data (snd s) = (r1, w1)" by fastforce
  note frag = ProcessOrdered_fragments [OF assms(1) po]
  obtain r2 q2 where adv: "Advance (fst s) = (r2, q2)" by fastforce
  have "fragments_ok (snd s') \<and> (\<forall>out. r = Inr out \<longrightarrow> seq_pos (fst s') = Suc (seq_pos (fst s))) \<and>
      (\<forall>e. r = Inl e \<longrightarrow> fst s' = fst s)"
    using assms(2) po adv frag
    by (cases r1; cases r2) (auto simp: process_and_advance_def Advance_cases)
  then show "fragments_ok (snd s')" "seq_pos (fst s') \<in> {seq_pos (fst s), Suc (seq_pos (fst s))}"
    "r = Inr out \<Longrightarrow> seq_pos (fst s') = Suc (seq_pos (fst s))" "r = Inl e \<Longrightarrow> fst s' = fst s"
    by (cases r; auto)+
qed

lemma drain_inv:
  "queue_within (seq_pos (fst s)) (seq_pos (fst s) + MaxQueuedPackets) (rw_queued (snd s)) \<Longrightarrow>
   fragments_ok (snd s) \<Longrightarrow> drain s = (r, s') \<Longrightarrow> window_inv s'"
proof (induction s arbitrary: r rule: drain.induct)
  case (1 s)
  let ?k = "SequenceKey_of (fst s)" and ?p = "seq_pos (fst s)"
  have k: "unat ?k = ?p" by (simp add: unat_SequenceKey_of)
  show ?case
  proof (cases "sm_find (rw_queued (snd s)) ?k")
    case None
    with "1.prems" queue_within_not_low [OF "1.prems"(1) k] show ?thesis
      by (simp add: drain.simps [of s] window_inv_def)
  next
    case (Some qp)
    let ?s1 = "(fst s, (snd s)\<lparr>rw_queued := sm_erase ?k (rw_queued (snd s))\<rparr>)"
    obtain r1 s2 where step: "process_and_advance (qp_flags qp) (qp_data qp) ?s1 = (r1, s2)" by (metis surj_pair)
    have "fragments_ok (snd ?s1)" using "1.prems"(2) by (simp add: fragments_ok_def)
    note inv = process_and_advance_inv [OF this step]
    have queue: "queue_within (Suc ?p) (?p + MaxQueuedPackets) (rw_queued (snd s2))"
      using process_and_advance_queue [OF step] queue_within_erase [OF "1.prems"(1) k] by simp
    show ?thesis
    proof (cases r1)
      case (Inl e)
      with step Some "1.prems"(3) have "s' = s2"
        by (auto simp: drain.simps [of s] op_bind_def)
      with Inl inv queue show ?thesis by (simp add: window_inv_def)
    next
      case (Inr out)
      then obtain r2 where "drain s2 = (r2, s')"
        using step Some "1.prems"(3) by (auto simp: drain.simps [of s] op_bind_def split: prod.splits sum.splits)
      moreover have "queue_within (seq_pos (fst s2)) (seq_pos (fst s2) + MaxQueuedPackets) (rw_queued (snd s2))"
        using inv(3) [OF Inr] queue by (auto intro: queue_within_mono)
      ultimately show ?thesis
        using "1.IH" [OF Some _ _ inv(1)] step Inr by simp
    qed
  qed
qed

lemma Feed_inv:
  assumes "window_inv s" and "Feed p g flags data s = (r, s')"
  shows "window_inv s'" and "r \<noteq> Inl (RuntimeError ''Server Command receive queue is full'') \<or> SequenceKey p g = SequenceKey_of (fst s)"
proof -
  let ?k = "SequenceKey p g" and ?e = "SequenceKey_of (fst s)" and ?Q = "rw_queued (snd s)"
  have Q: "queue_within (Suc (seq_pos (fst s))) (seq_pos (fst s) + MaxQueuedPackets) ?Q"
    using assms(1) by (simp add: window_inv_def)
  consider (old) "?k < ?e" | (ahead) "?k > ?e" | (inorder) "?k = ?e" by (metis linorder_neqE)
  then have "window_inv s' \<and> (r \<noteq> Inl (RuntimeError ''Server Command receive queue is full'') \<or> ?k = ?e)"
  proof cases
    case old
    with assms show ?thesis by (auto simp: Feed_cases(1))
  next
    case ahead
    then have low: "Suc (seq_pos (fst s)) \<le> unat ?k"
      by (simp add: word_less_nat_alt unat_SequenceKey_of)
    show ?thesis
    proof (cases "unat (?k - ?e) > MaxQueuedPackets \<or> sm_contains ?Q ?k")
      case True
      with assms show ?thesis by (auto simp: Feed_cases(2) [OF ahead] split: if_splits)
    next
      case False
      then have high: "unat ?k \<le> seq_pos (fst s) + MaxQueuedPackets"
        using unat_key_diff [OF ahead] by linarith
      have none: "sm_find ?Q ?k = None" using False by (simp add: sm_contains_def)
      have "\<not> length ?Q \<ge> MaxQueuedPackets"
        using queue_within_full [OF Q low high none] by simp
      with False assms queue_within_put [OF Q low high] show ?thesis
        by (auto simp: Feed_cases(2) [OF ahead] window_inv_def fragments_ok_def)
    qed
  next
    case inorder
    obtain r1 s1 where step: "process_and_advance flags data s = (r1, s1)" by (metis surj_pair)
    have "fragments_ok (snd s)" using assms(1) by (simp add: window_inv_def)
    note inv = process_and_advance_inv [OF this step]
    note queue = process_and_advance_queue [OF step]
    show ?thesis
    proof (cases r1)
      case (Inl e)
      with inorder assms step inv queue show ?thesis
        by (auto simp: Feed_cases(3) op_bind_def window_inv_def)
    next
      case (Inr out)
      then obtain r2 where "drain s1 = (r2, s')"
        using step inorder assms(2) by (auto simp: Feed_cases(3) op_bind_def split: prod.splits sum.splits)
      moreover have "queue_within (seq_pos (fst s1)) (seq_pos (fst s1) + MaxQueuedPackets) (rw_queued (snd s1))"
        using inv(3) [OF Inr] Q queue by (auto intro: queue_within_mono)
      ultimately show ?thesis
        using drain_inv inv(1) inorder by blast
    qed
  qed
  then show "window_inv s'" and "r \<noteq> Inl (RuntimeError ''Server Command receive queue is full'') \<or> ?k = ?e"
    by simp_all
qed

lemma window_inv_expected_absent:
  "window_inv s \<Longrightarrow> sm_find (rw_queued (snd s)) (SequenceKey_of (fst s)) = None"
  by (force simp: window_inv_def queue_within_def unat_SequenceKey_of)

section \<open>Arbitrary arrival sequences\<close>

fun feed_all :: "(nat \<Rightarrow> PacketFlags \<times> bytes) \<Rightarrow> (u16 \<times> u32) list \<Rightarrow> (PacketSequence \<times> CommandReceiveWindow, bytes list) op" where
  "feed_all pkt [] = op_return []"
| "feed_all pkt (a # as) =
     op_bind (feed_from pkt a) (\<lambda>out. op_bind (feed_all pkt as) (\<lambda>outs. op_return (out @ outs)))"

abbreviation arrived :: "(u16 \<times> u32) list \<Rightarrow> nat set" where
  "arrived as \<equiv> (\<lambda>a. key_nat (fst a) (snd a)) ` set as"

abbreviation queued_at :: "PacketSequence \<times> CommandReceiveWindow \<Rightarrow> nat \<Rightarrow> bool" where
  "queued_at s n \<equiv> \<exists>k. unat k = n \<and> sm_find (rw_queued (snd s)) k \<noteq> None"

lemma feed_all_stream:
  "window_inv s \<Longrightarrow> queue_from pkt (snd s) \<Longrightarrow> feed_all pkt as s = (Inr outs, s') \<Longrightarrow>
   window_inv s' \<and> queue_from pkt (snd s') \<and> seq_pos (fst s) \<le> seq_pos (fst s') \<and>
   process_run (stream_slice pkt (seq_pos (fst s)) (seq_pos (fst s'))) (core (snd s)) = (Inr outs, core (snd s')) \<and>
   (\<forall>n \<ge> seq_pos (fst s'). queued_at s' n \<longleftrightarrow> n \<in> arrived as \<or> queued_at s n) \<and>
   (\<forall>n \<in> {seq_pos (fst s) ..< seq_pos (fst s')}. n \<in> arrived as \<or> queued_at s n)"
proof (induction as arbitrary: s outs)
  case Nil
  then show ?case by simp
next
  case (Cons a as)
  obtain p g where a: "a = (p, g)" by fastforce
  from Cons.prems(3) obtain out s1 outs1 where
    step: "feed_from pkt (p, g) s = (Inr out, s1)" and rest: "feed_all pkt as s1 = (Inr outs1, s')"
    and outs: "outs = out @ outs1"
    by (auto simp: op_bind_eq_Inr a)
  note first = feed_from_stream [OF Cons.prems(1,2) step window_inv_expected_absent [OF Cons.prems(1)]]
  have "window_inv s1"
    using Feed_inv(1) [OF Cons.prems(1)] step unfolding feed_from_def by blast
  note IH = Cons.IH [OF this first(2) rest]
  then have inv: "window_inv s'" "queue_from pkt (snd s')"
    and le: "seq_pos (fst s1) \<le> seq_pos (fst s')"
    and run1: "process_run (stream_slice pkt (seq_pos (fst s1)) (seq_pos (fst s'))) (core (snd s1)) = (Inr outs1, core (snd s'))"
    and after: "\<And>n. seq_pos (fst s') \<le> n \<Longrightarrow> queued_at s' n \<longleftrightarrow> n \<in> arrived as \<or> queued_at s1 n"
    and between: "\<And>n. n \<in> {seq_pos (fst s1) ..< seq_pos (fst s')} \<Longrightarrow> n \<in> arrived as \<or> queued_at s1 n"
    by blast+
  have run: "process_run (stream_slice pkt (seq_pos (fst s)) (seq_pos (fst s'))) (core (snd s)) = (Inr outs, core (snd s'))"
    unfolding slice_append [OF first(1) le] outs by (rule process_run_append [OF first(3) run1])
  have queued: "queued_at s1 n \<longleftrightarrow> n = key_nat p g \<or> queued_at s n" if "seq_pos (fst s1) \<le> n" for n
    using first(5) that by blast
  have arr: "n \<in> arrived (a # as) \<longleftrightarrow> n = key_nat p g \<or> n \<in> arrived as" for n
    by (simp add: a)
  have later: "queued_at s' n \<longleftrightarrow> n \<in> arrived (a # as) \<or> queued_at s n" if n: "seq_pos (fst s') \<le> n" for n
    using after [OF n] queued [OF le_trans [OF le n]] arr by blast
  have "n \<in> arrived (a # as) \<or> queued_at s n" if n: "n \<in> {seq_pos (fst s) ..< seq_pos (fst s')}" for n
  proof (cases "n < seq_pos (fst s1)")
    case True
    then have "n \<in> {seq_pos (fst s) ..< seq_pos (fst s1)}" using n by simp
    then show ?thesis using first(6) arr by blast
  next
    case False
    then have "n \<in> {seq_pos (fst s1) ..< seq_pos (fst s')}" using n by simp
    then show ?thesis using between [of n] queued [of n] False arr [of n] by fastforce
  qed
  with run later inv le_trans [OF first(1) le] show ?case
    by (intro conjI allI impI ballI)
qed

lemma feed_all_from_empty:
  assumes "feed_all pkt as (q, empty_window) = (Inr outs, (q', w'))"
  shows "process_run (stream_slice pkt (seq_pos q) (seq_pos q')) empty_window = (Inr outs, core w')"
    and "{seq_pos q ..< seq_pos q'} \<subseteq> arrived as" and "seq_pos q' \<notin> arrived as"
    and "seq_pos q \<le> seq_pos q'" and "window_inv (q', w')"
proof -
  have from_empty: "queue_from pkt (snd (q, empty_window))"
    by (simp add: queue_from_def empty_window_def sm_find_def)
  have none: "\<not> queued_at (q, empty_window) n" for n
    by (simp add: empty_window_def sm_find_def)
  have core: "core empty_window = empty_window" by (simp add: core_def empty_window_def)
  note all = feed_all_stream [OF window_inv_empty from_empty assms]
  show "process_run (stream_slice pkt (seq_pos q) (seq_pos q')) empty_window = (Inr outs, core w')"
    and "seq_pos q \<le> seq_pos q'" and inv: "window_inv (q', w')"
    using all core by simp_all
  show "{seq_pos q ..< seq_pos q'} \<subseteq> arrived as"
    using all none by auto
  have "\<not> queued_at (q', w') (seq_pos q')"
    using window_inv_expected_absent [OF inv] by (metis fst_conv unat_SequenceKey_of word_unat_eq_iff)
  then show "seq_pos q' \<notin> arrived as"
    using all none by auto
qed

section \<open>Reassembling what \<open>CommandFragmenter::Plan\<close> cuts up\<close>

lemma process_run_middle:
  "rw_assembling w \<Longrightarrow> length (rw_fragments w) + length (concat ds) \<le> MaxCommandSize \<Longrightarrow>
   process_run (map (Pair NewProtocol) ds) w = (Inr [], w\<lparr>rw_fragments := rw_fragments w @ concat ds\<rparr>)"
proof (induction ds arbitrary: w)
  case (Cons d ds)
  let ?w = "w\<lparr>rw_fragments := rw_fragments w @ d\<rparr>"
  have "ProcessOrdered NewProtocol d w = (Inr [], ?w)"
    using Cons.prems by (simp add: ProcessOrdered_def HasFlag_def Let_def)
  moreover have "process_run (map (Pair NewProtocol) ds) ?w = (Inr [], ?w\<lparr>rw_fragments := rw_fragments ?w @ concat ds\<rparr>)"
    using Cons.prems by (intro Cons.IH) simp_all
  ultimately show ?case by (simp add: op_bind_def)
qed simp

text \<open>The packets a planned command is sent as.\<close>

definition planned_packets :: "bytes \<Rightarrow> CommandFragment list \<Rightarrow> (PacketFlags \<times> bytes) list" where
  "planned_packets data = map (\<lambda>f. (cf_flags f, fragment_slice data f))"

lemma planned_packets_marked:
  assumes "\<forall>f \<in> set fs. cf_flags f = NewProtocol"
  shows "planned_packets data fs = map (Pair NewProtocol) (map (fragment_slice data) fs)"
  using assms by (simp add: planned_packets_def)

lemma process_run_fragments:
  assumes "rw_assembling w = False" "rw_fragments w = []" "rw_compressed w = False"
    and "length (first @ concat mid @ final) \<le> MaxCommandSize"
  shows "process_run ((NewProtocol OR Fragmented, first) # map (Pair NewProtocol) mid @ [(NewProtocol OR Fragmented, final)]) w
         = (Inr [first @ concat mid @ final], w)"
proof -
  let ?w1 = "w\<lparr>rw_assembling := True, rw_fragments := first\<rparr>"
  let ?w2 = "?w1\<lparr>rw_fragments := first @ concat mid\<rparr>"
  have start: "process_run [(NewProtocol OR Fragmented, first)] w = (Inr [], ?w1)"
    using assms by (simp add: ProcessOrdered_def HasFlag_def Let_def op_bind_def)
  have middle: "process_run (map (Pair NewProtocol) mid) ?w1 = (Inr [], ?w2)"
    using assms(4) process_run_middle [of ?w1 mid] by simp
  have finish: "process_run [(NewProtocol OR Fragmented, final)] ?w2 = (Inr [first @ concat mid @ final], w)"
    using assms by (cases w) (simp add: ProcessOrdered_def HasFlag_def Let_def op_bind_def)
  show ?thesis
    using process_run_append [OF start process_run_append [OF middle finish]] by simp
qed

lemma process_run_planned:
  assumes "Plan (length data) = Inr fs"
  shows "process_run (planned_packets data fs) empty_window = (Inr [data], empty_window)"
proof (cases "length data \<le> 487")
  case True
  with assms have "fs = [\<lparr>cf_offset = 0, cf_size = length data, cf_flags = NewProtocol\<rparr>]"
    by (auto simp: Plan_def limit_defs)
  with True show ?thesis
    by (simp add: planned_packets_def fragment_slice_def ProcessOrdered_def HasFlag_def Let_def op_bind_def
        empty_window_def limit_defs)
next
  case False
  with assms have fs: "fs = plan_loop (length data) 0" and size: "length data \<le> MaxCommandSize"
    by (auto simp: Plan_def limit_defs split: if_splits)
  from False plan_loop_shape [of "length data"] obtain f mid l where
    shape: "plan_loop (length data) 0 = f # mid @ [l]" and flags: "cf_flags f = NewProtocol OR Fragmented"
    "\<forall>f \<in> set mid. cf_flags f = NewProtocol" "cf_flags l = NewProtocol OR Fragmented"
    by auto
  have joined: "fragment_slice data f @ concat (map (fragment_slice data) mid) @ fragment_slice data l = data"
    using plan_loop_slices [of data 0] by (simp add: shape)
  have "planned_packets data fs = (NewProtocol OR Fragmented, fragment_slice data f) #
      map (Pair NewProtocol) (map (fragment_slice data) mid) @ [(NewProtocol OR Fragmented, fragment_slice data l)]"
    using planned_packets_marked [OF flags(2)] by (simp add: fs shape flags planned_packets_def)
  then show ?thesis
    using process_run_fragments [of empty_window "fragment_slice data f" "map (fragment_slice data) mid" "fragment_slice data l"]
      size joined by (simp add: empty_window_def)
qed

section \<open>Properties\<close>

text \<open>
  Whatever packets arrive, in whatever order and however often, \<open>Feed\<close> keeps the window
  invariant, even when it throws: at most 64 packets wait, all strictly ahead of the expected
  position and at most 64 ahead, and at most 64 KiB of fragments are buffered.
\<close>

theorem feed_keeps_window:
  assumes "window_inv s"
  shows "window_inv (snd (Feed packetId generationId flags plaintext s)) \<and>
         length (rw_queued (snd (snd (Feed packetId generationId flags plaintext s)))) \<le> MaxQueuedPackets"
proof -
  obtain r s' where feed: "Feed packetId generationId flags plaintext s = (r, s')" by (rule prod.exhaust)
  from Feed_inv(1) [OF assms feed] have "window_inv s'" .
  then show ?thesis
    using queue_within_length feed by (auto simp: window_inv_def)
qed

theorem feed_keeps_window_witness:
  "window_inv (\<lparr>ps_packetId = 1, ps_generationId = 0\<rparr>, empty_window) \<and>
   window_inv (snd (Feed 3 0 NewProtocol [7] (\<lparr>ps_packetId = 1, ps_generationId = 0\<rparr>, empty_window)))"
  using feed_keeps_window [OF window_inv_empty, of 3 0 NewProtocol "[7]" "\<lparr>ps_packetId = 1, ps_generationId = 0\<rparr>"]
    window_inv_empty by blast

text \<open>
  A packet ahead of the expected one by at most 64 positions that is not already waiting is
  always queued, and nothing is delivered: the \<open>receive queue is full\<close> exception of the code
  cannot be reached, since the window has one slot for every position it admits.
\<close>

theorem ahead_packet_is_queued:
  assumes "window_inv s" and "seq_pos (fst s) < key_nat packetId generationId"
    and "key_nat packetId generationId \<le> seq_pos (fst s) + MaxQueuedPackets"
    and "\<not> sm_contains (rw_queued (snd s)) (SequenceKey packetId generationId)"
  shows "Feed packetId generationId flags plaintext s =
     (Inr [], (fst s, (snd s)\<lparr>rw_queued := sm_put (SequenceKey packetId generationId)
                \<lparr>qp_flags = flags, qp_data = plaintext\<rparr> (rw_queued (snd s))\<rparr>))"
proof -
  let ?k = "SequenceKey packetId generationId"
  have ahead: "SequenceKey_of (fst s) < ?k"
    using assms(2) by (simp add: word_less_nat_alt unat_SequenceKey unat_SequenceKey_of)
  have "queue_within (Suc (seq_pos (fst s))) (seq_pos (fst s) + MaxQueuedPackets) (rw_queued (snd s))"
    using assms(1) by (simp add: window_inv_def)
  from queue_within_full [OF this, of ?k] assms(2-4) have "length (rw_queued (snd s)) < MaxQueuedPackets"
    by (simp add: unat_SequenceKey sm_contains_def)
  then show ?thesis
    using assms(3,4) unat_key_diff [OF ahead]
    by (simp add: Feed_cases(2) [OF ahead] unat_SequenceKey)
qed

theorem ahead_packet_is_queued_witness:
  "Feed 65 0 NewProtocol [7] (\<lparr>ps_packetId = 1, ps_generationId = 0\<rparr>, empty_window) =
     (Inr [], (\<lparr>ps_packetId = 1, ps_generationId = 0\<rparr>, empty_window\<lparr>rw_queued := sm_put (SequenceKey 65 0)
        \<lparr>qp_flags = NewProtocol, qp_data = [7]\<rparr> (rw_queued empty_window)\<rparr>))"
  using ahead_packet_is_queued [OF window_inv_empty, of "\<lparr>ps_packetId = 1, ps_generationId = 0\<rparr>" 65 0 NewProtocol "[7]"]
  by (simp add: seq_pos_def key_nat_def MaxQueuedPackets_def empty_window_def sm_contains_def)

text \<open>
  C4: refinement of the receive window to an ordered stream. Packets of one stream are fed in
  an arbitrary order, with arbitrary repetitions. If no call throws, what has been delivered is
  exactly what processing a contiguous run of the stream in order delivers, each packet once;
  the run starts at the initial position and ends before the first position that never arrived.
\<close>

theorem window_refines_stream:
  assumes "feed_all pkt as (q, empty_window) = (Inr outs, (q', w'))"
  shows "process_run (stream_slice pkt (seq_pos q) (seq_pos q')) empty_window = (Inr outs, core w') \<and>
         seq_pos q' = (LEAST n. seq_pos q \<le> n \<and> n \<notin> arrived as)"
proof
  note facts = feed_all_from_empty [OF assms]
  show "process_run (stream_slice pkt (seq_pos q) (seq_pos q')) empty_window = (Inr outs, core w')"
    by (rule facts)
  show "seq_pos q' = (LEAST n. seq_pos q \<le> n \<and> n \<notin> arrived as)"
  proof (rule Least_equality [symmetric])
    show "seq_pos q' \<le> n" if "seq_pos q \<le> n \<and> n \<notin> arrived as" for n
      using that facts(2) by (meson atLeastLessThan_iff not_le_imp_less subsetD)
  qed (use facts in blast)
qed

definition sample_stream :: "nat \<Rightarrow> PacketFlags \<times> bytes" where
  "sample_stream n = (NewProtocol, [of_nat n])"

abbreviation first_position :: PacketSequence where
  "first_position \<equiv> \<lparr>ps_packetId = 1, ps_generationId = 0\<rparr>"

lemma sample_feed:
  "feed_all sample_stream [(2, 0), (1, 0), (2, 0)] (first_position, empty_window) =
     (Inr [[1], [2]], (\<lparr>ps_packetId = 3, ps_generationId = 0\<rparr>, empty_window))"
  by (simp add: feed_from_def Feed_def SequenceKey_def SequenceKey_of_def sample_stream_def key_nat_def
      MaxQueuedPackets_def empty_window_def sm_find_def sm_contains_def sm_try_emplace_def sm_erase_def op_bind_def drain.simps
      process_and_advance_def ProcessOrdered_def HasFlag_def Advance_def limit_defs)

theorem window_refines_stream_witness:
  "process_run (stream_slice sample_stream 1 3) empty_window = (Inr [[1], [2]], core empty_window) \<and>
   3 = (LEAST n. 1 \<le> n \<and> n \<notin> arrived [(2, 0), (1, 0), (2, 0)])"
  using window_refines_stream [OF sample_feed] by (simp add: seq_pos_def key_nat_def)

end
