(* ===== verification/Receive_Delivery.thy ===== *)
theory Receive_Delivery
  imports Receive_Window
begin

text \<open>
  Total correctness of the receive window: when the packets of a stream can be processed in
  order, every arrival order that stays inside the window delivers them, whatever is reordered
  or repeated. Together with the fragmenter this is the end-to-end statement for one command.
\<close>

section \<open>No arrival order inside the window fails\<close>

definition processable :: "(nat \<Rightarrow> PacketFlags \<times> bytes) \<Rightarrow> nat \<Rightarrow> PacketSequence \<times> CommandReceiveWindow \<Rightarrow> bool" where
  "processable pkt bound s \<longleftrightarrow>
     bound < 2 ^ 48 \<and> (\<exists>outs w. process_run (stream_slice pkt (seq_pos (fst s)) bound) (core (snd s)) = (Inr outs, w))"

definition queue_below :: "nat \<Rightarrow> CommandReceiveWindow \<Rightarrow> bool" where
  "queue_below bound w \<longleftrightarrow> (\<forall>k \<in> dom (sm_find (rw_queued w)). unat k < bound)"

lemma processable_step:
  assumes "processable pkt bound s" and "seq_pos (fst s) < bound" and "core (snd s1) = core (snd s)" and "fst s1 = fst s"
  shows "\<exists>out s2. process_and_advance (fst (pkt (seq_pos (fst s)))) (snd (pkt (seq_pos (fst s)))) s1 = (Inr out, s2) \<and>
    processable pkt bound s2"
proof -
  let ?p = "seq_pos (fst s)"
  from assms(1) obtain outs w where bound: "bound < 2 ^ 48"
    and run: "process_run (stream_slice pkt ?p bound) (core (snd s)) = (Inr outs, w)"
    by (auto simp: processable_def)
  have "stream_slice pkt ?p bound = pkt ?p # stream_slice pkt (Suc ?p) bound"
    using assms(2) by (simp add: upt_conv_Cons)
  with run obtain out w1 outs1 where first: "ProcessOrdered (fst (pkt ?p)) (snd (pkt ?p)) (core (snd s)) = (Inr out, w1)"
    and rest: "process_run (stream_slice pkt (Suc ?p) bound) w1 = (Inr outs1, w)"
    by (auto simp: op_bind_eq_Inr)
  obtain r w2 where po: "ProcessOrdered (fst (pkt ?p)) (snd (pkt ?p)) (snd s1) = (r, w2)" by fastforce
  from ProcessOrdered_core [OF this] first assms(3) have r: "r = Inr out" "core w2 = w1" by simp_all
  obtain ra qa where a: "Advance (fst s) = (ra, qa)" by fastforce
  then have adv: "ra = Inr ()" "seq_pos qa = Suc ?p"
    using assms(2) bound Advance_cases [of "fst s"] by (cases ra; auto)+
  have "process_and_advance (fst (pkt ?p)) (snd (pkt ?p)) s1 = (Inr out, (qa, w2))"
    using po r a adv assms(4) by (simp add: process_and_advance_Inr)
  moreover have "processable pkt bound (qa, w2)"
    using bound rest adv r by (simp add: processable_def)
  ultimately show ?thesis by blast
qed

lemma drain_succeeds:
  "queue_from pkt (snd s) \<Longrightarrow> queue_below bound (snd s) \<Longrightarrow> processable pkt bound s \<Longrightarrow>
   \<exists>outs s'. drain s = (Inr outs, s') \<and> processable pkt bound s' \<and> queue_below bound (snd s')"
proof (induction s rule: drain.induct)
  case (1 s)
  let ?k = "SequenceKey_of (fst s)" and ?p = "seq_pos (fst s)"
  show ?case
  proof (cases "sm_find (rw_queued (snd s)) ?k")
    case None
    then show ?thesis using "1.prems" by (simp add: drain.simps [of s])
  next
    case (Some qp)
    let ?s1 = "(fst s, (snd s)\<lparr>rw_queued := sm_erase ?k (rw_queued (snd s))\<rparr>)"
    have below: "?p < bound"
      using "1.prems"(2) Some unfolding queue_below_def by (metis domI unat_SequenceKey_of)
    have "(qp_flags qp, qp_data qp) = pkt ?p"
      using "1.prems"(1) Some by (auto simp: queue_from_def unat_SequenceKey_of)
    then have qp: "qp_flags qp = fst (pkt ?p)" "qp_data qp = snd (pkt ?p)"
      by (metis fst_conv, metis snd_conv)
    from processable_step [OF "1.prems"(3) below, of ?s1] obtain out s2 where
      step: "process_and_advance (qp_flags qp) (qp_data qp) ?s1 = (Inr out, s2)" and ok: "processable pkt bound s2"
      unfolding qp by auto
    have queue: "rw_queued (snd s2) = sm_erase ?k (rw_queued (snd s))"
      using process_and_advance_queue [OF step] by simp
    then have "queue_from pkt (snd s2)" "queue_below bound (snd s2)"
      using "1.prems"(1,2) by (auto simp: queue_from_def queue_below_def split: if_splits)
    then obtain outs s' where "drain s2 = (Inr outs, s')" "processable pkt bound s'" "queue_below bound (snd s')"
      using "1.IH" [OF Some step _ _ ok] by blast
    then show ?thesis
      using step Some by (simp add: drain.simps [of s] op_bind_def)
  qed
qed

lemma feed_from_succeeds:
  assumes inv: "window_inv s" and stream: "queue_from pkt (snd s)" and below: "queue_below bound (snd s)"
    and ok: "processable pkt bound s" and key: "key_nat p g \<le> seq_pos (fst s) + MaxQueuedPackets" "key_nat p g < bound"
  shows "\<exists>outs s'. feed_from pkt (p, g) s = (Inr outs, s') \<and> processable pkt bound s' \<and> queue_below bound (snd s')"
proof -
  let ?k = "SequenceKey p g" and ?e = "SequenceKey_of (fst s)" and ?Q = "rw_queued (snd s)"
  have Q: "queue_within (Suc (seq_pos (fst s))) (seq_pos (fst s) + MaxQueuedPackets) ?Q"
    using inv by (simp add: window_inv_def)
  consider (old) "?k < ?e" | (ahead) "?e < ?k" | (inorder) "?k = ?e" by (metis linorder_neqE)
  then show ?thesis
  proof cases
    case old
    then show ?thesis using below ok by (simp add: feed_from_def Feed_cases(1))
  next
    case ahead
    have room: "sm_find ?Q ?k = None \<Longrightarrow> length ?Q < MaxQueuedPackets"
      using queue_within_full [OF Q, of ?k] ahead key(1)
      by (simp add: word_less_nat_alt unat_SequenceKey unat_SequenceKey_of)
    have "\<not> unat (?k - ?e) > MaxQueuedPackets"
      using key unat_key_diff [OF ahead] by (simp add: unat_SequenceKey)
    moreover have "queue_below bound ((snd s)\<lparr>rw_queued := sm_put ?k v ?Q\<rparr>)" for v
      using below key Q by (simp add: queue_below_def sm_find_put queue_within_def unat_SequenceKey)
    moreover have "processable pkt bound (fst s, (snd s)\<lparr>rw_queued := m\<rparr>)" for m
      using ok by (simp add: processable_def)
    ultimately show ?thesis
      using room below ok
      by (cases "sm_find ?Q ?k") (simp_all add: feed_from_def Feed_cases(2) [OF ahead] sm_contains_def)
  next
    case inorder
    then have pos: "key_nat p g = seq_pos (fst s)"
      by (metis unat_SequenceKey unat_SequenceKey_of)
    with key have "seq_pos (fst s) < bound" by simp
    from processable_step [OF ok this, of s] obtain out s1 where
      step: "process_and_advance (fst (pkt (seq_pos (fst s)))) (snd (pkt (seq_pos (fst s)))) s = (Inr out, s1)"
      and ok1: "processable pkt bound s1" by auto
    have "queue_from pkt (snd s1)" "queue_below bound (snd s1)"
      using process_and_advance_queue [OF step] stream below by (simp_all add: queue_from_def queue_below_def)
    from drain_succeeds [OF this ok1] show ?thesis
      using step by (auto simp: feed_from_def Feed_cases(3) [OF inorder] pos op_bind_def)
  qed
qed

text \<open>
  An arrival order the window can hold: whatever comes in, the packets more than 64 positions
  before it have come in already. \<open>seen\<close> are the positions that have.
\<close>

fun stays_in_window :: "nat \<Rightarrow> nat set \<Rightarrow> (u16 \<times> u32) list \<Rightarrow> bool" where
  "stays_in_window start seen [] = True"
| "stays_in_window start seen (a # as) =
     ({start ..< key_nat (fst a) (snd a) - MaxQueuedPackets} \<subseteq> seen \<and>
      stays_in_window start (insert (key_nat (fst a) (snd a)) seen) as)"

lemma feed_all_succeeds:
  "window_inv s \<Longrightarrow> queue_from pkt (snd s) \<Longrightarrow> queue_below bound (snd s) \<Longrightarrow> processable pkt bound s \<Longrightarrow>
   start \<le> seq_pos (fst s) \<Longrightarrow> \<forall>n \<in> seen. n < seq_pos (fst s) \<or> queued_at s n \<Longrightarrow>
   stays_in_window start seen as \<Longrightarrow> \<forall>n \<in> arrived as. n < bound \<Longrightarrow>
   \<exists>outs s'. feed_all pkt as s = (Inr outs, s')"
proof (induction as arbitrary: s seen)
  case (Cons a as)
  obtain p g where a: "a = (p, g)" by fastforce
  have absent: "\<not> queued_at s (seq_pos (fst s))"
    using window_inv_expected_absent [OF Cons.prems(1)] by (metis unat_SequenceKey_of word_unat_eq_iff)
  then have "seq_pos (fst s) \<notin> seen" using Cons.prems(6) by blast
  then have "key_nat p g \<le> seq_pos (fst s) + MaxQueuedPackets" "key_nat p g < bound"
    using Cons.prems(5,7,8) by (auto simp: a subset_iff not_less)
  from feed_from_succeeds [OF Cons.prems(1-4) this] obtain outs s1 where
    step: "feed_from pkt (p, g) s = (Inr outs, s1)" and next_ok: "processable pkt bound s1" "queue_below bound (snd s1)"
    by blast
  note first = feed_from_stream [OF Cons.prems(1,2) step window_inv_expected_absent [OF Cons.prems(1)]]
  have inv: "window_inv s1"
    using Feed_inv(1) [OF Cons.prems(1)] step unfolding feed_from_def by blast
  have seen: "n < seq_pos (fst s1) \<or> queued_at s1 n" if "n \<in> insert (key_nat p g) seen" for n
  proof (cases "n < seq_pos (fst s1)")
    case False
    then have later: "seq_pos (fst s1) \<le> n" by simp
    then have now: "queued_at s1 n \<longleftrightarrow> n = key_nat p g \<or> queued_at s n"
      using first(5) [unfolded set_eq_iff mem_Collect_eq, rule_format, of n] by blast
    have "n = key_nat p g \<or> n \<in> seen" using that by simp
    moreover have "queued_at s n" if "n \<in> seen"
    proof -
      have "n < seq_pos (fst s) \<or> queued_at s n" using Cons.prems(6) that by (rule bspec)
      moreover have "\<not> n < seq_pos (fst s)" using later first(1) by simp
      ultimately show ?thesis by (elim disjE) (rule notE)
    qed
    ultimately have "queued_at s1 n" using now by blast
    then show ?thesis ..
  qed simp
  have rest: "stays_in_window start (insert (key_nat p g) seen) as" "\<forall>n \<in> arrived as. n < bound"
    using Cons.prems(7,8) by (simp_all add: a)
  have "start \<le> seq_pos (fst s1)" using Cons.prems(5) first(1) by (rule le_trans)
  moreover have "\<forall>n \<in> insert (key_nat p g) seen. n < seq_pos (fst s1) \<or> queued_at s1 n"
    using seen by (rule ballI)
  ultimately have "\<exists>outs1 s'. feed_all pkt as s1 = (Inr outs1, s')"
    by (rule Cons.IH [OF inv first(2) next_ok(2,1) _ _ rest])
  then obtain outs1 s' where "feed_all pkt as s1 = (Inr outs1, s')" by (elim exE) (rule that)
  then show ?case using step by (simp add: a op_bind_def)
qed simp

lemma empty_queue_of_arrivals:
  assumes "window_inv (q', w')" and "\<forall>n. \<not> queued_at (q', w') n"
  shows "rw_queued w' = []"
proof -
  have "sm_ok (rw_queued w')" using assms(1) by (simp add: window_inv_def queue_within_def)
  moreover have "sm_find (rw_queued w') = Map.empty" using assms(2) by (intro ext) auto
  ultimately show ?thesis by (simp add: sm_length_card flip: length_0_conv)
qed

section \<open>One planned command, in any order\<close>

lemma planned_command_delivered:
  assumes plan: "Plan (length data) = Inr fs"
    and stream: "stream_slice pkt (seq_pos q) (seq_pos q + length fs) = planned_packets data fs"
    and arrivals: "arrived as = {seq_pos q ..< seq_pos q + length fs}"
    and room: "stays_in_window (seq_pos q) {} as" "seq_pos q + length fs < 2 ^ 48"
  shows "\<exists>q'. feed_all pkt as (q, empty_window) = (Inr [data], (q', empty_window)) \<and>
              seq_pos q' = seq_pos q + length fs"
proof -
  let ?s = "(q, empty_window)" and ?b = "seq_pos q + length fs"
  have core: "core empty_window = empty_window" by (simp add: core_def empty_window_def)
  have "queue_from pkt (snd ?s)" "queue_below ?b (snd ?s)"
    by (simp_all add: queue_from_def queue_below_def empty_window_def sm_find_def)
  moreover have "processable pkt ?b ?s"
    using process_run_planned [OF plan] room(2) by (simp add: processable_def stream core)
  moreover have "\<forall>n \<in> arrived as. n < ?b"
    using arrivals by auto
  ultimately obtain outs q' w' where run: "feed_all pkt as ?s = (Inr outs, (q', w'))"
    using feed_all_succeeds [OF window_inv_empty, of pkt q ?b "seq_pos q" "{}" as] room(1) by auto
  note facts = feed_all_from_empty [OF run]
  have pos: "seq_pos q' = ?b"
  proof -
    have "\<not> seq_pos q' < ?b" using facts(3,4) by (auto simp: arrivals)
    moreover have "?b \<notin> {seq_pos q ..< seq_pos q'}" using facts(2) by (auto simp: arrivals)
    ultimately show ?thesis using facts(4) by auto
  qed
  with facts(1) process_run_planned [OF plan] stream have outs: "outs = [data]" "core w' = empty_window"
    by auto
  have "\<not> queued_at (q', w') n" for n
  proof (cases "seq_pos q' \<le> n")
    case True
    have "\<not> queued_at ?s n" "n \<notin> arrived as"
      using True by (simp_all add: empty_window_def sm_find_def arrivals pos)
    then show ?thesis
      using feed_all_stream [OF window_inv_empty \<open>queue_from pkt (snd ?s)\<close> run] True by auto
  next
    case False
    then show ?thesis
      using facts(5) by (force simp: window_inv_def queue_within_def)
  qed
  then have "rw_queued w' = []"
    using empty_queue_of_arrivals [OF facts(5)] by blast
  then have "w' = empty_window"
    using outs(2) by (cases w') (simp add: core_def)
  with run outs(1) pos show ?thesis by blast
qed

section \<open>Properties\<close>

text \<open>
  C1: a command cut up by \<open>CommandFragmenter::Plan\<close> and received through the window comes out
  as itself, exactly once. All its packets arrive, any number of times each and in any order in
  which none of them comes in while one more than 64 positions before it is still missing; then
  no call throws, the command is delivered whole, and the window is left empty at the next
  position. The positions of the stream stay below \<open>2 ^ 48\<close>.
\<close>

theorem fragmented_command_delivered_once:
  assumes "Plan (length data) = Inr fs"
    and "stream_slice pkt (seq_pos q) (seq_pos q + length fs) = planned_packets data fs"
    and "arrived as = {seq_pos q ..< seq_pos q + length fs}"
    and "stays_in_window (seq_pos q) {} as" and "seq_pos q + length fs < 2 ^ 48"
  shows "\<exists>q'. feed_all pkt as (q, empty_window) = (Inr [data], (q', empty_window)) \<and>
              seq_pos q' = seq_pos q + length fs"
  by (rule planned_command_delivered [OF assms])

definition sample_command :: bytes where "sample_command = replicate 1000 7"

definition sample_fragments :: "CommandFragment list" where
  "sample_fragments = [\<lparr>cf_offset = 0, cf_size = 487, cf_flags = NewProtocol OR Fragmented\<rparr>,
     \<lparr>cf_offset = 487, cf_size = 487, cf_flags = NewProtocol\<rparr>,
     \<lparr>cf_offset = 974, cf_size = 26, cf_flags = NewProtocol OR Fragmented\<rparr>]"

theorem fragmented_command_delivered_once_witness:
  "\<exists>q'. feed_all (\<lambda>n. planned_packets sample_command sample_fragments ! (n - 1))
          [(3, 0), (1, 0), (3, 0), (2, 0), (1, 0)] (first_position, empty_window) =
        (Inr [sample_command], (q', empty_window)) \<and> seq_pos q' = 4"
proof -
  let ?stop = "seq_pos first_position + length sample_fragments"
  have positions: "seq_pos first_position = 1" "?stop = 4"
    by (simp_all add: seq_pos_def key_nat_def sample_fragments_def)
  have plan: "Plan (length sample_command) = Inr sample_fragments"
    by (simp add: Plan_def sample_command_def sample_fragments_def limit_defs plan_loop_step plan_loop_done)
  have stream: "stream_slice (\<lambda>n. planned_packets sample_command sample_fragments ! (n - 1)) (seq_pos first_position) ?stop =
      planned_packets sample_command sample_fragments"
    unfolding positions by (simp add: planned_packets_def sample_fragments_def upt_rec)
  have arrivals: "arrived [(3, 0), (1, 0), (3, 0), (2, 0), (1, 0)] = {seq_pos first_position ..< ?stop}"
    unfolding positions by (auto simp: key_nat_def sample_fragments_def)
  have room: "stays_in_window (seq_pos first_position) {} [(3, 0), (1, 0), (3, 0), (2, 0), (1, 0)]" "?stop < 2 ^ 48"
    unfolding positions(2) by (simp_all add: positions(1) key_nat_def MaxQueuedPackets_def)
  show ?thesis
    using fragmented_command_delivered_once [OF plan stream arrivals room] unfolding positions(2) .
qed

end
