(* ===== verification/Text_Format.thy ===== *)
theory Text_Format
  imports Prelude
begin

text \<open>
  Text of the C++ standard library as the program uses it: \<open>std::string\<close> is a list of
  characters, \<open>std::to_string\<close> on unsigned values prints decimal digits, and
  \<open>std::from_chars\<close> reads the longest run of digits, reports no value when there is none or
  when it does not fit the type, and returns the unread rest. Bytes and characters are the same
  8-bit values (\<open>reinterpret_cast<const char*>\<close>).
\<close>

section \<open>Characters and bytes\<close>

definition chars_of_bytes :: "bytes \<Rightarrow> string" where
  "chars_of_bytes = map (\<lambda>b. char_of (unat b))"

definition bytes_of_chars :: "string \<Rightarrow> bytes" where
  "bytes_of_chars = map (\<lambda>c. of_nat (of_char c))"

lemma chars_of_bytes_of_chars [simp]: "chars_of_bytes (bytes_of_chars s) = s"
proof -
  have "char_of (unat (of_nat (of_char c) :: u8)) = c" for c
    using of_char_mod_256 [of c, where 'a = nat]
    by (simp add: unat_of_nat take_bit_eq_mod)
  then show ?thesis by (simp add: chars_of_bytes_def bytes_of_chars_def map_idI)
qed

lemma bytes_of_chars_of_bytes [simp]: "bytes_of_chars (chars_of_bytes bs) = bs"
proof -
  have "of_nat (of_char (char_of (unat b))) = b" for b :: u8
    using unsigned_less [of b, where 'a = nat] by (simp add: of_char_of)
  then show ?thesis by (simp add: chars_of_bytes_def bytes_of_chars_def map_idI)
qed

lemma bytes_of_chars_Nil_iff [simp]: "bytes_of_chars s = [] \<longleftrightarrow> s = []"
  by (simp add: bytes_of_chars_def)

lemma length_bytes_of_chars [simp]: "length (bytes_of_chars s) = length s"
  by (simp add: bytes_of_chars_def)

section \<open>Decimal numbers\<close>

definition digit_char :: "nat \<Rightarrow> char" where
  "digit_char d = char_of (48 + d)"

definition digit_value :: "char \<Rightarrow> nat" where
  "digit_value c = of_char c - 48"

definition is_digit :: "char \<Rightarrow> bool" where
  "is_digit c \<longleftrightarrow> (48 :: nat) \<le> of_char c \<and> of_char c \<le> (57 :: nat)"

fun to_string :: "nat \<Rightarrow> string" where
  "to_string n = (if n < 10 then [digit_char n] else to_string (n div 10) @ [digit_char (n mod 10)])"

declare to_string.simps [simp del]

definition number_of_digits :: "string \<Rightarrow> nat" where
  "number_of_digits = foldl (\<lambda>n c. n * 10 + digit_value c) 0"

text \<open>\<open>std::from_chars\<close> into an unsigned integer of the given number of values.\<close>

definition from_chars :: "nat \<Rightarrow> string \<Rightarrow> nat option \<times> string" where
  "from_chars limit s =
     (let digits = takeWhile is_digit s; rest = dropWhile is_digit s
      in if digits = [] then (None, s)
         else if number_of_digits digits \<ge> limit then (None, rest)
         else (Some (number_of_digits digits), rest))"

lemma digit_roundtrip: "d < 10 \<Longrightarrow> is_digit (digit_char d) \<and> digit_value (digit_char d) = d"
  by (simp add: is_digit_def digit_char_def digit_value_def of_char_of)

lemma to_string_digits: "list_all is_digit (to_string n)"
  by (induction n rule: to_string.induct) (simp add: to_string.simps digit_roundtrip)

lemma to_string_nonempty [simp]: "to_string n \<noteq> []"
  by (simp add: to_string.simps)

lemma number_of_to_string: "number_of_digits (to_string n) = n"
proof (induction n rule: to_string.induct)
  case (1 n)
  show ?case
  proof (cases "n < 10")
    case True
    then show ?thesis by (simp add: to_string.simps number_of_digits_def digit_roundtrip)
  next
    case False
    then have "number_of_digits (to_string (n div 10)) = n div 10" by (rule 1)
    with False show ?thesis by (simp add: to_string.simps [of n] number_of_digits_def digit_roundtrip)
  qed
qed

lemma from_chars_all_digits:
  "list_all is_digit s \<Longrightarrow> s \<noteq> [] \<Longrightarrow>
   from_chars limit s = (if number_of_digits s < limit then Some (number_of_digits s) else None, [])"
proof -
  assume s: "list_all is_digit s" "s \<noteq> []"
  then have "takeWhile is_digit s = s" "dropWhile is_digit s = []"
    by (auto simp: list_all_iff takeWhile_eq_all_conv dropWhile_eq_Nil_conv)
  with s show ?thesis by (simp only: from_chars_def Let_def) simp
qed

lemma from_chars_to_string: "n < limit \<Longrightarrow> from_chars limit (to_string n) = (Some n, [])"
  by (simp add: from_chars_all_digits to_string_digits number_of_to_string)

lemma from_chars_limit: "from_chars limit s = (Some n, rest) \<Longrightarrow> n < limit"
  by (auto simp: from_chars_def Let_def split: if_splits)

text \<open>Digits need no escaping and end no line.\<close>

lemma to_string_no: "\<not> is_digit c \<Longrightarrow> c \<notin> set (to_string n)"
  using to_string_digits [of n] by (auto simp: list_all_iff)

section \<open>Splitting\<close>

lemma takeWhile_dropWhile_at:
  "c \<notin> set s \<Longrightarrow> takeWhile (\<lambda>x. x \<noteq> c) (s @ c # rest) = s \<and> dropWhile (\<lambda>x. x \<noteq> c) (s @ c # rest) = c # rest"
  by (induction s) auto

lemma takeWhile_dropWhile_end:
  "c \<notin> set s \<Longrightarrow> takeWhile (\<lambda>x. x \<noteq> c) s = s"
  "c \<notin> set s \<Longrightarrow> dropWhile (\<lambda>x. x \<noteq> c) s = []"
  by (induction s) auto

end
