(* ===== verification/Command_Codec.thy ===== *)
theory Command_Codec
  imports Text_Format
begin

text \<open>
  The text command format: \<open>protocol/include/protocol/command/command.hpp\<close>,
  \<open>protocol/src/command/parser.cpp\<close> and \<open>protocol/src/command/writer.cpp\<close>. The parser's
  offsets into a \<open>string_view\<close> are the suffix still to be read; \<open>find\<close> of a separator is a
  \<open>takeWhile\<close>/\<open>dropWhile\<close> pair. \<open>Parse\<close> and \<open>ParseRow\<close> recurse where the code loops.

  The main result is the round trip: whatever a \<open>CommandWriter\<close> is made to write, the parser
  reads back, under the one condition the writer's own name check misses (no carriage return or
  line feed in names).
\<close>

section \<open>Commands\<close>

record CommandParameter =
  cp_name :: string
  cp_value :: string

type_synonym CommandRow = "CommandParameter list"

record Command =
  cmd_name :: string
  cmd_rows :: "CommandRow list"

definition row_Find :: "string \<Rightarrow> CommandRow \<Rightarrow> string option" where
  "row_Find name row = map_option cp_value (List.find (\<lambda>p. cp_name p = name) row)"

definition row_Require :: "string \<Rightarrow> CommandRow \<Rightarrow> string result" where
  "row_Require name row =
     (case row_Find name row of
        None \<Rightarrow> Inl (RuntimeError (''Missing command parameter: '' @ name))
      | Some value \<Rightarrow> Inr value)"

section \<open>Escaping\<close>

abbreviation backslash :: char where "backslash \<equiv> CHR 0x5C"
abbreviation space :: char where "space \<equiv> CHR 0x20"
abbreviation pipe :: char where "pipe \<equiv> CHR 0x7C"
abbreviation equals :: char where "equals \<equiv> CHR 0x3D"
abbreviation NUL :: char where "NUL \<equiv> CHR 0x00"
abbreviation CR :: char where "CR \<equiv> CHR 0x0D"
abbreviation LF :: char where "LF \<equiv> CHR 0x0A"

text \<open>The \<open>switch\<close> on the character after a backslash.\<close>

definition unescape :: "char \<Rightarrow> char option" where
  "unescape c =
     (if c = backslash then Some backslash
      else if c = CHR ''/'' then Some (CHR ''/'')
      else if c = CHR ''s'' then Some space
      else if c = CHR ''p'' then Some pipe
      else if c = CHR ''a'' then Some (CHR 0x07)
      else if c = CHR ''b'' then Some (CHR 0x08)
      else if c = CHR ''f'' then Some (CHR 0x0C)
      else if c = CHR ''n'' then Some LF
      else if c = CHR ''r'' then Some CR
      else if c = CHR ''t'' then Some (CHR 0x09)
      else if c = CHR ''v'' then Some (CHR 0x0B)
      else None)"

fun DecodeValue :: "string \<Rightarrow> string result" where
  "DecodeValue [] = Inr []"
| "DecodeValue (c # cs) =
     (if c \<noteq> backslash then res_bind (DecodeValue cs) (\<lambda>r. Inr (c # r))
      else case cs of
             [] \<Rightarrow> Inl (RuntimeError ''Incomplete command escape sequence'')
           | d # ds \<Rightarrow>
               (case unescape d of
                  None \<Rightarrow> Inl (RuntimeError ''Unknown command escape sequence'')
                | Some x \<Rightarrow> res_bind (DecodeValue ds) (\<lambda>r. Inr (x # r))))"

text \<open>The \<open>switch\<close> of \<open>EncodeValue\<close>.\<close>

definition escape :: "char \<Rightarrow> string result" where
  "escape c =
     (if c = backslash then Inr [backslash, backslash]
      else if c = CHR ''/'' then Inr [backslash, CHR ''/'']
      else if c = space then Inr [backslash, CHR ''s'']
      else if c = pipe then Inr [backslash, CHR ''p'']
      else if c = CHR 0x07 then Inr [backslash, CHR ''a'']
      else if c = CHR 0x08 then Inr [backslash, CHR ''b'']
      else if c = CHR 0x0C then Inr [backslash, CHR ''f'']
      else if c = LF then Inr [backslash, CHR ''n'']
      else if c = CR then Inr [backslash, CHR ''r'']
      else if c = CHR 0x09 then Inr [backslash, CHR ''t'']
      else if c = CHR 0x0B then Inr [backslash, CHR ''v'']
      else if c = NUL then Inl (RuntimeError ''TeamSpeak command value contains a null byte'')
      else Inr [c])"

fun EncodeValue :: "string \<Rightarrow> string result" where
  "EncodeValue [] = Inr []"
| "EncodeValue (c # cs) = res_bind (escape c) (\<lambda>e. res_bind (EncodeValue cs) (\<lambda>r. Inr (e @ r)))"

section \<open>Parser\<close>

definition parse_parameter :: "string \<Rightarrow> CommandParameter result" where
  "parse_parameter parameter =
     (if equals \<notin> set parameter then Inr \<lparr>cp_name = parameter, cp_value = []\<rparr>
      else let name = takeWhile (\<lambda>c. c \<noteq> equals) parameter;
               value = tl (dropWhile (\<lambda>c. c \<noteq> equals) parameter)
           in if name = [] then Inl (RuntimeError ''Command parameter has no name'')
              else res_bind (DecodeValue value) (\<lambda>v. Inr \<lparr>cp_name = name, cp_value = v\<rparr>))"

function ParseRow :: "string \<Rightarrow> CommandRow result" where
  "ParseRow text =
     (let t = dropWhile (\<lambda>c. c = space) text
      in if t = [] then Inr []
         else res_bind (parse_parameter (takeWhile (\<lambda>c. c \<noteq> space) t)) (\<lambda>p.
              case dropWhile (\<lambda>c. c \<noteq> space) t of
                [] \<Rightarrow> Inr [p]
              | _ # rest \<Rightarrow> res_bind (ParseRow rest) (\<lambda>ps. Inr (p # ps))))"
  by pat_completeness auto
termination
proof (relation "measure length")
  fix row_text t p c rest
  assume "t = dropWhile (\<lambda>c. c = space) row_text" "dropWhile (\<lambda>c. c \<noteq> space) t = c # rest"
  then show "(rest, row_text) \<in> measure length"
    using length_dropWhile_le [of "\<lambda>c. c = space" row_text] length_dropWhile_le [of "\<lambda>c. c \<noteq> space" t] by simp
qed simp

function parse_rows :: "string \<Rightarrow> CommandRow list result" where
  "parse_rows data =
     (let row = takeWhile (\<lambda>c. c \<noteq> pipe) data
      in if row = [] then Inl (RuntimeError ''Command contains empty row'')
         else res_bind (ParseRow row) (\<lambda>r.
              case dropWhile (\<lambda>c. c \<noteq> pipe) data of
                [] \<Rightarrow> Inr [r]
              | _ # rest \<Rightarrow> res_bind (parse_rows rest) (\<lambda>rs. Inr (r # rs))))"
  by pat_completeness auto
termination
proof (relation "measure length")
  fix data row r c rest
  assume "dropWhile (\<lambda>c. c \<noteq> pipe) data = c # rest"
  then show "(rest, data) \<in> measure length"
    using length_dropWhile_le [of "\<lambda>c. c \<noteq> pipe" data] by simp
qed simp

declare ParseRow.simps [simp del] parse_rows.simps [simp del]

definition trim_line_end :: "string \<Rightarrow> string" where
  "trim_line_end text = rev (dropWhile (\<lambda>c. c = CR \<or> c = LF) (rev text))"

definition CommandParser_Parse :: "string \<Rightarrow> Command result" where
  "CommandParser_Parse input =
     (let text = trim_line_end input
      in if text = [] then Inl (RuntimeError ''Cannot parse empty command'')
         else if space \<notin> set text then Inr \<lparr>cmd_name = text, cmd_rows = []\<rparr>
         else let name = takeWhile (\<lambda>c. c \<noteq> space) text
              in if name = [] then Inl (RuntimeError ''Command has no name'')
                 else let data = dropWhile (\<lambda>c. c = space) (dropWhile (\<lambda>c. c \<noteq> space) text)
                      in if data = [] then Inr \<lparr>cmd_name = name, cmd_rows = []\<rparr>
                         else res_bind (parse_rows data) (\<lambda>rows. Inr \<lparr>cmd_name = name, cmd_rows = rows\<rparr>))"

definition CommandParser_ParseBytes :: "bytes \<Rightarrow> Command result" where
  "CommandParser_ParseBytes data =
     (if data = [] then Inl (RuntimeError ''Cannot parse empty command'')
      else CommandParser_Parse (chars_of_bytes data))"

section \<open>Writer\<close>

record CommandWriter =
  cw_data :: string
  cw_firstRow :: bool
  cw_rowHasParameter :: bool

definition ValidateName :: "string \<Rightarrow> unit result" where
  "ValidateName name =
     (if name = [] then Inl (RuntimeError ''Command name cannot be empty'')
      else if list_ex (\<lambda>c. c = NUL \<or> c = space \<or> c = equals \<or> c = pipe) name
      then Inl (RuntimeError ''Invalid command name'')
      else Inr ())"

definition make_CommandWriter :: "string \<Rightarrow> CommandWriter result" where
  "make_CommandWriter name =
     res_bind (ValidateName name) (\<lambda>_. Inr \<lparr>cw_data = name, cw_firstRow = True, cw_rowHasParameter = False\<rparr>)"

definition WritePrefix :: "string \<Rightarrow> (CommandWriter, unit) op" where
  "WritePrefix name =
     op_bind (op_lift (ValidateName name)) (\<lambda>_.
     op_modify (\<lambda>w. w\<lparr>cw_data :=
       (if cw_firstRow w \<or> cw_rowHasParameter w then cw_data w @ [space] else cw_data w) @ name\<rparr>))"

definition Write_flag :: "string \<Rightarrow> (CommandWriter, unit) op" where
  "Write_flag name =
     op_bind (WritePrefix name) (\<lambda>_. op_modify (\<lambda>w. w\<lparr>cw_rowHasParameter := True\<rparr>))"

definition Write_value :: "string \<Rightarrow> string \<Rightarrow> (CommandWriter, unit) op" where
  "Write_value name value =
     op_bind (WritePrefix name) (\<lambda>_.
     op_bind (op_modify (\<lambda>w. w\<lparr>cw_data := cw_data w @ [equals]\<rparr>)) (\<lambda>_.
     op_bind (op_lift (EncodeValue value)) (\<lambda>encoded.
     op_modify (\<lambda>w. w\<lparr>cw_data := cw_data w @ encoded, cw_rowHasParameter := True\<rparr>))))"

definition Write_integral :: "string \<Rightarrow> nat \<Rightarrow> (CommandWriter, unit) op" where
  "Write_integral name value = Write_value name (to_string value)"

definition NextRow :: "(CommandWriter, unit) op" where
  "NextRow w =
     (if \<not> cw_rowHasParameter w then (Inl (RuntimeError ''Cannot create an empty command row''), w)
      else (Inr (), w\<lparr>cw_data := cw_data w @ [pipe], cw_firstRow := False, cw_rowHasParameter := False\<rparr>))"

definition CommandWriter_Take :: "CommandWriter \<Rightarrow> bytes result" where
  "CommandWriter_Take w =
     (if \<not> cw_firstRow w \<and> \<not> cw_rowHasParameter w
      then Inl (RuntimeError ''Command contains a trailing empty row'')
      else Inr (bytes_of_chars (cw_data w)))"

section \<open>Values\<close>

lemma escape_unescape:
  assumes "c \<noteq> NUL"
  shows "(\<exists>d. escape c = Inr [backslash, d] \<and> unescape d = Some c) \<or> (escape c = Inr [c] \<and> c \<noteq> backslash)"
  using assms by (simp add: escape_def unescape_def)

lemma escape_clean: "escape c = Inr e \<Longrightarrow> space \<notin> set e \<and> pipe \<notin> set e \<and> CR \<notin> set e \<and> LF \<notin> set e"
  by (auto simp: escape_def split: if_splits)

lemma EncodeValue_total: "NUL \<notin> set v \<Longrightarrow> \<exists>e. EncodeValue v = Inr e"
proof (induction v)
  case (Cons c v)
  then obtain e where "EncodeValue v = Inr e" by auto
  moreover have "\<exists>x. escape c = Inr x" using escape_unescape [of c] Cons.prems by auto
  ultimately show ?case by auto
qed simp

lemma EncodeValue_NUL: "NUL \<in> set v \<Longrightarrow> EncodeValue v = Inl (RuntimeError ''TeamSpeak command value contains a null byte'')"
proof (induction v)
  case (Cons c v)
  show ?case
  proof (cases "c = NUL")
    case True
    then show ?thesis by (simp add: escape_def)
  next
    case False
    with Cons obtain x where "escape c = Inr x" using escape_unescape [of c] by auto
    with Cons False show ?thesis by auto
  qed
qed simp

lemma EncodeValue_clean:
  "EncodeValue v = Inr e \<Longrightarrow> space \<notin> set e \<and> pipe \<notin> set e \<and> CR \<notin> set e \<and> LF \<notin> set e"
  by (induction v arbitrary: e) (auto simp: res_bind_eq_Inr dest: escape_clean)

lemma Decode_Encode: "EncodeValue v = Inr e \<Longrightarrow> DecodeValue e = Inr v"
proof (induction v arbitrary: e)
  case (Cons c v)
  then obtain x r where parts: "escape c = Inr x" "EncodeValue v = Inr r" "e = x @ r"
    by (auto simp: res_bind_eq_Inr)
  then have "c \<noteq> NUL" by (auto simp: escape_def)
  with parts Cons.IH [OF parts(2)] escape_unescape [of c] show ?case by auto
qed simp

section \<open>What a writer produces\<close>

text \<open>A document: per row the parameters in order, a parameter with or without a value.\<close>

type_synonym document = "(string \<times> string option) list list"

definition write_parameter :: "string \<times> string option \<Rightarrow> (CommandWriter, unit) op" where
  "write_parameter p = (case snd p of None \<Rightarrow> Write_flag (fst p) | Some v \<Rightarrow> Write_value (fst p) v)"

fun write_document :: "document \<Rightarrow> (CommandWriter, unit) op" where
  "write_document [] = op_return ()"
| "write_document [row] = op_for row write_parameter"
| "write_document (row # rows) =
     op_bind (op_for row write_parameter) (\<lambda>_. op_bind NextRow (\<lambda>_. write_document rows))"

definition write_command :: "string \<Rightarrow> document \<Rightarrow> bytes result" where
  "write_command name rows =
     res_bind (make_CommandWriter name) (\<lambda>w.
     case write_document rows w of (Inl e, _) \<Rightarrow> Inl e | (Inr _, w') \<Rightarrow> CommandWriter_Take w')"

definition clean_name :: "string \<Rightarrow> bool" where
  "clean_name name \<longleftrightarrow> name \<noteq> [] \<and> list_all (\<lambda>c. c \<notin> {NUL, space, equals, pipe, CR, LF}) name"

definition clean_document :: "document \<Rightarrow> bool" where
  "clean_document rows \<longleftrightarrow> list_all (\<lambda>row. row \<noteq> [] \<and>
     list_all (\<lambda>p. clean_name (fst p) \<and> (case snd p of None \<Rightarrow> True | Some v \<Rightarrow> NUL \<notin> set v)) row) rows"

definition parameter_text :: "string \<times> string option \<Rightarrow> string" where
  "parameter_text p = fst p @ (case snd p of None \<Rightarrow> [] | Some v \<Rightarrow> equals # projr (EncodeValue v))"

fun joined :: "char \<Rightarrow> string list \<Rightarrow> string" where
  "joined sep [] = []"
| "joined sep [x] = x"
| "joined sep (x # xs) = x @ sep # joined sep xs"

lemma joined_Cons: "xs \<noteq> [] \<Longrightarrow> joined sep (x # xs) = x @ sep # joined sep xs"
  by (cases xs) simp_all

lemma set_joined: "set (joined sep xs) \<subseteq> insert sep (\<Union>x \<in> set xs. set x)"
  by (induction sep xs rule: joined.induct) auto

definition row_text :: "(string \<times> string option) list \<Rightarrow> string" where
  "row_text row = joined space (map parameter_text row)"

definition row_of :: "(string \<times> string option) list \<Rightarrow> CommandRow" where
  "row_of row = map (\<lambda>p. \<lparr>cp_name = fst p, cp_value = (case snd p of None \<Rightarrow> [] | Some v \<Rightarrow> v)\<rparr>) row"

abbreviation clean_row :: "(string \<times> string option) list \<Rightarrow> bool" where
  "clean_row row \<equiv> list_all (\<lambda>p. clean_name (fst p) \<and> (case snd p of None \<Rightarrow> True | Some v \<Rightarrow> NUL \<notin> set v)) row"

lemma clean_name_valid: "clean_name name \<Longrightarrow> ValidateName name = Inr ()"
  by (auto simp: clean_name_def ValidateName_def list_all_iff list_ex_iff)

lemma write_parameter_run:
  assumes "clean_name (fst p)" and "case snd p of None \<Rightarrow> True | Some v \<Rightarrow> NUL \<notin> set v"
  shows "write_parameter p w = (Inr (), w\<lparr>cw_data := cw_data w @
      (if cw_firstRow w \<or> cw_rowHasParameter w then [space] else []) @ parameter_text p, cw_rowHasParameter := True\<rparr>)"
proof (cases "snd p")
  case None
  with assms(1) show ?thesis
    by (simp add: write_parameter_def Write_flag_def WritePrefix_def clean_name_valid op_bind_def parameter_text_def)
next
  case (Some v)
  with assms(2) obtain e where "EncodeValue v = Inr e" using EncodeValue_total by auto
  with Some assms(1) show ?thesis
    by (simp add: write_parameter_def Write_value_def WritePrefix_def clean_name_valid op_bind_def parameter_text_def)
qed

lemma write_row_run:
  "clean_row row \<Longrightarrow> row \<noteq> [] \<Longrightarrow>
   op_for row write_parameter w = (Inr (), w\<lparr>cw_data := cw_data w @
      (if cw_firstRow w \<or> cw_rowHasParameter w then [space] else []) @ row_text row, cw_rowHasParameter := True\<rparr>)"
proof (induction row arbitrary: w)
  case (Cons p row)
  let ?w = "w\<lparr>cw_data := cw_data w @
      (if cw_firstRow w \<or> cw_rowHasParameter w then [space] else []) @ parameter_text p, cw_rowHasParameter := True\<rparr>"
  have p: "write_parameter p w = (Inr (), ?w)"
    using Cons.prems by (intro write_parameter_run) simp_all
  show ?case
  proof (cases "row = []")
    case True
    with p show ?thesis by (simp add: op_bind_def row_text_def)
  next
    case False
    with Cons have "op_for row write_parameter ?w = (Inr (), ?w\<lparr>cw_data := cw_data ?w @
        (if cw_firstRow ?w \<or> cw_rowHasParameter ?w then [space] else []) @ row_text row, cw_rowHasParameter := True\<rparr>)"
      by simp
    with p False show ?thesis by (simp add: op_bind_def row_text_def joined_Cons)
  qed
qed simp

lemma write_document_run:
  "clean_document rows \<Longrightarrow> rows \<noteq> [] \<Longrightarrow> \<not> cw_rowHasParameter w \<Longrightarrow>
   write_document rows w = (Inr (), w\<lparr>cw_data := cw_data w @ (if cw_firstRow w then [space] else []) @
      joined pipe (map row_text rows), cw_rowHasParameter := True, cw_firstRow := (cw_firstRow w \<and> length rows = 1)\<rparr>)"
proof (induction rows arbitrary: w rule: write_document.induct)
  case (2 row)
  then show ?case by (simp add: clean_document_def write_row_run)
next
  case (3 row r rows)
  let ?w1 = "w\<lparr>cw_data := cw_data w @ (if cw_firstRow w then [space] else []) @ row_text row, cw_rowHasParameter := True\<rparr>"
  let ?w2 = "w\<lparr>cw_data := cw_data ?w1 @ [pipe], cw_firstRow := False, cw_rowHasParameter := False\<rparr>"
  have "op_for row write_parameter w = (Inr (), ?w1)"
    using 3 by (simp add: clean_document_def write_row_run)
  moreover have "NextRow ?w1 = (Inr (), ?w2)" by (simp add: NextRow_def)
  moreover have "write_document (r # rows) ?w2 = (Inr (), ?w2\<lparr>cw_data := cw_data ?w2 @
      joined pipe (map row_text (r # rows)), cw_rowHasParameter := True\<rparr>)"
    using 3 by (simp add: clean_document_def)
  ultimately show ?case by (simp add: op_bind_def)
qed simp

lemma write_command_run:
  assumes "clean_name name" and "clean_document rows"
  shows "write_command name rows =
     Inr (bytes_of_chars (name @ (if rows = [] then [] else space # joined pipe (map row_text rows))))"
proof (cases "rows = []")
  case True
  with assms(1) show ?thesis
    by (simp add: write_command_def make_CommandWriter_def clean_name_valid CommandWriter_Take_def)
next
  case False
  with assms show ?thesis
    by (simp add: write_command_def make_CommandWriter_def clean_name_valid write_document_run CommandWriter_Take_def)
qed

section \<open>Reading it back\<close>

lemma parameter_text_clean:
  assumes "clean_name (fst p)" and "case snd p of None \<Rightarrow> True | Some v \<Rightarrow> NUL \<notin> set v"
  shows "parameter_text p \<noteq> [] \<and> set (parameter_text p) \<inter> {space, pipe, CR, LF} = {}"
proof (cases "snd p")
  case None
  with assms(1) show ?thesis by (auto simp: parameter_text_def clean_name_def list_all_iff)
next
  case (Some v)
  with assms(2) obtain e where "EncodeValue v = Inr e" using EncodeValue_total by auto
  with Some assms(1) EncodeValue_clean [of v e] show ?thesis
    by (auto simp: parameter_text_def clean_name_def list_all_iff)
qed

lemma parse_parameter_text:
  assumes "clean_name (fst p)" and "case snd p of None \<Rightarrow> True | Some v \<Rightarrow> NUL \<notin> set v"
  shows "parse_parameter (parameter_text p) =
     Inr \<lparr>cp_name = fst p, cp_value = (case snd p of None \<Rightarrow> [] | Some v \<Rightarrow> v)\<rparr>"
proof -
  have name: "equals \<notin> set (fst p)" "fst p \<noteq> []" using assms(1) by (auto simp: clean_name_def list_all_iff)
  show ?thesis
  proof (cases "snd p")
    case None
    with name show ?thesis by (simp add: parameter_text_def parse_parameter_def)
  next
    case (Some v)
    with assms(2) obtain e where "EncodeValue v = Inr e" using EncodeValue_total by auto
    with Some name takeWhile_dropWhile_at [OF name(1), of e] show ?thesis
      by (simp add: parameter_text_def parse_parameter_def Decode_Encode)
  qed
qed

lemma ParseRow_one:
  assumes "parse_parameter x = Inr p" and "space \<notin> set x" and "x \<noteq> []"
  shows "ParseRow x = Inr [p]" and "ParseRow (x @ space # rest) = res_bind (ParseRow rest) (\<lambda>ps. Inr (p # ps))"
proof -
  have start: "dropWhile (\<lambda>c. c = space) (x @ r) = x @ r" for r
    using assms(2,3) by (cases x) auto
  show "ParseRow x = Inr [p]"
    using assms start [of "[]"] by (simp add: ParseRow.simps [of x] takeWhile_dropWhile_end)
  show "ParseRow (x @ space # rest) = res_bind (ParseRow rest) (\<lambda>ps. Inr (p # ps))"
    using assms start [of "space # rest"] takeWhile_dropWhile_at [OF assms(2), of rest]
    by (simp add: ParseRow.simps [of "x @ space # rest"])
qed

lemma ParseRow_text: "clean_row row \<Longrightarrow> row \<noteq> [] \<Longrightarrow> ParseRow (row_text row) = Inr (row_of row)"
proof (induction row)
  case (Cons p row)
  have p: "clean_name (fst p)" "case snd p of None \<Rightarrow> True | Some v \<Rightarrow> NUL \<notin> set v" using Cons.prems by simp_all
  have sp: "space \<notin> set (parameter_text p)" "parameter_text p \<noteq> []" using parameter_text_clean [OF p] by auto
  note one = ParseRow_one [OF parse_parameter_text [OF p] sp]
  show ?case
  proof (cases "row = []")
    case True
    with one(1) show ?thesis by (simp add: row_text_def row_of_def)
  next
    case False
    with Cons have "ParseRow (row_text row) = Inr (row_of row)" by simp
    with False one(2) [of "row_text row"] show ?thesis
      by (simp add: row_text_def row_of_def joined_Cons)
  qed
qed simp

lemma row_text_clean:
  assumes "clean_row row" "row \<noteq> []"
  shows "row_text row \<noteq> [] \<and> set (row_text row) \<inter> {pipe, CR, LF} = {} \<and> hd (row_text row) \<noteq> space"
proof -
  obtain p ps where row: "row = p # ps" using assms(2) by (cases row) auto
  have each: "parameter_text p \<noteq> [] \<and> set (parameter_text p) \<inter> {space, pipe, CR, LF} = {}" if "p \<in> set row" for p
    using assms(1) that by (intro parameter_text_clean) (auto simp: list_all_iff)
  have "set (row_text row) \<subseteq> insert space (\<Union>p \<in> set row. set (parameter_text p))"
    using set_joined [of space "map parameter_text row"] by (simp add: row_text_def)
  with each have no: "set (row_text row) \<inter> {pipe, CR, LF} = {}" by fastforce
  have "\<exists>r. row_text row = parameter_text p @ r"
    by (cases ps) (simp_all add: row_text_def row)
  with each [of p] no show ?thesis
    by (cases "parameter_text p") (auto simp: row)
qed

lemma parse_rows_text:
  "clean_document rows \<Longrightarrow> rows \<noteq> [] \<Longrightarrow> parse_rows (joined pipe (map row_text rows)) = Inr (map row_of rows)"
proof (induction rows)
  case (Cons row rows)
  have row: "clean_row row" "row \<noteq> []" using Cons.prems by (simp_all add: clean_document_def)
  have clean: "pipe \<notin> set (row_text row)" "row_text row \<noteq> []" using row_text_clean [OF row] by auto
  note parse = ParseRow_text [OF row]
  show ?case
  proof (cases "rows = []")
    case True
    with clean parse show ?thesis by (simp add: parse_rows.simps takeWhile_dropWhile_end)
  next
    case False
    with Cons have "parse_rows (joined pipe (map row_text rows)) = Inr (map row_of rows)"
      by (simp add: clean_document_def)
    with False clean parse takeWhile_dropWhile_at [OF clean(1), of "joined pipe (map row_text rows)"] show ?thesis
      by (simp add: joined_Cons parse_rows.simps [of "row_text row @ pipe # joined pipe (map row_text rows)"])
  qed
qed simp

lemma trim_line_end_clean: "set s \<inter> {CR, LF} = {} \<Longrightarrow> trim_line_end s = s"
  by (cases s rule: rev_cases) (auto simp: trim_line_end_def)

lemma parse_written:
  assumes "clean_name name" and "clean_document rows"
  shows "CommandParser_Parse (name @ (if rows = [] then [] else space # joined pipe (map row_text rows))) =
     Inr \<lparr>cmd_name = name, cmd_rows = map row_of rows\<rparr>"
proof -
  have name: "space \<notin> set name" "name \<noteq> []" "set name \<inter> {CR, LF} = {}"
    using assms(1) by (auto simp: clean_name_def list_all_iff)
  show ?thesis
  proof (cases "rows = []")
    case True
    with name show ?thesis by (simp add: CommandParser_Parse_def trim_line_end_clean)
  next
    case False
    let ?data = "joined pipe (map row_text rows)"
    have rows: "row_text row \<noteq> [] \<and> set (row_text row) \<inter> {pipe, CR, LF} = {} \<and> hd (row_text row) \<noteq> space"
      if "row \<in> set rows" for row
      using assms(2) that by (intro row_text_clean) (auto simp: clean_document_def list_all_iff)
    have "set ?data \<inter> {CR, LF} = {}"
      using set_joined [of pipe "map row_text rows"] rows by fastforce
    then have trim: "trim_line_end (name @ space # ?data) = name @ space # ?data"
      using name(3) by (intro trim_line_end_clean) auto
    obtain row rest where r: "rows = row # rest" using False by (cases rows) auto
    then have "\<exists>x. ?data = row_text row @ x" by (cases rest) simp_all
    then have start: "?data \<noteq> []" "dropWhile (\<lambda>c. c = space) ?data = ?data"
      using rows [of row] r by (cases "row_text row"; auto)+
    show ?thesis
      using False trim name start takeWhile_dropWhile_at [OF name(1), of ?data] parse_rows_text [OF assms(2) False]
      by (simp add: CommandParser_Parse_def)
  qed
qed

section \<open>Properties\<close>

text \<open>
  Decoding inverts encoding. Every value without a null byte can be encoded, the encoding
  contains none of the characters that separate parameters, rows and lines, and decoding it
  gives the value back; a value with a null byte is refused.
\<close>

theorem value_roundtrip:
  "case EncodeValue v of
     Inl e \<Rightarrow> NUL \<in> set v
   | Inr e \<Rightarrow> NUL \<notin> set v \<and> DecodeValue e = Inr v \<and> set e \<inter> {space, pipe, CR, LF} = {}"
proof (cases "NUL \<in> set v")
  case True
  then show ?thesis by (simp add: EncodeValue_NUL)
next
  case False
  then obtain e where "EncodeValue v = Inr e" using EncodeValue_total by blast
  with False Decode_Encode [of v e] EncodeValue_clean [of v e] show ?thesis by simp
qed

text \<open>
  C19: whatever rows of parameters a \<open>CommandWriter\<close> is made to write, \<open>CommandParser::Parse\<close>
  reads back, parameter by parameter and row by row; neither side throws. Names are non-empty
  and free of the separators and of line ends, rows are non-empty, values have no null byte.
\<close>

theorem command_roundtrip:
  assumes "clean_name name" and "clean_document rows"
  shows "res_bind (write_command name rows) CommandParser_ParseBytes =
     Inr \<lparr>cmd_name = name, cmd_rows = map row_of rows\<rparr>"
proof -
  have "name \<noteq> []" using assms(1) by (simp add: clean_name_def)
  then show ?thesis
    using parse_written [OF assms] by (simp add: write_command_run [OF assms] CommandParser_ParseBytes_def)
qed

theorem command_roundtrip_witness:
  "res_bind (write_command ''clientmove'' [[(''clid'', Some ''5''), (''cpw'', Some ''a b|c'')], [(''flag'', None)]])
     CommandParser_ParseBytes =
   Inr \<lparr>cmd_name = ''clientmove'',
        cmd_rows = [[\<lparr>cp_name = ''clid'', cp_value = ''5''\<rparr>, \<lparr>cp_name = ''cpw'', cp_value = ''a b|c''\<rparr>],
                    [\<lparr>cp_name = ''flag'', cp_value = ''''\<rparr>]]\<rparr>"
  using command_roundtrip [of "''clientmove''" "[[(''clid'', Some ''5''), (''cpw'', Some ''a b|c'')], [(''flag'', None)]]"]
  by (simp add: clean_name_def clean_document_def row_of_def)

text \<open>
  The writer's name check is weaker than the format needs. A parameter name ending in a
  line feed passes \<open>ValidateName\<close> and is written, but the parser strips it as a line end.
\<close>

theorem line_feed_name_not_preserved:
  "ValidateName (''flag'' @ [LF]) = Inr () \<and>
   res_bind (write_command ''cmd'' [[(''flag'' @ [LF], None)]]) CommandParser_ParseBytes =
     Inr \<lparr>cmd_name = ''cmd'', cmd_rows = [[\<lparr>cp_name = ''flag'', cp_value = ''''\<rparr>]]\<rparr>"
proof
  show valid: "ValidateName (''flag'' @ [LF]) = Inr ()"
    by (simp add: ValidateName_def)
  have "write_command ''cmd'' [[(''flag'' @ [LF], None)]] = Inr (bytes_of_chars (''cmd flag'' @ [LF]))"
    using valid by (simp add: write_command_def make_CommandWriter_def write_parameter_def Write_flag_def WritePrefix_def
        CommandWriter_Take_def ValidateName_def op_bind_def)
  then show "res_bind (write_command ''cmd'' [[(''flag'' @ [LF], None)]]) CommandParser_ParseBytes =
     Inr \<lparr>cmd_name = ''cmd'', cmd_rows = [[\<lparr>cp_name = ''flag'', cp_value = ''''\<rparr>]]\<rparr>"
    by (simp add: CommandParser_ParseBytes_def CommandParser_Parse_def trim_line_end_def parse_rows.simps ParseRow.simps
        parse_parameter_def)
qed

end
