(* ===== verification/Messages.thy ===== *)
theory Messages
  imports Command_Codec
begin

text \<open>
  The typed messages of \<open>protocol/src/message/\<close> and \<open>protocol/include/protocol/message/\<close>:
  notifications parsed from a \<open>Command\<close>, requests serialized with a \<open>CommandWriter\<close>. Each
  parser is the sequence of checks and field extractions of the source, in its order, so that
  the first exception thrown is the model's error. \<open>ParseUnsigned\<close> appears in the source once
  per class in two variants: with and without a test for the empty string first.
\<close>

section \<open>Field helpers\<close>

definition u64_limit :: nat where "u64_limit = 2 ^ 64"

definition ParseUnsigned :: "string \<Rightarrow> string \<Rightarrow> u64 result" where
  "ParseUnsigned value name =
     (case from_chars u64_limit value of
        (Some v, []) \<Rightarrow> Inr (of_nat v)
      | _ \<Rightarrow> Inl (RuntimeError (''Invalid unsigned command parameter: '' @ name)))"

definition ParseUnsigned_nonempty :: "string \<Rightarrow> string \<Rightarrow> u64 result" where
  "ParseUnsigned_nonempty value name =
     (if value = [] then Inl (RuntimeError (''Empty unsigned command parameter: '' @ name))
      else ParseUnsigned value name)"

text \<open>An optional field: absent, or parsed by \<open>f\<close>.\<close>

definition optional_field :: "(string \<Rightarrow> 'a result) \<Rightarrow> string \<Rightarrow> CommandRow \<Rightarrow> 'a option result" where
  "optional_field f name row =
     (case row_Find name row of None \<Rightarrow> Inr None | Some v \<Rightarrow> res_bind (f v) (\<lambda>x. Inr (Some x)))"

definition ParseBoolean_with :: "(string \<Rightarrow> string \<Rightarrow> u64 result) \<Rightarrow> CommandRow \<Rightarrow> string \<Rightarrow> bool option result" where
  "ParseBoolean_with parse row name =
     (case row_Find name row of
        None \<Rightarrow> Inr None
      | Some value \<Rightarrow>
          res_bind (parse value name) (\<lambda>parsed.
          if parsed > 1 then Inl (RuntimeError (''Invalid boolean command parameter: '' @ name))
          else Inr (Some (parsed \<noteq> 0))))"

definition ParseOptionalBoolean ::
  "(string \<Rightarrow> string \<Rightarrow> u64 result) \<Rightarrow> CommandRow \<Rightarrow> string \<Rightarrow> bool \<Rightarrow> bool result" where
  "ParseOptionalBoolean parse row name defaultValue =
     res_bind (ParseBoolean_with parse row name) (\<lambda>b. Inr (case b of None \<Rightarrow> defaultValue | Some v \<Rightarrow> v))"

definition require_unsigned :: "(string \<Rightarrow> string \<Rightarrow> u64 result) \<Rightarrow> CommandRow \<Rightarrow> string \<Rightarrow> u64 result" where
  "require_unsigned parse row name = res_bind (row_Require name row) (\<lambda>v. parse v name)"

definition check :: "bool \<Rightarrow> string \<Rightarrow> unit result" where
  "check ok message = (if ok then Inr () else Inl (RuntimeError message))"

abbreviation max_u16 :: u64 where "max_u16 \<equiv> 0xFFFF"

text \<open>The codec of a channel description: absent, or at most 5.\<close>

definition parse_codec :: "CommandRow \<Rightarrow> u8 option result" where
  "parse_codec row = optional_field (\<lambda>v.
     res_bind (ParseUnsigned v ''channel_codec'') (\<lambda>c.
     res_bind (check (c \<le> 5) ''Invalid channel_codec'') (\<lambda>_. Inr (ucast c)))) ''channel_codec'' row"

section \<open>Channel notifications\<close>

text \<open>\<open>ChannelCreatedEntry\<close> and \<open>ChannelListEntry\<close> have the same fields.\<close>

record ChannelEntry =
  ce_id :: u64
  ce_parentId :: u64
  ce_orderAfterId :: u64
  ce_name :: string
  ce_permanent :: bool
  ce_semiPermanent :: bool
  ce_defaultChannel :: bool
  ce_passwordProtected :: bool
  ce_codec :: u8
  ce_codecIsUnencrypted :: bool

text \<open>
  The body shared by \<open>ChannelCreated::Parse\<close> and the loop of \<open>ChannelList::Parse\<close>; they differ
  in the message for a zero id.
\<close>

definition parse_channel_entry :: "string \<Rightarrow> CommandRow \<Rightarrow> ChannelEntry result" where
  "parse_channel_entry badId row =
     res_bind (require_unsigned ParseUnsigned row ''cid'') (\<lambda>i.
     res_bind (check (i \<noteq> 0) badId) (\<lambda>_.
     res_bind (require_unsigned ParseUnsigned row ''cpid'') (\<lambda>parent.
     res_bind (require_unsigned ParseUnsigned row ''channel_order'') (\<lambda>order.
     res_bind (row_Require ''channel_name'' row) (\<lambda>name.
     res_bind (ParseOptionalBoolean ParseUnsigned row ''channel_flag_permanent'' False) (\<lambda>permanent.
     res_bind (ParseOptionalBoolean ParseUnsigned row ''channel_flag_semi_permanent'' False) (\<lambda>semiPermanent.
     res_bind (ParseOptionalBoolean ParseUnsigned row ''channel_flag_default'' False) (\<lambda>defaultChannel.
     res_bind (ParseOptionalBoolean ParseUnsigned row ''channel_flag_password'' False) (\<lambda>password.
     res_bind (parse_codec row) (\<lambda>codec.
     res_bind (ParseOptionalBoolean ParseUnsigned row ''channel_codec_is_unencrypted'' True) (\<lambda>unencrypted.
     Inr \<lparr>ce_id = i, ce_parentId = parent, ce_orderAfterId = order, ce_name = name, ce_permanent = permanent,
          ce_semiPermanent = semiPermanent, ce_defaultChannel = defaultChannel, ce_passwordProtected = password,
          ce_codec = (case codec of None \<Rightarrow> 4 | Some c \<Rightarrow> c), ce_codecIsUnencrypted = unencrypted\<rparr>)))))))))))"

definition ChannelCreated_Parse :: "Command \<Rightarrow> ChannelEntry result" where
  "ChannelCreated_Parse command =
     res_bind (check (cmd_name command = ''notifychannelcreated'') ''Expected notifychannelcreated command'') (\<lambda>_.
     case cmd_rows command of
       [row] \<Rightarrow> parse_channel_entry ''Invalid notifychannelcreated cid'' row
     | _ \<Rightarrow> Inl (RuntimeError ''notifychannelcreated must contain exactly one channel''))"

definition ChannelList_Parse :: "Command \<Rightarrow> ChannelEntry list result" where
  "ChannelList_Parse command =
     res_bind (check (cmd_name command = ''channellist'') ''Expected channellist command'') (\<lambda>_.
     res_bind (check (cmd_rows command \<noteq> []) ''channellist contains no channels'') (\<lambda>_.
     res_map (parse_channel_entry ''Invalid channellist cid'') (cmd_rows command)))"

definition ChannelDeleted_Parse :: "Command \<Rightarrow> u64 result" where
  "ChannelDeleted_Parse command =
     (case cmd_rows command of
        [row] \<Rightarrow>
          if cmd_name command \<noteq> ''notifychanneldeleted''
          then Inl (RuntimeError ''Expected single notifychanneldeleted command'')
          else res_bind (row_Require ''cid'' row) (\<lambda>value.
               case from_chars u64_limit value of
                 (Some v, []) \<Rightarrow> if of_nat v = (0 :: u64) then Inl (RuntimeError ''Invalid notifychanneldeleted cid'')
                                else Inr (of_nat v)
               | _ \<Rightarrow> Inl (RuntimeError ''Invalid notifychanneldeleted cid''))
      | _ \<Rightarrow> Inl (RuntimeError ''Expected single notifychanneldeleted command''))"

record ChannelEditedEntry =
  ed_id :: u64
  ed_parentId :: "u64 option"
  ed_orderAfterId :: "u64 option"
  ed_name :: "string option"
  ed_permanent :: "bool option"
  ed_semiPermanent :: "bool option"
  ed_defaultChannel :: "bool option"
  ed_passwordProtected :: "bool option"
  ed_codec :: "u8 option"
  ed_codecIsUnencrypted :: "bool option"

definition ChannelEdited_Parse :: "Command \<Rightarrow> ChannelEditedEntry result" where
  "ChannelEdited_Parse command =
     (case cmd_rows command of
        [row] \<Rightarrow>
          res_bind (check (cmd_name command = ''notifychanneledited'') ''Expected single notifychanneledited command'') (\<lambda>_.
          res_bind (require_unsigned ParseUnsigned row ''cid'') (\<lambda>i.
          res_bind (check (i \<noteq> 0) ''Invalid notifychanneledited cid'') (\<lambda>_.
          res_bind (optional_field (\<lambda>v. ParseUnsigned v ''cpid'') ''cpid'' row) (\<lambda>parent.
          res_bind (optional_field (\<lambda>v. ParseUnsigned v ''channel_order'') ''channel_order'' row) (\<lambda>order.
          res_bind (ParseBoolean_with ParseUnsigned row ''channel_flag_permanent'') (\<lambda>permanent.
          res_bind (ParseBoolean_with ParseUnsigned row ''channel_flag_semi_permanent'') (\<lambda>semiPermanent.
          res_bind (ParseBoolean_with ParseUnsigned row ''channel_flag_default'') (\<lambda>defaultChannel.
          res_bind (ParseBoolean_with ParseUnsigned row ''channel_flag_password'') (\<lambda>password.
          res_bind (ParseBoolean_with ParseUnsigned row ''channel_codec_is_unencrypted'') (\<lambda>unencrypted.
          res_bind (parse_codec row) (\<lambda>codec.
          Inr \<lparr>ed_id = i, ed_parentId = parent, ed_orderAfterId = order, ed_name = row_Find ''channel_name'' row,
               ed_permanent = permanent, ed_semiPermanent = semiPermanent, ed_defaultChannel = defaultChannel,
               ed_passwordProtected = password, ed_codec = codec, ed_codecIsUnencrypted = unencrypted\<rparr>)))))))))))
      | _ \<Rightarrow> Inl (RuntimeError ''Expected single notifychanneledited command''))"

record ChannelMovedEntry =
  cm_id :: u64
  cm_parentId :: u64
  cm_orderAfterId :: u64

definition ChannelMoved_Parse :: "Command \<Rightarrow> ChannelMovedEntry result" where
  "ChannelMoved_Parse command =
     (case cmd_rows command of
        [row] \<Rightarrow>
          res_bind (check (cmd_name command = ''notifychannelmoved'') ''Expected single notifychannelmoved command'') (\<lambda>_.
          res_bind (require_unsigned ParseUnsigned row ''cid'') (\<lambda>i.
          res_bind (require_unsigned ParseUnsigned row ''cpid'') (\<lambda>parent.
          res_bind (require_unsigned ParseUnsigned row ''order'') (\<lambda>order.
          res_bind (check (i \<noteq> 0) ''Invalid notifychannelmoved cid'') (\<lambda>_.
          Inr \<lparr>cm_id = i, cm_parentId = parent, cm_orderAfterId = order\<rparr>)))))
      | _ \<Rightarrow> Inl (RuntimeError ''Expected single notifychannelmoved command''))"

definition ParseChannelId :: "string \<Rightarrow> u64 result" where
  "ParseChannelId value =
     (case from_chars u64_limit value of
        (Some v, []) \<Rightarrow> if of_nat v = (0 :: u64) then Inl (RuntimeError ''Invalid channel subscription cid'')
                       else Inr (of_nat v)
      | _ \<Rightarrow> Inl (RuntimeError ''Invalid channel subscription cid''))"

record ChannelSubscriptionState =
  cs_subscribed :: bool
  cs_entries :: "u64 list"

definition ChannelSubscriptionState_Parse :: "Command \<Rightarrow> ChannelSubscriptionState result" where
  "ChannelSubscriptionState_Parse command =
     (let subscribed = cmd_name command = ''notifychannelsubscribed''
      in res_bind (check (subscribed \<or> cmd_name command = ''notifychannelunsubscribed'')
           ''Expected channel subscription notification'') (\<lambda>_.
         res_bind (check (cmd_rows command \<noteq> []) ''Channel subscription notification contains no channels'') (\<lambda>_.
         res_bind (res_map (\<lambda>row. res_bind (row_Require ''cid'' row) ParseChannelId) (cmd_rows command)) (\<lambda>entries.
         Inr \<lparr>cs_subscribed = subscribed, cs_entries = entries\<rparr>))))"

section \<open>Client notifications\<close>

record ClientEnterViewEntry =
  ev_id :: u16
  ev_channelId :: u64
  ev_nickname :: string
  ev_uniqueId :: string
  ev_away :: bool
  ev_inputMuted :: bool
  ev_outputMuted :: bool
  ev_inputHardware :: bool
  ev_outputHardware :: bool
  ev_recording :: bool
  ev_prioritySpeaker :: bool
  ev_channelCommander :: bool
  ev_serverQuery :: bool

definition default_empty :: "string option \<Rightarrow> string" where
  "default_empty v = (case v of None \<Rightarrow> [] | Some s \<Rightarrow> s)"

definition default_zero :: "u64 option \<Rightarrow> u64" where
  "default_zero v = (case v of None \<Rightarrow> 0 | Some n \<Rightarrow> n)"

text \<open>A client id field: required, unsigned, not zero and within 16 bits.\<close>

definition require_client_id :: "string \<Rightarrow> CommandRow \<Rightarrow> u16 result" where
  "require_client_id badId row =
     res_bind (require_unsigned ParseUnsigned_nonempty row ''clid'') (\<lambda>i.
     res_bind (check (\<not> (i = 0 \<or> i > max_u16)) badId) (\<lambda>_. Inr (ucast i)))"

definition parse_enter_view_entry :: "CommandRow \<Rightarrow> ClientEnterViewEntry result" where
  "parse_enter_view_entry row =
     res_bind (require_client_id ''Invalid notifycliententerview clid'' row) (\<lambda>i.
     res_bind (optional_field (\<lambda>v. ParseUnsigned_nonempty v ''ctid'') ''ctid'' row) (\<lambda>channel.
     res_bind (row_Require ''client_nickname'' row) (\<lambda>nickname.
     res_bind (check (nickname \<noteq> []) ''notifycliententerview contains an empty nickname'') (\<lambda>_.
     res_bind (ParseOptionalBoolean ParseUnsigned_nonempty row ''client_away'' False) (\<lambda>away.
     res_bind (ParseOptionalBoolean ParseUnsigned_nonempty row ''client_input_muted'' False) (\<lambda>inputMuted.
     res_bind (ParseOptionalBoolean ParseUnsigned_nonempty row ''client_output_muted'' False) (\<lambda>outputMuted.
     res_bind (ParseOptionalBoolean ParseUnsigned_nonempty row ''client_input_hardware'' True) (\<lambda>inputHardware.
     res_bind (ParseOptionalBoolean ParseUnsigned_nonempty row ''client_output_hardware'' True) (\<lambda>outputHardware.
     res_bind (ParseOptionalBoolean ParseUnsigned_nonempty row ''client_is_recording'' False) (\<lambda>recording.
     res_bind (ParseOptionalBoolean ParseUnsigned_nonempty row ''client_is_priority_speaker'' False) (\<lambda>prioritySpeaker.
     res_bind (ParseOptionalBoolean ParseUnsigned_nonempty row ''client_is_channel_commander'' False) (\<lambda>channelCommander.
     res_bind (ParseOptionalBoolean ParseUnsigned_nonempty row ''client_type'' False) (\<lambda>serverQuery.
     Inr \<lparr>ev_id = i, ev_channelId = default_zero channel, ev_nickname = nickname,
          ev_uniqueId = default_empty (row_Find ''client_unique_identifier'' row), ev_away = away,
          ev_inputMuted = inputMuted, ev_outputMuted = outputMuted, ev_inputHardware = inputHardware,
          ev_outputHardware = outputHardware, ev_recording = recording, ev_prioritySpeaker = prioritySpeaker,
          ev_channelCommander = channelCommander, ev_serverQuery = serverQuery\<rparr>)))))))))))))"

definition ClientEnterView_Parse :: "Command \<Rightarrow> ClientEnterViewEntry list result" where
  "ClientEnterView_Parse command =
     res_bind (check (cmd_name command = ''notifycliententerview'') ''Expected notifycliententerview command'') (\<lambda>_.
     res_bind (check (cmd_rows command \<noteq> []) ''notifycliententerview contains no clients'') (\<lambda>_.
     res_map parse_enter_view_entry (cmd_rows command)))"

record ClientLeftViewEntry =
  lv_id :: u16
  lv_fromChannelId :: u64
  lv_toChannelId :: u64
  lv_reasonId :: u64
  lv_reasonMessage :: string

definition parse_left_view_entry :: "CommandRow \<Rightarrow> ClientLeftViewEntry result" where
  "parse_left_view_entry row =
     res_bind (require_client_id ''Invalid notifyclientleftview clid'' row) (\<lambda>i.
     res_bind (optional_field (\<lambda>v. ParseUnsigned_nonempty v ''cfid'') ''cfid'' row) (\<lambda>fromChannel.
     res_bind (optional_field (\<lambda>v. ParseUnsigned_nonempty v ''ctid'') ''ctid'' row) (\<lambda>toChannel.
     res_bind (optional_field (\<lambda>v. ParseUnsigned_nonempty v ''reasonid'') ''reasonid'' row) (\<lambda>reason.
     Inr \<lparr>lv_id = i, lv_fromChannelId = default_zero fromChannel, lv_toChannelId = default_zero toChannel,
          lv_reasonId = default_zero reason, lv_reasonMessage = default_empty (row_Find ''reasonmsg'' row)\<rparr>))))"

definition ClientLeftView_Parse :: "Command \<Rightarrow> ClientLeftViewEntry list result" where
  "ClientLeftView_Parse command =
     res_bind (check (cmd_name command = ''notifyclientleftview'') ''Expected notifyclientleftview command'') (\<lambda>_.
     res_bind (check (cmd_rows command \<noteq> []) ''notifyclientleftview contains no clients'') (\<lambda>_.
     res_map parse_left_view_entry (cmd_rows command)))"

record ClientMovedEntry =
  mv_id :: u16
  mv_channelId :: u64
  mv_reasonId :: u64
  mv_reasonMessage :: string

definition parse_moved_entry :: "CommandRow \<Rightarrow> ClientMovedEntry result" where
  "parse_moved_entry row =
     res_bind (require_client_id ''Invalid notifyclientmoved clid'' row) (\<lambda>i.
     res_bind (require_unsigned ParseUnsigned_nonempty row ''ctid'') (\<lambda>channel.
     res_bind (require_unsigned ParseUnsigned_nonempty row ''reasonid'') (\<lambda>reason.
     Inr \<lparr>mv_id = i, mv_channelId = channel, mv_reasonId = reason,
          mv_reasonMessage = default_empty (row_Find ''reasonmsg'' row)\<rparr>)))"

definition ClientMoved_Parse :: "Command \<Rightarrow> ClientMovedEntry list result" where
  "ClientMoved_Parse command =
     res_bind (check (cmd_name command = ''notifyclientmoved'') ''Expected notifyclientmoved command'') (\<lambda>_.
     res_bind (check (cmd_rows command \<noteq> []) ''notifyclientmoved contains no clients'') (\<lambda>_.
     res_map parse_moved_entry (cmd_rows command)))"

record ClientUpdatedEntry =
  up_id :: u16
  up_nickname :: "string option"
  up_away :: "bool option"
  up_inputMuted :: "bool option"
  up_outputMuted :: "bool option"
  up_inputHardware :: "bool option"
  up_outputHardware :: "bool option"
  up_recording :: "bool option"
  up_prioritySpeaker :: "bool option"
  up_channelCommander :: "bool option"

definition parse_updated_entry :: "CommandRow \<Rightarrow> ClientUpdatedEntry result" where
  "parse_updated_entry row =
     res_bind (require_unsigned ParseUnsigned_nonempty row ''clid'') (\<lambda>i.
     res_bind (check (\<not> i > max_u16) ''Invalid notifyclientupdated clid'') (\<lambda>_.
     res_bind (ParseBoolean_with ParseUnsigned_nonempty row ''client_away'') (\<lambda>away.
     res_bind (ParseBoolean_with ParseUnsigned_nonempty row ''client_input_muted'') (\<lambda>inputMuted.
     res_bind (ParseBoolean_with ParseUnsigned_nonempty row ''client_output_muted'') (\<lambda>outputMuted.
     res_bind (ParseBoolean_with ParseUnsigned_nonempty row ''client_input_hardware'') (\<lambda>inputHardware.
     res_bind (ParseBoolean_with ParseUnsigned_nonempty row ''client_output_hardware'') (\<lambda>outputHardware.
     res_bind (ParseBoolean_with ParseUnsigned_nonempty row ''client_is_recording'') (\<lambda>recording.
     res_bind (ParseBoolean_with ParseUnsigned_nonempty row ''client_is_priority_speaker'') (\<lambda>prioritySpeaker.
     res_bind (ParseBoolean_with ParseUnsigned_nonempty row ''client_is_channel_commander'') (\<lambda>channelCommander.
     Inr \<lparr>up_id = ucast i, up_nickname = row_Find ''client_nickname'' row, up_away = away, up_inputMuted = inputMuted,
          up_outputMuted = outputMuted, up_inputHardware = inputHardware, up_outputHardware = outputHardware,
          up_recording = recording, up_prioritySpeaker = prioritySpeaker, up_channelCommander = channelCommander\<rparr>))))))))))"

definition ClientUpdated_Parse :: "Command \<Rightarrow> ClientUpdatedEntry list result" where
  "ClientUpdated_Parse command =
     res_bind (check (cmd_name command = ''notifyclientupdated'') ''Expected notifyclientupdated command'') (\<lambda>_.
     res_bind (check (cmd_rows command \<noteq> []) ''notifyclientupdated contains no clients'') (\<lambda>_.
     res_map parse_updated_entry (cmd_rows command)))"

record ClientPokeEntry =
  pk_invokerId :: u16
  pk_invokerName :: string
  pk_invokerUniqueId :: string
  pk_message :: string

definition ClientPoke_Parse :: "Command \<Rightarrow> ClientPokeEntry result" where
  "ClientPoke_Parse command =
     res_bind (check (cmd_name command = ''notifyclientpoke'') ''Expected notifyclientpoke command'') (\<lambda>_.
     case cmd_rows command of
       [row] \<Rightarrow>
         res_bind (require_unsigned ParseUnsigned row ''invokerid'') (\<lambda>i.
         res_bind (check (\<not> i > max_u16) ''Invalid notifyclientpoke invokerid'') (\<lambda>_.
         res_bind (row_Require ''invokername'' row) (\<lambda>name.
         res_bind (row_Require ''invokeruid'' row) (\<lambda>uid.
         res_bind (row_Require ''msg'' row) (\<lambda>msg.
         Inr \<lparr>pk_invokerId = ucast i, pk_invokerName = name, pk_invokerUniqueId = uid, pk_message = msg\<rparr>)))))
     | _ \<Rightarrow> Inl (RuntimeError ''notifyclientpoke must contain exactly one poke''))"

section \<open>Text messages and command results\<close>

datatype TextMessageTargetMode = Private | Channel | Server

fun target_mode_value :: "TextMessageTargetMode \<Rightarrow> nat" where
  "target_mode_value Private = 1"
| "target_mode_value Channel = 2"
| "target_mode_value Server = 3"

record TextMessageTarget =
  tt_mode :: TextMessageTargetMode
  tt_id :: u64

record TextMessageEntry =
  te_targetMode :: TextMessageTargetMode
  te_targetId :: "u64 option"
  te_invokerId :: u16
  te_invokerName :: string
  te_invokerUniqueId :: string
  te_text :: string

definition ParseTargetMode :: "string \<Rightarrow> TextMessageTargetMode result" where
  "ParseTargetMode value =
     res_bind (ParseUnsigned_nonempty value ''targetmode'') (\<lambda>m.
     if m = 1 then Inr Private else if m = 2 then Inr Channel else if m = 3 then Inr Server
     else Inl (RuntimeError ''Invalid notifytextmessage targetmode''))"

definition parse_text_entry :: "CommandRow \<Rightarrow> TextMessageEntry result" where
  "parse_text_entry row =
     res_bind (row_Require ''targetmode'' row) (\<lambda>modeText.
     res_bind (ParseTargetMode modeText) (\<lambda>mode.
     res_bind (row_Require ''msg'' row) (\<lambda>msg.
     res_bind (optional_field (\<lambda>v. ParseUnsigned_nonempty v ''target'') ''target'' row) (\<lambda>target.
     res_bind (optional_field (\<lambda>v. res_bind (ParseUnsigned_nonempty v ''invokerid'') (\<lambda>i.
         res_bind (check (\<not> i > max_u16) ''Invalid notifytextmessage invokerid'') (\<lambda>_. Inr (ucast i))))
         ''invokerid'' row) (\<lambda>invoker.
     Inr \<lparr>te_targetMode = mode, te_targetId = target, te_invokerId = (case invoker of None \<Rightarrow> 0 | Some i \<Rightarrow> i),
          te_invokerName = default_empty (row_Find ''invokername'' row),
          te_invokerUniqueId = default_empty (row_Find ''invokeruid'' row), te_text = msg\<rparr>)))))"

definition TextMessage_Parse :: "Command \<Rightarrow> TextMessageEntry list result" where
  "TextMessage_Parse command =
     res_bind (check (cmd_name command = ''notifytextmessage'') ''Expected notifytextmessage command'') (\<lambda>_.
     res_bind (check (cmd_rows command \<noteq> []) ''notifytextmessage contains no messages'') (\<lambda>_.
     res_map parse_text_entry (cmd_rows command)))"

record CommandResultEntry =
  cr_id :: u32
  cr_message :: string
  cr_returnCode :: "string option"

definition parse_result_entry :: "CommandRow \<Rightarrow> CommandResultEntry result" where
  "parse_result_entry row =
     res_bind (require_unsigned ParseUnsigned_nonempty row ''id'') (\<lambda>i.
     res_bind (check (\<not> i > 0xFFFFFFFF) ''Invalid error command id'') (\<lambda>_.
     res_bind (row_Require ''msg'' row) (\<lambda>msg.
     Inr \<lparr>cr_id = ucast i, cr_message = msg, cr_returnCode = row_Find ''return_code'' row\<rparr>)))"

definition CommandResult_Parse :: "Command \<Rightarrow> CommandResultEntry list result" where
  "CommandResult_Parse command =
     res_bind (check (cmd_name command = ''error'') ''Expected error command'') (\<lambda>_.
     res_bind (check (cmd_rows command \<noteq> []) ''error command contains no results'') (\<lambda>_.
     res_map parse_result_entry (cmd_rows command)))"

section \<open>Requests\<close>

text \<open>A \<open>CommandWriter\<close> constructed, written to and taken.\<close>

definition with_writer :: "string \<Rightarrow> (CommandWriter, unit) op \<Rightarrow> bytes result" where
  "with_writer name body =
     res_bind (make_CommandWriter name) (\<lambda>w.
     case body w of (Inl e, _) \<Rightarrow> Inl e | (Inr _, w') \<Rightarrow> CommandWriter_Take w')"

text \<open>Constructor checks and \<open>Serialize\<close> of each request, in one function.\<close>

definition ChannelSubscribeAll_Serialize :: "bytes result" where
  "ChannelSubscribeAll_Serialize = with_writer ''channelsubscribeall'' (op_return ())"

definition ChannelSubscribe_Serialize :: "u64 \<Rightarrow> bytes result" where
  "ChannelSubscribe_Serialize channelId =
     res_bind (check (channelId \<noteq> 0) ''Cannot subscribe to channel zero'') (\<lambda>_.
     with_writer ''channelsubscribe'' (Write_integral ''cid'' (unat channelId)))"

definition ClientDisconnect_Serialize :: "string \<Rightarrow> bytes result" where
  "ClientDisconnect_Serialize reason =
     with_writer ''clientdisconnect'' (op_bind (Write_integral ''reasonid'' 8) (\<lambda>_. Write_value ''reasonmsg'' reason))"

definition ClientMove_Serialize :: "u16 \<Rightarrow> u64 \<Rightarrow> bytes result" where
  "ClientMove_Serialize clientId channelId =
     res_bind (check (clientId \<noteq> 0) ''Client move client ID is zero'') (\<lambda>_.
     res_bind (check (channelId \<noteq> 0) ''Client move channel ID is zero'') (\<lambda>_.
     with_writer ''clientmove'' (op_bind (Write_integral ''clid'' (unat clientId)) (\<lambda>_.
       Write_integral ''cid'' (unat channelId)))))"

definition ClientUpdate_Serialize :: "string \<Rightarrow> bytes result" where
  "ClientUpdate_Serialize nickname =
     res_bind (check (nickname \<noteq> []) ''Client nickname is empty'') (\<lambda>_.
     with_writer ''clientupdate'' (Write_value ''client_nickname'' nickname))"

definition SendTextMessage_Serialize :: "TextMessageTarget \<Rightarrow> string \<Rightarrow> bytes result" where
  "SendTextMessage_Serialize target body =
     res_bind (check (body \<noteq> []) ''Text message is empty'') (\<lambda>_.
     res_bind (check (\<not> (tt_mode target \<noteq> Server \<and> tt_id target = 0)) ''Text message target ID is zero'') (\<lambda>_.
     with_writer ''sendtextmessage''
       (op_bind (Write_integral ''targetmode'' (target_mode_value (tt_mode target))) (\<lambda>_.
        op_bind (Write_integral ''target'' (unat (tt_id target))) (\<lambda>_.
        Write_value ''msg'' body)))))"

section \<open>Fields written and read\<close>

lemma ParseUnsigned_to_string [simp]: "ParseUnsigned (to_string (unat n)) name = Inr n"
proof -
  have "unat n < u64_limit" using unsigned_less [of n, where 'a = nat] by (simp add: u64_limit_def)
  then show ?thesis by (simp add: ParseUnsigned_def from_chars_to_string)
qed

lemma ParseUnsigned_nonempty_to_string [simp]: "ParseUnsigned_nonempty (to_string (unat n)) name = Inr n"
  by (simp add: ParseUnsigned_nonempty_def)

lemma row_Find_simps [simp]:
  "row_Find name [] = None"
  "row_Find name (p # row) = (if cp_name p = name then Some (cp_value p) else row_Find name row)"
  by (simp_all add: row_Find_def)

lemma unat_ucast_u64: "unat (ucast (i :: u16) :: u64) = unat i"
  by (simp add: unat_ucast_up)

lemma ucast_ucast_u64 [simp]: "(ucast (ucast (i :: u16) :: u64) :: u16) = i"
  by transfer (simp add: take_bit_take_bit)

lemma op_bind_return [simp]: "op_bind m op_return = m"
  by (rule ext) (simp add: op_bind_def split: prod.splits sum.splits)

lemma unat_ucast_small: "unat (w :: 'a::len word) < 2 ^ LENGTH('b::len) \<Longrightarrow> unat (ucast w :: 'b word) = unat w"
  by (simp add: unsigned_ucast_eq take_bit_nat_eq_self_iff)

lemma check_simps [simp]: "check True m = Inr ()" "check False m = Inl (RuntimeError m)"
  by (simp_all add: check_def)

lemma check_Inr [simp]: "check b m = Inr u \<longleftrightarrow> b"
  by (simp add: check_def)

text \<open>A 16-bit id printed in decimal is read back as itself.\<close>

lemma client_id_field:
  assumes "i \<noteq> 0" and "row_Require ''clid'' row = Inr (to_string (unat i))"
  shows "require_client_id badId row = Inr i"
proof -
  have "unat i < 65536" using unsigned_less [of i, where 'a = nat] by simp
  then have small: "\<not> (ucast i :: u64) > 0xFFFF" by (simp add: word_less_nat_alt unat_ucast_up)
  have nonzero: "(ucast i :: u64) \<noteq> 0"
    using assms(1) by (metis unat_eq_zero unat_ucast_u64)
  have "ParseUnsigned_nonempty (to_string (unat i)) name = Inr (ucast i)" for name
    using ParseUnsigned_nonempty_to_string [of "ucast i :: u64"] by (simp add: unat_ucast_u64)
  then show ?thesis
    using assms(2) small nonzero by (simp add: require_client_id_def require_unsigned_def)
qed

lemma to_string_no_NUL: "NUL \<notin> set (to_string n)"
  by (rule to_string_no) (simp add: is_digit_def)

lemma with_writer_row:
  "with_writer name (op_for row write_parameter) = write_command name [row]"
  by (simp add: with_writer_def write_command_def)

lemmas as_document = Write_integral_def write_parameter_def [of "(a, Some b)" for a b, simplified, symmetric]

lemma SendTextMessage_document:
  assumes "body \<noteq> []" and "tt_mode target = Server \<or> tt_id target \<noteq> 0"
  shows "SendTextMessage_Serialize target body =
     write_command ''sendtextmessage''
       [[(''targetmode'', Some (to_string (target_mode_value (tt_mode target)))),
         (''target'', Some (to_string (unat (tt_id target)))), (''msg'', Some body)]]"
  using assms
  by (simp add: SendTextMessage_Serialize_def as_document flip: with_writer_row)

lemma ClientMove_document:
  assumes "clientId \<noteq> 0" and "channelId \<noteq> 0"
  shows "ClientMove_Serialize clientId channelId =
     write_command ''clientmove'' [[(''clid'', Some (to_string (unat clientId))), (''cid'', Some (to_string (unat channelId)))]]"
  using assms by (simp add: ClientMove_Serialize_def as_document flip: with_writer_row)

text \<open>Rows of named values, as a server writes a notification.\<close>

definition values_document :: "(string \<times> string) list list \<Rightarrow> document" where
  "values_document = map (map (\<lambda>(n, v). (n, Some v)))"

definition values_rows :: "(string \<times> string) list list \<Rightarrow> CommandRow list" where
  "values_rows = map (map (\<lambda>(n, v). \<lparr>cp_name = n, cp_value = v\<rparr>))"

definition clean_fields :: "(string \<times> string) list \<Rightarrow> bool" where
  "clean_fields row \<longleftrightarrow> row \<noteq> [] \<and> list_all (\<lambda>(n, v). clean_name n \<and> NUL \<notin> set v) row"

lemma write_values_read:
  assumes "clean_name name" and "list_all clean_fields rows"
  shows "res_bind (write_command name (values_document rows)) CommandParser_ParseBytes =
     Inr \<lparr>cmd_name = name, cmd_rows = values_rows rows\<rparr>"
proof -
  have doc: "clean_document (values_document rows)"
    using assms(2) by (fastforce simp: clean_document_def list_all_iff values_document_def clean_fields_def)
  have "name \<noteq> []" using assms(1) by (simp add: clean_name_def)
  then have "res_bind (write_command name (values_document rows)) CommandParser_ParseBytes =
      Inr \<lparr>cmd_name = name, cmd_rows = map row_of (values_document rows)\<rparr>"
    using parse_written [OF assms(1) doc] by (simp add: write_command_run [OF assms(1) doc] CommandParser_ParseBytes_def)
  moreover have "map row_of (values_document rows) = values_rows rows"
    by (auto simp: values_document_def values_rows_def row_of_def)
  ultimately show ?thesis by simp
qed

definition moved_fields :: "ClientMovedEntry \<Rightarrow> (string \<times> string) list" where
  "moved_fields e = [(''clid'', to_string (unat (mv_id e))), (''ctid'', to_string (unat (mv_channelId e))),
     (''reasonid'', to_string (unat (mv_reasonId e))), (''reasonmsg'', mv_reasonMessage e)]"

definition enter_fields :: "ClientEnterViewEntry \<Rightarrow> (string \<times> string) list" where
  "enter_fields e =
     (let flag = (\<lambda>b. if b then ''1'' else ''0'')
      in [(''clid'', to_string (unat (ev_id e))), (''ctid'', to_string (unat (ev_channelId e))),
          (''client_nickname'', ev_nickname e), (''client_unique_identifier'', ev_uniqueId e),
          (''client_away'', flag (ev_away e)), (''client_input_muted'', flag (ev_inputMuted e)),
          (''client_output_muted'', flag (ev_outputMuted e)), (''client_input_hardware'', flag (ev_inputHardware e)),
          (''client_output_hardware'', flag (ev_outputHardware e)), (''client_is_recording'', flag (ev_recording e)),
          (''client_is_priority_speaker'', flag (ev_prioritySpeaker e)),
          (''client_is_channel_commander'', flag (ev_channelCommander e)), (''client_type'', flag (ev_serverQuery e))])"

lemma flag_field:
  assumes "row_Find name row = Some (if b then ''1'' else ''0'')"
  shows "ParseOptionalBoolean ParseUnsigned_nonempty row name d = Inr b"
proof -
  have "ParseUnsigned_nonempty (if b then ''1'' else ''0'') name = Inr (if b then 1 else 0)"
    by (simp add: ParseUnsigned_nonempty_def ParseUnsigned_def from_chars_def u64_limit_def is_digit_def
        number_of_digits_def digit_value_def)
  with assms show ?thesis by (simp add: ParseOptionalBoolean_def ParseBoolean_with_def)
qed

lemma parse_moved_fields:
  "mv_id e \<noteq> 0 \<Longrightarrow> parse_moved_entry (map (\<lambda>(n, v). \<lparr>cp_name = n, cp_value = v\<rparr>) (moved_fields e)) = Inr e"
  by (simp add: parse_moved_entry_def moved_fields_def client_id_field row_Require_def require_unsigned_def default_empty_def)

lemma parse_enter_fields:
  assumes "ev_id e \<noteq> 0" and "ev_nickname e \<noteq> []"
  shows "parse_enter_view_entry (map (\<lambda>(n, v). \<lparr>cp_name = n, cp_value = v\<rparr>) (enter_fields e)) = Inr e"
  using assms
  by (simp add: parse_enter_view_entry_def enter_fields_def client_id_field row_Require_def optional_field_def
      flag_field default_empty_def default_zero_def)

lemma moved_fields_clean:
  "NUL \<notin> set (mv_reasonMessage e) \<Longrightarrow> clean_fields (moved_fields e)"
  by (simp add: clean_fields_def moved_fields_def clean_name_def to_string_no_NUL)

lemma enter_fields_clean:
  "NUL \<notin> set (ev_nickname e) \<Longrightarrow> NUL \<notin> set (ev_uniqueId e) \<Longrightarrow>
   clean_fields (enter_fields e)"
  by (simp add: clean_fields_def enter_fields_def clean_name_def to_string_no_NUL)

lemma res_map_values:
  assumes "\<And>e. e \<in> set es \<Longrightarrow> f (map (\<lambda>(n, v). \<lparr>cp_name = n, cp_value = v\<rparr>) (row e)) = Inr e"
  shows "res_map f (values_rows (map row es)) = Inr es"
  using assms by (induction es) (simp_all add: values_rows_def)

text \<open>What the parsers guarantee of an accepted entry.\<close>

lemma require_client_id_nonzero: "require_client_id badId row = Inr i \<Longrightarrow> i \<noteq> 0"
proof -
  assume "require_client_id badId row = Inr i"
  then obtain v :: u64 where v: "v \<noteq> 0" "\<not> v > max_u16" "i = ucast v"
    by (auto simp: require_client_id_def res_bind_eq_Inr)
  then have "unat v < 65536" by (simp add: word_less_nat_alt not_less)
  then have "unat i = unat v" by (simp add: v(3) unat_ucast_small)
  with v(1) show ?thesis by (metis unat_0 unat_eq_zero)
qed

lemma parse_codec_bound: "parse_codec row = Inr (Some c) \<Longrightarrow> c \<le> 5"
proof -
  assume "parse_codec row = Inr (Some c)"
  then obtain v :: u64 where v: "v \<le> 5" "c = ucast v"
    by (auto simp: parse_codec_def optional_field_def res_bind_eq_Inr split: option.splits)
  then have "unat v \<le> 5" by (simp add: word_le_nat_alt)
  then show ?thesis by (simp add: v(2) word_le_nat_alt unat_ucast_small)
qed

lemma res_map_all:
  assumes "res_map f rows = Inr es" and "\<And>row e. f row = Inr e \<Longrightarrow> P e"
  shows "list_all P es"
  using res_map_Inr [OF assms(1)] assms(2) by (auto simp: list_all2_conv_all_nth list_all_length)

lemma enter_view_entry_valid: "parse_enter_view_entry row = Inr e \<Longrightarrow> ev_id e \<noteq> 0 \<and> ev_nickname e \<noteq> []"
  unfolding parse_enter_view_entry_def res_bind_eq_Inr
  by (elim exE conjE) (drule require_client_id_nonzero, clarsimp)

lemma moved_entry_valid: "parse_moved_entry row = Inr e \<Longrightarrow> mv_id e \<noteq> 0"
  by (auto simp: parse_moved_entry_def res_bind_eq_Inr dest: require_client_id_nonzero)

lemma left_view_entry_valid: "parse_left_view_entry row = Inr e \<Longrightarrow> lv_id e \<noteq> 0"
  by (auto simp: parse_left_view_entry_def res_bind_eq_Inr dest: require_client_id_nonzero)

lemma channel_entry_valid: "parse_channel_entry badId row = Inr e \<Longrightarrow> ce_id e \<noteq> 0 \<and> ce_codec e \<le> 5"
  unfolding parse_channel_entry_def res_bind_eq_Inr
  by (elim exE conjE) (simp, auto dest: parse_codec_bound split: option.splits)

lemma channel_list_valid:
  "ChannelList_Parse command = Inr es \<Longrightarrow> list_all (\<lambda>e. ce_id e \<noteq> 0 \<and> ce_codec e \<le> 5) es"
  by (auto simp: ChannelList_Parse_def res_bind_eq_Inr intro: res_map_all [OF _ channel_entry_valid])

lemma channel_created_valid: "ChannelCreated_Parse command = Inr e \<Longrightarrow> ce_id e \<noteq> 0 \<and> ce_codec e \<le> 5"
  by (auto simp: ChannelCreated_Parse_def res_bind_eq_Inr split: list.splits dest: channel_entry_valid)

lemma channel_deleted_valid: "ChannelDeleted_Parse command = Inr i \<Longrightarrow> i \<noteq> 0"
proof -
  assume run: "ChannelDeleted_Parse command = Inr i"
  then obtain row where "cmd_rows command = [row]"
    unfolding ChannelDeleted_Parse_def by (auto split: list.splits)
  with run obtain v where "(case from_chars u64_limit v of
      (Some v, []) \<Rightarrow> if of_nat v = (0 :: u64) then Inl (RuntimeError ''Invalid notifychanneldeleted cid'') else Inr (of_nat v)
    | _ \<Rightarrow> Inl (RuntimeError ''Invalid notifychanneldeleted cid'')) = Inr i"
    by (auto simp: ChannelDeleted_Parse_def res_bind_eq_Inr split: if_splits)
  then show "i \<noteq> 0" by (auto split: prod.splits option.splits list.splits if_splits)
qed

lemma channel_edited_valid:
  "ChannelEdited_Parse command = Inr e \<Longrightarrow> ed_id e \<noteq> 0 \<and> (\<forall>codec \<in> set_option (ed_codec e). codec \<le> 5)"
  unfolding ChannelEdited_Parse_def
  by (cases "cmd_rows command"; cases "tl (cmd_rows command)")
     (simp_all add: res_bind_eq_Inr check_def split: if_splits, elim exE conjE, auto dest: parse_codec_bound)

lemma channel_moved_valid: "ChannelMoved_Parse command = Inr e \<Longrightarrow> cm_id e \<noteq> 0"
  by (auto simp: ChannelMoved_Parse_def res_bind_eq_Inr split: list.splits)

lemma ParseChannelId_valid: "ParseChannelId v = Inr i \<Longrightarrow> i \<noteq> 0"
  by (auto simp: ParseChannelId_def split: option.splits list.splits prod.splits if_splits)

lemma subscription_valid: "ChannelSubscriptionState_Parse command = Inr e \<Longrightarrow> list_all (\<lambda>i. i \<noteq> 0) (cs_entries e)"
  by (auto simp: ChannelSubscriptionState_Parse_def Let_def res_bind_eq_Inr
      intro!: res_map_all [where P = "\<lambda>i. i \<noteq> 0"] dest: ParseChannelId_valid)

lemma enter_view_valid: "ClientEnterView_Parse command = Inr es \<Longrightarrow> list_all (\<lambda>e. ev_id e \<noteq> 0 \<and> ev_nickname e \<noteq> []) es"
  by (auto simp: ClientEnterView_Parse_def res_bind_eq_Inr intro: res_map_all [OF _ enter_view_entry_valid])

lemma client_moved_valid: "ClientMoved_Parse command = Inr es \<Longrightarrow> list_all (\<lambda>e. mv_id e \<noteq> 0) es"
  by (auto simp: ClientMoved_Parse_def res_bind_eq_Inr intro: res_map_all [OF _ moved_entry_valid])

lemma left_view_valid: "ClientLeftView_Parse command = Inr es \<Longrightarrow> list_all (\<lambda>e. lv_id e \<noteq> 0) es"
  by (auto simp: ClientLeftView_Parse_def res_bind_eq_Inr intro: res_map_all [OF _ left_view_entry_valid])

section \<open>Properties\<close>

text \<open>
  The text message a client sends is the one the receiving side reads. For a non-empty body
  without a null byte and a valid target, serializing \<open>SendTextMessage\<close>, parsing the bytes and
  reading the row as a text message gives back the mode, the target and the body.
\<close>

theorem text_message_roundtrip:
  assumes "body \<noteq> []" and "NUL \<notin> set body" and "tt_mode target = Server \<or> tt_id target \<noteq> 0"
  shows "res_bind (res_bind (SendTextMessage_Serialize target body) CommandParser_ParseBytes)
           (\<lambda>command. res_map parse_text_entry (cmd_rows command)) =
     Inr [\<lparr>te_targetMode = tt_mode target, te_targetId = Some (tt_id target), te_invokerId = 0,
           te_invokerName = '''', te_invokerUniqueId = '''', te_text = body\<rparr>]"
proof -
  let ?row = "[(''targetmode'', to_string (target_mode_value (tt_mode target))),
    (''target'', to_string (unat (tt_id target))), (''msg'', body)]"
  have "SendTextMessage_Serialize target body = write_command ''sendtextmessage'' (values_document [?row])"
    using SendTextMessage_document [OF assms(1,3)] by (simp add: values_document_def)
  moreover have "res_bind (write_command ''sendtextmessage'' (values_document [?row])) CommandParser_ParseBytes =
      Inr \<lparr>cmd_name = ''sendtextmessage'', cmd_rows = values_rows [?row]\<rparr>"
    using assms(2) by (intro write_values_read) (simp_all add: clean_name_def to_string_no_NUL clean_fields_def)
  moreover have "ParseTargetMode (to_string (target_mode_value (tt_mode target))) = Inr (tt_mode target)"
    using ParseUnsigned_nonempty_to_string [of "of_nat (target_mode_value (tt_mode target))"]
    by (cases "tt_mode target") (simp_all add: ParseTargetMode_def)
  ultimately show ?thesis
    by (simp add: values_rows_def parse_text_entry_def row_Require_def optional_field_def default_empty_def)
qed

theorem text_message_roundtrip_witness:
  "res_bind (res_bind (SendTextMessage_Serialize \<lparr>tt_mode = Channel, tt_id = 7\<rparr> ''hi | there'') CommandParser_ParseBytes)
           (\<lambda>command. res_map parse_text_entry (cmd_rows command)) =
     Inr [\<lparr>te_targetMode = Channel, te_targetId = Some 7, te_invokerId = 0,
           te_invokerName = '''', te_invokerUniqueId = '''', te_text = ''hi | there''\<rparr>]"
  using text_message_roundtrip [of "''hi | there''" "\<lparr>tt_mode = Channel, tt_id = 7\<rparr>"] by simp

text \<open>
  The client notifications are read field for field. A \<open>notifyclientmoved\<close> or
  \<open>notifycliententerview\<close> command written with any number of entries (ids not zero, nicknames
  not empty, no null bytes) is parsed back to exactly those entries, in order.
\<close>

theorem client_notifications_roundtrip:
  assumes "ms \<noteq> []" and "list_all (\<lambda>e. mv_id e \<noteq> 0 \<and> NUL \<notin> set (mv_reasonMessage e)) ms"
    and "es \<noteq> []" and "list_all (\<lambda>e. ev_id e \<noteq> 0 \<and> ev_nickname e \<noteq> [] \<and> NUL \<notin> set (ev_nickname e) \<and> NUL \<notin> set (ev_uniqueId e)) es"
  shows "res_bind (res_bind (write_command ''notifyclientmoved'' (values_document (map moved_fields ms)))
             CommandParser_ParseBytes) ClientMoved_Parse = Inr ms \<and>
         res_bind (res_bind (write_command ''notifycliententerview'' (values_document (map enter_fields es)))
             CommandParser_ParseBytes) ClientEnterView_Parse = Inr es"
proof
  have "res_bind (write_command ''notifyclientmoved'' (values_document (map moved_fields ms))) CommandParser_ParseBytes =
      Inr \<lparr>cmd_name = ''notifyclientmoved'', cmd_rows = values_rows (map moved_fields ms)\<rparr>"
    using assms(2) moved_fields_clean
    by (intro write_values_read) (simp_all add: clean_name_def list_all_iff)
  moreover have "res_map parse_moved_entry (values_rows (map moved_fields ms)) = Inr ms"
    using assms(2) by (intro res_map_values parse_moved_fields) (auto simp: list_all_iff)
  ultimately show "res_bind (res_bind (write_command ''notifyclientmoved'' (values_document (map moved_fields ms)))
      CommandParser_ParseBytes) ClientMoved_Parse = Inr ms"
    using assms(1) by (simp add: ClientMoved_Parse_def values_rows_def)
  have "res_bind (write_command ''notifycliententerview'' (values_document (map enter_fields es))) CommandParser_ParseBytes =
      Inr \<lparr>cmd_name = ''notifycliententerview'', cmd_rows = values_rows (map enter_fields es)\<rparr>"
    using assms(4) enter_fields_clean
    by (intro write_values_read) (simp_all add: clean_name_def list_all_iff)
  moreover have "res_map parse_enter_view_entry (values_rows (map enter_fields es)) = Inr es"
    using assms(4) by (intro res_map_values parse_enter_fields) (auto simp: list_all_iff)
  ultimately show "res_bind (res_bind (write_command ''notifycliententerview'' (values_document (map enter_fields es)))
      CommandParser_ParseBytes) ClientEnterView_Parse = Inr es"
    using assms(3) by (simp add: ClientEnterView_Parse_def values_rows_def)
qed

definition sample_move :: ClientMovedEntry where
  "sample_move = \<lparr>mv_id = 5, mv_channelId = 12, mv_reasonId = 0, mv_reasonMessage = ''bye bye''\<rparr>"

definition sample_entry :: ClientEnterViewEntry where
  "sample_entry = \<lparr>ev_id = 9, ev_channelId = 3, ev_nickname = ''Ann'', ev_uniqueId = ''u='', ev_away = True,
     ev_inputMuted = False, ev_outputMuted = True, ev_inputHardware = False, ev_outputHardware = True,
     ev_recording = False, ev_prioritySpeaker = True, ev_channelCommander = False, ev_serverQuery = False\<rparr>"

theorem client_notifications_roundtrip_witness:
  "res_bind (res_bind (write_command ''notifyclientmoved'' (values_document (map moved_fields [sample_move])))
             CommandParser_ParseBytes) ClientMoved_Parse = Inr [sample_move] \<and>
   res_bind (res_bind (write_command ''notifycliententerview'' (values_document (map enter_fields [sample_entry])))
             CommandParser_ParseBytes) ClientEnterView_Parse = Inr [sample_entry]"
  by (rule client_notifications_roundtrip) (simp_all add: sample_move_def sample_entry_def)

text \<open>
  C27: what the parsers of the messages that add, remove, change or move channels and clients let
  through. Whatever a command contains, accepted channels of \<open>channellist\<close> and
  \<open>notifychannelcreated\<close> have an id different from zero and a codec of at most 5; accepted
  \<open>notifychanneldeleted\<close>, \<open>notifychanneledited\<close>, \<open>notifychannelmoved\<close> and
  \<open>notifychannel(un)subscribed\<close> name channels different from zero, an edited codec being at most 5;
  accepted clients of \<open>notifycliententerview\<close>, \<open>notifyclientmoved\<close> and \<open>notifyclientleftview\<close> have
  an id different from zero, and those that come into view a nickname.
\<close>

theorem accepted_entries_valid:
  "(\<forall>es. ChannelList_Parse command = Inr es \<longrightarrow> list_all (\<lambda>e. ce_id e \<noteq> 0 \<and> ce_codec e \<le> 5) es) \<and>
   (\<forall>e. ChannelCreated_Parse command = Inr e \<longrightarrow> ce_id e \<noteq> 0 \<and> ce_codec e \<le> 5) \<and>
   (\<forall>i. ChannelDeleted_Parse command = Inr i \<longrightarrow> i \<noteq> 0) \<and>
   (\<forall>e. ChannelEdited_Parse command = Inr e \<longrightarrow> ed_id e \<noteq> 0 \<and> (\<forall>codec \<in> set_option (ed_codec e). codec \<le> 5)) \<and>
   (\<forall>e. ChannelMoved_Parse command = Inr e \<longrightarrow> cm_id e \<noteq> 0) \<and>
   (\<forall>e. ChannelSubscriptionState_Parse command = Inr e \<longrightarrow> list_all (\<lambda>i. i \<noteq> 0) (cs_entries e)) \<and>
   (\<forall>es. ClientEnterView_Parse command = Inr es \<longrightarrow> list_all (\<lambda>e. ev_id e \<noteq> 0 \<and> ev_nickname e \<noteq> []) es) \<and>
   (\<forall>es. ClientMoved_Parse command = Inr es \<longrightarrow> list_all (\<lambda>e. mv_id e \<noteq> 0) es) \<and>
   (\<forall>es. ClientLeftView_Parse command = Inr es \<longrightarrow> list_all (\<lambda>e. lv_id e \<noteq> 0) es)"
  using channel_list_valid channel_created_valid channel_deleted_valid channel_edited_valid channel_moved_valid
    subscription_valid enter_view_valid client_moved_valid left_view_valid
  by blast

theorem accepted_entries_valid_witness:
  "ChannelDeleted_Parse \<lparr>cmd_name = ''notifychanneldeleted'', cmd_rows = [[\<lparr>cp_name = ''cid'', cp_value = ''7''\<rparr>]]\<rparr> = Inr 7 \<and> (7 :: u64) \<noteq> 0"
proof -
  have "ChannelDeleted_Parse \<lparr>cmd_name = ''notifychanneldeleted'', cmd_rows = [[\<lparr>cp_name = ''cid'', cp_value = ''7''\<rparr>]]\<rparr> = Inr 7"
    by (simp add: ChannelDeleted_Parse_def row_Require_def row_Find_def from_chars_def u64_limit_def is_digit_def
        number_of_digits_def digit_value_def)
  with accepted_entries_valid [of "\<lparr>cmd_name = ''notifychanneldeleted'', cmd_rows = [[\<lparr>cp_name = ''cid'', cp_value = ''7''\<rparr>]]\<rparr>"] show ?thesis
    by blast
qed

end
