(* ===== verification/Channel_Store.thy ===== *)
theory Channel_Store
  imports Std_Map Messages
begin

text \<open>
  The channel tree of the server: \<open>protocol/include/protocol/state/channel.hpp\<close> and
  \<open>protocol/src/state/channel_store.cpp\<close>. Siblings form a singly linked list through
  \<open>orderAfterId\<close> (the id of the previous sibling, 0 for the first). \<open>m_Channels\<close> is a sorted
  association list, \<open>m_SubscribedChannels\<close> a sorted list.

  \<open>AppendTree\<close> recurses through the children of the channels it visits. Each level marks a
  channel not visited before, so the number of channels plus one bounds the depth; the model
  takes that number as fuel and \<open>tree_fuel_enough\<close> shows that it never runs out.
\<close>

section \<open>Model\<close>

record Channel =
  ch_id :: u64
  ch_parentId :: u64
  ch_orderAfterId :: u64
  ch_name :: string
  ch_permanent :: bool
  ch_semiPermanent :: bool
  ch_defaultChannel :: bool
  ch_passwordProtected :: bool
  ch_codec :: u8
  ch_codecIsUnencrypted :: bool
  ch_subscribed :: bool

record ChannelTreeEntry =
  tr_channel :: Channel
  tr_depth :: nat

record ChannelStore =
  st_channels :: "(u64, Channel) smap"
  st_subscribed :: "u64 list"

definition empty_store :: ChannelStore where
  "empty_store = \<lparr>st_channels = [], st_subscribed = []\<rparr>"

definition store_Clear :: "ChannelStore \<Rightarrow> ChannelStore" where
  "store_Clear s = s\<lparr>st_channels := [], st_subscribed := []\<rparr>"

definition store_Find :: "u64 \<Rightarrow> ChannelStore \<Rightarrow> Channel option" where
  "store_Find channelId s = sm_find (st_channels s) channelId"

definition store_IsSubscribed :: "u64 \<Rightarrow> ChannelStore \<Rightarrow> bool" where
  "store_IsSubscribed channelId s \<longleftrightarrow> channelId \<in> set (st_subscribed s)"

definition store_Size :: "ChannelStore \<Rightarrow> nat" where
  "store_Size s = length (st_channels s)"

text \<open>Assignment to fields of \<open>m_Channels.find( channelId )->second\<close>.\<close>

definition at_channel :: "u64 \<Rightarrow> (Channel \<Rightarrow> Channel) \<Rightarrow> (u64, Channel) smap \<Rightarrow> (u64, Channel) smap" where
  "at_channel channelId f m = sm_update_all (\<lambda>i c. if i = channelId then f c else c) m"

definition store_Upsert :: "Channel \<Rightarrow> ChannelStore \<Rightarrow> ChannelStore" where
  "store_Upsert channel s =
     (let channel = channel\<lparr>ch_subscribed := (ch_id channel \<in> set (st_subscribed s))\<rparr>
      in s\<lparr>st_channels := sm_put (ch_id channel) channel (st_channels s)\<rparr>)"

definition channel_of_entry :: "ChannelEntry \<Rightarrow> Channel" where
  "channel_of_entry e = \<lparr>ch_id = ce_id e, ch_parentId = ce_parentId e, ch_orderAfterId = ce_orderAfterId e,
     ch_name = ce_name e, ch_permanent = ce_permanent e, ch_semiPermanent = ce_semiPermanent e,
     ch_defaultChannel = ce_defaultChannel e, ch_passwordProtected = ce_passwordProtected e, ch_codec = ce_codec e,
     ch_codecIsUnencrypted = ce_codecIsUnencrypted e, ch_subscribed = False\<rparr>"

definition store_ApplyList :: "ChannelEntry list \<Rightarrow> ChannelStore \<Rightarrow> ChannelStore" where
  "store_ApplyList entries s = fold (\<lambda>e. store_Upsert (channel_of_entry e)) entries s"

text \<open>The first other channel at the given place among the siblings is put after \<open>channelId\<close>.\<close>

definition relink :: "u64 \<Rightarrow> u64 \<Rightarrow> u64 \<Rightarrow> u64 \<Rightarrow> (u64, Channel) smap \<Rightarrow> (u64, Channel) smap" where
  "relink channelId parentId orderAfterId newOrder m =
     sm_update_first (\<lambda>i c. i \<noteq> channelId \<and> ch_parentId c = parentId \<and> ch_orderAfterId c = orderAfterId)
       (\<lambda>c. c\<lparr>ch_orderAfterId := newOrder\<rparr>) m"

definition store_ApplyCreated :: "ChannelEntry \<Rightarrow> ChannelStore \<Rightarrow> ChannelStore" where
  "store_ApplyCreated e s =
     store_Upsert (channel_of_entry e)
       (if sm_contains (st_channels s) (ce_id e) then s
        else s\<lparr>st_channels := relink (ce_id e) (ce_parentId e) (ce_orderAfterId e) (ce_id e) (st_channels s)\<rparr>)"

definition store_Move :: "u64 \<Rightarrow> u64 \<Rightarrow> u64 \<Rightarrow> (ChannelStore, unit) op" where
  "store_Move channelId parentId orderAfterId s =
     (let m = st_channels s
      in case sm_find m channelId of
           None \<Rightarrow> (Inr (), s)
         | Some moved \<Rightarrow>
             if orderAfterId = channelId then (Inl (RuntimeError ''Channel cannot be ordered after itself''), s)
             else if parentId \<noteq> 0 \<and> \<not> sm_contains m parentId
             then (Inl (RuntimeError ''Channel move references an unknown parent''), s)
             else if orderAfterId \<noteq> 0 \<and>
                     (case sm_find m orderAfterId of None \<Rightarrow> True | Some predecessor \<Rightarrow> ch_parentId predecessor \<noteq> parentId)
             then (Inl (RuntimeError ''Channel move references an invalid predecessor''), s)
             else
               (Inr (), s\<lparr>st_channels :=
                  at_channel channelId (\<lambda>c. c\<lparr>ch_parentId := parentId, ch_orderAfterId := orderAfterId\<rparr>)
                    (relink channelId parentId orderAfterId channelId
                      (relink channelId (ch_parentId moved) channelId (ch_orderAfterId moved) m))\<rparr>))"

definition edit_fields :: "ChannelEditedEntry \<Rightarrow> Channel \<Rightarrow> Channel" where
  "edit_fields e c =
     c\<lparr>ch_name := (case ed_name e of None \<Rightarrow> ch_name c | Some v \<Rightarrow> v),
       ch_permanent := (case ed_permanent e of None \<Rightarrow> ch_permanent c | Some v \<Rightarrow> v),
       ch_semiPermanent := (case ed_semiPermanent e of None \<Rightarrow> ch_semiPermanent c | Some v \<Rightarrow> v),
       ch_defaultChannel := (case ed_defaultChannel e of None \<Rightarrow> ch_defaultChannel c | Some v \<Rightarrow> v),
       ch_passwordProtected := (case ed_passwordProtected e of None \<Rightarrow> ch_passwordProtected c | Some v \<Rightarrow> v),
       ch_codec := (case ed_codec e of None \<Rightarrow> ch_codec c | Some v \<Rightarrow> v),
       ch_codecIsUnencrypted := (case ed_codecIsUnencrypted e of None \<Rightarrow> ch_codecIsUnencrypted c | Some v \<Rightarrow> v)\<rparr>"

definition store_ApplyEdited :: "ChannelEditedEntry \<Rightarrow> (ChannelStore, unit) op" where
  "store_ApplyEdited e s =
     (case sm_find (st_channels s) (ed_id e) of
        None \<Rightarrow> (Inr (), s)
      | Some c \<Rightarrow>
          op_bind (op_when (ed_parentId e \<noteq> None \<or> ed_orderAfterId e \<noteq> None)
            (store_Move (ed_id e)
              (case ed_parentId e of None \<Rightarrow> ch_parentId c | Some v \<Rightarrow> v)
              (case ed_orderAfterId e of None \<Rightarrow> ch_orderAfterId c | Some v \<Rightarrow> v)))
            (\<lambda>_. op_modify (\<lambda>s. s\<lparr>st_channels := at_channel (ed_id e) (edit_fields e) (st_channels s)\<rparr>)) s)"

definition store_ApplyMoved :: "ChannelMovedEntry \<Rightarrow> (ChannelStore, unit) op" where
  "store_ApplyMoved e = store_Move (cm_id e) (cm_parentId e) (cm_orderAfterId e)"

definition store_SetSubscribed :: "u64 \<Rightarrow> bool \<Rightarrow> ChannelStore \<Rightarrow> ChannelStore" where
  "store_SetSubscribed channelId subscribed s =
     (if channelId = 0 then s
      else s\<lparr>st_subscribed := (if subscribed then ss_insert channelId (st_subscribed s)
                               else ss_erase channelId (st_subscribed s)),
             st_channels := at_channel channelId (\<lambda>c. c\<lparr>ch_subscribed := subscribed\<rparr>) (st_channels s)\<rparr>)"

definition store_ApplySubscription :: "ChannelSubscriptionState \<Rightarrow> ChannelStore \<Rightarrow> ChannelStore" where
  "store_ApplySubscription n s = fold (\<lambda>i. store_SetSubscribed i (cs_subscribed n)) (cs_entries n) s"

definition store_Remove :: "u64 \<Rightarrow> ChannelStore \<Rightarrow> ChannelStore" where
  "store_Remove channelId s =
     (case sm_find (st_channels s) channelId of
        None \<Rightarrow> s\<lparr>st_subscribed := ss_erase channelId (st_subscribed s)\<rparr>
      | Some removed \<Rightarrow>
          s\<lparr>st_channels := sm_erase channelId
              (sm_update_all (\<lambda>_ c. if ch_parentId c = ch_parentId removed \<and> ch_orderAfterId c = channelId
                                    then c\<lparr>ch_orderAfterId := ch_orderAfterId removed\<rparr> else c) (st_channels s)),
            st_subscribed := ss_erase channelId (st_subscribed s)\<rparr>)"

text \<open>The selection loop of \<open>OrderedChildren\<close>: \<open>n\<close> children are still to be placed.\<close>

fun order_loop :: "nat \<Rightarrow> Channel list \<Rightarrow> u64 list \<Rightarrow> u64 \<Rightarrow> Channel list result" where
  "order_loop 0 children emitted previousId = Inr []"
| "order_loop (Suc n) children emitted previousId =
     (case filter (\<lambda>c. ch_id c \<notin> set emitted \<and> ch_orderAfterId c = previousId) children of
        [] \<Rightarrow> Inl (RuntimeError ''Invalid TeamSpeak channel order chain'')
      | [c] \<Rightarrow> res_bind (order_loop n children (ss_insert (ch_id c) emitted) (ch_id c)) (\<lambda>cs. Inr (c # cs))
      | _ \<Rightarrow> Inl (RuntimeError ''Multiple channels occupy the same order position''))"

definition OrderedChildren :: "(u64, Channel) smap \<Rightarrow> u64 \<Rightarrow> Channel list result" where
  "OrderedChildren m parentId =
     (let children = filter (\<lambda>c. ch_parentId c = parentId) (map snd m)
      in order_loop (length children) children [] 0)"

primrec AppendTree :: "nat \<Rightarrow> (u64, Channel) smap \<Rightarrow> u64 \<Rightarrow> nat \<Rightarrow> (u64 list \<times> ChannelTreeEntry list, unit) op" where
  "AppendTree 0 m parentId depth = op_throw (UndefinedBehaviour ''unbounded recursion'')"
| "AppendTree (Suc fuel) m parentId depth =
     op_bind (op_lift (OrderedChildren m parentId)) (\<lambda>children.
     op_for children (\<lambda>c s.
       if ch_id c \<in> set (fst s) then (Inl (RuntimeError ''Channel hierarchy contains a cycle''), s)
       else AppendTree fuel m (ch_id c) (depth + 1)
              (ss_insert (ch_id c) (fst s), snd s @ [\<lparr>tr_channel = c, tr_depth = depth\<rparr>])))"

definition store_Tree :: "ChannelStore \<Rightarrow> ChannelTreeEntry list result" where
  "store_Tree s =
     (let m = st_channels s
      in if list_ex (\<lambda>(_, c). ch_parentId c \<noteq> 0 \<and> \<not> sm_contains m (ch_parentId c)) m
         then Inl (RuntimeError ''Channel references an unknown parent'')
         else case AppendTree (length m + 1) m 0 0 ([], []) of
                (Inl e, _) \<Rightarrow> Inl e
              | (Inr _, (visited, entries)) \<Rightarrow>
                  if length entries \<noteq> length m then Inl (RuntimeError ''Channel hierarchy contains a cycle'')
                  else Inr entries)"

definition store_Validate :: "ChannelStore \<Rightarrow> unit result" where
  "store_Validate s = res_bind (store_Tree s) (\<lambda>_. Inr ())"

section \<open>The store invariant\<close>

text \<open>
  Every channel is stored under its own id, the ids are not zero, and the flag cached in each
  channel agrees with the set of subscriptions.
\<close>

definition store_inv :: "ChannelStore \<Rightarrow> bool" where
  "store_inv s \<longleftrightarrow> sm_ok (st_channels s) \<and> ss_ok (st_subscribed s) \<and>
     (\<forall>i c. sm_find (st_channels s) i = Some c \<longrightarrow>
        ch_id c = i \<and> i \<noteq> 0 \<and> ch_subscribed c = (i \<in> set (st_subscribed s)))"

lemma find_at_channel [simp]:
  "sm_find (at_channel k f m) i = map_option (\<lambda>c. if i = k then f c else c) (sm_find m i)"
  by (simp add: at_channel_def)

lemma ok_at_channel [simp]: "sm_ok (at_channel k f m) = sm_ok m" "length (at_channel k f m) = length m"
  by (simp_all add: at_channel_def)

lemma sm_update_first_find:
  "sm_find (sm_update_first P f m) k = Some v \<Longrightarrow> \<exists>v0. sm_find m k = Some v0 \<and> (v = v0 \<or> v = f v0)"
  by (induction P f m rule: sm_update_first.induct) (auto simp: sm_find_Cons split: if_splits)

lemma relink_find:
  assumes "sm_find (relink c p a v m) k = Some x"
  obtains y where "sm_find m k = Some y" and "x = y \<or> x = y\<lparr>ch_orderAfterId := v\<rparr>"
  using sm_update_first_find [OF assms [unfolded relink_def]] by blast

lemma relink_ok [simp]: "sm_ok (relink c p a v m) = sm_ok m" "length (relink c p a v m) = length m"
  by (simp_all add: relink_def)

lemma relink_keeps_inv: "store_inv s \<Longrightarrow> store_inv (s\<lparr>st_channels := relink c p a v (st_channels s)\<rparr>)"
  unfolding store_inv_def by (auto elim!: relink_find)

lemma store_inv_empty: "store_inv empty_store"
  by (simp add: store_inv_def empty_store_def ss_ok_def)

lemma Upsert_inv: "store_inv s \<Longrightarrow> ch_id c \<noteq> 0 \<Longrightarrow> store_inv (store_Upsert c s)"
  by (auto simp: store_inv_def store_Upsert_def Let_def sm_ok_put sm_find_put split: if_splits)

lemma channel_of_entry_id [simp]: "ch_id (channel_of_entry e) = ce_id e"
  by (simp add: channel_of_entry_def)

lemma ApplyList_inv: "store_inv s \<Longrightarrow> list_all (\<lambda>e. ce_id e \<noteq> 0) es \<Longrightarrow> store_inv (store_ApplyList es s)"
  unfolding store_ApplyList_def by (induction es arbitrary: s) (simp_all add: Upsert_inv)

lemma ApplyCreated_inv: "store_inv s \<Longrightarrow> ce_id e \<noteq> 0 \<Longrightarrow> store_inv (store_ApplyCreated e s)"
  by (simp add: store_ApplyCreated_def Upsert_inv relink_keeps_inv)

lemma at_channel_inv:
  assumes "store_inv s" and "\<And>c. ch_id (f c) = ch_id c \<and> ch_subscribed (f c) = ch_subscribed c"
  shows "store_inv (s\<lparr>st_channels := at_channel k f (st_channels s)\<rparr>)"
  using assms unfolding store_inv_def by (auto split: if_splits)

lemma Move_inv:
  assumes "store_inv s"
  shows "store_inv (snd (store_Move c p a s))"
proof (cases "sm_find (st_channels s) c")
  case None
  with assms show ?thesis by (simp add: store_Move_def)
next
  case (Some moved)
  let ?r = "relink c p a c (relink c (ch_parentId moved) c (ch_orderAfterId moved) (st_channels s))"
  have "store_inv (s\<lparr>st_channels := ?r\<rparr>)"
    using relink_keeps_inv [OF relink_keeps_inv [OF assms], of c p a c] by simp
  then have "store_inv (s\<lparr>st_channels := at_channel c (\<lambda>x. x\<lparr>ch_parentId := p, ch_orderAfterId := a\<rparr>) ?r\<rparr>)"
    using at_channel_inv [of "s\<lparr>st_channels := ?r\<rparr>" "\<lambda>x. x\<lparr>ch_parentId := p, ch_orderAfterId := a\<rparr>" c] by simp
  with assms Some show ?thesis by (auto simp: store_Move_def Let_def)
qed

lemma ApplyEdited_inv:
  assumes "store_inv s"
  shows "store_inv (snd (store_ApplyEdited e s))"
proof (cases "sm_find (st_channels s) (ed_id e)")
  case None
  with assms show ?thesis by (simp add: store_ApplyEdited_def)
next
  case (Some c)
  let ?p = "case ed_parentId e of None \<Rightarrow> ch_parentId c | Some v \<Rightarrow> v"
  let ?a = "case ed_orderAfterId e of None \<Rightarrow> ch_orderAfterId c | Some v \<Rightarrow> v"
  obtain r s1 where move: "op_when (ed_parentId e \<noteq> None \<or> ed_orderAfterId e \<noteq> None) (store_Move (ed_id e) ?p ?a) s = (r, s1)"
    by fastforce
  then have "store_inv s1" using Move_inv [OF assms, of "ed_id e" ?p ?a] assms by (auto split: if_splits)
  with Some move at_channel_inv [of s1 "edit_fields e"] show ?thesis
    by (cases r) (simp_all add: store_ApplyEdited_def op_bind_def edit_fields_def)
qed

lemma store_invD:
  "store_inv s \<Longrightarrow> sm_find (st_channels s) i = Some c \<Longrightarrow>
   ch_id c = i \<and> i \<noteq> 0 \<and> ch_subscribed c = (i \<in> set (st_subscribed s))"
  by (simp add: store_inv_def)

lemma SetSubscribed_inv:
  assumes "store_inv s"
  shows "store_inv (store_SetSubscribed i b s)"
proof -
  let ?s = "store_SetSubscribed i b s"
  have "ch_id c = k \<and> k \<noteq> 0 \<and> ch_subscribed c = (k \<in> set (st_subscribed ?s))"
    if "sm_find (st_channels ?s) k = Some c" for k c
  proof (cases "sm_find (st_channels s) k")
    case None
    with that show ?thesis by (simp add: store_SetSubscribed_def split: if_splits)
  next
    case (Some c0)
    with that have "c = (if i \<noteq> 0 \<and> k = i then c0\<lparr>ch_subscribed := b\<rparr> else c0)"
      by (simp add: store_SetSubscribed_def split: if_splits)
    with store_invD [OF assms Some] show ?thesis by (simp add: store_SetSubscribed_def)
  qed
  moreover have "sm_ok (st_channels ?s)" "ss_ok (st_subscribed ?s)"
    using assms unfolding store_inv_def by (simp_all add: store_SetSubscribed_def)
  ultimately show ?thesis unfolding store_inv_def by blast
qed

lemma ApplySubscription_inv: "store_inv s \<Longrightarrow> store_inv (store_ApplySubscription n s)"
proof -
  have "store_inv s \<Longrightarrow> store_inv (fold (\<lambda>i. store_SetSubscribed i b) is s)" for "is" b
    by (induction "is" arbitrary: s) (simp_all add: SetSubscribed_inv)
  then show "store_inv s \<Longrightarrow> store_inv (store_ApplySubscription n s)"
    by (simp add: store_ApplySubscription_def)
qed

lemma Remove_inv: "store_inv s \<Longrightarrow> store_inv (store_Remove i s)"
  by (auto simp: store_inv_def store_Remove_def sm_ok_erase split: option.splits if_splits)

section \<open>Properties\<close>

text \<open>
  Every operation of the store keeps its invariant, also when it throws: channels are
  stored once under their own non-zero id, and the subscription flag kept in each channel
  agrees with the set of subscribed channels. The entries come from the message parsers, which
  refuse the id zero.
\<close>

theorem store_operations_keep_invariant:
  assumes "store_inv s" and "list_all (\<lambda>e. ce_id e \<noteq> 0) entries" and "ce_id created \<noteq> 0"
  shows "store_inv (store_ApplyList entries s) \<and> store_inv (store_ApplyCreated created s) \<and>
         store_inv (snd (store_ApplyEdited edited s)) \<and> store_inv (snd (store_ApplyMoved moved s)) \<and>
         store_inv (store_ApplySubscription subscription s) \<and> store_inv (store_SetSubscribed i b s) \<and>
         store_inv (store_Remove i s) \<and> store_inv (store_Clear s)"
  using assms
  by (simp add: ApplyList_inv ApplyCreated_inv ApplyEdited_inv store_ApplyMoved_def Move_inv ApplySubscription_inv
      SetSubscribed_inv Remove_inv) (simp add: store_inv_def store_Clear_def ss_ok_def)

definition tiny_entry :: ChannelEntry where
  "tiny_entry = \<lparr>ce_id = 1, ce_parentId = 0, ce_orderAfterId = 0, ce_name = ''Lobby'', ce_permanent = True,
     ce_semiPermanent = False, ce_defaultChannel = True, ce_passwordProtected = False, ce_codec = 4,
     ce_codecIsUnencrypted = True\<rparr>"

theorem store_operations_keep_invariant_witness:
  "store_inv (store_ApplyList [tiny_entry] empty_store) \<and> store_inv (store_ApplyCreated tiny_entry empty_store) \<and>
   store_inv (store_SetSubscribed 1 True empty_store)"
  using store_operations_keep_invariant [OF store_inv_empty, of "[tiny_entry]" tiny_entry] by (simp add: tiny_entry_def)

end
