(* ===== verification/Channel_Order.thy ===== *)
theory Channel_Order
  imports Channel_Store
begin

text \<open>
  Refinement of the sibling links of \<open>ChannelStore\<close>. Abstractly the children of a parent are a
  list of ids; the store keeps them as a linked list through \<open>orderAfterId\<close> (\<open>chain\<close>). Creating
  a channel inserts into the list, deleting removes from it, moving does both, and
  \<open>OrderedChildren\<close> returns the list.
\<close>

section \<open>Linked lists\<close>

fun linked :: "('a \<Rightarrow> 'a) \<Rightarrow> 'a \<Rightarrow> 'a list \<Rightarrow> bool" where
  "linked aft prev [] = True"
| "linked aft prev (x # xs) = (aft x = prev \<and> linked aft x xs)"

lemma linked_append: "linked aft prev (as @ bs) \<longleftrightarrow> linked aft prev as \<and> linked aft (last (prev # as)) bs"
  by (induction as arbitrary: prev) auto

lemma linked_cong: "\<forall>x \<in> set xs. aft' x = aft x \<Longrightarrow> linked aft' prev xs = linked aft prev xs"
  by (induction xs arbitrary: prev) auto

lemma linked_prev: "linked aft prev xs \<Longrightarrow> x \<in> set xs \<Longrightarrow> aft x \<in> set (prev # butlast xs)"
  by (induction xs arbitrary: prev) auto

text \<open>The element after a given position is the only one linked to it.\<close>

lemma linked_succ:
  "linked aft prev (as @ bs) \<Longrightarrow> distinct (prev # as @ bs) \<Longrightarrow> x \<in> set (as @ bs) \<Longrightarrow>
   aft x = last (prev # as) \<longleftrightarrow> bs \<noteq> [] \<and> x = hd bs"
proof (induction as arbitrary: prev)
  case Nil
  then show ?case
  proof (cases bs)
    case (Cons b bs')
    have "aft x \<in> set (b # butlast bs')" if "x \<in> set bs'"
      using linked_prev [of aft b bs' x] Nil.prems Cons that by simp
    moreover have "prev \<notin> set (b # butlast bs')"
      using Nil.prems(2) Cons by (auto dest: in_set_butlastD)
    ultimately show ?thesis using Nil.prems Cons by auto
  qed simp
next
  case (Cons a as)
  have rest: "linked aft a (as @ bs)" "distinct (a # as @ bs)" using Cons.prems by auto
  show ?case
  proof (cases "x = a")
    case True
    have "last (a # as) \<noteq> prev" using Cons.prems(2) by auto
    moreover have "bs \<noteq> [] \<longrightarrow> a \<noteq> hd bs" using Cons.prems(2) by (cases bs) auto
    ultimately show ?thesis using True Cons.prems(1) by auto
  next
    case False
    with Cons.prems have "x \<in> set (as @ bs)" by simp
    from Cons.IH [OF rest this] show ?thesis by simp
  qed
qed

section \<open>Chains of siblings\<close>

definition siblings :: "u64 set \<Rightarrow> (u64, Channel) smap \<Rightarrow> u64 \<Rightarrow> u64 set" where
  "siblings E m p = {i. i \<notin> E \<and> (\<exists>c. sm_find m i = Some c \<and> ch_parentId c = p)}"

definition after :: "(u64, Channel) smap \<Rightarrow> u64 \<Rightarrow> u64" where
  "after m i = (case sm_find m i of None \<Rightarrow> 0 | Some c \<Rightarrow> ch_orderAfterId c)"

text \<open>The children of \<open>p\<close>, except those in \<open>E\<close>, in order.\<close>

definition chain :: "u64 set \<Rightarrow> (u64, Channel) smap \<Rightarrow> u64 \<Rightarrow> u64 list \<Rightarrow> bool" where
  "chain E m p xs \<longleftrightarrow> distinct (0 # xs) \<and> set xs = siblings E m p \<and> linked (after m) 0 xs"

lemma chainD:
  "chain E m p xs \<Longrightarrow> distinct (0 # xs)" "chain E m p xs \<Longrightarrow> set xs = siblings E m p"
  "chain E m p xs \<Longrightarrow> linked (after m) 0 xs"
  unfolding chain_def by blast+

lemma chain_cong:
  assumes "siblings E' m' p = siblings E m p" and "\<forall>i \<in> siblings E m p. after m' i = after m i"
  shows "chain E' m' p xs = chain E m p xs"
proof -
  have "linked (after m') 0 xs = linked (after m) 0 xs" if "set xs = siblings E m p"
    using assms(2) that by (intro linked_cong) auto
  then show ?thesis using assms(1) by (auto simp: chain_def)
qed

lemma relink_none:
  assumes "\<And>i c. sm_find m i = Some c \<Longrightarrow> i \<noteq> k \<Longrightarrow> ch_parentId c = p \<Longrightarrow> ch_orderAfterId c \<noteq> a" and "sm_ok m"
  shows "relink k p a v m = m"
  unfolding relink_def
  by (rule sm_update_first_none) (use assms in \<open>fastforce simp: sm.entry_iff_lookup\<close>)

lemma relink_one:
  assumes "sm_ok m" and "sm_find m x = Some c" "x \<noteq> k" "ch_parentId c = p" "ch_orderAfterId c = a"
    and "\<And>i d. sm_find m i = Some d \<Longrightarrow> i \<noteq> k \<Longrightarrow> ch_parentId d = p \<Longrightarrow> ch_orderAfterId d = a \<Longrightarrow> i = x"
  shows "sm_find (relink k p a v m) = (sm_find m)(x \<mapsto> c\<lparr>ch_orderAfterId := v\<rparr>)"
proof -
  have entry: "(i, d) \<in> set m \<longleftrightarrow> sm_find m i = Some d" for i d by (rule sm.entry_iff_lookup [OF assms(1)])
  show ?thesis
    unfolding relink_def
  proof (rule sm_update_first_unique [OF assms(1)])
    show "(x, c) \<in> set m" unfolding entry by (rule assms(2))
    show "x \<noteq> k \<and> ch_parentId c = p \<and> ch_orderAfterId c = a" using assms(3-5) by simp
    show "i = x" if "(i, d) \<in> set m" and "i \<noteq> k \<and> ch_parentId d = p \<and> ch_orderAfterId d = a" for i d
      using assms(6) [of i d] that unfolding entry by blast
  qed
qed

lemma relink_None: "sm_find (relink k p a v m) i = None \<longleftrightarrow> sm_find m i = None"
proof -
  have "map fst (relink k p a v m) = map fst m" by (simp add: relink_def)
  then have "fst ` set (relink k p a v m) = fst ` set m" by (metis list.set_map)
  then show ?thesis by (simp add: sm_find_def map_of_eq_None_iff)
qed

text \<open>
  The link at a gap of the chain: after \<open>relink\<close> the element following the gap, if there is
  one, is linked to \<open>v\<close>, and nothing else has changed.
\<close>

lemma relink_gap:
  fixes v :: u64
  assumes ok: "sm_ok m" and ch: "chain E m p (as @ bs)" and E: "E \<subseteq> {k}" and k: "bs \<noteq> [] \<longrightarrow> hd bs \<noteq> k"
  defines "m' \<equiv> relink k p (last (0 # as)) v m"
  shows "siblings E' m' q = siblings E' m q"
    and "after m' i = (if bs \<noteq> [] \<and> i = hd bs then v else after m i)"
    and "map_option (\<lambda>c. c\<lparr>ch_orderAfterId := 0\<rparr>) (sm_find m' i) = map_option (\<lambda>c. c\<lparr>ch_orderAfterId := 0\<rparr>) (sm_find m i)"
proof -
  let ?y = "last (0 # as)"
  have set: "set (as @ bs) = siblings E m p" and link: "linked (after m) 0 (as @ bs)" and d: "distinct (0 # as @ bs)"
    using chainD [OF ch] by blast+
  have only: "bs \<noteq> [] \<and> i = hd bs" if "sm_find m i = Some c" "i \<noteq> k" "ch_parentId c = p" "ch_orderAfterId c = ?y" for i c
  proof -
    have "i \<in> siblings E m p" using that E by (auto simp: siblings_def)
    moreover have "after m i = ?y" using that by (simp add: after_def)
    ultimately show ?thesis using linked_succ [OF link d, of i] set by auto
  qed
  consider (none) "bs = []" "sm_find m' = sm_find m"
    | (one) c where "bs \<noteq> []" "sm_find m (hd bs) = Some c" "sm_find m' = (sm_find m)(hd bs \<mapsto> c\<lparr>ch_orderAfterId := v\<rparr>)"
  proof (cases "bs = []")
    case True
    have "m' = m" unfolding m'_def using only True ok by (intro relink_none) blast+
    with True show ?thesis by (simp add: none)
  next
    case False
    then have "hd bs \<in> siblings E m p" using set by (metis Un_iff hd_in_set set_append)
    then obtain c where c: "sm_find m (hd bs) = Some c" "ch_parentId c = p" by (auto simp: siblings_def)
    have "after m (hd bs) = ?y" using linked_succ [OF link d, of "hd bs"] False by simp
    then have y: "ch_orderAfterId c = ?y" using c by (simp add: after_def)
    have "sm_find m' = (sm_find m)(hd bs \<mapsto> c\<lparr>ch_orderAfterId := v\<rparr>)"
      unfolding m'_def using only k False by (intro relink_one [OF ok c(1) _ c(2) y]) blast+
    with False c show ?thesis by (simp add: one)
  qed
  then have "siblings E' m' q = siblings E' m q \<and> after m' i = (if bs \<noteq> [] \<and> i = hd bs then v else after m i) \<and>
      map_option (\<lambda>c. c\<lparr>ch_orderAfterId := 0\<rparr>) (sm_find m' i) = map_option (\<lambda>c. c\<lparr>ch_orderAfterId := 0\<rparr>) (sm_find m i)"
  proof cases
    case none
    then show ?thesis by (simp add: siblings_def after_def)
  next
    case (one c)
    have "siblings E' m' q = siblings E' m q"
      unfolding siblings_def one(3) using one(2) by (auto split: if_splits)
    with one show ?thesis by (simp add: after_def)
  qed
  then show "siblings E' m' q = siblings E' m q"
    and "after m' i = (if bs \<noteq> [] \<and> i = hd bs then v else after m i)"
    and "map_option (\<lambda>c. c\<lparr>ch_orderAfterId := 0\<rparr>) (sm_find m' i) = map_option (\<lambda>c. c\<lparr>ch_orderAfterId := 0\<rparr>) (sm_find m i)"
    by blast+
qed

lemma linked_gap:
  assumes "linked aft 0 (as @ bs)" and "distinct (as @ bs)" and "\<And>i. aft' i = (if bs \<noteq> [] \<and> i = hd bs then v else aft i)"
  shows "linked aft' 0 as" and "linked aft' v bs"
proof -
  have la: "linked aft 0 as" and lb: "linked aft (last (0 # as)) bs" using assms(1) by (auto simp: linked_append)
  have "\<forall>x \<in> set as. aft' x = aft x" using assms(2,3) by (cases bs) auto
  then show "linked aft' 0 as" using la linked_cong [of as aft' aft 0] by simp
  show "linked aft' v bs"
  proof (cases bs)
    case (Cons b bs')
    then have "\<forall>x \<in> set bs'. aft' x = aft x" using assms(2,3) by auto
    then have "linked aft' b bs' = linked aft b bs'" by (rule linked_cong)
    with lb Cons assms(3) show ?thesis by simp
  qed simp
qed

text \<open>Taking \<open>k\<close> out of its chain.\<close>

lemma unlink_chain:
  assumes ok: "sm_ok m" and ch: "chain {} m p (as @ k # bs)"
  defines "m' \<equiv> relink k p k (after m k) m"
  shows "chain {k} m' p (as @ bs)" and "q \<noteq> p \<Longrightarrow> chain {k} m' q xs = chain {} m q xs"
    and "siblings E m' q = siblings E m q"
proof -
  have ch': "chain {} m p ((as @ [k]) @ bs)" using ch by simp
  have d: "distinct (0 # as @ k # bs)" and set: "set (as @ k # bs) = siblings {} m p" and
    link: "linked (after m) 0 ((as @ [k]) @ bs)" using chainD [OF ch] chainD(3) [OF ch'] by blast+
  have hd: "bs \<noteq> [] \<longrightarrow> hd bs \<noteq> k" using d by (cases bs) auto
  have last: "last (0 # as @ [k]) = k" by simp
  note gap = relink_gap [OF ok ch' empty_subsetI hd, where v = "after m k", unfolded last, folded m'_def]
  have aft: "after m' i = (if bs \<noteq> [] \<and> i = hd bs then after m k else after m i)" for i
    by (rule gap(2))
  show sib: "siblings E m' q = siblings E m q" for E q by (rule gap(1))
  have "linked (after m') 0 (as @ [k])" "linked (after m') (after m k) bs"
    using linked_gap [OF link _ aft] d by simp_all
  moreover have "after m k = last (0 # as)" using link by (simp add: linked_append)
  ultimately have "linked (after m') 0 (as @ bs)" by (simp add: linked_append)
  moreover have "set (as @ bs) = siblings {k} m p" using set d by (auto simp: siblings_def)
  ultimately show "chain {k} m' p (as @ bs)" using d sib by (simp add: chain_def)
  assume q: "q \<noteq> p"
  have "k \<in> siblings {} m p" using set by (metis in_set_conv_decomp)
  then have sq: "siblings {k} m q = siblings {} m q" using q by (auto simp: siblings_def)
  have "hd bs \<in> siblings {} m p" if "bs \<noteq> []" using set that by (metis Un_iff hd_in_set list.set_intros(2) set_append)
  then have "\<forall>i \<in> siblings {} m q. after m' i = after m i" using q by (auto simp: aft siblings_def)
  with sq sib show "chain {k} m' q xs = chain {} m q xs" by (intro chain_cong) auto
qed

text \<open>Putting \<open>k\<close> into a chain that does not have it.\<close>

lemma link_chain:
  assumes ok: "sm_ok m" and ch: "chain {k} m p (as @ bs)" and k: "k \<noteq> 0"
    and m': "sm_find m' = (sm_find (relink k p (last (0 # as)) k m))(k \<mapsto> c)"
    and c: "ch_parentId c = p" "ch_orderAfterId c = last (0 # as)"
  shows "chain {} m' p (as @ k # bs)" and "q \<noteq> p \<Longrightarrow> chain {} m' q xs = chain {k} m q xs"
proof -
  let ?r = "relink k p (last (0 # as)) k m"
  have d: "distinct (0 # as @ bs)" and set: "set (as @ bs) = siblings {k} m p" and
    link: "linked (after m) 0 (as @ bs)" using chainD [OF ch] by blast+
  have notk: "k \<notin> set (as @ bs)" unfolding set by (simp add: siblings_def)
  then have hd: "bs \<noteq> [] \<longrightarrow> hd bs \<noteq> k" by (cases bs) auto
  note gap = relink_gap [OF ok ch subset_refl hd, where v = k]
  have aft: "after m' i = (if i = k then last (0 # as) else if bs \<noteq> [] \<and> i = hd bs then k else after m i)" for i
    using gap(2) [of i] m' c by (auto simp: after_def)
  have sib: "siblings {} m' r = (if r = p then insert k (siblings {k} m r) else siblings {k} m r)" for r
    unfolding gap(1) [of "{k}" r, symmetric] using c by (auto simp: siblings_def m' split: if_splits)
  have "linked (after ?r) 0 as" "linked (after ?r) k bs"
    using linked_gap [OF link _ gap(2)] d by simp_all
  moreover have "\<forall>i \<in> set (as @ bs). after m' i = after ?r i" using notk gap(2) by (auto simp: aft)
  ultimately have "linked (after m') 0 as" "linked (after m') k bs"
    using linked_cong [of as "after m'" "after ?r" 0] linked_cong [of bs "after m'" "after ?r" k] by simp_all
  then have "linked (after m') 0 (as @ k # bs)" by (simp add: linked_append aft)
  with d k notk set sib show "chain {} m' p (as @ k # bs)" by (auto simp: chain_def)
  assume q: "q \<noteq> p"
  have "hd bs \<in> siblings {k} m p" if "bs \<noteq> []" using set that by (metis Un_iff hd_in_set set_append)
  then have "\<forall>i \<in> siblings {k} m q. after m' i = after m i" using q by (auto simp: aft siblings_def)
  with sib q show "chain {} m' q xs = chain {k} m q xs" by (intro chain_cong) auto
qed

section \<open>Reading the order\<close>

lemma filter_unique:
  "distinct (map f xs) \<Longrightarrow> x \<in> set xs \<Longrightarrow> P x \<Longrightarrow> (\<And>y. y \<in> set xs \<Longrightarrow> P y \<Longrightarrow> f y = f x) \<Longrightarrow> filter P xs = [x]"
proof (induction xs)
  case (Cons a xs)
  have fresh: "f a \<notin> f ` set xs" using Cons.prems(1) by simp
  show ?case
  proof (cases "a = x")
    case True
    have "\<not> P y" if "y \<in> set xs" for y
    proof
      assume "P y"
      with Cons.prems(4) [of y] that True have "f a = f y" by simp
      with fresh that show False by blast
    qed
    with True Cons.prems(3) show ?thesis by (simp add: filter_empty_conv)
  next
    case False
    with Cons.prems(2) have x: "x \<in> set xs" by simp
    have "\<not> P a" using Cons.prems(4) [of a] fresh x by auto
    moreover have "filter P xs = [x]"
      by (rule Cons.IH [OF _ x Cons.prems(3)]) (use Cons.prems(1) in simp, rule Cons.prems(4), simp_all)
    ultimately show ?thesis by simp
  qed
qed simp

lemma order_loop_chain:
  assumes ids: "distinct (map ch_id cs)" and d: "distinct (0 # as @ bs)" and
    els: "ch_id ` set cs = set (as @ bs)" and aft: "\<And>c. c \<in> set cs \<Longrightarrow> ch_orderAfterId c = aft (ch_id c)"
    and link: "linked aft 0 (as @ bs)" and em: "set emitted = set as"
  shows "\<exists>ds. order_loop (length bs) cs emitted (last (0 # as)) = Inr ds \<and> map ch_id ds = bs \<and> set ds \<subseteq> set cs"
  using d els link em
proof (induction bs arbitrary: as emitted)
  case (Cons b bs)
  have "b \<in> ch_id ` set cs" using Cons.prems(2) by simp
  then obtain c where c: "c \<in> set cs" "ch_id c = b" by blast
  have "filter (\<lambda>c. ch_id c \<notin> set emitted \<and> ch_orderAfterId c = last (0 # as)) cs = [c]"
  proof (rule filter_unique [OF ids c(1)])
    show "ch_id c \<notin> set emitted \<and> ch_orderAfterId c = last (0 # as)"
      using Cons.prems c aft [OF c(1)] linked_succ [OF Cons.prems(3,1), of b] by auto
    show "ch_id y = ch_id c" if "y \<in> set cs" "ch_id y \<notin> set emitted \<and> ch_orderAfterId y = last (0 # as)" for y
      using linked_succ [OF Cons.prems(3,1), of "ch_id y"] Cons.prems(2) that aft [of y] c by (auto simp: image_iff)
  qed
  moreover have "\<exists>ds. order_loop (length bs) cs (ss_insert b emitted) (last (0 # as @ [b])) = Inr ds \<and>
      map ch_id ds = bs \<and> set ds \<subseteq> set cs"
    using Cons.prems by (intro Cons.IH) auto
  ultimately show ?case using c by auto
qed simp

lemma chain_OrderedChildren:
  assumes inv: "store_inv s" and ch: "chain {} (st_channels s) p xs"
  shows "\<exists>cs. OrderedChildren (st_channels s) p = Inr cs \<and> map ch_id cs = xs"
proof -
  let ?m = "st_channels s"
  let ?cs = "filter (\<lambda>c. ch_parentId c = p) (map snd ?m)"
  have ok: "sm_ok ?m" using inv by (simp add: store_inv_def)
  have entry: "(i, c) \<in> set ?m \<longleftrightarrow> sm_find ?m i = Some c" for i c using sm.entry_iff_lookup [OF ok] .
  have ident: "map ch_id (map snd ?m) = map fst ?m"
    using store_invD [OF inv] entry by (auto simp: comp_def)
  then have ids: "distinct (map ch_id ?cs)"
    using sm_ok_distinct [OF ok] by (metis distinct_map_filter)
  have els: "ch_id ` set ?cs = set xs"
    using ch store_invD [OF inv] entry by (force simp: chain_def siblings_def image_iff)
  have aft: "ch_orderAfterId c = after ?m (ch_id c)" if "c \<in> set ?cs" for c
    using that store_invD [OF inv] entry by (force simp: after_def)
  have "length ?cs = length xs"
    using ids els ch by (metis chain_def distinct.simps(2) distinct_card length_map list.set_map)
  moreover have "\<exists>ds. order_loop (length xs) ?cs [] (last [0]) = Inr ds \<and> map ch_id ds = xs \<and> set ds \<subseteq> set ?cs"
    using order_loop_chain [OF ids, of "[]" xs "after ?m" "[]"] chainD(1,3) [OF ch] els aft by simp
  ultimately show ?thesis by (auto simp: OrderedChildren_def Let_def)
qed

section \<open>The operations on chains\<close>

lemma chain_fresh: "sm_find m k = None \<Longrightarrow> chain {k} m p xs = chain {} m p xs"
  by (rule chain_cong) (auto simp: siblings_def)

lemma chain_other: "sm_find m k = Some c \<Longrightarrow> ch_parentId c \<noteq> p \<Longrightarrow> chain {k} m p xs = chain {} m p xs"
  by (rule chain_cong) (auto simp: siblings_def)

lemma created_chain:
  assumes inv: "store_inv s" and ch: "chain {} (st_channels s) (ce_parentId e) (as @ bs)"
    and new: "sm_find (st_channels s) (ce_id e) = None" "ce_id e \<noteq> 0" and place: "ce_orderAfterId e = last (0 # as)"
  shows "chain {} (st_channels (store_ApplyCreated e s)) (ce_parentId e) (as @ ce_id e # bs)"
    and "q \<noteq> ce_parentId e \<Longrightarrow> chain {} (st_channels (store_ApplyCreated e s)) q xs = chain {} (st_channels s) q xs"
proof -
  let ?m = "st_channels s" and ?k = "ce_id e" and ?p = "ce_parentId e"
  let ?c = "(channel_of_entry e)\<lparr>ch_subscribed := (?k \<in> set (st_subscribed s))\<rparr>"
  have ok: "sm_ok ?m" using inv by (simp add: store_inv_def)
  have m': "sm_find (st_channels (store_ApplyCreated e s)) = (sm_find (relink ?k ?p (last (0 # as)) ?k ?m))(?k \<mapsto> ?c)"
    unfolding place [symmetric]
    using new ok by (simp add: store_ApplyCreated_def store_Upsert_def Let_def sm_contains_def sm_find_put)
  have c: "ch_parentId ?c = ?p" "ch_orderAfterId ?c = last (0 # as)"
    by (simp_all add: channel_of_entry_def place)
  note link = link_chain [OF ok _ new(2) m' c]
  show "chain {} (st_channels (store_ApplyCreated e s)) ?p (as @ ?k # bs)"
    using link(1) ch new(1) by (simp add: chain_fresh)
  show "q \<noteq> ?p \<Longrightarrow> chain {} (st_channels (store_ApplyCreated e s)) q xs = chain {} ?m q xs"
    using link(2) ch new(1) by (simp add: chain_fresh)
qed

lemma removed_chain:
  assumes inv: "store_inv s" and ch: "chain {} (st_channels s) p (as @ k # bs)"
  shows "chain {} (st_channels (store_Remove k s)) p (as @ bs)"
    and "q \<noteq> p \<Longrightarrow> chain {} (st_channels (store_Remove k s)) q xs = chain {} (st_channels s) q xs"
proof -
  let ?m = "st_channels s" and ?m1 = "relink k p k (after (st_channels s) k) (st_channels s)"
  let ?m' = "st_channels (store_Remove k s)"
  have ok: "sm_ok ?m" using inv by (simp add: store_inv_def)
  have d: "distinct (0 # (as @ [k]) @ bs)" and set: "set (as @ k # bs) = siblings {} ?m p"
    and link: "linked (after ?m) 0 ((as @ [k]) @ bs)" using chainD [OF ch] by auto
  have "k \<in> siblings {} ?m p" using set by (metis in_set_conv_decomp)
  then obtain c where c: "sm_find ?m k = Some c" "ch_parentId c = p" by (auto simp: siblings_def)
  have find: "sm_find ?m' i = (if i = k then None else map_option
      (\<lambda>x. if ch_parentId x = p \<and> ch_orderAfterId x = k then x\<lparr>ch_orderAfterId := ch_orderAfterId c\<rparr> else x) (sm_find ?m i))" for i
    using c by (simp add: store_Remove_def)
  note un = unlink_chain [OF ok ch]
  have "i \<in> siblings {} ?m' r \<longleftrightarrow> i \<in> siblings {k} ?m r" for i r
    by (cases "sm_find ?m i") (auto simp: siblings_def find)
  then have sib: "siblings {} ?m' r = siblings {k} ?m1 r" for r
    unfolding un(3) by blast
  have hd: "bs \<noteq> [] \<longrightarrow> hd bs \<noteq> k" using d by (cases bs) auto
  have last: "last (0 # as @ [k]) = k" by simp
  have ch': "chain {} ?m p ((as @ [k]) @ bs)" using ch by simp
  note gap = relink_gap(2) [OF ok ch' empty_subsetI hd, where v = "after ?m k", unfolded last]
  have "after ?m' i = after ?m1 i" if "i \<in> siblings {k} ?m1 r" for i r
  proof -
    have i: "i \<noteq> k" "i \<in> siblings {} ?m r" using that unfolding un(3) by (auto simp: siblings_def)
    then obtain x where x: "sm_find ?m i = Some x" "ch_parentId x = r" by (auto simp: siblings_def)
    show ?thesis
    proof (cases "r = p")
      case True
      with i have "i \<in> set ((as @ [k]) @ bs)" using set by auto
      then have "after ?m i = k \<longleftrightarrow> bs \<noteq> [] \<and> i = hd bs"
        using linked_succ [OF link d, of i] last by simp
      with x i c True gap [of i] show ?thesis by (auto simp: after_def find)
    next
      case False
      have "\<not> (bs \<noteq> [] \<and> i = hd bs)"
      proof
        assume "bs \<noteq> [] \<and> i = hd bs"
        then have "i \<in> siblings {} ?m p" using set by (metis Un_iff hd_in_set list.set_intros(2) set_append)
        with x False show False by (simp add: siblings_def)
      qed
      with x i False gap [of i] show ?thesis by (auto simp: after_def find)
    qed
  qed
  then have "chain {} ?m' r xs = chain {k} ?m1 r xs" for r xs
    using sib by (intro chain_cong) auto
  with un show "chain {} ?m' p (as @ bs)" "q \<noteq> p \<Longrightarrow> chain {} ?m' q xs = chain {} ?m q xs" by simp_all
qed

lemma moved_chain:
  assumes inv: "store_inv s" and from_chain: "chain {} (st_channels s) p (as @ k # bs)"
    and to_chain: "if q = p then as @ bs = xs @ ys else chain {} (st_channels s) q (xs @ ys)"
    and parent: "q = 0 \<or> sm_contains (st_channels s) q"
  shows "\<exists>s'. store_Move k q (last (0 # xs)) s = (Inr (), s') \<and> chain {} (st_channels s') q (xs @ k # ys) \<and>
     (q \<noteq> p \<longrightarrow> chain {} (st_channels s') p (as @ bs)) \<and>
     (\<forall>r zs. r \<noteq> p \<longrightarrow> r \<noteq> q \<longrightarrow> chain {} (st_channels s') r zs = chain {} (st_channels s) r zs)"
proof -
  let ?m = "st_channels s" and ?m1 = "relink k p k (after (st_channels s) k) (st_channels s)"
  define y where "y = last (0 # xs)"
  have ok: "sm_ok ?m" using inv by (simp add: store_inv_def)
  have "k \<in> siblings {} ?m p" using chainD(2) [OF from_chain] by (metis in_set_conv_decomp)
  then obtain c where c: "sm_find ?m k = Some c" "ch_parentId c = p" by (auto simp: siblings_def)
  have k: "k \<noteq> 0" using store_invD [OF inv c(1)] by simp
  note un = unlink_chain [OF ok from_chain]
  have chain1: "chain {k} ?m1 q (xs @ ys)"
    using un(1) un(2) [of q "xs @ ys"] to_chain by (auto split: if_splits)
  have place: "y \<noteq> k" "y \<noteq> 0 \<longrightarrow> (\<exists>d. sm_find ?m y = Some d \<and> ch_parentId d = q)"
  proof -
    have "set (xs @ ys) = siblings {k} ?m q" using chainD(2) [OF chain1] un(3) by simp
    then have "xs \<noteq> [] \<longrightarrow> last xs \<in> siblings {k} ?m q" by (metis Un_iff last_in_set set_append)
    with k show "y \<noteq> k" "y \<noteq> 0 \<longrightarrow> (\<exists>d. sm_find ?m y = Some d \<and> ch_parentId d = q)"
      by (auto simp: siblings_def y_def)
  qed
  let ?set = "\<lambda>c. c\<lparr>ch_parentId := q, ch_orderAfterId := y\<rparr>"
  let ?m2 = "relink k q y k ?m1"
  let ?s = "s\<lparr>st_channels := at_channel k ?set ?m2\<rparr>"
  have after: "after ?m k = ch_orderAfterId c" using c by (simp add: after_def)
  have run: "store_Move k q y s = (Inr (), ?s)"
    using c parent place after by (auto simp: store_Move_def Let_def)
  obtain c2 where c2: "sm_find ?m2 k = Some c2"
    using c(1) relink_None [of k q y k ?m1 k] relink_None [of k p k "after ?m k" ?m k] by auto
  have m': "sm_find (st_channels ?s) = (sm_find ?m2)(k \<mapsto> ?set c2)"
    by (rule ext) (simp add: c2 option.map_ident)
  have ok1: "sm_ok ?m1" using ok by simp
  have fields: "ch_parentId (?set c2) = q" "ch_orderAfterId (?set c2) = y" by simp_all
  note link = link_chain [OF ok1 chain1 k m' [unfolded y_def] fields [unfolded y_def], folded y_def]
  have "q \<noteq> p \<longrightarrow> chain {} (st_channels ?s) p (as @ bs)"
    using link(2) [of p "as @ bs"] un(1) by blast
  moreover have "\<forall>r zs. r \<noteq> p \<longrightarrow> r \<noteq> q \<longrightarrow> chain {} (st_channels ?s) r zs = chain {} ?m r zs"
    using link(2) un(2) by blast
  ultimately show ?thesis using run link(1) unfolding y_def by blast
qed

section \<open>The interface of an ordered sibling list\<close>

locale sibling_list =
  fixes ok :: "'s \<Rightarrow> bool"
    and order :: "'s \<Rightarrow> 'i \<Rightarrow> 'i list \<Rightarrow> bool"
    and stored :: "'i \<Rightarrow> 's \<Rightarrow> bool"
    and create :: "'e \<Rightarrow> 's \<Rightarrow> 's"
    and remove :: "'i \<Rightarrow> 's \<Rightarrow> 's"
    and key :: "'e \<Rightarrow> 'i" and parent :: "'e \<Rightarrow> 'i" and place :: "'e \<Rightarrow> 'i"
    and root :: 'i
  assumes ok_create: "ok s \<Longrightarrow> key e \<noteq> root \<Longrightarrow> ok (create e s)"
    and ok_remove: "ok s \<Longrightarrow> ok (remove i s)"
    and order_create: "ok s \<Longrightarrow> key e \<noteq> root \<Longrightarrow> \<not> stored (key e) s \<Longrightarrow> order s (parent e) (as @ bs) \<Longrightarrow>
          place e = last (root # as) \<Longrightarrow> order (create e s) (parent e) (as @ key e # bs)"
    and stored_create: "ok s \<Longrightarrow> stored i (create e s) \<longleftrightarrow> stored i s \<or> i = key e"
    and order_remove: "ok s \<Longrightarrow> order s p (as @ i # bs) \<Longrightarrow> order (remove i s) p (as @ bs)"
begin

text \<open>Deleting a channel just created restores the order of its siblings.\<close>

lemma create_remove:
  assumes "ok s" "key e \<noteq> root" "\<not> stored (key e) s" "order s (parent e) (as @ bs)" "place e = last (root # as)"
  shows "order (remove (key e) (create e s)) (parent e) (as @ bs)"
  by (rule order_remove [OF ok_create order_create]) (use assms in simp_all)

text \<open>Channels created one after the other, each behind the previous one, are in that order.\<close>

lemma create_all:
  "ok s \<Longrightarrow> order s p ks \<Longrightarrow> list_all (\<lambda>e. key e \<noteq> root \<and> parent e = p \<and> \<not> stored (key e) s) es \<Longrightarrow> distinct (map key es) \<Longrightarrow>
   map place es = butlast (last (root # ks) # map key es) \<Longrightarrow>
   order (fold create es s) p (ks @ map key es)"
proof (induction es arbitrary: s ks)
  case (Cons e es)
  have e: "key e \<noteq> root" "parent e = p" "\<not> stored (key e) s" "place e = last (root # ks)"
    using Cons.prems by simp_all
  have "order (create e s) p (ks @ [key e])"
    using order_create [of s e ks "[]"] Cons.prems(1,2) e by simp
  moreover have "list_all (\<lambda>e'. key e' \<noteq> root \<and> parent e' = p \<and> \<not> stored (key e') (create e s)) es"
    using Cons.prems(1,3,4) by (simp add: list_all_iff stored_create) (metis image_eqI)
  ultimately have "order (fold create es (create e s)) p ((ks @ [key e]) @ map key es)"
    using Cons.prems e by (intro Cons.IH) (auto intro: ok_create)
  then show ?case by simp
qed simp

end

interpretation channel_siblings: sibling_list store_inv "\<lambda>s. chain {} (st_channels s)"
  "\<lambda>i s. sm_contains (st_channels s) i" store_ApplyCreated store_Remove ce_id ce_parentId ce_orderAfterId 0
proof (unfold_locales, goal_cases)
  case (1 s e)
  then show ?case by (rule ApplyCreated_inv)
next
  case (2 s i)
  then show ?case by (rule Remove_inv)
next
  case (3 s e as bs)
  then show ?case by (intro created_chain(1)) (simp_all add: sm_contains_def)
next
  case (4 s i e)
  then have "sm_ok (st_channels s)" by (simp add: store_inv_def)
  then show ?case
    by (simp add: store_ApplyCreated_def store_Upsert_def Let_def sm_contains_def sm_find_put relink_None del: not_None_eq)
next
  case (5 s p as i bs)
  then show ?case by (rule removed_chain(1))
qed

section \<open>Properties\<close>

text \<open>
  A created channel appears exactly where the notification places it. If the siblings are
  in the order \<open>as @ bs\<close> and the new channel is announced behind the last of \<open>as\<close>, then
  \<open>OrderedChildren\<close> gives \<open>as\<close>, the new channel, \<open>bs\<close>; no other parent's order changes.
\<close>

theorem created_channel_in_place:
  assumes "store_inv s" and "chain {} (st_channels s) (ce_parentId e) (as @ bs)"
    and "\<not> sm_contains (st_channels s) (ce_id e)" and "ce_id e \<noteq> 0" and "ce_orderAfterId e = last (0 # as)"
  shows "\<exists>cs. OrderedChildren (st_channels (store_ApplyCreated e s)) (ce_parentId e) = Inr cs \<and>
              map ch_id cs = as @ ce_id e # bs \<and>
              (\<forall>q xs. q \<noteq> ce_parentId e \<longrightarrow> chain {} (st_channels s) q xs \<longrightarrow> chain {} (st_channels (store_ApplyCreated e s)) q xs)"
proof -
  have new: "sm_find (st_channels s) (ce_id e) = None" using assms(3) by (simp add: sm_contains_def)
  note created = created_chain [OF assms(1,2) new assms(4,5)]
  from chain_OrderedChildren [OF ApplyCreated_inv [OF assms(1,4)] created(1)] created(2) show ?thesis by blast
qed

text \<open>
  Deleting a channel closes the gap. The remaining siblings keep their order, and
  \<open>OrderedChildren\<close> still succeeds on them.
\<close>

theorem removed_channel_closes_gap:
  assumes "store_inv s" and "chain {} (st_channels s) p (as @ k # bs)"
  shows "\<exists>cs. OrderedChildren (st_channels (store_Remove k s)) p = Inr cs \<and> map ch_id cs = as @ bs"
  by (rule chain_OrderedChildren [OF Remove_inv [OF assms(1)] removed_chain(1) [OF assms]])

text \<open>
  C20: moving a channel takes it out of its old place and puts it into the new one, under the
  same parent or under another: both parents end up with the intended order and every other
  parent keeps its own. The parent exists and the predecessor is one of the new siblings; then
  \<open>Move\<close> does not throw.
\<close>

theorem moved_channel_in_place:
  assumes "store_inv s" and "chain {} (st_channels s) p (as @ k # bs)"
    and "if q = p then as @ bs = xs @ ys else chain {} (st_channels s) q (xs @ ys)"
    and "q = 0 \<or> sm_contains (st_channels s) q"
  shows "\<exists>s' cs. store_Move k q (last (0 # xs)) s = (Inr (), s') \<and>
           OrderedChildren (st_channels s') q = Inr cs \<and> map ch_id cs = xs @ k # ys \<and>
           (q \<noteq> p \<longrightarrow> chain {} (st_channels s') p (as @ bs)) \<and>
           (\<forall>r zs. r \<noteq> p \<longrightarrow> r \<noteq> q \<longrightarrow> chain {} (st_channels s') r zs = chain {} (st_channels s) r zs)"
proof -
  obtain s' where run: "store_Move k q (last (0 # xs)) s = (Inr (), s')" and to: "chain {} (st_channels s') q (xs @ k # ys)"
    and rest: "q \<noteq> p \<longrightarrow> chain {} (st_channels s') p (as @ bs)"
      "\<forall>r zs. r \<noteq> p \<longrightarrow> r \<noteq> q \<longrightarrow> chain {} (st_channels s') r zs = chain {} (st_channels s) r zs"
    using moved_chain [OF assms] by blast
  have "store_inv s'" using Move_inv [OF assms(1), of k q "last (0 # xs)"] run by simp
  from chain_OrderedChildren [OF this to] run rest show ?thesis by blast
qed

definition sample_channel :: "u64 \<Rightarrow> u64 \<Rightarrow> u64 \<Rightarrow> ChannelEntry" where
  "sample_channel i p a = \<lparr>ce_id = i, ce_parentId = p, ce_orderAfterId = a, ce_name = ''c'', ce_permanent = True,
     ce_semiPermanent = False, ce_defaultChannel = False, ce_passwordProtected = False, ce_codec = 4,
     ce_codecIsUnencrypted = True\<rparr>"

definition sample_store :: ChannelStore where
  "sample_store = store_ApplyList [sample_channel 3 1 0, sample_channel 1 0 0, sample_channel 2 0 1] empty_store"

lemma sample_store_inv: "store_inv sample_store"
  unfolding sample_store_def by (rule ApplyList_inv [OF store_inv_empty]) (simp add: sample_channel_def)


lemma sample_chains:
  "chain {} (st_channels sample_store) 0 [1, 2]" "chain {} (st_channels sample_store) 1 [3]"
  by (auto simp: chain_def siblings_def after_def sample_store_def store_ApplyList_def store_Upsert_def Let_def empty_store_def
      sample_channel_def channel_of_entry_def sm_find_Cons split: if_splits)

lemma sample_contains: "sm_contains (st_channels sample_store) i \<longleftrightarrow> i \<in> {1, 2, 3}"
  by (auto simp: sample_store_def store_ApplyList_def store_Upsert_def Let_def empty_store_def
      sample_channel_def channel_of_entry_def sm_contains_def sm_find_Cons)

theorem created_channel_in_place_witness:
  "\<exists>cs. OrderedChildren (st_channels (store_ApplyCreated (sample_channel 7 0 1) sample_store)) 0 = Inr cs \<and>
        map ch_id cs = [1, 7, 2]"
  using created_channel_in_place [OF sample_store_inv, of "sample_channel 7 0 1" "[1]" "[2]"] sample_chains(1)
  by (auto simp: sample_contains sample_channel_def)

theorem removed_channel_closes_gap_witness:
  "\<exists>cs. OrderedChildren (st_channels (store_Remove 1 sample_store)) 0 = Inr cs \<and> map ch_id cs = [2]"
  using removed_channel_closes_gap [OF sample_store_inv, of 0 "[]" 1 "[2]"] sample_chains(1) by simp

theorem moved_channel_in_place_witness:
  "\<exists>s' cs. store_Move 2 1 3 sample_store = (Inr (), s') \<and>
           OrderedChildren (st_channels s') 1 = Inr cs \<and> map ch_id cs = [3, 2] \<and> chain {} (st_channels s') 0 [1]"
  using moved_channel_in_place [OF sample_store_inv, of 0 "[1]" 2 "[]" 1 "[3]" "[]"] sample_chains
  by (auto simp: sample_contains)

end
