(* ===== verification/Channel_Tree.thy ===== *)
theory Channel_Tree
  imports Channel_Order
begin

text \<open>
  \<open>ChannelStore::Tree\<close>: the recursion of \<open>AppendTree\<close> is bounded by the number of channels,
  and the entries it returns are the channels of the store, each once, every parent before
  its children and one level above them. On a hierarchy without cycles it succeeds, and the
  entries are those of the depth-first walk \<open>preorder\<close> in sibling order.
\<close>

section \<open>Parents before children\<close>

text \<open>\<open>known\<close>: the ids that may be parents, with the depth of their children.\<close>

fun parents_first :: "(u64 \<times> nat) set \<Rightarrow> ChannelTreeEntry list \<Rightarrow> bool" where
  "parents_first known [] = True"
| "parents_first known (e # es) =
     ((ch_parentId (tr_channel e), tr_depth e) \<in> known \<and>
      parents_first (insert (ch_id (tr_channel e), Suc (tr_depth e)) known) es)"

lemma parents_first_mono: "parents_first K es \<Longrightarrow> K \<subseteq> K' \<Longrightarrow> parents_first K' es"
proof (induction es arbitrary: K K')
  case (Cons e es)
  let ?x = "(ch_id (tr_channel e), Suc (tr_depth e))"
  have "parents_first (insert ?x K) es" "insert ?x K \<subseteq> insert ?x K'" using Cons.prems by auto
  then have "parents_first (insert ?x K') es" by (rule Cons.IH)
  with Cons.prems show ?case by (simp add: subsetD)
qed simp

lemma parents_first_append: "parents_first K as \<Longrightarrow> parents_first K bs \<Longrightarrow> parents_first K (as @ bs)"
proof (induction as arbitrary: K)
  case (Cons e as)
  let ?x = "(ch_id (tr_channel e), Suc (tr_depth e))"
  have "parents_first (insert ?x K) (as @ bs)"
    using Cons.prems parents_first_mono [of K bs "insert ?x K"] by (intro Cons.IH) auto
  with Cons.prems show ?case by simp
qed simp

section \<open>Children\<close>

lemma order_loop_members: "order_loop n cs em prev = Inr ds \<Longrightarrow> set ds \<subseteq> set cs"
proof (induction n cs em prev arbitrary: ds rule: order_loop.induct)
  case (2 n cs em prev)
  let ?f = "filter (\<lambda>c. ch_id c \<notin> set em \<and> ch_orderAfterId c = prev) cs"
  from "2.prems" obtain c rest where f: "?f = [c]" and rest: "order_loop n cs (ss_insert (ch_id c) em) (ch_id c) = Inr rest"
    and ds: "ds = c # rest"
    by (auto simp: res_bind_eq_Inr split: list.splits)
  have "c \<in> set cs" using f by (metis (no_types, lifting) filter_is_subset list.set_intros(1) subsetD)
  with "2.IH" [OF f refl rest] ds show ?case by simp
qed simp

lemma order_loop_safe: "no_ub (order_loop n cs em prev)"
proof (induction n cs em prev rule: order_loop.induct)
  case (2 n cs em prev)
  then show ?case by (auto split: list.split intro!: no_ub_bind)
qed simp

lemma OrderedChildren_members:
  "OrderedChildren m p = Inr cs \<Longrightarrow> c \<in> set cs \<Longrightarrow> c \<in> snd ` set m \<and> ch_parentId c = p"
  by (auto simp: OrderedChildren_def Let_def dest!: order_loop_members)

lemma OrderedChildren_safe: "no_ub (OrderedChildren m p)"
  by (simp add: OrderedChildren_def Let_def order_loop_safe)

section \<open>The traversal\<close>

text \<open>What has been visited is what has been emitted, each channel once.\<close>

definition tree_ok :: "(u64, Channel) smap \<Rightarrow> u64 list \<times> ChannelTreeEntry list \<Rightarrow> bool" where
  "tree_ok m s \<longleftrightarrow> set (fst s) = set (map (ch_id \<circ> tr_channel) (snd s)) \<and> distinct (map (ch_id \<circ> tr_channel) (snd s)) \<and>
     list_all (\<lambda>e. tr_channel e \<in> snd ` set m) (snd s)"

definition unvisited :: "(u64, Channel) smap \<Rightarrow> u64 list \<times> ChannelTreeEntry list \<Rightarrow> nat" where
  "unvisited m s = card (ch_id ` snd ` set m - set (fst s))"

text \<open>A step only adds entries, below \<open>(p, d)\<close>.\<close>

definition extends :: "(u64, Channel) smap \<Rightarrow> u64 \<Rightarrow> nat \<Rightarrow> u64 list \<times> ChannelTreeEntry list \<Rightarrow> u64 list \<times> ChannelTreeEntry list \<Rightarrow> bool" where
  "extends m p d s s' \<longleftrightarrow> tree_ok m s' \<and> set (fst s) \<subseteq> set (fst s') \<and>
     (\<exists>new. snd s' = snd s @ new \<and> parents_first {(p, d)} new)"

lemma extends_trans: "extends m p d s s' \<Longrightarrow> extends m p d s' s'' \<Longrightarrow> extends m p d s s''"
  unfolding extends_def by (auto intro: parents_first_append)

lemma unvisited_mono: "set (fst s) \<subseteq> set (fst s') \<Longrightarrow> unvisited m s' \<le> unvisited m s"
  unfolding unvisited_def by (intro card_mono) auto

lemma unvisited_visit:
  assumes "c \<in> snd ` set m" and "ch_id c \<notin> set V"
  shows "unvisited m (ss_insert (ch_id c) V, R) < unvisited m (V, R')"
proof -
  have "ch_id ` snd ` set m - insert (ch_id c) (set V) \<subset> ch_id ` snd ` set m - set V" using assms by auto
  then show ?thesis unfolding unvisited_def by (simp add: psubset_card_mono)
qed

abbreviation visit :: "nat \<Rightarrow> (u64, Channel) smap \<Rightarrow> nat \<Rightarrow> Channel \<Rightarrow> (u64 list \<times> ChannelTreeEntry list, unit) op" where
  "visit fuel m depth c s \<equiv>
     (if ch_id c \<in> set (fst s) then (Inl (RuntimeError ''Channel hierarchy contains a cycle''), s)
      else AppendTree fuel m (ch_id c) (depth + 1)
             (ss_insert (ch_id c) (fst s), snd s @ [\<lparr>tr_channel = c, tr_depth = depth\<rparr>]))"

lemma visit_run:
  assumes IH: "\<And>p d s r s'. tree_ok m s \<Longrightarrow> unvisited m s < fuel \<Longrightarrow> AppendTree fuel m p d s = (r, s') \<Longrightarrow>
      no_ub r \<and> (r = Inr () \<longrightarrow> extends m p d s s')"
    and "tree_ok m s" "unvisited m s < Suc fuel" and c: "c \<in> snd ` set m" "ch_parentId c = p"
    and run: "visit fuel m d c s = (r, s')"
  shows "no_ub r \<and> (r = Inr () \<longrightarrow> extends m p d s s')"
proof (cases "ch_id c \<in> set (fst s)")
  case True
  with run show ?thesis by auto
next
  case False
  let ?e = "\<lparr>tr_channel = c, tr_depth = d\<rparr>"
  let ?s1 = "(ss_insert (ch_id c) (fst s), snd s @ [?e])"
  have ok1: "tree_ok m ?s1" using assms(2) c False by (auto simp: tree_ok_def)
  have "unvisited m ?s1 < fuel"
    using unvisited_visit [OF c(1) False, of "snd s @ [?e]" "snd s"] assms(3) by simp
  from IH [OF ok1 this] run False have step: "no_ub r \<and> (r = Inr () \<longrightarrow> extends m (ch_id c) (Suc d) ?s1 s')" by simp
  have "extends m p d s s'" if "extends m (ch_id c) (Suc d) ?s1 s'"
  proof -
    from that obtain new where new: "snd s' = (snd s @ [?e]) @ new" "parents_first {(ch_id c, Suc d)} new"
      and rest: "tree_ok m s'" "insert (ch_id c) (set (fst s)) \<subseteq> set (fst s')"
      by (auto simp: extends_def)
    have "parents_first {(p, d)} (?e # new)"
      using c parents_first_mono [OF new(2), of "{(ch_id c, Suc d), (p, d)}"] by simp
    with new rest show ?thesis unfolding extends_def by (auto intro!: exI [of _ "?e # new"])
  qed
  with step show ?thesis by blast
qed

lemma visits_run:
  assumes IH: "\<And>p d s r s'. tree_ok m s \<Longrightarrow> unvisited m s < fuel \<Longrightarrow> AppendTree fuel m p d s = (r, s') \<Longrightarrow>
      no_ub r \<and> (r = Inr () \<longrightarrow> extends m p d s s')"
  shows "tree_ok m s \<Longrightarrow> unvisited m s < Suc fuel \<Longrightarrow> \<forall>c \<in> set cs. c \<in> snd ` set m \<and> ch_parentId c = p \<Longrightarrow>
     op_for cs (visit fuel m d) s = (r, s') \<Longrightarrow> no_ub r \<and> (r = Inr () \<longrightarrow> extends m p d s s')"
proof (induction cs arbitrary: s)
  case Nil
  from Nil.prems(4) have "r = Inr ()" "s' = s" by simp_all
  with Nil.prems(1) show ?case by (simp add: extends_def)
next
  case (Cons c cs)
  obtain r1 s1 where step: "visit fuel m d c s = (r1, s1)" by (rule prod.exhaust)
  have first: "no_ub r1 \<and> (r1 = Inr () \<longrightarrow> extends m p d s s1)"
    by (rule visit_run [OF IH Cons.prems(1,2) _ _ step]) (use Cons.prems(3) in auto)
  show ?case
  proof (cases r1)
    case (Inl e)
    with step Cons.prems(4) have "r = Inl e" by (simp add: op_bind_def)
    with Inl first show ?thesis by simp
  next
    case (Inr u)
    with first have ext: "extends m p d s s1" by simp
    then have "tree_ok m s1" "unvisited m s1 < Suc fuel"
      using unvisited_mono [of s s1 m] Cons.prems(2) by (auto simp: extends_def)
    moreover have "op_for cs (visit fuel m d) s1 = (r, s')"
      using step Inr Cons.prems(4) by (simp add: op_bind_def)
    ultimately have "no_ub r \<and> (r = Inr () \<longrightarrow> extends m p d s1 s')"
      using Cons.IH [of s1] Cons.prems(3) by simp
    with extends_trans [OF ext] show ?thesis by blast
  qed
qed

lemma AppendTree_run:
  "tree_ok m s \<Longrightarrow> unvisited m s < fuel \<Longrightarrow> AppendTree fuel m p d s = (r, s') \<Longrightarrow>
   no_ub r \<and> (r = Inr () \<longrightarrow> extends m p d s s')"
proof (induction fuel arbitrary: p d s r s')
  case (Suc fuel)
  show ?case
  proof (cases "OrderedChildren m p")
    case (Inl e)
    with Suc.prems(3) OrderedChildren_safe [of m p] show ?thesis by auto
  next
    case (Inr cs)
    then have "op_for cs (visit fuel m d) s = (r, s')"
      using Suc.prems(3) by simp
    then show ?thesis
      using visits_run [OF Suc.IH Suc.prems(1,2)] OrderedChildren_members [OF Inr] by blast
  qed
qed simp

lemma tree_fuel_enough:
  assumes "AppendTree (length m + 1) m 0 0 ([], []) = (r, s')"
  shows "no_ub r \<and> (r = Inr () \<longrightarrow> extends m 0 0 ([], []) s')"
proof (rule AppendTree_run [OF _ _ assms])
  show "tree_ok m ([], [])" by (simp add: tree_ok_def)
  have "card (ch_id ` snd ` set m) \<le> length m"
    by (metis card_image_le card_length finite_imageI finite_set le_trans)
  then show "unvisited m ([], []) < length m + 1" by (simp add: unvisited_def)
qed

section \<open>The tree of an ordered hierarchy\<close>

text \<open>
  Channels whose ids get larger ranks than their parents' have no cycle. \<open>below m p\<close> are the
  channels of the hierarchy under \<open>p\<close>.
\<close>

definition ranked :: "(u64 \<Rightarrow> nat) \<Rightarrow> (u64, Channel) smap \<Rightarrow> bool" where
  "ranked rank m \<longleftrightarrow> (\<forall>c \<in> snd ` set m. rank (ch_parentId c) < rank (ch_id c))"

definition parents_known :: "(u64, Channel) smap \<Rightarrow> bool" where
  "parents_known m \<longleftrightarrow> (\<forall>c \<in> snd ` set m. ch_parentId c = 0 \<or> sm_contains m (ch_parentId c))"

inductive_set below :: "(u64, Channel) smap \<Rightarrow> u64 \<Rightarrow> u64 set" for m p where
  child: "c \<in> snd ` set m \<Longrightarrow> ch_parentId c = p \<Longrightarrow> ch_id c \<in> below m p"
| deeper: "x \<in> below m p \<Longrightarrow> c \<in> snd ` set m \<Longrightarrow> ch_parentId c = x \<Longrightarrow> ch_id c \<in> below m p"

abbreviation at_or_below :: "(u64, Channel) smap \<Rightarrow> u64 \<Rightarrow> u64 set" where
  "at_or_below m x \<equiv> insert x (below m x)"

definition own_ids :: "(u64, Channel) smap \<Rightarrow> bool" where
  "own_ids m \<longleftrightarrow> (\<forall>c \<in> snd ` set m. \<forall>c' \<in> snd ` set m. ch_id c = ch_id c' \<longrightarrow> c = c')"

lemma rankedD: "ranked rank m \<Longrightarrow> c \<in> snd ` set m \<Longrightarrow> rank (ch_parentId c) < rank (ch_id c)"
  unfolding ranked_def by blast

lemma own_idsD: "own_ids m \<Longrightarrow> c \<in> snd ` set m \<Longrightarrow> c' \<in> snd ` set m \<Longrightarrow> ch_id c = ch_id c' \<Longrightarrow> c = c'"
  unfolding own_ids_def by blast

lemma below_rank: "ranked rank m \<Longrightarrow> x \<in> below m p \<Longrightarrow> rank p < rank x"
proof (rotate_tac, induction rule: below.induct)
  case (child c)
  then show ?case using rankedD by blast
next
  case (deeper x c)
  then show ?case using rankedD [OF _ deeper(2)] by (metis less_trans)
qed

lemma below_parent:
  assumes "own_ids m" and "c \<in> snd ` set m" and "ch_id c \<in> below m p"
  shows "ch_parentId c \<in> at_or_below m p"
  using assms(3)
proof cases
  case (child c')
  then have "c' = c" using own_idsD [OF assms(1) _ assms(2)] by simp
  then show ?thesis using child by simp
next
  case (deeper x c')
  then have "c' = c" using own_idsD [OF assms(1) _ assms(2)] by simp
  then show ?thesis using deeper by simp
qed

lemma below_channel: "x \<in> below m p \<Longrightarrow> \<exists>c \<in> snd ` set m. ch_id c = x"
  by (induction rule: below.induct) auto

lemma below_children: "below m p = (\<Union>c \<in> {c \<in> snd ` set m. ch_parentId c = p}. at_or_below m (ch_id c))"
proof (intro equalityI subsetI)
  fix x assume "x \<in> below m p"
  then show "x \<in> (\<Union>c \<in> {c \<in> snd ` set m. ch_parentId c = p}. at_or_below m (ch_id c))"
    by (induction rule: below.induct) (auto intro: below.intros)
next
  have "x \<in> below m p" if "x \<in> below m y" "y \<in> below m p" for x y
    using that by (induction rule: below.induct) (auto intro: below.deeper)
  then show "x \<in> below m p" if "x \<in> (\<Union>c \<in> {c \<in> snd ` set m. ch_parentId c = p}. at_or_below m (ch_id c))" for x
    using that by (auto intro: below.child)
qed

text \<open>The hierarchies under two siblings have nothing in common.\<close>

lemma siblings_disjoint:
  assumes own: "own_ids m" and rank: "ranked rank m" and c: "c \<in> snd ` set m" "c' \<in> snd ` set m"
    and p: "ch_parentId c = p" "ch_parentId c' = p"
  shows "z \<in> at_or_below m (ch_id c) \<Longrightarrow> z \<in> at_or_below m (ch_id c') \<Longrightarrow> ch_id c = ch_id c'"
proof (induction "rank z" arbitrary: z rule: less_induct)
  case less
  have apart: "ch_id a \<notin> below m (ch_id b)"
    if "a \<in> snd ` set m" "b \<in> snd ` set m" "ch_parentId a = p" "ch_parentId b = p" for a b
  proof
    assume "ch_id a \<in> below m (ch_id b)"
    then have "p \<in> at_or_below m (ch_id b)" using below_parent [OF own that(1)] that(3) by blast
    then have "rank (ch_id b) \<le> rank p" using below_rank [OF rank] less_imp_le by blast
    moreover have "rank p < rank (ch_id b)" using rankedD [OF rank that(2)] that(4) by simp
    ultimately show False by simp
  qed
  show ?case
  proof (cases "z = ch_id c \<or> z = ch_id c'")
    case True
    then show ?thesis using less.prems apart [OF c p] apart [OF c(2,1) p(2,1)] by auto
  next
    case False
    then have z: "z \<in> below m (ch_id c)" "z \<in> below m (ch_id c')" using less.prems by blast+
    then obtain d where d: "d \<in> snd ` set m" "ch_id d = z" using below_channel by blast
    have "rank (ch_parentId d) < rank z" using rankedD [OF rank d(1)] d(2) by simp
    from less.hyps [OF this] show ?thesis using below_parent [OF own d(1)] z d(2) by blast
  qed
qed

text \<open>The listing of the hierarchy: every channel, followed by what is under it.\<close>

primrec preorder :: "nat \<Rightarrow> (u64 \<Rightarrow> u64 list) \<Rightarrow> u64 \<Rightarrow> nat \<Rightarrow> (u64 \<times> nat) list" where
  "preorder 0 kids p d = []"
| "preorder (Suc fuel) kids p d = concat (map (\<lambda>i. (i, d) # preorder fuel kids i (Suc d)) (kids p))"

abbreviation listed :: "ChannelTreeEntry list \<Rightarrow> (u64 \<times> nat) list" where
  "listed es \<equiv> map (\<lambda>e. (ch_id (tr_channel e), tr_depth e)) es"

definition appends :: "(u64, Channel) smap \<Rightarrow> u64 set \<Rightarrow> (u64 \<times> nat) list \<Rightarrow> u64 list \<times> ChannelTreeEntry list \<Rightarrow>
    u64 list \<times> ChannelTreeEntry list \<Rightarrow> bool" where
  "appends m new lst s s' \<longleftrightarrow> set (fst s') = set (fst s) \<union> new \<and> listed (snd s') = listed (snd s) @ lst"

lemma appends_run:
  assumes "tree_ok m s" "unvisited m s < fuel" and "AppendTree fuel m p d s = (Inr (), s')"
  shows "tree_ok m s' \<and> unvisited m s' \<le> unvisited m s"
  using AppendTree_run [OF assms] unvisited_mono [of s s' m] by (simp add: extends_def)

lemma visit_succeeds:
  assumes IH: "\<And>p d s. tree_ok m s \<Longrightarrow> unvisited m s < fuel \<Longrightarrow> set (fst s) \<inter> below m p = {} \<Longrightarrow>
      \<exists>s'. AppendTree fuel m p d s = (Inr (), s') \<and> appends m (below m p) (preorder fuel kids p d) s s'"
    and rank: "ranked rank m" and s: "tree_ok m s" "unvisited m s < Suc fuel" and c: "c \<in> snd ` set m"
    and free: "set (fst s) \<inter> at_or_below m (ch_id c) = {}"
  shows "\<exists>s'. visit fuel m d c s = (Inr (), s') \<and> tree_ok m s' \<and> unvisited m s' < Suc fuel \<and>
    appends m (at_or_below m (ch_id c)) ((ch_id c, d) # preorder fuel kids (ch_id c) (Suc d)) s s'"
proof -
  let ?s1 = "(ss_insert (ch_id c) (fst s), snd s @ [\<lparr>tr_channel = c, tr_depth = d\<rparr>])"
  have new: "ch_id c \<notin> set (fst s)" using free by blast
  have ok1: "tree_ok m ?s1" using s(1) c new by (auto simp: tree_ok_def)
  have fuel1: "unvisited m ?s1 < fuel"
    using unvisited_visit [OF c new, of "snd s @ [\<lparr>tr_channel = c, tr_depth = d\<rparr>]" "snd s"] s(2) by simp
  have "ch_id c \<notin> below m (ch_id c)" using below_rank [OF rank] by blast
  then have "set (fst ?s1) \<inter> below m (ch_id c) = {}" using free by auto
  from IH [OF ok1 fuel1 this] obtain s' where run: "AppendTree fuel m (ch_id c) (Suc d) ?s1 = (Inr (), s')"
    and app: "appends m (below m (ch_id c)) (preorder fuel kids (ch_id c) (Suc d)) ?s1 s'" by blast
  show ?thesis
    using run app new appends_run [OF ok1 fuel1 run] fuel1 by (intro exI [of _ s']) (simp add: appends_def)
qed

lemma visits_succeed:
  assumes IH: "\<And>p d s. tree_ok m s \<Longrightarrow> unvisited m s < fuel \<Longrightarrow> set (fst s) \<inter> below m p = {} \<Longrightarrow>
      \<exists>s'. AppendTree fuel m p d s = (Inr (), s') \<and> appends m (below m p) (preorder fuel kids p d) s s'"
    and own: "own_ids m" and rank: "ranked rank m"
  shows "tree_ok m s \<Longrightarrow> unvisited m s < Suc fuel \<Longrightarrow> \<forall>c \<in> set cs. c \<in> snd ` set m \<and> ch_parentId c = p \<Longrightarrow>
     distinct (map ch_id cs) \<Longrightarrow> \<forall>c \<in> set cs. set (fst s) \<inter> at_or_below m (ch_id c) = {} \<Longrightarrow>
     \<exists>s'. op_for cs (visit fuel m d) s = (Inr (), s') \<and>
       appends m (\<Union>c \<in> set cs. at_or_below m (ch_id c))
         (concat (map (\<lambda>i. (i, d) # preorder fuel kids i (Suc d)) (map ch_id cs))) s s'"
proof (induction cs arbitrary: s)
  case Nil
  then show ?case by (simp add: appends_def)
next
  case (Cons c cs)
  have c: "c \<in> snd ` set m" "ch_parentId c = p" using Cons.prems(3) by simp_all
  from Cons.prems(5) have "set (fst s) \<inter> at_or_below m (ch_id c) = {}" by simp
  from visit_succeeds [OF IH rank Cons.prems(1,2) c(1) this] obtain s1 where step: "visit fuel m d c s = (Inr (), s1)"
    and s1: "tree_ok m s1" "unvisited m s1 < Suc fuel"
    and app: "appends m (at_or_below m (ch_id c)) ((ch_id c, d) # preorder fuel kids (ch_id c) (Suc d)) s s1" by blast
  have "\<forall>e \<in> set cs. set (fst s1) \<inter> at_or_below m (ch_id e) = {}"
  proof
    fix e assume e: "e \<in> set cs"
    then have "e \<in> snd ` set m" "ch_parentId e = p" "ch_id c \<noteq> ch_id e" using Cons.prems(3,4) by auto
    then have "at_or_below m (ch_id c) \<inter> at_or_below m (ch_id e) = {}"
      using siblings_disjoint [OF own rank c(1) _ c(2)] by blast
    moreover have "set (fst s) \<inter> at_or_below m (ch_id e) = {}" using Cons.prems(5) e by simp
    ultimately show "set (fst s1) \<inter> at_or_below m (ch_id e) = {}" using app unfolding appends_def by blast
  qed
  from Cons.IH [OF s1 _ _ this] Cons.prems(3,4) obtain s' where "op_for cs (visit fuel m d) s1 = (Inr (), s')"
    and "appends m (\<Union>c \<in> set cs. at_or_below m (ch_id c))
         (concat (map (\<lambda>i. (i, d) # preorder fuel kids i (Suc d)) (map ch_id cs))) s1 s'" by auto
  with step app show ?case by (intro exI [of _ s']) (auto simp: appends_def op_bind_def)
qed

lemma AppendTree_succeeds:
  assumes own: "own_ids m" and rank: "ranked rank m"
    and kids: "\<And>p. \<exists>cs. OrderedChildren m p = Inr cs \<and> map ch_id cs = kids p \<and> distinct (kids p) \<and>
                 set cs = {c \<in> snd ` set m. ch_parentId c = p}"
  shows "tree_ok m s \<Longrightarrow> unvisited m s < fuel \<Longrightarrow> set (fst s) \<inter> below m p = {} \<Longrightarrow>
    \<exists>s'. AppendTree fuel m p d s = (Inr (), s') \<and> appends m (below m p) (preorder fuel kids p d) s s'"
proof (induction fuel arbitrary: p d s)
  case (Suc fuel)
  obtain cs where cs: "OrderedChildren m p = Inr cs" "map ch_id cs = kids p" "distinct (kids p)"
    and set: "set cs = {c \<in> snd ` set m. ch_parentId c = p}" using kids [of p] by blast
  have below: "below m p = (\<Union>c \<in> set cs. at_or_below m (ch_id c))" unfolding set by (rule below_children)
  have "\<exists>s'. op_for cs (visit fuel m d) s = (Inr (), s') \<and>
       appends m (\<Union>c \<in> set cs. at_or_below m (ch_id c))
         (concat (map (\<lambda>i. (i, d) # preorder fuel kids i (Suc d)) (map ch_id cs))) s s'"
  proof (rule visits_succeed [OF Suc.IH own rank Suc.prems(1,2)])
    show "\<forall>c \<in> set cs. c \<in> snd ` set m \<and> ch_parentId c = p" using set by blast
    show "distinct (map ch_id cs)" using cs by simp
    show "\<forall>c \<in> set cs. set (fst s) \<inter> at_or_below m (ch_id c) = {}" using Suc.prems(3) below by blast
  qed
  then show ?case using cs below by simp
qed simp

lemma all_below_root:
  assumes "own_ids m" "ranked rank m" "parents_known m" and "c \<in> snd ` set m"
    and stored: "\<And>i d. sm_find m i = Some d \<Longrightarrow> d \<in> snd ` set m \<and> ch_id d = i"
  shows "ch_id c \<in> below m 0"
  using assms(4)
proof (induction "rank (ch_id c)" arbitrary: c rule: less_induct)
  case less
  show ?case
  proof (cases "ch_parentId c = 0")
    case False
    then obtain d where d: "d \<in> snd ` set m" "ch_id d = ch_parentId c"
      using assms(3) less.prems stored unfolding parents_known_def sm_contains_def by blast
    have "rank (ch_id d) < rank (ch_id c)"
      using rankedD [OF assms(2) less.prems] unfolding d(2) .
    from less.hyps [OF this d(1)] show ?thesis using less.prems d by (auto intro: below.deeper)
  qed (use less.prems below.child in blast)
qed

lemma stored_channel:
  assumes "store_inv s"
  shows "sm_find (st_channels s) i = Some d \<longleftrightarrow> d \<in> snd ` set (st_channels s) \<and> ch_id d = i"
proof -
  have ok: "sm_ok (st_channels s)" using assms by (simp add: store_inv_def)
  note entry = sm.entry_iff_lookup [OF ok] and own = store_invD [OF assms]
  show ?thesis
  proof
    show "d \<in> snd ` set (st_channels s) \<and> ch_id d = i" if "sm_find (st_channels s) i = Some d"
      using own [OF that] entry [of i d] that by (auto intro: image_eqI [of d snd "(i, d)"])
    show "sm_find (st_channels s) i = Some d" if d: "d \<in> snd ` set (st_channels s) \<and> ch_id d = i"
    proof -
      from d obtain k where k: "(k, d) \<in> set (st_channels s)" by auto
      with own [of k d] entry [of k d] d show ?thesis by simp
    qed
  qed
qed

lemma children_of_chain:
  assumes inv: "store_inv s" and ch: "chain {} (st_channels s) p xs"
  shows "\<exists>cs. OrderedChildren (st_channels s) p = Inr cs \<and> map ch_id cs = xs \<and> distinct xs \<and>
     set cs = {c \<in> snd ` set (st_channels s). ch_parentId c = p}"
proof -
  let ?m = "st_channels s"
  from chain_OrderedChildren [OF inv ch] obtain cs where cs: "OrderedChildren ?m p = Inr cs" "map ch_id cs = xs" by blast
  note member = OrderedChildren_members [OF cs(1)] and stored = stored_channel [OF inv]
  have "c \<in> set cs" if c: "c \<in> snd ` set ?m" "ch_parentId c = p" for c
  proof -
    have find: "sm_find ?m (ch_id c) = Some c" using c(1) stored by blast
    then have "ch_id c \<in> set xs" using c(2) chainD(2) [OF ch] by (auto simp: siblings_def)
    then obtain c' where c': "c' \<in> set cs" "ch_id c' = ch_id c" using cs(2) by auto
    then have "sm_find ?m (ch_id c) = Some c'" using member [OF c'(1)] stored [of "ch_id c" c'] by simp
    with find c' show ?thesis by simp
  qed
  then have "set cs = {c \<in> snd ` set ?m. ch_parentId c = p}" using member by blast
  moreover have "distinct xs" using chainD(1) [OF ch] by simp
  ultimately show ?thesis using cs by blast
qed

section \<open>Properties\<close>

text \<open>
  \<open>ChannelStore::Tree\<close> on any store ends with a tree or with one of its exceptions. The tree it
  returns holds every channel of the store exactly once, each parent before its children and
  one level above them, top-level channels at depth 0.
\<close>

theorem channel_tree_sound:
  assumes "store_inv s"
  shows "case store_Tree s of
     Inl e \<Rightarrow> safe_error e
   | Inr entries \<Rightarrow> distinct (map (ch_id \<circ> tr_channel) entries) \<and>
       tr_channel ` set entries = snd ` set (st_channels s) \<and> parents_first {(0, 0)} entries"
proof -
  let ?m = "st_channels s"
  obtain r V es where run: "AppendTree (length ?m + 1) ?m 0 0 ([], []) = (r, (V, es))" by (metis prod.exhaust)
  note ok = tree_fuel_enough [OF run]
  have all: "tr_channel ` set es = snd ` set ?m" if "extends ?m 0 0 ([], []) (V, es)" "length es = length ?m"
  proof (rule card_subset_eq)
    show "tr_channel ` set es \<subseteq> snd ` set ?m"
      using that(1) by (auto simp: extends_def tree_ok_def list_all_iff)
    have d: "distinct (map ch_id (map tr_channel es))"
      using that(1) by (simp add: extends_def tree_ok_def)
    have "card (snd ` set ?m) \<le> length ?m" by (metis card_length list.set_map length_map)
    moreover have "card (tr_channel ` set es) = length ?m"
      using d that(2) by (metis distinct_card distinct_map length_map list.set_map)
    moreover have "card (tr_channel ` set es) \<le> card (snd ` set ?m)"
      using that(1) by (intro card_mono) (auto simp: extends_def tree_ok_def list_all_iff)
    ultimately show "card (tr_channel ` set es) = card (snd ` set ?m)" by simp
  qed simp
  show ?thesis
  proof (cases r)
    case (Inl e)
    with run ok show ?thesis by (simp add: store_Tree_def Let_def)
  next
    case (Inr u)
    with ok have ext: "extends ?m 0 0 ([], []) (V, es)" by simp
    with run Inr all show ?thesis
      by (auto simp: store_Tree_def Let_def extends_def tree_ok_def)
  qed
qed

text \<open>
  C18: on a hierarchy without cycles, in which every parent is a channel of the store or 0 and the
  children of each parent form one chain of \<open>orderAfterId\<close>, \<open>ChannelStore::Tree\<close> succeeds. It
  returns every channel of the store exactly once, in the order of a walk that goes from each
  channel down to its children first and visits siblings in chain order, top-level channels at
  depth 0 and every child one level below its parent.
\<close>

theorem channel_tree_complete:
  assumes "store_inv s" and "ranked rank (st_channels s)" and "parents_known (st_channels s)"
    and "\<And>p. chain {} (st_channels s) p (kids p)"
  shows "\<exists>entries. store_Tree s = Inr entries \<and>
    distinct (map (ch_id \<circ> tr_channel) entries) \<and> tr_channel ` set entries = snd ` set (st_channels s) \<and>
    listed entries = preorder (length (st_channels s) + 1) kids 0 0 \<and> parents_first {(0, 0)} entries"
proof -
  let ?m = "st_channels s" and ?s0 = "([], []) :: u64 list \<times> ChannelTreeEntry list"
  note stored = stored_channel [OF assms(1)]
  have ok: "sm_ok ?m" using assms(1) by (simp add: store_inv_def)
  have own: "own_ids ?m" unfolding own_ids_def by (metis option.inject stored)
  have start: "tree_ok ?m ?s0" "unvisited ?m ?s0 < length ?m + 1"
    using card_image_le [of "snd ` set ?m" ch_id] card_image_le [of "set ?m" snd] card_length [of ?m]
    by (simp_all add: tree_ok_def unvisited_def)
  have free: "set (fst ?s0) \<inter> below ?m 0 = {}" by simp
  obtain s' where run0: "AppendTree (length ?m + 1) ?m 0 0 ?s0 = (Inr (), s')"
    and app0: "appends ?m (below ?m 0) (preorder (length ?m + 1) kids 0 0) ?s0 s'"
    using AppendTree_succeeds [OF own assms(2) children_of_chain [OF assms(1,4)] start free] by blast
  obtain V es where s': "s' = (V, es)" by (rule prod.exhaust)
  note run = run0 [unfolded s'] and app = app0 [unfolded s']
  have "below ?m 0 = ch_id ` snd ` set ?m"
  proof (intro equalityI subsetI)
    show "x \<in> ch_id ` snd ` set ?m" if "x \<in> below ?m 0" for x using below_channel [OF that] by blast
    show "x \<in> below ?m 0" if "x \<in> ch_id ` snd ` set ?m" for x
      using that all_below_root [OF own assms(2,3)] stored by blast
  qed
  then have V: "set V = ch_id ` snd ` set ?m" using app by (simp add: appends_def)
  have ext: "extends ?m 0 0 ?s0 (V, es)" using tree_fuel_enough [OF run] by blast
  then have ids: "set (map (ch_id \<circ> tr_channel) es) = set V" and d: "distinct (map (ch_id \<circ> tr_channel) es)"
    by (simp_all add: extends_def tree_ok_def)
  have "ch_id (snd e) = fst e" if "e \<in> set ?m" for e
    using store_invD [OF assms(1)] sm.entry_iff_lookup [OF ok, of "fst e" "snd e"] that by simp
  then have keys: "ch_id ` snd ` set ?m = set (map fst ?m)" by (simp add: image_image)
  have "length es = card (set V)" using distinct_card [OF d] unfolding ids by simp
  then have "length es = length ?m"
    using distinct_card [OF sm_ok_distinct [OF ok]] unfolding V keys by simp
  moreover have "\<not> list_ex (\<lambda>(_, c). ch_parentId c \<noteq> 0 \<and> \<not> sm_contains ?m (ch_parentId c)) ?m"
    using assms(3) by (auto simp: parents_known_def list_ex_iff)
  ultimately have "store_Tree s = Inr es"
    using run by (simp add: store_Tree_def Let_def)
  then show ?thesis
    using channel_tree_sound [OF assms(1)] app by (simp add: appends_def)
qed

definition sample_kids :: "u64 \<Rightarrow> u64 list" where
  "sample_kids p = (if p = 0 then [1, 2] else if p = 1 then [3] else [])"

lemma sample_chain_of: "chain {} (st_channels sample_store) p (sample_kids p)"
proof -
  have "siblings {} (st_channels sample_store) p = {}" if "p \<noteq> 0" "p \<noteq> 1"
    using that by (auto simp: siblings_def sample_store_def store_ApplyList_def store_Upsert_def Let_def empty_store_def
        sample_channel_def channel_of_entry_def sm_find_Cons split: if_splits)
  then have "chain {} (st_channels sample_store) p []" if "p \<noteq> 0" "p \<noteq> 1" using that by (simp add: chain_def)
  with sample_chains show ?thesis unfolding sample_kids_def by (cases "p = 0"; cases "p = 1") simp_all
qed

theorem channel_tree_complete_witness:
  "\<exists>entries. store_Tree sample_store = Inr entries \<and> listed entries = [(1, 0), (3, 1), (2, 0)]"
proof -
  have channels: "snd ` set (st_channels sample_store) = channel_of_entry ` set [sample_channel 1 0 0, sample_channel 2 0 1, sample_channel 3 1 0]"
    "length (st_channels sample_store) = 3"
    by (simp_all add: sample_store_def store_ApplyList_def store_Upsert_def Let_def empty_store_def sample_channel_def channel_of_entry_def)
  have "ranked (\<lambda>i. if i = 0 then 0 else if i = 3 then 2 else 1) (st_channels sample_store)"
    by (simp add: ranked_def channels(1)) (simp add: sample_channel_def channel_of_entry_def)
  moreover have "parents_known (st_channels sample_store)"
    unfolding parents_known_def sample_contains channels(1) by (simp add: sample_channel_def channel_of_entry_def)
  moreover have "preorder (length (st_channels sample_store) + 1) sample_kids 0 0 = [(1, 0), (3, 1), (2, 0)]"
  proof -
    have "length (st_channels sample_store) + 1 = Suc (Suc (Suc (Suc 0)))" using channels(2) by simp
    then show ?thesis by (simp only: preorder.simps) (simp add: sample_kids_def)
  qed
  ultimately show ?thesis
    using channel_tree_complete [OF sample_store_inv _ _ sample_chain_of] by force
qed

end
