(* ===== verification/Client_Store.thy ===== *)
theory Client_Store
  imports Channel_Store "HOL-Library.Multiset" "HOL-Library.Char_ord" "HOL-Library.List_Lexorder" "HOL-Library.Product_Lexorder"
begin

text \<open>
  The clients in view: \<open>protocol/include/protocol/state/client.hpp\<close> and
  \<open>protocol/src/state/client_store.cpp\<close>. Names are compared as \<open>std::string\<close> does, by the
  numeric value of their characters, which is the order of \<open>Char_ord\<close> and \<open>List_Lexorder\<close>.
\<close>

section \<open>Model\<close>

record Client =
  cl_id :: u16
  cl_channelId :: u64
  cl_nickname :: string
  cl_uniqueId :: string
  cl_away :: bool
  cl_inputMuted :: bool
  cl_outputMuted :: bool
  cl_inputHardware :: bool
  cl_outputHardware :: bool
  cl_recording :: bool
  cl_prioritySpeaker :: bool
  cl_channelCommander :: bool
  cl_serverQuery :: bool
  cl_detailsKnown :: bool

definition default_Client :: Client where
  "default_Client = \<lparr>cl_id = 0, cl_channelId = 0, cl_nickname = [], cl_uniqueId = [], cl_away = False,
     cl_inputMuted = False, cl_outputMuted = False, cl_inputHardware = True, cl_outputHardware = True,
     cl_recording = False, cl_prioritySpeaker = False, cl_channelCommander = False, cl_serverQuery = False,
     cl_detailsKnown = False\<rparr>"

type_synonym ClientStore = "(u16, Client) smap"

definition clients_Find :: "u16 \<Rightarrow> ClientStore \<Rightarrow> Client option" where
  "clients_Find clientId s = sm_find s clientId"

definition clients_Size :: "ClientStore \<Rightarrow> nat" where
  "clients_Size s = length s"

definition clients_All :: "ClientStore \<Rightarrow> Client list" where
  "clients_All s = map snd s"

text \<open>The channel and the unique id an entering client gets, given what is known of it.\<close>

definition entered_channel :: "ClientEnterViewEntry \<Rightarrow> Client option \<Rightarrow> u64" where
  "entered_channel entry existing =
     (case existing of
        None \<Rightarrow> ev_channelId entry
      | Some c \<Rightarrow> if cl_channelId c \<noteq> 0 \<and> (ev_channelId entry = 0 \<or> \<not> cl_detailsKnown c)
                  then cl_channelId c else ev_channelId entry)"

definition entered_uniqueId :: "ClientEnterViewEntry \<Rightarrow> Client option \<Rightarrow> string" where
  "entered_uniqueId entry existing =
     (case existing of None \<Rightarrow> ev_uniqueId entry
      | Some c \<Rightarrow> if ev_uniqueId entry = [] then cl_uniqueId c else ev_uniqueId entry)"

definition entered_client :: "ClientEnterViewEntry \<Rightarrow> Client option \<Rightarrow> Client" where
  "entered_client entry existing = \<lparr>cl_id = ev_id entry, cl_channelId = entered_channel entry existing,
     cl_nickname = ev_nickname entry, cl_uniqueId = entered_uniqueId entry existing, cl_away = ev_away entry,
     cl_inputMuted = ev_inputMuted entry, cl_outputMuted = ev_outputMuted entry,
     cl_inputHardware = ev_inputHardware entry, cl_outputHardware = ev_outputHardware entry,
     cl_recording = ev_recording entry, cl_prioritySpeaker = ev_prioritySpeaker entry,
     cl_channelCommander = ev_channelCommander entry, cl_serverQuery = ev_serverQuery entry, cl_detailsKnown = True\<rparr>"

definition clients_ApplyEnterView :: "ClientEnterViewEntry list \<Rightarrow> ClientStore \<Rightarrow> ClientStore" where
  "clients_ApplyEnterView entries s =
     fold (\<lambda>e s. sm_put (ev_id e) (entered_client e (sm_find s (ev_id e))) s) entries s"

text \<open>\<open>try_emplace\<close> of a default client, then assignments through the iterator.\<close>

definition with_client :: "u16 \<Rightarrow> (Client \<Rightarrow> Client) \<Rightarrow> ClientStore \<Rightarrow> ClientStore" where
  "with_client clientId f s =
     (let s = sm_try_emplace clientId default_Client s
      in sm_update_all (\<lambda>i c. if i = clientId then f c else c) s)"

definition clients_Move :: "u16 \<Rightarrow> u64 \<Rightarrow> ClientStore \<Rightarrow> ClientStore" where
  "clients_Move clientId channelId = with_client clientId (\<lambda>c. c\<lparr>cl_id := clientId, cl_channelId := channelId\<rparr>)"

definition clients_ApplyMoved :: "ClientMovedEntry list \<Rightarrow> ClientStore \<Rightarrow> ClientStore" where
  "clients_ApplyMoved entries s = fold (\<lambda>e. clients_Move (mv_id e) (mv_channelId e)) entries s"

definition clients_ApplyLeftView :: "ClientLeftViewEntry list \<Rightarrow> ClientStore \<Rightarrow> ClientStore" where
  "clients_ApplyLeftView entries s = fold (\<lambda>e. sm_erase (lv_id e)) entries s"

definition updated_client :: "ClientUpdatedEntry \<Rightarrow> Client \<Rightarrow> Client" where
  "updated_client e c =
     c\<lparr>cl_id := up_id e,
       cl_nickname := (case up_nickname e of None \<Rightarrow> cl_nickname c | Some v \<Rightarrow> v),
       cl_away := (case up_away e of None \<Rightarrow> cl_away c | Some v \<Rightarrow> v),
       cl_inputMuted := (case up_inputMuted e of None \<Rightarrow> cl_inputMuted c | Some v \<Rightarrow> v),
       cl_outputMuted := (case up_outputMuted e of None \<Rightarrow> cl_outputMuted c | Some v \<Rightarrow> v),
       cl_inputHardware := (case up_inputHardware e of None \<Rightarrow> cl_inputHardware c | Some v \<Rightarrow> v),
       cl_outputHardware := (case up_outputHardware e of None \<Rightarrow> cl_outputHardware c | Some v \<Rightarrow> v),
       cl_recording := (case up_recording e of None \<Rightarrow> cl_recording c | Some v \<Rightarrow> v),
       cl_prioritySpeaker := (case up_prioritySpeaker e of None \<Rightarrow> cl_prioritySpeaker c | Some v \<Rightarrow> v),
       cl_channelCommander := (case up_channelCommander e of None \<Rightarrow> cl_channelCommander c | Some v \<Rightarrow> v)\<rparr>"

definition clients_ApplyUpdated :: "ClientUpdatedEntry list \<Rightarrow> ClientStore \<Rightarrow> ClientStore" where
  "clients_ApplyUpdated entries s = fold (\<lambda>e. with_client (up_id e) (updated_client e)) entries s"

definition clients_Remove :: "u16 \<Rightarrow> ClientStore \<Rightarrow> ClientStore" where
  "clients_Remove clientId s = sm_erase clientId s"

definition clients_RemoveInChannel :: "u64 \<Rightarrow> u16 \<Rightarrow> ClientStore \<Rightarrow> ClientStore" where
  "clients_RemoveInChannel channelId preserveClientId s =
     filter (\<lambda>(_, c). \<not> (cl_channelId c = channelId \<and> cl_id c \<noteq> preserveClientId)) s"

definition clients_Validate :: "ChannelStore \<Rightarrow> ClientStore \<Rightarrow> unit result" where
  "clients_Validate channels s =
     (if list_ex (\<lambda>(_, c). cl_channelId c \<noteq> 0 \<and> store_Find (cl_channelId c) channels = None) s
      then Inl (RuntimeError ''Client references an unknown channel'') else Inr ())"

definition clients_InChannel :: "u64 \<Rightarrow> ClientStore \<Rightarrow> Client list" where
  "clients_InChannel channelId s =
     sort_key (\<lambda>c. (\<not> cl_detailsKnown c, cl_nickname c, cl_id c))
       (filter (\<lambda>c. cl_channelId c = channelId) (map snd s))"

section \<open>Invariant\<close>

definition clients_inv :: "ClientStore \<Rightarrow> bool" where
  "clients_inv s \<longleftrightarrow> sm_ok s \<and> (\<forall>i c. sm_find s i = Some c \<longrightarrow> cl_id c = i)"

lemma clients_inv_empty: "clients_inv []"
  by (simp add: clients_inv_def)

lemma find_with_client:
  "sm_ok s \<Longrightarrow> sm_find (with_client k f s) i =
     (if i = k then Some (f (case sm_find s k of None \<Rightarrow> default_Client | Some c \<Rightarrow> c)) else sm_find s i)"
  by (auto simp: with_client_def Let_def sm_find_try_emplace option.map_ident split: option.split)

lemma ok_with_client: "sm_ok s \<Longrightarrow> sm_ok (with_client k f s)"
  by (simp add: with_client_def Let_def sm_ok_try_emplace)

lemma with_client_inv: "clients_inv s \<Longrightarrow> (\<And>c. cl_id (f c) = k) \<Longrightarrow> clients_inv (with_client k f s)"
  by (simp add: clients_inv_def ok_with_client find_with_client)

lemma fold_inv: "(\<And>x s. P s \<Longrightarrow> P (f x s)) \<Longrightarrow> P s \<Longrightarrow> P (fold f xs s)"
  by (induction xs arbitrary: s) auto

lemma Move_clients_inv: "clients_inv s \<Longrightarrow> clients_inv (clients_Move i ch s)"
  unfolding clients_Move_def by (rule with_client_inv) simp_all

lemma ApplyMoved_clients_inv: "clients_inv s \<Longrightarrow> clients_inv (clients_ApplyMoved es s)"
  unfolding clients_ApplyMoved_def by (rule fold_inv) (rule Move_clients_inv)

lemma ApplyUpdated_clients_inv: "clients_inv s \<Longrightarrow> clients_inv (clients_ApplyUpdated es s)"
  unfolding clients_ApplyUpdated_def by (rule fold_inv) (auto intro: with_client_inv simp: updated_client_def)

lemma enter_one_inv: "clients_inv s \<Longrightarrow> clients_inv (sm_put (ev_id e) (entered_client e x) s)"
  by (simp add: clients_inv_def sm_ok_put sm_find_put entered_client_def)

lemma ApplyEnterView_clients_inv: "clients_inv s \<Longrightarrow> clients_inv (clients_ApplyEnterView es s)"
  unfolding clients_ApplyEnterView_def by (rule fold_inv) (rule enter_one_inv)

lemma erase_clients_inv: "clients_inv s \<Longrightarrow> clients_inv (sm_erase i s)"
  by (simp add: clients_inv_def sm_ok_erase)

lemma ApplyLeftView_clients_inv: "clients_inv s \<Longrightarrow> clients_inv (clients_ApplyLeftView es s)"
  unfolding clients_ApplyLeftView_def by (rule fold_inv) (rule erase_clients_inv)

lemma sm_ok_filter: "sm_ok s \<Longrightarrow> sm_ok (filter P s)"
  by (simp add: sm_ok_def sorted_wrt_map sorted_wrt_filter)

lemma sm_find_filter: "sm_ok s \<Longrightarrow> sm_find (filter P s) i =
    (case sm_find s i of None \<Rightarrow> None | Some c \<Rightarrow> if P (i, c) then Some c else None)"
proof (induction s)
  case (Cons e s)
  obtain k c where e: "e = (k, c)" by fastforce
  have "sm_find s k = None" using Cons.prems by (auto simp: e sm_ok_Cons sm_find_def map_of_eq_None_iff)
  with Cons show ?case by (auto simp: e sm_find_Cons sm_ok_Cons split: option.split)
qed simp

lemma find_RemoveInChannel:
  "sm_ok s \<Longrightarrow> sm_find (clients_RemoveInChannel ch keep s) i =
     (case sm_find s i of None \<Rightarrow> None
      | Some c \<Rightarrow> if cl_channelId c = ch \<and> cl_id c \<noteq> keep then None else Some c)"
  by (auto simp: clients_RemoveInChannel_def sm_find_filter split: option.split)

lemma RemoveInChannel_clients_inv: "clients_inv s \<Longrightarrow> clients_inv (clients_RemoveInChannel ch keep s)"
  by (auto simp: clients_inv_def find_RemoveInChannel split: option.splits if_splits)
     (simp add: clients_RemoveInChannel_def sm_ok_filter)

lemmas clients_inv_rules = clients_inv_empty Move_clients_inv ApplyMoved_clients_inv ApplyUpdated_clients_inv
  ApplyEnterView_clients_inv ApplyLeftView_clients_inv RemoveInChannel_clients_inv erase_clients_inv

section \<open>Properties\<close>

text \<open>
  \<open>InChannel\<close> lists exactly the clients of the store that are in the channel, each once,
  those with known details first, then by nickname, then by id.
\<close>

theorem in_channel_exact_and_sorted:
  assumes "clients_inv s"
  shows "set (clients_InChannel channelId s) = {c. sm_find s (cl_id c) = Some c \<and> cl_channelId c = channelId} \<and>
         distinct (map cl_id (clients_InChannel channelId s)) \<and>
         sorted (map (\<lambda>c. (\<not> cl_detailsKnown c, cl_nickname c, cl_id c)) (clients_InChannel channelId s))"
proof (intro conjI)
  have ok: "sm_ok s" and ids: "\<And>i c. sm_find s i = Some c \<Longrightarrow> cl_id c = i"
    using assms by (auto simp: clients_inv_def)
  have entry: "(i, c) \<in> set s \<longleftrightarrow> sm_find s i = Some c" for i c by (rule sm.entry_iff_lookup [OF ok])
  show "set (clients_InChannel channelId s) = {c. sm_find s (cl_id c) = Some c \<and> cl_channelId c = channelId}"
  proof (rule set_eqI)
    fix c
    have "c \<in> snd ` set s \<longleftrightarrow> (\<exists>i. (i, c) \<in> set s)" by force
    also have "\<dots> \<longleftrightarrow> sm_find s (cl_id c) = Some c" unfolding entry using ids by blast
    finally show "c \<in> set (clients_InChannel channelId s) \<longleftrightarrow>
        c \<in> {c. sm_find s (cl_id c) = Some c \<and> cl_channelId c = channelId}"
      by (simp add: clients_InChannel_def conj_commute)
  qed
  have "cl_id (snd e) = fst e" if "e \<in> set s" for e
    by (rule ids, rule iffD1 [OF entry]) (simp add: that)
  then have "map cl_id (map snd s) = map fst s" by (simp cong: map_cong)
  then have "distinct (map cl_id (map snd s))" using sm_ok_distinct [OF ok] by metis
  then have "distinct (map cl_id (filter (\<lambda>c. cl_channelId c = channelId) (map snd s)))"
    by (rule distinct_map_filter)
  moreover have "mset (map cl_id (clients_InChannel channelId s)) =
      mset (map cl_id (filter (\<lambda>c. cl_channelId c = channelId) (map snd s)))"
    by (simp add: clients_InChannel_def)
  ultimately show "distinct (map cl_id (clients_InChannel channelId s))"
    by (metis mset_eq_imp_distinct_iff)
  show "sorted (map (\<lambda>c. (\<not> cl_detailsKnown c, cl_nickname c, cl_id c)) (clients_InChannel channelId s))"
    by (simp add: clients_InChannel_def)
qed

text \<open>
  A move that overtakes the enter notification is not lost. When a client is moved before
  its details are known, the later \<open>notifycliententerview\<close> fills in the details and keeps the
  channel of the move, whatever channel it carries itself.
\<close>

theorem early_move_survives_enter:
  assumes "sm_ok s" and "case sm_find s (ev_id entry) of None \<Rightarrow> True | Some c \<Rightarrow> \<not> cl_detailsKnown c"
    and "channelId \<noteq> 0"
  shows "\<exists>c. clients_Find (ev_id entry) (clients_ApplyEnterView [entry] (clients_Move (ev_id entry) channelId s)) = Some c \<and>
             cl_channelId c = channelId \<and> cl_nickname c = ev_nickname entry \<and> cl_detailsKnown c"
proof -
  let ?s = "clients_Move (ev_id entry) channelId s"
  obtain c where c: "sm_find ?s (ev_id entry) = Some c" "cl_channelId c = channelId" "\<not> cl_detailsKnown c"
    using assms(1,2) by (auto simp: clients_Move_def find_with_client default_Client_def split: option.splits)
  have "sm_ok ?s" using assms(1) by (simp add: clients_Move_def ok_with_client)
  with c assms(3) show ?thesis
    by (simp add: clients_Find_def clients_ApplyEnterView_def sm_find_put entered_client_def entered_channel_def)
qed

definition sample_clients :: ClientStore where
  "sample_clients = clients_ApplyEnterView [sample_entry] []"

theorem in_channel_exact_and_sorted_witness:
  "set (clients_InChannel 3 sample_clients) = {c. sm_find sample_clients (cl_id c) = Some c \<and> cl_channelId c = 3} \<and>
   distinct (map cl_id (clients_InChannel 3 sample_clients)) \<and>
   sorted (map (\<lambda>c. (\<not> cl_detailsKnown c, cl_nickname c, cl_id c)) (clients_InChannel 3 sample_clients))"
  unfolding sample_clients_def
  by (rule in_channel_exact_and_sorted [OF ApplyEnterView_clients_inv [OF clients_inv_empty]])

theorem early_move_survives_enter_witness:
  "\<exists>c. clients_Find 9 (clients_ApplyEnterView [sample_entry] (clients_Move 9 77 [])) = Some c \<and>
       cl_channelId c = 77 \<and> cl_nickname c = ''Ann'' \<and> cl_detailsKnown c"
  using early_move_survives_enter [of "[]" sample_entry 77] by (simp add: sample_entry_def)

end
