(* ===== verification/Reliable_Queue.thy ===== *)
theory Reliable_Queue
  imports Std_Map Sequence "HOL-Library.Multiset"
begin

text \<open>
  \<open>ReliableCommandQueue\<close> (\<open>protocol/src/reliability/reliable_command_queue.cpp\<close>): the commands
  sent and not yet acknowledged, with their retransmission timers. Time points of the steady
  clock are integers counting nanoseconds; durations declared in milliseconds are converted
  where the code adds them to a time point.

  The abstract view is a finite map from 16-bit packet ids to pending commands (\<open>pending_of\<close>),
  although the code keys its container by the 48-bit sequence key and scans for ids.
\<close>

section \<open>Model\<close>

type_synonym time = int

definition milliseconds :: "int \<Rightarrow> time" where "milliseconds n = n * 1000000"
definition seconds :: "int \<Rightarrow> time" where "seconds n = n * 1000000000"

record PendingCommand =
  pc_packetId :: u16
  pc_generationId :: u32
  pc_packet :: Packet
  pc_firstSent :: time
  pc_nextRetry :: time
  pc_retryDelay :: int
  pc_retransmitted :: bool

record Acknowledgement =
  ak_firstSent :: time
  ak_retransmitted :: bool

type_synonym ReliableCommandQueue = "(u64, PendingCommand) smap"

definition MaxPendingCommands :: nat where "MaxPendingCommands = 1024"
definition InitialRetryDelay :: int where "InitialRetryDelay = 500"
definition MaxRetryDelay :: int where "MaxRetryDelay = 4000"
definition CommandTimeout :: int where "CommandTimeout = 30"

definition queue_Contains :: "u16 \<Rightarrow> ReliableCommandQueue \<Rightarrow> bool" where
  "queue_Contains packetId Q \<longleftrightarrow> list_ex (\<lambda>(_, p). pc_packetId p = packetId) Q"

definition queue_Add :: "u16 \<Rightarrow> u32 \<Rightarrow> Packet \<Rightarrow> time \<Rightarrow> (ReliableCommandQueue, unit) op" where
  "queue_Add packetId generationId packet sentAt Q =
     (if length Q \<ge> MaxPendingCommands then (Inl (RuntimeError ''Reliable Command send queue is full''), Q)
      else if list_ex (\<lambda>(_, p). pc_packetId p = packetId) Q
      then (Inl (RuntimeError ''Reliable Command packet ID wrapped while still pending''), Q)
      else let key = SequenceKey packetId generationId
           in if sm_contains Q key then (Inl (RuntimeError ''Reliable Command sequence is already pending''), Q)
              else (Inr (), sm_try_emplace key
                     \<lparr>pc_packetId = packetId, pc_generationId = generationId, pc_packet = packet,
                      pc_firstSent = sentAt, pc_nextRetry = sentAt + milliseconds InitialRetryDelay,
                      pc_retryDelay = InitialRetryDelay, pc_retransmitted = False\<rparr> Q))"

text \<open>The scan of \<open>Acknowledge\<close>: the entry found so far, an exception at a second one.\<close>

fun find_pending :: "u16 \<Rightarrow> (u64 \<times> PendingCommand) option \<Rightarrow> ReliableCommandQueue \<Rightarrow> (u64 \<times> PendingCommand) option result" where
  "find_pending packetId match [] = Inr match"
| "find_pending packetId match (entry # Q) =
     (if pc_packetId (snd entry) \<noteq> packetId then find_pending packetId match Q
      else if match \<noteq> None then Inl (RuntimeError ''Ambiguous reliable Command acknowledgement'')
      else find_pending packetId (Some entry) Q)"

definition queue_Acknowledge :: "u16 \<Rightarrow> (ReliableCommandQueue, Acknowledgement option) op" where
  "queue_Acknowledge packetId Q =
     (case find_pending packetId None Q of
        Inl e \<Rightarrow> (Inl e, Q)
      | Inr None \<Rightarrow> (Inr None, Q)
      | Inr (Some (key, p)) \<Rightarrow>
          (Inr (Some \<lparr>ak_firstSent = pc_firstSent p, ak_retransmitted = pc_retransmitted p\<rparr>), sm_erase key Q))"

definition retransmit :: "time \<Rightarrow> PendingCommand \<Rightarrow> PendingCommand" where
  "retransmit now p =
     (let delay = min (pc_retryDelay p * 2) MaxRetryDelay
      in p\<lparr>pc_retransmitted := True, pc_retryDelay := delay, pc_nextRetry := now + milliseconds delay\<rparr>)"

text \<open>The loop changes the entries in place; an exception keeps the changes made before it.\<close>

fun queue_CollectDue :: "time \<Rightarrow> (ReliableCommandQueue, Packet list) op" where
  "queue_CollectDue now [] = (Inr [], [])"
| "queue_CollectDue now ((key, p) # Q) =
     (if now \<ge> pc_firstSent p + seconds CommandTimeout
      then (Inl (RuntimeError ''Reliable Command acknowledgement timed out''), (key, p) # Q)
      else if now < pc_nextRetry p
      then (case queue_CollectDue now Q of (r, Q') \<Rightarrow> (r, (key, p) # Q'))
      else (case queue_CollectDue now Q of
              (Inl e, Q') \<Rightarrow> (Inl e, (key, retransmit now p) # Q')
            | (Inr out, Q') \<Rightarrow> (Inr (pc_packet p # out), (key, retransmit now p) # Q')))"

definition pending_deadline :: "PendingCommand \<Rightarrow> time" where
  "pending_deadline p = min (pc_nextRetry p) (pc_firstSent p + seconds CommandTimeout)"

definition queue_NextDeadline :: "ReliableCommandQueue \<Rightarrow> time option" where
  "queue_NextDeadline Q =
     fold (\<lambda>(_, p) result. let deadline = pending_deadline p
             in case result of None \<Rightarrow> Some deadline
                | Some r \<Rightarrow> if deadline < r then Some deadline else result) Q None"

section \<open>Invariant and abstraction\<close>

definition pending_ok :: "u64 \<times> PendingCommand \<Rightarrow> bool" where
  "pending_ok e \<longleftrightarrow> fst e = SequenceKey (pc_packetId (snd e)) (pc_generationId (snd e)) \<and>
     pc_retryDelay (snd e) \<in> {500, 1000, 2000, 4000} \<and>
     (pc_retransmitted (snd e) \<longleftrightarrow> pc_retryDelay (snd e) \<noteq> InitialRetryDelay)"

definition queue_inv :: "ReliableCommandQueue \<Rightarrow> bool" where
  "queue_inv Q \<longleftrightarrow> sm_ok Q \<and> distinct (map (pc_packetId \<circ> snd) Q) \<and> length Q \<le> MaxPendingCommands \<and>
     list_all pending_ok Q"

definition pending_of :: "ReliableCommandQueue \<Rightarrow> u16 \<Rightarrow> PendingCommand option" where
  "pending_of Q = map_of (map (\<lambda>(_, p). (pc_packetId p, p)) Q)"

lemma pending_of_Nil [simp]: "pending_of [] = Map.empty"
  by (simp add: pending_of_def)

lemma pending_of_Cons [simp]: "pending_of ((k, p) # Q) = (pending_of Q)(pc_packetId p \<mapsto> p)"
  by (simp add: pending_of_def)

lemma pending_of_None: "pending_of Q i = None \<longleftrightarrow> i \<notin> set (map (pc_packetId \<circ> snd) Q)"
  by (force simp: pending_of_def map_of_eq_None_iff)

lemma Contains_iff: "queue_Contains i Q \<longleftrightarrow> pending_of Q i \<noteq> None"
  by (induction Q) (auto simp: queue_Contains_def)

lemma pending_of_Some: "pending_of Q i = Some p \<Longrightarrow> \<exists>k. (k, p) \<in> set Q \<and> pc_packetId p = i"
  by (induction Q) (auto split: if_splits)

lemma pending_of_unique:
  "distinct (map (pc_packetId \<circ> snd) Q) \<Longrightarrow> (k, p) \<in> set Q \<Longrightarrow> pending_of Q (pc_packetId p) = Some p"
  by (induction Q) (force simp: image_iff)+

lemma queue_inv_empty: "queue_inv []"
  by (simp add: queue_inv_def)

section \<open>Adding\<close>

lemma sm_put_perm: "\<not> sm_contains Q k \<Longrightarrow> mset (sm_put k v Q) = add_mset (k, v) (mset Q)"
  by (induction Q) (auto simp: sm_contains_def sm_find_Cons split: if_splits)

lemma pending_of_put:
  assumes "\<not> sm_contains Q k" and "pending_of Q (pc_packetId p) = None"
  shows "pending_of (sm_put k p Q) = (pending_of Q)(pc_packetId p \<mapsto> p)"
  using assms
  by (induction Q) (auto simp: sm_contains_def sm_find_Cons fun_upd_twist split: if_splits)

lemma fresh_id_fresh_key:
  assumes "queue_inv Q" and "pending_of Q i = None"
  shows "\<not> sm_contains Q (SequenceKey i g)"
proof
  assume "sm_contains Q (SequenceKey i g)"
  then obtain p where "(SequenceKey i g, p) \<in> set Q" by (auto simp: sm_contains_iff)
  then have "SequenceKey (pc_packetId p) (pc_generationId p) = SequenceKey i g"
    using assms(1) by (auto simp: queue_inv_def list_all_iff pending_ok_def)
  then have "i \<in> set (map (pc_packetId \<circ> snd) Q)"
    using \<open>(SequenceKey i g, p) \<in> set Q\<close> by (force simp: SequenceKey_inj image_iff)
  with assms(2) show False by (simp add: pending_of_None)
qed

abbreviation new_pending :: "u16 \<Rightarrow> u32 \<Rightarrow> Packet \<Rightarrow> time \<Rightarrow> PendingCommand" where
  "new_pending i g packet t \<equiv> \<lparr>pc_packetId = i, pc_generationId = g, pc_packet = packet, pc_firstSent = t,
     pc_nextRetry = t + milliseconds InitialRetryDelay, pc_retryDelay = InitialRetryDelay, pc_retransmitted = False\<rparr>"

lemma Add_cases:
  assumes "queue_inv Q"
  shows "queue_Add i g packet t Q =
     (if length Q \<ge> MaxPendingCommands then (Inl (RuntimeError ''Reliable Command send queue is full''), Q)
      else if pending_of Q i \<noteq> None
      then (Inl (RuntimeError ''Reliable Command packet ID wrapped while still pending''), Q)
      else (Inr (), sm_put (SequenceKey i g) (new_pending i g packet t) Q))"
  using fresh_id_fresh_key [OF assms] Contains_iff [of i Q]
  by (auto simp: queue_Add_def queue_Contains_def Let_def sm_try_emplace_def sm_contains_def)

lemma set_map_put: "\<not> sm_contains Q k \<Longrightarrow> set (sm_put k v Q) = insert (k, v) (set Q)"
  by (metis set_mset_add_mset_insert set_mset_mset sm_put_perm)

lemma Add_inv:
  assumes "queue_inv Q" and "queue_Add i g packet t Q = (r, Q')"
  shows "queue_inv Q'"
proof -
  consider "Q' = Q" | "length Q < MaxPendingCommands" "pending_of Q i = None"
      "Q' = sm_put (SequenceKey i g) (new_pending i g packet t) Q"
    using assms(2) by (auto simp: Add_cases [OF assms(1)] split: if_splits)
  then show ?thesis
  proof cases
    case 1
    with assms(1) show ?thesis by simp
  next
    case 2
    let ?Q = "sm_put (SequenceKey i g) (new_pending i g packet t) Q"
    note fresh = fresh_id_fresh_key [OF assms(1) 2(2), of g]
    have "mset (map (pc_packetId \<circ> snd) ?Q) = add_mset i (mset (map (pc_packetId \<circ> snd) Q))"
      by (simp add: sm_put_perm [OF fresh])
    then have "distinct (map (pc_packetId \<circ> snd) ?Q)"
      using assms(1) 2(2) unfolding pending_of_None queue_inv_def
      by (metis distinct.simps(2) mset.simps(2) mset_eq_imp_distinct_iff)
    moreover have "length ?Q = Suc (length Q)"
      using fresh assms(1) by (simp add: sm.count_put_new queue_inv_def sm_contains_def)
    ultimately show ?thesis
      using assms(1) 2 fresh
      by (auto simp: queue_inv_def sm_ok_put list_all_iff set_map_put pending_ok_def InitialRetryDelay_def)
  qed
qed

lemma Add_keeps: "queue_inv Q \<Longrightarrow> queue_inv (snd (queue_Add i g packet t Q))"
  by (rule Add_inv [OF _ prod.collapse [symmetric]])

section \<open>Acknowledging\<close>

lemma find_pending_stuck: "pending_of Q i = None \<Longrightarrow> find_pending i m Q = Inr m"
  by (induction i m Q rule: find_pending.induct) (auto split: if_splits)

lemma find_pending_distinct:
  "distinct (map (pc_packetId \<circ> snd) Q) \<Longrightarrow>
   case pending_of Q i of
     None \<Rightarrow> find_pending i None Q = Inr None
   | Some p \<Rightarrow> \<exists>k. (k, p) \<in> set Q \<and> find_pending i None Q = Inr (Some (k, p))"
proof (induction Q)
  case (Cons e Q)
  obtain k p where e: "e = (k, p)" by fastforce
  show ?case
  proof (cases "pc_packetId p = i")
    case True
    with Cons.prems have "pending_of Q i = None" by (auto simp: pending_of_None e)
    with True show ?thesis by (simp add: e find_pending_stuck)
  next
    case False
    with Cons show ?thesis by (auto simp: e split: option.splits)
  qed
qed simp

lemma pending_of_erase:
  assumes "sm_ok Q" and "distinct (map (pc_packetId \<circ> snd) Q)" and "(k, p) \<in> set Q"
  shows "pending_of (sm_erase k Q) = (pending_of Q)(pc_packetId p := None)"
  using assms
proof (induction Q)
  case (Cons e Q)
  obtain k' p' where e: "e = (k', p')" by fastforce
  have ok: "sm_ok Q" "k' \<notin> fst ` set Q"
    using Cons.prems(1) by (auto simp: e sm_ok_Cons)
  show ?case
  proof (cases "k' = k")
    case True
    with Cons.prems ok have "p = p'" by (force simp: e)
    moreover have "sm_erase k Q = Q"
      using ok True by (auto simp: sm_erase_def filter_id_conv)
    moreover have "pending_of Q (pc_packetId p') = None"
      using Cons.prems(2) by (auto simp: pending_of_None e)
    ultimately show ?thesis
      using True by (auto simp: e sm_erase_def)
  next
    case False
    then have in_Q: "(k, p) \<in> set Q" using Cons.prems(3) by (simp add: e)
    then have "pc_packetId p' \<noteq> pc_packetId p"
      using Cons.prems(2) by (force simp: e)
    then show ?thesis
      using Cons.IH [OF ok(1) _ in_Q] Cons.prems(2) False by (auto simp: e sm_erase_def)
  qed
qed simp

abbreviation ack_of :: "PendingCommand \<Rightarrow> Acknowledgement" where
  "ack_of p \<equiv> \<lparr>ak_firstSent = pc_firstSent p, ak_retransmitted = pc_retransmitted p\<rparr>"

lemma Acknowledge_run:
  assumes "queue_inv Q"
  shows "\<exists>Q'. queue_Acknowledge i Q = (Inr (map_option ack_of (pending_of Q i)), Q') \<and>
     queue_inv Q' \<and> pending_of Q' = (pending_of Q)(i := None)"
proof (cases "pending_of Q i")
  case None
  then have "(pending_of Q)(i := None) = pending_of Q" by auto
  with None assms find_pending_stuck [OF None] show ?thesis
    by (simp add: queue_Acknowledge_def)
next
  case (Some p)
  have d: "distinct (map (pc_packetId \<circ> snd) Q)" "sm_ok Q" using assms by (simp_all add: queue_inv_def)
  obtain k where k: "(k, p) \<in> set Q" "find_pending i None Q = Inr (Some (k, p))"
    using find_pending_distinct [OF d(1), of i] Some by auto
  have i: "pc_packetId p = i" using pending_of_Some [OF Some] by auto
  have "queue_inv (sm_erase k Q)"
    using assms sm_ok_erase [of Q k] length_filter_le [of "\<lambda>e. fst e \<noteq> k" Q]
    unfolding queue_inv_def sm_erase_def
    by (auto simp: distinct_map_filter list_all_iff intro: order_trans [OF length_filter_le])
  then show ?thesis
    using k pending_of_erase [OF d(2,1) k(1)] Some i by (simp add: queue_Acknowledge_def)
qed

section \<open>Timers\<close>

abbreviation expired :: "time \<Rightarrow> PendingCommand \<Rightarrow> bool" where
  "expired now p \<equiv> now \<ge> pc_firstSent p + seconds CommandTimeout"

abbreviation due :: "time \<Rightarrow> PendingCommand \<Rightarrow> bool" where
  "due now p \<equiv> pc_nextRetry p \<le> now"

definition collected :: "time \<Rightarrow> ReliableCommandQueue \<Rightarrow> ReliableCommandQueue" where
  "collected now Q = map (\<lambda>(k, p). (k, if due now p then retransmit now p else p)) Q"

lemma CollectDue_alive:
  "\<not> list_ex (expired now \<circ> snd) Q \<Longrightarrow>
   queue_CollectDue now Q = (Inr (map (pc_packet \<circ> snd) (filter (due now \<circ> snd) Q)), collected now Q)"
  by (induction Q) (auto simp: collected_def)

lemma CollectDue_expired:
  "list_ex (expired now \<circ> snd) Q \<Longrightarrow>
   fst (queue_CollectDue now Q) = Inl (RuntimeError ''Reliable Command acknowledgement timed out'')"
  by (induction Q) (auto split: prod.splits sum.splits)

lemma CollectDue_shape:
  "list_all2 (\<lambda>e e'. fst e' = fst e \<and> (snd e' = snd e \<or> snd e' = retransmit now (snd e))) Q (snd (queue_CollectDue now Q))"
  by (induction Q) (auto split: prod.splits sum.splits intro: list.rel_refl)

lemma retransmit_fields [simp]:
  "pc_packetId (retransmit now p) = pc_packetId p" "pc_generationId (retransmit now p) = pc_generationId p"
  "pc_firstSent (retransmit now p) = pc_firstSent p" "pc_packet (retransmit now p) = pc_packet p"
  by (simp_all add: retransmit_def Let_def)

lemma retransmit_ok: "pending_ok (k, p) \<Longrightarrow> pending_ok (k, retransmit now p)"
  by (auto simp: pending_ok_def retransmit_def Let_def InitialRetryDelay_def MaxRetryDelay_def)

lemma shape_keys:
  assumes "list_all2 (\<lambda>e e'. fst e' = fst e \<and> (snd e' = snd e \<or> snd e' = retransmit now (snd e))) Q Q'"
  shows "map fst Q' = map fst Q" and "map (pc_packetId \<circ> snd) Q' = map (pc_packetId \<circ> snd) Q"
    and "list_all pending_ok Q \<Longrightarrow> list_all pending_ok Q'"
  using assms by (induction rule: list_all2_induct) (auto intro: retransmit_ok)

lemma CollectDue_inv:
  assumes "queue_inv Q"
  shows "queue_inv (snd (queue_CollectDue now Q))"
proof -
  note keys = shape_keys [OF CollectDue_shape [of now Q]]
  then have "length (snd (queue_CollectDue now Q)) = length Q" by (metis length_map)
  with keys assms show ?thesis by (simp add: queue_inv_def sm_ok_def)
qed

lemma retransmit_not_due: "pending_ok (k, p) \<Longrightarrow> \<not> due now (retransmit now p)"
  by (auto simp: pending_ok_def retransmit_def Let_def MaxRetryDelay_def milliseconds_def min_def)

definition earliest :: "time option \<Rightarrow> PendingCommand \<Rightarrow> time option" where
  "earliest result p = (case result of None \<Rightarrow> Some (pending_deadline p) | Some r \<Rightarrow> Some (min r (pending_deadline p)))"

lemma NextDeadline_fold: "queue_NextDeadline Q = fold (\<lambda>e r. earliest r (snd e)) Q None"
  unfolding queue_NextDeadline_def
  by (rule fold_cong) (auto simp: earliest_def Let_def min_def split: option.splits)

lemma fold_earliest: "fold (\<lambda>e r. earliest r (snd e)) Q (Some d) = Some (Min (insert d (pending_deadline ` snd ` set Q)))"
proof (induction Q arbitrary: d)
  case (Cons e Q)
  have "Min (insert (min d (pending_deadline (snd e))) (pending_deadline ` snd ` set Q)) =
      Min (insert d (insert (pending_deadline (snd e)) (pending_deadline ` snd ` set Q)))"
    by (cases "Q = []") (simp_all add: ac_simps)
  with Cons show ?case by (simp add: earliest_def)
qed simp

lemma NextDeadline_Min:
  "queue_NextDeadline Q = (if Q = [] then None else Some (Min (pending_deadline ` snd ` set Q)))"
proof (cases Q)
  case Nil
  then show ?thesis by (simp add: queue_NextDeadline_def)
next
  case (Cons e Q')
  then show ?thesis using fold_earliest [of Q' "pending_deadline (snd e)"]
    by (simp add: NextDeadline_fold earliest_def)
qed

lemma NextDeadline_before:
  "queue_NextDeadline Q = Some d \<Longrightarrow> now < d \<longleftrightarrow> (\<forall>e \<in> set Q. \<not> due now (snd e) \<and> \<not> expired now (snd e))"
proof -
  assume "queue_NextDeadline Q = Some d"
  then have "Q \<noteq> []" "d = Min (pending_deadline ` snd ` set Q)"
    by (simp_all add: NextDeadline_Min split: if_splits)
  then have "now < d \<longleftrightarrow> (\<forall>e \<in> set Q. now < pending_deadline (snd e))" by simp
  then show ?thesis by (auto simp: pending_deadline_def)
qed

lemma collected_none: "\<forall>e \<in> set Q. \<not> due now (snd e) \<Longrightarrow> collected now Q = Q"
  unfolding collected_def by (rule map_idI) auto

section \<open>The interface of a queue of unacknowledged messages\<close>

locale ack_queue =
  fixes pending :: "'q \<Rightarrow> 'i \<Rightarrow> 'p option"
    and add :: "'i \<Rightarrow> 'm \<Rightarrow> ('q, unit) op"
    and ack :: "'i \<Rightarrow> ('q, 'a option) op"
    and view :: "'p \<Rightarrow> 'a"
    and entry :: "'i \<Rightarrow> 'm \<Rightarrow> 'p"
    and ok :: "'q \<Rightarrow> bool"
  assumes add_keeps: "ok q \<Longrightarrow> ok (snd (add i m q))"
    and add_done: "ok q \<Longrightarrow> add i m q = (Inr u, q') \<Longrightarrow> pending q i = None \<and> pending q' = (pending q)(i \<mapsto> entry i m)"
    and add_refused: "ok q \<Longrightarrow> add i m q = (Inl e, q') \<Longrightarrow> q' = q"
    and ack_done: "ok q \<Longrightarrow> \<exists>q'. ack i q = (Inr (map_option view (pending q i)), q') \<and> ok q' \<and>
                    pending q' = (pending q)(i := None)"
begin

lemma ack_keeps: "ok q \<Longrightarrow> ok (snd (ack i q))"
  using ack_done [of q i] by auto

lemma pending_ack: "ok q \<Longrightarrow> pending (snd (ack i q)) = (pending q)(i := None)"
  using ack_done [of q i] by auto

lemma ack_result: "ok q \<Longrightarrow> fst (ack i q) = Inr (map_option view (pending q i))"
  using ack_done [of q i] by auto

text \<open>A message is acknowledged once: the second acknowledgement finds nothing.\<close>

lemma ack_twice: "ok q \<Longrightarrow> fst (ack i (snd (ack i q))) = Inr None"
  by (simp add: ack_result ack_keeps pending_ack)

lemma ack_after_add:
  assumes "ok q" and "add i m q = (Inr u, q')"
  shows "fst (ack i q') = Inr (Some (view (entry i m)))" and "pending (snd (ack i q')) = pending q"
proof -
  have "ok q'" using add_keeps [OF assms(1), of i m] assms(2) by simp
  then show "fst (ack i q') = Inr (Some (view (entry i m)))" "pending (snd (ack i q')) = pending q"
    using add_done [OF assms] by (auto simp: ack_result pending_ack)
qed

text \<open>Acknowledgements may come in any order and repeat.\<close>

lemma pending_acks:
  "ok q \<Longrightarrow> ok (fold (\<lambda>i q. snd (ack i q)) is q) \<and>
     pending (fold (\<lambda>i q. snd (ack i q)) is q) = (pending q) |` (- set is)"
proof (induction "is" arbitrary: q)
  case (Cons i "is")
  then show ?case
    by (auto simp: ack_keeps pending_ack restrict_map_def fun_eq_iff)
qed (simp add: restrict_map_def)

end

interpretation command_queue: ack_queue pending_of "\<lambda>i (g, packet, t). queue_Add i g packet t" queue_Acknowledge
  ack_of "\<lambda>i (g, packet, t). new_pending i g packet t" queue_inv
proof (unfold_locales, goal_cases)
  case (1 q i m)
  then show ?case by (cases m) (simp add: Add_keeps)
next
  case (2 q i m u q')
  obtain g packet t where m: "m = (g, packet, t)" by (cases m)
  have fresh: "pending_of q i = None" and q': "q' = sm_put (SequenceKey i g) (new_pending i g packet t) q"
    using 2 by (auto simp: m Add_cases split: if_splits)
  then show ?case
    using pending_of_put [OF fresh_id_fresh_key [OF 2(1) fresh, of g], of "new_pending i g packet t"] by (simp add: m)
next
  case (3 q i m e q')
  then show ?case by (cases m) (auto simp: Add_cases split: if_splits)
next
  case (4 q i)
  then show ?case by (rule Acknowledge_run)
qed

section \<open>Properties\<close>

text \<open>
  An acknowledgement is never ambiguous. On every reachable queue \<open>Acknowledge\<close> returns
  (it does not throw) the send time and the retransmission mark of the command with that packet
  id, or nothing when there is none, and removes exactly that command.
\<close>

theorem acknowledge_exact:
  assumes "queue_inv Q"
  shows "case queue_Acknowledge packetId Q of
     (Inl e, Q') \<Rightarrow> False
   | (Inr a, Q') \<Rightarrow> a = map_option (\<lambda>p. \<lparr>ak_firstSent = pc_firstSent p, ak_retransmitted = pc_retransmitted p\<rparr>)
                          (pending_of Q packetId) \<and>
       queue_inv Q' \<and> pending_of Q' = (pending_of Q)(packetId := None)"
  using command_queue.ack_done [OF assms, of packetId] by auto

text \<open>
  \<open>Add\<close> inserts exactly when there is room and the id is not pending, keeps the queue
  invariant (at most 1024 commands, distinct ids, sorted keys), and otherwise throws and leaves
  the queue as it was.
\<close>

theorem add_exact:
  assumes "queue_inv Q"
  shows "case queue_Add packetId generationId packet sentAt Q of
     (Inl e, Q') \<Rightarrow> Q' = Q \<and> (length Q = MaxPendingCommands \<or> queue_Contains packetId Q)
   | (Inr _, Q') \<Rightarrow> length Q < MaxPendingCommands \<and> \<not> queue_Contains packetId Q \<and> queue_inv Q' \<and>
       pending_of Q' = (pending_of Q)(packetId \<mapsto>
         \<lparr>pc_packetId = packetId, pc_generationId = generationId, pc_packet = packet, pc_firstSent = sentAt,
          pc_nextRetry = sentAt + milliseconds 500, pc_retryDelay = 500, pc_retransmitted = False\<rparr>)"
proof (cases "queue_Add packetId generationId packet sentAt Q")
  case (Pair r Q')
  note inv = Add_inv [OF assms Pair]
  have size: "length Q \<le> MaxPendingCommands" using assms by (simp add: queue_inv_def)
  show ?thesis
  proof (cases r)
    case (Inl e)
    with Pair size show ?thesis by (auto simp: Add_cases [OF assms] Contains_iff split: if_splits)
  next
    case (Inr u)
    with Pair have run: "(case (generationId, packet, sentAt) of (g, p, t) \<Rightarrow> queue_Add packetId g p t) Q = (Inr u, Q')"
      by simp
    have "length Q < MaxPendingCommands" using Pair Inr by (auto simp: Add_cases [OF assms] split: if_splits)
    with command_queue.add_done [OF assms run] Pair Inr inv show ?thesis
      by (simp add: Contains_iff InitialRetryDelay_def)
  qed
qed


text \<open>
  The deadline handed to the event loop is exact. Before it \<open>CollectDue\<close> does nothing at
  all; from it on \<open>CollectDue\<close> retransmits something or reports the timeout. With no deadline
  the queue is empty.
\<close>

theorem next_deadline_exact:
  "case queue_NextDeadline Q of
     None \<Rightarrow> Q = []
   | Some deadline \<Rightarrow> (if now < deadline then queue_CollectDue now Q = (Inr [], Q)
                      else fst (queue_CollectDue now Q) \<noteq> Inr [])"
proof (cases "queue_NextDeadline Q")
  case None
  then show ?thesis by (simp add: NextDeadline_Min split: if_splits)
next
  case (Some d)
  show ?thesis
  proof (cases "now < d")
    case True
    with NextDeadline_before [OF Some] have idle: "\<forall>e \<in> set Q. \<not> due now (snd e) \<and> \<not> expired now (snd e)" by blast
    then have "\<not> list_ex (expired now \<circ> snd) Q" "filter (due now \<circ> snd) Q = []"
      by (auto simp: list_ex_iff filter_empty_conv)
    with Some True idle show ?thesis by (simp add: CollectDue_alive collected_none)
  next
    case False
    show ?thesis
    proof (cases "list_ex (expired now \<circ> snd) Q")
      case True
      with CollectDue_expired [OF True] Some False show ?thesis by simp
    next
      case alive: False
      with False NextDeadline_before [OF Some] have "filter (due now \<circ> snd) Q \<noteq> []"
        by (auto simp: list_ex_iff filter_empty_conv)
      with CollectDue_alive [OF alive] Some False show ?thesis by simp
    qed
  qed
qed

definition sample_queue :: ReliableCommandQueue where
  "sample_queue = [(SequenceKey 1 0, new_pending 1 0 [1] 0), (SequenceKey 2 0, new_pending 2 0 [2] 100)]"

lemma sample_queue_inv: "queue_inv sample_queue"
  by (simp add: sample_queue_def queue_inv_def sm_ok_def pending_ok_def SequenceKey_less_iff key_nat_def
      MaxPendingCommands_def InitialRetryDelay_def)

theorem acknowledge_exact_witness:
  "case queue_Acknowledge 2 sample_queue of
     (Inl e, Q') \<Rightarrow> False
   | (Inr a, Q') \<Rightarrow> a = Some \<lparr>ak_firstSent = 100, ak_retransmitted = False\<rparr> \<and>
       queue_inv Q' \<and> pending_of Q' = (pending_of sample_queue)(2 := None)"
proof -
  have entry: "pending_of sample_queue 2 = Some (new_pending 2 0 [2] 100)"
    by (simp add: sample_queue_def)
  show ?thesis
    using acknowledge_exact [OF sample_queue_inv, of 2] unfolding entry by (simp split: prod.splits sum.splits)
qed

theorem add_exact_witness:
  "case queue_Add 3 0 [3] 200 sample_queue of
     (Inl e, Q') \<Rightarrow> False
   | (Inr _, Q') \<Rightarrow> queue_inv Q'"
  using add_exact [OF sample_queue_inv, of 3 0 "[3]" 200]
  by (auto simp: sample_queue_def queue_Contains_def MaxPendingCommands_def split: prod.splits sum.splits)


end
