(* ===== verification/Statistics.thy ===== *)
theory Statistics
  imports Reliable_Queue
begin

text \<open>
  \<open>ConnectionStatistics\<close> (\<open>protocol/src/connection_statistics.cpp\<close>): traffic counters, sliding
  windows of traffic and loss, the per-type loss tracker and the smoothed round-trip time.

  The round-trip time, the rates and the loss fractions are \<open>double\<close>s. The model fixes no
  arithmetic for them: the operations the code applies are the fields of the record \<open>Double\<close>, a
  parameter of the definitions, over a type \<open>'d\<close> of double values. Counters are 64-bit words.
  The signed loss of a sample is an \<open>int\<close>: a single observation changes it by less than
  \<open>2 ^ 16\<close>, and a window sums the samples of two seconds.
\<close>

section \<open>Model\<close>

record 'd Double =
  dbl_lit :: "int \<Rightarrow> 'd"
  dbl_of_u64 :: "u64 \<Rightarrow> 'd"
  dbl_seconds :: "time \<Rightarrow> 'd"
  dbl_millis :: "time \<Rightarrow> 'd"
  dbl_add :: "'d \<Rightarrow> 'd \<Rightarrow> 'd"
  dbl_sub :: "'d \<Rightarrow> 'd \<Rightarrow> 'd"
  dbl_mul :: "'d \<Rightarrow> 'd \<Rightarrow> 'd"
  dbl_div :: "'d \<Rightarrow> 'd \<Rightarrow> 'd"
  dbl_abs :: "'d \<Rightarrow> 'd"
  dbl_less :: "'d \<Rightarrow> 'd \<Rightarrow> bool"
  dbl_le :: "'d \<Rightarrow> 'd \<Rightarrow> bool"
  dbl_llround :: "'d \<Rightarrow> int"
  dbl_to_string :: "'d \<Rightarrow> string"

datatype TrafficClass = Speech | Keepalive | Control

fun class_index :: "TrafficClass \<Rightarrow> nat" where
  "class_index Speech = 0"
| "class_index Keepalive = 1"
| "class_index Control = 2"

record TrafficCounters =
  tc_packets :: u64
  tc_bytes :: u64
  tc_bandwidthLastSecond :: u64
  tc_bandwidthLastMinute :: u64

record LossDelta =
  ld_expected :: u64
  ld_lost :: int

record LossTracker =
  lt_initialized :: bool
  lt_highestSequence :: u64
  lt_expected :: u64
  lt_confirmedLost :: u64
  lt_missing :: "u64 list"

definition new_LossTracker :: LossTracker where
  "new_LossTracker = \<lparr>lt_initialized = False, lt_highestSequence = 0, lt_expected = 0, lt_confirmedLost = 0, lt_missing = []\<rparr>"

definition ReorderRetention :: u64 where "ReorderRetention = 4096"

record LossSample =
  ls_time :: time
  ls_expected :: u64
  ls_lost :: int

record TrafficSample =
  ts_time :: time
  ts_bytes :: u64

type_synonym LossWindow = "LossSample list"
type_synonym TrafficWindow = "TrafficSample list"

definition loss_Lost :: "LossTracker \<Rightarrow> u64" where
  "loss_Lost t = lt_confirmedLost t + of_nat (length (lt_missing t))"

text \<open>The lambda \<open>result\<close> of \<open>Observe\<close>: the change against the values at entry.\<close>

definition loss_delta :: "LossTracker \<Rightarrow> LossTracker \<Rightarrow> LossDelta" where
  "loss_delta before after =
     \<lparr>ld_expected = lt_expected after - lt_expected before,
      ld_lost = (if loss_Lost after \<ge> loss_Lost before then int (unat (loss_Lost after - loss_Lost before))
                 else - int (unat (loss_Lost before - loss_Lost after)))\<rparr>"

definition loss_forward :: "u16 \<Rightarrow> LossTracker \<Rightarrow> LossTracker" where
  "loss_forward forwardDistance t =
     (let previousHighest = lt_highestSequence t;
          highest = previousHighest + ucast forwardDistance;
          gap = (ucast forwardDistance - 1 :: u64);
          retainedGap = min gap ReorderRetention;
          firstRetained = highest - retainedGap;
          missing = fold (\<lambda>s m. if s > previousHighest then ss_insert s m else m)
                      (map of_nat [unat firstRetained ..< unat highest]) (lt_missing t);
          oldestRetained = (if highest > ReorderRetention then highest - ReorderRetention else 0)
      in t\<lparr>lt_highestSequence := highest, lt_expected := lt_expected t + ucast forwardDistance,
           lt_confirmedLost := lt_confirmedLost t + (gap - retainedGap) +
                                 of_nat (length (takeWhile (\<lambda>s. s < oldestRetained) missing)),
           lt_missing := dropWhile (\<lambda>s. s < oldestRetained) missing\<rparr>)"

definition loss_Observe :: "u16 \<Rightarrow> LossTracker \<Rightarrow> LossDelta \<times> LossTracker" where
  "loss_Observe packetId t =
     (let highestPacketId = (ucast (lt_highestSequence t) :: u16);
          forwardDistance = packetId - highestPacketId;
          backwardDistance = highestPacketId - packetId;
          t' = (if \<not> lt_initialized t
                then t\<lparr>lt_initialized := True, lt_highestSequence := ucast packetId, lt_expected := 1\<rparr>
                else if forwardDistance = 0 then t
                else if forwardDistance < 0x8000 then loss_forward forwardDistance t
                else if ucast backwardDistance > lt_highestSequence t then t
                else t\<lparr>lt_missing := ss_erase (lt_highestSequence t - ucast backwardDistance) (lt_missing t)\<rparr>)
      in (loss_delta t t', t'))"

definition lwindow_Add :: "time \<Rightarrow> LossDelta \<Rightarrow> LossWindow \<Rightarrow> LossWindow" where
  "lwindow_Add now delta samples =
     (let samples = dropWhile (\<lambda>s. now - ls_time s > seconds 2) samples
      in if ld_expected delta = 0 \<and> ld_lost delta = 0 then samples
         else samples @ [\<lparr>ls_time = now, ls_expected = ld_expected delta, ls_lost = ld_lost delta\<rparr>])"

definition lwindow_Totals :: "time \<Rightarrow> time \<Rightarrow> LossWindow \<Rightarrow> u64 \<times> u64" where
  "lwindow_Totals now window samples =
     (let start = now - window;
          counted = filter (\<lambda>s. \<not> (ls_time s < start \<or> ls_time s > now)) samples;
          expected = sum_list (map ls_expected counted);
          lost = sum_list (map ls_lost counted)
      in if lost \<le> 0 \<or> expected = 0 then (0, expected) else (min (of_int lost) expected, expected))"

definition twindow_Add :: "time \<Rightarrow> nat \<Rightarrow> TrafficWindow \<Rightarrow> TrafficWindow" where
  "twindow_Add now packetBytes samples =
     dropWhile (\<lambda>s. now - ts_time s > seconds 60) samples @ [\<lparr>ts_time = now, ts_bytes = of_nat packetBytes\<rparr>]"

definition twindow_Rate :: "'d Double \<Rightarrow> time \<Rightarrow> time \<Rightarrow> time \<Rightarrow> TrafficWindow \<Rightarrow> u64" where
  "twindow_Rate fp now statisticsStartedAt window samples =
     (if now \<le> statisticsStartedAt then 0
      else let effectiveStart = max (now - window) statisticsStartedAt;
               bytes = sum_list (map ts_bytes (filter (\<lambda>s. ts_time s \<ge> effectiveStart \<and> ts_time s \<le> now) samples));
               elapsed = now - effectiveStart;
               elapsed = (if elapsed < seconds 1 then seconds 1 else elapsed);
               rate = dbl_div fp (dbl_of_u64 fp bytes) (dbl_seconds fp elapsed)
           in if dbl_le fp rate (dbl_lit fp 0) then 0
              else if dbl_le fp (dbl_of_u64 fp (- 1)) rate then - 1
              else of_int (dbl_llround fp rate))"

record 'd ConnectionStatistics =
  cs_sent :: "TrafficCounters list"
  cs_received :: "TrafficCounters list"
  cs_sentWindows :: "TrafficWindow list"
  cs_receivedWindows :: "TrafficWindow list"
  cs_loss :: "LossTracker list"
  cs_lossWindows :: "LossWindow list"
  cs_startedAt :: time
  cs_hasRtt :: bool
  cs_pingMs :: 'd
  cs_pingDeviationMs :: 'd

definition PacketTypeCount :: nat where "PacketTypeCount = 9"

definition zero_counters :: TrafficCounters where
  "zero_counters = \<lparr>tc_packets = 0, tc_bytes = 0, tc_bandwidthLastSecond = 0, tc_bandwidthLastMinute = 0\<rparr>"

text \<open>The members after \<open>Reset\<close>, which are also their default initialisers.\<close>

definition statistics_Reset :: "'d Double \<Rightarrow> time \<Rightarrow> 'd ConnectionStatistics \<Rightarrow> 'd ConnectionStatistics" where
  "statistics_Reset fp now s = s\<lparr>cs_sent := replicate 3 zero_counters, cs_received := replicate 3 zero_counters,
     cs_sentWindows := map (\<lambda>_. []) (cs_sentWindows s), cs_receivedWindows := map (\<lambda>_. []) (cs_receivedWindows s),
     cs_loss := replicate PacketTypeCount new_LossTracker,
     cs_lossWindows := map (\<lambda>_. []) (cs_lossWindows s), cs_startedAt := now, cs_hasRtt := False,
     cs_pingMs := dbl_lit fp 0, cs_pingDeviationMs := dbl_lit fp 0\<rparr>"

definition initial_statistics :: "'d Double \<Rightarrow> time \<Rightarrow> 'd ConnectionStatistics" where
  "initial_statistics fp now = \<lparr>cs_sent = replicate 3 zero_counters, cs_received = replicate 3 zero_counters,
     cs_sentWindows = replicate 3 [], cs_receivedWindows = replicate 3 [],
     cs_loss = replicate PacketTypeCount new_LossTracker, cs_lossWindows = replicate PacketTypeCount [], cs_startedAt = now,
     cs_hasRtt = False, cs_pingMs = dbl_lit fp 0, cs_pingDeviationMs = dbl_lit fp 0\<rparr>"

fun Classify :: "PacketType \<Rightarrow> TrafficClass option" where
  "Classify Voice = Some Speech"
| "Classify VoiceWhisper = Some Speech"
| "Classify Ping = Some Keepalive"
| "Classify Pong = Some Keepalive"
| "Classify CommandType = Some Control"
| "Classify CommandLow = Some Control"
| "Classify Ack = Some Control"
| "Classify AckLow = Some Control"
| "Classify Init1 = None"
| "Classify (UnknownType v) = None"

fun TracksIncomingLoss :: "PacketType \<Rightarrow> bool" where
  "TracksIncomingLoss Voice = True"
| "TracksIncomingLoss VoiceWhisper = True"
| "TracksIncomingLoss Ping = True"
| "TracksIncomingLoss Pong = True"
| "TracksIncomingLoss Ack = True"
| "TracksIncomingLoss AckLow = True"
| "TracksIncomingLoss _ = False"

definition TypeIndex :: "PacketType \<Rightarrow> nat result" where
  "TypeIndex type =
     (let v = packet_type_value type
      in if unat v \<ge> PacketTypeCount then Inl (RuntimeError ''Invalid packet type for connection statistics'')
         else Inr (unat v))"

definition count_packet :: "nat \<Rightarrow> TrafficCounters \<Rightarrow> TrafficCounters" where
  "count_packet packetBytes c = c\<lparr>tc_packets := tc_packets c + 1, tc_bytes := tc_bytes c + of_nat packetBytes\<rparr>"

definition RecordSent :: "PacketType \<Rightarrow> nat \<Rightarrow> time \<Rightarrow> 'd ConnectionStatistics \<Rightarrow> 'd ConnectionStatistics" where
  "RecordSent type packetBytes now s =
     (case Classify type of
        None \<Rightarrow> s
      | Some c \<Rightarrow>
          (let i = class_index c
           in s\<lparr>cs_sent := (cs_sent s)[i := count_packet packetBytes (cs_sent s ! i)],
                cs_sentWindows := (cs_sentWindows s)[i := twindow_Add now packetBytes (cs_sentWindows s ! i)]\<rparr>))"

definition RecordReceived ::
  "PacketType \<Rightarrow> u16 \<Rightarrow> nat \<Rightarrow> time \<Rightarrow> ('d ConnectionStatistics, unit) op" where
  "RecordReceived type packetId packetBytes now s =
     (case Classify type of
        None \<Rightarrow> (Inr (), s)
      | Some c \<Rightarrow>
          (let i = class_index c;
               s = s\<lparr>cs_received := (cs_received s)[i := count_packet packetBytes (cs_received s ! i)],
                     cs_receivedWindows := (cs_receivedWindows s)[i := twindow_Add now packetBytes (cs_receivedWindows s ! i)]\<rparr>
           in if TracksIncomingLoss type then
                (case TypeIndex type of
                   Inl e \<Rightarrow> (Inl e, s)
                 | Inr k \<Rightarrow>
                     (let (delta, tracker) = loss_Observe packetId (cs_loss s ! k)
                      in (Inr (), s\<lparr>cs_loss := (cs_loss s)[k := tracker],
                            cs_lossWindows := (cs_lossWindows s)[k := lwindow_Add now delta (cs_lossWindows s ! k)]\<rparr>)))
              else (Inr (), s)))"

definition RecordRtt :: "'d Double \<Rightarrow> time \<Rightarrow> 'd ConnectionStatistics \<Rightarrow> 'd ConnectionStatistics" where
  "RecordRtt fp rtt s =
     (let sampleMs = dbl_millis fp rtt
      in if dbl_less fp sampleMs (dbl_lit fp 0) then s
         else if \<not> cs_hasRtt s
         then s\<lparr>cs_hasRtt := True, cs_pingMs := sampleMs, cs_pingDeviationMs := dbl_div fp sampleMs (dbl_lit fp 2)\<rparr>
         else let Alpha = dbl_div fp (dbl_lit fp 1) (dbl_lit fp 8); Beta = dbl_div fp (dbl_lit fp 1) (dbl_lit fp 4);
                  difference = dbl_abs fp (dbl_sub fp (cs_pingMs s) sampleMs);
                  deviation = dbl_add fp (dbl_mul fp (dbl_sub fp (dbl_lit fp 1) Beta) (cs_pingDeviationMs s))
                                (dbl_mul fp Beta difference);
                  ping = dbl_add fp (dbl_mul fp (dbl_sub fp (dbl_lit fp 1) Alpha) (cs_pingMs s))
                           (dbl_mul fp Alpha sampleMs)
              in s\<lparr>cs_pingDeviationMs := deviation, cs_pingMs := ping\<rparr>)"

definition LossFraction :: "'d Double \<Rightarrow> u64 \<Rightarrow> u64 \<Rightarrow> 'd" where
  "LossFraction fp lost expected =
     (if expected = 0 then dbl_lit fp 0 else dbl_div fp (dbl_of_u64 fp lost) (dbl_of_u64 fp expected))"

definition LossTotals :: "TrafficClass \<Rightarrow> time \<Rightarrow> 'd ConnectionStatistics \<Rightarrow> u64 \<times> u64" where
  "LossTotals trafficClass now s =
     fold (\<lambda>index (lost, expected).
        let type = packet_type_of (of_nat index)
        in if Classify type \<noteq> Some trafficClass \<or> \<not> TracksIncomingLoss type then (lost, expected)
           else let totals = lwindow_Totals now (seconds 1) (cs_lossWindows s ! index)
                in (lost + fst totals, expected + snd totals))
       [0 ..< PacketTypeCount] (0, 0)"

record 'd Snapshot =
  ss_pingMs :: 'd
  ss_pingDeviationMs :: 'd
  ss_sentSpeech :: TrafficCounters
  ss_sentKeepalive :: TrafficCounters
  ss_sentControl :: TrafficCounters
  ss_receivedSpeech :: TrafficCounters
  ss_receivedKeepalive :: TrafficCounters
  ss_receivedControl :: TrafficCounters
  ss_packetLossSpeech :: 'd
  ss_packetLossKeepalive :: 'd
  ss_packetLossControl :: 'd
  ss_packetLossTotal :: 'd

definition snapshot_counters ::
  "'d Double \<Rightarrow> time \<Rightarrow> time \<Rightarrow> TrafficCounters list \<Rightarrow> TrafficWindow list \<Rightarrow> TrafficClass \<Rightarrow> TrafficCounters" where
  "snapshot_counters fp now startedAt counters windows c =
     (counters ! class_index c)
       \<lparr>tc_bandwidthLastSecond := twindow_Rate fp now startedAt (seconds 1) (windows ! class_index c),
        tc_bandwidthLastMinute := twindow_Rate fp now startedAt (seconds 60) (windows ! class_index c)\<rparr>"

definition GetSnapshot :: "'d Double \<Rightarrow> time \<Rightarrow> 'd ConnectionStatistics \<Rightarrow> 'd Snapshot" where
  "GetSnapshot fp now s =
     (let sent = snapshot_counters fp now (cs_startedAt s) (cs_sent s) (cs_sentWindows s);
          received = snapshot_counters fp now (cs_startedAt s) (cs_received s) (cs_receivedWindows s);
          speech = LossTotals Speech now s; keepalive = LossTotals Keepalive now s; control = LossTotals Control now s
      in \<lparr>ss_pingMs = cs_pingMs s, ss_pingDeviationMs = cs_pingDeviationMs s,
          ss_sentSpeech = sent Speech, ss_sentKeepalive = sent Keepalive, ss_sentControl = sent Control,
          ss_receivedSpeech = received Speech, ss_receivedKeepalive = received Keepalive,
          ss_receivedControl = received Control,
          ss_packetLossSpeech = LossFraction fp (fst speech) (snd speech),
          ss_packetLossKeepalive = LossFraction fp (fst keepalive) (snd keepalive),
          ss_packetLossControl = LossFraction fp (fst control) (snd control),
          ss_packetLossTotal = LossFraction fp (fst speech + fst keepalive + fst control)
                                 (snd speech + snd keepalive + snd control)\<rparr>)"

section \<open>The loss tracker\<close>

definition loss_inv :: "LossTracker \<Rightarrow> bool" where
  "loss_inv t \<longleftrightarrow>
     (if lt_initialized t then
        ss_ok (lt_missing t) \<and>
        (\<forall>s \<in> set (lt_missing t). unat s < unat (lt_highestSequence t) \<and> unat (lt_highestSequence t) \<le> unat s + 4096) \<and>
        unat (lt_confirmedLost t) + length (lt_missing t) < unat (lt_expected t) \<and>
        unat (lt_expected t) \<le> Suc (unat (lt_highestSequence t))
      else t = new_LossTracker)"

definition lost_packets :: "LossTracker \<Rightarrow> nat" where
  "lost_packets t = unat (lt_confirmedLost t) + length (lt_missing t)"

lemma fold_ss_insert:
  "set (fold (\<lambda>s m. if P s then ss_insert s m else m) xs m) = set m \<union> {x \<in> set xs. P x}"
  "ss_ok m \<Longrightarrow> ss_ok (fold (\<lambda>s m. if P s then ss_insert s m else m) xs m)"
  by (induction xs arbitrary: m) auto

lemma unat_plus_no_wrap: "unat a + unat b < 2 ^ LENGTH('a) \<Longrightarrow> unat (a + b :: 'a::len word) = unat a + unat b"
  by (simp add: unat_word_ariths)

lemma ss_ok_dropWhile: "ss_ok s \<Longrightarrow> ss_ok (dropWhile P s)"
  unfolding ss_ok_def by (metis sorted_wrt_append takeWhile_dropWhile_id)

lemma dropWhile_below: "ss_ok s \<Longrightarrow> x \<in> set (dropWhile (\<lambda>s. s < b) s) \<Longrightarrow> x \<in> set s \<and> b \<le> x"
  by (induction s) (auto simp: ss_ok_def split: if_splits)

text \<open>The positions recorded as missing between the old and the new highest one.\<close>

lemma retained_gap:
  fixes h :: u64
  assumes "unat h + d < 2 ^ 64" "0 < d" "r \<le> d - 1" "ss_ok m" "\<forall>s \<in> set m. s < h"
    and m': "m' = fold (\<lambda>s m. if s > h then ss_insert s m else m) (map of_nat [unat h + d - r ..< unat h + d]) m"
  shows "length m' = length m + r" and "ss_ok m'"
    and "\<forall>s \<in> set m'. s \<in> set m \<or> unat h + d - r \<le> unat s \<and> unat s < unat h + d"
proof -
  have val: "unat (of_nat i :: u64) = i" if "i < unat h + d" for i
    using that assms(1) by (simp add: unat_of_nat)
  let ?new = "(of_nat :: nat \<Rightarrow> u64) ` {unat h + d - r ..< unat h + d}"
  have above: "h < of_nat i" if "i \<in> {unat h + d - r ..< unat h + d}" for i
    using that assms(2,3) val [of i] by (auto simp: word_less_nat_alt)
  have set: "set m' = set m \<union> ?new"
    unfolding m' fold_ss_insert using above by auto
  show "ss_ok m'" unfolding m' by (rule fold_ss_insert(2) [OF assms(4)])
  have "inj_on (of_nat :: nat \<Rightarrow> u64) {unat h + d - r ..< unat h + d}"
    by (rule inj_on_inverseI [of _ unat]) (simp add: val)
  then have "card ?new = r" using assms(3) by (simp add: card_image)
  moreover have "set m \<inter> ?new = {}" using assms(5) above by force
  ultimately have "card (set m') = card (set m) + r"
    unfolding set by (simp add: card_Un_disjoint)
  then show "length m' = length m + r"
    using ss_length_card [OF \<open>ss_ok m'\<close>] ss_length_card [OF assms(4)] by simp
  show "\<forall>s \<in> set m'. s \<in> set m \<or> unat h + d - r \<le> unat s \<and> unat s < unat h + d"
    unfolding set using val by auto
qed

lemma loss_forward_counts:
  assumes inv: "loss_inv t" "lt_initialized t" and big: "unat (lt_highestSequence t) + 65536 < 2 ^ 64" and d: "fd \<noteq> 0"
  shows "unat (lt_highestSequence (loss_forward fd t)) = unat (lt_highestSequence t) + unat fd" (is ?h)
    and "unat (lt_expected (loss_forward fd t)) = unat (lt_expected t) + unat fd" (is ?e)
    and "Suc (lost_packets (loss_forward fd t)) = lost_packets t + unat fd" (is ?l)
    and "loss_inv (loss_forward fd t)" (is ?i)
proof -
  let ?t = "loss_forward fd t"
  define h g r where "h = lt_highestSequence t" and "g = (ucast fd - 1 :: u64)" and "r = min g ReorderRetention"
  have fd: "0 < unat fd" "unat fd < 65536" using d u16_less [of fd] by (simp_all add: unat_gt_0)
  have cast: "unat (ucast fd :: u64) = unat fd" by (simp add: unat_ucast_up)
  have g: "unat g = unat fd - 1"
    unfolding g_def using fd(1) cast by (subst unat_sub) (simp_all add: word_le_nat_alt)
  have r: "unat r = min (unat fd - 1) 4096"
    unfolding r_def ReorderRetention_def by (simp add: min_def word_le_nat_alt g)
  have H: "unat (h + ucast fd) = unat h + unat fd"
    using big fd cast by (subst unat_plus_no_wrap) (simp_all add: h_def)
  have first: "unat (h + ucast fd - r) = unat h + unat fd - unat r"
    by (subst unat_sub) (use r fd in \<open>simp_all add: word_le_nat_alt H\<close>)
  define m where "m = fold (\<lambda>s m. if s > h then ss_insert s m else m)
      (map of_nat [unat h + unat fd - unat r ..< unat h + unat fd]) (lt_missing t)"
  have inv': "ss_ok (lt_missing t)" "\<forall>s \<in> set (lt_missing t). s < h"
      "unat (lt_confirmedLost t) + length (lt_missing t) < unat (lt_expected t)" "unat (lt_expected t) \<le> Suc (unat h)"
    using inv by (auto simp: loss_inv_def h_def word_less_nat_alt)
  note gap = retained_gap [OF _ fd(1) _ inv'(1,2) m_def]
  have m: "length m = length (lt_missing t) + unat r" "ss_ok m"
      "\<forall>s \<in> set m. s \<in> set (lt_missing t) \<or> unat h + unat fd - unat r \<le> unat s \<and> unat s < unat h + unat fd"
    using gap big fd(2) r by (simp_all add: h_def)
  define old where "old = (if h + ucast fd > ReorderRetention then h + ucast fd - ReorderRetention else 0)"
  have old: "unat old = unat h + unat fd - 4096"
  proof (cases "h + ucast fd > ReorderRetention")
    case True
    then have "ReorderRetention \<le> h + ucast fd" by simp
    then show ?thesis using True by (simp add: old_def unat_sub H) (simp add: ReorderRetention_def)
  next
    case False
    then show ?thesis using H by (simp add: old_def word_less_nat_alt ReorderRetention_def)
  qed
  have t: "?t = t\<lparr>lt_highestSequence := h + ucast fd, lt_expected := lt_expected t + ucast fd,
      lt_confirmedLost := lt_confirmedLost t + (g - r) + of_nat (length (takeWhile (\<lambda>s. s < old) m)),
      lt_missing := dropWhile (\<lambda>s. s < old) m\<rparr>"
    by (simp add: loss_forward_def Let_def h_def [symmetric] g_def [symmetric] r_def [symmetric] H first
        m_def [symmetric] old_def [symmetric])
  show ?h using H by (simp add: t h_def)
  have E: "unat (lt_expected t + ucast fd) = unat (lt_expected t) + unat fd"
    using big fd cast inv'(4) by (subst unat_plus_no_wrap) (simp_all add: h_def)
  then show ?e by (simp add: t)
  have split: "length (takeWhile (\<lambda>s. s < old) m) + length (dropWhile (\<lambda>s. s < old) m) = length m"
    by (metis length_append takeWhile_dropWhile_id)
  have gr: "unat (g - r) = unat g - unat r"
    by (rule unat_sub) (simp add: word_le_nat_alt g r)
  then have gr': "unat (g - r) + unat r = unat fd - 1" using g r by linarith
  have "unat (lt_confirmedLost t) + unat (g - r) + length (takeWhile (\<lambda>s. s < old) m) < 2 ^ 64"
    using inv'(3,4) split m(1) gr' big fd(2) unfolding h_def by simp
  then have C: "unat (lt_confirmedLost ?t) = unat (lt_confirmedLost t) + unat (g - r) + length (takeWhile (\<lambda>s. s < old) m)"
    by (simp add: t unat_plus_no_wrap unat_of_nat)
  show L: ?l using C split m(1) gr' fd(1) by (simp add: lost_packets_def t)
  have below: "unat s < unat h + unat fd \<and> unat h + unat fd \<le> unat s + 4096" if s: "s \<in> set (dropWhile (\<lambda>s. s < old) m)" for s
  proof -
    have "s \<in> set m" "old \<le> s" using dropWhile_below [OF m(2) s] by auto
    then have "unat s < unat h + unat fd" using m(3) inv'(2)
      by (metis word_less_nat_alt trans_less_add1)
    moreover have "unat h + unat fd \<le> unat s + 4096"
      using \<open>old \<le> s\<close> old by (simp add: word_le_nat_alt)
    ultimately show ?thesis by simp
  qed
  show ?i
    using L inv(2) inv'(3,4) E H below ss_ok_dropWhile [OF m(2)]
    by (simp add: loss_inv_def lost_packets_def t)
qed

section \<open>Properties\<close>

lemma loss_late_counts:
  assumes inv: "loss_inv t" "lt_initialized t"
    and t': "t' = t\<lparr>lt_missing := ss_erase q (lt_missing t)\<rparr>"
  shows "loss_inv t'" and "lost_packets t = lost_packets t' + (if q \<in> set (lt_missing t) then 1 else 0)"
    and "length (lt_missing t') \<le> length (lt_missing t)"
proof -
  have ok: "ss_ok (lt_missing t)" "ss_ok (lt_missing t')" using inv by (simp_all add: loss_inv_def t')
  have "length (lt_missing t) = length (lt_missing t') + (if q \<in> set (lt_missing t) then 1 else 0)"
    using ss_length_card [OF ok(1)] ss_length_card [OF ok(2)] card_Suc_Diff1 [of "set (lt_missing t)" q]
    by (auto simp: t')
  then show "lost_packets t = lost_packets t' + (if q \<in> set (lt_missing t) then 1 else 0)"
      and "length (lt_missing t') \<le> length (lt_missing t)" and "loss_inv t'"
    using inv by (auto simp: lost_packets_def loss_inv_def t' split: if_splits)
qed

lemma missing_bound: "loss_inv t \<Longrightarrow> length (lt_missing t) \<le> 4096"
proof (cases "lt_initialized t")
  case True
  let ?h = "unat (lt_highestSequence t)"
  assume inv: "loss_inv t"
  then have "unat ` set (lt_missing t) \<subseteq> {?h - 4096 ..< ?h}" using True by (fastforce simp: loss_inv_def)
  then have "card (set (lt_missing t)) \<le> card {?h - 4096 ..< ?h}"
    by (intro card_inj_on_le [of unat]) (simp_all add: inj_on_def word_unat_eq_iff)
  then show ?thesis using inv True ss_length_card [of "lt_missing t"] by (simp add: loss_inv_def)
qed (simp add: loss_inv_def new_LossTracker_def)

text \<open>
  The loss tracker counts exactly. The first packet starts the count. A packet ahead of the
  highest one moves the highest position to it, expects every position up to it and counts each
  skipped position as lost, however large the gap; a packet behind takes back one lost position
  if it was still recorded as missing, and a repeated packet changes nothing. At most 4096
  positions are recorded, fewer packets are lost than expected, and the low 16 bits of the
  highest position are the id of a packet that moved it.
\<close>

theorem loss_tracker_counts:
  assumes "loss_inv t" and "unat (lt_highestSequence t) + 65536 < 2 ^ 64" and "loss_Observe packetId t = (delta, t')"
  shows "loss_inv t' \<and> length (lt_missing t') \<le> 4096 \<and> lost_packets t' < unat (lt_expected t') \<and>
    (let distance = packetId - ucast (lt_highestSequence t)
     in if \<not> lt_initialized t then lost_packets t' = 0 \<and> lt_expected t' = 1 \<and> lt_highestSequence t' = ucast packetId
        else if distance = 0 then t' = t
        else if distance < 0x8000
        then unat (lt_highestSequence t') = unat (lt_highestSequence t) + unat distance \<and>
             unat (lt_expected t') = unat (lt_expected t) + unat distance \<and>
             lost_packets t' + 1 = lost_packets t + unat distance \<and>
             ucast (lt_highestSequence t') = packetId
        else lt_highestSequence t' = lt_highestSequence t \<and> lt_expected t' = lt_expected t \<and>
             lost_packets t = lost_packets t' + (if ucast (- distance) \<le> lt_highestSequence t \<and>
                 lt_highestSequence t - ucast (- distance) \<in> set (lt_missing t) then 1 else 0))"
proof -
  define d where "d = packetId - ucast (lt_highestSequence t)"
  have eq: "lt_highestSequence (loss_forward d t) = lt_highestSequence t + ucast d"
    by (simp add: loss_forward_def Let_def)
  have "ucast (lt_highestSequence t + ucast d) = (ucast (lt_highestSequence t) :: u16) + d"
    by (rule word_unat_eq_iff [THEN iffD2], use u16_less [of d] in
       \<open>simp add: unat_word_ariths unsigned_ucast_eq take_bit_eq_mod unat_ucast_up mod_add_left_eq mod_mod_cancel\<close>)
  then have low: "ucast (lt_highestSequence (loss_forward d t)) = packetId" unfolding eq by (simp add: d_def)
  have step: "loss_inv t' \<and>
    (if \<not> lt_initialized t then lost_packets t' = 0 \<and> lt_expected t' = 1 \<and> lt_highestSequence t' = ucast packetId
     else if d = 0 then t' = t
     else if d < 0x8000
     then unat (lt_highestSequence t') = unat (lt_highestSequence t) + unat d \<and>
          unat (lt_expected t') = unat (lt_expected t) + unat d \<and> lost_packets t' + 1 = lost_packets t + unat d \<and>
          ucast (lt_highestSequence t') = packetId
     else lt_highestSequence t' = lt_highestSequence t \<and> lt_expected t' = lt_expected t \<and>
          lost_packets t = lost_packets t' + (if ucast (- d) \<le> lt_highestSequence t \<and>
                 lt_highestSequence t - ucast (- d) \<in> set (lt_missing t) then 1 else 0))"
  proof (cases "lt_initialized t")
    case False
    then have "t = new_LossTracker" using assms(1) by (simp add: loss_inv_def)
    then show ?thesis using assms(3) False
      by (auto simp: loss_Observe_def Let_def loss_inv_def lost_packets_def new_LossTracker_def ss_ok_def)
  next
    case True
    consider "d = 0" | "d \<noteq> 0" "d < 0x8000" | "\<not> d < 0x8000" "d \<noteq> 0" by blast
    then show ?thesis
    proof cases
      case 1
      with True assms show ?thesis by (auto simp: loss_Observe_def Let_def d_def)
    next
      case 2
      then have "t' = loss_forward d t" using True assms(3) by (auto simp: loss_Observe_def Let_def d_def)
      then show ?thesis
        using loss_forward_counts [OF assms(1) True assms(2) 2(1)] 2 True low by simp
    next
      case 3
      define q where "q = lt_highestSequence t - ucast (- d)"
      have t': "t' = (if ucast (- d) > lt_highestSequence t then t else t\<lparr>lt_missing := ss_erase q (lt_missing t)\<rparr>)"
        using 3 True assms(3) by (auto simp: loss_Observe_def Let_def d_def q_def)
      show ?thesis
        using 3 True assms(1) loss_late_counts [OF assms(1) True refl, of q] t' by (auto simp: q_def [symmetric])
    qed
  qed
  have "lost_packets t' < unat (lt_expected t')"
  proof (cases "lt_initialized t'")
    case True
    then show ?thesis using step by (auto simp: loss_inv_def lost_packets_def)
  next
    case False
    moreover have "lt_initialized t'" using assms(3)
      by (auto simp: loss_Observe_def Let_def loss_forward_def split: if_splits)
    ultimately show ?thesis by simp
  qed
  with step missing_bound [of t'] show ?thesis unfolding d_def Let_def by blast
qed

theorem loss_tracker_counts_witness:
  "\<exists>t'. snd (loss_Observe 13 (snd (loss_Observe 10 new_LossTracker))) = t' \<and> lost_packets t' = 2 \<and> unat (lt_expected t') = 4"
proof -
  let ?t = "snd (loss_Observe 10 new_LossTracker)"
  have t: "?t = \<lparr>lt_initialized = True, lt_highestSequence = 10, lt_expected = 1, lt_confirmedLost = 0, lt_missing = []\<rparr>"
    by (simp add: loss_Observe_def Let_def new_LossTracker_def)
  have inv: "loss_inv ?t" unfolding t by (simp add: loss_inv_def ss_ok_def)
  obtain delta t' where o: "loss_Observe 13 ?t = (delta, t')" by (rule prod.exhaust)
  show ?thesis
    using loss_tracker_counts [OF inv _ o] o unfolding t by (simp add: Let_def lost_packets_def)
qed

end
