(* ===== verification/Session_Crypto.thy ===== *)
theory Session_Crypto
  imports Packet
begin

text \<open>
  Packet encryption: \<open>protocol/src/crypto/aes_eax.cpp\<close> and \<open>protocol/src/crypto/session_crypto.cpp\<close>.
  The primitives come from OpenSSL and are parameters of the model, the record \<open>OpenSsl\<close>:
  CMAC over AES-128, AES-128 in counter mode and SHA-256, each returning an exception when the
  library reports a failure. What the sources build on top of them is modelled: the EAX
  composition, the truncated tag check and the derivation of key and nonce per packet.
\<close>

unbundle bit_operations_syntax

section \<open>The primitives\<close>

record OpenSsl =
  ssl_cmac :: "bytes \<Rightarrow> bytes \<Rightarrow> bytes result"
  ssl_ctr :: "bytes \<Rightarrow> bytes \<Rightarrow> bytes \<Rightarrow> bytes result"
  ssl_sha256 :: "bytes \<Rightarrow> bytes result"

text \<open>
  Counter mode as documented: the output is the input combined with a key stream that depends
  on the key and the initial counter only.
\<close>

definition ctr_xors_keystream :: "OpenSsl \<Rightarrow> bool" where
  "ctr_xors_keystream ssl \<longleftrightarrow>
     (\<exists>stream :: bytes \<Rightarrow> bytes \<Rightarrow> nat \<Rightarrow> u8. \<forall>key counter data.
        ssl_ctr ssl key counter data = Inr (map (\<lambda>i. data ! i XOR stream key counter i) [0 ..< length data]))"

section \<open>AES-EAX\<close>

record AesEaxEncryptedData =
  ae_tag :: bytes
  ae_data :: bytes

definition Omac :: "OpenSsl \<Rightarrow> bytes \<Rightarrow> u8 \<Rightarrow> bytes \<Rightarrow> bytes result" where
  "Omac ssl key domain data =
     res_bind (ssl_cmac ssl key (replicate 15 0 @ [domain] @ data)) (\<lambda>tag.
     if length tag \<noteq> 16 then Inl (RuntimeError ''Unexpected CMAC size'') else Inr tag)"

definition ComputeTag :: "OpenSsl \<Rightarrow> bytes \<Rightarrow> bytes \<Rightarrow> bytes \<Rightarrow> bytes \<Rightarrow> bytes result" where
  "ComputeTag ssl key nonceTag associatedData ciphertext =
     res_bind (Omac ssl key 0x01 associatedData) (\<lambda>headerTag.
     res_bind (Omac ssl key 0x02 ciphertext) (\<lambda>messageTag.
     Inr (map (\<lambda>i. nonceTag ! i XOR headerTag ! i XOR messageTag ! i) [0 ..< 16])))"

definition CryptCtr :: "OpenSsl \<Rightarrow> bytes \<Rightarrow> bytes \<Rightarrow> bytes \<Rightarrow> bytes result" where
  "CryptCtr ssl key data counter =
     (if length data > 2147483647 then Inl (RuntimeError ''AES-EAX input is too large'')
      else ssl_ctr ssl key counter data)"

definition AesEax_Encrypt :: "OpenSsl \<Rightarrow> bytes \<Rightarrow> bytes \<Rightarrow> bytes \<Rightarrow> bytes \<Rightarrow> AesEaxEncryptedData result" where
  "AesEax_Encrypt ssl key nonce associatedData data =
     res_bind (Omac ssl key 0x00 nonce) (\<lambda>nonceTag.
     res_bind (CryptCtr ssl key data nonceTag) (\<lambda>ciphertext.
     res_bind (ComputeTag ssl key nonceTag associatedData ciphertext) (\<lambda>tag.
     Inr \<lparr>ae_tag = tag, ae_data = ciphertext\<rparr>)))"

definition AesEax_Decrypt :: "OpenSsl \<Rightarrow> bytes \<Rightarrow> bytes \<Rightarrow> bytes \<Rightarrow> bytes \<Rightarrow> bytes \<Rightarrow> bytes option result" where
  "AesEax_Decrypt ssl key nonce associatedData data tag =
     (if tag = [] \<or> length tag > 16 then Inl (RuntimeError ''Invalid AES-EAX tag size'')
      else
        res_bind (Omac ssl key 0x00 nonce) (\<lambda>nonceTag.
        res_bind (ComputeTag ssl key nonceTag associatedData data) (\<lambda>expectedTag.
        if tag \<noteq> take (length tag) expectedTag then Inr None
        else res_bind (CryptCtr ssl key data nonceTag) (\<lambda>plaintext. Inr (Some plaintext)))))"

section \<open>Session keys\<close>

record SessionCrypto =
  sc_sharedIv :: bytes
  sc_sharedMac :: bytes

record SessionEncryptedData =
  se_mac :: bytes
  se_data :: bytes

record KeyNonce =
  kn_key :: bytes
  kn_nonce :: bytes

definition key_nonce_input :: "SessionCrypto \<Rightarrow> PacketType \<Rightarrow> bool \<Rightarrow> u32 \<Rightarrow> bytes" where
  "key_nonce_input c type clientToServer generationId =
     [if clientToServer then 0x31 else 0x30, packet_type_value type,
      ucast (drop_bit 24 generationId AND 0xff), ucast (drop_bit 16 generationId AND 0xff),
      ucast (drop_bit 8 generationId AND 0xff), ucast (generationId AND 0xff)] @ sc_sharedIv c"

definition Sha256 :: "OpenSsl \<Rightarrow> bytes \<Rightarrow> bytes result" where
  "Sha256 ssl data =
     res_bind (ssl_sha256 ssl data) (\<lambda>digest.
     if length digest \<noteq> 32 then Inl (RuntimeError ''Unexpected SHA-256 size'') else Inr digest)"

definition CreateKeyNonce :: "OpenSsl \<Rightarrow> SessionCrypto \<Rightarrow> PacketType \<Rightarrow> bool \<Rightarrow> u16 \<Rightarrow> u32 \<Rightarrow> KeyNonce result" where
  "CreateKeyNonce ssl c type clientToServer packetId generationId =
     res_bind (Sha256 ssl (key_nonce_input c type clientToServer generationId)) (\<lambda>digest.
     let key = take 16 digest;
         key = key[0 := key ! 0 XOR ucast (drop_bit 8 packetId AND 0xff)];
         key = key[1 := key ! 1 XOR ucast (packetId AND 0xff)]
     in Inr \<lparr>kn_key = key, kn_nonce = take 16 (drop 16 digest)\<rparr>)"

definition EncryptClient ::
  "OpenSsl \<Rightarrow> SessionCrypto \<Rightarrow> PacketType \<Rightarrow> u16 \<Rightarrow> u32 \<Rightarrow> bytes \<Rightarrow> bytes \<Rightarrow> SessionEncryptedData result" where
  "EncryptClient ssl c type packetId generationId meta data =
     res_bind (CreateKeyNonce ssl c type True packetId generationId) (\<lambda>keyNonce.
     res_bind (AesEax_Encrypt ssl (kn_key keyNonce) (kn_nonce keyNonce) meta data) (\<lambda>encrypted.
     Inr \<lparr>se_mac = take 8 (ae_tag encrypted), se_data = ae_data encrypted\<rparr>))"

definition DecryptServer :: "OpenSsl \<Rightarrow> SessionCrypto \<Rightarrow> ServerPacket \<Rightarrow> u32 \<Rightarrow> bytes result" where
  "DecryptServer ssl c packet generationId =
     (let h = sp_header packet in
      res_bind (CreateKeyNonce ssl c (sh_type h) False (sh_packetId h) generationId) (\<lambda>keyNonce.
      res_bind (AesEax_Decrypt ssl (kn_key keyNonce) (kn_nonce keyNonce) (sp_meta packet) (sp_data packet) (sh_mac h)) (\<lambda>plaintext.
      case plaintext of
        None \<Rightarrow> Inl (RuntimeError ''Invalid session packet MAC'')
      | Some p \<Rightarrow> Inr p)))"

section \<open>Lemmas\<close>

lemma ctr_involutive:
  assumes "ctr_xors_keystream ssl" and "ssl_ctr ssl key counter data = Inr out"
  shows "length out = length data" and "ssl_ctr ssl key counter out = Inr data"
proof -
  obtain stream :: "bytes \<Rightarrow> bytes \<Rightarrow> nat \<Rightarrow> u8" where stream: "\<And>key counter data.
      ssl_ctr ssl key counter data = Inr (map (\<lambda>i. data ! i XOR stream key counter i) [0 ..< length data])"
    using assms(1) unfolding ctr_xors_keystream_def by blast
  have out: "out = map (\<lambda>i. data ! i XOR stream key counter i) [0 ..< length data]"
    using assms(2) stream by simp
  then show "length out = length data" by simp
  have "map (\<lambda>i. out ! i XOR stream key counter i) [0 ..< length out] = data"
    by (rule nth_equalityI) (simp_all add: out xor.assoc)
  then show "ssl_ctr ssl key counter out = Inr data" using stream by simp
qed

lemma ComputeTag_length: "ComputeTag ssl key n a d = Inr tag \<Longrightarrow> length tag = 16"
  by (auto simp: ComputeTag_def res_bind_eq_Inr)

text \<open>What was sealed with a key and nonce is opened with them, with any truncation of the tag.\<close>

lemma eax_open_sealed:
  assumes ctr: "ctr_xors_keystream ssl"
    and enc: "AesEax_Encrypt ssl key nonce ad data = Inr sealed" and n: "0 < n" "n \<le> 16"
  shows "AesEax_Decrypt ssl key nonce ad (ae_data sealed) (take n (ae_tag sealed)) = Inr (Some data)"
proof -
  obtain nonceTag ciphertext tag where parts: "Omac ssl key 0 nonce = Inr nonceTag"
      "CryptCtr ssl key data nonceTag = Inr ciphertext" "ComputeTag ssl key nonceTag ad ciphertext = Inr tag"
      "sealed = \<lparr>ae_tag = tag, ae_data = ciphertext\<rparr>"
    using enc unfolding AesEax_Encrypt_def res_bind_eq_Inr by blast
  have ctr_out: "length ciphertext = length data" "ssl_ctr ssl key nonceTag ciphertext = Inr data"
    using ctr_involutive [OF ctr, of key nonceTag data ciphertext] parts(2) by (simp_all add: CryptCtr_def split: if_splits)
  have open_: "CryptCtr ssl key ciphertext nonceTag = Inr data"
    using parts(2) ctr_out by (simp add: CryptCtr_def split: if_splits)
  have tag: "length tag = 16" by (rule ComputeTag_length [OF parts(3)])
  then have "take n tag \<noteq> []" "length (take n tag) = n" using n by auto
  then show ?thesis
    using n by (simp add: AesEax_Decrypt_def parts open_)
qed

text \<open>A tag that is not a prefix of the computed one is refused.\<close>

lemma eax_accepts_only_tag:
  assumes "AesEax_Decrypt ssl key nonce ad data tag = Inr (Some plaintext)"
  shows "\<exists>nonceTag expected. Omac ssl key 0 nonce = Inr nonceTag \<and> ComputeTag ssl key nonceTag ad data = Inr expected \<and>
           tag = take (length tag) expected"
  using assms by (auto simp: AesEax_Decrypt_def res_bind_eq_Inr split: if_splits)

lemma key_nonce_input_inj:
  assumes "key_nonce_input c t d g = key_nonce_input c t' d' g'"
  shows "packet_type_value t = packet_type_value t' \<and> d = d' \<and> g = g'"
proof -
  have "enc_u32 g = enc_u32 g'" "packet_type_value t = packet_type_value t'" "d = d'"
    using assms by (auto simp: key_nonce_input_def enc_u32_def split: if_splits)
  then show ?thesis using u32_field.encode_inject by blast
qed

lemma CreateKeyNonce_shape:
  assumes "CreateKeyNonce ssl c t d p g = Inr kn"
  shows "\<exists>k0 k1 rest n. length rest = 14 \<and> length n = 16 \<and>
    Sha256 ssl (key_nonce_input c t d g) = Inr (k0 # k1 # rest @ n) \<and>
    kn = \<lparr>kn_key = (k0 XOR ucast (drop_bit 8 p)) # (k1 XOR ucast p) # rest, kn_nonce = n\<rparr>"
proof -
  obtain digest where digest: "Sha256 ssl (key_nonce_input c t d g) = Inr digest"
    using assms by (auto simp: CreateKeyNonce_def res_bind_eq_Inr)
  then have "length digest = 32" by (auto simp: Sha256_def res_bind_eq_Inr split: if_splits)
  then obtain k0 k1 tl where tl: "digest = k0 # k1 # tl" "length tl = 30"
    by (auto simp: numeral_eq_Suc length_Suc_conv)
  define rest n where "rest = take 14 tl" and "n = drop 14 tl"
  have lens: "tl = rest @ n" "length rest = 14" "length n = 16" using tl by (simp_all add: rest_def n_def)
  have "kn = \<lparr>kn_key = (k0 XOR ucast (drop_bit 8 p)) # (k1 XOR ucast p) # rest, kn_nonce = n\<rparr>"
    using assms digest lens by (simp add: CreateKeyNonce_def tl Let_def)
  with digest lens tl show ?thesis by blast
qed

section \<open>Properties\<close>

text \<open>
  The peer's side of a packet, which the repository does not contain: the server seals with the
  key and nonce of its direction and sends the first eight bytes of the tag.
\<close>

definition seal_server :: "OpenSsl \<Rightarrow> SessionCrypto \<Rightarrow> ServerPacketHeader \<Rightarrow> u32 \<Rightarrow> bytes \<Rightarrow> bytes \<Rightarrow> SessionEncryptedData result" where
  "seal_server ssl c h generationId meta data =
     res_bind (CreateKeyNonce ssl c (sh_type h) False (sh_packetId h) generationId) (\<lambda>kn.
     res_bind (AesEax_Encrypt ssl (kn_key kn) (kn_nonce kn) meta data) (\<lambda>e.
     Inr \<lparr>se_mac = take 8 (ae_tag e), se_data = ae_data e\<rparr>))"

lemma DecryptServer_seal:
  assumes "ctr_xors_keystream ssl"
    and "seal_server ssl c h generationId meta data = Inr sealed"
  shows "DecryptServer ssl c \<lparr>sp_header = h\<lparr>sh_mac := se_mac sealed\<rparr>, sp_meta = meta, sp_data = se_data sealed\<rparr>
           generationId = Inr data"
proof -
  obtain kn e where kn: "CreateKeyNonce ssl c (sh_type h) False (sh_packetId h) generationId = Inr kn"
      and e: "AesEax_Encrypt ssl (kn_key kn) (kn_nonce kn) meta data = Inr e"
      and sealed: "sealed = \<lparr>se_mac = take 8 (ae_tag e), se_data = ae_data e\<rparr>"
    using assms(2) by (auto simp: seal_server_def res_bind_eq_Inr)
  show ?thesis
    using eax_open_sealed [OF assms(1) e, of 8] by (simp add: DecryptServer_def Let_def kn sealed)
qed

text \<open>
  A packet the server sealed at a packet id and generation is opened to its plaintext by
  \<open>DecryptServer\<close> at the same id and generation, for every CMAC and hash function and every
  counter-mode cipher.
\<close>

theorem sealed_packet_opened:
  assumes "ctr_xors_keystream ssl"
    and "seal_server ssl c h generationId meta data = Inr sealed"
  shows "DecryptServer ssl c \<lparr>sp_header = h\<lparr>sh_mac := se_mac sealed\<rparr>, sp_meta = meta, sp_data = se_data sealed\<rparr>
           generationId = Inr data"
  by (rule DecryptServer_seal [OF assms])

text \<open>
  Packets are kept apart by their keys. The hashed input determines the direction, the
  packet type and the generation; within one of these streams two packets have the same key
  only if they have the same packet id.
\<close>

theorem packet_keys_separate:
  assumes "CreateKeyNonce ssl c type clientToServer packetId generationId = Inr kn"
    and "CreateKeyNonce ssl c type' clientToServer' packetId' generationId' = Inr kn'"
  shows "(key_nonce_input c type clientToServer generationId = key_nonce_input c type' clientToServer' generationId') =
           (packet_type_value type = packet_type_value type' \<and> clientToServer = clientToServer' \<and> generationId = generationId') \<and>
         (key_nonce_input c type clientToServer generationId = key_nonce_input c type' clientToServer' generationId' \<longrightarrow>
            kn_nonce kn = kn_nonce kn' \<and> (kn_key kn = kn_key kn') = (packetId = packetId'))"
proof (intro conjI impI)
  show "(key_nonce_input c type clientToServer generationId = key_nonce_input c type' clientToServer' generationId') =
      (packet_type_value type = packet_type_value type' \<and> clientToServer = clientToServer' \<and> generationId = generationId')"
  proof
    assume "packet_type_value type = packet_type_value type' \<and> clientToServer = clientToServer' \<and> generationId = generationId'"
    then show "key_nonce_input c type clientToServer generationId = key_nonce_input c type' clientToServer' generationId'"
      unfolding key_nonce_input_def by simp
  qed (rule key_nonce_input_inj)
next
  assume same: "key_nonce_input c type clientToServer generationId = key_nonce_input c type' clientToServer' generationId'"
  obtain k0 k1 rest n where 1: "length rest = 14" "length n = 16"
      "Sha256 ssl (key_nonce_input c type clientToServer generationId) = Inr (k0 # k1 # rest @ n)"
      "kn = \<lparr>kn_key = (k0 XOR ucast (drop_bit 8 packetId)) # (k1 XOR ucast packetId) # rest, kn_nonce = n\<rparr>"
    using CreateKeyNonce_shape [OF assms(1)] by blast
  obtain k0' k1' rest' n' where 2: "length rest' = 14" "length n' = 16"
      "Sha256 ssl (key_nonce_input c type clientToServer generationId) = Inr (k0' # k1' # rest' @ n')"
      "kn' = \<lparr>kn_key = (k0' XOR ucast (drop_bit 8 packetId')) # (k1' XOR ucast packetId') # rest', kn_nonce = n'\<rparr>"
    using CreateKeyNonce_shape [OF assms(2)] unfolding same [symmetric] by blast
  have eq: "k0' = k0" "k1' = k1" "rest' = rest" "n' = n"
    using 1(1) 2(1) 1(3) [unfolded 2(3)] by simp_all
  show "kn_nonce kn = kn_nonce kn'" by (simp add: 1 2 eq)
  have xor_cancel: "a XOR b = a XOR b' \<longleftrightarrow> b = b'" for a b b' :: u8
    by (metis xor.assoc xor_self_eq xor.left_neutral)
  have "kn_key kn = kn_key kn' \<longleftrightarrow> enc_u16 packetId = enc_u16 packetId'"
    by (simp add: 1 2 eq xor_cancel enc_u16_def)
  then show "(kn_key kn = kn_key kn') = (packetId = packetId')"
    using u16_field.encode_inject by blast
qed

text \<open>A concrete instance of the primitives, for evaluation only.\<close>

definition toy_ssl :: OpenSsl where
  "toy_ssl = \<lparr>ssl_cmac = (\<lambda>key data. Inr (replicate 15 (foldr (XOR) data (foldr (XOR) key 0)) @ [of_nat (length data)])),
     ssl_ctr = (\<lambda>key counter data. Inr (map (\<lambda>i. data ! i XOR (counter ! 0 XOR of_nat i)) [0 ..< length data])),
     ssl_sha256 = (\<lambda>data. Inr (take 32 (data @ replicate 32 0)))\<rparr>"

lemma toy_ssl_ctr: "ctr_xors_keystream toy_ssl"
  unfolding ctr_xors_keystream_def toy_ssl_def
  by (rule exI [of _ "\<lambda>key counter i. counter ! 0 XOR of_nat i"]) simp

definition toy_crypto :: SessionCrypto where
  "toy_crypto = \<lparr>sc_sharedIv = replicate 64 7, sc_sharedMac = [1, 2, 3, 4, 5, 6, 7, 8]\<rparr>"

lemma toy_sha: "Sha256 toy_ssl (key_nonce_input toy_crypto t d g) = Inr (take 32 (key_nonce_input toy_crypto t d g))"
  by (simp add: Sha256_def toy_ssl_def toy_crypto_def key_nonce_input_def)

lemma toy_Encrypt: "length data \<le> 100 \<Longrightarrow> \<exists>e. AesEax_Encrypt toy_ssl key nonce ad data = Inr e"
  by (simp add: AesEax_Encrypt_def ComputeTag_def CryptCtr_def Omac_def toy_ssl_def)

lemma toy_CreateKeyNonce: "\<exists>kn. CreateKeyNonce toy_ssl toy_crypto t d i g = Inr kn"
  by (simp add: CreateKeyNonce_def toy_sha Let_def)

lemma toy_seal_server: "length data \<le> 100 \<Longrightarrow> \<exists>sealed. seal_server toy_ssl toy_crypto h g meta data = Inr sealed"
proof -
  assume len: "length data \<le> 100"
  obtain kn where kn: "CreateKeyNonce toy_ssl toy_crypto (sh_type h) False (sh_packetId h) g = Inr kn"
    using toy_CreateKeyNonce by blast
  obtain e where "AesEax_Encrypt toy_ssl (kn_key kn) (kn_nonce kn) meta data = Inr e"
    using toy_Encrypt [OF len] by blast
  then show ?thesis by (simp add: seal_server_def kn)
qed

theorem sealed_packet_opened_witness:
  "\<exists>sealed. seal_server toy_ssl toy_crypto \<lparr>sh_mac = [], sh_packetId = 5, sh_type = CommandType, sh_flags = 0x20\<rparr> 0
       [0, 5, 0x22] [10, 20, 30] = Inr sealed \<and>
     DecryptServer toy_ssl toy_crypto
       \<lparr>sp_header = \<lparr>sh_mac = se_mac sealed, sh_packetId = 5, sh_type = CommandType, sh_flags = 0x20\<rparr>,
        sp_meta = [0, 5, 0x22], sp_data = se_data sealed\<rparr> 0 = Inr [10, 20, 30]"
proof -
  let ?h = "\<lparr>sh_mac = [], sh_packetId = 5, sh_type = CommandType, sh_flags = 0x20\<rparr>"
  have "\<exists>sealed. seal_server toy_ssl toy_crypto ?h 0 [0, 5, 0x22] [10, 20, 30] = Inr sealed"
    by (rule toy_seal_server) simp
  then show ?thesis
    using sealed_packet_opened [OF toy_ssl_ctr, of toy_crypto ?h 0 "[0, 5, 0x22]" "[10, 20, 30]"] by auto
qed

theorem packet_keys_separate_witness:
  "\<exists>kn kn'. CreateKeyNonce toy_ssl toy_crypto Ack True 1 0 = Inr kn \<and> CreateKeyNonce toy_ssl toy_crypto Ack True 2 0 = Inr kn' \<and>
     kn_nonce kn = kn_nonce kn' \<and> kn_key kn \<noteq> kn_key kn'"
proof -
  obtain kn kn' where "CreateKeyNonce toy_ssl toy_crypto Ack True 1 0 = Inr kn"
      "CreateKeyNonce toy_ssl toy_crypto Ack True 2 0 = Inr kn'"
    by (simp add: CreateKeyNonce_def toy_sha Let_def)
  with packet_keys_separate [OF this] show ?thesis by auto
qed

end
