(* ===== verification/Voice_Codec.thy ===== *)
theory Voice_Codec
  imports Packet
begin

text \<open>
  Voice frames on the wire: \<open>protocol/include/protocol/voice/voice.hpp\<close> and
  \<open>protocol/src/voice/voice_codec.cpp\<close>. The enumerations have a fixed underlying type, so a
  value without an enumerator can be passed in; it is the last constructor of its type here,
  and the encoders refuse it.
\<close>

section \<open>Model\<close>

datatype VoiceCodec =
  SpeexNarrowband | SpeexWideband | SpeexUltraWideband | CeltMono | OpusVoice | OpusMusic | OtherCodec u8

fun codec_value :: "VoiceCodec \<Rightarrow> u8" where
  "codec_value SpeexNarrowband = 0"
| "codec_value SpeexWideband = 1"
| "codec_value SpeexUltraWideband = 2"
| "codec_value CeltMono = 3"
| "codec_value OpusVoice = 4"
| "codec_value OpusMusic = 5"
| "codec_value (OtherCodec v) = v"

definition codec_of :: "u8 \<Rightarrow> VoiceCodec" where
  "codec_of v =
     (if v = 0 then SpeexNarrowband else if v = 1 then SpeexWideband else if v = 2 then SpeexUltraWideband
      else if v = 3 then CeltMono else if v = 4 then OpusVoice else if v = 5 then OpusMusic else OtherCodec v)"

datatype GroupWhisperType = ServerGroup | ChannelGroup | ChannelCommander | AllClients | OtherWhisperType u8

fun whisper_type_value :: "GroupWhisperType \<Rightarrow> u8" where
  "whisper_type_value ServerGroup = 0"
| "whisper_type_value ChannelGroup = 1"
| "whisper_type_value ChannelCommander = 2"
| "whisper_type_value AllClients = 3"
| "whisper_type_value (OtherWhisperType v) = v"

datatype GroupWhisperTarget =
  AllChannels | CurrentChannel | ParentChannel | AllParentChannel | ChannelFamily | CompleteChannelFamily |
  Subchannels | OtherWhisperTarget u8

fun whisper_target_value :: "GroupWhisperTarget \<Rightarrow> u8" where
  "whisper_target_value AllChannels = 0"
| "whisper_target_value CurrentChannel = 1"
| "whisper_target_value ParentChannel = 2"
| "whisper_target_value AllParentChannel = 3"
| "whisper_target_value ChannelFamily = 4"
| "whisper_target_value CompleteChannelFamily = 5"
| "whisper_target_value Subchannels = 6"
| "whisper_target_value (OtherWhisperTarget v) = v"

record WhisperTarget =
  wt_channelIds :: "u64 list"
  wt_clientIds :: "u16 list"

record GroupWhisper =
  gw_type :: GroupWhisperType
  gw_target :: GroupWhisperTarget
  gw_targetId :: u64

record VoiceFrame =
  vf_voiceId :: u16
  vf_clientId :: u16
  vf_codec :: VoiceCodec
  vf_data :: bytes
  vf_talkStart :: bool
  vf_talkEnd :: bool
  vf_whisper :: bool

definition ValidateCodec :: "VoiceCodec \<Rightarrow> unit result" where
  "ValidateCodec codec =
     (if codec_value codec > codec_value OpusMusic then Inl (RuntimeError ''Unsupported TeamSpeak voice codec'')
      else Inr ())"

definition ValidatePayloadSize :: "nat \<Rightarrow> nat \<Rightarrow> string \<Rightarrow> unit result" where
  "ValidatePayloadSize metadataSize dataSize message =
     (if metadataSize > MaxClientPayload \<or> dataSize > MaxClientPayload - metadataSize
      then Inl (RuntimeError message) else Inr ())"

definition EncodeClient :: "u16 \<Rightarrow> VoiceCodec \<Rightarrow> bytes \<Rightarrow> bytes result" where
  "EncodeClient voiceId codec data =
     res_bind (ValidateCodec codec) (\<lambda>_.
     res_bind (ValidatePayloadSize 3 (length data) ''Encoded voice frame is too large for a TeamSpeak datagram'') (\<lambda>_.
     Inr (Take (WriteBytes data (WriteU8 (codec_value codec) (WriteU16 voiceId empty_writer))))))"

definition EncodeClientWhisper :: "u16 \<Rightarrow> VoiceCodec \<Rightarrow> u64 list \<Rightarrow> u16 list \<Rightarrow> bytes \<Rightarrow> bytes result" where
  "EncodeClientWhisper voiceId codec channelIds clientIds data =
     res_bind (ValidateCodec codec) (\<lambda>_.
     if length channelIds > 255 then Inl (RuntimeError ''Too many TeamSpeak VoiceWhisper channel targets'')
     else if length clientIds > 255 then Inl (RuntimeError ''Too many TeamSpeak VoiceWhisper client targets'')
     else
       res_bind (ValidatePayloadSize (5 + length channelIds * 8 + length clientIds * 2) (length data)
                   ''Encoded VoiceWhisper frame is too large for a TeamSpeak datagram'') (\<lambda>_.
       let w = WriteU8 (of_nat (length clientIds))
                 (WriteU8 (of_nat (length channelIds)) (WriteU8 (codec_value codec) (WriteU16 voiceId empty_writer)));
           w = foldl (\<lambda>w c. WriteU64 c w) w channelIds;
           w = foldl (\<lambda>w c. WriteU16 c w) w clientIds
       in Inr (Take (WriteBytes data w))))"

definition EncodeClientGroupWhisper ::
  "u16 \<Rightarrow> VoiceCodec \<Rightarrow> GroupWhisperType \<Rightarrow> GroupWhisperTarget \<Rightarrow> u64 \<Rightarrow> bytes \<Rightarrow> bytes result" where
  "EncodeClientGroupWhisper voiceId codec type target targetId data =
     res_bind (ValidateCodec codec) (\<lambda>_.
     if whisper_type_value type > whisper_type_value AllClients
     then Inl (RuntimeError ''Unsupported TeamSpeak group whisper type'')
     else if whisper_target_value target > whisper_target_value Subchannels
     then Inl (RuntimeError ''Unsupported TeamSpeak group whisper target'')
     else
       res_bind (ValidatePayloadSize 13 (length data)
                   ''Encoded group VoiceWhisper frame is too large for a TeamSpeak datagram'') (\<lambda>_.
       Inr (Take (WriteBytes data (WriteU64 targetId (WriteU8 (whisper_target_value target)
             (WriteU8 (whisper_type_value type) (WriteU8 (codec_value codec) (WriteU16 voiceId empty_writer)))))))))"

definition DecodeServer :: "bytes \<Rightarrow> PacketFlags \<Rightarrow> bool \<Rightarrow> VoiceFrame result" where
  "DecodeServer payload flags whisper =
     (if HasFlag flags Fragmented then Inl (RuntimeError ''Fragmented TeamSpeak Voice packets are not supported'')
      else if length payload < 5 then Inl (RuntimeError ''Server Voice payload is too small'')
      else fst (
        op_bind ReadU16 (\<lambda>voiceId.
        op_bind ReadU16 (\<lambda>clientId.
        op_bind ReadU8 (\<lambda>codec.
        if codec > codec_value OpusMusic then op_throw (RuntimeError ''Unsupported TeamSpeak voice codec'')
        else op_bind (op_gets Remaining) (\<lambda>n.
             op_bind (ReadBytes n) (\<lambda>data.
             op_return \<lparr>vf_voiceId = voiceId, vf_clientId = clientId, vf_codec = codec_of codec, vf_data = data,
                        vf_talkStart = HasFlag flags Compressed, vf_talkEnd = (data = []), vf_whisper = whisper\<rparr>)))))
        (make_reader payload)))"

section \<open>Lemmas\<close>

lemma codec_value_of [simp]: "codec_value (codec_of v) = v"
  by (simp add: codec_of_def)

text \<open>The inverse of the 64-bit writer, for reading whisper targets back.\<close>

lemma foldl_WriteU64: "bw_data (foldl (\<lambda>w c. WriteU64 c w) w cs) = bw_data w @ concat (map enc_u64 cs)"
  by (induction cs arbitrary: w) simp_all

lemma concat_enc_u64_length: "length (concat (map enc_u64 cs)) = 8 * length cs"
  by (induction cs) simp_all

lemma EncodeClient_Inr:
  "EncodeClient voiceId codec data = Inr p \<longleftrightarrow>
     codec_value codec \<le> 5 \<and> length data \<le> 484 \<and> p = enc_u16 voiceId @ codec_value codec # data"
  by (auto simp: EncodeClient_def ValidateCodec_def ValidatePayloadSize_def Take_def limit_defs enc_u8_def
      split: if_splits)

lemma EncodeClientWhisper_Inr:
  "EncodeClientWhisper voiceId codec chs cls data = Inr p \<longleftrightarrow>
     codec_value codec \<le> 5 \<and> length chs \<le> 255 \<and> length cls \<le> 255 \<and>
     5 + length chs * 8 + length cls * 2 + length data \<le> MaxClientPayload \<and>
     p = enc_u16 voiceId @ [codec_value codec, of_nat (length chs), of_nat (length cls)] @
         concat (map enc_u64 chs) @ concat (map enc_u16 cls) @ data"
  by (auto simp: EncodeClientWhisper_def ValidateCodec_def ValidatePayloadSize_def Take_def limit_defs enc_u8_def
      foldl_WriteU64 u16_field.foldl_put_data Let_def split: if_splits)

lemma EncodeClientGroupWhisper_Inr:
  "EncodeClientGroupWhisper voiceId codec t g i data = Inr p \<longleftrightarrow>
     codec_value codec \<le> 5 \<and> whisper_type_value t \<le> 3 \<and> whisper_target_value g \<le> 6 \<and>
     length data + 13 \<le> MaxClientPayload \<and>
     p = enc_u16 voiceId @ [codec_value codec, whisper_type_value t, whisper_target_value g] @ enc_u64 i @ data"
  by (auto simp: EncodeClientGroupWhisper_def ValidateCodec_def ValidatePayloadSize_def Take_def limit_defs enc_u8_def
      split: if_splits)

text \<open>Every encoded frame fits one client datagram.\<close>

lemma encoded_voice_fits:
  "EncodeClient v c data = Inr p \<Longrightarrow> length p \<le> MaxClientPayload"
  "EncodeClientWhisper v c chs cls data = Inr p \<Longrightarrow> length p \<le> MaxClientPayload"
  "EncodeClientGroupWhisper v c t g i data = Inr p \<Longrightarrow> length p \<le> MaxClientPayload"
  by (auto simp: EncodeClient_Inr EncodeClientWhisper_Inr EncodeClientGroupWhisper_Inr concat_enc_u64_length
      u16_field.concat_encode_width limit_defs)

lemma DecodeServer_split:
  "DecodeServer (a # b # c # d # k # data) flags whisper =
     (if HasFlag flags Fragmented then Inl (RuntimeError ''Fragmented TeamSpeak Voice packets are not supported'')
      else if k > 5 then Inl (RuntimeError ''Unsupported TeamSpeak voice codec'')
      else Inr \<lparr>vf_voiceId = u16_of a b, vf_clientId = u16_of c d, vf_codec = codec_of k, vf_data = data,
                vf_talkStart = HasFlag flags Compressed, vf_talkEnd = (data = []), vf_whisper = whisper\<rparr>)"
  by (simp add: DecodeServer_def make_reader_at op_bind_def ReadBytes_at ReadU16_at ReadU8_at)

lemma DecodeServer_short:
  "length payload < 5 \<Longrightarrow> DecodeServer payload flags whisper =
     (if HasFlag flags Fragmented then Inl (RuntimeError ''Fragmented TeamSpeak Voice packets are not supported'')
      else Inl (RuntimeError ''Server Voice payload is too small''))"
  by (simp add: DecodeServer_def)

section \<open>Properties\<close>

text \<open>
  \<open>DecodeServer\<close> is exact on arbitrary payloads. What it accepts is unfragmented and is the
  encoding of the frame it returns: voice id, sender and codec number at their widths, then
  the codec data, with an empty body marking the end of talking. It refuses a payload exactly
  when it is fragmented, shorter than the metadata or names no known codec.
\<close>

theorem voice_decode_exact:
  "case DecodeServer payload flags whisper of
     Inr f \<Rightarrow> \<not> HasFlag flags Fragmented \<and> codec_value (vf_codec f) \<le> 5 \<and>
       payload = enc_u16 (vf_voiceId f) @ enc_u16 (vf_clientId f) @ [codec_value (vf_codec f)] @ vf_data f \<and>
       vf_talkEnd f = (vf_data f = []) \<and> vf_talkStart f = HasFlag flags Compressed \<and> vf_whisper f = whisper
   | Inl e \<Rightarrow> HasFlag flags Fragmented \<or> length payload < 5 \<or> payload ! 4 > 5"
proof (cases "length payload < 5")
  case False
  then obtain a b c d k data where "payload = a # b # c # d # k # data"
    by (auto simp: not_less numeral_eq_Suc Suc_le_length_iff)
  then show ?thesis by (simp add: DecodeServer_split not_less)
qed (simp add: DecodeServer_short)

end
