(* ===== verification/Session_Transport.thy ===== *)
theory Session_Transport
  imports Receive_Window Reliable_Queue Statistics Session_Crypto Voice_Codec
begin

text \<open>
  \<open>SessionTransport\<close> (\<open>protocol/src/session_transport.cpp\<close>) with the thin \<open>Transport\<close>
  (\<open>protocol/src/transport.cpp\<close>): encryption, sequencing, acknowledgement, retransmission, keep-alive
  and delivery of commands and voice frames over one UDP socket.

  What lies outside the program is the record \<open>Environment\<close>, a parameter of every definition
  that needs it: the OpenSSL primitives, the \<open>double\<close> arithmetic of the statistics, the three
  socket operations and the steady clock. They work on a state \<open>'n\<close> of the outside world, which
  is the member \<open>tr_net\<close> here; a socket operation may throw, reading the clock does not. The
  members are those of the class; the reference \<open>m_Crypto\<close> is the member \<open>tr_crypto\<close>.

  A default argument \<open>Clock::now()\<close> of the statistics is a read of the clock at the call.
\<close>

section \<open>Model\<close>

record ('n, 'd) Environment =
  env_ssl :: OpenSsl
  env_fp :: "'d Double"
  env_send :: "bytes \<Rightarrow> ('n, unit) op"
  env_receive :: "nat \<Rightarrow> ('n, bytes) op"
  env_wait :: "int \<Rightarrow> ('n, bool) op"
  env_now :: "'n \<Rightarrow> time \<times> 'n"

record PendingPing =
  pp_packetId :: u16
  pp_sentAt :: time

record ('n, 'd) SessionTransport =
  tr_net :: 'n
  tr_crypto :: SessionCrypto
  tr_sequences :: PacketSequenceState
  tr_reliableCommands :: ReliableCommandQueue
  tr_statistics :: "'d ConnectionStatistics"
  tr_clientId :: u16
  tr_connected :: bool
  tr_lastReceiveAt :: time
  tr_pendingPing :: "PendingPing option"
  tr_firstCommandPacketId :: "u16 option"
  tr_commandWindow :: CommandReceiveWindow
  tr_commandLowWindow :: CommandReceiveWindow
  tr_readyCommands :: "bytes list"
  tr_readyVoice :: "VoiceFrame list"

type_synonym ('n, 'd, 'a) transport_op = "(('n, 'd) SessionTransport, 'a) op"

definition ReceiveTimeout :: int where "ReceiveTimeout = 30"
definition PingInterval :: int where "PingInterval = 1"

definition make_SessionTransport ::
  "('n, 'd) Environment \<Rightarrow> SessionCrypto \<Rightarrow> PacketSequenceState \<Rightarrow> 'n \<Rightarrow> ('n, 'd) SessionTransport" where
  "make_SessionTransport env crypto sequences n =
     (case env_now env n of (now, n) \<Rightarrow>
        \<lparr>tr_net = n, tr_crypto = crypto, tr_sequences = sequences, tr_reliableCommands = [],
         tr_statistics = initial_statistics (env_fp env) now, tr_clientId = 0, tr_connected = False,
         tr_lastReceiveAt = 0, tr_pendingPing = None, tr_firstCommandPacketId = None,
         tr_commandWindow = empty_window, tr_commandLowWindow = empty_window,
         tr_readyCommands = [], tr_readyVoice = []\<rparr>)"

subsection \<open>The socket and the clock\<close>

abbreviation on_net :: "('n, 'a) op \<Rightarrow> ('n, 'd, 'a) transport_op" where
  "on_net \<equiv> op_zoom tr_net (\<lambda>n s. s\<lparr>tr_net := n\<rparr>)"

definition transport_Send :: "('n, 'd) Environment \<Rightarrow> Packet \<Rightarrow> ('n, 'd, unit) transport_op" where
  "transport_Send env packet = on_net (env_send env packet)"

definition transport_Receive :: "('n, 'd) Environment \<Rightarrow> ('n, 'd, Packet) transport_op" where
  "transport_Receive env = on_net (env_receive env 4096)"

definition transport_WaitReadable :: "('n, 'd) Environment \<Rightarrow> int \<Rightarrow> ('n, 'd, bool) transport_op" where
  "transport_WaitReadable env timeout = on_net (env_wait env timeout)"

definition clock_now :: "('n, 'd) Environment \<Rightarrow> ('n, 'd, time) transport_op" where
  "clock_now env s = (case env_now env (tr_net s) of (t, n) \<Rightarrow> (Inr t, s\<lparr>tr_net := n\<rparr>))"

subsection \<open>Building and sending packets\<close>

definition CreateEncryptedPacket ::
  "('n, 'd) Environment \<Rightarrow> PacketType \<Rightarrow> PacketFlags \<Rightarrow> bytes \<Rightarrow> PacketSequence \<Rightarrow> ('n, 'd) SessionTransport \<Rightarrow> Packet result" where
  "CreateEncryptedPacket env type flags data q s =
     (let header = \<lparr>ch_mac = replicate 8 0, ch_packetId = ps_packetId q, ch_clientId = tr_clientId s,
                    ch_type = type, ch_flags = flags\<rparr>;
          meta = Take (WriteClientMeta header empty_writer)
      in res_bind (EncryptClient (env_ssl env) (tr_crypto s) type (ps_packetId q) (ps_generationId q) meta data) (\<lambda>encrypted.
         Inr (Take (WriteBytes (se_data encrypted)
                (WriteClientHeader (header\<lparr>ch_mac := se_mac encrypted\<rparr>) empty_writer)))))"

definition CreateUnencryptedPacket ::
  "PacketType \<Rightarrow> PacketFlags \<Rightarrow> bytes \<Rightarrow> PacketSequence \<Rightarrow> ('n, 'd) SessionTransport \<Rightarrow> Packet" where
  "CreateUnencryptedPacket type flags data q s =
     Take (WriteBytes data (WriteClientHeader
       \<lparr>ch_mac = sc_sharedMac (tr_crypto s), ch_packetId = ps_packetId q, ch_clientId = tr_clientId s,
        ch_type = type, ch_flags = flags OR Unencrypted\<rparr> empty_writer))"

text \<open>The two calls every packet is sent with: the socket, then the statistics.\<close>

definition send_packet :: "('n, 'd) Environment \<Rightarrow> PacketType \<Rightarrow> Packet \<Rightarrow> ('n, 'd, unit) transport_op" where
  "send_packet env type packet =
     op_bind (transport_Send env packet) (\<lambda>_.
     op_bind (clock_now env) (\<lambda>now.
     op_modify (\<lambda>s. s\<lparr>tr_statistics := RecordSent type (length packet + Ipv4UdpOverhead) now (tr_statistics s)\<rparr>)))"

definition outgoing_sequence :: "PacketType \<Rightarrow> ('n, 'd, PacketSequence) transport_op" where
  "outgoing_sequence type s = (Outgoing type (tr_sequences s), s)"

definition advance_outgoing :: "PacketType \<Rightarrow> ('n, 'd, unit) transport_op" where
  "advance_outgoing type s =
     (case Outgoing type (tr_sequences s) of
        Inl e \<Rightarrow> (Inl e, s)
      | Inr q \<Rightarrow> (case Advance q of (r, q') \<Rightarrow> (r, s\<lparr>tr_sequences := set_Outgoing type q' (tr_sequences s)\<rparr>)))"

definition SendEncrypted :: "('n, 'd) Environment \<Rightarrow> PacketType \<Rightarrow> PacketFlags \<Rightarrow> bytes \<Rightarrow> ('n, 'd, unit) transport_op" where
  "SendEncrypted env type flags data =
     (if length data > MaxClientPayload then op_throw (RuntimeError ''TeamSpeak client packet payload is too large'')
      else
        op_bind (outgoing_sequence type) (\<lambda>q.
        op_bind (\<lambda>s. (CreateEncryptedPacket env type flags data q s, s)) (\<lambda>packet.
        op_bind (send_packet env type packet) (\<lambda>_.
        advance_outgoing type))))"

definition SendUnencrypted :: "('n, 'd) Environment \<Rightarrow> PacketType \<Rightarrow> PacketFlags \<Rightarrow> bytes \<Rightarrow> ('n, 'd, unit) transport_op" where
  "SendUnencrypted env type flags data =
     (if length data > MaxClientPayload then op_throw (RuntimeError ''TeamSpeak client packet payload is too large'')
      else
        op_bind (outgoing_sequence type) (\<lambda>q.
        op_bind (op_gets (CreateUnencryptedPacket type flags data q)) (\<lambda>packet.
        op_bind (send_packet env type packet) (\<lambda>_.
        advance_outgoing type))))"

definition SendCommandPacket :: "('n, 'd) Environment \<Rightarrow> bytes \<Rightarrow> PacketFlags \<Rightarrow> ('n, 'd, u16) transport_op" where
  "SendCommandPacket env data flags =
     op_bind (outgoing_sequence CommandType) (\<lambda>q.
     op_bind (\<lambda>s. (CreateEncryptedPacket env CommandType flags data q s, s)) (\<lambda>packet.
     op_bind (clock_now env) (\<lambda>now.
     op_bind (op_zoom tr_reliableCommands (\<lambda>Q s. s\<lparr>tr_reliableCommands := Q\<rparr>)
                (queue_Add (ps_packetId q) (ps_generationId q) packet now)) (\<lambda>_.
     op_bind (op_modify (\<lambda>s. if tr_firstCommandPacketId s = None
                            then s\<lparr>tr_firstCommandPacketId := Some (ps_packetId q)\<rparr> else s)) (\<lambda>_.
     op_bind (send_packet env CommandType packet) (\<lambda>_.
     op_bind (advance_outgoing CommandType) (\<lambda>_.
     op_return (ps_packetId q))))))))"

fun send_fragments :: "('n, 'd) Environment \<Rightarrow> bytes \<Rightarrow> u16 \<Rightarrow> CommandFragment list \<Rightarrow> ('n, 'd, u16) transport_op" where
  "send_fragments env data lastPacketId [] = op_return lastPacketId"
| "send_fragments env data lastPacketId (f # fs) =
     op_bind (SendCommandPacket env (fragment_slice data f) (cf_flags f)) (\<lambda>packetId. send_fragments env data packetId fs)"

definition SendCommand :: "('n, 'd) Environment \<Rightarrow> bytes \<Rightarrow> ('n, 'd, u16) transport_op" where
  "SendCommand env data = op_bind (op_lift (Plan (length data))) (send_fragments env data 0)"

text \<open>The common part of the three voice senders, after the payload is encoded.\<close>

definition send_voice_payload ::
  "('n, 'd) Environment \<Rightarrow> PacketType \<Rightarrow> PacketFlags \<Rightarrow> (u16 \<Rightarrow> bytes result) \<Rightarrow> bool \<Rightarrow> ('n, 'd, unit) transport_op" where
  "send_voice_payload env type flags encode encrypted =
     op_bind (outgoing_sequence type) (\<lambda>q.
     op_bind (op_lift (encode (ps_packetId q))) (\<lambda>payload.
     op_bind (\<lambda>s. (if encrypted then CreateEncryptedPacket env type flags payload q s
                   else Inr (CreateUnencryptedPacket type flags payload q s), s)) (\<lambda>packet.
     op_bind (send_packet env type packet) (\<lambda>_.
     advance_outgoing type))))"

definition SendVoice :: "('n, 'd) Environment \<Rightarrow> VoiceCodec \<Rightarrow> bytes \<Rightarrow> bool \<Rightarrow> bool \<Rightarrow> ('n, 'd, unit) transport_op" where
  "SendVoice env codec data encrypted talkStart =
     send_voice_payload env Voice (if talkStart then Compressed else FlagNone)
       (\<lambda>packetId. EncodeClient packetId codec data) encrypted"

definition SendVoiceWhisper ::
  "('n, 'd) Environment \<Rightarrow> VoiceCodec \<Rightarrow> u64 list \<Rightarrow> u16 list \<Rightarrow> bytes \<Rightarrow> bool \<Rightarrow> bool \<Rightarrow> ('n, 'd, unit) transport_op" where
  "SendVoiceWhisper env codec channelIds clientIds data encrypted talkStart =
     send_voice_payload env VoiceWhisper (if talkStart then Compressed else FlagNone)
       (\<lambda>packetId. EncodeClientWhisper packetId codec channelIds clientIds data) encrypted"

definition SendGroupWhisper ::
  "('n, 'd) Environment \<Rightarrow> VoiceCodec \<Rightarrow> GroupWhisperType \<Rightarrow> GroupWhisperTarget \<Rightarrow> u64 \<Rightarrow> bytes \<Rightarrow> bool \<Rightarrow> bool \<Rightarrow>
   ('n, 'd, unit) transport_op" where
  "SendGroupWhisper env codec type target targetId data encrypted talkStart =
     send_voice_payload env VoiceWhisper (if talkStart then NewProtocol OR Compressed else NewProtocol)
       (\<lambda>packetId. EncodeClientGroupWhisper packetId codec type target targetId data) encrypted"

subsection \<open>The reliable queue seen from outside\<close>

definition transport_Acknowledge :: "u16 \<Rightarrow> ('n, 'd, Acknowledgement option) transport_op" where
  "transport_Acknowledge packetId =
     op_zoom tr_reliableCommands (\<lambda>Q s. s\<lparr>tr_reliableCommands := Q\<rparr>) (queue_Acknowledge packetId)"

definition ConfirmCommand :: "u16 \<Rightarrow> ('n, 'd, unit) transport_op" where
  "ConfirmCommand packetId = op_bind (transport_Acknowledge packetId) (\<lambda>_. op_return ())"

definition IsCommandPending :: "u16 \<Rightarrow> ('n, 'd) SessionTransport \<Rightarrow> bool" where
  "IsCommandPending packetId s = queue_Contains packetId (tr_reliableCommands s)"

definition HasPendingReliableCommands :: "('n, 'd) SessionTransport \<Rightarrow> bool" where
  "HasPendingReliableCommands s \<longleftrightarrow> length (tr_reliableCommands s) \<noteq> 0"

definition transport_NextDeadline :: "('n, 'd) SessionTransport \<Rightarrow> time option" where
  "transport_NextDeadline s = queue_NextDeadline (tr_reliableCommands s)"

subsection \<open>Control packets\<close>

definition SendPing :: "('n, 'd) Environment \<Rightarrow> time \<Rightarrow> ('n, 'd, unit) transport_op" where
  "SendPing env now =
     op_bind (outgoing_sequence Ping) (\<lambda>q.
     op_bind (SendUnencrypted env Ping FlagNone []) (\<lambda>_.
     op_modify (\<lambda>s. s\<lparr>tr_pendingPing := Some \<lparr>pp_packetId = ps_packetId q, pp_sentAt = now\<rparr>\<rparr>)))"

definition SendAck :: "('n, 'd) Environment \<Rightarrow> ServerPacket \<Rightarrow> PacketType \<Rightarrow> ('n, 'd, unit) transport_op" where
  "SendAck env packet ackType =
     SendEncrypted env ackType FlagNone (Take (WriteU16 (sh_packetId (sp_header packet)) empty_writer))"

definition SendPong :: "('n, 'd) Environment \<Rightarrow> u16 \<Rightarrow> ('n, 'd, unit) transport_op" where
  "SendPong env pingPacketId = SendUnencrypted env Pong FlagNone (Take (WriteU16 pingPacketId empty_writer))"

text \<open>The tail of the receivers: a packet at or past the expected position moves it past itself.\<close>

definition advance_incoming :: "PacketType \<Rightarrow> u16 \<Rightarrow> u32 \<Rightarrow> ('n, 'd, unit) transport_op" where
  "advance_incoming type packetId generationId s =
     (case Incoming type (tr_sequences s) of
        Inl e \<Rightarrow> (Inl e, s)
      | Inr expected \<Rightarrow>
          if SequenceKey packetId generationId \<ge> SequenceKey_of expected
          then (case Advance \<lparr>ps_packetId = packetId, ps_generationId = generationId\<rparr> of
                  (r, q) \<Rightarrow> (r, s\<lparr>tr_sequences := set_Incoming type q (tr_sequences s)\<rparr>))
          else (Inr (), s))"

definition resolve_incoming :: "PacketType \<Rightarrow> u16 \<Rightarrow> ('n, 'd, u32) transport_op" where
  "resolve_incoming type packetId s =
     (res_bind (Incoming type (tr_sequences s)) (\<lambda>expected. ResolveGeneration expected packetId), s)"

text \<open>The payload of a packet that may come unencrypted under the shared MAC.\<close>

definition open_payload :: "('n, 'd) Environment \<Rightarrow> string \<Rightarrow> ServerPacket \<Rightarrow> u32 \<Rightarrow> ('n, 'd, bytes) transport_op" where
  "open_payload env badMac packet generationId s =
     (if HasFlag (sh_flags (sp_header packet)) Unencrypted
      then (if sh_mac (sp_header packet) \<noteq> sc_sharedMac (tr_crypto s) then Inl (RuntimeError badMac) else Inr (sp_data packet), s)
      else (DecryptServer (env_ssl env) (tr_crypto s) packet generationId, s))"

definition HandleAck :: "('n, 'd) Environment \<Rightarrow> ServerPacket \<Rightarrow> ('n, 'd, unit) transport_op" where
  "HandleAck env packet =
     (let packetId = sh_packetId (sp_header packet) in
      op_bind (resolve_incoming Ack packetId) (\<lambda>generationId.
      if generationId = 0 \<and> packetId = 1 then
        op_bind (op_gets tr_firstCommandPacketId) (\<lambda>first.
        op_bind (case first of None \<Rightarrow> op_return () | Some p \<Rightarrow> op_bind (transport_Acknowledge p) (\<lambda>_. op_return ())) (\<lambda>_.
        advance_incoming Ack packetId generationId))
      else
        op_bind (open_payload env ''Invalid server Ack MAC'' packet generationId) (\<lambda>plaintext.
        if length plaintext \<noteq> 2 then op_throw (RuntimeError ''Unexpected server Ack payload size'')
        else op_bind (op_lift (fst (ReadU16 (make_reader plaintext)))) (\<lambda>acknowledgedPacketId.
             op_bind (transport_Acknowledge acknowledgedPacketId) (\<lambda>acknowledgement.
             op_bind (case acknowledgement of
                        Some a \<Rightarrow> op_when (\<not> ak_retransmitted a)
                          (op_bind (clock_now env) (\<lambda>now. op_modify (\<lambda>s. s\<lparr>tr_statistics :=
                             RecordRtt (env_fp env) (now - ak_firstSent a) (tr_statistics s)\<rparr>)))
                      | None \<Rightarrow> op_return ()) (\<lambda>_.
             advance_incoming Ack packetId generationId))))))"

definition HandleAckLow :: "('n, 'd) Environment \<Rightarrow> ServerPacket \<Rightarrow> ('n, 'd, unit) transport_op" where
  "HandleAckLow env packet =
     (let packetId = sh_packetId (sp_header packet) in
      op_bind (resolve_incoming AckLow packetId) (\<lambda>generationId.
      op_bind (open_payload env ''Invalid server AckLow MAC'' packet generationId) (\<lambda>plaintext.
      if length plaintext \<noteq> 2 then op_throw (RuntimeError ''Unexpected server AckLow payload size'')
      else advance_incoming AckLow packetId generationId)))"

definition HandlePing :: "('n, 'd) Environment \<Rightarrow> ServerPacket \<Rightarrow> ('n, 'd, unit) transport_op" where
  "HandlePing env packet s =
     (if \<not> HasFlag (sh_flags (sp_header packet)) Unencrypted then (Inl (RuntimeError ''Server Ping packet is encrypted''), s)
      else if sh_mac (sp_header packet) \<noteq> sc_sharedMac (tr_crypto s) then (Inl (RuntimeError ''Invalid server Ping MAC''), s)
      else SendPong env (sh_packetId (sp_header packet)) s)"

definition HandlePong :: "('n, 'd) Environment \<Rightarrow> ServerPacket \<Rightarrow> ('n, 'd, unit) transport_op" where
  "HandlePong env packet s =
     (if \<not> HasFlag (sh_flags (sp_header packet)) Unencrypted then (Inl (RuntimeError ''Server Pong packet is encrypted''), s)
      else if sh_mac (sp_header packet) \<noteq> sc_sharedMac (tr_crypto s) then (Inl (RuntimeError ''Invalid server Pong MAC''), s)
      else if length (sp_data packet) \<noteq> 2 then (Inl (RuntimeError ''Unexpected server Pong payload size''), s)
      else op_bind (op_lift (fst (ReadU16 (make_reader (sp_data packet))))) (\<lambda>pingPacketId.
           op_bind (op_gets tr_pendingPing) (\<lambda>ping.
           case ping of
             Some p \<Rightarrow> op_when (pp_packetId p = pingPacketId)
               (op_bind (clock_now env) (\<lambda>now. op_modify (\<lambda>s. s\<lparr>tr_statistics :=
                  RecordRtt (env_fp env) (now - pp_sentAt p) (tr_statistics s), tr_pendingPing := None\<rparr>)))
           | None \<Rightarrow> op_return ())) s)"

subsection \<open>Commands and voice\<close>

text \<open>\<open>Feed\<close> works on the expected sequence and the window in place, also when it throws.\<close>

definition feed_window ::
  "bool \<Rightarrow> PacketType \<Rightarrow> u16 \<Rightarrow> u32 \<Rightarrow> PacketFlags \<Rightarrow> bytes \<Rightarrow> ('n, 'd, bytes list) transport_op" where
  "feed_window low type packetId generationId flags plaintext s =
     (case Incoming type (tr_sequences s) of
        Inl e \<Rightarrow> (Inl e, s)
      | Inr expected \<Rightarrow>
          (case Feed packetId generationId flags plaintext
                  (expected, if low then tr_commandLowWindow s else tr_commandWindow s) of
             (r, q, w) \<Rightarrow> (r, (if low then s\<lparr>tr_commandLowWindow := w\<rparr> else s\<lparr>tr_commandWindow := w\<rparr>)
                              \<lparr>tr_sequences := set_Incoming type q (tr_sequences s)\<rparr>)))"

definition ProcessIncomingCommand ::
  "('n, 'd) Environment \<Rightarrow> PacketType \<Rightarrow> PacketType \<Rightarrow> bool \<Rightarrow> ServerPacket \<Rightarrow> ('n, 'd, unit) transport_op" where
  "ProcessIncomingCommand env dataType ackType low packet =
     (let packetId = sh_packetId (sp_header packet) in
      op_bind (resolve_incoming dataType packetId) (\<lambda>generationId.
      op_bind (\<lambda>s. (DecryptServer (env_ssl env) (tr_crypto s) packet generationId, s)) (\<lambda>plaintext.
      op_bind (SendAck env packet ackType) (\<lambda>_.
      op_bind (feed_window low dataType packetId generationId (sh_flags (sp_header packet)) plaintext) (\<lambda>ready.
      op_modify (\<lambda>s. s\<lparr>tr_readyCommands := tr_readyCommands s @ ready\<rparr>))))))"

definition HandleCommand :: "('n, 'd) Environment \<Rightarrow> ServerPacket \<Rightarrow> ('n, 'd, unit) transport_op" where
  "HandleCommand env = ProcessIncomingCommand env CommandType Ack False"

definition HandleCommandLow :: "('n, 'd) Environment \<Rightarrow> ServerPacket \<Rightarrow> ('n, 'd, unit) transport_op" where
  "HandleCommandLow env = ProcessIncomingCommand env CommandLow AckLow True"

definition HandleVoice :: "('n, 'd) Environment \<Rightarrow> ServerPacket \<Rightarrow> ('n, 'd, unit) transport_op" where
  "HandleVoice env packet =
     (let h = sp_header packet; type = sh_type h in
      op_bind (resolve_incoming type (sh_packetId h)) (\<lambda>generationId.
      op_bind (open_payload env ''Invalid unencrypted server Voice MAC'' packet generationId) (\<lambda>plaintext.
      op_bind (op_lift (DecodeServer plaintext (sh_flags h) (type = VoiceWhisper))) (\<lambda>frame.
      op_bind (op_modify (\<lambda>s. s\<lparr>tr_readyVoice := tr_readyVoice s @ [frame]\<rparr>)) (\<lambda>_.
      advance_incoming type (sh_packetId h) generationId)))))"

fun dispatch_packet :: "('n, 'd) Environment \<Rightarrow> PacketType \<Rightarrow> ServerPacket \<Rightarrow> ('n, 'd, unit) transport_op" where
  "dispatch_packet env Ack packet = HandleAck env packet"
| "dispatch_packet env Ping packet = HandlePing env packet"
| "dispatch_packet env Pong packet = HandlePong env packet"
| "dispatch_packet env CommandType packet = HandleCommand env packet"
| "dispatch_packet env Voice packet = HandleVoice env packet"
| "dispatch_packet env VoiceWhisper packet = HandleVoice env packet"
| "dispatch_packet env CommandLow packet = HandleCommandLow env packet"
| "dispatch_packet env AckLow packet = HandleAckLow env packet"
| "dispatch_packet env Init1 packet = op_throw (RuntimeError ''Unexpected Init1 packet in established session'')"
| "dispatch_packet env (UnknownType v) packet = op_return ()"

definition ReceivePacket :: "('n, 'd) Environment \<Rightarrow> ('n, 'd, ServerPacket) transport_op" where
  "ReceivePacket env = op_bind (transport_Receive env) (\<lambda>packet. op_lift (ServerPacket_Parse packet))"

definition ProcessPacket :: "('n, 'd) Environment \<Rightarrow> ('n, 'd, unit) transport_op" where
  "ProcessPacket env =
     op_bind (ReceivePacket env) (\<lambda>packet.
     let h = sp_header packet in
     op_bind (dispatch_packet env (sh_type h) packet) (\<lambda>_.
     op_bind (clock_now env) (\<lambda>now.
     op_bind (op_zoom tr_statistics (\<lambda>x s. s\<lparr>tr_statistics := x\<rparr>)
       (RecordReceived (sh_type h) (sh_packetId h) (ServerHeaderSize + length (sp_data packet) + Ipv4UdpOverhead) now)) (\<lambda>_.
     op_modify (\<lambda>s. if tr_connected s then s\<lparr>tr_lastReceiveAt := now\<rparr> else s)))))"

subsection \<open>Timers\<close>

definition ProcessTimers :: "('n, 'd) Environment \<Rightarrow> ('n, 'd, unit) transport_op" where
  "ProcessTimers env =
     op_bind (clock_now env) (\<lambda>now.
     op_bind (op_zoom tr_reliableCommands (\<lambda>Q s. s\<lparr>tr_reliableCommands := Q\<rparr>) (queue_CollectDue now)) (\<lambda>packets.
     op_bind (op_for packets (send_packet env CommandType)) (\<lambda>_ s.
     if \<not> tr_connected s \<or> HasPendingReliableCommands s then (Inr (), s)
     else case tr_pendingPing s of
            Some ping \<Rightarrow>
              if tr_lastReceiveAt s > pp_sentAt ping then (Inr (), s\<lparr>tr_pendingPing := None\<rparr>)
              else if now - pp_sentAt ping \<ge> seconds PingInterval then SendPing env now (s\<lparr>tr_pendingPing := None\<rparr>)
              else (Inr (), s)
          | None \<Rightarrow> if now - tr_lastReceiveAt s \<ge> seconds PingInterval then SendPing env now s else (Inr (), s))))"

subsection \<open>The client's interface\<close>

definition HasReadyCommand :: "('n, 'd) SessionTransport \<Rightarrow> bool" where
  "HasReadyCommand s \<longleftrightarrow> tr_readyCommands s \<noteq> []"

definition TakeReadyCommand :: "('n, 'd, bytes) transport_op" where
  "TakeReadyCommand s =
     (case tr_readyCommands s of
        [] \<Rightarrow> (Inl (RuntimeError ''No session command is ready''), s)
      | c # cs \<Rightarrow> (Inr c, s\<lparr>tr_readyCommands := cs\<rparr>))"

definition HasReadyVoice :: "('n, 'd) SessionTransport \<Rightarrow> bool" where
  "HasReadyVoice s \<longleftrightarrow> tr_readyVoice s \<noteq> []"

definition TakeReadyVoice :: "('n, 'd, VoiceFrame) transport_op" where
  "TakeReadyVoice s =
     (case tr_readyVoice s of
        [] \<Rightarrow> (Inl (RuntimeError ''No voice frame is ready''), s)
      | f # fs \<Rightarrow> (Inr f, s\<lparr>tr_readyVoice := fs\<rparr>))"

definition ceil_milliseconds :: "time \<Rightarrow> int" where
  "ceil_milliseconds t = (t + 999999) div 1000000"

definition WaitTimeout :: "('n, 'd) Environment \<Rightarrow> int \<Rightarrow> ('n, 'd, int) transport_op" where
  "WaitTimeout env maximum s =
     (case transport_NextDeadline s of
        None \<Rightarrow> (Inr maximum, s)
      | Some deadline \<Rightarrow>
          op_bind (clock_now env) (\<lambda>now.
            op_return (if deadline \<le> now then 0 else min maximum (ceil_milliseconds (deadline - now)))) s)"

text \<open>\<open>ReceiveCommand\<close> waits for as long as no command is delivered: \<open>None\<close> is not returning.\<close>

partial_function (option) ReceiveCommand ::
  "('n, 'd) Environment \<Rightarrow> ('n, 'd) SessionTransport \<Rightarrow> (bytes result \<times> ('n, 'd) SessionTransport) option" where
  "ReceiveCommand env s =
     (if HasReadyCommand s then Some (TakeReadyCommand s)
      else case op_bind (ProcessTimers env) (\<lambda>_.
                op_bind (WaitTimeout env 1000) (\<lambda>timeout.
                op_bind (transport_WaitReadable env timeout) (\<lambda>readable.
                op_when readable (ProcessPacket env)))) s of
             (Inl e, s') \<Rightarrow> Some (Inl e, s')
           | (Inr _, s') \<Rightarrow> ReceiveCommand env s')"

definition SetClientId :: "u16 \<Rightarrow> ('n, 'd, unit) transport_op" where
  "SetClientId clientId s =
     (if clientId = 0 then (Inl (RuntimeError ''Invalid TeamSpeak client ID''), s)
      else (Inr (), s\<lparr>tr_clientId := clientId\<rparr>))"

definition SetConnected :: "('n, 'd) Environment \<Rightarrow> ('n, 'd, unit) transport_op" where
  "SetConnected env =
     op_bind (clock_now env) (\<lambda>now.
     op_modify (\<lambda>s. s\<lparr>tr_connected := True, tr_statistics := statistics_Reset (env_fp env) now (tr_statistics s),
                      tr_lastReceiveAt := now, tr_pendingPing := None\<rparr>))"

definition transport_Statistics :: "('n, 'd) Environment \<Rightarrow> ('n, 'd, 'd Snapshot) transport_op" where
  "transport_Statistics env = op_bind (clock_now env) (\<lambda>now. op_gets (\<lambda>s. GetSnapshot (env_fp env) now (tr_statistics s)))"

definition IsTimedOut :: "time \<Rightarrow> time \<Rightarrow> bool" where
  "IsTimedOut lastReceiveAt now \<longleftrightarrow> \<not> now \<le> lastReceiveAt \<and> now - lastReceiveAt \<ge> seconds ReceiveTimeout"

definition TimedOut :: "time \<Rightarrow> ('n, 'd) SessionTransport \<Rightarrow> bool" where
  "TimedOut now s \<longleftrightarrow> tr_connected s \<and> IsTimedOut (tr_lastReceiveAt s) now"

end
