(* ===== verification/Transport_Safety.thy ===== *)
theory Transport_Safety
  imports Session_Transport
begin

text \<open>
  The invariant of \<open>SessionTransport\<close> and the properties of its operations: every member function
  keeps the invariant on every path, whatever the socket, the clock and the cipher do, and the
  outgoing packet positions never go back. Further: what a successful and a failed send leave
  behind, the probing of a silent connection, and that waiting for a silent server ends.
\<close>

section \<open>Invariant\<close>

definition statistics_ok :: "'d ConnectionStatistics \<Rightarrow> bool" where
  "statistics_ok s \<longleftrightarrow> length (cs_sent s) = 3 \<and> length (cs_received s) = 3 \<and> length (cs_sentWindows s) = 3 \<and>
     length (cs_receivedWindows s) = 3 \<and> length (cs_loss s) = PacketTypeCount \<and> length (cs_lossWindows s) = PacketTypeCount"

definition window_ok :: "PacketType \<Rightarrow> PacketSequenceState \<Rightarrow> CommandReceiveWindow \<Rightarrow> bool" where
  "window_ok type sequences w \<longleftrightarrow> (\<exists>q. Incoming type sequences = Inr q \<and> window_inv (q, w))"

definition transport_inv :: "('n, 'd) SessionTransport \<Rightarrow> bool" where
  "transport_inv s \<longleftrightarrow> sequences_ok (tr_sequences s) \<and> queue_inv (tr_reliableCommands s) \<and>
     window_ok CommandType (tr_sequences s) (tr_commandWindow s) \<and>
     window_ok CommandLow (tr_sequences s) (tr_commandLowWindow s) \<and> statistics_ok (tr_statistics s)"

text \<open>No outgoing counter is behind \<open>B\<close>.\<close>

definition outgoing_from :: "(PacketType \<Rightarrow> nat) \<Rightarrow> ('n, 'd) SessionTransport \<Rightarrow> bool" where
  "outgoing_from B s \<longleftrightarrow> (\<forall>t q. Outgoing t (tr_sequences s) = Inr q \<longrightarrow> B t \<le> seq_pos q)"

definition transport_ok :: "(PacketType \<Rightarrow> nat) \<Rightarrow> ('n, 'd) SessionTransport \<Rightarrow> bool" where
  "transport_ok B s \<longleftrightarrow> transport_inv s \<and> outgoing_from B s"

lemma statistics_ok_record [simp]:
  "statistics_ok s \<Longrightarrow> statistics_ok (RecordSent t n now s)"
  "statistics_ok s \<Longrightarrow> statistics_ok (snd (RecordReceived t i n now s))"
  "statistics_ok s \<Longrightarrow> statistics_ok (RecordRtt fp rtt s)"
  "statistics_ok s \<Longrightarrow> statistics_ok (statistics_Reset fp now s)"
  "statistics_ok (initial_statistics fp now)"
  by (auto simp: statistics_ok_def RecordSent_def RecordReceived_def RecordRtt_def statistics_Reset_def
      initial_statistics_def Let_def PacketTypeCount_def split: option.splits sum.splits prod.splits)

text \<open>The members the invariant does not read can change freely.\<close>

lemma transport_ok_frame [simp]:
  "transport_ok B (s\<lparr>tr_net := n\<rparr>) = transport_ok B s"
  "transport_ok B (s\<lparr>tr_clientId := i\<rparr>) = transport_ok B s"
  "transport_ok B (s\<lparr>tr_connected := c\<rparr>) = transport_ok B s"
  "transport_ok B (s\<lparr>tr_lastReceiveAt := t\<rparr>) = transport_ok B s"
  "transport_ok B (s\<lparr>tr_pendingPing := p\<rparr>) = transport_ok B s"
  "transport_ok B (s\<lparr>tr_firstCommandPacketId := f\<rparr>) = transport_ok B s"
  "transport_ok B (s\<lparr>tr_readyCommands := cs\<rparr>) = transport_ok B s"
  "transport_ok B (s\<lparr>tr_readyVoice := vs\<rparr>) = transport_ok B s"
  by (simp_all add: transport_ok_def transport_inv_def outgoing_from_def)

lemma transport_ok_statistics [simp]:
  "transport_ok B s \<Longrightarrow> statistics_ok x \<Longrightarrow> transport_ok B (s\<lparr>tr_statistics := x\<rparr>)"
  "transport_ok B s \<Longrightarrow> statistics_ok (tr_statistics s)"
  by (simp_all add: transport_ok_def transport_inv_def outgoing_from_def)

lemma transport_ok_queue:
  "transport_ok B s \<Longrightarrow> queue_inv Q \<Longrightarrow> transport_ok B (s\<lparr>tr_reliableCommands := Q\<rparr>)"
  "transport_ok B s \<Longrightarrow> queue_inv (tr_reliableCommands s)"
  by (simp_all add: transport_ok_def transport_inv_def outgoing_from_def)

section \<open>Rules for sequencing\<close>

lemma op_keeps_if [intro]: "op_keeps I m \<Longrightarrow> op_keeps I m' \<Longrightarrow> op_keeps I (if b then m else m')"
  by simp

lemma op_keeps_pure [intro]: "op_keeps I (\<lambda>s. (f s, s))"
  by (simp add: op_keeps_def)

lemma op_keeps_option [intro]:
  "op_keeps I m \<Longrightarrow> (\<And>x. op_keeps I (f x)) \<Longrightarrow> op_keeps I (case opt of None \<Rightarrow> m | Some x \<Rightarrow> f x)"
  by (cases opt) simp_all

lemma op_keeps_guard [intro]:
  "op_keeps I m \<Longrightarrow> op_keeps I m' \<Longrightarrow> op_keeps I (\<lambda>s. if b s then m s else m' s)"
  by (simp add: op_keeps_def)

lemma op_keeps_const [intro]: "op_keeps I (\<lambda>s. (r, s))"
  by (simp add: op_keeps_def)

lemma on_net_keeps [intro]: "op_keeps (transport_ok B) (on_net m)"
  by (simp add: op_keeps_def op_zoom_def split: prod.splits)

lemma on_queue_keeps:
  assumes "\<And>Q. queue_inv Q \<Longrightarrow> queue_inv (snd (m Q))"
  shows "op_keeps (transport_ok B) (op_zoom tr_reliableCommands (\<lambda>Q s. s\<lparr>tr_reliableCommands := Q\<rparr>) m)"
  using assms unfolding op_keeps_def op_zoom_def
  by (auto split: prod.split intro!: transport_ok_queue(1)) (metis snd_conv transport_ok_queue(2))

lemma clock_now_keeps [intro]: "op_keeps (transport_ok B) (clock_now env)"
  by (simp add: op_keeps_def clock_now_def split: prod.splits)

lemma outgoing_sequence_keeps [intro]: "op_keeps (transport_ok B) (outgoing_sequence type)"
  by (simp add: op_keeps_def outgoing_sequence_def)

lemma resolve_incoming_keeps [intro]: "op_keeps (transport_ok B) (resolve_incoming type i)"
  by (simp add: op_keeps_def resolve_incoming_def)

lemma open_payload_keeps [intro]: "op_keeps (transport_ok B) (open_payload env m p g)"
  by (simp add: op_keeps_def open_payload_def)

text \<open>Storing a later position through an outgoing counter.\<close>

lemma Advance_not_back: "Advance q = (r, q') \<Longrightarrow> seq_pos q \<le> seq_pos q'"
  by (cases r) (auto simp: Advance_cases(1) dest!: Advance_cases(2) [THEN iffD1])

lemma advance_outgoing_keeps [intro]: "op_keeps (transport_ok B) (advance_outgoing type)"
proof (rule op_keepsI)
  fix s :: "('a, 'b) SessionTransport"
  assume ok: "transport_ok B s"
  show "transport_ok B (snd (advance_outgoing type s))"
  proof (cases "Outgoing type (tr_sequences s)")
    case (Inr q)
    obtain r q' where adv: "Advance q = (r, q')" by (rule prod.exhaust)
    let ?s = "s\<lparr>tr_sequences := set_Outgoing type q' (tr_sequences s)\<rparr>"
    have run: "snd (advance_outgoing type s) = ?s" by (simp add: advance_outgoing_def Inr adv)
    have seqs: "sequences_ok (tr_sequences s)" using ok by (simp add: transport_ok_def transport_inv_def)
    have "B t \<le> seq_pos q1" if "Outgoing t (set_Outgoing type q' (tr_sequences s)) = Inr q1" for t q1
    proof (cases "same_counter type t")
      case True
      then have "Outgoing t (tr_sequences s) = Inr q" using Inr by (simp add: Outgoing_def sequence_index_same)
      moreover have "q1 = q'" using that outgoing.fetch_store_same [OF seqs True Inr, of q'] by simp
      ultimately show ?thesis
        using ok Advance_not_back [OF adv] by (auto simp: transport_ok_def outgoing_from_def intro: order_trans)
    next
      case False
      then show ?thesis
        using that ok by (simp add: outgoing.fetch_store_other transport_ok_def outgoing_from_def)
    qed
    then have "outgoing_from B ?s" by (simp add: outgoing_from_def)
    moreover have "transport_inv ?s"
      using ok by (simp add: transport_ok_def transport_inv_def window_ok_def)
    ultimately show ?thesis by (simp add: run transport_ok_def)
  qed (use ok in \<open>simp add: advance_outgoing_def\<close>)
qed

text \<open>Moving the expected position of a stream other than the two command streams.\<close>

lemma advance_incoming_keeps:
  assumes "\<not> same_counter type CommandType" "\<not> same_counter type CommandLow"
  shows "op_keeps (transport_ok B) (advance_incoming type i g)"
  unfolding op_keeps_def
proof (intro allI impI)
  fix s :: "('a, 'b) SessionTransport"
  assume ok: "transport_ok B s"
  have "transport_ok B (s\<lparr>tr_sequences := set_Incoming type q (tr_sequences s)\<rparr>)" for q
    using ok assms
    by (simp add: transport_ok_def transport_inv_def window_ok_def outgoing_from_def incoming.fetch_store_other)
  then show "transport_ok B (snd (advance_incoming type i g s))"
    using ok by (auto simp: advance_incoming_def split: sum.split prod.split)
qed

lemma feed_window_keeps:
  "op_keeps (transport_ok B) (feed_window False CommandType i g flags data)"
  "op_keeps (transport_ok B) (feed_window True CommandLow i g flags data)"
proof -
  have other: "\<not> same_counter CommandType CommandLow" "\<not> same_counter CommandLow CommandType"
    by (simp_all add: same_counter_def)
  have keep: "window_ok t (set_Incoming t q sq) w'"
    if "window_ok t sq w" "sequences_ok sq" "Incoming t sq = Inr q0" "Feed i g flags data (q0, w) = (r, q, w')"
    for t sq w q0 r q w'
    using that Feed_inv(1) [of "(q0, w)" i g flags data r "(q, w')"] incoming.fetch_store [of sq t q0 q]
    by (auto simp: window_ok_def)
  have framed: "window_ok t' (set_Incoming t q sq) w" if "window_ok t' sq w" "\<not> same_counter t t'" for t t' q sq w
    using that by (simp add: window_ok_def incoming.fetch_store_other)
  show "op_keeps (transport_ok B) (feed_window False CommandType i g flags data)"
    unfolding op_keeps_def feed_window_def transport_ok_def transport_inv_def outgoing_from_def
    using keep [of CommandType] framed [OF _ other(1)] by (simp split: sum.split prod.split) blast
  show "op_keeps (transport_ok B) (feed_window True CommandLow i g flags data)"
    unfolding op_keeps_def feed_window_def transport_ok_def transport_inv_def outgoing_from_def
    using keep [of CommandLow] framed [OF _ other(2)] by (simp split: sum.split prod.split) blast
qed

section \<open>Every operation keeps the invariant\<close>

lemma send_packet_keeps [intro]: "op_keeps (transport_ok B) (send_packet env type packet)"
  unfolding send_packet_def transport_Send_def
  by (intro op_keeps_bind on_net_keeps clock_now_keeps op_keeps_modify) simp

lemma SendEncrypted_keeps [intro]: "op_keeps (transport_ok B) (SendEncrypted env type flags data)"
  unfolding SendEncrypted_def by (intro op_keeps_if op_keeps_throw op_keeps_bind outgoing_sequence_keeps
      op_keeps_pure send_packet_keeps advance_outgoing_keeps)

lemma SendUnencrypted_keeps [intro]: "op_keeps (transport_ok B) (SendUnencrypted env type flags data)"
  unfolding SendUnencrypted_def by (intro op_keeps_if op_keeps_throw op_keeps_bind outgoing_sequence_keeps
      op_keeps_gets send_packet_keeps advance_outgoing_keeps)

lemma SendCommandPacket_keeps [intro]: "op_keeps (transport_ok B) (SendCommandPacket env data flags)"
  unfolding SendCommandPacket_def
  by (intro op_keeps_bind outgoing_sequence_keeps op_keeps_pure clock_now_keeps on_queue_keeps Add_keeps
      op_keeps_modify send_packet_keeps advance_outgoing_keeps op_keeps_return) simp_all

lemma send_fragments_keeps: "op_keeps (transport_ok B) (send_fragments env data i fs)"
  by (induction fs arbitrary: i) auto

lemma SendCommand_keeps [intro]: "op_keeps (transport_ok B) (SendCommand env data)"
  unfolding SendCommand_def by (intro op_keeps_bind op_keeps_lift send_fragments_keeps)

lemma send_voice_payload_keeps: "op_keeps (transport_ok B) (send_voice_payload env type flags encode encrypted)"
  unfolding send_voice_payload_def
  by (intro op_keeps_bind outgoing_sequence_keeps op_keeps_lift op_keeps_pure send_packet_keeps advance_outgoing_keeps)

lemma voice_senders_keep [intro]:
  "op_keeps (transport_ok B) (SendVoice env c d e t)"
  "op_keeps (transport_ok B) (SendVoiceWhisper env c chs cls d e t)"
  "op_keeps (transport_ok B) (SendGroupWhisper env c ty ta i d e t)"
  unfolding SendVoice_def SendVoiceWhisper_def SendGroupWhisper_def by (rule send_voice_payload_keeps)+

lemma Acknowledge_keeps: "queue_inv Q \<Longrightarrow> queue_inv (snd (queue_Acknowledge i Q))"
  by (metis Acknowledge_run snd_conv)

lemma transport_Acknowledge_keeps [intro]: "op_keeps (transport_ok B) (transport_Acknowledge i)"
  unfolding transport_Acknowledge_def by (rule on_queue_keeps) (rule Acknowledge_keeps)

lemma ConfirmCommand_keeps [intro]: "op_keeps (transport_ok B) (ConfirmCommand i)"
  unfolding ConfirmCommand_def by blast

lemma control_senders_keep [intro]:
  "op_keeps (transport_ok B) (SendPing env now)"
  "op_keeps (transport_ok B) (SendAck env packet t)"
  "op_keeps (transport_ok B) (SendPong env i)"
  unfolding SendPing_def SendAck_def SendPong_def
  by (intro op_keeps_bind outgoing_sequence_keeps SendUnencrypted_keeps SendEncrypted_keeps op_keeps_modify; simp)+

lemma record_rtt_keeps [intro]:
  "op_keeps (transport_ok B) (op_bind (clock_now env) (\<lambda>now. op_modify (\<lambda>s. s\<lparr>tr_statistics := RecordRtt fp (f now) (tr_statistics s)\<rparr>)))"
  by (intro op_keeps_bind clock_now_keeps op_keeps_modify) simp

lemma HandleAck_keeps: "op_keeps (transport_ok B) (HandleAck env packet)"
  unfolding HandleAck_def Let_def
  by (intro op_keeps_bind resolve_incoming_keeps op_keeps_if op_keeps_gets op_keeps_option op_keeps_return
      transport_Acknowledge_keeps advance_incoming_keeps open_payload_keeps op_keeps_throw op_keeps_lift op_keeps_when
      record_rtt_keeps) (simp_all add: same_counter_def)

lemma HandleAckLow_keeps: "op_keeps (transport_ok B) (HandleAckLow env packet)"
  unfolding HandleAckLow_def Let_def
  by (intro op_keeps_bind resolve_incoming_keeps op_keeps_if advance_incoming_keeps open_payload_keeps op_keeps_throw)
     (simp_all add: same_counter_def)

lemma HandlePing_keeps: "op_keeps (transport_ok B) (HandlePing env packet)"
  unfolding HandlePing_def by (intro op_keepsI) (auto dest: op_keepsD [OF control_senders_keep(3)])

lemma pong_match_keeps:
  "op_keeps (transport_ok B) (op_bind (clock_now env) (\<lambda>now. op_modify (\<lambda>s. s\<lparr>tr_statistics :=
     RecordRtt fp (f now) (tr_statistics s), tr_pendingPing := None\<rparr>)))"
  by (intro op_keeps_bind clock_now_keeps op_keeps_modify) simp

lemma HandlePong_keeps: "op_keeps (transport_ok B) (HandlePong env packet)"
  unfolding HandlePong_def
  by (intro op_keeps_guard op_keeps_const op_keeps_bind op_keeps_lift op_keeps_gets op_keeps_option op_keeps_when
      op_keeps_return pong_match_keeps)

lemma command_handlers_keep:
  "op_keeps (transport_ok B) (HandleCommand env packet)" "op_keeps (transport_ok B) (HandleCommandLow env packet)"
  unfolding HandleCommand_def HandleCommandLow_def ProcessIncomingCommand_def Let_def
  by (intro op_keeps_bind resolve_incoming_keeps op_keeps_pure control_senders_keep feed_window_keeps op_keeps_modify; simp)+

lemma HandleVoice_keeps:
  "sh_type (sp_header packet) \<in> {Voice, VoiceWhisper} \<Longrightarrow> op_keeps (transport_ok B) (HandleVoice env packet)"
  unfolding HandleVoice_def Let_def
  by (intro op_keeps_bind resolve_incoming_keeps open_payload_keeps op_keeps_lift op_keeps_modify advance_incoming_keeps)
     (auto simp: same_counter_def)

lemma dispatch_packet_keeps: "op_keeps (transport_ok B) (dispatch_packet env (sh_type (sp_header packet)) packet)"
  by (cases "sh_type (sp_header packet)")
     (simp_all add: HandleAck_keeps HandleAckLow_keeps HandlePing_keeps HandlePong_keeps command_handlers_keep
       HandleVoice_keeps op_keeps_throw op_keeps_return)

lemma record_received_keeps:
  "op_keeps (transport_ok B) (op_zoom tr_statistics (\<lambda>x s. s\<lparr>tr_statistics := x\<rparr>) (RecordReceived type i n now))"
  unfolding op_keeps_def
proof (intro allI impI)
  fix s :: "('n, 'd) SessionTransport"
  assume ok: "transport_ok B s"
  obtain r x where x: "RecordReceived type i n now (tr_statistics s) = (r, x)" by (rule prod.exhaust)
  have "statistics_ok x"
    using statistics_ok_record(2) [OF transport_ok_statistics(2) [OF ok], of type i n now] by (simp only: x snd_conv)
  with ok x show "transport_ok B (snd (op_zoom tr_statistics (\<lambda>x s. s\<lparr>tr_statistics := x\<rparr>) (RecordReceived type i n now) s))"
    by (simp add: op_zoom_def)
qed

lemma ProcessPacket_keeps [intro]: "op_keeps (transport_ok B) (ProcessPacket env)"
  unfolding ProcessPacket_def ReceivePacket_def transport_Receive_def Let_def
  by (intro op_keeps_bind on_net_keeps op_keeps_lift dispatch_packet_keeps clock_now_keeps record_received_keeps
      op_keeps_modify) simp

lemma ProcessTimers_keeps [intro]: "op_keeps (transport_ok B) (ProcessTimers env)"
proof -
  have ping: "transport_ok B (snd (SendPing env now s))" if "transport_ok B s" for now and s :: "('a, 'b) SessionTransport"
    using op_keepsD [OF control_senders_keep(1) that] .
  show ?thesis
    unfolding ProcessTimers_def
    by (intro op_keeps_bind clock_now_keeps on_queue_keeps CollectDue_inv op_keeps_for send_packet_keeps, assumption)
       (rule op_keepsI, auto split: option.split intro!: ping)
qed

lemma SetConnected_keeps [intro]: "op_keeps (transport_ok B) (SetConnected env)"
  unfolding SetConnected_def by (intro op_keeps_bind clock_now_keeps op_keeps_modify) simp

lemma client_interface_keeps [intro]:
  "op_keeps (transport_ok B) (SetClientId i)" "op_keeps (transport_ok B) TakeReadyCommand"
  "op_keeps (transport_ok B) TakeReadyVoice" "op_keeps (transport_ok B) (transport_Statistics env)"
  by (auto simp: op_keeps_def SetClientId_def TakeReadyCommand_def TakeReadyVoice_def transport_Statistics_def
      clock_now_def op_bind_def split: list.split prod.splits)

section \<open>What a successful send does\<close>

lemma send_packet_run:
  "send_packet env type packet s =
     (case env_send env packet (tr_net s) of
        (Inl e, n) \<Rightarrow> (Inl e, s\<lparr>tr_net := n\<rparr>)
      | (Inr _, n) \<Rightarrow> (case env_now env n of (now, n') \<Rightarrow>
          (Inr (), s\<lparr>tr_net := n', tr_statistics :=
             RecordSent type (length packet + Ipv4UdpOverhead) now (tr_statistics s)\<rparr>)))"
  by (auto simp: send_packet_def transport_Send_def op_zoom_def clock_now_def op_bind_def split: prod.split sum.split)

lemma send_packet_frame:
  "send_packet env type packet s = (r, s') \<Longrightarrow> s' = s\<lparr>tr_net := tr_net s', tr_statistics := tr_statistics s'\<rparr>"
  by (auto simp: send_packet_run split: prod.splits sum.splits)

lemma SendEncrypted_Inr:
  "SendEncrypted env type flags data s = (Inr u, s') \<Longrightarrow>
   \<exists>q packet s0. Outgoing type (tr_sequences s) = Inr q \<and> CreateEncryptedPacket env type flags data q s = Inr packet \<and>
     send_packet env type packet s = (Inr (), s0) \<and> advance_outgoing type s0 = (Inr (), s')"
  by (auto simp: SendEncrypted_def op_bind_eq_Inr outgoing_sequence_def split: if_splits)

definition same_session :: "('n, 'd) SessionTransport \<Rightarrow> ('n, 'd) SessionTransport \<Rightarrow> bool" where
  "same_session s s' \<longleftrightarrow> tr_clientId s' = tr_clientId s \<and> tr_crypto s' = tr_crypto s"

lemma CreateEncryptedPacket_same:
  "same_session s s' \<Longrightarrow> CreateEncryptedPacket env t f d q s' = CreateEncryptedPacket env t f d q s"
  by (simp add: same_session_def CreateEncryptedPacket_def)

lemma advance_outgoing_Inr:
  assumes "sequences_ok (tr_sequences s)" and "advance_outgoing type s = (Inr u, s')"
  shows "\<exists>q q'. Outgoing type (tr_sequences s) = Inr q \<and> Outgoing type (tr_sequences s') = Inr q' \<and>
    seq_pos q' = Suc (seq_pos q) \<and> s' = s\<lparr>tr_sequences := set_Outgoing type q' (tr_sequences s)\<rparr>"
proof -
  obtain q where q: "Outgoing type (tr_sequences s) = Inr q"
    using assms(2) by (auto simp: advance_outgoing_def split: sum.splits)
  obtain q' where q': "Advance q = (Inr (), q')" "s' = s\<lparr>tr_sequences := set_Outgoing type q' (tr_sequences s)\<rparr>"
    using assms(2) q by (auto simp: advance_outgoing_def split: prod.splits)
  then show ?thesis
    using q outgoing.fetch_store [OF assms(1) q, of q'] by (auto simp: Advance_cases(2))
qed

text \<open>The state in which a command packet goes to the socket: queued, with the sequence not yet moved.\<close>

definition command_queued :: "PacketSequence \<Rightarrow> ReliableCommandQueue \<Rightarrow> 'n \<Rightarrow> ('n, 'd) SessionTransport \<Rightarrow> ('n, 'd) SessionTransport" where
  "command_queued q Q n s = s\<lparr>tr_net := n, tr_reliableCommands := Q, tr_firstCommandPacketId :=
     (if tr_firstCommandPacketId s = None then Some (ps_packetId q) else tr_firstCommandPacketId s)\<rparr>"

lemma SendCommandPacket_run:
  assumes "Outgoing CommandType (tr_sequences s) = Inr q"
    and "CreateEncryptedPacket env CommandType flags data q s = Inr packet" and "env_now env (tr_net s) = (now, n)"
    and "queue_Add (ps_packetId q) (ps_generationId q) packet now (tr_reliableCommands s) = (Inr (), Q)"
  shows "SendCommandPacket env data flags s =
     op_bind (send_packet env CommandType packet) (\<lambda>_. op_bind (advance_outgoing CommandType) (\<lambda>_. op_return (ps_packetId q)))
       (command_queued q Q n s)"
proof -
  have "(if tr_firstCommandPacketId s = None then x\<lparr>tr_firstCommandPacketId := Some (ps_packetId q)\<rparr> else x) =
      command_queued q Q n s" if "x = s\<lparr>tr_net := n, tr_reliableCommands := Q\<rparr>" for x
    by (simp add: that command_queued_def)
  then show ?thesis
    using assms by (simp add: SendCommandPacket_def outgoing_sequence_def op_bind_run clock_now_def op_zoom_def)
qed

lemma SendCommandPacket_Inr:
  assumes ok: "transport_ok B s" and run: "SendCommandPacket env data flags s = (Inr i, s')"
  shows "\<exists>q q' packet now. Outgoing CommandType (tr_sequences s) = Inr q \<and> i = ps_packetId q \<and>
    Outgoing CommandType (tr_sequences s') = Inr q' \<and> seq_pos q' = Suc (seq_pos q) \<and> same_session s s' \<and>
    CreateEncryptedPacket env CommandType flags data q s = Inr packet \<and> pending_of (tr_reliableCommands s) i = None \<and>
    pending_of (tr_reliableCommands s') = (pending_of (tr_reliableCommands s))(i \<mapsto> new_pending i (ps_generationId q) packet now)"
proof -
  obtain q where q: "Outgoing CommandType (tr_sequences s) = Inr q"
    using run by (auto simp: SendCommandPacket_def outgoing_sequence_def op_bind_eq_Inr)
  obtain packet where packet: "CreateEncryptedPacket env CommandType flags data q s = Inr packet"
    using run q by (auto simp: SendCommandPacket_def outgoing_sequence_def op_bind_eq_Inr)
  obtain now n where now: "env_now env (tr_net s) = (now, n)" by (rule prod.exhaust)
  have inv: "queue_inv (tr_reliableCommands s)" using ok by (rule transport_ok_queue(2))
  define Q where "Q = sm_put (SequenceKey (ps_packetId q) (ps_generationId q))
      (new_pending (ps_packetId q) (ps_generationId q) packet now) (tr_reliableCommands s)"
  have fresh: "pending_of (tr_reliableCommands s) (ps_packetId q) = None"
    and add: "queue_Add (ps_packetId q) (ps_generationId q) packet now (tr_reliableCommands s) = (Inr (), Q)"
    using run q packet now unfolding Q_def
    by (auto simp: SendCommandPacket_def outgoing_sequence_def op_bind_eq_Inr clock_now_def op_zoom_def Add_cases [OF inv]
        split: if_splits)
  obtain s2 where s2: "send_packet env CommandType packet (command_queued q Q n s) = (Inr (), s2)"
      and adv: "advance_outgoing CommandType s2 = (Inr (), s')" and i: "i = ps_packetId q"
    using run unfolding SendCommandPacket_run [OF q packet now add] by (auto simp: op_bind_eq_Inr)
  have frame: "tr_sequences s2 = tr_sequences s" "tr_clientId s2 = tr_clientId s" "tr_crypto s2 = tr_crypto s"
      "tr_reliableCommands s2 = Q"
    using s2 by (auto simp: send_packet_run command_queued_def split: prod.splits sum.splits)
  have "sequences_ok (tr_sequences s2)" using ok frame by (simp add: transport_ok_def transport_inv_def)
  from advance_outgoing_Inr [OF this adv] obtain q' where
    "Outgoing CommandType (tr_sequences s') = Inr q'" "seq_pos q' = Suc (seq_pos q)"
    "s' = s2\<lparr>tr_sequences := set_Outgoing CommandType q' (tr_sequences s2)\<rparr>"
    using q frame by auto
  moreover have "pending_of Q = (pending_of (tr_reliableCommands s))
      (i \<mapsto> new_pending i (ps_generationId q) packet now)"
    using pending_of_put [OF fresh_id_fresh_key [OF inv fresh]] fresh by (simp add: Q_def i)
  ultimately show ?thesis
    using q packet fresh frame i by (auto simp: same_session_def)
qed

text \<open>A command fragment waits for its acknowledgement at the given position, sealed there.\<close>

definition fragment_pending ::
  "('n, 'd) Environment \<Rightarrow> ('n, 'd) SessionTransport \<Rightarrow> bytes \<Rightarrow> ('n, 'd) SessionTransport \<Rightarrow> nat \<Rightarrow> CommandFragment \<Rightarrow> bool" where
  "fragment_pending env s data s' pos f \<longleftrightarrow>
     (\<exists>q p. seq_pos q = pos \<and> pending_of (tr_reliableCommands s') (ps_packetId q) = Some p \<and>
        pc_generationId p = ps_generationId q \<and> \<not> pc_retransmitted p \<and>
        CreateEncryptedPacket env CommandType (cf_flags f) (fragment_slice data f) q s = Inr (pc_packet p))"

lemma send_fragments_Inr:
  assumes "transport_ok B s" and "send_fragments env data i fs s = (Inr j, s')"
    and "Outgoing CommandType (tr_sequences s) = Inr q"
  shows "same_session s s' \<and> pending_of (tr_reliableCommands s) \<subseteq>\<^sub>m pending_of (tr_reliableCommands s') \<and>
    (\<exists>q'. Outgoing CommandType (tr_sequences s') = Inr q' \<and> seq_pos q' = seq_pos q + length fs) \<and>
    (\<forall>k < length fs. fragment_pending env s data s' (seq_pos q + k) (fs ! k))"
  using assms
proof (induction fs arbitrary: i s q)
  case Nil
  then show ?case by (simp add: same_session_def)
next
  case (Cons f fs)
  obtain i1 s1 where first: "SendCommandPacket env (fragment_slice data f) (cf_flags f) s = (Inr i1, s1)"
      and rest: "send_fragments env data i1 fs s1 = (Inr j, s')"
    using Cons.prems(2) by (auto simp: op_bind_eq_Inr)
  obtain q1 packet now where one: "i1 = ps_packetId q" "Outgoing CommandType (tr_sequences s1) = Inr q1"
      "seq_pos q1 = Suc (seq_pos q)" "same_session s s1"
      "CreateEncryptedPacket env CommandType (cf_flags f) (fragment_slice data f) q s = Inr packet"
      "pending_of (tr_reliableCommands s) i1 = None"
      "pending_of (tr_reliableCommands s1) =
         (pending_of (tr_reliableCommands s))(i1 \<mapsto> new_pending i1 (ps_generationId q) packet now)"
    using SendCommandPacket_Inr [OF Cons.prems(1) first] Cons.prems(3) by auto
  have ok1: "transport_ok B s1" by (rule op_keepsD' [OF SendCommandPacket_keeps Cons.prems(1) first])
  note IH = Cons.IH [OF ok1 rest one(2)]
  have grow: "pending_of (tr_reliableCommands s) \<subseteq>\<^sub>m pending_of (tr_reliableCommands s1)"
    using one(6,7) by (auto simp: map_le_def)
  have "pending_of (tr_reliableCommands s') i1 = Some (new_pending i1 (ps_generationId q) packet now)"
    using IH one(7) by (auto simp: map_le_def dom_def)
  then have head: "fragment_pending env s data s' (seq_pos q) f"
    unfolding fragment_pending_def using one(1,5) by (intro exI [of _ q]) auto
  have tail: "fragment_pending env s data s' (seq_pos q + Suc k) (fs ! k)" if "k < length fs" for k
    using IH that one(3) CreateEncryptedPacket_same [OF one(4)] by (simp add: fragment_pending_def)
  have "\<forall>k < length (f # fs). fragment_pending env s data s' (seq_pos q + k) ((f # fs) ! k)"
    using head tail by (auto simp: less_Suc_eq_0_disj)
  moreover have "same_session s s'" using one(4) IH by (simp add: same_session_def)
  moreover have "pending_of (tr_reliableCommands s) \<subseteq>\<^sub>m pending_of (tr_reliableCommands s')"
    using grow IH map_le_trans by blast
  ultimately show ?case using IH one(3) by simp
qed

section \<open>Reachable states\<close>

text \<open>
  One call of the public interface, with the state it leaves whether or not it throws. The
  blocking \<open>ReceiveCommand\<close> is a sequence of such calls.
\<close>

inductive transport_step :: "('n, 'd) Environment \<Rightarrow> ('n, 'd) SessionTransport \<Rightarrow> ('n, 'd) SessionTransport \<Rightarrow> bool" for env where
  step_command: "SendCommand env data s = (r, s') \<Longrightarrow> transport_step env s s'"
| step_voice: "SendVoice env codec data encrypted start s = (r, s') \<Longrightarrow> transport_step env s s'"
| step_whisper: "SendVoiceWhisper env codec chs cls data encrypted start s = (r, s') \<Longrightarrow> transport_step env s s'"
| step_group_whisper: "SendGroupWhisper env codec ty ta i data encrypted start s = (r, s') \<Longrightarrow> transport_step env s s'"
| step_confirm: "ConfirmCommand i s = (r, s') \<Longrightarrow> transport_step env s s'"
| step_packet: "ProcessPacket env s = (r, s') \<Longrightarrow> transport_step env s s'"
| step_timers: "ProcessTimers env s = (r, s') \<Longrightarrow> transport_step env s s'"
| step_take_command: "TakeReadyCommand s = (r, s') \<Longrightarrow> transport_step env s s'"
| step_take_voice: "TakeReadyVoice s = (r, s') \<Longrightarrow> transport_step env s s'"
| step_client_id: "SetClientId i s = (r, s') \<Longrightarrow> transport_step env s s'"
| step_connected: "SetConnected env s = (r, s') \<Longrightarrow> transport_step env s s'"

lemma transport_step_ok: "transport_step env s s' \<Longrightarrow> transport_ok B s \<Longrightarrow> transport_ok B s'"
  by (induction rule: transport_step.induct) (auto elim: op_keepsD' [rotated 2])

lemma transport_steps_ok: "(transport_step env)\<^sup>*\<^sup>* s s' \<Longrightarrow> transport_ok B s \<Longrightarrow> transport_ok B s'"
  by (induction rule: rtranclp_induct) (auto intro: transport_step_ok)

lemma make_SessionTransport_inv:
  "sequences_ok sequences \<Longrightarrow> transport_inv (make_SessionTransport env crypto sequences n)"
  by (auto simp: make_SessionTransport_def transport_inv_def queue_inv_empty window_ok_def window_inv_empty
      Incoming_def sequence_index_def TrackedPacketTypeCount_def split: prod.split)

section \<open>Properties\<close>

text \<open>
  C6: the class invariant holds in every state of a session and outgoing positions only move
  forward. From the constructed transport, after any sequence of calls and exceptions, with any
  socket, clock and cipher: the pending queue holds distinct ids in sequence order, both receive
  windows are within their bounds, and no outgoing counter is behind an earlier value, so a
  position that was consumed is never used for another packet.
\<close>

theorem transport_reachable_ok:
  assumes "sequences_ok sequences"
    and "(transport_step env)\<^sup>*\<^sup>* (make_SessionTransport env crypto sequences n) s"
    and "(transport_step env)\<^sup>*\<^sup>* s s'"
  shows "transport_inv s' \<and>
    (\<forall>type q q'. Outgoing type (tr_sequences s) = Inr q \<and> Outgoing type (tr_sequences s') = Inr q' \<longrightarrow> seq_pos q \<le> seq_pos q')"
proof -
  define B where "B = (\<lambda>t. case Outgoing t (tr_sequences s) of Inl _ \<Rightarrow> 0 | Inr q \<Rightarrow> seq_pos q)"
  have "transport_ok (\<lambda>_. 0) (make_SessionTransport env crypto sequences n)"
    by (simp add: transport_ok_def outgoing_from_def make_SessionTransport_inv assms(1))
  then have "transport_ok (\<lambda>_. 0) s" by (rule transport_steps_ok [OF assms(2)])
  then have "transport_ok B s" by (simp add: transport_ok_def outgoing_from_def B_def)
  then have "transport_ok B s'" by (rule transport_steps_ok [OF assms(3)])
  then show ?thesis unfolding transport_ok_def outgoing_from_def B_def by fastforce
qed

text \<open>
  C11: a command that \<open>SendCommand\<close> accepted is queued completely. Its fragments are the planned
  ones; the k-th is encrypted at the k-th position from the current one, is pending under that
  position and has not been retransmitted, and the outgoing position moves past all of them.
  Commands that were pending before stay pending.
\<close>

theorem sent_command_queued:
  assumes "transport_inv s" and "SendCommand env data s = (Inr packetId, s')"
  shows "\<exists>fs q q'. Plan (length data) = Inr fs \<and> Outgoing CommandType (tr_sequences s) = Inr q \<and>
    Outgoing CommandType (tr_sequences s') = Inr q' \<and> seq_pos q' = seq_pos q + length fs \<and>
    (\<forall>k < length fs. fragment_pending env s data s' (seq_pos q + k) (fs ! k)) \<and>
    pending_of (tr_reliableCommands s) \<subseteq>\<^sub>m pending_of (tr_reliableCommands s')"
proof -
  have ok: "transport_ok (\<lambda>_. 0) s" using assms(1) by (simp add: transport_ok_def outgoing_from_def)
  obtain fs where fs: "Plan (length data) = Inr fs" "send_fragments env data 0 fs s = (Inr packetId, s')"
    using assms(2) by (auto simp: SendCommand_def op_bind_eq_Inr)
  obtain q where q: "Outgoing CommandType (tr_sequences s) = Inr q"
    by (simp add: Outgoing_def sequence_index_def TrackedPacketTypeCount_def)
  show ?thesis using send_fragments_Inr [OF ok fs(2) q] fs(1) q by blast
qed

text \<open>
  C28: a socket error while a command packet is sent leaves the packet queued and its position
  unconsumed. Until the server acknowledges that packet, which the retransmission timer still
  sends, every further command fails; after the acknowledgement the next command is encrypted
  at the very position of the acknowledged one.
\<close>

theorem failed_send_blocks_commands:
  assumes "transport_inv s" and "Outgoing CommandType (tr_sequences s) = Inr q"
    and "CreateEncryptedPacket env CommandType flags data q s = Inr packet"
    and "length (tr_reliableCommands s) < MaxPendingCommands" and "\<not> IsCommandPending (ps_packetId q) s"
    and "env_send env packet (snd (env_now env (tr_net s))) = (Inl e, n)"
  shows "\<exists>s'. SendCommandPacket env data flags s = (Inl e, s') \<and> IsCommandPending (ps_packetId q) s' \<and>
    Outgoing CommandType (tr_sequences s') = Inr q \<and>
    (\<forall>data' flags'. \<exists>e'. fst (SendCommandPacket env data' flags' s') = Inl e') \<and>
    (case ConfirmCommand (ps_packetId q) s' of
       (r, s'') \<Rightarrow> r = Inr () \<and> \<not> IsCommandPending (ps_packetId q) s'' \<and> Outgoing CommandType (tr_sequences s'') = Inr q)"
proof -
  have inv: "queue_inv (tr_reliableCommands s)" using assms(1) by (simp add: transport_inv_def)
  have ok: "transport_ok (\<lambda>_. 0) s" using assms(1) by (simp add: transport_ok_def outgoing_from_def)
  obtain now n0 where now: "env_now env (tr_net s) = (now, n0)" by (rule prod.exhaust)
  define Q where "Q = snd (queue_Add (ps_packetId q) (ps_generationId q) packet now (tr_reliableCommands s))"
  have fresh: "pending_of (tr_reliableCommands s) (ps_packetId q) = None"
    using assms(5) by (simp add: IsCommandPending_def Contains_iff)
  then have add: "queue_Add (ps_packetId q) (ps_generationId q) packet now (tr_reliableCommands s) = (Inr (), Q)"
    using assms(4) by (simp add: Q_def Add_cases [OF inv])
  let ?s = "(command_queued q Q n0 s)\<lparr>tr_net := n\<rparr>"
  have "send_packet env CommandType packet (command_queued q Q n0 s) = (Inl e, ?s)"
    using assms(6) now by (simp add: send_packet_run command_queued_def)
  then have run: "SendCommandPacket env data flags s = (Inl e, ?s)"
    unfolding SendCommandPacket_run [OF assms(2,3) now add] by (simp add: op_bind_run)
  have Q: "tr_reliableCommands ?s = Q" "tr_sequences ?s = tr_sequences s" by (simp_all add: command_queued_def)
  have Qinv: "queue_inv Q" using Add_keeps [OF inv] by (simp add: Q_def)
  have "pending_of Q (ps_packetId q) \<noteq> None"
    using pending_of_put [OF fresh_id_fresh_key [OF inv fresh]] fresh assms(4) by (simp add: Q_def Add_cases [OF inv])
  then have pending: "IsCommandPending (ps_packetId q) ?s" by (simp add: IsCommandPending_def Contains_iff Q)
  have ok': "transport_ok (\<lambda>_. 0) ?s" by (rule op_keepsD' [OF SendCommandPacket_keeps ok run])
  have blocked: "\<exists>e'. fst (SendCommandPacket env data' flags' ?s) = Inl e'" for data' flags'
  proof (cases "SendCommandPacket env data' flags' ?s")
    case (Pair r s1)
    have False if "r = Inr i" for i
    proof -
      have "Outgoing CommandType (tr_sequences ?s) = Inr (q :: PacketSequence) \<and> pending_of Q (ps_packetId q) = None"
        using SendCommandPacket_Inr [OF ok' Pair [unfolded that]] assms(2) unfolding Q by auto
      with pending show False by (simp add: IsCommandPending_def Contains_iff Q)
    qed
    with Pair show ?thesis by (cases r) auto
  qed
  obtain Q' where "queue_Acknowledge (ps_packetId q) Q = (Inr (map_option ack_of (pending_of Q (ps_packetId q))), Q')"
      "pending_of Q' = (pending_of Q)(ps_packetId q := None)"
    using Acknowledge_run [OF Qinv] by blast
  then have "case ConfirmCommand (ps_packetId q) ?s of
       (r, s'') \<Rightarrow> r = Inr () \<and> \<not> IsCommandPending (ps_packetId q) s'' \<and> Outgoing CommandType (tr_sequences s'') = Inr q"
    by (simp add: ConfirmCommand_def transport_Acknowledge_def op_bind_def op_zoom_def Q assms(2)
        command_queued_def IsCommandPending_def Contains_iff)
  moreover have "Outgoing CommandType (tr_sequences ?s) = Inr q" using assms(2) by (simp only: Q)
  ultimately show ?thesis by (intro exI [of _ ?s] conjI allI run pending blocked)
qed

text \<open>
  A command packet that was already processed is acknowledged again and delivered never
  again. A copy below the expected position consumes one position of the acknowledgement stream
  and changes neither the ready commands nor the windows nor the expected positions.
\<close>

theorem repeated_command_only_acknowledged:
  assumes "transport_inv s" and "Incoming CommandType (tr_sequences s) = Inr expected"
    and "ResolveGeneration expected (sh_packetId (sp_header packet)) = Inr generationId"
    and "key_nat (sh_packetId (sp_header packet)) generationId < seq_pos expected"
    and "HandleCommand env packet s = (Inr (), s')"
  shows "tr_readyCommands s' = tr_readyCommands s \<and> tr_commandWindow s' = tr_commandWindow s \<and>
    tr_commandLowWindow s' = tr_commandLowWindow s \<and>
    (\<forall>type. Incoming type (tr_sequences s') = Incoming type (tr_sequences s)) \<and>
    (\<exists>q q'. Outgoing Ack (tr_sequences s) = Inr q \<and> Outgoing Ack (tr_sequences s') = Inr q' \<and> seq_pos q' = Suc (seq_pos q))"
proof -
  let ?i = "sh_packetId (sp_header packet)"
  obtain plaintext s1 ready s2 where
      ack: "SendAck env packet Ack s = (Inr (), s1)"
    and feed: "feed_window False CommandType ?i generationId (sh_flags (sp_header packet)) plaintext s1 = (Inr ready, s2)"
    and s': "s' = s2\<lparr>tr_readyCommands := tr_readyCommands s2 @ ready\<rparr>"
    using assms(5) unfolding HandleCommand_def ProcessIncomingCommand_def Let_def
    by (auto simp: op_bind_eq_Inr resolve_incoming_def assms(2,3))
  obtain s0 where s0: "advance_outgoing Ack s0 = (Inr (), s1)" "tr_sequences s0 = tr_sequences s"
      "tr_readyCommands s0 = tr_readyCommands s" "tr_commandWindow s0 = tr_commandWindow s"
      "tr_commandLowWindow s0 = tr_commandLowWindow s"
  proof -
    obtain p s0 where "send_packet env Ack p s = (Inr (), s0)" "advance_outgoing Ack s0 = (Inr (), s1)"
      using SendEncrypted_Inr [OF ack [unfolded SendAck_def]] by blast
    moreover from send_packet_frame [OF this(1)] have "tr_sequences s0 = tr_sequences s"
      "tr_readyCommands s0 = tr_readyCommands s" "tr_commandWindow s0 = tr_commandWindow s"
      "tr_commandLowWindow s0 = tr_commandLowWindow s"
      by (metis SessionTransport.ext_inject SessionTransport.surjective SessionTransport.update_convs(1,5))+
    ultimately show thesis using that by blast
  qed
  have "sequences_ok (tr_sequences s0)" using assms(1) s0(2) by (simp add: transport_inv_def)
  from advance_outgoing_Inr [OF this s0(1)] obtain q q' where
    q: "Outgoing Ack (tr_sequences s) = Inr q" "Outgoing Ack (tr_sequences s1) = Inr q'" "seq_pos q' = Suc (seq_pos q)"
      "s1 = s0\<lparr>tr_sequences := set_Outgoing Ack q' (tr_sequences s0)\<rparr>"
    using s0(2) by auto
  have exp: "Incoming CommandType (tr_sequences s1) = Inr expected" using assms(2) s0(2) q(4) by simp
  have "Feed ?i generationId (sh_flags (sp_header packet)) plaintext (expected, tr_commandWindow s1) =
      (Inr [], expected, tr_commandWindow s1)"
    by (rule Feed_cases(1)) (simp add: SequenceKey_less_iff SequenceKey_of_def assms(4) [unfolded seq_pos_def])
  then have s2: "ready = []" "s2 = s1\<lparr>tr_sequences := set_Incoming CommandType expected (tr_sequences s1)\<rparr>"
    using feed by (auto simp: feed_window_def exp)
  have "Incoming t (set_Incoming CommandType expected (tr_sequences s1)) = Incoming t (tr_sequences s1)" for t
  proof (cases "same_counter CommandType t")
    case True
    have "sequences_ok (tr_sequences s1)" using assms(1) s0(2) q(4) by (simp add: transport_inv_def)
    from incoming.fetch_store_same [OF this True exp] True exp show ?thesis
      by (simp add: Incoming_def sequence_index_same)
  qed (rule incoming.fetch_store_other)
  then show ?thesis using q s0 s2 s' by simp
qed

text \<open>
  The blocking wait is bounded by its maximum and by the retransmission deadline. With a
  clock reading \<open>now\<close>, \<open>WaitTimeout\<close> returns the maximum or a time that ends at or less than a
  millisecond after the deadline; it is zero exactly when the deadline has passed.
\<close>

theorem wait_timeout_reaches_deadline:
  assumes "0 \<le> maximum" and "env_now env (tr_net s) = (now, n)"
  shows "case WaitTimeout env maximum s of
     (Inl e, s') \<Rightarrow> False
   | (Inr wait, s') \<Rightarrow> 0 \<le> wait \<and> wait \<le> maximum \<and>
       (case transport_NextDeadline s of
          None \<Rightarrow> wait = maximum
        | Some deadline \<Rightarrow> (deadline \<le> now \<longrightarrow> wait = 0) \<and> (now < deadline \<and> 0 < maximum \<longrightarrow> 0 < wait) \<and>
            (now + milliseconds wait < deadline \<longrightarrow> wait = maximum) \<and>
            (now < deadline \<longrightarrow> now + milliseconds wait < deadline + milliseconds 1))"
proof (cases "transport_NextDeadline s")
  case None
  then show ?thesis using assms by (simp add: WaitTimeout_def)
next
  case (Some deadline)
  let ?c = "ceil_milliseconds (deadline - now)"
  have c: "deadline - now \<le> milliseconds ?c" "milliseconds ?c < deadline - now + milliseconds 1"
    using div_mult_mod_eq [of "deadline - now + 999999" "1000000 :: int"]
      pos_mod_bound [of "1000000 :: int" "deadline - now + 999999"] pos_mod_sign [of "1000000 :: int" "deadline - now + 999999"]
    by (simp_all add: ceil_milliseconds_def milliseconds_def)
  have pos: "0 < ?c" if "now < deadline" using c(1) that by (simp add: milliseconds_def)
  show ?thesis
    using assms Some c pos
    by (auto simp: WaitTimeout_def clock_now_def op_bind_def min_def milliseconds_def)
qed


text \<open>
  The loop of \<open>ReceiveCommand\<close> with a bound on its rounds; \<open>None\<close> when the bound is not enough.
\<close>

definition receive_cycle :: "('n, 'd) Environment \<Rightarrow> ('n, 'd, unit) transport_op" where
  "receive_cycle env =
     op_bind (ProcessTimers env) (\<lambda>_.
     op_bind (WaitTimeout env 1000) (\<lambda>timeout.
     op_bind (transport_WaitReadable env timeout) (\<lambda>readable.
     op_when readable (ProcessPacket env))))"

fun receive_within :: "nat \<Rightarrow> ('n, 'd) Environment \<Rightarrow> ('n, 'd) SessionTransport \<Rightarrow> (bytes result \<times> ('n, 'd) SessionTransport) option" where
  "receive_within n env s =
     (if tr_readyCommands s \<noteq> [] then Some (Inr (hd (tr_readyCommands s)), s\<lparr>tr_readyCommands := tl (tr_readyCommands s)\<rparr>)
      else case n of 0 \<Rightarrow> None
           | Suc m \<Rightarrow> (case receive_cycle env s of (Inl e, s') \<Rightarrow> Some (Inl e, s') | (Inr _, s') \<Rightarrow> receive_within m env s'))"

declare receive_within.simps [simp del]

lemma ReceiveCommand_unfold:
  "ReceiveCommand env s =
     (if tr_readyCommands s \<noteq> [] then Some (Inr (hd (tr_readyCommands s)), s\<lparr>tr_readyCommands := tl (tr_readyCommands s)\<rparr>)
      else case receive_cycle env s of (Inl e, s') \<Rightarrow> Some (Inl e, s') | (Inr _, s') \<Rightarrow> ReceiveCommand env s')"
  by (subst ReceiveCommand.simps)
     (auto simp: HasReadyCommand_def TakeReadyCommand_def receive_cycle_def neq_Nil_conv)

lemma ReceiveCommand_bounded:
  assumes "ReceiveCommand env s = Some x"
  shows "\<exists>n. receive_within n env s = Some x"
proof (rule ReceiveCommand.raw_induct [OF _ assms])
  fix rec and env :: "('a, 'b) Environment" and s x
  assume IH: "\<And>env s x. rec env s = Some x \<Longrightarrow> \<exists>n. receive_within n env s = Some x"
    and raw: "(if HasReadyCommand s then Some (TakeReadyCommand s)
      else case op_bind (ProcessTimers env) (\<lambda>_. op_bind (WaitTimeout env 1000) (\<lambda>timeout.
             op_bind (transport_WaitReadable env timeout) (\<lambda>readable. op_when readable (ProcessPacket env)))) s of
           (Inl e, s') \<Rightarrow> Some (Inl e, s') | (Inr _, s') \<Rightarrow> rec env s') = Some x"
  have step: "(if HasReadyCommand s then Some (TakeReadyCommand s)
      else case receive_cycle env s of (Inl e, s') \<Rightarrow> Some (Inl e, s') | (Inr _, s') \<Rightarrow> rec env s') = Some x"
    using raw unfolding receive_cycle_def .
  show "\<exists>n. receive_within n env s = Some x"
  proof (cases "tr_readyCommands s = []")
    case False
    then have "receive_within 0 env s = Some x"
      using step by (auto simp: receive_within.simps [of 0] HasReadyCommand_def TakeReadyCommand_def neq_Nil_conv)
    then show ?thesis by blast
  next
    case True
    obtain r s' where cyc: "receive_cycle env s = (r, s')" by (rule prod.exhaust)
    show ?thesis
    proof (cases r)
      case (Inl e)
      then have "receive_within 1 env s = Some x"
        using step cyc True by (simp add: receive_within.simps HasReadyCommand_def)
      then show ?thesis by blast
    next
      case (Inr u)
      then have "rec env s' = Some x" using step cyc True by (simp add: HasReadyCommand_def)
      then obtain n where "receive_within n env s' = Some x" using IH by blast
      then have "receive_within (Suc n) env s = Some x" using True Inr cyc by (simp add: receive_within.simps [of "Suc n"])
      then show ?thesis by blast
    qed
  qed
qed

lemma receive_within_ReceiveCommand: "receive_within n env s = Some x \<Longrightarrow> ReceiveCommand env s = Some x"
proof (induction n arbitrary: s)
  case 0
  then show ?case
    by (subst ReceiveCommand_unfold) (simp add: receive_within.simps [of 0] split: if_splits)
next
  case (Suc n)
  then show ?case
    by (subst ReceiveCommand_unfold) (auto simp: receive_within.simps [of "Suc n"] split: if_splits prod.splits sum.splits)
qed

text \<open>
  \<open>ReceiveCommand\<close> returns exactly when some number of rounds of its loop suffices. It then
  hands out the oldest ready command and removes it, or reports the exception that ended a
  round; it does not return exactly when no round ever delivers a command or throws.
\<close>

theorem receive_command_returns:
  "(ReceiveCommand env s = Some x) = (\<exists>n. receive_within n env s = Some x) \<and>
   (ReceiveCommand env s = None) = (\<forall>n. receive_within n env s = None)"
proof -
  have iff: "ReceiveCommand env s = Some y \<longleftrightarrow> (\<exists>n. receive_within n env s = Some y)" for y
    using ReceiveCommand_bounded receive_within_ReceiveCommand by metis
  have "ReceiveCommand env s = None \<longleftrightarrow> (\<forall>n. receive_within n env s = None)"
    by (metis iff option.exhaust)
  with iff show ?thesis by blast
qed

section \<open>A silent server\<close>

text \<open>
  A server from which nothing arrives, on a socket that takes every datagram: the wait ends
  without anything to read and not before its time, and the clock never goes back.
\<close>

definition silent :: "('n, 'd) Environment \<Rightarrow> bool" where
  "silent env \<longleftrightarrow>
     (\<forall>n. fst (env_now env n) \<le> fst (env_now env (snd (env_now env n)))) \<and>
     (\<forall>packet n. fst (env_send env packet n) = Inr () \<and>
        fst (env_now env n) \<le> fst (env_now env (snd (env_send env packet n)))) \<and>
     (\<forall>timeout \<ge> 0. \<forall>n. fst (env_wait env timeout n) = Inr False \<and>
        fst (env_now env n) + milliseconds timeout \<le> fst (env_now env (snd (env_wait env timeout n))))"

abbreviation clock_at :: "('n, 'd) Environment \<Rightarrow> ('n, 'd) SessionTransport \<Rightarrow> time" where
  "clock_at env s \<equiv> fst (env_now env (tr_net s))"

lemma silent_now:
  assumes "silent env"
  obtains s' where "clock_now env s = (Inr (clock_at env s), s')" "s' = s\<lparr>tr_net := tr_net s'\<rparr>" "clock_at env s \<le> clock_at env s'"
proof -
  obtain t n where "env_now env (tr_net s) = (t, n)" by (rule prod.exhaust)
  with assms show thesis by (intro that [of "s\<lparr>tr_net := n\<rparr>"]) (auto simp: clock_now_def silent_def dest: spec [of _ "tr_net s"])
qed

lemma silent_sends:
  assumes "silent env"
  shows "\<exists>s'. op_for packets (send_packet env type) s = (Inr (), s') \<and>
    s' = s\<lparr>tr_net := tr_net s', tr_statistics := tr_statistics s'\<rparr> \<and> clock_at env s \<le> clock_at env s'"
proof (induction packets arbitrary: s)
  case (Cons p packets)
  obtain r n where send: "env_send env p (tr_net s) = (r, n)" by (rule prod.exhaust)
  obtain t n2 where now: "env_now env n = (t, n2)" by (rule prod.exhaust)
  define s1 where "s1 = s\<lparr>tr_net := n2, tr_statistics := RecordSent type (length p + Ipv4UdpOverhead) t (tr_statistics s)\<rparr>"
  have r: "r = Inr ()" and "clock_at env s \<le> fst (env_now env n)"
    using assms send unfolding silent_def by (metis fst_conv snd_conv)+
  moreover have "fst (env_now env n) \<le> fst (env_now env n2)"
    using assms now unfolding silent_def by (metis snd_conv)
  ultimately have later: "clock_at env s \<le> clock_at env s1" by (simp add: s1_def)
  have "send_packet env type p s = (Inr (), s1)"
    using send r now by (simp add: send_packet_run s1_def)
  moreover obtain s' where "op_for packets (send_packet env type) s1 = (Inr (), s')"
    "s' = s1\<lparr>tr_net := tr_net s', tr_statistics := tr_statistics s'\<rparr>" "clock_at env s1 \<le> clock_at env s'"
    using Cons.IH [of s1] by blast
  moreover from this(2) have "s' = s\<lparr>tr_net := tr_net s', tr_statistics := tr_statistics s'\<rparr>"
    by (simp add: s1_def)
  ultimately show ?case using later by (intro exI [of _ s']) (simp add: op_bind_def)
qed simp

text \<open>A round of the loop: the command that is overdue ends it, otherwise time passes.\<close>

lemma silent_cycle:
  assumes silent: "silent env" and inv: "queue_inv (tr_reliableCommands s)" and pending: "tr_reliableCommands s \<noteq> []"
  shows "list_ex (expired (clock_at env s) \<circ> snd) (tr_reliableCommands s) \<Longrightarrow>
      \<exists>s'. receive_cycle env s = (Inl (RuntimeError ''Reliable Command acknowledgement timed out''), s') \<and>
        list_ex (expired (clock_at env s') \<circ> snd) (tr_reliableCommands s')"
    and "\<not> list_ex (expired (clock_at env s) \<circ> snd) (tr_reliableCommands s) \<Longrightarrow>
      \<exists>s'. receive_cycle env s = (Inr (), s') \<and> tr_reliableCommands s' = collected (clock_at env s) (tr_reliableCommands s) \<and>
        tr_readyCommands s' = tr_readyCommands s \<and> clock_at env s < clock_at env s'"
proof -
  let ?Q = "tr_reliableCommands s" and ?now = "clock_at env s"
  obtain s1 where now: "clock_now env s = (Inr ?now, s1)" and s1: "s1 = s\<lparr>tr_net := tr_net s1\<rparr>" and later1: "?now \<le> clock_at env s1"
    by (rule silent_now [OF silent])
  have Q1: "tr_reliableCommands s1 = ?Q" by (subst s1) simp
  {
    assume old: "list_ex (expired ?now \<circ> snd) ?Q"
    obtain Q' where collect: "queue_CollectDue ?now ?Q = (Inl (RuntimeError ''Reliable Command acknowledgement timed out''), Q')"
      using CollectDue_expired [OF old] by (metis prod.collapse)
    have "list_all2 (\<lambda>e e'. pc_firstSent (snd e') = pc_firstSent (snd e)) ?Q Q'"
      using CollectDue_shape [of ?now ?Q] unfolding collect snd_conv by (rule list.rel_mono_strong) auto
    then have "map (pc_firstSent \<circ> snd) Q' = map (pc_firstSent \<circ> snd) ?Q"
      by (induction rule: list_all2_induct) auto
    moreover have ex: "list_ex (expired t \<circ> snd) R \<longleftrightarrow> list_ex (\<lambda>f. t \<ge> f + seconds CommandTimeout) (map (pc_firstSent \<circ> snd) R)" for t R
      by (induction R) auto
    ultimately have "list_ex (expired ?now \<circ> snd) Q'" using old by metis
    then have "list_ex (expired (clock_at env s1) \<circ> snd) Q'"
      using later1 unfolding list_ex_iff o_def by (metis order_trans)
    moreover have "receive_cycle env s = (Inl (RuntimeError ''Reliable Command acknowledgement timed out''), s1\<lparr>tr_reliableCommands := Q'\<rparr>)"
      using now Q1 collect by (simp add: receive_cycle_def ProcessTimers_def op_bind_def op_zoom_def)
    ultimately show "\<exists>s'. receive_cycle env s = (Inl (RuntimeError ''Reliable Command acknowledgement timed out''), s') \<and>
        list_ex (expired (clock_at env s') \<circ> snd) (tr_reliableCommands s')"
      by (intro exI [of _ "s1\<lparr>tr_reliableCommands := Q'\<rparr>"]) simp
  next
    assume alive: "\<not> list_ex (expired ?now \<circ> snd) ?Q"
    let ?C = "collected ?now ?Q"
    define s2 where "s2 = s1\<lparr>tr_reliableCommands := ?C\<rparr>"
    obtain packets where collect: "queue_CollectDue ?now ?Q = (Inr packets, ?C)"
      using CollectDue_alive [OF alive] by blast
    obtain s3 where sent: "op_for packets (send_packet env CommandType) s2 = (Inr (), s3)"
      and s3: "s3 = s2\<lparr>tr_net := tr_net s3, tr_statistics := tr_statistics s3\<rparr>" and later3: "clock_at env s2 \<le> clock_at env s3"
      using silent_sends [OF silent] by blast
    have C: "?C \<noteq> []" using pending by (simp add: collected_def)
    have Q3: "tr_reliableCommands s3 = ?C" "tr_readyCommands s3 = tr_readyCommands s"
      by (subst s3, subst s2_def, subst s1, simp)+
    have timers: "ProcessTimers env s = (Inr (), s3)"
      using now collect Q1 sent Q3 C
      by (simp add: ProcessTimers_def op_bind_def op_zoom_def s2_def HasPendingReliableCommands_def)
    obtain d where d: "queue_NextDeadline ?C = Some d" using C by (simp add: NextDeadline_Min)
    have "\<not> due ?now (snd e) \<and> \<not> expired ?now (snd e)" if "e \<in> set ?C" for e
    proof -
      from that obtain k p where p: "(k, p) \<in> set ?Q" "e = (k, if due ?now p then retransmit ?now p else p)"
        by (auto simp: collected_def)
      moreover have "pending_ok (k, p)" using inv p(1) by (auto simp: queue_inv_def list_all_iff)
      ultimately show ?thesis
        using alive retransmit_not_due [of k p ?now] by (auto simp: list_ex_iff)
    qed
    then have before: "?now < d" using NextDeadline_before [OF d, of ?now] by blast
    obtain s4 where again: "clock_now env s3 = (Inr (clock_at env s3), s4)" and s4: "s4 = s3\<lparr>tr_net := tr_net s4\<rparr>"
      and later4: "clock_at env s3 \<le> clock_at env s4"
      by (rule silent_now [OF silent])
    define k where "k = (if d \<le> clock_at env s3 then 0 else min 1000 (ceil_milliseconds (d - clock_at env s3)))"
    have k: "0 \<le> k" "clock_at env s3 < d \<longrightarrow> 0 < k"
      by (auto simp: k_def ceil_milliseconds_def)
    have wait: "WaitTimeout env 1000 s3 = (Inr k, s4)"
      using again d Q3 by (simp add: WaitTimeout_def transport_NextDeadline_def op_bind_def k_def)
    obtain n5 where waited: "env_wait env k (tr_net s4) = (Inr False, n5)"
      and later5: "clock_at env s4 + milliseconds k \<le> fst (env_now env n5)"
      using silent k(1) unfolding silent_def by (metis prod.collapse)
    have "receive_cycle env s = (Inr (), s4\<lparr>tr_net := n5\<rparr>)"
      using timers wait waited by (simp add: receive_cycle_def op_bind_def transport_WaitReadable_def op_zoom_def op_when_def)
    moreover have "tr_reliableCommands s4 = ?C" "tr_readyCommands s4 = tr_readyCommands s"
      by (subst s4, simp add: Q3)+
    moreover have "?now < fst (env_now env n5)"
    proof (cases "clock_at env s3 < d")
      case True
      then have "0 < milliseconds k" using k(2) by (simp add: milliseconds_def)
      then show ?thesis using later1 later3 later4 later5 by (simp add: s2_def)
    next
      case False
      then show ?thesis using before later4 later5 k(1) by (simp add: milliseconds_def)
    qed
    ultimately show "\<exists>s'. receive_cycle env s = (Inr (), s') \<and> tr_reliableCommands s' = ?C \<and>
        tr_readyCommands s' = tr_readyCommands s \<and> ?now < clock_at env s'"
      by (intro exI [of _ "s4\<lparr>tr_net := n5\<rparr>"]) simp
  }
qed

lemma collected_queue_inv: "queue_inv Q \<Longrightarrow> \<not> list_ex (expired now \<circ> snd) Q \<Longrightarrow> queue_inv (collected now Q)"
  using CollectDue_inv [of Q now] CollectDue_alive [of now Q] by simp

lemma silent_receive:
  assumes "silent env"
  shows "queue_inv (tr_reliableCommands s) \<Longrightarrow> (k, p) \<in> set (tr_reliableCommands s) \<Longrightarrow> tr_readyCommands s = [] \<Longrightarrow>
    \<exists>s'. ReceiveCommand env s = Some (Inl (RuntimeError ''Reliable Command acknowledgement timed out''), s') \<and>
      list_ex (expired (clock_at env s') \<circ> snd) (tr_reliableCommands s')"
proof (induction "nat (pc_firstSent p + seconds CommandTimeout - clock_at env s)" arbitrary: s p rule: less_induct)
  case less
  have pending: "tr_reliableCommands s \<noteq> []" using less.prems(2) by auto
  note cycle = silent_cycle [OF assms less.prems(1) pending]
  show ?case
  proof (cases "list_ex (expired (clock_at env s) \<circ> snd) (tr_reliableCommands s)")
    case True
    from cycle(1) [OF this] less.prems(3) show ?thesis by (subst ReceiveCommand_unfold) auto
  next
    case False
    from cycle(2) [OF this] less.prems(3) obtain s' where step: "receive_cycle env s = (Inr (), s')"
      and Q: "tr_reliableCommands s' = collected (clock_at env s) (tr_reliableCommands s)" "tr_readyCommands s' = []"
      and later: "clock_at env s < clock_at env s'" by auto
    let ?p = "if due (clock_at env s) p then retransmit (clock_at env s) p else p"
    have member: "(k, ?p) \<in> set (tr_reliableCommands s')"
      using less.prems(2) unfolding Q collected_def by (force simp: image_iff)
    have "clock_at env s < pc_firstSent p + seconds CommandTimeout"
      using False less.prems(2) by (force simp: list_ex_iff)
    then have "nat (pc_firstSent ?p + seconds CommandTimeout - clock_at env s') <
        nat (pc_firstSent p + seconds CommandTimeout - clock_at env s)"
      using later by simp
    from less.hyps [OF this _ member Q(2)] collected_queue_inv [OF less.prems(1) False] step less.prems(3) Q(1)
    show ?thesis by (subst ReceiveCommand_unfold) simp
  qed
qed

text \<open>
  C29: waiting for a command ends. While a command of the client is not acknowledged and nothing
  arrives, \<open>ReceiveCommand\<close> goes on retransmitting, but not for ever: it throws the time-out of
  the command, and not before a pending command is older than \<open>CommandTimeout\<close>. The socket is
  assumed to take the datagrams and to wait at least as long as it is asked to, the clock not to
  go back.
\<close>

theorem silent_server_times_out:
  assumes "silent env" and "transport_inv s" and "tr_readyCommands s = []" and "tr_reliableCommands s \<noteq> []"
  shows "\<exists>s'. ReceiveCommand env s = Some (Inl (RuntimeError ''Reliable Command acknowledgement timed out''), s') \<and>
    (\<exists>p \<in> snd ` set (tr_reliableCommands s'). fst (env_now env (tr_net s')) \<ge> pc_firstSent p + seconds CommandTimeout)"
proof -
  obtain k p where "(k, p) \<in> set (tr_reliableCommands s)" using assms(4) by (cases "tr_reliableCommands s") auto
  then obtain s' where "ReceiveCommand env s = Some (Inl (RuntimeError ''Reliable Command acknowledgement timed out''), s')"
    and "list_ex (expired (clock_at env s') \<circ> snd) (tr_reliableCommands s')"
    using silent_receive [OF assms(1) _ _ assms(3), of k p] assms(2) unfolding transport_inv_def by blast
  then show ?thesis by (auto simp: list_ex_iff)
qed

section \<open>Evaluation on a concrete environment\<close>

text \<open>
  A world that counts clock reads and logs datagrams, with a socket that accepts or refuses
  every datagram, and the toy primitives.
\<close>

definition toy_env :: "bool \<Rightarrow> (int \<times> bytes list, unit) Environment" where
  "toy_env works = \<lparr>env_ssl = toy_ssl,
     env_fp = \<lparr>dbl_lit = (\<lambda>_. ()), dbl_of_u64 = (\<lambda>_. ()), dbl_seconds = (\<lambda>_. ()), dbl_millis = (\<lambda>_. ()), dbl_add = (\<lambda>_ _. ()),
       dbl_sub = (\<lambda>_ _. ()), dbl_mul = (\<lambda>_ _. ()), dbl_div = (\<lambda>_ _. ()), dbl_abs = (\<lambda>_. ()), dbl_less = (\<lambda>_ _. False),
       dbl_le = (\<lambda>_ _. False), dbl_llround = (\<lambda>_. 0), dbl_to_string = (\<lambda>_. ''0'')\<rparr>,
     env_send = (\<lambda>p n. if works then (Inr (), (fst n, snd n @ [p])) else (Inl (RuntimeError ''Send failed''), n)),
     env_receive = (\<lambda>_ n. (Inl (RuntimeError ''no datagram''), n)), env_wait = (\<lambda>_ n. (Inr False, n)),
     env_now = (\<lambda>n. (fst n, (fst n + 1, snd n)))\<rparr>"

lemma toy_env_simps:
  "env_ssl (toy_env w) = toy_ssl" "env_send (toy_env True) p n = (Inr (), (fst n, snd n @ [p]))"
  "env_send (toy_env False) p n = (Inl (RuntimeError ''Send failed''), n)" "env_now (toy_env w) n = (fst n, (fst n + 1, snd n))"
  by (simp_all add: toy_env_def)

definition toy_transport :: "(int \<times> bytes list, unit) SessionTransport" where
  "toy_transport = make_SessionTransport (toy_env True) toy_crypto initial_sequence_state (0, [])"

lemma toy_transport_inv: "transport_inv toy_transport"
  unfolding toy_transport_def by (rule make_SessionTransport_inv [OF sequences_ok_initial])

lemma toy_transport_simps [simp]:
  "tr_net toy_transport = (1, [])" "tr_reliableCommands toy_transport = []" "tr_crypto toy_transport = toy_crypto"
  "tr_sequences toy_transport = initial_sequence_state" "tr_firstCommandPacketId toy_transport = None"
  by (simp_all add: toy_transport_def make_SessionTransport_def toy_env_def)

lemma initial_counter:
  "Outgoing CommandType initial_sequence_state = Inr \<lparr>ps_packetId = 1, ps_generationId = 0\<rparr>"
  "Outgoing Ping initial_sequence_state = Inr \<lparr>ps_packetId = 1, ps_generationId = 0\<rparr>"
  "Incoming CommandType initial_sequence_state = Inr \<lparr>ps_packetId = 1, ps_generationId = 0\<rparr>"
  "Outgoing Ack initial_sequence_state = Inr \<lparr>ps_packetId = 1, ps_generationId = 0\<rparr>"
  by (simp_all add: Outgoing_def Incoming_def sequence_index_def TrackedPacketTypeCount_def initial_sequence_state_def)

lemma toy_seals: "length data \<le> 100 \<Longrightarrow> \<exists>packet. CreateEncryptedPacket (toy_env w) t flags data q toy_transport = Inr packet"
proof -
  assume "length data \<le> 100"
  then show ?thesis
    using toy_Encrypt [of data] toy_CreateKeyNonce [of t True] by (simp add: CreateEncryptedPacket_def EncryptClient_def Let_def toy_env_def) (metis res_bind_simps(2))
qed

lemma toy_SendCommand: "\<exists>s'. SendCommand (toy_env True) [1, 2, 3] toy_transport = (Inr 1, s') \<and> tr_reliableCommands s' \<noteq> []"
proof -
  let ?q = "\<lparr>ps_packetId = 1, ps_generationId = 0\<rparr>"
  obtain packet where packet: "CreateEncryptedPacket (toy_env True) CommandType NewProtocol [1, 2, 3] ?q toy_transport = Inr packet"
    using toy_seals [of "[1, 2, 3]" True CommandType NewProtocol ?q] by auto
  have plan: "Plan (length [1 :: u8, 2, 3]) = Inr [\<lparr>cf_offset = 0, cf_size = 3, cf_flags = NewProtocol\<rparr>]"
    by (simp add: Plan_def limit_defs)
  have adv: "Advance ?q = (Inr (), \<lparr>ps_packetId = 2, ps_generationId = 0\<rparr>)" by (simp add: Advance_def)
  have "\<exists>s'. SendCommandPacket (toy_env True) [1, 2, 3] NewProtocol toy_transport = (Inr 1, s') \<and> tr_reliableCommands s' \<noteq> []"
    by (subst SendCommandPacket_run [OF _ packet])
       (simp_all add: initial_counter toy_env_def queue_Add_def MaxPendingCommands_def op_bind_def send_packet_run
         sm_try_emplace_def sm_contains_def sm_find_def command_queued_def advance_outgoing_def adv,
        rule list.distinct(2))
  then show ?thesis
    unfolding SendCommand_def plan by (auto simp: fragment_slice_def op_bind_def)
qed

theorem transport_reachable_ok_witness:
  "\<exists>s. (transport_step (toy_env True))\<^sup>*\<^sup>* toy_transport s \<and> s \<noteq> toy_transport \<and> transport_inv s"
proof -
  obtain s where s: "SendCommand (toy_env True) [1, 2, 3] toy_transport = (Inr 1, s)" "tr_reliableCommands s \<noteq> []"
    using toy_SendCommand by blast
  have "(transport_step (toy_env True))\<^sup>*\<^sup>* toy_transport s" using step_command [OF s(1)] by blast
  moreover have "s \<noteq> toy_transport"
    using s(2) by auto
  ultimately show ?thesis
    using transport_reachable_ok [OF sequences_ok_initial, of "toy_env True" toy_crypto "(0, [])" s s]
    unfolding toy_transport_def by blast
qed

theorem sent_command_queued_witness:
  "\<exists>s' q'. SendCommand (toy_env True) [1, 2, 3] toy_transport = (Inr 1, s') \<and>
     Outgoing CommandType (tr_sequences s') = Inr q' \<and> seq_pos q' = 2"
proof -
  obtain s where s: "SendCommand (toy_env True) [1, 2, 3] toy_transport = (Inr 1, s)" using toy_SendCommand by blast
  show ?thesis
    using sent_command_queued [OF toy_transport_inv s] s
    by (auto simp: initial_counter Plan_def limit_defs seq_pos_def key_nat_def)
qed

theorem failed_send_blocks_commands_witness:
  "\<exists>s'. SendCommandPacket (toy_env False) [1, 2, 3] NewProtocol toy_transport = (Inl (RuntimeError ''Send failed''), s') \<and>
     IsCommandPending 1 s' \<and> (\<forall>data' flags'. \<exists>e'. fst (SendCommandPacket (toy_env False) data' flags' s') = Inl e')"
proof -
  let ?q = "\<lparr>ps_packetId = 1, ps_generationId = 0\<rparr>"
  obtain packet where packet: "CreateEncryptedPacket (toy_env False) CommandType NewProtocol [1, 2, 3] ?q toy_transport = Inr packet"
    using toy_seals [of "[1, 2, 3]" False CommandType NewProtocol ?q] by auto
  show ?thesis
    using failed_send_blocks_commands [OF toy_transport_inv _ packet, of "RuntimeError ''Send failed''" "(2, [])"]
    by (auto simp: initial_counter MaxPendingCommands_def IsCommandPending_def queue_Contains_def toy_env_def)
qed

theorem wait_timeout_reaches_deadline_witness:
  "fst (WaitTimeout (toy_env True) 1000 toy_transport) = Inr 1000"
  using wait_timeout_reaches_deadline [of 1000 "toy_env True" toy_transport 1 "(2, [])"]
  by (auto simp: toy_env_def transport_NextDeadline_def queue_NextDeadline_def split: prod.splits sum.splits)

definition patient_env :: "(int \<times> bytes list, unit) Environment" where
  "patient_env = (toy_env True)\<lparr>env_wait := (\<lambda>timeout n. (Inr False, (fst n + milliseconds timeout, snd n)))\<rparr>"

theorem silent_server_times_out_witness:
  "\<exists>s'. ReceiveCommand patient_env (toy_transport\<lparr>tr_reliableCommands := sample_queue\<rparr>) =
     Some (Inl (RuntimeError ''Reliable Command acknowledgement timed out''), s')"
proof -
  have "silent patient_env" by (simp add: silent_def patient_env_def toy_env_def)
  moreover have "transport_inv (toy_transport\<lparr>tr_reliableCommands := sample_queue\<rparr>)"
    using toy_transport_inv sample_queue_inv by (simp add: transport_inv_def)
  moreover have "tr_readyCommands toy_transport = []"
    by (simp add: toy_transport_def make_SessionTransport_def clock_now_def toy_env_def)
  moreover have "sample_queue \<noteq> []" by (simp add: sample_queue_def)
  ultimately show ?thesis
    using silent_server_times_out [of patient_env "toy_transport\<lparr>tr_reliableCommands := sample_queue\<rparr>"] by auto
qed


theorem repeated_command_only_acknowledged_witness:
  "\<exists>packet s'. sh_packetId (sp_header packet) = 1 \<and>
     HandleCommand (toy_env True) packet (toy_transport\<lparr>tr_sequences :=
       set_Incoming CommandType \<lparr>ps_packetId = 2, ps_generationId = 0\<rparr> initial_sequence_state\<rparr>) = (Inr (), s') \<and>
     tr_readyCommands s' = []"
proof -
  let ?sq = "set_Incoming CommandType \<lparr>ps_packetId = 2, ps_generationId = 0\<rparr> initial_sequence_state"
  let ?s = "toy_transport\<lparr>tr_sequences := ?sq\<rparr>" and ?q = "\<lparr>ps_packetId = 1, ps_generationId = 0\<rparr>"
  let ?h = "\<lparr>sh_mac = [], sh_packetId = 1, sh_type = CommandType, sh_flags = 0x20\<rparr>"
  obtain sealed where sealed: "seal_server toy_ssl toy_crypto ?h 0 [0, 1, 0x22] [9] = Inr sealed"
    using toy_seal_server [of "[9]" ?h 0 "[0, 1, 0x22]"] by auto
  let ?p = "\<lparr>sp_header = ?h\<lparr>sh_mac := se_mac sealed\<rparr>, sp_meta = [0, 1, 0x22], sp_data = se_data sealed\<rparr>"
  have dec: "DecryptServer toy_ssl toy_crypto ?p 0 = Inr [9]" by (rule DecryptServer_seal [OF toy_ssl_ctr sealed])
  have seqs: "sequences_ok ?sq" by (simp add: sequences_ok_initial)
  have exp: "Incoming CommandType ?sq = Inr \<lparr>ps_packetId = 2, ps_generationId = 0\<rparr>"
    by (rule incoming.fetch_store [OF sequences_ok_initial initial_counter(3)])
  have inv: "transport_inv ?s"
    using toy_transport_inv window_inv_empty incoming.fetch_store_other [of CommandType CommandLow]
    by (auto simp: transport_inv_def window_ok_def sequences_ok_initial exp same_counter_def toy_transport_def
        make_SessionTransport_def toy_env_def)
  have gen: "ResolveGeneration \<lparr>ps_packetId = 2, ps_generationId = 0\<rparr> 1 = Inr 0"
    by (simp add: ResolveGeneration_def Let_def)
  obtain ack where ack: "CreateEncryptedPacket (toy_env True) Ack FlagNone [0, 1] ?q toy_transport = Inr ack"
    using toy_seals [of "[0, 1]" True Ack FlagNone ?q] by auto
  have same: "CreateEncryptedPacket (toy_env True) Ack FlagNone [0, 1] ?q ?s = Inr ack"
    using ack by (simp add: CreateEncryptedPacket_def)
  have old: "Feed 1 0 f d (\<lparr>ps_packetId = 2, ps_generationId = 0\<rparr>, w) = (Inr [], \<lparr>ps_packetId = 2, ps_generationId = 0\<rparr>, w)" for f d w
    by (rule Feed_cases(1)) (simp add: SequenceKey_less_iff SequenceKey_of_def key_nat_def)
  have adv: "Advance ?q = (Inr (), \<lparr>ps_packetId = 2, ps_generationId = 0\<rparr>)" by (simp add: Advance_def)
  have "\<exists>s'. HandleCommand (toy_env True) ?p ?s = (Inr (), s')"
    using dec same
    by (simp add: HandleCommand_def ProcessIncomingCommand_def Let_def resolve_incoming_def op_bind_def exp gen SendAck_def
        SendEncrypted_def outgoing_sequence_def initial_counter(4) send_packet_run advance_outgoing_def adv feed_window_def old
        Take_def enc_u16_def limit_defs toy_env_simps)
  then obtain s' where run: "HandleCommand (toy_env True) ?p ?s = (Inr (), s')" by blast
  have "tr_readyCommands s' = tr_readyCommands ?s"
    using repeated_command_only_acknowledged [OF inv _ _ _ run, of "\<lparr>ps_packetId = 2, ps_generationId = 0\<rparr>" 0] exp gen
    by (simp add: seq_pos_def key_nat_def)
  also have "\<dots> = []" by (simp add: toy_transport_def make_SessionTransport_def toy_env_def)
  finally show ?thesis using run by (intro exI [of _ ?p] exI [of _ s']) simp
qed

end
