(* ===== verification/Login_Messages.thy ===== *)
theory Login_Messages
  imports Messages Statistics
begin

text \<open>
  The messages of the login and of the session's own state:
  \<open>protocol/src/handshake/client_init.cpp\<close>, \<open>init_server.cpp\<close>,
  \<open>protocol/src/message/set_connection_info.cpp\<close> and the command written by
  \<open>Session::SetAudioState\<close>. \<open>std::to_string\<close> of a \<open>double\<close> is an operation of \<open>Double\<close>.
\<close>

record ClientVersionProfile =
  vp_initVersion :: u32
  vp_version :: string
  vp_platform :: string
  vp_signature :: string

record ClientProfile =
  cp_nickname :: string
  cp_version_profile :: ClientVersionProfile

definition bool_value :: "bool \<Rightarrow> nat" where
  "bool_value b = (if b then 1 else 0)"

definition ClientInit_Serialize :: "ClientProfile \<Rightarrow> u64 \<Rightarrow> bytes result" where
  "ClientInit_Serialize profile keyOffset =
     (let version = cp_version_profile profile in
      with_writer ''clientinit'' (op_for
        [Write_value ''client_nickname'' (cp_nickname profile),
         Write_value ''client_version'' (vp_version version),
         Write_value ''client_platform'' (vp_platform version),
         Write_integral ''client_input_hardware'' (bool_value False),
         Write_integral ''client_output_hardware'' (bool_value False),
         Write_flag ''client_default_channel'',
         Write_flag ''client_default_channel_password'',
         Write_flag ''client_server_password'',
         Write_flag ''client_meta_data'',
         Write_value ''client_version_sign'' (vp_signature version),
         Write_integral ''client_key_offset'' (unat keyOffset),
         Write_flag ''client_nickname_phonetic'',
         Write_flag ''client_default_token'',
         Write_flag ''hwid''] (\<lambda>m. m)))"

record InitServer =
  is_clientId :: u16
  is_serverName :: string
  is_codecEncryptionMode :: u8

definition InitServer_Parse :: "Command \<Rightarrow> InitServer result" where
  "InitServer_Parse command =
     res_bind (check (cmd_name command = ''initserver'') ''Expected initserver command'') (\<lambda>_.
     case cmd_rows command of
       [row] \<Rightarrow>
         (case row_Find ''aclid'' row of
            None \<Rightarrow> Inl (RuntimeError ''initserver is missing aclid'')
          | Some value \<Rightarrow>
              (case from_chars (2 ^ 16) value of
                 (Some n, []) \<Rightarrow>
                   if n = 0 then Inl (RuntimeError ''Invalid initserver aclid'')
                   else
                     res_bind (case row_Find ''virtualserver_codec_encryption_mode'' row of
                                 None \<Rightarrow> Inr 0
                               | Some m \<Rightarrow>
                                   (case from_chars (2 ^ 8) m of
                                      (Some k, []) \<Rightarrow>
                                        if k > 2 then Inl (RuntimeError ''Invalid virtualserver_codec_encryption_mode'')
                                        else Inr (of_nat k)
                                    | _ \<Rightarrow> Inl (RuntimeError ''Invalid virtualserver_codec_encryption_mode''))) (\<lambda>mode.
                     Inr \<lparr>is_clientId = of_nat n, is_serverName = default_empty (row_Find ''virtualserver_name'' row),
                          is_codecEncryptionMode = mode\<rparr>)
               | _ \<Rightarrow> Inl (RuntimeError ''Invalid initserver aclid'')))
     | _ \<Rightarrow> Inl (RuntimeError ''Unexpected initserver row count''))"

definition SetConnectionInfo_Serialize :: "'d Double \<Rightarrow> 'd Snapshot \<Rightarrow> bytes result" where
  "SetConnectionInfo_Serialize fp s =
     with_writer ''setconnectioninfo'' (op_for
       [Write_value ''connection_ping'' (dbl_to_string fp (ss_pingMs s)),
        Write_value ''connection_ping_deviation'' (dbl_to_string fp (ss_pingDeviationMs s)),
        Write_integral ''connection_packets_sent_speech'' (unat (tc_packets (ss_sentSpeech s))),
        Write_integral ''connection_packets_sent_keepalive'' (unat (tc_packets (ss_sentKeepalive s))),
        Write_integral ''connection_packets_sent_control'' (unat (tc_packets (ss_sentControl s))),
        Write_integral ''connection_bytes_sent_speech'' (unat (tc_bytes (ss_sentSpeech s))),
        Write_integral ''connection_bytes_sent_keepalive'' (unat (tc_bytes (ss_sentKeepalive s))),
        Write_integral ''connection_bytes_sent_control'' (unat (tc_bytes (ss_sentControl s))),
        Write_integral ''connection_packets_received_speech'' (unat (tc_packets (ss_receivedSpeech s))),
        Write_integral ''connection_packets_received_keepalive'' (unat (tc_packets (ss_receivedKeepalive s))),
        Write_integral ''connection_packets_received_control'' (unat (tc_packets (ss_receivedControl s))),
        Write_integral ''connection_bytes_received_speech'' (unat (tc_bytes (ss_receivedSpeech s))),
        Write_integral ''connection_bytes_received_keepalive'' (unat (tc_bytes (ss_receivedKeepalive s))),
        Write_integral ''connection_bytes_received_control'' (unat (tc_bytes (ss_receivedControl s))),
        Write_value ''connection_server2client_packetloss_speech'' (dbl_to_string fp (ss_packetLossSpeech s)),
        Write_value ''connection_server2client_packetloss_keepalive'' (dbl_to_string fp (ss_packetLossKeepalive s)),
        Write_value ''connection_server2client_packetloss_control'' (dbl_to_string fp (ss_packetLossControl s)),
        Write_value ''connection_server2client_packetloss_total'' (dbl_to_string fp (ss_packetLossTotal s)),
        Write_integral ''connection_bandwidth_sent_last_second_speech'' (unat (tc_bandwidthLastSecond (ss_sentSpeech s))),
        Write_integral ''connection_bandwidth_sent_last_second_keepalive'' (unat (tc_bandwidthLastSecond (ss_sentKeepalive s))),
        Write_integral ''connection_bandwidth_sent_last_second_control'' (unat (tc_bandwidthLastSecond (ss_sentControl s))),
        Write_integral ''connection_bandwidth_sent_last_minute_speech'' (unat (tc_bandwidthLastMinute (ss_sentSpeech s))),
        Write_integral ''connection_bandwidth_sent_last_minute_keepalive'' (unat (tc_bandwidthLastMinute (ss_sentKeepalive s))),
        Write_integral ''connection_bandwidth_sent_last_minute_control'' (unat (tc_bandwidthLastMinute (ss_sentControl s))),
        Write_integral ''connection_bandwidth_received_last_second_speech'' (unat (tc_bandwidthLastSecond (ss_receivedSpeech s))),
        Write_integral ''connection_bandwidth_received_last_second_keepalive'' (unat (tc_bandwidthLastSecond (ss_receivedKeepalive s))),
        Write_integral ''connection_bandwidth_received_last_second_control'' (unat (tc_bandwidthLastSecond (ss_receivedControl s))),
        Write_integral ''connection_bandwidth_received_last_minute_speech'' (unat (tc_bandwidthLastMinute (ss_receivedSpeech s))),
        Write_integral ''connection_bandwidth_received_last_minute_keepalive'' (unat (tc_bandwidthLastMinute (ss_receivedKeepalive s))),
        Write_integral ''connection_bandwidth_received_last_minute_control'' (unat (tc_bandwidthLastMinute (ss_receivedControl s)))]
       (\<lambda>m. m))"

record AudioState =
  as_inputHardware :: bool
  as_outputHardware :: bool
  as_inputMuted :: bool
  as_outputMuted :: bool

definition AudioState_Serialize :: "AudioState \<Rightarrow> bytes result" where
  "AudioState_Serialize s =
     with_writer ''clientupdate'' (op_for
       [Write_integral ''client_input_hardware'' (bool_value (as_inputHardware s)),
        Write_integral ''client_output_hardware'' (bool_value (as_outputHardware s)),
        Write_integral ''client_input_muted'' (bool_value (as_inputMuted s)),
        Write_integral ''client_output_muted'' (bool_value (as_outputMuted s))] (\<lambda>m. m))"

text \<open>What the session relies on: an accepted \<open>initserver\<close> names a client id and a known mode.\<close>

lemma InitServer_Parse_valid:
  assumes "InitServer_Parse command = Inr i"
  shows "is_clientId i \<noteq> 0" and "is_codecEncryptionMode i \<le> 2"
proof -
  have "(of_nat n :: u16) \<noteq> 0" if "n \<noteq> 0" "n < 2 ^ 16" for n
    using that by (simp add: word_unat_eq_iff unat_of_nat)
  moreover have "(of_nat k :: u8) \<le> 2" if "\<not> k > 2" for k
  proof -
    from that have "k = 0 \<or> k = 1 \<or> k = 2" by auto
    then show ?thesis by auto
  qed
  moreover have "n < limit" if "from_chars limit v = (Some n, r)" for limit v n r
    using that by (auto simp: from_chars_def Let_def split: if_splits)
  ultimately show "is_clientId i \<noteq> 0" and "is_codecEncryptionMode i \<le> 2"
    using assms unfolding InitServer_Parse_def
    by (auto simp: res_bind_eq_Inr split: list.splits option.splits prod.splits if_splits)
qed

end
