(* ===== verification/Session.thy ===== *)
theory Session
  imports Transport_Safety Login_Messages Client_Store
begin

text \<open>
  \<open>Session\<close> (\<open>protocol/src/session/session.cpp\<close>, \<open>protocol/include/protocol/session/*.hpp\<close>): the
  logged-in client. It parses the commands the transport delivers, applies them to the channel
  and client stores, keeps track of its own channel and nickname and queues events for the
  application. \<open>ProcessCommand\<close> is one definition per command with the chain of names on top.

  \<open>Login\<close> and \<open>ReceiveInitialState\<close> wait for commands and may not return: their results are
  options, \<open>None\<close> for a session that waits for ever.
\<close>

section \<open>State and events\<close>

record TextMessageEvent =
  xe_message :: TextMessageEntry
  xe_replyTarget :: "TextMessageTarget option"
  xe_channelName :: string
  xe_privatePeerName :: string
  xe_outgoing :: bool

datatype ClientPresenceKind = Joined | Left

record ClientPresenceEvent =
  pe_kind :: ClientPresenceKind
  pe_clientId :: u16
  pe_channelId :: u64
  pe_clientName :: string
  pe_channelName :: string

record CommandErrorEvent =
  ee_id :: u32
  ee_message :: string

record PokeEvent =
  ke_invokerId :: u16
  ke_invokerName :: string
  ke_invokerUniqueId :: string
  ke_message :: string

datatype SessionEvent =
    TextEvent TextMessageEvent
  | PresenceEvent ClientPresenceEvent
  | ErrorEvent CommandErrorEvent
  | VoiceEvent VoiceFrame
  | Poked PokeEvent

record ServerDisconnect =
  sd_reasonId :: u64
  sd_message :: string

record ('n, 'd) Session =
  sn_transport :: "('n, 'd) SessionTransport"
  sn_clientId :: u16
  sn_currentChannelId :: u64
  sn_currentNickname :: string
  sn_serverName :: string
  sn_codecEncryptionMode :: u8
  sn_channels :: ChannelStore
  sn_clients :: ClientStore
  sn_initialStateComplete :: bool
  sn_connectionInfoRequested :: bool
  sn_lastConnectionInfoSentAt :: "time option"
  sn_disconnectPacketId :: "u16 option"
  sn_serverRemoval :: "ServerDisconnect option"
  sn_events :: "SessionEvent list"

type_synonym ('n, 'd, 'a) session_op = "(('n, 'd) Session, 'a) op"

definition make_Session ::
  "('n, 'd) Environment \<Rightarrow> SessionCrypto \<Rightarrow> PacketSequenceState \<Rightarrow> 'n \<Rightarrow> ('n, 'd) Session" where
  "make_Session env crypto sequences n = \<lparr>sn_transport = make_SessionTransport env crypto sequences n, sn_clientId = 0,
     sn_currentChannelId = 0, sn_currentNickname = [], sn_serverName = [], sn_codecEncryptionMode = 0,
     sn_channels = empty_store, sn_clients = [], sn_initialStateComplete = False, sn_connectionInfoRequested = False,
     sn_lastConnectionInfoSentAt = None, sn_disconnectPacketId = None, sn_serverRemoval = None, sn_events = []\<rparr>"

abbreviation on_transport :: "('n, 'd, 'a) transport_op \<Rightarrow> ('n, 'd, 'a) session_op" where
  "on_transport \<equiv> op_zoom sn_transport (\<lambda>t s. s\<lparr>sn_transport := t\<rparr>)"

definition push_event :: "SessionEvent \<Rightarrow> ('n, 'd) Session \<Rightarrow> ('n, 'd) Session" where
  "push_event e s = s\<lparr>sn_events := sn_events s @ [e]\<rparr>"

definition require_login :: "('n, 'd, 'a) session_op \<Rightarrow> ('n, 'd, 'a) session_op" where
  "require_login m s = (if sn_clientId s = 0 then (Inl (NotConnectedError ''Session is not logged in''), s) else m s)"

definition send_message :: "('n, 'd) Environment \<Rightarrow> bytes result \<Rightarrow> ('n, 'd, u16) session_op" where
  "send_message env message = op_bind (op_lift message) (\<lambda>data. on_transport (SendCommand env data))"

section \<open>Requests\<close>

definition session_Disconnect :: "('n, 'd) Environment \<Rightarrow> string \<Rightarrow> ('n, 'd, unit) session_op" where
  "session_Disconnect env reason =
     require_login (\<lambda>s. if sn_disconnectPacketId s \<noteq> None then (Inr (), s)
       else op_bind (send_message env (ClientDisconnect_Serialize reason)) (\<lambda>packetId.
            op_modify (\<lambda>s. s\<lparr>sn_disconnectPacketId := Some packetId\<rparr>)) s)"

definition session_SendTextMessage :: "('n, 'd) Environment \<Rightarrow> TextMessageTarget \<Rightarrow> string \<Rightarrow> ('n, 'd, unit) session_op" where
  "session_SendTextMessage env target body =
     require_login (op_bind (send_message env (SendTextMessage_Serialize target body)) (\<lambda>_. op_return ()))"

definition session_MoveToChannel :: "('n, 'd) Environment \<Rightarrow> u64 \<Rightarrow> ('n, 'd, unit) session_op" where
  "session_MoveToChannel env channelId =
     require_login (\<lambda>s. op_bind (send_message env (ClientMove_Serialize (sn_clientId s) channelId)) (\<lambda>_. op_return ()) s)"

definition session_ChangeNickname :: "('n, 'd) Environment \<Rightarrow> string \<Rightarrow> ('n, 'd, unit) session_op" where
  "session_ChangeNickname env nickname =
     require_login (op_bind (send_message env (ClientUpdate_Serialize nickname)) (\<lambda>_. op_return ()))"

definition session_SetAudioState :: "('n, 'd) Environment \<Rightarrow> AudioState \<Rightarrow> ('n, 'd, unit) session_op" where
  "session_SetAudioState env state =
     require_login (op_bind (send_message env (AudioState_Serialize state)) (\<lambda>_. op_return ()))"

definition CurrentVoiceCodec :: "('n, 'd) Session \<Rightarrow> VoiceCodec result" where
  "CurrentVoiceCodec s =
     (case store_Find (sn_currentChannelId s) (sn_channels s) of
        None \<Rightarrow> Inl (RuntimeError ''Current voice channel is unknown'')
      | Some c \<Rightarrow>
          if ch_codec c = codec_value OpusVoice then Inr OpusVoice
          else if ch_codec c = codec_value OpusMusic then Inr OpusMusic
          else Inl (RuntimeError ''Current channel does not use an Opus codec''))"

definition VoiceEncrypted :: "('n, 'd) Session \<Rightarrow> bool result" where
  "VoiceEncrypted s =
     (if sn_codecEncryptionMode s = 2 then Inr True
      else if sn_codecEncryptionMode s = 1 then Inr False
      else case store_Find (sn_currentChannelId s) (sn_channels s) of
             None \<Rightarrow> Inl (RuntimeError ''Current voice channel is unknown'')
           | Some c \<Rightarrow> Inr (\<not> ch_codecIsUnencrypted c))"

text \<open>
  The arguments \<open>CurrentVoiceCodec()\<close> and \<open>VoiceEncrypted()\<close> of the voice senders have no side
  effect; C++ leaves open which of the two throws when both would, the model takes the first.
\<close>

definition with_voice_settings :: "(VoiceCodec \<Rightarrow> bool \<Rightarrow> ('n, 'd, unit) transport_op) \<Rightarrow> ('n, 'd, unit) session_op" where
  "with_voice_settings send =
     op_bind (\<lambda>s. (CurrentVoiceCodec s, s)) (\<lambda>codec.
     op_bind (\<lambda>s. (VoiceEncrypted s, s)) (\<lambda>encrypted. on_transport (send codec encrypted)))"

definition session_SendVoice :: "('n, 'd) Environment \<Rightarrow> bytes \<Rightarrow> bool \<Rightarrow> ('n, 'd, unit) session_op" where
  "session_SendVoice env data talkStart =
     require_login (with_voice_settings (\<lambda>codec encrypted. SendVoice env codec data encrypted talkStart))"

definition session_SendWhisper :: "('n, 'd) Environment \<Rightarrow> WhisperTarget \<Rightarrow> bytes \<Rightarrow> bool \<Rightarrow> ('n, 'd, unit) session_op" where
  "session_SendWhisper env target data talkStart =
     require_login
       (if wt_channelIds target = [] \<and> wt_clientIds target = []
        then op_throw (ProtocolError ''Whisper target has neither channels nor clients'')
        else with_voice_settings (\<lambda>codec encrypted.
               SendVoiceWhisper env codec (wt_channelIds target) (wt_clientIds target) data encrypted talkStart))"

definition session_SendGroupWhisper :: "('n, 'd) Environment \<Rightarrow> GroupWhisper \<Rightarrow> bytes \<Rightarrow> bool \<Rightarrow> ('n, 'd, unit) session_op" where
  "session_SendGroupWhisper env target data talkStart =
     require_login (with_voice_settings (\<lambda>codec encrypted.
       SendGroupWhisper env codec (gw_type target) (gw_target target) (gw_targetId target) data encrypted talkStart))"

definition SubscribeAllChannels :: "('n, 'd) Environment \<Rightarrow> ('n, 'd, unit) session_op" where
  "SubscribeAllChannels env = op_bind (send_message env ChannelSubscribeAll_Serialize) (\<lambda>_. op_return ())"

definition SubscribeChannel :: "('n, 'd) Environment \<Rightarrow> u64 \<Rightarrow> ('n, 'd, unit) session_op" where
  "SubscribeChannel env channelId = op_bind (send_message env (ChannelSubscribe_Serialize channelId)) (\<lambda>_. op_return ())"

section \<open>Events\<close>

definition EmitPresence :: "ClientPresenceKind \<Rightarrow> u16 \<Rightarrow> u64 \<Rightarrow> string \<Rightarrow> ('n, 'd) Session \<Rightarrow> ('n, 'd) Session" where
  "EmitPresence kind clientId channelId clientName s =
     (if channelId = 0 \<or> channelId \<noteq> sn_currentChannelId s then s
      else case store_Find channelId (sn_channels s) of
             None \<Rightarrow> s
           | Some channel \<Rightarrow>
               push_event (PresenceEvent \<lparr>pe_kind = kind, pe_clientId = clientId, pe_channelId = channelId,
                 pe_clientName = (if clientName = [] then ''client '' @ to_string (unat clientId) else clientName),
                 pe_channelName = ch_name channel\<rparr>) s)"

text \<open>The channel a channel message names, when it is known.\<close>

definition named_channel :: "TextMessageEntry \<Rightarrow> ('n, 'd) Session \<Rightarrow> u64 option" where
  "named_channel message s =
     (case te_targetId message of
        Some t \<Rightarrow> if t \<noteq> 0 \<and> store_Find t (sn_channels s) \<noteq> None then Some t else None
      | None \<Rightarrow> None)"

definition ReplyTargetFor :: "TextMessageEntry \<Rightarrow> ('n, 'd) Session \<Rightarrow> TextMessageTarget option" where
  "ReplyTargetFor message s =
     (case te_targetMode message of
        Private \<Rightarrow>
          if te_invokerId message = 0 \<or> te_invokerId message = sn_clientId s then None
          else Some \<lparr>tt_mode = Private, tt_id = ucast (te_invokerId message)\<rparr>
      | TextMessageTargetMode.Channel \<Rightarrow>
          (let in_channel = (\<lambda>i. case clients_Find i (sn_clients s) of
                 Some c \<Rightarrow> if cl_channelId c \<noteq> 0 then Some \<lparr>tt_mode = TextMessageTargetMode.Channel, tt_id = cl_channelId c\<rparr> else None
               | None \<Rightarrow> None)
           in case named_channel message s of
                Some t \<Rightarrow> Some \<lparr>tt_mode = TextMessageTargetMode.Channel, tt_id = t\<rparr>
              | None \<Rightarrow>
                  (case (if te_invokerId message \<noteq> 0 then in_channel (te_invokerId message) else None) of
                     Some t \<Rightarrow> Some t
                   | None \<Rightarrow> in_channel (sn_clientId s)))
      | Server \<Rightarrow> Some \<lparr>tt_mode = Server, tt_id = 0\<rparr>)"

definition ChannelNameFor :: "TextMessageEntry \<Rightarrow> ('n, 'd) Session \<Rightarrow> string" where
  "ChannelNameFor message s =
     (if te_targetMode message \<noteq> TextMessageTargetMode.Channel then []
      else let channelId = (case named_channel message s of
                 Some t \<Rightarrow> t
               | None \<Rightarrow> if te_invokerId message \<noteq> 0
                         then (case clients_Find (te_invokerId message) (sn_clients s) of None \<Rightarrow> 0 | Some c \<Rightarrow> cl_channelId c)
                         else 0);
               channelId = (if channelId = 0 then sn_currentChannelId s else channelId)
           in case store_Find channelId (sn_channels s) of None \<Rightarrow> [] | Some c \<Rightarrow> ch_name c)"

definition PrivatePeerNameFor :: "TextMessageEntry \<Rightarrow> ('n, 'd) Session \<Rightarrow> string" where
  "PrivatePeerNameFor message s =
     (if te_targetMode message \<noteq> Private then []
      else if te_invokerId message \<noteq> sn_clientId s then
        (if te_invokerName message \<noteq> [] then te_invokerName message
         else case clients_Find (te_invokerId message) (sn_clients s) of Some c \<Rightarrow> cl_nickname c | None \<Rightarrow> [])
      else case te_targetId message of
             Some t \<Rightarrow> if t \<le> max_u16
                       then (case clients_Find (ucast t) (sn_clients s) of Some c \<Rightarrow> cl_nickname c | None \<Rightarrow> [])
                       else []
           | None \<Rightarrow> [])"

section \<open>Commands\<close>

definition enter_own :: "ClientEnterViewEntry \<Rightarrow> ('n, 'd) Session \<Rightarrow> ('n, 'd) Session" where
  "enter_own entry s =
     (let s = (if ev_channelId entry \<noteq> 0
               then s\<lparr>sn_currentChannelId := ev_channelId entry,
                      sn_channels := store_SetSubscribed (ev_channelId entry) True (sn_channels s)\<rparr>
               else s)
      in if ev_nickname entry \<noteq> [] then s\<lparr>sn_currentNickname := ev_nickname entry\<rparr> else s)"

definition enter_entry :: "ClientEnterViewEntry \<Rightarrow> ('n, 'd) Session \<Rightarrow> ('n, 'd) Session" where
  "enter_entry entry s =
     (if ev_id entry = sn_clientId s then enter_own entry s
      else let existing = clients_Find (ev_id entry) (sn_clients s);
               effectiveChannelId = (if ev_channelId entry \<noteq> 0 then ev_channelId entry
                                     else case existing of None \<Rightarrow> 0 | Some c \<Rightarrow> cl_channelId c);
               alreadyKnownInChannel = (case existing of None \<Rightarrow> False
                  | Some c \<Rightarrow> cl_detailsKnown c \<and> effectiveChannelId \<noteq> 0 \<and> cl_channelId c = effectiveChannelId)
           in if sn_initialStateComplete s \<and> \<not> alreadyKnownInChannel \<and> effectiveChannelId = sn_currentChannelId s
              then EmitPresence Joined (ev_id entry) effectiveChannelId (ev_nickname entry) s
              else s)"

definition process_enter_view :: "Command \<Rightarrow> ('n, 'd, unit) session_op" where
  "process_enter_view command =
     op_bind (op_lift (ClientEnterView_Parse command)) (\<lambda>entered.
     op_bind (op_modify (fold enter_entry entered)) (\<lambda>_.
     op_modify (\<lambda>s. s\<lparr>sn_clients := clients_ApplyEnterView entered (sn_clients s)\<rparr>)))"

definition moved_entry :: "ClientMovedEntry \<Rightarrow> ('n, 'd) Session \<Rightarrow> ('n, 'd) Session" where
  "moved_entry entry s =
     (let existing = clients_Find (mv_id entry) (sn_clients s);
          previousChannelId = (case existing of None \<Rightarrow> 0 | Some c \<Rightarrow> cl_channelId c);
          clientName = (case existing of None \<Rightarrow> [] | Some c \<Rightarrow> cl_nickname c)
      in if mv_id entry = sn_clientId s then
           (if mv_channelId entry \<noteq> 0
            then s\<lparr>sn_currentChannelId := mv_channelId entry,
                   sn_channels := store_SetSubscribed (mv_channelId entry) True (sn_channels s)\<rparr>
            else s)
         else if \<not> sn_initialStateComplete s \<or> mv_channelId entry = previousChannelId then s
         else if previousChannelId = sn_currentChannelId s \<and> mv_channelId entry \<noteq> sn_currentChannelId s
         then EmitPresence Left (mv_id entry) previousChannelId clientName s
         else if previousChannelId \<noteq> sn_currentChannelId s \<and> mv_channelId entry = sn_currentChannelId s \<and>
                 (case existing of None \<Rightarrow> False | Some c \<Rightarrow> cl_detailsKnown c)
         then EmitPresence Joined (mv_id entry) (mv_channelId entry) clientName s
         else s)"

definition process_moved :: "Command \<Rightarrow> ('n, 'd, unit) session_op" where
  "process_moved command =
     op_bind (op_lift (ClientMoved_Parse command)) (\<lambda>moved.
     op_bind (op_modify (fold moved_entry moved)) (\<lambda>_.
     op_modify (\<lambda>s. s\<lparr>sn_clients := clients_ApplyMoved moved (sn_clients s)\<rparr>)))"

definition left_entry :: "ClientLeftViewEntry \<Rightarrow> ('n, 'd) Session \<Rightarrow> ('n, 'd) Session" where
  "left_entry entry s =
     (if lv_id entry = sn_clientId s then
        (let s = s\<lparr>sn_currentChannelId := lv_toChannelId entry\<rparr>
         in if lv_toChannelId entry \<noteq> 0
            then s\<lparr>sn_channels := store_SetSubscribed (lv_toChannelId entry) True (sn_channels s)\<rparr>
            else if sn_serverRemoval s = None
            then s\<lparr>sn_serverRemoval := Some \<lparr>sd_reasonId = lv_reasonId entry, sd_message = lv_reasonMessage entry\<rparr>\<rparr>
            else s)
      else if \<not> sn_initialStateComplete s then s
      else let existing = clients_Find (lv_id entry) (sn_clients s);
               previousChannelId = (if lv_fromChannelId entry \<noteq> 0 then lv_fromChannelId entry
                                    else case existing of None \<Rightarrow> 0 | Some c \<Rightarrow> cl_channelId c);
               clientName = (case existing of None \<Rightarrow> [] | Some c \<Rightarrow> cl_nickname c)
           in if previousChannelId = sn_currentChannelId s \<and> lv_toChannelId entry \<noteq> sn_currentChannelId s \<and>
                 (case existing of None \<Rightarrow> True | Some c \<Rightarrow> cl_channelId c = previousChannelId)
              then EmitPresence Left (lv_id entry) previousChannelId clientName s
              else s)"

definition left_update :: "ClientLeftViewEntry \<Rightarrow> ('n, 'd) Session \<Rightarrow> ('n, 'd) Session" where
  "left_update entry s =
     (if lv_id entry = sn_clientId s then s
      else if lv_toChannelId entry \<noteq> 0 \<and> store_IsSubscribed (lv_toChannelId entry) (sn_channels s)
      then s\<lparr>sn_clients := clients_Move (lv_id entry) (lv_toChannelId entry) (sn_clients s)\<rparr>
      else s\<lparr>sn_clients := clients_Remove (lv_id entry) (sn_clients s)\<rparr>)"

definition process_left_view :: "Command \<Rightarrow> ('n, 'd, unit) session_op" where
  "process_left_view command =
     op_bind (op_lift (ClientLeftView_Parse command)) (\<lambda>entries.
     op_bind (op_modify (fold left_entry entries)) (\<lambda>_.
     op_modify (fold left_update entries)))"

definition process_subscription :: "Command \<Rightarrow> ('n, 'd, unit) session_op" where
  "process_subscription command =
     op_bind (op_lift (ChannelSubscriptionState_Parse command)) (\<lambda>subscription.
     op_modify (\<lambda>s.
       let s = s\<lparr>sn_channels := store_ApplySubscription subscription (sn_channels s)\<rparr>
       in if cs_subscribed subscription then s
          else s\<lparr>sn_clients := fold (\<lambda>i. clients_RemoveInChannel i (sn_clientId s)) (cs_entries subscription) (sn_clients s)\<rparr>))"

definition process_created :: "('n, 'd) Environment \<Rightarrow> Command \<Rightarrow> ('n, 'd, unit) session_op" where
  "process_created env command =
     op_bind (op_lift (ChannelCreated_Parse command)) (\<lambda>created.
     op_bind (op_modify (\<lambda>s. s\<lparr>sn_channels := store_ApplyCreated created (sn_channels s)\<rparr>)) (\<lambda>_ s.
     op_when (sn_initialStateComplete s) (SubscribeChannel env (ce_id created)) s))"

definition process_deleted :: "Command \<Rightarrow> ('n, 'd, unit) session_op" where
  "process_deleted command =
     op_bind (op_lift (ChannelDeleted_Parse command)) (\<lambda>channelId.
     op_modify (\<lambda>s. s\<lparr>sn_clients := clients_RemoveInChannel channelId (sn_clientId s) (sn_clients s),
                      sn_channels := store_Remove channelId (sn_channels s)\<rparr>))"

abbreviation on_channels :: "(ChannelStore, 'a) op \<Rightarrow> ('n, 'd, 'a) session_op" where
  "on_channels \<equiv> op_zoom sn_channels (\<lambda>c s. s\<lparr>sn_channels := c\<rparr>)"

definition process_updated :: "Command \<Rightarrow> ('n, 'd, unit) session_op" where
  "process_updated command =
     op_bind (op_lift (ClientUpdated_Parse command)) (\<lambda>updated.
     op_bind (op_modify (fold (\<lambda>entry s.
       case up_nickname entry of
         Some name \<Rightarrow> if up_id entry = sn_clientId s \<and> name \<noteq> [] then s\<lparr>sn_currentNickname := name\<rparr> else s
       | None \<Rightarrow> s) updated)) (\<lambda>_.
     op_modify (\<lambda>s. s\<lparr>sn_clients := clients_ApplyUpdated updated (sn_clients s)\<rparr>)))"

definition process_error :: "Command \<Rightarrow> ('n, 'd, unit) session_op" where
  "process_error command =
     op_bind (op_lift (CommandResult_Parse command)) (\<lambda>entries.
     op_modify (fold (\<lambda>entry s.
       if cr_id entry \<noteq> 0 then push_event (ErrorEvent \<lparr>ee_id = cr_id entry, ee_message = cr_message entry\<rparr>) s else s) entries))"

definition process_text :: "Command \<Rightarrow> ('n, 'd, unit) session_op" where
  "process_text command =
     op_bind (op_lift (TextMessage_Parse command)) (\<lambda>messages.
     op_modify (fold (\<lambda>message s.
       push_event (TextEvent \<lparr>xe_message = message, xe_replyTarget = ReplyTargetFor message s,
         xe_channelName = ChannelNameFor message s, xe_privatePeerName = PrivatePeerNameFor message s,
         xe_outgoing = (te_invokerId message = sn_clientId s)\<rparr>) s) messages))"

definition process_poke :: "Command \<Rightarrow> ('n, 'd, unit) session_op" where
  "process_poke command =
     op_bind (op_lift (ClientPoke_Parse command)) (\<lambda>entry.
     op_modify (push_event (Poked \<lparr>ke_invokerId = pk_invokerId entry, ke_invokerName = pk_invokerName entry,
       ke_invokerUniqueId = pk_invokerUniqueId entry, ke_message = pk_message entry\<rparr>)))"

definition ProcessCommand :: "('n, 'd) Environment \<Rightarrow> Command \<Rightarrow> ('n, 'd, unit) session_op" where
  "ProcessCommand env command =
     (let name = cmd_name command in
      if name = ''notifyconnectioninforequest'' then op_modify (\<lambda>s. s\<lparr>sn_connectionInfoRequested := True\<rparr>)
      else if name = ''channellist''
      then op_bind (op_lift (ChannelList_Parse command)) (\<lambda>entries.
             op_modify (\<lambda>s. s\<lparr>sn_channels := store_ApplyList entries (sn_channels s)\<rparr>))
      else if name = ''notifychannelsubscribed'' \<or> name = ''notifychannelunsubscribed'' then process_subscription command
      else if name = ''notifychannelcreated'' then process_created env command
      else if name = ''notifychanneldeleted'' then process_deleted command
      else if name = ''notifychannelmoved''
      then op_bind (op_lift (ChannelMoved_Parse command)) (\<lambda>e. on_channels (store_ApplyMoved e))
      else if name = ''notifychanneledited''
      then op_bind (op_lift (ChannelEdited_Parse command)) (\<lambda>e. on_channels (store_ApplyEdited e))
      else if name = ''notifycliententerview'' then process_enter_view command
      else if name = ''notifyclientmoved'' then process_moved command
      else if name = ''notifyclientleftview'' then process_left_view command
      else if name = ''notifyclientupdated'' then process_updated command
      else if name = ''error'' then process_error command
      else if name = ''notifytextmessage'' then process_text command
      else if name = ''notifyclientpoke'' then process_poke command
      else op_return ())"

section \<open>What handling commands keeps\<close>

lemma ChannelCreated_id: "ChannelCreated_Parse command = Inr e \<Longrightarrow> ce_id e \<noteq> 0"
  by (auto simp: ChannelCreated_Parse_def res_bind_eq_Inr dest!: channel_entry_valid split: list.splits)

lemma ChannelList_ids: "ChannelList_Parse command = Inr es \<Longrightarrow> list_all (\<lambda>e. ce_id e \<noteq> 0) es"
  by (auto simp: ChannelList_Parse_def res_bind_eq_Inr intro: res_map_all dest!: channel_entry_valid)

text \<open>
  The handlers change the session through a few elementary updates. A property of sessions that
  survives each of them survives \<open>ProcessCommand\<close> for every command the server can send, also
  when it throws half-way.
\<close>

locale command_invariant =
  fixes I :: "('n, 'd) Session \<Rightarrow> bool" and env :: "('n, 'd) Environment"
  assumes sent: "op_keeps I (on_transport (SendCommand env data))"
    and requested: "I s \<Longrightarrow> I (s\<lparr>sn_connectionInfoRequested := True\<rparr>)"
    and channels: "I s \<Longrightarrow> (store_inv (sn_channels s) \<Longrightarrow> store_inv c) \<Longrightarrow> I (s\<lparr>sn_channels := c\<rparr>)"
    and clients: "I s \<Longrightarrow> (clients_inv (sn_clients s) \<Longrightarrow> clients_inv l) \<Longrightarrow> I (s\<lparr>sn_clients := l\<rparr>)"
    and event: "I s \<Longrightarrow> I (push_event e s)"
    and channel: "I s \<Longrightarrow> I (s\<lparr>sn_currentChannelId := i\<rparr>)"
    and nickname: "I s \<Longrightarrow> I (s\<lparr>sn_currentNickname := n\<rparr>)"
    and removal: "I s \<Longrightarrow> sn_serverRemoval s = None \<Longrightarrow> I (s\<lparr>sn_serverRemoval := Some d\<rparr>)"
begin

lemma bind_lift: "(\<And>x. r = Inr x \<Longrightarrow> op_keeps I (f x)) \<Longrightarrow> op_keeps I (op_bind (op_lift r) f)"
  by (cases r) (simp_all add: op_keeps_def)

lemma send_message_keeps: "op_keeps I (send_message env message)"
  unfolding send_message_def by (rule bind_lift) (rule sent)

lemma presence: "I s \<Longrightarrow> I (EmitPresence k i c n s)"
  by (simp add: EmitPresence_def event split: option.split)

lemma place: "I s \<Longrightarrow> I (s\<lparr>sn_currentChannelId := i, sn_channels := store_SetSubscribed i True (sn_channels s)\<rparr>)"
  using channels [OF channel [of s i], of "store_SetSubscribed i True (sn_channels s)"] by (simp add: SetSubscribed_inv)

lemma folded: "(\<And>x s. I s \<Longrightarrow> I (f x s)) \<Longrightarrow> I s \<Longrightarrow> I (fold f xs s)"
  by (rule fold_inv)

lemma subscribed: "I s \<Longrightarrow> I (s\<lparr>sn_channels := store_SetSubscribed i True (sn_channels s)\<rparr>)"
  by (simp add: channels SetSubscribed_inv)

lemma enter_entry_keeps: "I s \<Longrightarrow> I (enter_entry e s)"
  unfolding enter_entry_def enter_own_def Let_def by (simp add: presence nickname place subscribed)

lemma moved_entry_keeps: "I s \<Longrightarrow> I (moved_entry e s)"
  unfolding moved_entry_def Let_def by (simp add: presence place)

lemma left_update_keeps: "I s \<Longrightarrow> I (left_update e s)"
  unfolding left_update_def clients_Remove_def by (simp add: clients Move_clients_inv erase_clients_inv)

lemma left_entry_keeps:
  assumes "I s"
  shows "I (left_entry e s)"
proof (cases "lv_id e = sn_clientId s")
  case True
  have "I (s\<lparr>sn_currentChannelId := 0\<rparr>)" using assms by (rule channel)
  then have "I (left_entry e s)" if "lv_toChannelId e = 0" using that True removal by (simp add: left_entry_def Let_def)
  moreover have "I (left_entry e s)" if "lv_toChannelId e \<noteq> 0"
    using place [OF assms, of "lv_toChannelId e"] that True by (simp add: left_entry_def Let_def)
  ultimately show ?thesis by blast
next
  case False
  then show ?thesis using assms by (simp add: left_entry_def Let_def presence)
qed

lemma on_channels_keeps:
  assumes "\<And>c. store_inv c \<Longrightarrow> store_inv (snd (m c))"
  shows "op_keeps I (on_channels m)"
proof (rule op_keepsI)
  fix s
  assume "I s"
  then have "I (s\<lparr>sn_channels := snd (m (sn_channels s))\<rparr>)" by (rule channels) (rule assms)
  then show "I (snd (on_channels m s))" by (simp add: op_zoom_def split_beta)
qed

lemma enter_view_keeps: "op_keeps I (process_enter_view command)"
  unfolding process_enter_view_def
  by (rule bind_lift, intro op_keeps_bind op_keeps_modify)
     (simp_all add: folded enter_entry_keeps clients ApplyEnterView_clients_inv)

lemma moved_keeps: "op_keeps I (process_moved command)"
  unfolding process_moved_def
  by (rule bind_lift, intro op_keeps_bind op_keeps_modify)
     (simp_all add: folded moved_entry_keeps clients ApplyMoved_clients_inv)

lemma left_view_keeps: "op_keeps I (process_left_view command)"
  unfolding process_left_view_def
  by (rule bind_lift, intro op_keeps_bind op_keeps_modify) (simp_all add: folded left_entry_keeps left_update_keeps)

lemma subscription_keeps: "op_keeps I (process_subscription command)"
proof -
  have store: "I (s\<lparr>sn_channels := store_ApplySubscription n (sn_channels s)\<rparr>)" if "I s" for s n
    using that by (rule channels) (rule ApplySubscription_inv)
  have hidden: "clients_inv l \<Longrightarrow> clients_inv (fold (\<lambda>i. clients_RemoveInChannel i k) ids l)" for l k ids
    by (rule fold_inv) (rule RemoveInChannel_clients_inv)
  have "I (s\<lparr>sn_channels := store_ApplySubscription n (sn_channels s),
      sn_clients := fold (\<lambda>i. clients_RemoveInChannel i (sn_clientId s)) ids (sn_clients s)\<rparr>)" if "I s" for s n ids
    using clients [OF store [OF that, of n], of "fold (\<lambda>i. clients_RemoveInChannel i (sn_clientId s)) ids (sn_clients s)"]
      hidden by simp
  with store show ?thesis
    unfolding process_subscription_def Let_def by (intro bind_lift op_keeps_modify) simp
qed

lemma created_keeps: "op_keeps I (process_created env command)"
proof -
  have send: "op_keeps I (SubscribeChannel env i)" for i
    unfolding SubscribeChannel_def by (rule op_keeps_bind [OF send_message_keeps op_keeps_return])
  show ?thesis
    unfolding process_created_def
  proof (rule bind_lift)
    fix e
    assume "ChannelCreated_Parse command = Inr e"
    then have id: "ce_id e \<noteq> 0" by (rule ChannelCreated_id)
    have "op_keeps I (\<lambda>s. op_when (sn_initialStateComplete s) (SubscribeChannel env (ce_id e)) s)"
      using send by (simp add: op_keeps_def op_when_def)
    then show "op_keeps I (op_bind (op_modify (\<lambda>s. s\<lparr>sn_channels := store_ApplyCreated e (sn_channels s)\<rparr>))
        (\<lambda>_ s. op_when (sn_initialStateComplete s) (SubscribeChannel env (ce_id e)) s))"
      by (intro op_keeps_bind op_keeps_modify) (simp add: channels ApplyCreated_inv id)
  qed
qed

lemma deleted_keeps: "op_keeps I (process_deleted command)"
proof -
  have "I (s\<lparr>sn_clients := clients_RemoveInChannel i (sn_clientId s) (sn_clients s), sn_channels := store_Remove i (sn_channels s)\<rparr>)"
    if "I s" for s i
    using channels [OF clients [OF that, of "clients_RemoveInChannel i (sn_clientId s) (sn_clients s)"],
        of "store_Remove i (sn_channels s)"] RemoveInChannel_clients_inv Remove_inv by simp
  then show ?thesis unfolding process_deleted_def by (intro bind_lift op_keeps_modify)
qed

lemma updated_keeps: "op_keeps I (process_updated command)"
  unfolding process_updated_def
  by (rule bind_lift, intro op_keeps_bind op_keeps_modify)
     (simp_all add: folded nickname clients ApplyUpdated_clients_inv split: option.split)

lemma reports_keep:
  "op_keeps I (process_error command)" "op_keeps I (process_text command)" "op_keeps I (process_poke command)"
  unfolding process_error_def process_text_def process_poke_def
  by (rule bind_lift, intro op_keeps_modify, simp add: folded event)+

lemma ProcessCommand_keeps: "op_keeps I (ProcessCommand env command)"
proof -
  have "op_keeps I (op_bind (op_lift (ChannelList_Parse command)) (\<lambda>entries.
      op_modify (\<lambda>s. s\<lparr>sn_channels := store_ApplyList entries (sn_channels s)\<rparr>)))"
    by (rule bind_lift, intro op_keeps_modify) (simp add: channels ApplyList_inv ChannelList_ids)
  moreover have "op_keeps I (op_bind (op_lift r) (\<lambda>e. on_channels (store_ApplyMoved e)))" for r
    by (rule bind_lift, rule on_channels_keeps) (simp add: store_ApplyMoved_def Move_inv)
  moreover have "op_keeps I (op_bind (op_lift r) (\<lambda>e. on_channels (store_ApplyEdited e)))" for r
    by (rule bind_lift, rule on_channels_keeps) (rule ApplyEdited_inv)
  moreover have "op_keeps I (op_modify (\<lambda>s. s\<lparr>sn_connectionInfoRequested := True\<rparr>))"
    by (rule op_keeps_modify) (rule requested)
  ultimately show ?thesis
    unfolding ProcessCommand_def Let_def
    by (intro op_keeps_if enter_view_keeps moved_keeps left_view_keeps subscription_keeps created_keeps deleted_keeps
        updated_keeps reports_keep op_keeps_return)
qed

end

section \<open>The live session\<close>

text \<open>Sending does not touch the ready commands, so neither does the handling of a command.\<close>

lemma SendCommand_ready: "op_keeps (\<lambda>s. tr_readyCommands s = R) (SendCommand env data)"
proof -
  let ?I = "\<lambda>s :: ('a, 'b) SessionTransport. tr_readyCommands s = R"
  have send: "op_keeps ?I (send_packet env t p)" for t p
    by (auto simp: op_keeps_def send_packet_run split: prod.split sum.split)
  have step: "op_keeps ?I (clock_now env)" "op_keeps ?I (outgoing_sequence t)" "op_keeps ?I (advance_outgoing t)"
    "op_keeps ?I (op_zoom tr_reliableCommands (\<lambda>Q s. s\<lparr>tr_reliableCommands := Q\<rparr>) m)" for t and m :: "(ReliableCommandQueue, unit) op"
    by (auto simp: op_keeps_def clock_now_def outgoing_sequence_def advance_outgoing_def op_zoom_def split: prod.split sum.split)
  have packet: "op_keeps ?I (SendCommandPacket env d f)" for d f
    unfolding SendCommandPacket_def
    by (intro op_keeps_bind step send op_keeps_pure op_keeps_modify op_keeps_return) simp
  have "op_keeps ?I (send_fragments env data i fs)" for i fs
    by (induction fs arbitrary: i) (simp_all add: op_keeps_return op_keeps_bind packet)
  then show ?thesis unfolding SendCommand_def by (intro op_keeps_bind op_keeps_lift)
qed

lemma zoom_keeps:
  "op_keeps P m \<Longrightarrow> op_keeps (\<lambda>s. P (sn_transport s)) (on_transport m)"
  by (auto simp: op_keeps_def op_zoom_def split_beta)

interpretation ready: command_invariant "\<lambda>s. tr_readyCommands (sn_transport s) = R \<and> sn_clientId s = i" env for R i env
proof
  show "op_keeps (\<lambda>s. tr_readyCommands (sn_transport s) = R \<and> sn_clientId s = i) (on_transport (SendCommand env data))" for data
    using SendCommand_ready [of R env data] by (auto simp: op_keeps_def op_zoom_def split_beta)
qed (simp_all add: push_event_def)

lemma ProcessCommand_ready:
  "ProcessCommand env command s = (r, s') \<Longrightarrow> tr_readyCommands (sn_transport s') = tr_readyCommands (sn_transport s)"
  using op_keepsD' [OF ready.ProcessCommand_keeps] by blast

lemma handled_ready:
  "(Inr u, s') = op_bind (op_lift r) (ProcessCommand env) s \<Longrightarrow>
   tr_readyCommands (sn_transport s') = tr_readyCommands (sn_transport s)"
  by (cases r) (auto dest: ProcessCommand_ready [OF sym])

text \<open>The loop ends: every round takes one command out of the ready queue and adds none.\<close>

function ProcessReadyCommands :: "('n, 'd) Environment \<Rightarrow> ('n, 'd, unit) session_op" where
  "ProcessReadyCommands env s =
     (case tr_readyCommands (sn_transport s) of
        [] \<Rightarrow> (Inr (), s)
      | data # rest \<Rightarrow>
          (case op_bind (op_lift (CommandParser_ParseBytes data)) (ProcessCommand env)
                  (s\<lparr>sn_transport := (sn_transport s)\<lparr>tr_readyCommands := rest\<rparr>\<rparr>) of
             (Inl e, s') \<Rightarrow> (Inl e, s')
           | (Inr _, s') \<Rightarrow> ProcessReadyCommands env s'))"
  by pat_completeness auto
termination
  by (relation "measure (\<lambda>(env, s). length (tr_readyCommands (sn_transport s)))")
     (auto dest!: handled_ready)

declare ProcessReadyCommands.simps [simp del]

definition take_voice_events :: "('n, 'd) Session \<Rightarrow> ('n, 'd) Session" where
  "take_voice_events s = s\<lparr>sn_events := sn_events s @ map VoiceEvent (tr_readyVoice (sn_transport s)),
     sn_transport := (sn_transport s)\<lparr>tr_readyVoice := []\<rparr>\<rparr>"

definition session_ProcessPacket :: "('n, 'd) Environment \<Rightarrow> ('n, 'd, unit) session_op" where
  "session_ProcessPacket env =
     op_bind (on_transport (ProcessPacket env)) (\<lambda>_.
     op_bind (ProcessReadyCommands env) (\<lambda>_.
     op_modify take_voice_events))"

definition SendConnectionInfo :: "('n, 'd) Environment \<Rightarrow> ('n, 'd, unit) session_op" where
  "SendConnectionInfo env =
     op_bind (on_transport (transport_Statistics env)) (\<lambda>snapshot.
     op_bind (send_message env (SetConnectionInfo_Serialize (env_fp env) snapshot)) (\<lambda>_. op_return ()))"

definition session_ProcessTimers :: "('n, 'd) Environment \<Rightarrow> ('n, 'd, unit) session_op" where
  "session_ProcessTimers env =
     op_bind (on_transport (ProcessTimers env)) (\<lambda>_ s.
     if \<not> sn_connectionInfoRequested s \<or> HasPendingReliableCommands (sn_transport s) then (Inr (), s)
     else op_bind (on_transport (clock_now env)) (\<lambda>now s.
            if (case sn_lastConnectionInfoSentAt s of None \<Rightarrow> False | Some t \<Rightarrow> now - t < seconds 1) then (Inr (), s)
            else SendConnectionInfo env (s\<lparr>sn_connectionInfoRequested := False, sn_lastConnectionInfoSentAt := Some now\<rparr>)) s)"

definition DisconnectPending :: "('n, 'd) Session \<Rightarrow> bool" where
  "DisconnectPending s =
     (case sn_disconnectPacketId s of None \<Rightarrow> False | Some packetId \<Rightarrow> IsCommandPending packetId (sn_transport s))"

definition session_TimedOut :: "('n, 'd) Environment \<Rightarrow> ('n, 'd, bool) session_op" where
  "session_TimedOut env =
     op_bind (on_transport (clock_now env)) (\<lambda>now. op_gets (\<lambda>s. TimedOut now (sn_transport s)))"

definition TakeEvent :: "('n, 'd, SessionEvent) session_op" where
  "TakeEvent s =
     (case sn_events s of
        [] \<Rightarrow> (Inl (RuntimeError ''No session event is available''), s)
      | e # es \<Rightarrow> (Inr e, s\<lparr>sn_events := es\<rparr>))"

section \<open>Login\<close>

definition receive_next :: "('n, 'd) Environment \<Rightarrow> ('n, 'd) Session \<Rightarrow> (Command result \<times> ('n, 'd) Session) option" where
  "receive_next env s =
     (case ReceiveCommand env (sn_transport s) of
        None \<Rightarrow> None
      | Some (r, t) \<Rightarrow> Some (res_bind r CommandParser_ParseBytes, s\<lparr>sn_transport := t\<rparr>))"

partial_function (option) await_init_server ::
  "('n, 'd) Environment \<Rightarrow> Command list \<Rightarrow> ('n, 'd) Session \<Rightarrow> ((InitServer \<times> Command list) result \<times> ('n, 'd) Session) option" where
  "await_init_server env before s =
     (case receive_next env s of
        None \<Rightarrow> None
      | Some (Inl e, s') \<Rightarrow> Some (Inl e, s')
      | Some (Inr command, s') \<Rightarrow>
          if cmd_name command = ''initserver''
          then Some (res_bind (InitServer_Parse command) (\<lambda>i. Inr (i, before)), s')
          else if cmd_name command = ''error'' then
            (case CommandResult_Parse command of
               Inl e \<Rightarrow> Some (Inl e, s')
             | Inr entries \<Rightarrow>
                 (case find (\<lambda>entry. cr_id entry \<noteq> 0) entries of
                    Some entry \<Rightarrow> Some (Inl (LoginRejectedError (cr_id entry) (cr_message entry)), s')
                  | None \<Rightarrow> await_init_server env before s'))
          else await_init_server env (before @ [command]) s')"

partial_function (option) receive_snapshot ::
  "('n, 'd) Environment \<Rightarrow> ('n, 'd) Session \<Rightarrow> (unit result \<times> ('n, 'd) Session) option" where
  "receive_snapshot env s =
     (case receive_next env s of
        None \<Rightarrow> None
      | Some (Inl e, s') \<Rightarrow> Some (Inl e, s')
      | Some (Inr command, s') \<Rightarrow>
          if cmd_name command = ''channellistfinished'' then
            (if cmd_rows command \<noteq> [] then Some (Inl (RuntimeError ''Unexpected channellistfinished parameters''), s')
             else Some (Inr (), s'))
          else (case ProcessCommand env command s' of
                  (Inl e, s'') \<Rightarrow> Some (Inl e, s'')
                | (Inr _, s'') \<Rightarrow> receive_snapshot env s''))"

definition choose_channel :: "('n, 'd, unit) session_op" where
  "choose_channel s =
     (case clients_Find (sn_clientId s) (sn_clients s) of
        Some self \<Rightarrow>
          if cl_channelId self \<noteq> 0 then (Inr (), s\<lparr>sn_currentChannelId := cl_channelId self\<rparr>)
          else (case store_Tree (sn_channels s) of
                  Inl e \<Rightarrow> (Inl e, s)
                | Inr entries \<Rightarrow>
                    (case find (\<lambda>e. ch_defaultChannel (tr_channel e)) entries of
                       Some e \<Rightarrow> (Inr (), s\<lparr>sn_currentChannelId := ch_id (tr_channel e)\<rparr>)
                     | None \<Rightarrow> (Inr (), s)))
      | None \<Rightarrow>
          (case store_Tree (sn_channels s) of
             Inl e \<Rightarrow> (Inl e, s)
           | Inr entries \<Rightarrow>
               (case find (\<lambda>e. ch_defaultChannel (tr_channel e)) entries of
                  Some e \<Rightarrow> (Inr (), s\<lparr>sn_currentChannelId := ch_id (tr_channel e)\<rparr>)
                | None \<Rightarrow> (Inr (), s))))"

definition finish_initial_state :: "('n, 'd) Environment \<Rightarrow> ('n, 'd, unit) session_op" where
  "finish_initial_state env =
     op_bind (\<lambda>s. (store_Validate (sn_channels s), s)) (\<lambda>_.
     op_bind choose_channel (\<lambda>_.
     op_bind (\<lambda>s. (if sn_currentChannelId s = 0 \<or> store_Find (sn_currentChannelId s) (sn_channels s) = None
                    then Inl (RuntimeError ''Unable to determine current client channel'') else Inr (), s)) (\<lambda>_.
     op_bind (op_modify (\<lambda>s. s\<lparr>sn_channels := store_SetSubscribed (sn_currentChannelId s) True (sn_channels s)\<rparr>)) (\<lambda>_.
     op_bind (SubscribeAllChannels env) (\<lambda>_.
     op_bind (\<lambda>s. (clients_Validate (sn_channels s) (sn_clients s), s)) (\<lambda>_.
     op_modify (\<lambda>s. s\<lparr>sn_initialStateComplete := True\<rparr>)))))))"

definition ReceiveInitialState :: "('n, 'd) Environment \<Rightarrow> ('n, 'd) Session \<Rightarrow> (unit result \<times> ('n, 'd) Session) option" where
  "ReceiveInitialState env s =
     (case receive_snapshot env s of
        None \<Rightarrow> None
      | Some (Inl e, s') \<Rightarrow> Some (Inl e, s')
      | Some (Inr _, s') \<Rightarrow> Some (finish_initial_state env s'))"

definition login_reset :: "ClientProfile \<Rightarrow> ('n, 'd) Session \<Rightarrow> ('n, 'd) Session" where
  "login_reset profile s = s\<lparr>sn_channels := store_Clear (sn_channels s), sn_clients := [], sn_events := [],
     sn_currentChannelId := 0, sn_currentNickname := cp_nickname profile, sn_initialStateComplete := False,
     sn_connectionInfoRequested := False, sn_lastConnectionInfoSentAt := None, sn_disconnectPacketId := None,
     sn_serverRemoval := None\<rparr>"

definition accept_init_server :: "('n, 'd) Environment \<Rightarrow> u16 \<Rightarrow> InitServer \<Rightarrow> Command list \<Rightarrow> ('n, 'd, unit) session_op" where
  "accept_init_server env clientInitPacketId i before =
     op_bind (on_transport (ConfirmCommand clientInitPacketId)) (\<lambda>_.
     op_bind (on_transport (SetClientId (is_clientId i))) (\<lambda>_.
     op_bind (op_modify (\<lambda>s. s\<lparr>sn_clientId := is_clientId i, sn_serverName := is_serverName i,
                              sn_codecEncryptionMode := is_codecEncryptionMode i\<rparr>)) (\<lambda>_.
     op_for before (ProcessCommand env))))"

definition Login :: "('n, 'd) Environment \<Rightarrow> ClientProfile \<Rightarrow> u64 \<Rightarrow> ('n, 'd) Session \<Rightarrow> (unit result \<times> ('n, 'd) Session) option" where
  "Login env profile keyOffset s =
     (if sn_clientId s \<noteq> 0 then Some (Inl (RuntimeError ''Session is already logged in''), s)
      else case send_message env (ClientInit_Serialize profile keyOffset) (login_reset profile s) of
             (Inl e, s1) \<Rightarrow> Some (Inl e, s1)
           | (Inr packetId, s1) \<Rightarrow>
               (case await_init_server env [] s1 of
                  None \<Rightarrow> None
                | Some (Inl e, s2) \<Rightarrow> Some (Inl e, s2)
                | Some (Inr (i, before), s2) \<Rightarrow>
                    (case accept_init_server env packetId i before s2 of
                       (Inl e, s3) \<Rightarrow> Some (Inl e, s3)
                     | (Inr _, s3) \<Rightarrow>
                         (case ReceiveInitialState env s3 of
                            None \<Rightarrow> None
                          | Some (Inl e, s4) \<Rightarrow> Some (Inl e, s4)
                          | Some (Inr _, s4) \<Rightarrow> Some (on_transport (SetConnected env) s4)))))"

end
