(* ===== verification/Session_Safety.thy ===== *)
theory Session_Safety
  imports Session
begin

text \<open>
  Properties of \<open>Session\<close>: its invariant over every sequence of calls, what a successful login
  establishes, the events it queues, what a refused command leaves behind and how the ready
  commands are worked off.
\<close>

section \<open>The invariant\<close>

definition session_ok :: "(PacketType \<Rightarrow> nat) \<Rightarrow> ('n, 'd) Session \<Rightarrow> bool" where
  "session_ok B s \<longleftrightarrow> transport_ok B (sn_transport s) \<and> store_inv (sn_channels s) \<and> clients_inv (sn_clients s)"

lemma transport_session_keeps:
  "op_keeps (transport_ok B) m \<Longrightarrow> op_keeps (session_ok B) (on_transport m)"
  by (auto simp: op_keeps_def op_zoom_def session_ok_def split_beta)

interpretation session: command_invariant "session_ok B" env for B env
proof
  show "op_keeps (session_ok B) (on_transport (SendCommand env data))" for data
    by (rule transport_session_keeps) (rule SendCommand_keeps)
qed (simp_all add: session_ok_def push_event_def)

text \<open>Events are only appended, and the first removal reported by the server stays.\<close>

interpretation history: command_invariant
  "\<lambda>s. (\<exists>es. sn_events s = E @ es) \<and> (\<forall>d. R = Some d \<longrightarrow> sn_serverRemoval s = Some d)" env for E R env
proof
  show "op_keeps (\<lambda>s. (\<exists>es. sn_events s = E @ es) \<and> (\<forall>d. R = Some d \<longrightarrow> sn_serverRemoval s = Some d))
      (on_transport (SendCommand env data))" for data
    by (simp add: op_keeps_def op_zoom_def split_beta)
qed (auto simp: push_event_def)

section \<open>Every operation keeps the invariant\<close>

lemma require_login_keeps: "op_keeps I m \<Longrightarrow> op_keeps I (require_login m)"
  by (simp add: op_keeps_def require_login_def)

lemma sent_keeps: "op_keeps (session_ok B) (op_bind (send_message env message) (\<lambda>_. op_return ()))"
  by (rule op_keeps_bind [OF session.send_message_keeps op_keeps_return])

lemma requests_keep:
  "op_keeps (session_ok B) (session_SendTextMessage env target body)"
  "op_keeps (session_ok B) (session_ChangeNickname env name)" "op_keeps (session_ok B) (session_SetAudioState env audio)"
  unfolding session_SendTextMessage_def session_ChangeNickname_def session_SetAudioState_def
  by (rule require_login_keeps, rule sent_keeps)+

lemma MoveToChannel_keeps: "op_keeps (session_ok B) (session_MoveToChannel env i)"
  unfolding session_MoveToChannel_def
  by (rule require_login_keeps, rule op_keepsI) (rule op_keepsD [OF sent_keeps])

lemma Disconnect_keeps: "op_keeps (session_ok B) (session_Disconnect env reason)"
proof -
  have "op_keeps (session_ok B) (op_bind (send_message env m) (\<lambda>p. op_modify (\<lambda>s. s\<lparr>sn_disconnectPacketId := Some p\<rparr>)))" for m
    by (intro op_keeps_bind session.send_message_keeps op_keeps_modify) (simp add: session_ok_def)
  then show ?thesis
    unfolding session_Disconnect_def by (intro require_login_keeps op_keeps_guard op_keeps_const)
qed

lemma voice_keeps:
  "op_keeps (session_ok B) (session_SendVoice env data start)"
  "op_keeps (session_ok B) (session_SendWhisper env wt data start)"
  "op_keeps (session_ok B) (session_SendGroupWhisper env gw data start)"
  unfolding session_SendVoice_def session_SendWhisper_def session_SendGroupWhisper_def with_voice_settings_def
  by (intro require_login_keeps op_keeps_if op_keeps_throw op_keeps_bind op_keeps_pure transport_session_keeps voice_senders_keep)+

lemma ProcessReadyCommands_rule:
  assumes step: "\<And>s data rest. I s \<Longrightarrow> tr_readyCommands (sn_transport s) = data # rest \<Longrightarrow>
      I (s\<lparr>sn_transport := (sn_transport s)\<lparr>tr_readyCommands := rest\<rparr>\<rparr>)"
    and command: "\<And>command. op_keeps I (ProcessCommand env command)"
    and "I s"
  shows "I (snd (ProcessReadyCommands env s))"
  using assms
proof (induction env s rule: ProcessReadyCommands.induct)
  case (1 env s)
  show ?case
  proof (cases "tr_readyCommands (sn_transport s)")
    case Nil
    then show ?thesis using 1 by (simp add: ProcessReadyCommands.simps)
  next
    case (Cons data rest)
    let ?s = "s\<lparr>sn_transport := (sn_transport s)\<lparr>tr_readyCommands := rest\<rparr>\<rparr>"
    obtain r s' where run: "op_bind (op_lift (CommandParser_ParseBytes data)) (ProcessCommand env) ?s = (r, s')"
      by (rule prod.exhaust)
    have "op_keeps I (op_bind (op_lift (CommandParser_ParseBytes data)) (ProcessCommand env))"
      using 1(3) by (intro op_keeps_bind op_keeps_lift)
    moreover have "I ?s" using 1(4) Cons by (rule 1(2))
    ultimately have "I s'" using run by (metis op_keepsD snd_conv)
    then show ?thesis
      using 1(1) [OF Cons run [symmetric]] 1(2,3) by (cases r) (simp_all add: ProcessReadyCommands.simps [of env s] Cons run)
  qed
qed

lemma session_ok_frame [simp]: "session_ok B (s\<lparr>sn_transport := (sn_transport s)\<lparr>tr_readyCommands := cs\<rparr>\<rparr>) = session_ok B s"
  by (simp add: session_ok_def)

lemma ProcessReadyCommands_keeps: "op_keeps (session_ok B) (ProcessReadyCommands env)"
  by (rule op_keepsI, rule ProcessReadyCommands_rule [of "session_ok B"]) (simp_all add: session.ProcessCommand_keeps)

lemma session_ProcessPacket_keeps: "op_keeps (session_ok B) (session_ProcessPacket env)"
  unfolding session_ProcessPacket_def
  by (intro op_keeps_bind transport_session_keeps ProcessPacket_keeps ProcessReadyCommands_keeps op_keeps_modify)
     (simp add: take_voice_events_def session_ok_def)

lemma session_ProcessTimers_keeps: "op_keeps (session_ok B) (session_ProcessTimers env)"
proof -
  have info: "op_keeps (session_ok B) (SendConnectionInfo env)"
    unfolding SendConnectionInfo_def
    by (intro op_keeps_bind transport_session_keeps client_interface_keeps session.send_message_keeps op_keeps_return)
  have "op_keeps (session_ok B) (\<lambda>s. SendConnectionInfo env
      (s\<lparr>sn_connectionInfoRequested := False, sn_lastConnectionInfoSentAt := Some now\<rparr>))" for now
    by (rule op_keepsI, rule op_keepsD [OF info]) (simp add: session_ok_def)
  then show ?thesis
    unfolding session_ProcessTimers_def
    by (intro op_keeps_bind transport_session_keeps ProcessTimers_keeps clock_now_keeps op_keeps_guard op_keeps_const)
qed

lemma TakeEvent_keeps: "op_keeps (session_ok B) TakeEvent"
  by (simp add: op_keeps_def TakeEvent_def session_ok_def split: list.split)

subsection \<open>Login\<close>

text \<open>An operation that may wait for ever keeps \<open>I\<close> when it returns.\<close>

definition opt_keeps :: "('s \<Rightarrow> bool) \<Rightarrow> ('s \<Rightarrow> ('a \<times> 's) option) \<Rightarrow> bool" where
  "opt_keeps I m \<longleftrightarrow> (\<forall>s r s'. I s \<longrightarrow> m s = Some (r, s') \<longrightarrow> I s')"

lemma WaitTimeout_keeps: "op_keeps (transport_ok B) (WaitTimeout env m)"
  by (simp add: op_keeps_def WaitTimeout_def clock_now_def op_bind_def split: option.split prod.split)

lemma receive_cycle_keeps: "op_keeps (transport_ok B) (receive_cycle env)"
  unfolding receive_cycle_def transport_WaitReadable_def
  by (intro op_keeps_bind ProcessTimers_keeps WaitTimeout_keeps on_net_keeps op_keeps_when ProcessPacket_keeps)

lemma receive_within_keeps: "transport_ok B s \<Longrightarrow> receive_within n env s = Some (r, s') \<Longrightarrow> transport_ok B s'"
proof (induction n arbitrary: s)
  case (Suc n)
  then show ?case
    using op_keepsD' [OF receive_cycle_keeps Suc.prems(1)]
    by (auto simp: receive_within.simps [of "Suc n"] split: if_splits prod.splits sum.splits)
qed (auto simp: receive_within.simps [of 0] split: if_splits)

lemma ReceiveCommand_keeps: "transport_ok B s \<Longrightarrow> ReceiveCommand env s = Some (r, s') \<Longrightarrow> transport_ok B s'"
  using ReceiveCommand_bounded receive_within_keeps by blast

lemma receive_next_keeps: "session_ok B s \<Longrightarrow> receive_next env s = Some (r, s') \<Longrightarrow> session_ok B s'"
  by (auto simp: receive_next_def session_ok_def intro: ReceiveCommand_keeps split: option.splits)

lemma await_init_server_keeps:
  assumes "await_init_server env before s = Some x"
  shows "session_ok B s \<longrightarrow> session_ok B (snd x)"
proof (rule await_init_server.raw_induct [OF _ assms], goal_cases)
  case (1 rec env before s x)
  show ?case
  proof (cases "receive_next env s")
    case (Some y)
    then obtain r s1 where y: "receive_next env s = Some (r, s1)" by (cases y) simp
    note step = receive_next_keeps [OF _ y]
    show ?thesis
      using 1(2) step 1(1)
      by (cases r) (auto simp: y split: if_splits sum.splits option.splits)
  qed (use 1(2) in simp)
qed

lemma receive_snapshot_keeps:
  assumes "receive_snapshot env s = Some x"
  shows "session_ok B s \<longrightarrow> session_ok B (snd x)"
proof (rule receive_snapshot.raw_induct [OF _ assms], goal_cases)
  case (1 rec env s x)
  show ?case
  proof (cases "receive_next env s")
    case (Some y)
    then obtain r s1 where y: "receive_next env s = Some (r, s1)" by (cases y) simp
    note step = receive_next_keeps [OF _ y]
    show ?thesis
    proof (cases r)
      case (Inr command)
      obtain r2 s2 where run: "ProcessCommand env command s1 = (r2, s2)" by (rule prod.exhaust)
      have "session_ok B s1 \<longrightarrow> session_ok B s2" using op_keepsD' [OF session.ProcessCommand_keeps _ run] by blast
      then show ?thesis
        using 1 step by (cases r2) (auto simp: y Inr run split: if_splits)
    qed (use 1(2) y step in auto)
  qed (use 1(2) in simp)
qed

lemma choose_channel_keeps: "op_keeps (session_ok B) choose_channel"
  by (simp add: op_keeps_def choose_channel_def session_ok_def split: option.split sum.split)

lemma finish_initial_state_keeps: "op_keeps (session_ok B) (finish_initial_state env)"
  unfolding finish_initial_state_def SubscribeAllChannels_def
  by (intro op_keeps_bind op_keeps_pure choose_channel_keeps op_keeps_modify session.subscribed sent_keeps
      session.send_message_keeps op_keeps_return) (simp_all add: session_ok_def)

lemma accept_init_server_keeps: "op_keeps (session_ok B) (accept_init_server env p i before)"
  unfolding accept_init_server_def
  by (intro op_keeps_bind transport_session_keeps ConfirmCommand_keeps client_interface_keeps op_keeps_modify op_keeps_for
      session.ProcessCommand_keeps) (simp add: session_ok_def)

lemma ReceiveInitialState_keeps:
  assumes "session_ok B s" and "ReceiveInitialState env s = Some (r, s')"
  shows "session_ok B s'"
proof -
  obtain r1 s1 where snapshot: "receive_snapshot env s = Some (r1, s1)"
    using assms(2) by (auto simp: ReceiveInitialState_def split: option.splits)
  then have ok: "session_ok B s1" using receive_snapshot_keeps [OF snapshot] assms(1) by simp
  show ?thesis
  proof (cases r1)
    case (Inr u)
    then have "finish_initial_state env s1 = (r, s')" using assms(2) snapshot by (simp add: ReceiveInitialState_def)
    then show ?thesis by (rule op_keepsD' [OF finish_initial_state_keeps ok])
  qed (use assms(2) snapshot ok in \<open>simp add: ReceiveInitialState_def\<close>)
qed

lemma Login_keeps:
  assumes ok: "session_ok B s" and run: "Login env profile k s = Some (r, s')"
  shows "session_ok B s'"
proof (cases "sn_clientId s = 0")
  case True
  have reset: "session_ok B (login_reset profile s)"
    using ok by (simp add: session_ok_def login_reset_def clients_inv_empty) (simp add: store_inv_def store_Clear_def ss_ok_def)
  obtain r1 s1 where send: "send_message env (ClientInit_Serialize profile k) (login_reset profile s) = (r1, s1)"
    by (rule prod.exhaust)
  have ok1: "session_ok B s1" by (rule op_keepsD' [OF session.send_message_keeps reset send])
  show ?thesis
  proof (cases r1)
    case (Inr p)
    then obtain r2 s2 where wait: "await_init_server env [] s1 = Some (r2, s2)"
      using run True send by (auto simp: Login_def split: option.splits)
    have ok2: "session_ok B s2" using await_init_server_keeps [OF wait] ok1 by simp
    show ?thesis
    proof (cases r2)
      case (Inr x)
      obtain i before where x: "x = (i, before)" by (rule prod.exhaust)
      obtain r3 s3 where accept: "accept_init_server env p i before s2 = (r3, s3)" by (rule prod.exhaust)
      have ok3: "session_ok B s3" by (rule op_keepsD' [OF accept_init_server_keeps ok2 accept])
      note rest = run [unfolded Login_def] True send \<open>r1 = Inr p\<close> wait Inr x accept
      show ?thesis
      proof (cases r3)
        case (Inr u)
        then obtain r4 s4 where state: "ReceiveInitialState env s3 = Some (r4, s4)"
          using rest by (auto split: option.splits)
        have ok4: "session_ok B s4" by (rule ReceiveInitialState_keeps [OF ok3 state])
        have "op_keeps (session_ok B) (on_transport (SetConnected env))"
          by (rule transport_session_keeps) (rule SetConnected_keeps)
        then have "session_ok B (snd (on_transport (SetConnected env) s4))" using ok4 by (rule op_keepsD)
        then show ?thesis using rest Inr state ok4 by (cases r4) auto
      qed (use rest ok3 in simp)
    qed (use run True send Inr wait ok2 in \<open>simp add: Login_def\<close>)
  qed (use run True send ok1 in \<open>simp add: Login_def\<close>)
qed (use run ok in \<open>simp add: Login_def\<close>)

section \<open>Calls of the application\<close>

text \<open>One call of the public interface, with the state it leaves whether or not it throws.\<close>

inductive session_step :: "('n, 'd) Environment \<Rightarrow> ('n, 'd) Session \<Rightarrow> ('n, 'd) Session \<Rightarrow> bool" for env where
  call_login: "Login env profile k s = Some (r, s') \<Longrightarrow> session_step env s s'"
| call_disconnect: "session_Disconnect env reason s = (r, s') \<Longrightarrow> session_step env s s'"
| call_text: "session_SendTextMessage env target body s = (r, s') \<Longrightarrow> session_step env s s'"
| call_move: "session_MoveToChannel env i s = (r, s') \<Longrightarrow> session_step env s s'"
| call_nickname: "session_ChangeNickname env name s = (r, s') \<Longrightarrow> session_step env s s'"
| call_audio: "session_SetAudioState env audio s = (r, s') \<Longrightarrow> session_step env s s'"
| call_voice: "session_SendVoice env data start s = (r, s') \<Longrightarrow> session_step env s s'"
| call_whisper: "session_SendWhisper env wt data start s = (r, s') \<Longrightarrow> session_step env s s'"
| call_group_whisper: "session_SendGroupWhisper env gw data start s = (r, s') \<Longrightarrow> session_step env s s'"
| call_packet: "session_ProcessPacket env s = (r, s') \<Longrightarrow> session_step env s s'"
| call_timers: "session_ProcessTimers env s = (r, s') \<Longrightarrow> session_step env s s'"
| call_event: "TakeEvent s = (e, s') \<Longrightarrow> session_step env s s'"

lemma session_step_ok: "session_step env s s' \<Longrightarrow> session_ok B s \<Longrightarrow> session_ok B s'"
  by (induction rule: session_step.induct)
     (auto intro: Login_keeps elim: op_keepsD' [OF Disconnect_keeps] op_keepsD' [OF requests_keep(1)]
       op_keepsD' [OF requests_keep(2)] op_keepsD' [OF requests_keep(3)] op_keepsD' [OF MoveToChannel_keeps]
       op_keepsD' [OF voice_keeps(1)] op_keepsD' [OF voice_keeps(2)] op_keepsD' [OF voice_keeps(3)]
       op_keepsD' [OF session_ProcessPacket_keeps] op_keepsD' [OF session_ProcessTimers_keeps] op_keepsD' [OF TakeEvent_keeps])

lemma session_steps_ok: "(session_step env)\<^sup>*\<^sup>* s s' \<Longrightarrow> session_ok B s \<Longrightarrow> session_ok B s'"
  by (induction rule: rtranclp_induct) (auto intro: session_step_ok)

lemma make_Session_ok:
  "sequences_ok sequences \<Longrightarrow> session_ok (\<lambda>_. 0) (make_Session env crypto sequences n)"
  by (simp add: session_ok_def make_Session_def store_inv_empty clients_inv_empty make_SessionTransport_inv
      transport_ok_def outgoing_from_def)

section \<open>What a login establishes\<close>

definition established :: "('n, 'd) Session \<Rightarrow> bool" where
  "established s \<longleftrightarrow> sn_initialStateComplete s \<and> sn_currentChannelId s \<noteq> 0 \<and>
     store_Find (sn_currentChannelId s) (sn_channels s) \<noteq> None \<and>
     store_IsSubscribed (sn_currentChannelId s) (sn_channels s) \<and>
     (\<forall>i c. store_Find i (sn_channels s) = Some c \<longrightarrow> ch_parentId c = 0 \<or> store_Find (ch_parentId c) (sn_channels s) \<noteq> None) \<and>
     (\<forall>i c. clients_Find i (sn_clients s) = Some c \<longrightarrow>
        cl_channelId c = 0 \<or> store_Find (cl_channelId c) (sn_channels s) \<noteq> None)"

lemma SetSubscribed_IsSubscribed: "i \<noteq> 0 \<Longrightarrow> store_IsSubscribed i (store_SetSubscribed i True c)"
  by (simp add: store_IsSubscribed_def store_SetSubscribed_def)

lemma SetSubscribed_Find:
  "store_Find k (store_SetSubscribed i b c) =
     map_option (\<lambda>x. if k = i \<and> i \<noteq> 0 then x\<lparr>ch_subscribed := b\<rparr> else x) (store_Find k c)"
  by (auto simp: store_Find_def store_SetSubscribed_def option.map_ident)

lemma Validate_parents:
  assumes "store_Validate c = Inr u" and "store_Find i c = Some x"
  shows "ch_parentId x = 0 \<or> store_Find (ch_parentId x) c \<noteq> None"
  using assms
  by (auto simp: store_Validate_def res_bind_eq_Inr store_Tree_def Let_def store_Find_def sm_contains_def list_ex_iff
      split: if_splits dest: map_of_SomeD [folded sm_find_def])

lemma clients_Validate_channels:
  assumes "clients_Validate c l = Inr u" and "clients_Find i l = Some x"
  shows "cl_channelId x = 0 \<or> store_Find (cl_channelId x) c \<noteq> None"
  using assms by (auto simp: clients_Validate_def clients_Find_def list_ex_iff split: if_splits dest: map_of_SomeD [folded sm_find_def])

lemma choose_channel_frame:
  "choose_channel s = (r, s') \<Longrightarrow> \<exists>i. s' = s\<lparr>sn_currentChannelId := i\<rparr>"
  by (auto simp: choose_channel_def intro: exI [of _ "sn_currentChannelId s"] split: option.splits sum.splits if_splits)

lemma send_message_frame:
  "send_message env m s = (r, s') \<Longrightarrow> \<exists>t. s' = s\<lparr>sn_transport := t\<rparr>"
  by (cases m) (auto simp: send_message_def op_zoom_def intro: exI [of _ "sn_transport s"] split: prod.splits)

lemma finish_initial_state_established:
  assumes "finish_initial_state env s = (Inr u, s')"
  shows "established s' \<and> sn_clientId s' = sn_clientId s"
proof -
  obtain v s1 t where validate: "store_Validate (sn_channels s) = Inr v" and choose: "choose_channel s = (Inr (), s1)"
    and known: "sn_currentChannelId s1 \<noteq> 0" "store_Find (sn_currentChannelId s1) (sn_channels s1) \<noteq> None"
    and t: "clients_Validate (store_SetSubscribed (sn_currentChannelId s1) True (sn_channels s1)) (sn_clients s1) = Inr ()"
    and s': "s' = s1\<lparr>sn_channels := store_SetSubscribed (sn_currentChannelId s1) True (sn_channels s1), sn_transport := t,
        sn_initialStateComplete := True\<rparr>"
    using assms unfolding finish_initial_state_def SubscribeAllChannels_def
    by (auto simp: op_bind_eq_Inr split: if_splits dest!: send_message_frame)
  obtain i where s1: "s1 = s\<lparr>sn_currentChannelId := i\<rparr>" using choose_channel_frame [OF choose] by blast
  have "ch_parentId x = 0 \<or> store_Find (ch_parentId x) (store_SetSubscribed i True (sn_channels s)) \<noteq> None"
    if x: "store_Find k (store_SetSubscribed i True (sn_channels s)) = Some x" for k x
  proof -
    obtain y where "store_Find k (sn_channels s) = Some y" "ch_parentId x = ch_parentId y"
      using x by (auto simp: SetSubscribed_Find split: if_splits)
    then show ?thesis using Validate_parents [OF validate] by (auto simp: SetSubscribed_Find)
  qed
  moreover note clients_Validate_channels [OF t]
  ultimately show ?thesis
    using known by (simp add: s' s1 established_def SetSubscribed_IsSubscribed) (auto simp: SetSubscribed_Find)
qed



lemma ProcessCommand_clientId: "op_keeps (\<lambda>s. sn_clientId s = i) (ProcessCommand env command)"
proof -
  have "op_keeps (\<lambda>s. tr_readyCommands (sn_transport s) = R \<and> sn_clientId s = i) (ProcessCommand env command)" for R
    by (rule ready.ProcessCommand_keeps)
  then show ?thesis unfolding op_keeps_def by blast
qed

lemma receive_next_clientId: "receive_next env s = Some (r, s') \<Longrightarrow> sn_clientId s' = sn_clientId s"
  by (auto simp: receive_next_def split: option.splits)

lemma receive_snapshot_clientId:
  assumes "receive_snapshot env s = Some x"
  shows "sn_clientId (snd x) = sn_clientId s"
proof (rule receive_snapshot.raw_induct [OF _ assms], goal_cases)
  case (1 rec env s x)
  show ?case
  proof (cases "receive_next env s")
    case (Some y)
    then obtain r s1 where y: "receive_next env s = Some (r, s1)" by (cases y) simp
    note step = receive_next_clientId [OF y]
    show ?thesis
    proof (cases r)
      case (Inr command)
      obtain r2 s2 where run: "ProcessCommand env command s1 = (r2, s2)" by (rule prod.exhaust)
      have "sn_clientId s2 = sn_clientId s1" using op_keepsD' [OF ProcessCommand_clientId refl run] .
      then show ?thesis
        using 1 step by (cases r2) (auto simp: y Inr run split: if_splits)
    qed (use 1(2) y step in auto)
  qed (use 1(2) in simp)
qed

lemma accept_init_server_clientId:
  assumes "accept_init_server env p i before s = (Inr u, s')"
  shows "sn_clientId s' \<noteq> 0 \<and> sn_clientId s' = is_clientId i"
proof -
  have "\<exists>s2. sn_clientId s2 = is_clientId i \<and> is_clientId i \<noteq> 0 \<and> op_for before (ProcessCommand env) s2 = (Inr u, s')"
    using assms unfolding accept_init_server_def
    by (auto simp: op_bind_eq_Inr op_zoom_def SetClientId_def split: prod.splits if_splits) (rule exI, rule conjI [rotated], assumption, simp)
  then obtain s2 where s2: "sn_clientId s2 = is_clientId i" "is_clientId i \<noteq> 0" "op_for before (ProcessCommand env) s2 = (Inr u, s')"
    by blast
  have "op_keeps (\<lambda>s. sn_clientId s = is_clientId i) (op_for before (ProcessCommand env))"
    by (intro op_keeps_for ProcessCommand_clientId)
  then show ?thesis using s2 unfolding op_keeps_def by (metis snd_conv)
qed

lemma established_frame [simp]: "established (s\<lparr>sn_transport := t\<rparr>) = established s"
  by (simp add: established_def)

lemma Login_established:
  assumes "Login env profile k s = Some (Inr u, s')"
  shows "established s' \<and> sn_clientId s' \<noteq> 0 \<and> tr_connected (sn_transport s') \<and> sn_clientId s = 0"
proof -
  obtain p i before s2 s3 s4 where accept: "accept_init_server env p i before s2 = (Inr (), s3)"
    and state: "ReceiveInitialState env s3 = Some (Inr (), s4)" and connect: "on_transport (SetConnected env) s4 = (Inr (), s')"
    and fresh: "sn_clientId s = 0"
    using assms by (auto simp: Login_def split: if_splits prod.splits sum.splits option.splits)
  obtain s5 where snapshot: "receive_snapshot env s3 = Some (Inr (), s5)" and finish: "finish_initial_state env s5 = (Inr (), s4)"
    using state by (auto simp: ReceiveInitialState_def split: option.splits sum.splits prod.splits)
  have "established s4 \<and> sn_clientId s4 \<noteq> 0"
    using finish_initial_state_established [OF finish] receive_snapshot_clientId [OF snapshot]
      accept_init_server_clientId [OF accept] by auto
  then show ?thesis
    using connect fresh
    by (auto simp: op_zoom_def SetConnected_def clock_now_def op_bind_def split: prod.splits)
qed

section \<open>Events\<close>

text \<open>
  A presence event tells the truth about the channels \<open>c\<close>: it is about another client of a
  known channel, whose name it carries, in a session whose initial state is complete.
\<close>

fun truthful :: "u16 \<Rightarrow> bool \<Rightarrow> ChannelStore \<Rightarrow> SessionEvent \<Rightarrow> bool" where
  "truthful own complete c (PresenceEvent e) \<longleftrightarrow> complete \<and> pe_clientId e \<noteq> own \<and> pe_channelId e \<noteq> 0 \<and>
     pe_clientName e \<noteq> [] \<and> map_option ch_name (store_Find (pe_channelId e) c) = Some (pe_channelName e)"
| "truthful own complete c _ \<longleftrightarrow> True"

text \<open>The session \<open>s'\<close> follows \<open>s\<close> with truthful events only; the names of the channels are the same.\<close>

definition reports :: "('n, 'd) Session \<Rightarrow> ('n, 'd) Session \<Rightarrow> bool" where
  "reports s s' \<longleftrightarrow> sn_clientId s' = sn_clientId s \<and> sn_initialStateComplete s' = sn_initialStateComplete s \<and>
     (\<forall>i. map_option ch_name (store_Find i (sn_channels s')) = map_option ch_name (store_Find i (sn_channels s))) \<and>
     (\<exists>es. sn_events s' = sn_events s @ es \<and> (\<forall>e \<in> set es. truthful (sn_clientId s) (sn_initialStateComplete s) (sn_channels s') e))"

lemma truthful_cong:
  "(\<And>i. map_option ch_name (store_Find i c') = map_option ch_name (store_Find i c)) \<Longrightarrow> truthful own b c' e = truthful own b c e"
  by (cases e) simp_all

lemma reports_refl: "reports s s"
  by (simp add: reports_def)

lemma reports_trans:
  assumes "reports s s'" and "reports s' s''"
  shows "reports s s''"
proof -
  obtain es where es: "sn_events s' = sn_events s @ es"
      "\<forall>e \<in> set es. truthful (sn_clientId s) (sn_initialStateComplete s) (sn_channels s') e"
    using assms(1) unfolding reports_def by blast
  moreover obtain es' where es': "sn_events s'' = sn_events s' @ es'"
      "\<forall>e \<in> set es'. truthful (sn_clientId s) (sn_initialStateComplete s) (sn_channels s'') e"
    using assms unfolding reports_def by auto
  moreover have "truthful o' b (sn_channels s'') e = truthful o' b (sn_channels s') e" for o' b e
    by (rule truthful_cong) (use assms in \<open>simp add: reports_def\<close>)
  ultimately have "\<forall>e \<in> set (es @ es'). truthful (sn_clientId s) (sn_initialStateComplete s) (sn_channels s'') e" by auto
  then show ?thesis using assms es(1) es'(1) unfolding reports_def by (metis append_assoc)
qed

lemma reports_fold: "(\<And>x s. reports s (f x s)) \<Longrightarrow> reports s (fold f xs s)"
  by (induction xs arbitrary: s) (auto intro: reports_refl reports_trans)

lemma reports_frame:
  "reports s (s\<lparr>sn_clients := l\<rparr>)" "reports s (s\<lparr>sn_currentChannelId := i\<rparr>)" "reports s (s\<lparr>sn_currentNickname := n\<rparr>)"
  "reports s (s\<lparr>sn_serverRemoval := d\<rparr>)" "reports s (s\<lparr>sn_channels := store_SetSubscribed i b (sn_channels s)\<rparr>)"
  "reports s (s\<lparr>sn_currentChannelId := i, sn_channels := store_SetSubscribed i b (sn_channels s)\<rparr>)"
  by (auto simp: reports_def SetSubscribed_Find option.map_comp comp_def intro!: option.map_cong)

lemma reports_presence:
  "sn_initialStateComplete s \<Longrightarrow> i \<noteq> sn_clientId s \<Longrightarrow> reports s (EmitPresence k i c n s)"
  by (auto simp: EmitPresence_def reports_def push_event_def split: option.split)

lemma entries_report:
  "reports s (enter_entry ee s)" "reports s (moved_entry me s)" "reports s (left_update le s)"
  using reports_trans [OF reports_frame(6) reports_frame(3)] reports_trans [OF reports_frame(5) reports_frame(3)]
  by (auto simp: enter_entry_def enter_own_def moved_entry_def left_update_def Let_def
      intro: reports_frame reports_refl reports_presence)

lemma left_entry_reports: "reports s (left_entry e s)"
proof (cases "lv_id e = sn_clientId s")
  case True
  have "reports s (s\<lparr>sn_currentChannelId := i, sn_serverRemoval := d\<rparr>)" for i d
    using reports_trans [OF reports_frame(2) reports_frame(4)] .
  with True show ?thesis
    by (simp add: left_entry_def Let_def reports_frame)
next
  case False
  then show ?thesis by (simp add: left_entry_def Let_def reports_presence reports_refl)
qed

lemma reports_lift:
  "(\<And>x. r = Inr x \<Longrightarrow> reports s (snd (f x s))) \<Longrightarrow> reports s (snd (op_bind (op_lift r) f s))"
  by (cases r) (simp_all add: reports_refl)

lemma views_report:
  "reports s (snd (process_enter_view command s))" "reports s (snd (process_moved command s))"
  "reports s (snd (process_left_view command s))"
proof -
  have clients: "reports s s' \<Longrightarrow> reports s (s'\<lparr>sn_clients := l\<rparr>)" for s s' :: "('a, 'b) Session" and l
    by (rule reports_trans [OF _ reports_frame(1)])
  show "reports s (snd (process_enter_view command s))" "reports s (snd (process_moved command s))"
    unfolding process_enter_view_def process_moved_def
    by (rule reports_lift, simp add: op_bind_def, intro clients reports_fold entries_report)+
  show "reports s (snd (process_left_view command s))"
    unfolding process_left_view_def
    by (rule reports_lift, simp add: op_bind_def, intro reports_trans [OF reports_fold reports_fold] left_entry_reports entries_report)
qed

text \<open>The other handlers queue no presence event.\<close>

definition no_presence :: "('n, 'd) Session \<Rightarrow> ('n, 'd) Session \<Rightarrow> bool" where
  "no_presence s s' \<longleftrightarrow> (\<exists>es. sn_events s' = sn_events s @ es \<and> (\<forall>e. PresenceEvent e \<notin> set es))"

lemma no_presence_fold:
  "(\<And>x s. no_presence s (f x s)) \<Longrightarrow> no_presence s (fold f xs s)"
proof (induction xs arbitrary: s)
  case (Cons x xs)
  obtain es where "sn_events (f x s) = sn_events s @ es" "\<forall>e. PresenceEvent e \<notin> set es"
    using Cons.prems unfolding no_presence_def by blast
  moreover obtain es' where "sn_events (fold f xs (f x s)) = sn_events (f x s) @ es'" "\<forall>e. PresenceEvent e \<notin> set es'"
    using Cons.IH [OF Cons.prems] unfolding no_presence_def by blast
  ultimately show ?case unfolding no_presence_def by (intro exI [of _ "es @ es'"]) auto
qed (simp add: no_presence_def)

lemma no_presence_lift:
  "(\<And>x. no_presence s (snd (f x s))) \<Longrightarrow> no_presence s (snd (op_bind (op_lift r) f s))"
  by (cases r) (simp_all add: no_presence_def)

lemma no_presence_zoom: "no_presence s (snd (op_bind (op_lift r) (\<lambda>e. on_channels (g e)) s))"
  by (rule no_presence_lift) (simp add: no_presence_def op_zoom_def split_beta)

lemma other_handlers_no_presence:
  assumes "cmd_name command \<notin> {''notifycliententerview'', ''notifyclientmoved'', ''notifyclientleftview''}"
  shows "no_presence s (snd (ProcessCommand env command s))"
proof -
  have same: "sn_events s' = sn_events s \<Longrightarrow> no_presence s s'" for s' by (simp add: no_presence_def)
  have error: "no_presence s (snd (process_error command s))"
    unfolding process_error_def
    by (rule no_presence_lift, simp, rule no_presence_fold) (simp add: no_presence_def push_event_def)
  have text_message: "no_presence s (snd (process_text command s))"
    unfolding process_text_def
    by (rule no_presence_lift, simp, rule no_presence_fold) (simp add: no_presence_def push_event_def)
  have poke: "no_presence s (snd (process_poke command s))"
    unfolding process_poke_def by (rule no_presence_lift) (simp add: no_presence_def push_event_def)
  have created: "no_presence s (snd (process_created env command s))"
    unfolding process_created_def SubscribeChannel_def send_message_def
    by (rule no_presence_lift, rule same) (auto simp: op_bind_def op_zoom_def op_when_def op_lift_def split: sum.split prod.split)
  have updated: "no_presence s (snd (process_updated command s))"
    unfolding process_updated_def
    by (rule no_presence_lift, simp add: op_bind_def, rule same, simp, rule fold_inv)
       (auto split: option.split)
  have rest: "no_presence s (snd (process_subscription command s))" "no_presence s (snd (process_deleted command s))"
    unfolding process_subscription_def process_deleted_def
    by (rule no_presence_lift, rule same, simp add: Let_def)+
  have chlist: "no_presence s (snd (op_bind (op_lift r) (\<lambda>e. op_modify (\<lambda>s. s\<lparr>sn_channels := store_ApplyList e (sn_channels s)\<rparr>)) s))" for r
    by (rule no_presence_lift, rule same) simp
  show ?thesis
    using assms error text_message poke created updated rest chlist
    unfolding ProcessCommand_def Let_def by (simp add: same no_presence_zoom)
qed

section \<open>Failed commands\<close>

lemma lift_modify_Inl: "op_bind (op_lift r) (\<lambda>x. op_modify (h x)) s = (Inl e, s') \<Longrightarrow> s' = s"
  by (cases r) simp_all

lemma lift_modify2_Inl: "op_bind (op_lift r) (\<lambda>x. op_bind (op_modify (h x)) (\<lambda>_. op_modify (k x))) s = (Inl e, s') \<Longrightarrow> s' = s"
  by (cases r) (simp_all add: op_bind_def)

lemma store_Move_Inl: "store_Move c p a s = (Inl e, s') \<Longrightarrow> s' = s"
  by (auto simp: store_Move_def Let_def split: option.splits if_splits)

lemma store_ApplyEdited_Inl: "store_ApplyEdited ed s = (Inl e, s') \<Longrightarrow> s' = s"
  by (auto simp: store_ApplyEdited_def op_bind_eq_Inl dest: store_Move_Inl split: option.splits if_splits)

lemma on_channels_Inl:
  assumes "\<And>x c e c'. f x c = (Inl e, c') \<Longrightarrow> c' = c"
    and "op_bind (op_lift r) (\<lambda>x. on_channels (f x)) s = (Inl e, s')"
  shows "s' = s"
  using assms(2) by (cases r) (auto simp: op_zoom_def split: prod.splits dest: assms(1))

lemma moved_Inl: "op_bind (op_lift r) (\<lambda>x. on_channels (store_ApplyMoved x)) s = (Inl e, s') \<Longrightarrow> s' = s"
  by (rule on_channels_Inl [of store_ApplyMoved]) (simp_all add: store_ApplyMoved_def store_Move_Inl)

lemma edited_Inl: "op_bind (op_lift r) (\<lambda>x. on_channels (store_ApplyEdited x)) s = (Inl e, s') \<Longrightarrow> s' = s"
  by (rule on_channels_Inl [of store_ApplyEdited]) (simp_all add: store_ApplyEdited_Inl)

lemma process_created_Inl:
  assumes "process_created env command s = (Inl e, s')" and "s' \<noteq> s"
  shows "\<exists>created t. ChannelCreated_Parse command = Inr created \<and> sn_initialStateComplete s \<and>
    s' = s\<lparr>sn_channels := store_ApplyCreated created (sn_channels s), sn_transport := t\<rparr>"
proof (cases "ChannelCreated_Parse command")
  case (Inr created)
  let ?s = "s\<lparr>sn_channels := store_ApplyCreated created (sn_channels s)\<rparr>"
  have run: "op_when (sn_initialStateComplete s) (SubscribeChannel env (ce_id created)) ?s = (Inl e, s')"
    using assms(1) Inr by (simp add: process_created_def op_bind_def)
  then have complete: "sn_initialStateComplete s" by (simp add: op_when_def split: if_splits)
  then have "send_message env (ChannelSubscribe_Serialize (ce_id created)) ?s = (Inl e, s')"
    using run by (auto simp: SubscribeChannel_def op_bind_eq_Inl)
  from send_message_frame [OF this] show ?thesis using Inr complete by auto
qed (use assms in \<open>simp add: process_created_def\<close>)

section \<open>Ready commands\<close>

lemma ready_commands_run:
  assumes "ProcessReadyCommands env s = (r, s')"
  shows "(case r of Inr _ \<Rightarrow> tr_readyCommands (sn_transport s') = []
     | Inl _ \<Rightarrow> (\<exists>handled bad. tr_readyCommands (sn_transport s) = handled @ bad # tr_readyCommands (sn_transport s')))"
  using assms
proof (induction env s arbitrary: r s' rule: ProcessReadyCommands.induct)
  case (1 env s)
  show ?case
  proof (cases "tr_readyCommands (sn_transport s)")
    case (Cons data rest)
    let ?s = "s\<lparr>sn_transport := (sn_transport s)\<lparr>tr_readyCommands := rest\<rparr>\<rparr>"
    obtain r1 s1 where run: "op_bind (op_lift (CommandParser_ParseBytes data)) (ProcessCommand env) ?s = (r1, s1)"
      by (rule prod.exhaust)
    have kept: "tr_readyCommands (sn_transport s1) = rest"
      using run ProcessCommand_ready [of env _ ?s r1 s1]
      by (cases "CommandParser_ParseBytes data") auto
    show ?thesis
    proof (cases r1)
      case (Inl e)
      then show ?thesis using 1(2) Cons run kept by (auto simp: ProcessReadyCommands.simps [of env s])
    next
      case (Inr u)
      then have "ProcessReadyCommands env s1 = (r, s')" using 1(2) Cons run by (simp add: ProcessReadyCommands.simps [of env s])
      from 1(1) [OF Cons run [symmetric] Inr this] show ?thesis
        using Cons kept by (cases r) (auto intro: exI [of _ "data # _"])
    qed
  qed (use 1(2) in \<open>auto simp: ProcessReadyCommands.simps\<close>)
qed

section \<open>Properties\<close>

text \<open>
  C2: in every state a session can reach, after any sequence of calls and exceptions and whatever
  the server sends, the transport is in order, every channel is stored once under its own non-zero
  id with a subscription flag that agrees with the set of subscriptions, and every client is
  stored under its own id. Outgoing packet positions never go back.
\<close>

theorem session_reachable_ok:
  assumes "sequences_ok sequences"
    and "(session_step env)\<^sup>*\<^sup>* (make_Session env crypto sequences n) s"
    and "(session_step env)\<^sup>*\<^sup>* s s'"
  shows "transport_inv (sn_transport s') \<and> store_inv (sn_channels s') \<and> clients_inv (sn_clients s') \<and>
    (\<forall>type q q'. Outgoing type (tr_sequences (sn_transport s)) = Inr q \<and> Outgoing type (tr_sequences (sn_transport s')) = Inr q' \<longrightarrow>
       seq_pos q \<le> seq_pos q')"
proof -
  define B where "B = (\<lambda>t. case Outgoing t (tr_sequences (sn_transport s)) of Inl _ \<Rightarrow> 0 | Inr q \<Rightarrow> seq_pos q)"
  have "session_ok (\<lambda>_. 0) s" by (rule session_steps_ok [OF assms(2) make_Session_ok [OF assms(1)]])
  then have "session_ok B s" by (simp add: session_ok_def transport_ok_def outgoing_from_def B_def)
  then have "session_ok B s'" by (rule session_steps_ok [OF assms(3)])
  then show ?thesis unfolding session_ok_def transport_ok_def outgoing_from_def B_def by fastforce
qed

text \<open>
  C8: when \<open>Login\<close> returns normally the session is usable: it has a client id, the transport is
  connected, the current channel is known and subscribed, every known channel has a known parent
  and every known client is in a known channel or in none. A second login is refused and changes
  nothing.
\<close>

theorem login_establishes:
  assumes "Login env profile k s = Some (Inr u, s')"
  shows "established s' \<and> sn_clientId s' \<noteq> 0 \<and> tr_connected (sn_transport s') \<and>
    Login env profile' k' s' = Some (Inl (RuntimeError ''Session is already logged in''), s')"
  using Login_established [OF assms] by (simp add: Login_def)

text \<open>
  C16: handling a command only appends events, and every join or leave it announces is about
  another client, after the initial state is complete, in a channel that is known under the name
  the event carries, with a name to show for the client.
\<close>

theorem presence_events_truthful:
  "\<exists>es. sn_events (snd (ProcessCommand env command s)) = sn_events s @ es \<and>
     (\<forall>e \<in> set es. truthful (sn_clientId s) (sn_initialStateComplete s) (sn_channels (snd (ProcessCommand env command s))) e)"
proof (cases "cmd_name command \<in> {''notifycliententerview'', ''notifyclientmoved'', ''notifyclientleftview''}")
  case True
  then have "reports s (snd (ProcessCommand env command s))"
    using views_report [of s command] by (auto simp: ProcessCommand_def)
  then show ?thesis by (simp add: reports_def)
next
  case False
  then have "no_presence s (snd (ProcessCommand env command s))" by (rule other_handlers_no_presence)
  moreover have "truthful own b c e" if "\<forall>p. e \<noteq> PresenceEvent p" for own b c e using that by (cases e) auto
  ultimately show ?thesis unfolding no_presence_def by metis
qed

text \<open>
  C17: a command that is refused changes nothing. The only exception is a new channel in a live
  session when the subscription to it cannot be sent: the channel stays added, and nothing but
  the channels and the transport changes.
\<close>

theorem refused_command_changes_nothing:
  assumes "ProcessCommand env command s = (Inl e, s')"
  shows "s' = s \<or> (cmd_name command = ''notifychannelcreated'' \<and> sn_initialStateComplete s \<and>
    (\<exists>created t. ChannelCreated_Parse command = Inr created \<and>
       s' = s\<lparr>sn_channels := store_ApplyCreated created (sn_channels s), sn_transport := t\<rparr>))"
  using assms process_created_Inl [of env command s e s']
  unfolding ProcessCommand_def Let_def process_subscription_def process_deleted_def process_enter_view_def process_moved_def
    process_left_view_def process_updated_def process_error_def process_text_def process_poke_def
  by (auto split: if_splits dest: lift_modify_Inl lift_modify2_Inl moved_Inl edited_Inl)

text \<open>
  The ready commands are worked off in order. When all are handled the queue is empty; when
  one is refused it and those before it are gone and the later ones are still there, so that the
  next call goes on after it.
\<close>

theorem ready_commands_worked_off:
  "case ProcessReadyCommands env s of
     (Inr _, s') \<Rightarrow> tr_readyCommands (sn_transport s') = []
   | (Inl _, s') \<Rightarrow> \<exists>handled bad. tr_readyCommands (sn_transport s) = handled @ bad # tr_readyCommands (sn_transport s')"
  using ready_commands_run [of env s] by (auto split: prod.split sum.split)

text \<open>
  A removal by the server is recorded once. When the server reports that this client left its
  view without a destination, the first such report gives the reason and the message; a later one
  changes neither.
\<close>

theorem server_removal_recorded:
  assumes "cmd_name command = ''notifyclientleftview''" and "ClientLeftView_Parse command = Inr entries"
  shows "sn_serverRemoval (snd (ProcessCommand env command s)) =
    (case sn_serverRemoval s of
       Some d \<Rightarrow> Some d
     | None \<Rightarrow> map_option (\<lambda>e. \<lparr>sd_reasonId = lv_reasonId e, sd_message = lv_reasonMessage e\<rparr>)
                 (find (\<lambda>e. lv_id e = sn_clientId s \<and> lv_toChannelId e = 0) entries))"
proof -
  let ?removed = "\<lambda>s es. case sn_serverRemoval s of Some d \<Rightarrow> Some d
     | None \<Rightarrow> map_option (\<lambda>e. \<lparr>sd_reasonId = lv_reasonId e, sd_message = lv_reasonMessage e\<rparr>)
                 (find (\<lambda>e. lv_id e = sn_clientId s \<and> lv_toChannelId e = 0) es)"
  have presence: "sn_serverRemoval (EmitPresence kd i c nm x) = sn_serverRemoval x" for kd i c nm and x :: "('a, 'b) Session"
    by (simp add: EmitPresence_def push_event_def split: option.split)
  have own: "sn_clientId (left_entry e x) = sn_clientId x" for e and x :: "('a, 'b) Session"
    using left_entry_reports [of x e] by (simp add: reports_def)
  have one: "sn_serverRemoval (left_entry e x) = ?removed x [e]" for e and x :: "('a, 'b) Session"
    by (auto simp: left_entry_def Let_def presence split: option.split)
  have all: "sn_serverRemoval (fold left_entry es x) = ?removed x es" for es and x :: "('a, 'b) Session"
    by (induction es arbitrary: x) (auto simp: one own split: option.splits)
  have update: "sn_serverRemoval (fold left_update es x) = sn_serverRemoval x" for es and x :: "('a, 'b) Session"
    by (induction es arbitrary: x) (simp_all add: left_update_def)
  show ?thesis using assms by (simp add: ProcessCommand_def process_left_view_def op_bind_def all update)
qed

text \<open>
  When the server ends the subscription of channels, exactly the other clients of those
  channels are forgotten, and the channels are marked unsubscribed.
\<close>

theorem unsubscribed_channels_hidden:
  assumes "clients_inv (sn_clients s)" and "cmd_name command = ''notifychannelunsubscribed''"
    and "ChannelSubscriptionState_Parse command = Inr n"
  shows "(\<forall>i. clients_Find i (sn_clients (snd (ProcessCommand env command s))) =
      (case clients_Find i (sn_clients s) of
         None \<Rightarrow> None
       | Some c \<Rightarrow> if cl_channelId c \<in> set (cs_entries n) \<and> i \<noteq> sn_clientId s then None else Some c)) \<and>
    (\<forall>k. store_IsSubscribed k (sn_channels (snd (ProcessCommand env command s))) =
      (store_IsSubscribed k (sn_channels s) \<and> \<not> (k \<noteq> 0 \<and> k \<in> set (cs_entries n))))"
proof -
  have off: "\<not> cs_subscribed n"
    using assms(2,3) by (auto simp: ChannelSubscriptionState_Parse_def Let_def res_bind_eq_Inr)
  have clients: "clients_Find i (fold (\<lambda>k. clients_RemoveInChannel k own) ids l) =
      (case clients_Find i l of None \<Rightarrow> None
       | Some c \<Rightarrow> if cl_channelId c \<in> set ids \<and> i \<noteq> own then None else Some c)" if "clients_inv l" for i own ids l
    using that
  proof (induction ids arbitrary: l)
    case (Cons k ids)
    have ok: "sm_ok l" "\<And>c. sm_find l i = Some c \<Longrightarrow> cl_id c = i" using Cons.prems by (simp_all add: clients_inv_def)
    show ?case
      using Cons.IH [OF RemoveInChannel_clients_inv [OF Cons.prems, of k own]] ok(2)
      by (auto simp: clients_Find_def find_RemoveInChannel [OF ok(1)] split: option.split)
  qed (simp split: option.split)
  have "store_IsSubscribed k (fold (\<lambda>i. store_SetSubscribed i False) ids c) =
      (store_IsSubscribed k c \<and> \<not> (k \<noteq> 0 \<and> k \<in> set ids))" for k ids c
    by (induction ids arbitrary: c) (auto simp: store_IsSubscribed_def store_SetSubscribed_def)
  then show ?thesis
    using off clients [OF assms(1)] assms(2,3)
    by (simp add: ProcessCommand_def process_subscription_def Let_def store_ApplySubscription_def)
qed

section \<open>Evaluation on a concrete environment\<close>

text \<open>With the toy primitives a command always leaves an idle transport.\<close>

lemma toy_send:
  assumes "sequences_ok (tr_sequences s)" and "tr_crypto s = toy_crypto" and "tr_reliableCommands s = []"
    and "Outgoing CommandType (tr_sequences s) = Inr \<lparr>ps_packetId = i, ps_generationId = 0\<rparr>" and "i \<noteq> - 1"
    and "length data \<le> 400"
  shows "\<exists>s'. SendCommand (toy_env True) data s = (Inr i, s') \<and> sequences_ok (tr_sequences s') \<and> tr_crypto s' = toy_crypto \<and>
    tr_readyCommands s' = tr_readyCommands s \<and> map fst (tr_reliableCommands s') = [SequenceKey i 0] \<and>
    list_all (\<lambda>p. pc_packetId (snd p) = i) (tr_reliableCommands s') \<and>
    Outgoing CommandType (tr_sequences s') = Inr \<lparr>ps_packetId = i + 1, ps_generationId = 0\<rparr>"
proof -
  let ?q = "\<lparr>ps_packetId = i, ps_generationId = 0\<rparr>"
  have "\<exists>e. AesEax_Encrypt toy_ssl key nonce ad data = Inr e" for key nonce ad
    using assms(6) by (simp add: AesEax_Encrypt_def ComputeTag_def CryptCtr_def Omac_def toy_ssl_def)
  then have "\<exists>packet. CreateEncryptedPacket (toy_env True) CommandType NewProtocol data ?q s = Inr packet"
    using toy_CreateKeyNonce [of CommandType True] assms(2)
    by (simp add: CreateEncryptedPacket_def EncryptClient_def Let_def toy_env_def) (metis res_bind_simps(2))
  then obtain packet where packet: "CreateEncryptedPacket (toy_env True) CommandType NewProtocol data ?q s = Inr packet" by blast
  have plan: "Plan (length data) = Inr [\<lparr>cf_offset = 0, cf_size = length data, cf_flags = NewProtocol\<rparr>]"
    using assms(6) by (simp add: Plan_def limit_defs)
  have adv: "Advance ?q = (Inr (), \<lparr>ps_packetId = i + 1, ps_generationId = 0\<rparr>)" using assms(5) by (simp add: Advance_def)
  have next': "Outgoing CommandType (set_Outgoing CommandType \<lparr>ps_packetId = i + 1, ps_generationId = 0\<rparr> (tr_sequences s)) =
      Inr \<lparr>ps_packetId = i + 1, ps_generationId = 0\<rparr>"
    by (rule outgoing.fetch_store [OF assms(1,4)])
  have "\<exists>s'. SendCommandPacket (toy_env True) data NewProtocol s = (Inr i, s') \<and> sequences_ok (tr_sequences s') \<and> tr_crypto s' = toy_crypto \<and>
    tr_readyCommands s' = tr_readyCommands s \<and> map fst (tr_reliableCommands s') = [SequenceKey i 0] \<and>
    list_all (\<lambda>p. pc_packetId (snd p) = i) (tr_reliableCommands s') \<and>
    Outgoing CommandType (tr_sequences s') = Inr \<lparr>ps_packetId = i + 1, ps_generationId = 0\<rparr>"
    using assms
    by (subst SendCommandPacket_run [OF _ packet])
       (simp_all add: toy_env_simps queue_Add_def MaxPendingCommands_def op_bind_def send_packet_run
         sm_try_emplace_def sm_contains_def sm_find_def command_queued_def advance_outgoing_def adv next', (simp only: list.map list.pred_inject prod.sel PendingCommand.simps simp_thms)?)
  then show ?thesis
    unfolding SendCommand_def plan by (simp add: fragment_slice_def op_bind_def split: prod.splits)
qed

definition toy_bytes :: "string \<Rightarrow> bytes" where
  "toy_bytes = map (\<lambda>c. of_nat (of_char c))"

definition toy_profile :: ClientProfile where
  "toy_profile = \<lparr>cp_nickname = ''a'', cp_version_profile =
     \<lparr>vp_initVersion = 1, vp_version = ''v'', vp_platform = ''p'', vp_signature = ''s''\<rparr>\<rparr>"

definition toy_ready :: "bytes list" where
  "toy_ready = [toy_bytes ''initserver aclid=5'',
     toy_bytes ''channellist cid=1 cpid=0 channel_order=0 channel_name=x channel_flag_default=1'', toy_bytes ''channellistfinished'']"

definition toy_session :: "(int \<times> bytes list, unit) Session" where
  "toy_session = (let s = make_Session (toy_env True) toy_crypto initial_sequence_state (0, [])
    in s\<lparr>sn_transport := (sn_transport s)\<lparr>tr_readyCommands := toy_ready\<rparr>\<rparr>)"

definition toy_channel :: ChannelEntry where
  "toy_channel = \<lparr>ce_id = 1, ce_parentId = 0, ce_orderAfterId = 0, ce_name = ''x'', ce_permanent = False, ce_semiPermanent = False,
     ce_defaultChannel = True, ce_passwordProtected = False, ce_codec = 4, ce_codecIsUnencrypted = True\<rparr>"

lemma toy_ready_parse:
  "CommandParser_ParseBytes (toy_bytes ''initserver aclid=5'') =
     Inr \<lparr>cmd_name = ''initserver'', cmd_rows = [[\<lparr>cp_name = ''aclid'', cp_value = ''5''\<rparr>]]\<rparr>"
  "CommandParser_ParseBytes (toy_bytes ''channellistfinished'') = Inr \<lparr>cmd_name = ''channellistfinished'', cmd_rows = []\<rparr>"
  by code_simp+

lemma toy_numbers:
  "ParseUnsigned ''0'' name = Inr 0" "ParseUnsigned ''1'' name = Inr 1" "from_chars (2 ^ 16) ''5'' = (Some 5, [])"
proof -
  have digits: "to_string 0 = ''0''" "to_string 1 = ''1''" "to_string 5 = ''5''" by code_simp+
  show "ParseUnsigned ''0'' name = Inr 0" using ParseUnsigned_to_string [of 0 name] digits by simp
  show "ParseUnsigned ''1'' name = Inr 1" using ParseUnsigned_to_string [of 1 name] digits by simp
  show "from_chars (2 ^ 16) ''5'' = (Some 5, [])" using from_chars_to_string [of 5 "2 ^ 16"] digits by simp
qed

lemma toy_initserver: "InitServer_Parse \<lparr>cmd_name = ''initserver'', cmd_rows = [[\<lparr>cp_name = ''aclid'', cp_value = ''5''\<rparr>]]\<rparr> =
     Inr \<lparr>is_clientId = 5, is_serverName = [], is_codecEncryptionMode = 0\<rparr>"
  by (simp add: InitServer_Parse_def toy_numbers [simplified] default_empty_def)

lemma toy_channellist: "CommandParser_ParseBytes (toy_bytes ''channellist cid=1 cpid=0 channel_order=0 channel_name=x channel_flag_default=1'')
  = Inr \<lparr>cmd_name = ''channellist'', cmd_rows = [[\<lparr>cp_name = ''cid'', cp_value = ''1''\<rparr>, \<lparr>cp_name = ''cpid'', cp_value = ''0''\<rparr>,
  \<lparr>cp_name = ''channel_order'', cp_value = ''0''\<rparr>, \<lparr>cp_name = ''channel_name'', cp_value = ''x''\<rparr>, \<lparr>cp_name = ''channel_flag_default'', cp_value = ''1''\<rparr>]]\<rparr>"
  by code_simp

lemma toy_channellist_entry: "ChannelList_Parse \<lparr>cmd_name = ''channellist'', cmd_rows = [[\<lparr>cp_name = ''cid'', cp_value = ''1''\<rparr>, \<lparr>cp_name = ''cpid'', cp_value = ''0''\<rparr>,
  \<lparr>cp_name = ''channel_order'', cp_value = ''0''\<rparr>, \<lparr>cp_name = ''channel_name'', cp_value = ''x''\<rparr>, \<lparr>cp_name = ''channel_flag_default'', cp_value = ''1''\<rparr>]]\<rparr> = Inr [toy_channel]"
  by (simp add: ChannelList_Parse_def parse_channel_entry_def require_unsigned_def row_Require_def toy_numbers ParseOptionalBoolean_def ParseBoolean_with_def parse_codec_def optional_field_def toy_channel_def)

lemma toy_store:
  "store_Validate (store_ApplyList [toy_channel] empty_store) = Inr ()"
  "(case store_Tree (store_ApplyList [toy_channel] empty_store) of Inr [e] \<Rightarrow> ch_id (tr_channel e) = 1 \<and> ch_defaultChannel (tr_channel e) | _ \<Rightarrow> False)"
  "store_Find 1 (store_ApplyList [toy_channel] empty_store) \<noteq> None"
  by code_simp+

lemma toy_subscribe: "case ChannelSubscribeAll_Serialize of Inr d \<Rightarrow> length d \<le> 400 | Inl _ \<Rightarrow> False"
  by code_simp

lemma plain_name: "ValidateName name = Inr ()" if "name \<noteq> []" "list_all (\<lambda>c. c \<noteq> NUL \<and> c \<noteq> space \<and> c \<noteq> equals \<and> c \<noteq> pipe) name"
  using that by (auto simp: ValidateName_def list_ex_iff list_all_iff)

lemma toy_zero: "to_string 0 = [CHR 0x30]"
  by code_simp

lemma toy_clientinit: "(case ClientInit_Serialize toy_profile 0 of Inr d \<Rightarrow> length d \<le> 400 | Inl _ \<Rightarrow> False)"
  by (simp add: ClientInit_Serialize_def with_writer_def make_CommandWriter_def plain_name Let_def Write_value_def Write_integral_def Write_flag_def
   WritePrefix_def op_bind_run toy_profile_def escape_def bool_value_def CommandWriter_Take_def bytes_of_chars_def toy_zero)

lemma receive_ready:
  "tr_readyCommands (sn_transport s) = data # rest \<Longrightarrow>
   receive_next env s = Some (CommandParser_ParseBytes data, s\<lparr>sn_transport := (sn_transport s)\<lparr>tr_readyCommands := rest\<rparr>\<rparr>)"
  by (simp add: receive_next_def ReceiveCommand_unfold)

lemma toy_await:
  assumes "tr_readyCommands (sn_transport s) = toy_ready"
  shows "await_init_server env [] s = Some (Inr (\<lparr>is_clientId = 5, is_serverName = [], is_codecEncryptionMode = 0\<rparr>, []),
    s\<lparr>sn_transport := (sn_transport s)\<lparr>tr_readyCommands := tl toy_ready\<rparr>\<rparr>)"
  using assms by (subst await_init_server.simps) (simp add: toy_ready_def receive_ready toy_ready_parse toy_initserver)

lemma toy_snapshot:
  assumes "tr_readyCommands (sn_transport s) = tl toy_ready"
  shows "receive_snapshot env s = Some (Inr (),
    s\<lparr>sn_transport := (sn_transport s)\<lparr>tr_readyCommands := []\<rparr>, sn_channels := store_ApplyList [toy_channel] (sn_channels s)\<rparr>)"
  using assms
  by (subst receive_snapshot.simps, subst receive_snapshot.simps)
     (simp add: toy_ready_def receive_ready toy_ready_parse toy_channellist ProcessCommand_def toy_channellist_entry)

lemma toy_confirm:
  assumes "map fst (tr_reliableCommands t) = [SequenceKey i 0]" and "list_all (\<lambda>p. pc_packetId (snd p) = i) (tr_reliableCommands t)"
  shows "ConfirmCommand i t = (Inr (), t\<lparr>tr_reliableCommands := []\<rparr>)"
proof -
  obtain p where "tr_reliableCommands t = [(SequenceKey i 0, p)]" "pc_packetId p = i" using assms by (cases "tr_reliableCommands t") auto
  then show ?thesis
    by (simp add: ConfirmCommand_def transport_Acknowledge_def op_bind_def op_zoom_def queue_Acknowledge_def sm_erase_def)
qed

lemma toy_finish:
  assumes "sn_channels s = store_ApplyList [toy_channel] empty_store" and "sn_clients s = []"
    and "send_message env ChannelSubscribeAll_Serialize
      (s\<lparr>sn_currentChannelId := 1, sn_channels := store_SetSubscribed 1 True (sn_channels s)\<rparr>) = (Inr i, s')"
  shows "finish_initial_state env s = (Inr (), s'\<lparr>sn_initialStateComplete := True\<rparr>)"
proof -
  obtain t where s': "s' = s\<lparr>sn_currentChannelId := 1, sn_channels := store_SetSubscribed 1 True (sn_channels s), sn_transport := t\<rparr>"
    using send_message_frame [OF assms(3)] by auto
  obtain e where e: "store_Tree (sn_channels s) = Inr [e]" "ch_id (tr_channel e) = 1" "ch_defaultChannel (tr_channel e)"
    using toy_store(2) unfolding assms(1) [symmetric] by (auto split: sum.splits list.splits)
  have "choose_channel s = (Inr (), s\<lparr>sn_currentChannelId := 1\<rparr>)"
    using e assms(2) by (simp add: choose_channel_def clients_Find_def)
  then show ?thesis
    using toy_store(1,3) assms(2,3) unfolding assms(1) [symmetric]
    by (simp add: finish_initial_state_def op_bind_def SubscribeAllChannels_def clients_Validate_def s')
qed

lemma toy_login: "\<exists>s'. Login (toy_env True) toy_profile 0 toy_session = Some (Inr (), s') \<and> sn_clientId s' = 5 \<and> sn_currentChannelId s' = 1"
proof -
  obtain d where d: "ClientInit_Serialize toy_profile 0 = Inr d" "length d \<le> 400"
    using toy_clientinit by (auto split: sum.splits)
  obtain d2 where d2: "ChannelSubscribeAll_Serialize = Inr d2" "length d2 \<le> 400" using toy_subscribe by (auto split: sum.splits)
  define s0 where "s0 = login_reset toy_profile toy_session"
  have s0: "sequences_ok (tr_sequences (sn_transport s0))" "tr_crypto (sn_transport s0) = toy_crypto"
      "tr_reliableCommands (sn_transport s0) = []" "tr_readyCommands (sn_transport s0) = toy_ready"
      "Outgoing CommandType (tr_sequences (sn_transport s0)) = Inr \<lparr>ps_packetId = 1, ps_generationId = 0\<rparr>"
      "sn_channels s0 = empty_store" "sn_clients s0 = []" "sn_clientId toy_session = 0"
    by (simp_all add: s0_def login_reset_def toy_session_def make_Session_def make_SessionTransport_def sequences_ok_initial
        initial_counter(1) store_Clear_def empty_store_def split: prod.split)
  obtain t1 where t1: "SendCommand (toy_env True) d (sn_transport s0) = (Inr 1, t1)" "sequences_ok (tr_sequences t1)"
      "tr_crypto t1 = toy_crypto" "tr_readyCommands t1 = toy_ready" "map fst (tr_reliableCommands t1) = [SequenceKey 1 0]"
      "list_all (\<lambda>p. pc_packetId (snd p) = 1) (tr_reliableCommands t1)"
      "Outgoing CommandType (tr_sequences t1) = Inr \<lparr>ps_packetId = 2, ps_generationId = 0\<rparr>"
    using toy_send [OF s0(1,2,3,5) _ d(2)] s0(4) by auto
  define s1 where "s1 = s0\<lparr>sn_transport := t1\<rparr>"
  have send: "send_message (toy_env True) (ClientInit_Serialize toy_profile 0) s0 = (Inr 1, s1)"
    by (simp add: send_message_def d op_zoom_def t1(1) s1_def)
  define s2 where "s2 = s1\<lparr>sn_transport := t1\<lparr>tr_readyCommands := tl toy_ready\<rparr>\<rparr>"
  let ?i = "\<lparr>is_clientId = 5, is_serverName = [], is_codecEncryptionMode = 0\<rparr>"
  have wait: "await_init_server (toy_env True) [] s1 = Some (Inr (?i, []), s2)"
    using toy_await [of s1] t1(4) by (simp add: s1_def s2_def)
  define t3 where "t3 = t1\<lparr>tr_readyCommands := tl toy_ready, tr_reliableCommands := [], tr_clientId := 5\<rparr>"
  define s3 where "s3 = s2\<lparr>sn_transport := t3, sn_clientId := 5, sn_serverName := [], sn_codecEncryptionMode := 0\<rparr>"
  have accept: "accept_init_server (toy_env True) 1 ?i [] s2 = (Inr (), s3)"
    using toy_confirm [of "t1\<lparr>tr_readyCommands := tl toy_ready\<rparr>" 1] t1(5,6)
    by (simp add: accept_init_server_def op_bind_def op_zoom_def SetClientId_def s3_def s2_def t3_def)
  define s4 where "s4 = s3\<lparr>sn_transport := t3\<lparr>tr_readyCommands := []\<rparr>, sn_channels := store_ApplyList [toy_channel] empty_store\<rparr>"
  have snapshot: "receive_snapshot (toy_env True) s3 = Some (Inr (), s4)"
    using toy_snapshot [of s3] s0(6) by (simp add: s4_def s3_def t3_def s2_def s1_def)
  obtain t5 where t5: "SendCommand (toy_env True) d2 (t3\<lparr>tr_readyCommands := []\<rparr>) = (Inr 2, t5)"
    using toy_send [of "t3\<lparr>tr_readyCommands := []\<rparr>" 2 d2] t1(2,3,7) d2(2) by (auto simp: t3_def)
  define s5 where "s5 = s4\<lparr>sn_currentChannelId := 1, sn_channels := store_SetSubscribed 1 True (sn_channels s4), sn_transport := t5\<rparr>"
  have "send_message (toy_env True) ChannelSubscribeAll_Serialize
      (s4\<lparr>sn_currentChannelId := 1, sn_channels := store_SetSubscribed 1 True (sn_channels s4)\<rparr>) = (Inr 2, s5)"
    using t5 by (simp add: send_message_def d2 op_zoom_def s5_def s4_def)
  then have finish: "finish_initial_state (toy_env True) s4 = (Inr (), s5\<lparr>sn_initialStateComplete := True\<rparr>)"
    by (rule toy_finish [rotated 2]) (simp_all add: s4_def s3_def s2_def s1_def s0)
  have "ReceiveInitialState (toy_env True) s3 = Some (Inr (), s5\<lparr>sn_initialStateComplete := True\<rparr>)"
    by (simp add: ReceiveInitialState_def snapshot finish)
  then show ?thesis
    using send wait accept s0(8)
    by (simp add: Login_def s0_def [symmetric])
       (simp add: op_zoom_def SetConnected_def clock_now_def op_bind_def s5_def s4_def s3_def split: prod.split)
qed


theorem login_establishes_witness:
  "\<exists>s'. Login (toy_env True) toy_profile 0 toy_session = Some (Inr (), s') \<and> established s' \<and>
     Login (toy_env True) toy_profile 1 s' = Some (Inl (RuntimeError ''Session is already logged in''), s')"
proof -
  obtain s' where "Login (toy_env True) toy_profile 0 toy_session = Some (Inr (), s')" using toy_login by blast
  then show ?thesis using login_establishes [of "toy_env True" toy_profile 0 toy_session "()" s' toy_profile 1] by blast
qed

definition toy_live :: "(int \<times> bytes list, unit) Session" where
  "toy_live = toy_session\<lparr>sn_clientId := 5, sn_currentChannelId := 1, sn_initialStateComplete := True,
     sn_channels := store_ApplyList [toy_channel] empty_store,
     sn_clients := [(7, default_Client\<lparr>cl_id := 7, cl_channelId := 1, cl_nickname := ''b'', cl_detailsKnown := True\<rparr>)]\<rparr>"

lemma toy_live_simps:
  "sn_clientId toy_live = 5" "sn_currentChannelId toy_live = 1" "sn_initialStateComplete toy_live" "sn_events toy_live = []"
  "sn_serverRemoval toy_live = None" "sn_clients toy_live = [(7, default_Client\<lparr>cl_id := 7, cl_channelId := 1, cl_nickname := ''b'', cl_detailsKnown := True\<rparr>)]"
  "sn_channels toy_live = store_ApplyList [toy_channel] empty_store"
  by (simp_all add: toy_live_def toy_session_def make_Session_def Let_def)

lemma toy_live_clients: "clients_inv (sn_clients toy_live)"
  by (simp add: toy_live_simps clients_inv_def sm_ok_def sm_find_def)

definition toy_left :: "string \<Rightarrow> Command" where
  "toy_left clid = \<lparr>cmd_name = ''notifyclientleftview'', cmd_rows =
     [[\<lparr>cp_name = ''clid'', cp_value = clid\<rparr>, \<lparr>cp_name = ''cfid'', cp_value = ''1''\<rparr>]]\<rparr>"

lemma toy_left_parse:
  "ClientLeftView_Parse (toy_left ''5'') =
     Inr [\<lparr>lv_id = 5, lv_fromChannelId = 1, lv_toChannelId = 0, lv_reasonId = 0, lv_reasonMessage = []\<rparr>]"
  "ClientLeftView_Parse (toy_left ''7'') =
     Inr [\<lparr>lv_id = 7, lv_fromChannelId = 1, lv_toChannelId = 0, lv_reasonId = 0, lv_reasonMessage = []\<rparr>]"
proof -
  have digits: "to_string 1 = ''1''" "to_string 5 = ''5''" "to_string 7 = ''7''" by code_simp+
  have "ParseUnsigned_nonempty ''1'' n = Inr 1" "ParseUnsigned_nonempty ''5'' n = Inr 5" "ParseUnsigned_nonempty ''7'' n = Inr 7" for n
    using ParseUnsigned_nonempty_to_string [of 1 n] ParseUnsigned_nonempty_to_string [of 5 n]
      ParseUnsigned_nonempty_to_string [of 7 n] digits by simp_all
  then show "ClientLeftView_Parse (toy_left ''5'') =
     Inr [\<lparr>lv_id = 5, lv_fromChannelId = 1, lv_toChannelId = 0, lv_reasonId = 0, lv_reasonMessage = []\<rparr>]"
    "ClientLeftView_Parse (toy_left ''7'') =
     Inr [\<lparr>lv_id = 7, lv_fromChannelId = 1, lv_toChannelId = 0, lv_reasonId = 0, lv_reasonMessage = []\<rparr>]"
    by (simp_all add: toy_left_def ClientLeftView_Parse_def parse_left_view_entry_def require_client_id_def require_unsigned_def
        row_Require_def optional_field_def default_zero_def default_empty_def)
qed

theorem server_removal_recorded_witness:
  "sn_serverRemoval (snd (ProcessCommand (toy_env True) (toy_left ''5'') toy_live)) = Some \<lparr>sd_reasonId = 0, sd_message = []\<rparr>"
  using server_removal_recorded [OF _ toy_left_parse(1), of "toy_env True" toy_live] by (simp add: toy_left_def toy_live_simps)

theorem presence_events_truthful_witness:
  "\<exists>e. sn_events (snd (ProcessCommand (toy_env True) (toy_left ''7'') toy_live)) = [PresenceEvent e] \<and>
     pe_kind e = Left \<and> pe_channelName e = ''x'' \<and>
     truthful 5 True (sn_channels (snd (ProcessCommand (toy_env True) (toy_left ''7'') toy_live))) (PresenceEvent e)"
proof -
  obtain c where c: "store_Find 1 (sn_channels toy_live) = Some c" "ch_name c = ''x''"
    by (simp add: toy_live_simps store_Find_def store_ApplyList_def store_Upsert_def toy_channel_def channel_of_entry_def
        empty_store_def sm_find_def Let_def)
  let ?s = "snd (ProcessCommand (toy_env True) (toy_left ''7'') toy_live)"
  have "\<exists>e. sn_events ?s = [PresenceEvent e] \<and> pe_kind e = Left \<and> pe_channelName e = ''x''"
    using toy_left_parse(2) c
    by (simp add: ProcessCommand_def process_left_view_def op_bind_def toy_left_def left_entry_def left_update_def Let_def
        toy_live_simps(1-6) clients_Find_def sm_find_def EmitPresence_def push_event_def)
  then show ?thesis
    using presence_events_truthful [of "toy_env True" "toy_left ''7''" toy_live] by (auto simp: toy_live_simps(1,3,4))
qed

theorem refused_command_changes_nothing_witness:
  "\<exists>e. ProcessCommand (toy_env True) \<lparr>cmd_name = ''channellist'', cmd_rows = []\<rparr> toy_live = (Inl e, toy_live)"
proof -
  obtain e s' where run: "ProcessCommand (toy_env True) \<lparr>cmd_name = ''channellist'', cmd_rows = []\<rparr> toy_live = (Inl e, s')"
    by (simp add: ProcessCommand_def ChannelList_Parse_def)
  then show ?thesis using refused_command_changes_nothing [OF run] by auto
qed

theorem unsubscribed_channels_hidden_witness:
  "clients_Find 7 (sn_clients (snd (ProcessCommand (toy_env True)
     \<lparr>cmd_name = ''notifychannelunsubscribed'', cmd_rows = [[\<lparr>cp_name = ''cid'', cp_value = ''1''\<rparr>]]\<rparr> toy_live))) = None"
proof -
  have "to_string 1 = ''1''" by code_simp
  then have "from_chars u64_limit ''1'' = (Some 1, [])"
    using from_chars_to_string [of 1 u64_limit] by (simp add: u64_limit_def)
  then have "ChannelSubscriptionState_Parse
      \<lparr>cmd_name = ''notifychannelunsubscribed'', cmd_rows = [[\<lparr>cp_name = ''cid'', cp_value = ''1''\<rparr>]]\<rparr> = Inr \<lparr>cs_subscribed = False, cs_entries = [1]\<rparr>"
    by (simp add: ChannelSubscriptionState_Parse_def row_Require_def ParseChannelId_def)
  from unsubscribed_channels_hidden [OF toy_live_clients _ this, of "toy_env True"] show ?thesis
    by (simp add: toy_live_simps clients_Find_def sm_find_def)
qed

theorem session_reachable_ok_witness:
  "\<exists>s. session_step (toy_env True) (make_Session (toy_env True) toy_crypto initial_sequence_state (0, [])) s \<and>
     tr_net (sn_transport s) = (2, []) \<and> transport_inv (sn_transport s) \<and> store_inv (sn_channels s)"
proof -
  let ?s = "make_Session (toy_env True) toy_crypto initial_sequence_state (0, [])"
  obtain r s where run: "session_ProcessTimers (toy_env True) ?s = (r, s)" by (rule prod.exhaust)
  then have "tr_net (sn_transport s) = (2, [])"
    by (auto simp: session_ProcessTimers_def ProcessTimers_def op_bind_def op_zoom_def make_Session_def make_SessionTransport_def
        clock_now_def toy_env_simps)
  moreover have step: "session_step (toy_env True) ?s s" by (rule call_timers [OF run])
  ultimately show ?thesis
    using session_reachable_ok [OF sequences_ok_initial, of "toy_env True" toy_crypto "(0, [])" s s] by blast
qed

end
