(* ===== verification/Jitter_Buffer.thy ===== *)
theory Jitter_Buffer
  imports Std_Map
begin

text \<open>
  \<open>VoiceJitterBuffer\<close> (\<open>audio/src/voice_jitter_buffer.cpp\<close>): reorders the voice frames of one
  talker before playback. \<open>Push\<close> files a received frame, \<open>Pull\<close> is called once per playback
  period and says what to play. Voice ids are 16-bit and wrap; \<open>Distance\<close> is their difference
  modulo 65536.

  The main result: the frames of a talk spurt of at most 32 frames that have all arrived before
  playback starts, in any order and each any number of times, are played in order, each once,
  and then the end is reported, provided the frames before the one that came first carry the
  talk-start flag.
\<close>

section \<open>Model\<close>

record IncomingEncodedFrame =
  ef_clientId :: u16
  ef_voiceId :: u16
  ef_codec :: u8
  ef_data :: bytes
  ef_size :: nat
  ef_talkStart :: bool
  ef_talkEnd :: bool

definition default_frame :: IncomingEncodedFrame where
  "default_frame = \<lparr>ef_clientId = 0, ef_voiceId = 0, ef_codec = 0, ef_data = replicate 484 0, ef_size = 0,
     ef_talkStart = False, ef_talkEnd = False\<rparr>"

datatype JitterPullKind = Wait | Frame | PacketLoss | End

record JitterPullResult =
  jp_kind :: JitterPullKind
  jp_frame :: IncomingEncodedFrame
  jp_streamStart :: bool
  jp_hasRecoveryFrame :: bool

definition pull_result :: "JitterPullKind \<Rightarrow> JitterPullResult" where
  "pull_result kind = \<lparr>jp_kind = kind, jp_frame = default_frame, jp_streamStart = False, jp_hasRecoveryFrame = False\<rparr>"

record VoiceJitterBuffer =
  jb_expectedVoiceId :: "u16 option"
  jb_endVoiceId :: "u16 option"
  jb_pending :: "(u16, IncomingEncodedFrame) smap"
  jb_consecutiveLosses :: nat
  jb_started :: bool
  jb_firstOutput :: bool

definition PrebufferFrames :: nat where "PrebufferFrames = 3"
definition MaxPendingFrames :: nat where "MaxPendingFrames = 32"
definition MaxReorderDistance :: u16 where "MaxReorderDistance = 64"
definition MaxConsecutiveLosses :: nat where "MaxConsecutiveLosses = 3"

lemmas jitter_limits = PrebufferFrames_def MaxPendingFrames_def MaxReorderDistance_def MaxConsecutiveLosses_def

definition Distance :: "u16 \<Rightarrow> u16 \<Rightarrow> u16" where
  "Distance from to = to - from"

definition jitter_Reset :: "VoiceJitterBuffer \<Rightarrow> VoiceJitterBuffer" where
  "jitter_Reset s = \<lparr>jb_expectedVoiceId = None, jb_endVoiceId = None, jb_pending = [], jb_consecutiveLosses = 0,
     jb_started = False, jb_firstOutput = False\<rparr>"

definition jitter_Pending :: "VoiceJitterBuffer \<Rightarrow> nat" where
  "jitter_Pending s = length (jb_pending s)"

text \<open>The search for the pending frame furthest ahead, starting from the first entry.\<close>

definition furthest :: "u16 \<Rightarrow> (u16, IncomingEncodedFrame) smap \<Rightarrow> u16" where
  "furthest expected m =
     fst (fold (\<lambda>(i, _) (best, d). let distance = Distance expected i
                  in if distance < 0x8000 \<and> distance \<ge> d then (i, distance) else (best, d)) m (fst (hd m), 0))"

function drop_excess :: "u16 \<Rightarrow> (u16, IncomingEncodedFrame) smap \<Rightarrow> (u16, IncomingEncodedFrame) smap" where
  "drop_excess expected m =
     (if length m > MaxPendingFrames then drop_excess expected (sm_erase (furthest expected m) m) else m)"
  by pat_completeness auto

text \<open>The entry found is one of the map, so every round removes one.\<close>

lemma fold_member:
  "fst (fold (\<lambda>(i, _) (best, d). let distance = Distance expected i
          in if distance < 0x8000 \<and> distance \<ge> d then (i, distance) else (best, d)) m acc) \<in> insert (fst acc) (fst ` set m)"
  by (induction m arbitrary: acc) (force simp: Let_def split: prod.split)+

lemma furthest_member: "m \<noteq> [] \<Longrightarrow> furthest expected m \<in> fst ` set m"
  using fold_member [of expected m "(fst (hd m), 0)"] by (auto simp: furthest_def)

lemma erase_shorter: "k \<in> fst ` set m \<Longrightarrow> length (sm_erase k m) < length m"
  unfolding sm_erase_def by (auto intro!: length_filter_less)

termination drop_excess
  by (relation "measure (\<lambda>(_, m). length m)") (auto intro!: erase_shorter furthest_member)

declare drop_excess.simps [simp del]

definition store_frame :: "IncomingEncodedFrame \<Rightarrow> u16 \<Rightarrow> VoiceJitterBuffer \<Rightarrow> VoiceJitterBuffer" where
  "store_frame frame expected s =
     s\<lparr>jb_pending := drop_excess expected (sm_try_emplace (ef_voiceId frame) frame (jb_pending s))\<rparr>"

definition begin_at :: "u16 \<Rightarrow> VoiceJitterBuffer \<Rightarrow> VoiceJitterBuffer" where
  "begin_at voiceId s = s\<lparr>jb_expectedVoiceId := Some voiceId, jb_firstOutput := True\<rparr>"

definition jitter_Push :: "IncomingEncodedFrame \<Rightarrow> VoiceJitterBuffer \<Rightarrow> VoiceJitterBuffer" where
  "jitter_Push frame s =
     (let id = ef_voiceId frame in
      if ef_talkEnd frame then
        (case jb_expectedVoiceId s of
           None \<Rightarrow> (begin_at id s)\<lparr>jb_endVoiceId := Some id\<rparr>
         | Some expected \<Rightarrow> if Distance expected id < 0x8000 then s\<lparr>jb_endVoiceId := Some id\<rparr> else s)
      else
        (case jb_expectedVoiceId s of
           None \<Rightarrow> store_frame frame id (begin_at id s)
         | Some expected \<Rightarrow>
             let forward = Distance expected id in
             if forward \<ge> 0x8000 then
               (if \<not> jb_started s \<and> ef_talkStart frame \<and> Distance id expected \<le> MaxReorderDistance
                then store_frame frame id (s\<lparr>jb_expectedVoiceId := Some id\<rparr>)
                else s)
             else if forward > MaxReorderDistance then store_frame frame id (begin_at id (jitter_Reset s))
             else store_frame frame expected s))"

definition ahead :: "u16 \<Rightarrow> u16 \<Rightarrow> bool" where
  "ahead expected i \<longleftrightarrow> Distance expected i > 0 \<and> Distance expected i < 0x8000"

definition HasFutureData :: "VoiceJitterBuffer \<Rightarrow> bool" where
  "HasFutureData s =
     (case jb_expectedVoiceId s of
        None \<Rightarrow> False
      | Some expected \<Rightarrow>
          (case jb_endVoiceId s of None \<Rightarrow> False | Some e \<Rightarrow> ahead expected e) \<or>
          list_ex (\<lambda>(i, _). ahead expected i) (jb_pending s))"

text \<open>The part of \<open>Pull\<close> after the start-up phase.\<close>

definition pull_started :: "u16 \<Rightarrow> VoiceJitterBuffer \<Rightarrow> JitterPullResult \<times> VoiceJitterBuffer" where
  "pull_started expected s =
     (if jb_endVoiceId s = Some expected then (pull_result End, jitter_Reset s)
      else case sm_find (jb_pending s) expected of
        Some frame \<Rightarrow>
          (\<lparr>jp_kind = Frame, jp_frame = frame, jp_streamStart = jb_firstOutput s, jp_hasRecoveryFrame = False\<rparr>,
           s\<lparr>jb_pending := sm_erase expected (jb_pending s), jb_consecutiveLosses := 0, jb_firstOutput := False,
             jb_expectedVoiceId := Some (expected + 1)\<rparr>)
      | None \<Rightarrow>
          if \<not> HasFutureData s then (pull_result Wait, s)
          else if jb_consecutiveLosses s < MaxConsecutiveLosses then
            ((case sm_find (jb_pending s) (expected + 1) of
                None \<Rightarrow> pull_result PacketLoss
              | Some recovery \<Rightarrow> (pull_result PacketLoss)\<lparr>jp_frame := recovery, jp_hasRecoveryFrame := True\<rparr>),
             s\<lparr>jb_consecutiveLosses := jb_consecutiveLosses s + 1, jb_firstOutput := False,
               jb_expectedVoiceId := Some (expected + 1)\<rparr>)
          else (pull_result End, jitter_Reset s))"

definition jitter_Pull :: "VoiceJitterBuffer \<Rightarrow> JitterPullResult \<times> VoiceJitterBuffer" where
  "jitter_Pull s =
     (case jb_expectedVoiceId s of
        None \<Rightarrow> (pull_result Wait, s)
      | Some expected \<Rightarrow>
          if \<not> jb_started s then
            (if jb_endVoiceId s = Some expected then (pull_result End, jitter_Reset s)
             else if length (jb_pending s) < PrebufferFrames \<and> jb_endVoiceId s = None then (pull_result Wait, s)
             else pull_started expected (s\<lparr>jb_started := True\<rparr>))
          else pull_started expected s)"

definition initial_jitter :: VoiceJitterBuffer where
  "initial_jitter = \<lparr>jb_expectedVoiceId = None, jb_endVoiceId = None, jb_pending = [], jb_consecutiveLosses = 0,
     jb_started = False, jb_firstOutput = False\<rparr>"

section \<open>Invariant\<close>

definition jitter_inv :: "VoiceJitterBuffer \<Rightarrow> bool" where
  "jitter_inv s \<longleftrightarrow> sm_ok (jb_pending s) \<and> length (jb_pending s) \<le> MaxPendingFrames \<and>
     jb_consecutiveLosses s \<le> MaxConsecutiveLosses \<and>
     (\<forall>i f. sm_find (jb_pending s) i = Some f \<longrightarrow> ef_voiceId f = i \<and> \<not> ef_talkEnd f) \<and>
     (jb_expectedVoiceId s = None \<longrightarrow> jb_endVoiceId s = None \<and> jb_pending s = [] \<and> jb_consecutiveLosses s = 0 \<and> \<not> jb_started s)"

lemma jitter_inv_Reset [simp]: "jitter_inv (jitter_Reset s)"
  by (simp add: jitter_inv_def jitter_Reset_def)

lemma drop_excess_ok:
  "sm_ok m \<Longrightarrow> sm_ok (drop_excess x m) \<and> length (drop_excess x m) \<le> MaxPendingFrames \<and>
     (\<forall>i f. sm_find (drop_excess x m) i = Some f \<longrightarrow> sm_find m i = Some f)"
proof (induction x m rule: drop_excess.induct)
  case (1 x m)
  show ?case
  proof (cases "length m > MaxPendingFrames")
    case True
    have "sm_find (sm_erase k m) i = Some f \<Longrightarrow> sm_find m i = Some f" for k i f by (simp split: if_splits)
    moreover have "drop_excess x m = drop_excess x (sm_erase (furthest x m) m)"
      using True by (subst drop_excess.simps) simp
    ultimately show ?thesis using 1(1) [OF True sm_ok_erase [OF 1(2)]] by (metis (no_types))
  qed (use 1(2) in \<open>simp add: drop_excess.simps\<close>)
qed

lemma drop_excess_id: "length m \<le> MaxPendingFrames \<Longrightarrow> drop_excess x m = m"
  by (simp add: drop_excess.simps)

lemma store_frame_inv:
  assumes "jitter_inv s" and "jb_expectedVoiceId s \<noteq> None" and "\<not> ef_talkEnd frame"
  shows "jitter_inv (store_frame frame x s)"
proof -
  let ?m = "sm_try_emplace (ef_voiceId frame) frame (jb_pending s)"
  have ok: "sm_ok (jb_pending s)" using assms(1) by (simp add: jitter_inv_def)
  note drop = drop_excess_ok [OF sm_ok_try_emplace [OF ok], of x "ef_voiceId frame" frame]
  have "ef_voiceId f = i \<and> \<not> ef_talkEnd f" if "sm_find (drop_excess x ?m) i = Some f" for i f
  proof -
    have "sm_find ?m i = Some f" using drop that by blast
    then show ?thesis
      using assms(1,3) by (auto simp: sm_find_try_emplace [OF ok] jitter_inv_def split: if_splits)
  qed
  then show ?thesis using assms(1,2) drop by (auto simp: store_frame_def jitter_inv_def)
qed

lemma Push_inv: "jitter_inv s \<Longrightarrow> jitter_inv (jitter_Push frame s)"
proof -
  assume inv: "jitter_inv s"
  have "jitter_inv (begin_at i t)" if "jitter_inv t" for i t using that by (simp add: jitter_inv_def begin_at_def)
  moreover have "jb_expectedVoiceId (begin_at i t) = Some i" for i t by (simp add: begin_at_def)
  moreover have "jitter_inv (s\<lparr>jb_expectedVoiceId := Some i\<rparr>)" for i using inv by (simp add: jitter_inv_def)
  moreover have "jitter_inv (t\<lparr>jb_endVoiceId := Some i\<rparr>)" if "jitter_inv t" "jb_expectedVoiceId t = Some x" for i t x
    using that by (simp add: jitter_inv_def)
  ultimately show ?thesis
    using inv unfolding jitter_Push_def Let_def by (auto intro: store_frame_inv split: option.split)
qed

lemma pull_started_inv: "jitter_inv s \<Longrightarrow> jb_expectedVoiceId s = Some x \<Longrightarrow> jitter_inv (snd (pull_started x s))"
  using length_filter_le [of "\<lambda>e. fst e \<noteq> x" "jb_pending s"]
  by (auto simp: pull_started_def jitter_inv_def jitter_Reset_def sm_ok_erase sm_erase_def [symmetric]
      split: option.split if_splits)

lemma Pull_inv: "jitter_inv s \<Longrightarrow> jitter_inv (snd (jitter_Pull s))"
proof -
  assume inv: "jitter_inv s"
  then have "jitter_inv (s\<lparr>jb_started := True\<rparr>)" if "jb_expectedVoiceId s = Some x" for x
    using that by (simp add: jitter_inv_def)
  with inv show ?thesis
    using pull_started_inv by (auto simp: jitter_Pull_def split: option.split)
qed

text \<open>What holds of every frame put in holds of every frame that is held or comes out.\<close>

definition pending_all :: "(IncomingEncodedFrame \<Rightarrow> bool) \<Rightarrow> VoiceJitterBuffer \<Rightarrow> bool" where
  "pending_all P s \<longleftrightarrow> (\<forall>f \<in> snd ` set (jb_pending s). P f)"

lemma pending_all_Reset [simp]: "pending_all P (jitter_Reset s)"
  by (simp add: pending_all_def jitter_Reset_def)

lemma set_try_emplace: "set (sm_try_emplace k v m) \<subseteq> insert (k, v) (set m)"
proof -
  have "set (sm_put k v m) \<subseteq> insert (k, v) (set m)"
    by (induction k v m rule: sm_put.induct) auto
  then show ?thesis by (auto simp: sm_try_emplace_def)
qed

lemma set_drop_excess: "set (drop_excess x m) \<subseteq> set m"
proof (induction x m rule: drop_excess.induct)
  case (1 x m)
  have "set (sm_erase k m) \<subseteq> set m" for k by (auto simp: sm_erase_def)
  then show ?case using 1 by (subst drop_excess.simps) auto
qed

lemma store_frame_pending: "pending_all P s \<Longrightarrow> P frame \<Longrightarrow> pending_all P (store_frame frame x s)"
  using set_drop_excess [of x] set_try_emplace [of "ef_voiceId frame" frame "jb_pending s"]
  by (fastforce simp: pending_all_def store_frame_def)

lemma Push_pending:
  assumes "pending_all P s" and "P frame"
  shows "pending_all P (jitter_Push frame s)"
proof -
  have same: "pending_all P (t\<lparr>jb_endVoiceId := i\<rparr>)" "pending_all P (t\<lparr>jb_expectedVoiceId := j\<rparr>)"
    "pending_all P (begin_at k t)" if "pending_all P t" for t i j k
    using that by (simp_all add: pending_all_def begin_at_def)
  then show ?thesis
    using assms unfolding jitter_Push_def Let_def
    by (auto intro!: store_frame_pending same simp del: jitter_Reset_def split: option.split)
qed

lemma sm_find_member: "sm_find m k = Some v \<Longrightarrow> v \<in> snd ` set m"
  unfolding sm_find_def by (force dest: map_of_SomeD)

lemma Pull_pending:
  assumes "pending_all P s" and "P default_frame"
  shows "P (jp_frame (fst (jitter_Pull s))) \<and> pending_all P (snd (jitter_Pull s))"
proof -
  have start: "P (jp_frame (fst (pull_started x t))) \<and> pending_all P (snd (pull_started x t))" if t: "pending_all P t" for x t
  proof -
    have "P f" if "sm_find (jb_pending t) k = Some f" for k f
      using t sm_find_member [OF that] by (auto simp: pending_all_def)
    moreover have "\<forall>f \<in> snd ` set (sm_erase k (jb_pending t)). P f" for k
      using t by (auto simp: pending_all_def sm_erase_def)
    ultimately show ?thesis
      using t assms(2) by (auto simp: pull_started_def pull_result_def pending_all_def jitter_Reset_def split: option.split)
  qed
  moreover have "pending_all P (s\<lparr>jb_started := True\<rparr>)" using assms(1) by (simp add: pending_all_def)
  ultimately show ?thesis
    using assms by (auto simp: jitter_Pull_def pull_result_def split: option.split)
qed

section \<open>A talk spurt\<close>

fun pulls :: "nat \<Rightarrow> VoiceJitterBuffer \<Rightarrow> JitterPullResult list \<times> VoiceJitterBuffer" where
  "pulls 0 s = ([], s)"
| "pulls (Suc n) s = (case jitter_Pull s of (r, s') \<Rightarrow> (case pulls n s' of (rs, s'') \<Rightarrow> (r # rs, s'')))"

definition played :: "IncomingEncodedFrame \<Rightarrow> bool \<Rightarrow> JitterPullResult" where
  "played f first = \<lparr>jp_kind = Frame, jp_frame = f, jp_streamStart = first, jp_hasRecoveryFrame = False\<rparr>"

lemma small_word_eq: "j < 65536 \<Longrightarrow> k < 65536 \<Longrightarrow> (of_nat j :: u16) = of_nat k \<longleftrightarrow> j = k"
  by (simp add: word_unat_eq_iff unat_of_nat)

lemma Distance_small: "Distance v (v + of_nat k) = of_nat k"
  by (simp add: Distance_def)

lemma small_word_less: "k \<le> 32 \<Longrightarrow> (of_nat k :: u16) < 0x8000 \<and> of_nat k \<le> MaxReorderDistance"
  by (simp add: word_less_nat_alt word_le_nat_alt unat_of_nat MaxReorderDistance_def)

text \<open>The frames \<open>fr k\<close>, \<open>k < n\<close>, of a spurt that starts at \<open>v\<close>, and its end marker.\<close>

definition spurt :: "u16 \<Rightarrow> nat \<Rightarrow> (nat \<Rightarrow> IncomingEncodedFrame) \<Rightarrow> IncomingEncodedFrame \<Rightarrow> bool" where
  "spurt v n fr e \<longleftrightarrow> n \<le> MaxPendingFrames \<and> (\<forall>k < n. ef_voiceId (fr k) = v + of_nat k \<and> \<not> ef_talkEnd (fr k)) \<and>
     ef_talkEnd e \<and> ef_voiceId e = v + of_nat n"

definition waiting :: "u16 \<Rightarrow> nat \<Rightarrow> (nat \<Rightarrow> IncomingEncodedFrame) \<Rightarrow> nat set \<Rightarrow> VoiceJitterBuffer \<Rightarrow> bool" where
  "waiting v n fr K s \<longleftrightarrow> sm_ok (jb_pending s) \<and> K \<subseteq> {..<n} \<and>
     sm_find (jb_pending s) = (\<lambda>i. if \<exists>k \<in> K. i = v + of_nat k then Some (fr (unat (i - v))) else None)"

lemma waiting_length:
  assumes "waiting v n fr K s" and "n \<le> MaxPendingFrames"
  shows "length (jb_pending s) \<le> MaxPendingFrames"
proof -
  have "dom (sm_find (jb_pending s)) \<subseteq> (\<lambda>k. v + of_nat k) ` {..<n}"
    using assms(1) by (auto simp: waiting_def dom_def split: if_splits)
  then have "card (dom (sm_find (jb_pending s))) \<le> n"
    using surj_card_le [of "{..<n}" "dom (sm_find (jb_pending s))" "\<lambda>k. v + of_nat k"] by simp
  then show ?thesis using assms by (simp add: waiting_def sm_length_card)
qed

lemma Distance_between:
  assumes "i \<le> n" and "k \<le> n" and "n \<le> MaxPendingFrames"
  shows "i \<le> k \<Longrightarrow> Distance (v + of_nat i) (v + of_nat k) = of_nat (k - i)"
    and "k < i \<Longrightarrow> Distance (v + of_nat i) (v + of_nat k) \<ge> 0x8000"
proof -
  show "i \<le> k \<Longrightarrow> Distance (v + of_nat i) (v + of_nat k) = of_nat (k - i)" by (simp add: Distance_def of_nat_diff)
  assume less: "k < i"
  have "unat (of_nat i :: u16) = i" "unat (of_nat k :: u16) = k"
    using assms by (simp_all add: unat_of_nat MaxPendingFrames_def)
  then have "unat (Distance (v + of_nat i) (v + of_nat k)) = k + 65536 - i"
    using less by (simp add: Distance_def unat_sub_if')
  then show "Distance (v + of_nat i) (v + of_nat k) \<ge> 0x8000"
    using assms by (simp add: word_le_nat_alt MaxPendingFrames_def)
qed

text \<open>
  One more frame: the next frame expected becomes the lowest that has come in, since a frame
  before it moves the start back when it has the talk-start flag.
\<close>

lemma waiting_push:
  assumes sp: "spurt v n fr e" and wait: "waiting v n fr K s" and exp: "jb_expectedVoiceId s = Some (v + of_nat i)"
    and less: "i \<le> n" "k < n" and idle: "\<not> jb_started s" and start: "k < i \<longrightarrow> ef_talkStart (fr k)"
  shows "jitter_Push (fr k) s = store_frame (fr k) (v + of_nat (min i k)) (s\<lparr>jb_expectedVoiceId := Some (v + of_nat (min i k))\<rparr>) \<and>
         waiting v n fr (insert k K) (jitter_Push (fr k) s)"
proof -
  have id: "ef_voiceId (fr k) = v + of_nat k" "\<not> ef_talkEnd (fr k)" and n: "n \<le> MaxPendingFrames"
    using sp less(2) by (simp_all add: spurt_def)
  have k: "unat (of_nat k :: u16) = k" using less(2) n by (simp add: MaxPendingFrames_def unat_of_nat)
  let ?s = "s\<lparr>jb_expectedVoiceId := Some (v + of_nat (min i k))\<rparr>"
  have push: "jitter_Push (fr k) s = store_frame (fr k) (v + of_nat (min i k)) ?s"
  proof (cases "k < i")
    case True
    have near: "Distance (v + of_nat k) (v + of_nat i) \<le> MaxReorderDistance"
      using Distance_between(1) [OF _ less(1) n, of k] small_word_less [of "i - k"] True less(1) n
      by (simp add: MaxPendingFrames_def)
    show ?thesis
      using True Distance_between(2) [OF less(1) less_imp_le [OF less(2)] n True] near idle start exp id
      by (simp add: jitter_Push_def Let_def min_absorb2)
  next
    case False
    then have D: "Distance (v + of_nat i) (v + of_nat k) = of_nat (k - i)"
      using Distance_between(1) [OF less(1) less_imp_le [OF less(2)] n] by simp
    have "(of_nat (k - i) :: u16) < 0x8000 \<and> of_nat (k - i) \<le> MaxReorderDistance"
      using less n by (intro small_word_less) (simp add: MaxPendingFrames_def)
    then have "\<not> Distance (v + of_nat i) (v + of_nat k) \<ge> 0x8000"
      "\<not> Distance (v + of_nat i) (v + of_nat k) > MaxReorderDistance"
      unfolding D by (simp_all only: not_le not_less)
    then have "jitter_Push (fr k) s = store_frame (fr k) (v + of_nat i) s"
      using exp id by (simp add: jitter_Push_def Let_def)
    moreover have same: "s\<lparr>jb_expectedVoiceId := Some (v + of_nat i)\<rparr> = s" using exp by (cases s) simp
    moreover have "min i k = i" using False by simp
    ultimately show ?thesis by (simp only: same)
  qed
  let ?m = "sm_try_emplace (v + of_nat k) (fr k) (jb_pending s)"
  have ok: "sm_ok (jb_pending s)" and K: "K \<subseteq> {..<n}" using wait by (simp_all add: waiting_def)
  have find: "sm_find ?m = (\<lambda>i. if \<exists>j \<in> insert k K. i = v + of_nat j then Some (fr (unat (i - v))) else None)"
    using wait k by (auto simp: sm_find_try_emplace [OF ok] waiting_def fun_eq_iff)
  have filed: "waiting v n fr (insert k K) (?s\<lparr>jb_pending := ?m\<rparr>)"
    using find K less(2) by (simp add: waiting_def sm_ok_try_emplace ok)
  then have "drop_excess x ?m = ?m" for x using waiting_length [OF filed n] by (intro drop_excess_id) simp
  then show ?thesis using filed push by (simp add: store_frame_def id)
qed

lemma end_push:
  assumes "spurt v n fr e" and "jb_expectedVoiceId s = Some (v + of_nat i)" and "i \<le> n"
  shows "jitter_Push e s = s\<lparr>jb_endVoiceId := Some (v + of_nat n)\<rparr>"
proof -
  have n: "n \<le> MaxPendingFrames" using assms(1) by (simp add: spurt_def)
  have "Distance (v + of_nat i) (v + of_nat n) = of_nat (n - i)"
    using Distance_between(1) [OF assms(3) le_refl n assms(3)] .
  moreover have "(of_nat (n - i) :: u16) < 0x8000" using small_word_less [of "n - i"] n by (simp add: MaxPendingFrames_def)
  moreover have "ef_voiceId e = v + of_nat n" "ef_talkEnd e" using assms(1) by (simp_all add: spurt_def)
  ultimately show ?thesis using assms(2) by (simp add: jitter_Push_def)
qed

text \<open>
  The buffer after the arrivals \<open>xs\<close>: nothing is played yet, the frame expected next is not after
  any frame that has come in, nor after the first one \<open>i\<close>, and all of them are held.
\<close>

definition filed :: "u16 \<Rightarrow> nat \<Rightarrow> (nat \<Rightarrow> IncomingEncodedFrame) \<Rightarrow> IncomingEncodedFrame \<Rightarrow> nat \<Rightarrow>
    IncomingEncodedFrame list \<Rightarrow> VoiceJitterBuffer \<Rightarrow> bool" where
  "filed v n fr e i xs s \<longleftrightarrow>
     \<not> jb_started s \<and> jb_firstOutput s \<and> jb_consecutiveLosses s = 0 \<and>
     jb_endVoiceId s = (if e \<in> set xs then Some (v + of_nat n) else None) \<and>
     waiting v n fr {k. k < n \<and> fr k \<in> set xs} s \<and>
     (\<exists>j \<le> i. jb_expectedVoiceId s = Some (v + of_nat j) \<and> (\<forall>k < n. fr k \<in> set xs \<longrightarrow> j \<le> k))"

lemma spurt_distinct:
  assumes "spurt v n fr e"
  shows "j < n \<Longrightarrow> k < n \<Longrightarrow> fr j = fr k \<longleftrightarrow> j = k" and "k < n \<Longrightarrow> fr k \<noteq> e"
proof -
  show "fr j = fr k \<longleftrightarrow> j = k" if "j < n" "k < n"
  proof
    assume "fr j = fr k"
    then have "(of_nat j :: u16) = of_nat k" using that assms by (metis add_left_cancel spurt_def)
    then show "j = k" using that assms by (simp add: small_word_eq spurt_def MaxPendingFrames_def)
  qed simp
  show "k < n \<Longrightarrow> fr k \<noteq> e" using assms by (auto simp: spurt_def)
qed

lemma filed_first:
  assumes sp: "spurt v n fr e" and i: "i \<le> n"
  shows "filed v n fr e i [if i = n then e else fr i] (jitter_Push (if i = n then e else fr i) initial_jitter)"
proof (cases "i = n")
  case True
  have e: "ef_voiceId e = v + of_nat n" "ef_talkEnd e" using sp by (simp_all add: spurt_def)
  have "{k. k < n \<and> fr k = e} = {}" using spurt_distinct(2) [OF sp] by blast
  then show ?thesis
    using True e spurt_distinct(2) [OF sp]
    by (auto simp: filed_def waiting_def jitter_Push_def initial_jitter_def begin_at_def fun_eq_iff Let_def)
next
  case False
  then have i: "i < n" using i by simp
  then have id: "ef_voiceId (fr i) = v + of_nat i" "\<not> ef_talkEnd (fr i)" "unat (of_nat i :: u16) = i"
    using sp by (simp_all add: spurt_def MaxPendingFrames_def unat_of_nat)
  have only: "{k. k < n \<and> fr k = fr i} = {i}" using spurt_distinct(1) [OF sp _ i] i by auto
  have push: "jitter_Push (fr i) initial_jitter =
      initial_jitter\<lparr>jb_expectedVoiceId := Some (v + of_nat i), jb_firstOutput := True, jb_pending := [(v + of_nat i, fr i)]\<rparr>"
    using id by (simp add: jitter_Push_def initial_jitter_def begin_at_def store_frame_def sm_try_emplace_def
        sm_contains_def drop_excess_id MaxPendingFrames_def Let_def)
  have "waiting v n fr {i} (jitter_Push (fr i) initial_jitter)"
    using i id(3) unfolding push by (auto simp: waiting_def sm_find_Cons sm_ok_Cons fun_eq_iff)
  moreover have "\<not> jb_started (jitter_Push (fr i) initial_jitter)" "jb_firstOutput (jitter_Push (fr i) initial_jitter)"
    "jb_consecutiveLosses (jitter_Push (fr i) initial_jitter) = 0" "jb_endVoiceId (jitter_Push (fr i) initial_jitter) = None"
    "jb_expectedVoiceId (jitter_Push (fr i) initial_jitter) = Some (v + of_nat i)"
    unfolding push by (simp_all add: initial_jitter_def)
  ultimately show ?thesis
    using False spurt_distinct [OF sp] i by (auto simp: filed_def only)
qed

lemma filed_snoc:
  assumes sp: "spurt v n fr e" and i: "i \<le> n" and filed: "filed v n fr e i xs s"
    and start: "\<forall>j < i. ef_talkStart (fr j)" and x: "x \<in> insert e (fr ` {..<n})"
  shows "filed v n fr e i (xs @ [x]) (jitter_Push x s)"
proof -
  let ?K = "{k. k < n \<and> fr k \<in> set xs}"
  from filed obtain j where j: "j \<le> i" "jb_expectedVoiceId s = Some (v + of_nat j)" "\<forall>k < n. fr k \<in> set xs \<longrightarrow> j \<le> k"
    and wait: "waiting v n fr ?K s" and idle: "\<not> jb_started s"
    by (auto simp: filed_def)
  have jn: "j \<le> n" using j(1) i by simp
  show ?thesis
  proof (cases "x = e")
    case True
    have "{k. k < n \<and> fr k \<in> set (xs @ [e])} = ?K" "\<forall>k < n. fr k \<in> set (xs @ [e]) \<longleftrightarrow> fr k \<in> set xs"
      using spurt_distinct(2) [OF sp] by auto
    then show ?thesis
      using filed wait end_push [OF sp j(2) jn] True by (simp add: filed_def waiting_def)
  next
    case False
    then obtain k where k: "x = fr k" "k < n" using x by auto
    have now: "{l. l < n \<and> fr l \<in> set (xs @ [x])} = insert k ?K"
      using k spurt_distinct(1) [OF sp _ k(2)] by auto
    have "k < j \<longrightarrow> ef_talkStart (fr k)" using start j(1) by simp
    note push = waiting_push [OF sp wait j(2) jn k(2) idle this]
    have "jb_expectedVoiceId (jitter_Push x s) = Some (v + of_nat (min j k))"
      using push k(1) by (simp add: store_frame_def)
    moreover have "\<forall>l < n. fr l \<in> set (xs @ [x]) \<longrightarrow> min j k \<le> l"
    proof (intro allI impI)
      fix l assume "l < n" "fr l \<in> set (xs @ [x])"
      then have "l \<in> insert k ?K" using now by blast
      then show "min j k \<le> l" using j(3) by (auto simp: min_le_iff_disj)
    qed
    moreover have "min j k \<le> i" using j(1) by simp
    ultimately show ?thesis
      using filed push k spurt_distinct(2) [OF sp k(2)] unfolding filed_def now by (auto simp: store_frame_def)
  qed
qed

lemma spurt_filed:
  assumes "spurt v n fr e" and "i \<le> n" and "\<forall>j < i. ef_talkStart (fr j)"
  shows "set xs \<subseteq> insert e (fr ` {..<n}) \<Longrightarrow>
    filed v n fr e i ((if i = n then e else fr i) # xs)
      (fold jitter_Push ((if i = n then e else fr i) # xs) initial_jitter)"
proof (induction xs rule: rev_induct)
  case Nil
  then show ?case using filed_first [OF assms(1,2)] by simp
next
  case (snoc x xs)
  then show ?case using filed_snoc [OF assms(1,2) snoc.IH assms(3), of x] by simp
qed

text \<open>Playing the rest of the spurt from frame \<open>j\<close> on.\<close>

lemma spurt_played:
  assumes sp: "spurt v n fr e" and "j \<le> n" and "waiting v n fr {j..<n} s" and "jb_expectedVoiceId s = Some (v + of_nat j)"
    and "jb_endVoiceId s = Some (v + of_nat n)" and "jb_consecutiveLosses s = 0"
  shows "pulls (Suc (n - j)) s =
    (map (\<lambda>k. played (fr k) (k = j \<and> jb_firstOutput s)) [j..<n] @ [pull_result End], initial_jitter)"
  using assms(2-)
proof (induction "n - j" arbitrary: j s)
  case 0
  then have "j = n" by simp
  then show ?case
    using 0 by (simp add: jitter_Pull_def pull_started_def jitter_Reset_def initial_jitter_def)
next
  case (Suc m)
  have n: "n \<le> 32" using sp by (simp add: spurt_def MaxPendingFrames_def)
  have j: "j < n" using Suc.hyps(2) by simp
  then have "(of_nat n :: u16) \<noteq> of_nat j" using n by (simp add: small_word_eq)
  then have not_end: "Some (v + of_nat n) \<noteq> Some (v + of_nat j :: u16)" by simp
  have found: "sm_find (jb_pending s) (v + of_nat j) = Some (fr j)"
    using Suc.prems(2) j n by (auto simp: waiting_def unat_of_nat)
  define s' where "s' = s\<lparr>jb_started := True, jb_pending := sm_erase (v + of_nat j) (jb_pending s), jb_consecutiveLosses := 0,
      jb_firstOutput := False, jb_expectedVoiceId := Some (v + of_nat (Suc j))\<rparr>"
  have pull: "jitter_Pull s = (played (fr j) (jb_firstOutput s), s')"
    using Suc.prems(3,4) not_end found
    by (cases "jb_started s") (simp_all add: jitter_Pull_def pull_started_def played_def s'_def add.commute add.left_commute)
  have "waiting v n fr {Suc j..<n} s'"
    unfolding waiting_def
  proof (intro conjI)
    show "sm_ok (jb_pending s')" using Suc.prems(2) by (simp add: s'_def waiting_def sm_ok_erase)
    have other: "(v + of_nat k :: u16) \<noteq> v + of_nat j" if "k \<in> {Suc j..<n}" for k
      using that j n by (simp add: small_word_eq)
    have from_j: "{j..<n} = insert j {Suc j..<n}" using j by auto
    have "(\<exists>k \<in> {Suc j..<n}. i = v + of_nat k) \<longleftrightarrow> i \<noteq> v + of_nat j \<and> (\<exists>k \<in> {j..<n}. i = v + of_nat k)" for i
      unfolding from_j by (metis insert_iff other)
    then show "sm_find (jb_pending s') = (\<lambda>i. if \<exists>k \<in> {Suc j..<n}. i = v + of_nat k then Some (fr (unat (i - v))) else None)"
      using Suc.prems(2) by (auto simp: s'_def waiting_def fun_eq_iff)
  qed auto
  then have "pulls (Suc (n - Suc j)) s' =
      (map (\<lambda>k. played (fr k) (k = Suc j \<and> jb_firstOutput s')) [Suc j..<n] @ [pull_result End], initial_jitter)"
    using Suc.hyps(2) Suc.prems(4) j by (intro Suc.hyps(1)) (simp_all add: s'_def)
  moreover have "Suc (n - j) = Suc (Suc (n - Suc j))" "[j..<n] = j # [Suc j..<n]" using j by (simp_all add: upt_conv_Cons)
  ultimately show ?case
    using pull by (auto simp: s'_def)
qed

section \<open>Properties\<close>

text \<open>
  C14: a talk spurt of at most 32 frames whose frames and end marker all arrive before playback
  asks for the first one, in any order and with any repetitions: playback gets every frame exactly
  once and in order, the first one marked as the start, then the end, and the buffer is then as
  new. The frames before the first one to arrive (all of them, if that is the end marker) must
  carry the talk-start flag; without it \<open>Push\<close> takes them for frames of the past.
\<close>

theorem jitter_restores_order:
  assumes "spurt v n fr e" and "0 < n" and "set xs = insert e (fr ` {..<n})" and "xs \<noteq> []"
    and "i \<le> n" and "hd xs = (if i = n then e else fr i)" and "\<forall>j < i. ef_talkStart (fr j)"
  shows "pulls (Suc n) (fold jitter_Push xs initial_jitter) =
    (map (\<lambda>k. played (fr k) (k = 0)) [0..<n] @ [pull_result End], initial_jitter)"
proof -
  obtain ys where xs: "xs = (if i = n then e else fr i) # ys" using assms(4,6) by (cases xs) auto
  let ?s = "fold jitter_Push xs initial_jitter"
  have "set ys \<subseteq> insert e (fr ` {..<n})" using assms(3) xs by auto
  from spurt_filed [OF assms(1,5,7) this] have filed: "filed v n fr e i xs ?s" unfolding xs .
  have "{k. k < n \<and> fr k \<in> set xs} = {0..<n}" "e \<in> set xs" "fr 0 \<in> set xs" using assms(2,3) by auto
  then show ?thesis
    using spurt_played [OF assms(1), of 0 ?s] filed assms(2) by (auto simp: filed_def simp del: pulls.simps)
qed

text \<open>
  Every call keeps the buffer within its bounds: at most 32 frames, each filed under its own
  voice id, at most three consecutive losses counted, and an idle buffer is empty.
\<close>

theorem jitter_keeps_invariant:
  assumes "jitter_inv s"
  shows "jitter_inv (jitter_Push frame s) \<and> jitter_inv (snd (jitter_Pull s)) \<and> jitter_inv (jitter_Reset s) \<and>
    jitter_Pending s \<le> MaxPendingFrames"
  using assms Push_inv [OF assms] Pull_inv [OF assms] by (simp add: jitter_Pending_def jitter_inv_def [of s])

definition toy_frame :: "nat \<Rightarrow> IncomingEncodedFrame" where
  "toy_frame k = default_frame\<lparr>ef_voiceId := 65535 + of_nat k, ef_size := k, ef_talkStart := (k = 0)\<rparr>"

definition toy_end :: IncomingEncodedFrame where
  "toy_end = default_frame\<lparr>ef_voiceId := 2, ef_talkEnd := True\<rparr>"

theorem jitter_restores_order_witness:
  "pulls 4 (fold jitter_Push [toy_frame 1, toy_frame 2, toy_end, toy_frame 0, toy_frame 2] initial_jitter) =
   ([played (toy_frame 0) True, played (toy_frame 1) False, played (toy_frame 2) False, pull_result End], initial_jitter)"
proof -
  have "spurt 65535 3 toy_frame toy_end"
    by (simp add: spurt_def MaxPendingFrames_def toy_frame_def toy_end_def default_frame_def)
  moreover have "\<forall>j < 1. ef_talkStart (toy_frame j)" by (simp add: toy_frame_def)
  ultimately show ?thesis
    using jitter_restores_order [of 65535 3 toy_frame toy_end "[toy_frame 1, toy_frame 2, toy_end, toy_frame 0, toy_frame 2]" 1]
    by (simp del: pulls.simps add: lessThan_Suc numeral_3_eq_3 numeral_eq_Suc upt_rec insert_commute)
qed

theorem jitter_keeps_invariant_witness:
  "jitter_inv (jitter_Push (toy_frame 1) initial_jitter)"
proof -
  have "jitter_inv initial_jitter" by (simp add: jitter_inv_def initial_jitter_def)
  from jitter_keeps_invariant [OF this] show ?thesis by blast
qed

end
