(* ===== verification/Spsc_Ring.thy ===== *)
theory Spsc_Ring
  imports Prelude
begin

text \<open>
  \<open>SpscRing\<close> (\<open>audio/include/audio/spsc_ring.hpp\<close>), the single-producer single-consumer ring
  between the audio threads. The template argument \<open>Capacity\<close> is the argument \<open>N\<close>, at least 2.

  First the calls as they run alone, which implement a bounded queue (locale \<open>bounded_fifo\<close>).
  Then the two threads: \<open>ring_step\<close> interleaves their accesses to \<open>m_Data\<close>, \<open>m_Write\<close> and
  \<open>m_Read\<close>, each access one step, the way release stores and acquire loads of the two indices
  order them. A slot that was moved from holds an arbitrary value.
\<close>

section \<open>The calls\<close>

record 'a SpscRing =
  rg_data :: "'a list"
  rg_write :: nat
  rg_read :: nat

definition Next :: "nat \<Rightarrow> nat \<Rightarrow> nat" where
  "Next N value = (value + 1) mod N"

definition make_SpscRing :: "nat \<Rightarrow> 'a \<Rightarrow> 'a SpscRing" where
  "make_SpscRing N d = \<lparr>rg_data = replicate N d, rg_write = 0, rg_read = 0\<rparr>"

definition TryPush :: "nat \<Rightarrow> 'a \<Rightarrow> 'a SpscRing \<Rightarrow> bool \<times> 'a SpscRing" where
  "TryPush N value s =
     (let next = Next N (rg_write s)
      in if next = rg_read s then (False, s)
         else (True, s\<lparr>rg_data := (rg_data s)[rg_write s := value], rg_write := next\<rparr>))"

definition TryPop :: "nat \<Rightarrow> 'a SpscRing \<Rightarrow> 'a option \<times> 'a SpscRing" where
  "TryPop N s =
     (if rg_read s = rg_write s then (None, s)
      else (Some (rg_data s ! rg_read s), s\<lparr>rg_read := Next N (rg_read s)\<rparr>))"

definition ring_Size :: "nat \<Rightarrow> 'a SpscRing \<Rightarrow> nat" where
  "ring_Size N s = (rg_write s + N - rg_read s) mod N"

text \<open>\<open>Clear\<close> pops until the ring is empty; \<open>None\<close> would be a loop without end.\<close>

partial_function (option) ring_Clear :: "nat \<Rightarrow> 'a SpscRing \<Rightarrow> 'a SpscRing option" where
  "ring_Clear N s = (case TryPop N s of (None, s') \<Rightarrow> Some s' | (Some _, s') \<Rightarrow> ring_Clear N s')"

definition ring_inv :: "nat \<Rightarrow> 'a SpscRing \<Rightarrow> bool" where
  "ring_inv N s \<longleftrightarrow> 2 \<le> N \<and> length (rg_data s) = N \<and> rg_write s < N \<and> rg_read s < N"

section \<open>Contents\<close>

text \<open>The slots from the read index up to the write index, going round.\<close>

definition slots :: "nat \<Rightarrow> nat \<Rightarrow> nat \<Rightarrow> nat list" where
  "slots N r n = map (\<lambda>k. (r + k) mod N) [0..<n]"

definition contents :: "nat \<Rightarrow> 'a SpscRing \<Rightarrow> 'a list" where
  "contents N s = map ((!) (rg_data s)) (slots N (rg_read s) (ring_Size N s))"

lemma slots_0 [simp]: "slots N r 0 = []"
  by (simp add: slots_def)

lemma slots_Suc: "slots N r (Suc n) = slots N r n @ [(r + n) mod N]"
  by (simp add: slots_def)

lemma slots_Suc_first: "slots N r (Suc n) = r mod N # slots N (Next N r) n"
proof -
  have "(r + Suc k) mod N = ((r + 1) mod N + k) mod N" for k
    by (metis (no_types, lifting) add_Suc_right add_Suc_shift mod_add_left_eq plus_1_eq_Suc add.commute)
  then show ?thesis by (simp add: slots_def Next_def upt_conv_Cons map_Suc_upt [symmetric] del: upt_Suc)
qed

lemma ring_Size_less: "ring_inv N s \<Longrightarrow> ring_Size N s < N"
  by (simp add: ring_inv_def ring_Size_def)

lemma write_slot: "ring_inv N s \<Longrightarrow> (rg_read s + ring_Size N s) mod N = rg_write s"
  by (simp add: ring_inv_def ring_Size_def mod_add_right_eq)

lemma wrapped: "r < N \<Longrightarrow> i < N \<Longrightarrow> (r + i) mod N = (if r + i < N then r + i else r + i - N)" for r i N :: nat
  by (simp add: mod_if)

lemma slot_distinct:
  fixes r i j N :: nat
  assumes "r < N" and "i < N" and "j < N" and "(r + i) mod N = (r + j) mod N"
  shows "i = j"
  using assms(4) unfolding wrapped [OF assms(1,2)] wrapped [OF assms(1,3)] using assms(1-3) by (simp split: if_splits)

lemma write_not_in_slots:
  assumes "ring_inv N s" and "n \<le> ring_Size N s"
  shows "rg_write s \<notin> set (slots N (rg_read s) n)"
proof
  assume "rg_write s \<in> set (slots N (rg_read s) n)"
  then obtain k where k: "k < n" "(rg_read s + k) mod N = (rg_read s + ring_Size N s) mod N"
    using write_slot [OF assms(1)] by (auto simp: slots_def)
  have "k = ring_Size N s"
    using slot_distinct [OF _ _ ring_Size_less [OF assms(1)] k(2)] assms k(1) ring_Size_less [OF assms(1)]
    by (simp add: ring_inv_def)
  with k(1) assms(2) show False by simp
qed

lemma Size_zero: "ring_inv N s \<Longrightarrow> ring_Size N s = 0 \<longleftrightarrow> rg_read s = rg_write s"
  using write_slot [of N s] by (auto simp: ring_inv_def ring_Size_def)

lemma Next_Size:
  assumes "ring_inv N s"
  shows "Next N (rg_write s) = rg_read s \<longleftrightarrow> Suc (ring_Size N s) = N"
  using assms by (auto simp: ring_inv_def ring_Size_def Next_def mod_if split: if_splits)

section \<open>A bounded queue\<close>

text \<open>
  What the audio threads rely on: a call that reports success appends, or takes the oldest
  element; a push fails exactly when the queue is full, a pop exactly when it is empty.
\<close>

locale bounded_fifo =
  fixes ok :: "'s \<Rightarrow> bool" and elems :: "'s \<Rightarrow> 'a list" and room :: nat
    and push :: "'a \<Rightarrow> 's \<Rightarrow> bool \<times> 's" and pop :: "'s \<Rightarrow> 'a option \<times> 's"
  assumes push_room: "ok s \<Longrightarrow> length (elems s) < room \<Longrightarrow>
      \<exists>s'. push x s = (True, s') \<and> ok s' \<and> elems s' = elems s @ [x]"
    and push_full: "ok s \<Longrightarrow> length (elems s) \<ge> room \<Longrightarrow> push x s = (False, s)"
    and pop_some: "ok s \<Longrightarrow> elems s = x # xs \<Longrightarrow> \<exists>s'. pop s = (Some x, s') \<and> ok s' \<and> elems s' = xs"
    and pop_none: "ok s \<Longrightarrow> elems s = [] \<Longrightarrow> pop s = (None, s)"
    and bounded: "ok s \<Longrightarrow> length (elems s) \<le> room"
begin

fun push_all :: "'a list \<Rightarrow> 's \<Rightarrow> 's" where
  "push_all [] s = s"
| "push_all (x # xs) s = push_all xs (snd (push x s))"

fun pop_n :: "nat \<Rightarrow> 's \<Rightarrow> 'a list \<times> 's" where
  "pop_n 0 s = ([], s)"
| "pop_n (Suc n) s = (case pop s of (None, s') \<Rightarrow> ([], s') | (Some x, s') \<Rightarrow> (case pop_n n s' of (xs, s'') \<Rightarrow> (x # xs, s'')))"

lemma push_all_elems:
  "ok s \<Longrightarrow> length (elems s) + length xs \<le> room \<Longrightarrow> ok (push_all xs s) \<and> elems (push_all xs s) = elems s @ xs"
proof (induction xs arbitrary: s)
  case (Cons x xs)
  obtain s' where "push x s = (True, s')" "ok s'" "elems s' = elems s @ [x]"
    using push_room [OF Cons.prems(1), of x] Cons.prems(2) by auto
  then show ?case using Cons.IH [of s'] Cons.prems(2) by simp
qed simp

lemma pop_n_elems: "ok s \<Longrightarrow> fst (pop_n n s) = take n (elems s)"
proof (induction n arbitrary: s)
  case (Suc n)
  show ?case
  proof (cases "elems s")
    case Nil
    then show ?thesis using pop_none [OF Suc.prems] by simp
  next
    case (Cons x xs)
    then obtain s' where "pop s = (Some x, s')" "ok s'" "elems s' = xs" using pop_some [OF Suc.prems] by blast
    then show ?thesis using Suc.IH [of s'] Cons by (simp add: split_beta)
  qed
qed simp

lemma fifo: "ok s \<Longrightarrow> elems s = [] \<Longrightarrow> length xs \<le> room \<Longrightarrow> fst (pop_n (length xs) (push_all xs s)) = xs"
  using push_all_elems [of s xs] pop_n_elems [of "push_all xs s"] by simp

end

lemma store_outside:
  assumes "ring_inv N s"
  shows "map ((!) ((rg_data s)[rg_write s := x])) (slots N (rg_read s) (ring_Size N s)) = contents N s"
  using write_not_in_slots [OF assms order_refl] unfolding contents_def
  by (intro map_cong refl) (metis nth_list_update_neq)

lemma contents_push:
  assumes "ring_inv N s" and "Next N (rg_write s) \<noteq> rg_read s"
  shows "ring_inv N (s\<lparr>rg_data := (rg_data s)[rg_write s := x], rg_write := Next N (rg_write s)\<rparr>) \<and>
    contents N (s\<lparr>rg_data := (rg_data s)[rg_write s := x], rg_write := Next N (rg_write s)\<rparr>) = contents N s @ [x]"
proof -
  let ?s = "s\<lparr>rg_data := (rg_data s)[rg_write s := x], rg_write := Next N (rg_write s)\<rparr>"
  have inv: "ring_inv N ?s" using assms(1) by (simp add: ring_inv_def Next_def)
  have "ring_Size N ?s = Suc (ring_Size N s)"
    using assms by (auto simp: ring_inv_def ring_Size_def Next_def mod_if split: if_splits)
  moreover have "map ((!) ((rg_data s)[rg_write s := x])) (slots N (rg_read s) (ring_Size N s)) = contents N s"
    by (rule store_outside [OF assms(1)])
  ultimately have "contents N ?s = contents N s @ [x]"
    using write_slot [OF assms(1)] assms(1) by (simp add: contents_def slots_Suc ring_inv_def)
  with inv show ?thesis by blast
qed

lemma contents_pop:
  assumes "ring_inv N s" and "rg_read s \<noteq> rg_write s"
  shows "ring_inv N (s\<lparr>rg_read := Next N (rg_read s)\<rparr>) \<and>
    contents N s = rg_data s ! rg_read s # contents N (s\<lparr>rg_read := Next N (rg_read s)\<rparr>)"
proof -
  let ?s = "s\<lparr>rg_read := Next N (rg_read s)\<rparr>"
  have "ring_Size N s = Suc (ring_Size N ?s)"
    using assms by (auto simp: ring_inv_def ring_Size_def Next_def mod_if split: if_splits)
  then show ?thesis using assms(1) by (simp add: contents_def slots_Suc_first ring_inv_def Next_def)
qed

lemma contents_length: "length (contents N s) = ring_Size N s"
  by (simp add: contents_def slots_def)

interpretation ring: bounded_fifo "ring_inv N" "contents N" "N - 1" "TryPush N" "TryPop N" for N
proof
  fix s :: "'a SpscRing" and x xs
  assume inv: "ring_inv N s"
  note full = Next_Size [OF inv] ring_Size_less [OF inv]
  show "length (contents N s) < N - 1 \<Longrightarrow> \<exists>s'. TryPush N x s = (True, s') \<and> ring_inv N s' \<and> contents N s' = contents N s @ [x]"
    using contents_push [OF inv] full by (simp add: TryPush_def contents_length)
  show "N - 1 \<le> length (contents N s) \<Longrightarrow> TryPush N x s = (False, s)"
    using full by (simp add: TryPush_def contents_length)
  show "length (contents N s) \<le> N - 1" using full by (simp add: contents_length)
  have empty: "contents N s = [] \<longleftrightarrow> rg_read s = rg_write s"
    using Size_zero [OF inv] contents_length [of N s] by auto
  then show "contents N s = [] \<Longrightarrow> TryPop N s = (None, s)" by (simp add: TryPop_def)
  show "contents N s = x # xs \<Longrightarrow> \<exists>s'. TryPop N s = (Some x, s') \<and> ring_inv N s' \<and> contents N s' = xs"
    using contents_pop [OF inv] empty by (auto simp: TryPop_def)
qed

lemma ring_Clear_empties:
  "ring_inv N s \<Longrightarrow> \<exists>s'. ring_Clear N s = Some s' \<and> ring_inv N s' \<and> contents N s' = []"
proof (induction "contents N s" arbitrary: s)
  case Nil
  then show ?case using ring.pop_none [OF Nil(2)] by (subst ring_Clear.simps) simp
next
  case (Cons x xs)
  then obtain s' where "TryPop N s = (Some x, s')" "ring_inv N s'" "contents N s' = xs" using ring.pop_some by metis
  then show ?case using Cons(1) [of s'] by (subst ring_Clear.simps) simp
qed

section \<open>Two threads\<close>

text \<open>
  Where each thread is inside its call. The producer has loaded both indices and found room
  (\<open>Storing\<close>), or stored the value but not published it (\<open>Publishing\<close>); the consumer has found
  the ring not empty (\<open>Moving\<close>), or moved the value out but not released the slot
  (\<open>Releasing\<close>). The histories list the values of completed pushes and pops.
\<close>

datatype 'a producer = Outside | Storing 'a | Publishing 'a
datatype 'a consumer = Away | Moving | Releasing 'a

record 'a ring_run =
  rr_ring :: "'a SpscRing"
  rr_producer :: "'a producer"
  rr_consumer :: "'a consumer"
  rr_pushed :: "'a list"
  rr_popped :: "'a list"

inductive ring_step :: "nat \<Rightarrow> 'a ring_run \<Rightarrow> 'a ring_run \<Rightarrow> bool" for N where
  push_refused: "rr_producer c = Outside \<Longrightarrow> Next N (rg_write (rr_ring c)) = rg_read (rr_ring c) \<Longrightarrow> ring_step N c c"
| push_checked: "rr_producer c = Outside \<Longrightarrow> Next N (rg_write (rr_ring c)) \<noteq> rg_read (rr_ring c) \<Longrightarrow>
    ring_step N c (c\<lparr>rr_producer := Storing v\<rparr>)"
| push_stored: "rr_producer c = Storing v \<Longrightarrow>
    ring_step N c (c\<lparr>rr_producer := Publishing v,
      rr_ring := (rr_ring c)\<lparr>rg_data := (rg_data (rr_ring c))[rg_write (rr_ring c) := v]\<rparr>\<rparr>)"
| push_published: "rr_producer c = Publishing v \<Longrightarrow>
    ring_step N c (c\<lparr>rr_producer := Outside, rr_pushed := rr_pushed c @ [v],
      rr_ring := (rr_ring c)\<lparr>rg_write := Next N (rg_write (rr_ring c))\<rparr>\<rparr>)"
| pop_refused: "rr_consumer c = Away \<Longrightarrow> rg_read (rr_ring c) = rg_write (rr_ring c) \<Longrightarrow> ring_step N c c"
| pop_checked: "rr_consumer c = Away \<Longrightarrow> rg_read (rr_ring c) \<noteq> rg_write (rr_ring c) \<Longrightarrow>
    ring_step N c (c\<lparr>rr_consumer := Moving\<rparr>)"
| pop_moved: "rr_consumer c = Moving \<Longrightarrow>
    ring_step N c (c\<lparr>rr_consumer := Releasing (rg_data (rr_ring c) ! rg_read (rr_ring c)),
      rr_ring := (rr_ring c)\<lparr>rg_data := (rg_data (rr_ring c))[rg_read (rr_ring c) := w]\<rparr>\<rparr>)"
| pop_released: "rr_consumer c = Releasing v \<Longrightarrow>
    ring_step N c (c\<lparr>rr_consumer := Away, rr_popped := rr_popped c @ [v],
      rr_ring := (rr_ring c)\<lparr>rg_read := Next N (rg_read (rr_ring c))\<rparr>\<rparr>)"

inductive_cases ring_stepE: "ring_step N c c'"

definition ring_start :: "nat \<Rightarrow> 'a \<Rightarrow> 'a ring_run" where
  "ring_start N d = \<lparr>rr_ring = make_SpscRing N d, rr_producer = Outside, rr_consumer = Away, rr_pushed = [], rr_popped = []\<rparr>"

text \<open>The values in the ring, with the one that was moved out but not released still in front.\<close>

definition in_flight :: "nat \<Rightarrow> 'a ring_run \<Rightarrow> 'a list" where
  "in_flight N c = (case rr_consumer c of Releasing v \<Rightarrow> v # tl (contents N (rr_ring c)) | _ \<Rightarrow> contents N (rr_ring c))"

definition producer_inside :: "'a ring_run \<Rightarrow> bool" where
  "producer_inside c \<longleftrightarrow> rr_producer c \<noteq> Outside"

definition consumer_inside :: "'a ring_run \<Rightarrow> bool" where
  "consumer_inside c \<longleftrightarrow> rr_consumer c \<noteq> Away"

definition run_inv :: "nat \<Rightarrow> 'a ring_run \<Rightarrow> bool" where
  "run_inv N c \<longleftrightarrow> ring_inv N (rr_ring c) \<and>
     (producer_inside c \<longrightarrow> Next N (rg_write (rr_ring c)) \<noteq> rg_read (rr_ring c)) \<and>
     (consumer_inside c \<longrightarrow> rg_read (rr_ring c) \<noteq> rg_write (rr_ring c)) \<and>
     (\<forall>v. rr_producer c = Publishing v \<longrightarrow> rg_data (rr_ring c) ! rg_write (rr_ring c) = v) \<and>
     rr_pushed c = rr_popped c @ in_flight N c"

lemma contents_store:
  assumes "ring_inv N s"
  shows "contents N (s\<lparr>rg_data := (rg_data s)[rg_write s := x]\<rparr>) = contents N s"
proof -
  show ?thesis using store_outside [OF assms, of x] by (simp add: contents_def ring_Size_def)
qed

lemma slots_distinct: "r < N \<Longrightarrow> n \<le> N \<Longrightarrow> distinct (slots N r n)"
proof -
  assume "r < N" "n \<le> N"
  then have "inj_on (\<lambda>k. (r + k) mod N) (set [0..<n])"
    by (intro inj_onI) (rule slot_distinct [of r N], simp_all)
  then show ?thesis by (simp only: slots_def distinct_map distinct_upt simp_thms)
qed

lemma contents_moved:
  assumes "ring_inv N s" and "rg_read s \<noteq> rg_write s"
  shows "tl (contents N (s\<lparr>rg_data := (rg_data s)[rg_read s := w]\<rparr>)) = tl (contents N s)"
proof -
  obtain n where n: "ring_Size N s = Suc n" using Size_zero [OF assms(1)] assms(2) by (cases "ring_Size N s") auto
  have "distinct (slots N (rg_read s) (Suc n))"
    using assms(1) ring_Size_less [OF assms(1)] n by (intro slots_distinct) (simp_all add: ring_inv_def)
  then have "rg_read s \<notin> set (slots N (Next N (rg_read s)) n)"
    using assms(1) by (simp add: slots_Suc_first ring_inv_def)
  then have "map ((!) ((rg_data s)[rg_read s := w])) (slots N (Next N (rg_read s)) n) =
      map ((!) (rg_data s)) (slots N (Next N (rg_read s)) n)"
    by (intro map_cong refl) (metis nth_list_update_neq)
  moreover have "ring_Size N (s\<lparr>rg_data := (rg_data s)[rg_read s := w]\<rparr>) = Suc n" using n by (simp add: ring_Size_def)
  ultimately show ?thesis using n by (simp add: contents_def slots_Suc_first)
qed

lemma Next_inj: "i < N \<Longrightarrow> j < N \<Longrightarrow> Next N i = Next N j \<Longrightarrow> i = j"
  using slot_distinct [of 1 N i j] by (cases "N = 1") (auto simp: Next_def add.commute)

lemma ring_step_inv:
  assumes "ring_step N c c'" and "run_inv N c"
  shows "run_inv N c'"
  using assms
proof (cases rule: ring_step.cases)
  case (push_stored v)
  have inv: "ring_inv N (rr_ring c)" using assms(2) by (simp add: run_inv_def)
  with assms(2) show ?thesis
    by (simp add: push_stored run_inv_def in_flight_def contents_store [OF inv] producer_inside_def consumer_inside_def
        split: consumer.split) (simp add: ring_inv_def)
next
  case (push_published v)
  let ?s = "rr_ring c"
  have inv: "ring_inv N ?s" "Next N (rg_write ?s) \<noteq> rg_read ?s" and v: "rg_data ?s ! rg_write ?s = v"
    using assms(2) push_published by (simp_all add: run_inv_def producer_inside_def)
  have new: "ring_inv N (?s\<lparr>rg_write := Next N (rg_write ?s)\<rparr>)" "contents N (?s\<lparr>rg_write := Next N (rg_write ?s)\<rparr>) = contents N ?s @ [v]"
    using contents_push [OF inv, of v] v list_update_id [of "rg_data ?s" "rg_write ?s"] by simp_all
  have "consumer_inside c \<Longrightarrow> contents N ?s \<noteq> []"
    using assms(2) Size_zero [OF inv(1)] contents_length [of N ?s] by (auto simp: run_inv_def)
  then show ?thesis
    using assms(2) new inv(2)
    by (auto simp: push_published run_inv_def in_flight_def producer_inside_def consumer_inside_def split: consumer.splits)
next
  case (pop_moved w)
  let ?s = "rr_ring c"
  have inv: "ring_inv N ?s" "rg_read ?s \<noteq> rg_write ?s" using assms(2) pop_moved by (simp_all add: run_inv_def consumer_inside_def)
  have "contents N ?s = rg_data ?s ! rg_read ?s # tl (contents N ?s)" using contents_pop [OF inv] by simp
  then show ?thesis
    using assms(2) inv contents_moved [OF inv, of w]
    by (simp add: pop_moved run_inv_def in_flight_def producer_inside_def consumer_inside_def) (simp add: ring_inv_def)
next
  case (pop_released v)
  let ?s = "rr_ring c"
  have inv: "ring_inv N ?s" "rg_read ?s \<noteq> rg_write ?s" using assms(2) pop_released by (simp_all add: run_inv_def consumer_inside_def)
  have "producer_inside c \<Longrightarrow> Next N (rg_write ?s) \<noteq> Next N (rg_read ?s)"
    using Next_inj [of "rg_write ?s" N "rg_read ?s"] inv by (auto simp: ring_inv_def)
  then show ?thesis
    using assms(2) contents_pop [OF inv]
    by (auto simp: pop_released run_inv_def in_flight_def producer_inside_def consumer_inside_def)
qed (auto simp: run_inv_def in_flight_def producer_inside_def consumer_inside_def split: consumer.split)

lemma ring_start_inv: "2 \<le> N \<Longrightarrow> run_inv N (ring_start N d)"
  by (simp add: run_inv_def ring_start_def make_SpscRing_def ring_inv_def producer_inside_def consumer_inside_def in_flight_def
      contents_def ring_Size_def)

section \<open>Properties\<close>

text \<open>
  C15: the ring is a first-in first-out queue between two threads and its slots are never shared.
  However the accesses of the producer and the consumer interleave, the values taken out are a
  prefix of the values put in, in order; those still inside are fewer than the capacity; and
  while the producer may write its slot and the consumer may read its own, the two slots are
  different, so the unsynchronised accesses to \<open>m_Data\<close> do not race.
\<close>

theorem ring_fifo_and_race_free:
  assumes "2 \<le> N" and "(ring_step N)\<^sup>*\<^sup>* (ring_start N d) c"
  shows "(\<exists>inside. rr_pushed c = rr_popped c @ inside \<and> length inside < N) \<and>
    (producer_inside c \<and> consumer_inside c \<longrightarrow> rg_write (rr_ring c) \<noteq> rg_read (rr_ring c)) \<and>
    rg_write (rr_ring c) < length (rg_data (rr_ring c)) \<and> rg_read (rr_ring c) < length (rg_data (rr_ring c))"
proof -
  have inv: "run_inv N c"
    using assms(2) by (induction rule: rtranclp_induct) (auto intro: ring_step_inv ring_start_inv [OF assms(1)])
  then have ring: "ring_inv N (rr_ring c)" by (simp add: run_inv_def)
  have "length (in_flight N c) < N"
    using inv ring_Size_less [OF ring] Size_zero [OF ring]
    by (auto simp: in_flight_def contents_length run_inv_def consumer_inside_def split: consumer.split)
  with inv ring show ?thesis unfolding run_inv_def by (auto simp: ring_inv_def)
qed

text \<open>
  Between calls that do not overlap, the ring is a queue of \<open>Capacity - 1\<close> elements: pushing
  that many values or fewer into an empty ring succeeds and popping them gives them back in
  order; \<open>Size\<close> is the number of elements, and \<open>Clear\<close> ends with an empty ring.
\<close>

theorem ring_calls_fifo:
  assumes "ring_inv N s" and "ring_Size N s = 0" and "length xs \<le> N - 1"
  shows "fst (ring.pop_n N (length xs) (ring.push_all N xs s)) = xs \<and>
    ring_Size N (ring.push_all N xs s) = length xs \<and>
    (\<exists>s'. ring_Clear N (ring.push_all N xs s) = Some s' \<and> ring_Size N s' = 0)"
  using ring.fifo [OF assms(1) _ assms(3)] ring.push_all_elems [OF assms(1), of xs] assms(2,3) contents_length [of N s]
    contents_length [of N "ring.push_all N xs s"] ring_Clear_empties [of N "ring.push_all N xs s"]
  by simp (metis contents_length list.size(3))

theorem ring_fifo_and_race_free_witness:
  "\<exists>c. (ring_step 2)\<^sup>*\<^sup>* (ring_start 2 (0::nat)) c \<and> producer_inside c \<and> (\<exists>inside. rr_pushed c = rr_popped c @ inside \<and> length inside < 2)"
proof -
  have "ring_step 2 (ring_start 2 0) ((ring_start 2 0)\<lparr>rr_producer := Storing (7::nat)\<rparr>)"
    by (rule push_checked) (simp_all add: ring_start_def make_SpscRing_def Next_def)
  then have "(ring_step 2)\<^sup>*\<^sup>* (ring_start 2 0) ((ring_start 2 0)\<lparr>rr_producer := Storing (7::nat)\<rparr>)" by blast
  then show ?thesis
    using ring_fifo_and_race_free [of 2 0 "(ring_start 2 0)\<lparr>rr_producer := Storing (7::nat)\<rparr>"]
    by (auto simp: producer_inside_def)
qed

theorem ring_calls_fifo_witness:
  "fst (ring.pop_n 4 3 (ring.push_all 4 [10, 20, 30 :: nat] (make_SpscRing 4 0))) = [10, 20, 30]"
proof -
  have "ring_inv 4 (make_SpscRing 4 (0::nat))" "ring_Size 4 (make_SpscRing 4 (0::nat)) = 0"
    by (simp_all add: ring_inv_def make_SpscRing_def ring_Size_def)
  from ring_calls_fifo [OF this, of "[10, 20, 30]"] show ?thesis
    by (simp del: ring.push_all.simps ring.pop_n.simps add: numeral_3_eq_3)
qed

end
