(* ===== verification/Base64.thy ===== *)
theory Base64
  imports Prelude
begin

text \<open>
  \<open>Base64Encode\<close> and \<open>Base64Decode\<close> (\<open>protocol/src/encoding/base64.cpp\<close>): the buffers, limits,
  padding and errors around OpenSSL's \<open>EVP_EncodeBlock\<close> and \<open>EVP_DecodeBlock\<close>, which are
  parameters. What the code relies on of them is the locale \<open>base64_blocks\<close>; the documented
  alphabet of RFC 4648, written out as \<open>ref_encode\<close> and \<open>ref_decode\<close>, is an instance of it.
\<close>

section \<open>The wrappers\<close>

definition INT_MAX :: nat where
  "INT_MAX = 2147483647"

text \<open>
  A block function answers the text or bytes it wrote, or \<open>None\<close> for a negative count. Writing
  more than the buffer the code provides would be undefined.
\<close>

definition Base64Encode :: "(bytes \<Rightarrow> string option) \<Rightarrow> bytes \<Rightarrow> string result" where
  "Base64Encode encode_block data =
     (if data = [] then Inr []
      else if length data > INT_MAX then Inl (RuntimeError ''Base64 input is too large'')
      else let encodedSize = 4 * ((length data + 2) div 3) in
        case encode_block data of
          None \<Rightarrow> Inl (RuntimeError ''Failed to Base64 encode data'')
        | Some written \<Rightarrow>
            if length written > encodedSize then Inl (UndefinedBehaviour ''EVP_EncodeBlock'')
            else Inr written)"

definition normalize64 :: "string \<Rightarrow> string result" where
  "normalize64 data =
     (if length data mod 4 = 0 then Inr data
      else if length data mod 4 = 2 then Inr (data @ ''=='')
      else if length data mod 4 = 3 then Inr (data @ ''='')
      else Inl (RuntimeError ''Invalid Base64 length''))"

definition padding64 :: "string \<Rightarrow> nat" where
  "padding64 normalized =
     (if normalized \<noteq> [] \<and> last normalized = CHR ''='' then 1 else 0) +
     (if length normalized \<ge> 2 \<and> normalized ! (length normalized - 2) = CHR ''='' then 1 else 0)"

text \<open>
  \<open>result.resize( written - padding )\<close> is on unsigned numbers; a wrapped size is not an outcome
  the code provides for.
\<close>

definition Base64Decode :: "(string \<Rightarrow> bytes option) \<Rightarrow> string \<Rightarrow> bytes result" where
  "Base64Decode decode_block data =
     (if data = [] then Inr []
      else if length data > INT_MAX then Inl (RuntimeError ''Base64 input is too large'')
      else res_bind (normalize64 data) (\<lambda>normalized.
        let decodedSize = (length normalized div 4) * 3 in
        case decode_block normalized of
          None \<Rightarrow> Inl (RuntimeError ''Failed to Base64 decode data'')
        | Some written \<Rightarrow>
            if length written > decodedSize then Inl (UndefinedBehaviour ''EVP_DecodeBlock'')
            else if length written < padding64 normalized then Inl (UndefinedBehaviour ''resize'')
            else Inr (take (length written - padding64 normalized) written)))"

section \<open>What the wrappers rely on\<close>

definition pad_count :: "bytes \<Rightarrow> nat" where
  "pad_count data = (3 - length data mod 3) mod 3"

text \<open>
  The encoder writes four characters for every three bytes begun, the last \<open>pad_count\<close> of them
  being the only equal signs, and never a null character. The decoder inverts it, the padding
  standing for zero bytes; it writes three bytes for every four characters, and some when the text ends in padding.
\<close>

locale base64_blocks =
  fixes encode_block :: "bytes \<Rightarrow> string option"
    and decode_block :: "string \<Rightarrow> bytes option"
  assumes encode_total: "\<exists>text. encode_block data = Some text"
    and encode_length: "encode_block data = Some text \<Longrightarrow> length text = 4 * ((length data + 2) div 3)"
    and encode_padding: "encode_block data = Some text \<Longrightarrow>
      text = takeWhile (\<lambda>c. c \<noteq> CHR ''='') text @ replicate (pad_count data) (CHR ''='')"
    and encode_chars: "encode_block data = Some text \<Longrightarrow> CHR 0x00 \<notin> set text"
    and decode_encoded: "encode_block data = Some text \<Longrightarrow>
      decode_block text = Some (data @ replicate (pad_count data) 0)"
    and decode_length: "decode_block text = Some data \<Longrightarrow> length data \<le> (length text div 4) * 3"
    and decode_padding: "decode_block text = Some data \<Longrightarrow> 0 < padding64 text \<Longrightarrow> 2 \<le> length data"
begin

lemma encode_safe: "no_ub (Base64Encode encode_block data)"
proof (cases "encode_block data")
  case (Some t)
  then show ?thesis
    using encode_length [OF Some] by (simp add: Base64Encode_def)
qed (simp add: Base64Encode_def)

lemma decode_safe: "no_ub (Base64Decode decode_block text)"
proof (cases "normalize64 text")
  case (Inl e)
  then have "safe_error e"
    by (auto simp: normalize64_def split: if_splits)
  then show ?thesis
    by (simp add: Base64Decode_def Inl)
next
  case (Inr t)
  show ?thesis
  proof (cases "decode_block t")
    case (Some bs)
    have "padding64 t \<le> 2"
      by (simp add: padding64_def)
    then have "padding64 t \<le> length bs"
      using decode_padding [OF Some] by linarith
    then show ?thesis
      using decode_length [OF Some] by (simp add: Base64Decode_def Inr Some Let_def)
  qed (simp add: Base64Decode_def Inr Let_def)
qed

lemma padded_text:
  assumes enc: "encode_block data = Some text" and "data \<noteq> []"
  shows "padding64 text = pad_count data" and "length text mod 4 = 0" and "4 \<le> length text"
    and "length (takeWhile (\<lambda>c. c \<noteq> CHR ''='') text) = length text - pad_count data"
proof -
  let ?body = "takeWhile (\<lambda>c. c \<noteq> CHR ''='') text"
  have len: "length text = 4 * ((length data + 2) div 3)"
    by (rule encode_length [OF enc])
  moreover have "1 \<le> (length data + 2) div 3"
    using \<open>data \<noteq> []\<close> by (cases data) auto
  ultimately show four: "4 \<le> length text" and "length text mod 4 = 0"
    by auto
  have pad: "pad_count data \<le> 2"
    by (simp add: pad_count_def)
  have split: "text = ?body @ replicate (pad_count data) (CHR ''='')"
    by (rule encode_padding [OF enc])
  then show body: "length ?body = length text - pad_count data"
    by (metis add_diff_cancel_right' length_append length_replicate)
  have nth: "text ! (length text - k) = CHR ''='' \<longleftrightarrow> k \<le> pad_count data" if k: "1 \<le> k" "k \<le> 2" for k
  proof (cases "k \<le> pad_count data")
    case True
    then have "length text - k = length ?body + (pad_count data - k)"
      using k pad four body by linarith
    moreover have "(?body @ replicate (pad_count data) (CHR ''='')) ! (length ?body + (pad_count data - k)) = CHR ''=''"
      using True k by (simp only: nth_append_length_plus) simp
    ultimately show ?thesis
      using True split by simp
  next
    case False
    then have "length text - k < length ?body"
      using k four body by linarith
    then have "text ! (length text - k) \<in> set ?body"
      by (metis nth_mem takeWhile_nth)
    then show ?thesis
      using False by (auto dest: set_takeWhileD)
  qed
  have "last text = text ! (length text - 1)"
    using four by (intro last_conv_nth) auto
  then show "padding64 text = pad_count data"
    using four nth [of 1] nth [of 2] pad by (auto simp: padding64_def)
qed

lemma decode_of_encoded:
  assumes enc: "encode_block data = Some text" and "data \<noteq> []" and "length text \<le> INT_MAX"
  shows "Base64Decode decode_block text = Inr data"
    and "Base64Decode decode_block (takeWhile (\<lambda>c. c \<noteq> CHR ''='') text) = Inr data"
proof -
  let ?body = "takeWhile (\<lambda>c. c \<noteq> CHR ''='') text"
  note p = padded_text [OF enc \<open>data \<noteq> []\<close>]
  have bound: "length data + pad_count data \<le> length text div 4 * 3"
    using decode_length [OF decode_encoded [OF enc]] by simp
  have finish: "Base64Decode decode_block s = Inr data"
    if "s \<noteq> []" "length s \<le> INT_MAX" "normalize64 s = Inr text" for s
    using that bound p(1) decode_encoded [OF enc] by (simp add: Base64Decode_def)
  have "normalize64 text = Inr text" "text \<noteq> []"
    using p(2,3) by (auto simp: normalize64_def)
  then show "Base64Decode decode_block text = Inr data"
    using finish assms(3) by blast
  have pad: "pad_count data \<in> {0, 1, 2}"
    by (auto simp: pad_count_def)
  obtain k where k: "length text = 4 * k"
    using p(2) mod_0_imp_dvd by blast
  then have len: "length ?body = 4 * (k - 1) + (4 - pad_count data)"
    unfolding p(4) using p(3) pad by (auto simp: diff_mult_distrib2)
  have "normalize64 s = Inr (s @ replicate n (CHR ''=''))"
    if "length s mod 4 = (4 - n) mod 4" "n \<in> {0, 1, 2}" for s n
    using that by (auto simp: normalize64_def numeral_2_eq_2)
  moreover have "length ?body mod 4 = (4 - pad_count data) mod 4"
    by (simp add: len)
  ultimately have "normalize64 ?body = Inr (?body @ replicate (pad_count data) (CHR ''=''))"
    using pad by blast
  then have "normalize64 ?body = Inr text"
    by (simp only: encode_padding [OF enc, symmetric])
  moreover have "?body \<noteq> []"
    using len pad by auto
  moreover have "length ?body \<le> INT_MAX"
    using p(4) assms(3) by linarith
  ultimately show "Base64Decode decode_block ?body = Inr data"
    using finish by blast
qed

lemma coded:
  assumes size: "length data \<le> 1610612733"
  shows "\<exists>encoded. Base64Encode encode_block data = Inr encoded \<and> CHR 0x00 \<notin> set encoded \<and>
    Base64Decode decode_block encoded = Inr data \<and>
    Base64Decode decode_block (takeWhile (\<lambda>c. c \<noteq> CHR ''='') encoded) = Inr data"
proof (cases "data = []")
  case False
  obtain encoded where enc: "encode_block data = Some encoded"
    using encode_total by blast
  have "length encoded = 4 * ((length data + 2) div 3)"
    by (rule encode_length [OF enc])
  moreover have "(length data + 2) div 3 \<le> 536870911"
    using size by linarith
  ultimately have "length encoded \<le> INT_MAX" and "Base64Encode encode_block data = Inr encoded"
    using size False enc by (auto simp: Base64Encode_def INT_MAX_def)
  then show ?thesis
    using decode_of_encoded [OF enc False] encode_chars [OF enc] by blast
qed (simp add: Base64Encode_def Base64Decode_def)

end

section \<open>The standard alphabet\<close>

text \<open>
  RFC 4648 over numbers: three bytes are one number of 24 bits, written as four digits to the
  base 64.
\<close>

definition alphabet :: string where
  "alphabet = ''ABCDEFGHIJKLMNOPQRSTUVWXYZabcdefghijklmnopqrstuvwxyz0123456789+/''"

definition digit :: "nat \<Rightarrow> char" where
  "digit n = alphabet ! (n mod 64)"

fun index_in :: "char \<Rightarrow> string \<Rightarrow> nat option" where
  "index_in c [] = None"
| "index_in c (d # ds) = (if c = d then Some 0 else map_option Suc (index_in c ds))"

definition value_of :: "char \<Rightarrow> nat option" where
  "value_of c = (if c = CHR ''='' then Some 0 else index_in c alphabet)"

definition digits4 :: "nat \<Rightarrow> string" where
  "digits4 n = [digit (n div 262144), digit (n div 4096), digit (n div 64), digit n]"

fun ref_encode :: "bytes \<Rightarrow> string" where
  "ref_encode [] = []"
| "ref_encode [a] = take 2 (digits4 (unat a * 65536)) @ ''==''"
| "ref_encode [a, b] = take 3 (digits4 (unat a * 65536 + unat b * 256)) @ ''=''"
| "ref_encode (a # b # c # rest) = digits4 (unat a * 65536 + unat b * 256 + unat c) @ ref_encode rest"

definition bytes3 :: "nat \<Rightarrow> bytes" where
  "bytes3 n = [of_nat (n div 65536), of_nat (n div 256 mod 256), of_nat (n mod 256)]"

fun ref_decode :: "string \<Rightarrow> bytes option" where
  "ref_decode [] = Some []"
| "ref_decode (a # b # c # d # rest) =
     (case (value_of a, value_of b, value_of c, value_of d, ref_decode rest) of
        (Some a', Some b', Some c', Some d', Some bs) \<Rightarrow>
          Some (bytes3 (((a' * 64 + b') * 64 + c') * 64 + d') @ bs)
      | _ \<Rightarrow> None)"
| "ref_decode _ = None"

lemma index_in_nth: "distinct ds \<Longrightarrow> n < length ds \<Longrightarrow> index_in (ds ! n) ds = Some n"
  by (induction ds arbitrary: n) (auto simp: nth_Cons split: nat.splits)

lemma alphabet_facts: "distinct alphabet" "length alphabet = 64" "CHR ''='' \<notin> set alphabet"
  by code_simp+

lemma digit_not_pad [simp]: "digit n \<noteq> CHR ''=''"
  using alphabet_facts(2,3) nth_mem [of "n mod 64" alphabet] unfolding digit_def by (metis mod_less_divisor zero_less_numeral)

lemma value_of_digit [simp]: "value_of (digit n) = Some (n mod 64)"
  using digit_not_pad [of n] alphabet_facts by (simp add: value_of_def index_in_nth digit_def)

lemma bytes3_of_parts:
  fixes a b c :: u8
  shows "bytes3 (unat a * 65536 + unat b * 256 + unat c) = [a, b, c]"
proof -
  have "unat a < 256" "unat b < 256" "unat c < 256"
    by (rule order.strict_trans2 [OF unsigned_less], simp)+
  moreover have "unat a * 65536 + unat b * 256 + unat c = unat c + (unat b + unat a * 256) * 256"
    by simp
  ultimately have "(unat a * 65536 + unat b * 256 + unat c) div 65536 = unat a"
    and "(unat a * 65536 + unat b * 256 + unat c) div 256 mod 256 = unat b"
    and "(unat a * 65536 + unat b * 256 + unat c) mod 256 = unat c"
    by (linarith, simp_all only: div_mult_self1 mod_mult_self1 div_less mod_less) auto
  then show ?thesis
    by (simp add: bytes3_def)
qed

lemma digits_value:
  fixes n :: nat
  assumes "n < 16777216"
  shows "((n div 262144 mod 64 * 64 + n div 4096 mod 64) * 64 + n div 64 mod 64) * 64 + n mod 64 = n"
proof -
  have parts: "n div 4096 = n div 64 div 64" "n div 262144 = n div 64 div 64 div 64"
    by (simp_all add: div_mult2_eq [symmetric])
  have "n div 64 div 64 div 64 < 64"
    using assms by (simp add: div_mult2_eq [symmetric] less_mult_imp_div_less)
  then show ?thesis
    unfolding parts by (simp only: mod_less div_mult_mod_eq)
qed

lemma group_bound:
  fixes a b c :: u8
  shows "unat a * 65536 + unat b * 256 + unat c < 16777216"
proof -
  have "unat a < 256" "unat b < 256" "unat c < 256"
    by (rule order.strict_trans2 [OF unsigned_less], simp)+
  then show ?thesis
    by linarith
qed

lemma ref_decode_group:
  assumes "value_of w = Some (n div 262144 mod 64)" "value_of x = Some (n div 4096 mod 64)"
    "value_of y = Some (n div 64 mod 64)" "value_of z = Some (n mod 64)"
    and n: "n = unat a * 65536 + unat b * 256 + unat (c :: u8)"
  shows "ref_decode (w # x # y # z # rest) = map_option (\<lambda>bs. [a, b, c] @ bs) (ref_decode rest)"
  using assms(1-4) digits_value [of n] group_bound [of a b c] bytes3_of_parts [of a b c]
  by (simp add: n [symmetric] split: option.splits)

lemma value_of_pad [simp]: "value_of (CHR ''='') = Some 0"
  by (simp add: value_of_def)

lemma ref_decode_one: "ref_decode (ref_encode [a]) = Some [a, 0, 0]"
proof -
  let ?n = "unat a * 65536"
  have "?n = unat a * 1024 * 64" "unat a * 1024 = unat a * 16 * 64"
    by simp_all
  then have "?n mod 64 = 0" "?n div 64 mod 64 = 0"
    by (metis mod_mult_self2_is_0, metis mod_mult_self2_is_0 nonzero_mult_div_cancel_right zero_neq_numeral)
  then have "ref_decode [digit (?n div 262144), digit (?n div 4096), CHR ''='', CHR ''=''] =
      map_option (\<lambda>bs. [a, 0, 0] @ bs) (ref_decode [])"
    by (intro ref_decode_group [of _ ?n]) simp_all
  then show ?thesis
    by (simp add: digits4_def numeral_2_eq_2)
qed

lemma ref_decode_two: "ref_decode (ref_encode [a, b]) = Some [a, b, 0]"
proof -
  let ?n = "unat a * 65536 + unat b * 256"
  have "?n = (unat a * 1024 + unat b * 4) * 64"
    by simp
  then have "?n mod 64 = 0"
    by (metis mod_mult_self2_is_0)
  then have "ref_decode [digit (?n div 262144), digit (?n div 4096), digit (?n div 64), CHR ''=''] =
      map_option (\<lambda>bs. [a, b, 0] @ bs) (ref_decode [])"
    by (intro ref_decode_group [of _ ?n]) simp_all
  then show ?thesis
    by (simp add: digits4_def numeral_3_eq_3)
qed

lemma ref_decode_more:
  "ref_decode (ref_encode (a # b # c # rest)) = map_option (\<lambda>bs. [a, b, c] @ bs) (ref_decode (ref_encode rest))"
proof -
  let ?n = "unat a * 65536 + unat b * 256 + unat c"
  have "ref_decode (digit (?n div 262144) # digit (?n div 4096) # digit (?n div 64) # digit ?n # ref_encode rest) =
      map_option (\<lambda>bs. [a, b, c] @ bs) (ref_decode (ref_encode rest))"
    by (rule ref_decode_group [of _ ?n]) simp_all
  then show ?thesis
    by (simp only: ref_encode.simps digits4_def append_Cons append_Nil)
qed

lemma pad_count_more: "pad_count (a # b # c # rest) = pad_count rest"
  by (simp add: pad_count_def mod_Suc)

lemma ref_decode_encode: "ref_decode (ref_encode data) = Some (data @ replicate (pad_count data) 0)"
proof (induction data rule: ref_encode.induct)
  case (4 a b c rest)
  then show ?case
    unfolding ref_decode_more pad_count_more by simp
qed (simp add: pad_count_def, simp_all only: ref_decode_one ref_decode_two,
    simp_all add: pad_count_def numeral_2_eq_2)

lemma ref_encode_length: "length (ref_encode data) = 4 * ((length data + 2) div 3)"
proof (induction data rule: ref_encode.induct)
  case (4 a b c rest)
  have "(length (a # b # c # rest) + 2) div 3 = 1 + (length rest + 2) div 3"
    by simp
  then show ?case
    using 4 by (simp only: ref_encode.simps length_append) (simp add: digits4_def)
qed (simp_all add: digits4_def)

lemma takeWhile_digits:
  "takeWhile (\<lambda>c. c \<noteq> CHR ''='') (digits4 n @ r) = digits4 n @ takeWhile (\<lambda>c. c \<noteq> CHR ''='') r"
  by (simp add: digits4_def)

lemma replicate_two: "replicate 2 x = [x, x]"
  by (simp add: numeral_2_eq_2)

lemma ref_encode_padding_last:
  "ref_encode [x] = takeWhile (\<lambda>c. c \<noteq> CHR ''='') (ref_encode [x]) @ replicate (pad_count [x]) (CHR ''='')"
  "ref_encode [x, y] =
     takeWhile (\<lambda>c. c \<noteq> CHR ''='') (ref_encode [x, y]) @ replicate (pad_count [x, y]) (CHR ''='')"
  by (simp_all add: digits4_def pad_count_def replicate_two)

lemma ref_encode_padding:
  "ref_encode data = takeWhile (\<lambda>c. c \<noteq> CHR ''='') (ref_encode data) @ replicate (pad_count data) (CHR ''='')"
proof (induction data rule: ref_encode.induct)
  case (4 a b c rest)
  have IH: "ref_encode rest = takeWhile (\<lambda>c. c \<noteq> CHR ''='') (ref_encode rest) @
      replicate (pad_count rest) (CHR ''='')" (is "?r = ?t @ ?p")
    by (rule "4.IH")
  have "digits4 n @ ?r = (digits4 n @ ?t) @ ?p" for n
    by (subst IH) (rule append_assoc [symmetric])
  then show ?case
    unfolding ref_encode.simps(4) takeWhile_digits pad_count_more .
qed (simp add: pad_count_def, (rule ref_encode_padding_last)+)

lemma ref_decode_length: "ref_decode s = Some data \<Longrightarrow> length data = (length s div 4) * 3"
proof (induction s arbitrary: data rule: ref_decode.induct)
  case (2 a b c d rest)
  have "length (a # b # c # d # rest) div 4 = 1 + length rest div 4"
    by simp
  then show ?case
    using 2 by (auto simp: bytes3_def split: option.splits)
qed auto

lemma ref_encode_chars: "CHR 0x00 \<notin> set (ref_encode data)"
proof -
  have "CHR 0x00 \<notin> set alphabet"
    by code_simp
  then have "digit n \<noteq> CHR 0x00" for n
    using nth_mem [of "n mod 64" alphabet] alphabet_facts(2) unfolding digit_def by (metis mod_less_divisor zero_less_numeral)
  then have "CHR 0x00 \<notin> set (digits4 n)" for n
    by (auto simp: digits4_def dest: sym)
  then show ?thesis
    by (induction data rule: ref_encode.induct) (auto dest: in_set_takeD)
qed

interpretation rfc4648: base64_blocks "\<lambda>data. Some (ref_encode data)" ref_decode
proof
  fix s data
  assume decoded: "ref_decode s = Some data" and "0 < padding64 s"
  then have "s \<noteq> []"
    by (auto simp: padding64_def)
  then have "1 \<le> length s div 4"
    using decoded by (cases s rule: ref_decode.cases) auto
  then show "2 \<le> length data"
    using ref_decode_length [OF decoded] by simp
qed (use ref_encode_length ref_encode_padding ref_encode_chars ref_decode_encode ref_decode_length in auto)

text \<open>
  Every key, signature and IV the handshake carries goes through Base64. What
  \<open>Base64Encode\<close> writes \<open>Base64Decode\<close> reads back, with its padding and with the padding
  dropped, as servers send it; for every block coder with the documented behaviour, of any
  length whose text still fits an \<open>int\<close>.
\<close>

theorem base64_roundtrip:
  assumes blocks: "base64_blocks encode_block decode_block" and size: "length data \<le> 1610612733"
  shows "\<exists>encoded. Base64Encode encode_block data = Inr encoded \<and>
    Base64Decode decode_block encoded = Inr data \<and>
    Base64Decode decode_block (takeWhile (\<lambda>c. c \<noteq> CHR ''='') encoded) = Inr data"
  using base64_blocks.coded [OF blocks size] by blast

theorem base64_roundtrip_witness:
  "Base64Decode ref_decode ''8J+YgA==''= Inr [0xf0, 0x9f, 0x98, 0x80] \<and>
   Base64Decode ref_decode ''8J+YgA'' = Inr [0xf0, 0x9f, 0x98, 0x80]"
proof -
  let ?data = "[0xf0, 0x9f, 0x98, 0x80] :: bytes"
  have "ref_encode ?data = ''8J+YgA==''"
    by (simp add: digits4_def digit_def alphabet_def)
  then have enc: "Base64Encode (\<lambda>data. Some (ref_encode data)) ?data = Inr ''8J+YgA==''"
    by (simp add: Base64Encode_def INT_MAX_def del: ref_encode.simps)
  have short: "takeWhile (\<lambda>c. c \<noteq> CHR ''='') ''8J+YgA=='' = ''8J+YgA''"
    by code_simp
  have "length ?data \<le> 1610612733"
    by simp
  then obtain encoded where e: "Base64Encode (\<lambda>data. Some (ref_encode data)) ?data = Inr encoded"
    and whole: "Base64Decode ref_decode encoded = Inr ?data"
    and stripped: "Base64Decode ref_decode (takeWhile (\<lambda>c. c \<noteq> CHR ''='') encoded) = Inr ?data"
    using base64_roundtrip [OF rfc4648.base64_blocks_axioms, of ?data] by blast
  have "encoded = ''8J+YgA==''"
    by (rule sum.inject(2) [THEN iffD1, OF trans [OF e [symmetric] enc]])
  then show ?thesis
    using whole stripped by (simp only: short simp_thms)
qed

text \<open>Neither direction can leave its buffer, whatever text a server sends.\<close>

lemma base64_memory_safe:
  assumes "base64_blocks encode_block decode_block"
  shows "no_ub (Base64Encode encode_block data) \<and> no_ub (Base64Decode decode_block encoded)"
  using base64_blocks.encode_safe [OF assms] base64_blocks.decode_safe [OF assms] by blast

end
