(* ===== verification/Hash_Cash.thy ===== *)
theory Hash_Cash
  imports Base64 Text_Format
begin

text \<open>
  The identity's proof of work, \<open>HashCashImpl\<close> (\<open>protocol/src/crypto/hash_cash.cpp\<close>): the
  security level of a key offset and the search for an offset that reaches a level. SHA-1 is a
  parameter, answering the bytes it wrote or failing.

  \<open>GetLevel\<close> is shown to be the number of zero bits the hash starts with, reading each byte from
  its lowest bit; \<open>FindOffset\<close> to return exactly the first offset from \<open>start\<close> on that reaches
  the level.
\<close>

unbundle bit_operations_syntax

section \<open>GetLevel\<close>

definition Sha1 :: "(string \<Rightarrow> bytes option) \<Rightarrow> string \<Rightarrow> bytes result" where
  "Sha1 sha1 data =
     (case sha1 data of
        None \<Rightarrow> Inl (RuntimeError ''Failed to calculate hashcash SHA-1'')
      | Some hash \<Rightarrow>
          if length hash \<noteq> 20 then Inl (RuntimeError ''Unexpected hashcash SHA-1 size'') else Inr hash)"

text \<open>
  \<open>while ( ( byte & 0x01 ) == 0 ) { ++level; byte >>= 1; }\<close> does not end for a zero byte, which
  the code skips before; \<open>None\<close> is not returning. The level is a \<open>std::uint8_t\<close>.
\<close>

partial_function (option) count_low :: "u8 \<Rightarrow> u8 \<Rightarrow> u8 option" where
  "count_low byte level =
     (if byte AND 0x01 = 0 then count_low (drop_bit 1 byte) (level + 1) else Some level)"

fun level_of_hash :: "bytes \<Rightarrow> u8 \<Rightarrow> u8 option" where
  "level_of_hash [] level = Some level"
| "level_of_hash (byte # hash) level =
     (if byte = 0 then level_of_hash hash (level + 8) else count_low byte level)"

definition GetLevel :: "(string \<Rightarrow> bytes option) \<Rightarrow> string \<Rightarrow> u64 \<Rightarrow> u8 result option" where
  "GetLevel sha1 encodedPublicKey offset =
     (case Sha1 sha1 (encodedPublicKey @ to_string (unat offset)) of
        Inl e \<Rightarrow> Some (Inl e)
      | Inr hash \<Rightarrow> map_option Inr (level_of_hash hash 0))"

section \<open>FindOffset and ValidateOffset\<close>

definition ProgressInterval :: u64 where
  "ProgressInterval = 65536"

lemma next_offset: "offset \<noteq> (- 1 :: u64) \<Longrightarrow> unat (offset + 1) = Suc (unat offset)"
  by (metis add.commute add_eq_0_iff unatSuc)

text \<open>
  The \<open>for\<close> loop from \<open>offset\<close>. \<open>stop offset\<close> is what \<open>stop.stop_requested()\<close> answers when it is
  asked at \<open>offset\<close>; \<open>- 1\<close> is the largest 64-bit number; the calls of \<open>progress\<close> are the list
  in the result. The loop ends because the offset grows up to the largest 64-bit number.
\<close>

function find_loop ::
  "(u64 \<Rightarrow> u8 result option) \<Rightarrow> u8 \<Rightarrow> u64 \<Rightarrow> (u64 \<Rightarrow> bool) \<Rightarrow> u64 \<Rightarrow> (u64 option result \<times> u64 list) option" where
  "find_loop level targetLevel start stop offset =
     (case level offset of
        None \<Rightarrow> None
      | Some (Inl e) \<Rightarrow> Some (Inl e, [])
      | Some (Inr l) \<Rightarrow>
          if l \<ge> targetLevel then Some (Inr (Some offset), [])
          else if offset = - 1 then Some (Inl (RuntimeError ''Unable to find identity key offset''), [])
          else if (offset - start + 1) mod ProgressInterval = 0 then
            if stop offset then Some (Inr None, [])
            else map_option (\<lambda>(r, calls). (r, (offset + 1) # calls))
                   (find_loop level targetLevel start stop (offset + 1))
          else find_loop level targetLevel start stop (offset + 1))"
  by pat_completeness auto

termination
proof (relation "measure (\<lambda>(_, _, _, _, offset). 2 ^ 64 - unat offset)", goal_cases)
  case (2 level targetLevel start stop offset)
  then show ?case
    using unsigned_less [of offset, where ?'a = nat] by (simp add: next_offset diff_less_mono2)
next
  case (3 level targetLevel start stop offset)
  then show ?case
    using unsigned_less [of offset, where ?'a = nat] by (simp add: next_offset diff_less_mono2)
qed simp

declare find_loop.simps [simp del]

definition FindOffset ::
  "(bytes \<Rightarrow> string option) \<Rightarrow> (string \<Rightarrow> bytes option) \<Rightarrow> bytes \<Rightarrow> u8 \<Rightarrow> u64 \<Rightarrow> (u64 \<Rightarrow> bool) \<Rightarrow>
     (u64 option result \<times> u64 list) option" where
  "FindOffset encode_block sha1 publicKey targetLevel start stop =
     (case Base64Encode encode_block publicKey of
        Inl e \<Rightarrow> Some (Inl e, [])
      | Inr encodedPublicKey \<Rightarrow> find_loop (GetLevel sha1 encodedPublicKey) targetLevel start stop start)"

text \<open>\<open>HashCash::FindOffset( publicKey, targetLevel )\<close> dereferences the result: no stop is ever requested.\<close>

definition FindOffset_from_zero ::
  "(bytes \<Rightarrow> string option) \<Rightarrow> (string \<Rightarrow> bytes option) \<Rightarrow> bytes \<Rightarrow> u8 \<Rightarrow> u64 result option" where
  "FindOffset_from_zero encode_block sha1 publicKey targetLevel =
     (case FindOffset encode_block sha1 publicKey targetLevel 0 (\<lambda>_. False) of
        None \<Rightarrow> None
      | Some (Inl e, _) \<Rightarrow> Some (Inl e)
      | Some (Inr None, _) \<Rightarrow> Some (Inl (UndefinedBehaviour ''*nullopt''))
      | Some (Inr (Some offset), _) \<Rightarrow> Some (Inr offset))"

definition ValidateOffset ::
  "(bytes \<Rightarrow> string option) \<Rightarrow> (string \<Rightarrow> bytes option) \<Rightarrow> bytes \<Rightarrow> u8 \<Rightarrow> u64 \<Rightarrow> bool result option" where
  "ValidateOffset encode_block sha1 publicKey targetLevel offset =
     (case Base64Encode encode_block publicKey of
        Inl e \<Rightarrow> Some (Inl e)
      | Inr encodedPublicKey \<Rightarrow>
          map_option (\<lambda>r. res_bind r (\<lambda>level. Inr (level \<ge> targetLevel))) (GetLevel sha1 encodedPublicKey offset))"

section \<open>The level is the number of leading zero bits\<close>

definition hash_bits :: "bytes \<Rightarrow> bool list" where
  "hash_bits hash = concat (map (\<lambda>byte. map (bit byte) [0..<8]) hash)"

definition leading_zeros :: "bool list \<Rightarrow> nat" where
  "leading_zeros bits = length (takeWhile Not bits)"

lemma count_low_zeros:
  fixes byte :: u8
  assumes "bit byte k" and "\<And>i. i < k \<Longrightarrow> \<not> bit byte i"
  shows "count_low byte level = Some (level + of_nat k)"
  using assms
proof (induction k arbitrary: byte level)
  case 0
  then have "byte AND 1 \<noteq> 0"
    by (auto simp: and_one_eq odd_iff_mod_2_eq_one bit_0)
  then show ?case
    by (simp add: count_low.simps [of byte])
next
  case (Suc k)
  then have "\<not> bit byte 0"
    by blast
  then have "byte AND 1 = 0"
    by (simp add: and_one_eq bit_0 even_iff_mod_2_eq_zero)
  moreover have "count_low (drop_bit 1 byte) (level + 1) = Some (level + 1 + of_nat k)"
    using Suc.prems by (intro Suc.IH) (auto simp: bit_drop_bit_eq)
  ultimately show ?case
    by (simp add: count_low.simps [of byte] algebra_simps)
qed

lemma leading_zeros_byte:
  fixes byte :: u8
  assumes "byte \<noteq> 0"
  obtains k where "k < 8" "bit byte k" "\<And>i. i < k \<Longrightarrow> \<not> bit byte i"
    "leading_zeros (map (bit byte) [0..<8] @ rest) = k"
proof -
  obtain j where j: "bit byte j" "j < 8"
    using assms bit_eq_iff [of byte 0] bit_imp_le_length [of byte] by auto
  define k where "k = (LEAST i. bit byte i)"
  have k: "bit byte k" "k \<le> j" and least: "\<And>i. i < k \<Longrightarrow> \<not> bit byte i"
    unfolding k_def using j LeastI [of "bit byte" j] Least_le [of "bit byte" j] not_less_Least by auto
  have "[0..<8] = [0..<k] @ k # [Suc k..<8]"
    using k(2) j(2) upt_add_eq_append [of 0 k "8 - k"] upt_conv_Cons [of k 8] by auto
  moreover have "takeWhile Not (map (bit byte) [0..<k] @ bits) = map (bit byte) [0..<k] @ takeWhile Not bits" for bits
    by (rule takeWhile_append2) (use least in auto)
  ultimately have "takeWhile Not (map (bit byte) [0..<8] @ rest) = map (bit byte) [0..<k]"
    using k(1) by simp
  then show ?thesis
    using that [of k] k j(2) least by (simp add: leading_zeros_def)
qed

lemma level_of_hash_bits: "level_of_hash hash level = Some (level + of_nat (leading_zeros (hash_bits hash)))"
proof (induction hash arbitrary: level)
  case (Cons byte hash)
  show ?case
  proof (cases "byte = 0")
    case True
    have "takeWhile Not (map (bit (0 :: u8)) [0..<8] @ bits) = map (bit (0 :: u8)) [0..<8] @ takeWhile Not bits" for bits
      by (rule takeWhile_append2) auto
    then have "leading_zeros (hash_bits (byte # hash)) = 8 + leading_zeros (hash_bits hash)"
      by (simp add: True hash_bits_def leading_zeros_def)
    then show ?thesis
      by (simp add: True Cons.IH algebra_simps)
  next
    case False
    then show ?thesis
      using leading_zeros_byte [OF False, of "hash_bits hash"] count_low_zeros [of byte]
      by (auto simp: hash_bits_def)
  qed
qed (simp add: hash_bits_def leading_zeros_def)

lemma leading_zeros_le: "leading_zeros (hash_bits hash) \<le> 8 * length hash"
proof -
  have "length (hash_bits hash) = 8 * length hash"
    by (induction hash) (simp_all add: hash_bits_def)
  then show ?thesis
    using length_takeWhile_le [of Not "hash_bits hash"] by (simp add: leading_zeros_def)
qed

text \<open>
  The level of an offset, computed byte by byte in an 8-bit counter, is the number of zero
  bits the SHA-1 of key and offset begins with, each byte read from its lowest bit: the inner
  loop always ends and the counter never wraps.
\<close>

theorem level_is_leading_zeros:
  assumes "sha1 (key @ to_string (unat offset)) = Some hash" and "length hash = 20"
  shows "\<exists>level. GetLevel sha1 key offset = Some (Inr level) \<and> unat level = leading_zeros (hash_bits hash)"
proof -
  have "leading_zeros (hash_bits hash) < 256"
    using leading_zeros_le [of hash] assms(2) by simp
  then show ?thesis
    by (simp add: GetLevel_def Sha1_def assms level_of_hash_bits unat_of_nat)
qed

theorem level_is_leading_zeros_witness:
  "\<exists>level. GetLevel (\<lambda>_. Some ([0, 0x28] @ replicate 18 0)) ''key'' 7 = Some (Inr level) \<and> unat level = 11"
proof -
  have "leading_zeros (hash_bits ([0, 0x28] @ replicate 18 0)) = 11"
    by (simp add: leading_zeros_def hash_bits_def upt_rec)
  then show ?thesis
    using level_is_leading_zeros [of "\<lambda>_. Some ([0, 0x28] @ replicate 18 0)" "''key''" 7 "[0, 0x28] @ replicate 18 0"]
    by simp
qed

section \<open>The search finds the first offset\<close>

lemma GetLevel_returns: "GetLevel sha1 key offset \<noteq> None"
  by (auto simp: GetLevel_def level_of_hash_bits split: sum.splits)

lemma find_loop_returns:
  assumes "\<And>o'. level o' \<noteq> None"
  shows "find_loop level target start stop offset \<noteq> None"
  using assms
proof (induction level target start stop offset rule: find_loop.induct)
  case (1 level target start stop offset)
  obtain r where r: "level offset = Some r"
    using "1.prems" [of offset] by blast
  show ?case
  proof (cases r)
    case (Inr l)
    then show ?thesis
      using "1.IH"(1) [OF r Inr _ _ _ _ "1.prems"] "1.IH"(2) [OF r Inr _ _ _ "1.prems"] r
      by (subst find_loop.simps) auto
  qed (subst find_loop.simps, simp add: r)
qed

lemma word_successor: "offset \<noteq> (- 1 :: u64) \<Longrightarrow> offset \<le> o' \<Longrightarrow> offset \<noteq> o' \<Longrightarrow> offset + 1 \<le> o'"
  by (simp add: word_le_nat_alt next_offset) (metis Suc_leI le_neq_implies_less word_unat_eq_iff)

lemma find_loop_first:
  assumes "find_loop level target start stop offset = Some (Inr (Some found), calls)"
  shows "offset \<le> found \<and> (\<exists>l. level found = Some (Inr l) \<and> target \<le> l) \<and>
    (\<forall>o'. offset \<le> o' \<longrightarrow> o' < found \<longrightarrow> (\<exists>l. level o' = Some (Inr l) \<and> l < target))"
  using assms
proof (induction level target start stop offset arbitrary: calls rule: find_loop.induct)
  case (1 level target start stop offset)
  then obtain l where l: "level offset = Some (Inr l)"
    by (subst (asm) find_loop.simps) (auto split: option.splits sum.splits)
  show ?case
  proof (cases "target \<le> l")
    case True
    then show ?thesis
      using "1.prems" l by (subst (asm) find_loop.simps) auto
  next
    case False
    then have more: "offset \<noteq> - 1" and rest: "\<exists>calls'. find_loop level target start stop (offset + 1) =
        Some (Inr (Some found), calls')"
      using "1.prems" l by (subst (asm) find_loop.simps, auto split: if_splits)+
    have IH: "offset + 1 \<le> found \<and> (\<exists>l. level found = Some (Inr l) \<and> target \<le> l) \<and>
        (\<forall>o'. offset + 1 \<le> o' \<longrightarrow> o' < found \<longrightarrow> (\<exists>l. level o' = Some (Inr l) \<and> l < target))"
    proof (cases "(offset - start + 1) mod ProgressInterval = 0")
      case True
      then have "\<not> stop offset"
        using "1.prems" l False more by (subst (asm) find_loop.simps) auto
      then show ?thesis
        using "1.IH"(1) [OF l refl False more True] rest by blast
    qed (use "1.IH"(2) [OF l refl False more] rest in blast)
    moreover have "offset \<le> offset + 1"
      using more by (simp add: word_le_nat_alt next_offset)
    moreover have "l < target"
      using False by simp
    ultimately show ?thesis
      using l word_successor [OF more] by (metis order.trans)
  qed
qed

lemma find_loop_found:
  assumes "\<And>o'. \<exists>l. level o' = Some (Inr l)" and "level good = Some (Inr l)" "target \<le> l" "offset \<le> good"
    and "\<And>o'. \<not> stop o'"
  shows "\<exists>found calls. find_loop level target start stop offset = Some (Inr (Some found), calls)"
  using assms
proof (induction level target start stop offset rule: find_loop.induct)
  case (1 level target start stop offset)
  obtain k where k: "level offset = Some (Inr k)"
    using "1.prems"(1) by blast
  show ?case
  proof (cases "target \<le> k")
    case False
    then have "offset \<noteq> good"
      using "1.prems" k by auto
    moreover from this have more: "offset \<noteq> - 1"
      using \<open>offset \<le> good\<close> word_order.extremum_unique [of good] by auto
    ultimately have le: "offset + 1 \<le> good"
      using \<open>offset \<le> good\<close> word_successor by blast
    have "\<exists>found calls. find_loop level target start stop (offset + 1) = Some (Inr (Some found), calls)"
    proof (cases "(offset - start + 1) mod ProgressInterval = 0")
      case True
      show ?thesis
        by (rule "1.IH"(1) [OF k refl False more True "1.prems"(5) "1.prems"(1-3) le "1.prems"(5)])
    next
      case other: False
      show ?thesis
        by (rule "1.IH"(2) [OF k refl False more other "1.prems"(1-3) le "1.prems"(5)])
    qed
    then show ?thesis
      using k False more "1.prems"(5) [of offset] by (subst find_loop.simps) auto
  qed (simp add: find_loop.simps [of level] k)
qed

text \<open>
  For every working SHA-1, when some offset from \<open>start\<close> on reaches the level and no stop is
  requested, the search returns; what it returns is the first such offset, by the leading zero
  bits of the hash of key and offset, and \<open>ValidateOffset\<close> accepts it.
\<close>

theorem find_offset_first:
  assumes sha1: "\<And>s. \<exists>hash. sha1 s = Some hash \<and> length hash = 20"
    and key: "Base64Encode encode_block publicKey = Inr key"
    and never: "\<And>o'. \<not> stop o'"
    and reachable: "start \<le> good" "unat target \<le> leading_zeros (hash_bits (the (sha1 (key @ to_string (unat good)))))"
  defines "zeros \<equiv> \<lambda>offset :: u64. leading_zeros (hash_bits (the (sha1 (key @ to_string (unat offset)))))"
  shows "\<exists>found calls. FindOffset encode_block sha1 publicKey target start stop = Some (Inr (Some found), calls) \<and>
    start \<le> found \<and> unat target \<le> zeros found \<and>
    (\<forall>offset. start \<le> offset \<longrightarrow> offset < found \<longrightarrow> zeros offset < unat target) \<and>
    ValidateOffset encode_block sha1 publicKey target found = Some (Inr True)"
proof -
  have level: "\<exists>l. GetLevel sha1 key offset = Some (Inr l) \<and> unat l = zeros offset" for offset
    using level_is_leading_zeros [of sha1 key offset] sha1 [of "key @ to_string (unat offset)"]
    unfolding zeros_def by (metis option.sel)
  obtain good_level where good: "GetLevel sha1 key good = Some (Inr good_level)" "target \<le> good_level"
    using level [of good] reachable(2) by (auto simp: zeros_def word_le_nat_alt)
  have "\<exists>l. GetLevel sha1 key o' = Some (Inr l)" for o'
    using level by blast
  then obtain found calls where run: "find_loop (GetLevel sha1 key) target start stop start = Some (Inr (Some found), calls)"
    using find_loop_found [of "GetLevel sha1 key" good good_level target start stop start] good reachable(1) never
    by blast
  note first = find_loop_first [OF run]
  have "unat target \<le> zeros found"
    using first level [of found] by (auto simp: word_le_nat_alt)
  moreover have "zeros offset < unat target" if "start \<le> offset" "offset < found" for offset
    using first that level [of offset] by (force simp: word_less_nat_alt)
  ultimately show ?thesis
    using run first by (auto simp: FindOffset_def ValidateOffset_def key)
qed

theorem find_offset_first_witness:
  "\<exists>found calls. FindOffset (\<lambda>_. Some ''a2V5'') (\<lambda>s. Some (if s = ''a2V510'' then replicate 20 0 else replicate 20 1))
     [0x6b, 0x65, 0x79] 30 7 (\<lambda>_. False) = Some (Inr (Some found), calls) \<and> 7 \<le> found"
proof -
  let ?sha1 = "\<lambda>s. Some (if s = ''a2V510'' then replicate 20 0 else replicate 20 1 :: bytes)"
  have name: "to_string 10 = ''10''"
    by code_simp
  have "leading_zeros (hash_bits (replicate 20 0)) = 160"
    by (simp add: leading_zeros_def hash_bits_def upt_rec numeral_eq_Suc)
  then have reach: "unat (30 :: u8) \<le> leading_zeros (hash_bits (the (?sha1 (''a2V5'' @ to_string (unat (10 :: u64))))))"
    by (simp add: name)
  have key: "Base64Encode (\<lambda>_. Some ''a2V5'') [0x6b, 0x65, 0x79] = Inr ''a2V5''"
    by (simp add: Base64Encode_def INT_MAX_def)
  have sha1: "\<exists>hash. ?sha1 s = Some hash \<and> length hash = 20" for s
    by simp
  have "(7 :: u64) \<le> 10" "\<And>o' :: u64. \<not> False"
    by simp_all
  then show ?thesis
    using find_offset_first [of ?sha1 "\<lambda>_. Some ''a2V5''" "[0x6b, 0x65, 0x79]" "''a2V5''" "\<lambda>_. False" 7 10 30]
      sha1 key reach by blast
qed

lemma find_loop_stopped:
  "find_loop level target start stop offset = Some (Inr None, calls) \<Longrightarrow> \<exists>o'. stop o'"
proof (induction level target start stop offset arbitrary: calls rule: find_loop.induct)
  case (1 level target start stop offset)
  then obtain l where l: "level offset = Some (Inr l)"
    by (subst (asm) find_loop.simps) (auto split: option.splits sum.splits)
  then have below: "\<not> target \<le> l" and more: "offset \<noteq> - 1"
    using "1.prems" by (subst (asm) find_loop.simps, auto split: if_splits)+
  show ?case
  proof (cases "(offset - start + 1) mod ProgressInterval = 0")
    case True
    show ?thesis
    proof (cases "stop offset")
      case False
      then have "\<exists>calls'. find_loop level target start stop (offset + 1) = Some (Inr None, calls')"
        using "1.prems" l below more True by (subst (asm) find_loop.simps) auto
      then show ?thesis
        using "1.IH"(1) [OF l refl below more True False] by blast
    qed blast
  next
    case False
    then have "find_loop level target start stop (offset + 1) = Some (Inr None, calls)"
      using "1.prems" l below more by (subst (asm) find_loop.simps) auto
    then show ?thesis
      using "1.IH"(2) [OF l refl below more False] by blast
  qed
qed

text \<open>
  The search returns for every SHA-1, failing ones included: the loops of \<open>GetLevel\<close> and
  \<open>FindOffset\<close> end on every key, level, start and stop request; and without a stop request the
  result is never empty, so the dereference in the two-argument form is defined.
\<close>

theorem find_offset_returns:
  "FindOffset encode_block sha1 publicKey target start stop \<noteq> None \<and>
   FindOffset encode_block sha1 publicKey target start (\<lambda>_. False) \<noteq> Some (Inr None, calls)"
  using find_loop_returns [OF GetLevel_returns] find_loop_stopped [of _ target start "\<lambda>_. False" start calls]
  by (auto simp: FindOffset_def split: sum.splits)

end
