(* ===== verification/Bootstrap_Transport.thy ===== *)
theory Bootstrap_Transport
  imports Session_Transport
begin

text \<open>
  The transport of the key exchange, \<open>BootstrapTransport\<close>
  (\<open>protocol/src/handshake/bootstrap_transport.cpp\<close>) over \<open>BootstrapCrypto\<close>
  (\<open>protocol/src/crypto/bootstrap_crypto.cpp\<close>): commands and acknowledgements under a fixed key,
  before the session has one of its own. \<open>ReceiveCommand\<close> gathers the fragments of one server
  command, which may arrive in any order and more than once.

  The outside world is the \<open>Environment\<close> of the session transport. A loop that waits for
  packets need not return: \<open>ReceiveCommand\<close> is a partial function, \<open>None\<close> when it does not.
  Its turn after the acknowledgement, \<open>gather\<close>, is a function of the fragment map.
\<close>

section \<open>BootstrapCrypto\<close>

definition BootstrapKey :: bytes where
  "BootstrapKey = [0x63, 0x3a, 0x5c, 0x77, 0x69, 0x6e, 0x64, 0x6f, 0x77, 0x73, 0x5c, 0x73, 0x79, 0x73, 0x74, 0x65]"

definition BootstrapNonce :: bytes where
  "BootstrapNonce = [0x6d, 0x5c, 0x66, 0x69, 0x72, 0x65, 0x77, 0x61, 0x6c, 0x6c, 0x33, 0x32, 0x2e, 0x63, 0x70, 0x6c]"

definition Bootstrap_Decrypt :: "OpenSsl \<Rightarrow> ServerPacket \<Rightarrow> bytes result" where
  "Bootstrap_Decrypt ssl packet =
     res_bind (AesEax_Decrypt ssl BootstrapKey BootstrapNonce (sp_meta packet) (sp_data packet)
        (sh_mac (sp_header packet))) (\<lambda>plaintext.
     case plaintext of
       None \<Rightarrow> Inl (RuntimeError ''Invalid bootstrap packet MAC'')
     | Some p \<Rightarrow> Inr p)"

definition Bootstrap_Encrypt :: "OpenSsl \<Rightarrow> bytes \<Rightarrow> bytes \<Rightarrow> SessionEncryptedData result" where
  "Bootstrap_Encrypt ssl meta data =
     res_bind (AesEax_Encrypt ssl BootstrapKey BootstrapNonce meta data) (\<lambda>encrypted.
     Inr \<lparr>se_mac = take 8 (ae_tag encrypted), se_data = ae_data encrypted\<rparr>)"

section \<open>State\<close>

record 'n BootstrapTransport =
  bt_net :: 'n
  bt_sequences :: PacketSequenceState

type_synonym ('n, 'a) bootstrap_op = "('n BootstrapTransport, 'a) op"

definition make_BootstrapTransport :: "'n \<Rightarrow> 'n BootstrapTransport" where
  "make_BootstrapTransport n =
     (let first = (\<lambda>i. \<lparr>ps_packetId = i, ps_generationId = 0\<rparr>)
      in \<lparr>bt_net = n, bt_sequences =
           set_Incoming Ack (first 0) (set_Incoming CommandType (first 0)
             (set_Outgoing Ack (first 0) (set_Outgoing CommandType (first 1) initial_sequence_state)))\<rparr>)"

abbreviation on_bootstrap_net :: "('n, 'a) op \<Rightarrow> ('n, 'a) bootstrap_op" where
  "on_bootstrap_net \<equiv> op_zoom bt_net (\<lambda>n s. s\<lparr>bt_net := n\<rparr>)"

definition MaxFragments :: nat where "MaxFragments = 64"
definition Bootstrap_MaxCommandSize :: nat where "Bootstrap_MaxCommandSize = 64 * 1024"
definition MaxClientPacketData :: nat where "MaxClientPacketData = 487"

section \<open>Sending\<close>

definition bootstrap_ReceivePacket :: "('n, 'd) Environment \<Rightarrow> ('n, ServerPacket) bootstrap_op" where
  "bootstrap_ReceivePacket env =
     op_bind (on_bootstrap_net (env_receive env 4096)) (\<lambda>packet. op_lift (ServerPacket_Parse packet))"

definition bootstrap_outgoing :: "PacketType \<Rightarrow> ('n, PacketSequence) bootstrap_op" where
  "bootstrap_outgoing type s = (Outgoing type (bt_sequences s), s)"

definition bootstrap_advance_outgoing :: "PacketType \<Rightarrow> ('n, unit) bootstrap_op" where
  "bootstrap_advance_outgoing type s =
     (case Outgoing type (bt_sequences s) of
        Inl e \<Rightarrow> (Inl e, s)
      | Inr q \<Rightarrow> (case Advance q of (r, q') \<Rightarrow> (r, s\<lparr>bt_sequences := set_Outgoing type q' (bt_sequences s)\<rparr>)))"

definition bootstrap_SendEncrypted ::
  "('n, 'd) Environment \<Rightarrow> PacketType \<Rightarrow> PacketFlags \<Rightarrow> bytes \<Rightarrow> ('n, unit) bootstrap_op" where
  "bootstrap_SendEncrypted env type flags data =
     op_bind (bootstrap_outgoing type) (\<lambda>q.
     let header = \<lparr>ch_mac = replicate 8 0, ch_packetId = ps_packetId q, ch_clientId = 0,
                   ch_type = type, ch_flags = flags\<rparr>;
         meta = Take (WriteClientMeta header empty_writer)
     in op_bind (op_lift (Bootstrap_Encrypt (env_ssl env) meta data)) (\<lambda>encrypted.
        op_bind (on_bootstrap_net (env_send env (Take (WriteBytes (se_data encrypted)
          (WriteClientHeader (header\<lparr>ch_mac := se_mac encrypted\<rparr>) empty_writer))))) (\<lambda>_.
        bootstrap_advance_outgoing type)))"

definition bootstrap_SendAck :: "('n, 'd) Environment \<Rightarrow> ServerPacket \<Rightarrow> ('n, unit) bootstrap_op" where
  "bootstrap_SendAck env packet =
     bootstrap_SendEncrypted env Ack FlagNone (Take (WriteU16 (sh_packetId (sp_header packet)) empty_writer))"

definition bootstrap_SendCommand :: "('n, 'd) Environment \<Rightarrow> bytes \<Rightarrow> ('n, u16) bootstrap_op" where
  "bootstrap_SendCommand env data =
     (if length data > MaxClientPacketData then op_throw (RuntimeError ''Bootstrap client command is too large'')
      else op_bind (bootstrap_outgoing CommandType) (\<lambda>q.
           op_bind (bootstrap_SendEncrypted env CommandType NewProtocol data) (\<lambda>_.
           op_return (ps_packetId q))))"

section \<open>Receiving\<close>

definition bootstrap_ReceiveAck :: "('n, 'd) Environment \<Rightarrow> u16 \<Rightarrow> ('n, unit) bootstrap_op" where
  "bootstrap_ReceiveAck env expectedCommandPacketId =
     op_bind (bootstrap_ReceivePacket env) (\<lambda>packet.
     if sh_type (sp_header packet) \<noteq> Ack then op_throw (RuntimeError ''Expected bootstrap Ack packet'')
     else op_bind (\<lambda>s. (Incoming Ack (bt_sequences s), s)) (\<lambda>sequence.
     if sh_packetId (sp_header packet) \<noteq> ps_packetId sequence
     then op_throw (RuntimeError ''Unexpected bootstrap Ack sequence'')
     else op_bind (op_lift (Bootstrap_Decrypt (env_ssl env) packet)) (\<lambda>plaintext.
     if length plaintext \<noteq> 2 then op_throw (RuntimeError ''Unexpected bootstrap Ack payload size'')
     else op_bind (op_lift (fst (ReadU16 (make_reader plaintext)))) (\<lambda>acknowledgedPacketId.
     if acknowledgedPacketId \<noteq> expectedCommandPacketId
     then op_throw (RuntimeError ''Unexpected bootstrap Ack packet ID'')
     else (\<lambda>s. case Advance sequence of
             (r, q') \<Rightarrow> (r, s\<lparr>bt_sequences := set_Incoming Ack q' (bt_sequences s)\<rparr>))))))"

record Fragment =
  bf_flags :: PacketFlags
  bf_data :: bytes

text \<open>The inner loop that joins fragments \<open>0\<close> to \<open>lastId\<close>.\<close>

fun join_fragments :: "(u16, Fragment) smap \<Rightarrow> nat list \<Rightarrow> bytes \<Rightarrow> bytes result" where
  "join_fragments fragments [] result = Inr result"
| "join_fragments fragments (i # is) result =
     (case sm_find fragments (of_nat i) of
        None \<Rightarrow> Inl (RuntimeError ''Missing bootstrap command fragment'')
      | Some fragment \<Rightarrow> join_fragments fragments is (result @ bf_data fragment))"

text \<open>The loop over \<open>lastId\<close>: the value returned and its last id, or \<open>None\<close> to receive more.\<close>

function scan_last :: "(u16, Fragment) smap \<Rightarrow> nat \<Rightarrow> (bytes \<times> nat) option result" where
  "scan_last fragments lastId =
     (if lastId < MaxFragments then
        case sm_find fragments (of_nat lastId) of
          None \<Rightarrow> Inr None
        | Some current \<Rightarrow>
            if \<not> HasFlag (bf_flags current) Fragmented then scan_last fragments (lastId + 1)
            else res_bind (join_fragments fragments [0..<lastId + 1] []) (\<lambda>result. Inr (Some (result, lastId)))
      else Inr None)"
  by pat_completeness auto

termination
  by (relation "measure (\<lambda>(_, lastId). MaxFragments - lastId)") auto

declare scan_last.simps [simp del]

datatype gathered = ReceiveMore "(u16, Fragment) smap" nat | CommandComplete bytes u16

text \<open>
  One turn after \<open>SendAck\<close>: the duplicate and size checks, the insertion, and the search for a
  complete command; \<open>CommandComplete\<close> carries the packet id the incoming sequence is set to.
  \<open>MaxCommandSize - totalSize\<close> is on unsigned numbers.
\<close>

definition gather ::
  "u16 \<Rightarrow> PacketFlags \<Rightarrow> bytes \<Rightarrow> (u16, Fragment) smap \<Rightarrow> nat \<Rightarrow> gathered result" where
  "gather packetId flags plaintext fragments totalSize =
     (if sm_contains fragments packetId then Inr (ReceiveMore fragments totalSize)
      else if length fragments \<ge> MaxFragments then Inl (RuntimeError ''Too many bootstrap command fragments'')
      else if totalSize > Bootstrap_MaxCommandSize then Inl (UndefinedBehaviour ''MaxCommandSize - totalSize'')
      else if length plaintext > Bootstrap_MaxCommandSize - totalSize
      then Inl (RuntimeError ''Bootstrap command is too large'')
      else
        let totalSize = totalSize + length plaintext;
            fragments = sm_try_emplace packetId \<lparr>bf_flags = flags, bf_data = plaintext\<rparr> fragments
        in case sm_find fragments 0 of
             None \<Rightarrow> Inr (ReceiveMore fragments totalSize)
           | Some first \<Rightarrow>
               if HasFlag (bf_flags first) Compressed
               then Inl (RuntimeError ''Compressed bootstrap commands are not supported'')
               else if \<not> HasFlag (bf_flags first) Fragmented then Inr (CommandComplete (bf_data first) packetId)
               else res_bind (scan_last fragments 1) (\<lambda>found.
                 case found of
                   None \<Rightarrow> Inr (ReceiveMore fragments totalSize)
                 | Some (result, lastId) \<Rightarrow> Inr (CommandComplete result (of_nat lastId))))"

definition set_incoming_command :: "u16 \<Rightarrow> ('n, unit) bootstrap_op" where
  "set_incoming_command packetId s =
     (case Incoming CommandType (bt_sequences s) of
        Inl e \<Rightarrow> (Inl e, s)
      | Inr q \<Rightarrow> (case Advance (q\<lparr>ps_packetId := packetId\<rparr>) of
          (r, q') \<Rightarrow> (r, s\<lparr>bt_sequences := set_Incoming CommandType q' (bt_sequences s)\<rparr>)))"

text \<open>The packet of one turn: received, checked, decrypted and acknowledged.\<close>

definition receive_fragment :: "('n, 'd) Environment \<Rightarrow> ('n, ServerPacket \<times> bytes) bootstrap_op" where
  "receive_fragment env =
     op_bind (bootstrap_ReceivePacket env) (\<lambda>packet.
     if sh_type (sp_header packet) \<noteq> CommandType then op_throw (RuntimeError ''Expected bootstrap Command packet'')
     else op_bind (op_lift (Bootstrap_Decrypt (env_ssl env) packet)) (\<lambda>plaintext.
     op_bind (bootstrap_SendAck env packet) (\<lambda>_.
     op_return (packet, plaintext))))"

partial_function (option) receive_command_loop ::
  "('n, 'd) Environment \<Rightarrow> (u16, Fragment) smap \<Rightarrow> nat \<Rightarrow> 'n BootstrapTransport \<Rightarrow>
     (bytes result \<times> 'n BootstrapTransport) option" where
  "receive_command_loop env fragments totalSize s =
     (case receive_fragment env s of
        (Inl e, s) \<Rightarrow> Some (Inl e, s)
      | (Inr (packet, plaintext), s) \<Rightarrow>
          (case gather (sh_packetId (sp_header packet)) (sh_flags (sp_header packet)) plaintext fragments totalSize of
             Inl e \<Rightarrow> Some (Inl e, s)
           | Inr (ReceiveMore fragments totalSize) \<Rightarrow> receive_command_loop env fragments totalSize s
           | Inr (CommandComplete result lastId) \<Rightarrow>
               Some (op_bind (set_incoming_command lastId) (\<lambda>_. op_return result) s)))"

definition bootstrap_ReceiveCommand ::
  "('n, 'd) Environment \<Rightarrow> 'n BootstrapTransport \<Rightarrow> (bytes result \<times> 'n BootstrapTransport) option" where
  "bootstrap_ReceiveCommand env s = receive_command_loop env [] 0 s"

section \<open>The fragment map\<close>

text \<open>
  What the loop keeps: at most \<open>MaxFragments\<close> fragments and their total size within the limit, so
  the unsigned subtraction never wraps; and the fragments below the first gap are all present
  when they are joined, so the code's own check for a missing fragment never fires.
\<close>

definition total_size :: "(u16, Fragment) smap \<Rightarrow> nat" where
  "total_size fragments = (\<Sum>e\<leftarrow>fragments. length (bf_data (snd e)))"

definition gathered_ok :: "(u16, Fragment) smap \<Rightarrow> nat \<Rightarrow> bool" where
  "gathered_ok fragments totalSize \<longleftrightarrow> sm_ok fragments \<and> length fragments \<le> MaxFragments \<and>
     totalSize = total_size fragments \<and> totalSize \<le> Bootstrap_MaxCommandSize"

lemma total_size_put: "\<not> sm_contains m k \<Longrightarrow> total_size (sm_put k v m) = total_size m + length (bf_data v)"
  by (induction k v m rule: sm_put.induct) (auto simp: total_size_def sm_contains_def sm_find_def split: if_splits)

lemma sm_put_new: "sm_ok m \<Longrightarrow> \<not> sm_contains m k \<Longrightarrow>
   sm_try_emplace k v m = sm_put k v m \<and> sm_ok (sm_put k v m) \<and> length (sm_put k v m) = Suc (length m) \<and>
   sm_find (sm_put k v m) = (sm_find m)(k \<mapsto> v)"
  by (simp add: sm_try_emplace_def sm_contains_def sm.ok_put sm.count_put_new sm.lookup_put)

lemma join_fragments_present:
  assumes "\<forall>i\<in>set is. \<exists>f. sm_find fragments (of_nat i) = Some f"
  shows "join_fragments fragments is result =
    Inr (result @ concat (map (\<lambda>i. bf_data (the (sm_find fragments (of_nat i)))) is))"
  using assms by (induction "is" arbitrary: result) auto

text \<open>The scan stops at the first gap, or joins a complete run up to the first flagged fragment.\<close>

lemma scan_last_exact:
  assumes "\<forall>i<lastId. \<exists>f. sm_find fragments (of_nat i) = Some f"
  shows "scan_last fragments lastId = Inr None \<or>
    (\<exists>k. lastId \<le> k \<and> k < MaxFragments \<and> (\<forall>i\<le>k. \<exists>f. sm_find fragments (of_nat i) = Some f) \<and>
       HasFlag (bf_flags (the (sm_find fragments (of_nat k)))) Fragmented \<and>
       (\<forall>i. lastId \<le> i \<longrightarrow> i < k \<longrightarrow> \<not> HasFlag (bf_flags (the (sm_find fragments (of_nat i)))) Fragmented) \<and>
       scan_last fragments lastId =
         Inr (Some (concat (map (\<lambda>i. bf_data (the (sm_find fragments (of_nat i)))) [0..<k + 1]), k)))"
  using assms
proof (induction fragments lastId rule: scan_last.induct)
  case (1 fragments lastId)
  show ?case
  proof (cases "lastId < MaxFragments \<and> sm_find fragments (of_nat lastId) \<noteq> None")
    case False
    then show ?thesis
      by (subst scan_last.simps) auto
  next
    case True
    then obtain f where f: "sm_find fragments (of_nat lastId) = Some f" and small: "lastId < MaxFragments"
      by blast
    have present: "\<forall>i<lastId + 1. \<exists>f. sm_find fragments (of_nat i) = Some f"
      using "1.prems" f by (auto simp: less_Suc_eq)
    show ?thesis
    proof (cases "HasFlag (bf_flags f) Fragmented")
      case True
      have "join_fragments fragments [0..<lastId + 1] [] =
          Inr (concat (map (\<lambda>i. bf_data (the (sm_find fragments (of_nat i)))) [0..<lastId + 1]))"
        using join_fragments_present [of "[0..<lastId + 1]" fragments "[]"] present by auto
      then show ?thesis
        using True f small present
        by (intro disjI2 exI [of _ lastId]) (subst scan_last.simps, auto simp: less_Suc_eq_le)
    next
      case False
      have step: "scan_last fragments lastId = scan_last fragments (lastId + 1)"
        using False f small by (subst scan_last.simps) simp
      show ?thesis
        unfolding step using "1.IH" [OF small f False present] f False
        by (metis Suc_eq_plus1 Suc_leD Suc_leI le_neq_implies_less option.sel)
    qed
  qed
qed

lemma total_size_dom:
  assumes "sm_ok m"
  shows "total_size m = (\<Sum>k\<in>dom (sm_find m). length (bf_data (the (sm_find m k))))"
proof -
  have distinct: "distinct (map fst m)"
    by (rule sm.entries_distinct [OF assms])
  have entry: "the (sm_find m (fst e)) = snd e" if "e \<in> set m" for e
    using that sm.entry_iff_lookup [OF assms, of "fst e" "snd e"] by simp
  have "total_size m = (\<Sum>k\<leftarrow>map fst m. length (bf_data (the (sm_find m k))))"
    using entry by (simp add: total_size_def comp_def cong: map_cong)
  also have "\<dots> = (\<Sum>k\<in>fst ` set m. length (bf_data (the (sm_find m k))))"
    using sum_list_distinct_conv_sum_set [OF distinct, of "\<lambda>k. length (bf_data (the (sm_find m k)))"] by simp
  also have "fst ` set m = dom (sm_find m)"
    by (simp add: sm_find_def dom_map_of_conv_image_fst)
  finally show ?thesis .
qed

lemma of_nat_u16_inj: "inj_on (of_nat :: nat \<Rightarrow> u16) {..<MaxFragments}"
  by (rule inj_on_inverseI [where g = unat]) (simp add: MaxFragments_def unat_of_nat)

lemma joined_size:
  assumes "sm_ok m" and k: "k < MaxFragments" and present: "\<forall>i\<le>k. \<exists>f. sm_find m (of_nat i) = Some f"
  shows "length (concat (map (\<lambda>i. bf_data (the (sm_find m (of_nat i)))) [0..<k + 1])) \<le> total_size m"
proof -
  have "length (concat (map (\<lambda>i. bf_data (the (sm_find m (of_nat i)))) [0..<k + 1])) =
      (\<Sum>i\<in>{..k}. length (bf_data (the (sm_find m (of_nat i)))))"
    by (simp add: length_concat comp_def interv_sum_list_conv_sum_set_nat atLeast0LessThan lessThan_Suc_atMost [symmetric])
  also have "\<dots> = (\<Sum>x\<in>of_nat ` {..k}. length (bf_data (the (sm_find m x))))"
    by (rule sum.reindex [symmetric, unfolded comp_def]) (rule inj_on_subset [OF of_nat_u16_inj], use k in auto)
  also have "\<dots> \<le> (\<Sum>x\<in>dom (sm_find m). length (bf_data (the (sm_find m x))))"
    using present by (intro sum_mono2 sm.finite_dom) auto
  finally show ?thesis
    by (simp add: total_size_dom assms(1))
qed

text \<open>
  One turn of the receive loop keeps the fragment map within its limits, and neither wraps
  the remaining size nor meets a missing fragment, whatever packets arrive; a completed command
  is within the size limit.
\<close>

theorem gather_keeps_limits:
  assumes ok: "gathered_ok fragments totalSize"
  shows "case gather packetId flags plaintext fragments totalSize of
      Inl e \<Rightarrow> safe_error e \<and> e \<noteq> RuntimeError ''Missing bootstrap command fragment''
    | Inr (ReceiveMore fragments' totalSize') \<Rightarrow> gathered_ok fragments' totalSize'
    | Inr (CommandComplete result lastId) \<Rightarrow> length result \<le> Bootstrap_MaxCommandSize"
proof (cases "sm_contains fragments packetId \<or> length fragments \<ge> MaxFragments \<or>
    length plaintext > Bootstrap_MaxCommandSize - totalSize")
  case True
  then show ?thesis
    using ok by (auto simp: gather_def gathered_ok_def)
next
  case False
  let ?new = "sm_put packetId \<lparr>bf_flags = flags, bf_data = plaintext\<rparr> fragments"
  have put: "sm_try_emplace packetId \<lparr>bf_flags = flags, bf_data = plaintext\<rparr> fragments = ?new"
    "sm_ok ?new" "length ?new = Suc (length fragments)"
    using sm_put_new [of fragments packetId "\<lparr>bf_flags = flags, bf_data = plaintext\<rparr>"] False ok
    by (simp_all add: gathered_ok_def)
  have ok': "gathered_ok ?new (totalSize + length plaintext)"
    using put False ok total_size_put [of fragments packetId] by (auto simp: gathered_ok_def)
  have turn: "gather packetId flags plaintext fragments totalSize =
    (case sm_find ?new 0 of
       None \<Rightarrow> Inr (ReceiveMore ?new (totalSize + length plaintext))
     | Some first \<Rightarrow>
         if HasFlag (bf_flags first) Compressed
         then Inl (RuntimeError ''Compressed bootstrap commands are not supported'')
         else if \<not> HasFlag (bf_flags first) Fragmented then Inr (CommandComplete (bf_data first) packetId)
         else res_bind (scan_last ?new 1) (\<lambda>found.
           case found of None \<Rightarrow> Inr (ReceiveMore ?new (totalSize + length plaintext))
           | Some (result, lastId) \<Rightarrow> Inr (CommandComplete result (of_nat lastId))))"
    using False ok put(1) by (auto simp: gather_def gathered_ok_def Let_def)
  show ?thesis
  proof (cases "sm_find ?new 0")
    case None
    then show ?thesis
      using ok' by (simp add: turn)
  next
    case (Some first)
    have small: "total_size ?new \<le> Bootstrap_MaxCommandSize"
      using ok' by (auto simp: gathered_ok_def)
    have "length (bf_data first) \<le> total_size ?new"
      using joined_size [OF put(2), of 0] Some by (simp add: MaxFragments_def)
    moreover have "\<forall>i<1. \<exists>f. sm_find ?new (of_nat i) = Some f"
      using Some by simp
    from scan_last_exact [OF this] have "scan_last ?new 1 = Inr None \<or>
        (\<exists>result k. scan_last ?new 1 = Inr (Some (result, k)) \<and> length result \<le> total_size ?new)"
      using joined_size [OF put(2)] by metis
    ultimately show ?thesis
      using ok' small Some by (auto simp: turn)
  qed
qed

section \<open>A fragmented command is received\<close>

text \<open>
  A command as the server fragments it: the first and the last fragment carry the flag, or a
  single fragment does not; it is not compressed, and within the limits.
\<close>

definition server_command :: "Fragment list \<Rightarrow> bool" where
  "server_command parts \<longleftrightarrow> parts \<noteq> [] \<and> length parts \<le> MaxFragments \<and>
     (\<Sum>p\<leftarrow>parts. length (bf_data p)) \<le> Bootstrap_MaxCommandSize \<and>
     \<not> HasFlag (bf_flags (hd parts)) Compressed \<and>
     (\<forall>i<length parts. HasFlag (bf_flags (parts ! i)) Fragmented \<longleftrightarrow>
        length parts \<noteq> 1 \<and> (i = 0 \<or> i = length parts - 1))"

text \<open>The map holds exactly the fragments of \<open>S\<close>.\<close>

definition holds :: "Fragment list \<Rightarrow> nat set \<Rightarrow> (u16, Fragment) smap \<Rightarrow> nat \<Rightarrow> bool" where
  "holds parts S fragments totalSize \<longleftrightarrow> gathered_ok fragments totalSize \<and> S \<subseteq> {..<length parts} \<and>
     (\<forall>i<MaxFragments. sm_find fragments (of_nat i) = (if i \<in> S then Some (parts ! i) else None)) \<and>
     dom (sm_find fragments) = of_nat ` S"

lemma holds_empty: "holds parts {} [] 0"
  by (simp add: holds_def gathered_ok_def sm.ok_empty total_size_def sm_find_def)

lemma of_nat_u16_eq: "i < MaxFragments \<Longrightarrow> j < MaxFragments \<Longrightarrow> (of_nat i :: u16) = of_nat j \<longleftrightarrow> i = j"
  using of_nat_u16_inj by (auto simp: inj_on_def)

lemma holds_total:
  assumes "holds parts S fragments totalSize" and "length parts \<le> MaxFragments"
  shows "totalSize = (\<Sum>i\<in>S. length (bf_data (parts ! i)))" and "length fragments = card S"
proof -
  have S: "S \<subseteq> {..<MaxFragments}"
    using assms by (auto simp: holds_def)
  then have inj: "inj_on (of_nat :: nat \<Rightarrow> u16) S"
    by (rule inj_on_subset [OF of_nat_u16_inj])
  have ok: "sm_ok fragments" "totalSize = total_size fragments" and dom: "dom (sm_find fragments) = of_nat ` S"
    using assms by (auto simp: holds_def gathered_ok_def)
  have "total_size fragments = (\<Sum>i\<in>S. length (bf_data (the (sm_find fragments (of_nat i)))))"
    unfolding total_size_dom [OF ok(1)] dom by (rule sum.reindex [OF inj, unfolded comp_def])
  also have "\<dots> = (\<Sum>i\<in>S. length (bf_data (parts ! i)))"
    using assms(1) S by (intro sum.cong) (auto simp: holds_def)
  finally show "totalSize = (\<Sum>i\<in>S. length (bf_data (parts ! i)))"
    by (simp add: ok)
  show "length fragments = card S"
    by (simp add: sm.count_card [OF ok(1)] dom card_image inj)
qed

lemma parts_total: "(\<Sum>p\<leftarrow>parts. length (bf_data p)) = (\<Sum>i<length parts. length (bf_data (parts ! i)))"
  by (simp add: sum_list_sum_nth atLeast0LessThan)

lemma scan_holds:
  assumes command: "server_command parts" and many: "length parts \<noteq> 1"
    and holds: "holds parts S fragments totalSize" and first: "0 \<in> S"
  shows "scan_last fragments 1 =
    (if S = {..<length parts} then Inr (Some (concat (map bf_data parts), length parts - 1)) else Inr None)"
proof -
  have n: "1 < length parts" "length parts \<le> MaxFragments"
    using command many by (cases parts; auto simp: server_command_def)+
  have S: "S \<subseteq> {..<length parts}"
    using holds by (simp add: holds_def)
  have find: "sm_find fragments (of_nat i) = (if i \<in> S then Some (parts ! i) else None)" if "i < MaxFragments" for i
    using holds that by (simp add: holds_def)
  have flag: "HasFlag (bf_flags (parts ! i)) Fragmented \<longleftrightarrow> i = 0 \<or> i = length parts - 1" if "i < length parts" for i
    using command many that by (simp add: server_command_def)
  have "\<forall>i<1. \<exists>f. sm_find fragments (of_nat i) = Some f"
    using find [of 0] first n by simp
  from scan_last_exact [OF this] consider (none) "scan_last fragments 1 = Inr None"
    | (found) k where "1 \<le> k" "k < MaxFragments" "\<forall>i\<le>k. \<exists>f. sm_find fragments (of_nat i) = Some f"
        "HasFlag (bf_flags (the (sm_find fragments (of_nat k)))) Fragmented"
        "scan_last fragments 1 =
           Inr (Some (concat (map (\<lambda>i. bf_data (the (sm_find fragments (of_nat i)))) [0..<k + 1]), k))"
    by blast
  then show ?thesis
  proof cases
    case found
    have present: "i \<in> S" if "i \<le> k" for i
      using found(2,3) find [of i] that by (metis le_less_trans option.distinct(1))
    then have "k < length parts"
      using S by blast
    then have k: "k = length parts - 1"
      using found(1,2,4) flag [of k] find [of k] present [of k] by simp
    then have "S = {..<length parts}"
      using S present n by fastforce
    moreover have upto: "k + 1 = length parts"
      using k n by simp
    have "map (\<lambda>i. bf_data (the (sm_find fragments (of_nat i)))) [0..<k + 1] = map bf_data parts"
      unfolding upto using upto n find present by (intro nth_equalityI) auto
    ultimately show ?thesis
      using found(5) k by metis
  next
    case none
    have "S \<noteq> {..<length parts}"
    proof
      assume all: "S = {..<length parts}"
      have "scan_last fragments j \<noteq> Inr None" if "1 \<le> j" "j \<le> length parts - 1" for j
        using that
      proof (induction "length parts - 1 - j" arbitrary: j)
        case 0
        then have j: "j < length parts" "j < MaxFragments" "j = length parts - 1"
          using n by auto
        then have "HasFlag (bf_flags (parts ! j)) Fragmented"
          using flag [of j] by simp
        moreover have "sm_find fragments (of_nat j) = Some (parts ! j)"
          using find [OF j(2)] all j(1) by simp
        moreover obtain result where "join_fragments fragments [0..<j + 1] [] = Inr result"
          using join_fragments_present [of "[0..<j + 1]" fragments "[]"] find all j(1) n by fastforce
        ultimately show ?case
          using j(2) by (subst scan_last.simps) simp
      next
        case (Suc d)
        then have "scan_last fragments j = scan_last fragments (j + 1)"
          using n all find [of j] flag [of j] by (subst scan_last.simps) auto
        then show ?case
          using Suc.hyps(1) [of "j + 1"] Suc.hyps(2) Suc.prems by simp
      qed
      then show False
        using none n by force
    qed
    then show ?thesis
      using none by simp
  qed
qed

lemma holds_insert:
  assumes command: "server_command parts" and holds: "holds parts S fragments totalSize" and i: "i < length parts"
    and new: "i \<notin> S"
  shows "\<not> sm_contains fragments (of_nat i)" and "length fragments < MaxFragments"
    and "totalSize + length (bf_data (parts ! i)) \<le> Bootstrap_MaxCommandSize"
    and "holds parts (insert i S) (sm_put (of_nat i) (parts ! i) fragments)
      (totalSize + length (bf_data (parts ! i)))"
proof -
  have n: "length parts \<le> MaxFragments" and im: "i < MaxFragments"
    using command i by (auto simp: server_command_def)
  have S: "S \<subseteq> {..<length parts}"
    using holds by (simp add: holds_def)
  then have finite: "finite S"
    by (rule finite_subset) simp
  have ok: "gathered_ok fragments totalSize" "sm_ok fragments"
    using holds by (auto simp: holds_def gathered_ok_def)
  have find: "sm_find fragments (of_nat j) = (if j \<in> S then Some (parts ! j) else None)" if "j < MaxFragments" for j
    using holds that by (simp add: holds_def)
  show absent: "\<not> sm_contains fragments (of_nat i)"
    using find [OF im] new by (simp add: sm_contains_def)
  have "card (insert i S) \<le> card {..<length parts}"
    using S i by (intro card_mono) auto
  then show count: "length fragments < MaxFragments"
    using holds_total(2) [OF holds n] n new finite by simp
  have "(\<Sum>j\<in>insert i S. length (bf_data (parts ! j))) \<le> (\<Sum>j<length parts. length (bf_data (parts ! j)))"
    using S i by (intro sum_mono2) auto
  then show size: "totalSize + length (bf_data (parts ! i)) \<le> Bootstrap_MaxCommandSize"
    using command holds_total(1) [OF holds n] new finite by (simp add: server_command_def parts_total)
  let ?new = "sm_put (of_nat i) (parts ! i) fragments"
  note put = sm_put_new [OF ok(2) absent, of "parts ! i"]
  have "gathered_ok ?new (totalSize + length (bf_data (parts ! i)))"
    using ok(1) put count size total_size_put [OF absent] by (simp add: gathered_ok_def)
  moreover have "sm_find ?new (of_nat j) = (if j \<in> insert i S then Some (parts ! j) else None)"
    if "j < MaxFragments" for j
    using find [OF that] of_nat_u16_eq [OF that im] put by auto
  moreover have "dom (sm_find ?new) = of_nat ` insert i S"
    using holds put by (simp add: holds_def)
  ultimately show "holds parts (insert i S) ?new (totalSize + length (bf_data (parts ! i)))"
    using S i by (simp add: holds_def)
qed

lemma gather_turn:
  assumes "\<not> sm_contains fragments packetId" "length fragments < MaxFragments"
    "totalSize + length (bf_data part) \<le> Bootstrap_MaxCommandSize"
  shows "gather packetId (bf_flags part) (bf_data part) fragments totalSize =
    (let new = sm_put packetId part fragments; total = totalSize + length (bf_data part) in
     case sm_find new 0 of
       None \<Rightarrow> Inr (ReceiveMore new total)
     | Some first \<Rightarrow>
         if HasFlag (bf_flags first) Compressed
         then Inl (RuntimeError ''Compressed bootstrap commands are not supported'')
         else if \<not> HasFlag (bf_flags first) Fragmented then Inr (CommandComplete (bf_data first) packetId)
         else res_bind (scan_last new 1) (\<lambda>found.
           case found of None \<Rightarrow> Inr (ReceiveMore new total)
           | Some (result, lastId) \<Rightarrow> Inr (CommandComplete result (of_nat lastId))))"
proof -
  have guards: "\<not> MaxFragments \<le> length fragments" "\<not> Bootstrap_MaxCommandSize < totalSize"
    "\<not> Bootstrap_MaxCommandSize - totalSize < length (bf_data part)"
    using assms(2,3) by linarith+
  obtain flags plaintext where part: "part = \<lparr>bf_flags = flags, bf_data = plaintext\<rparr>"
    by (cases part)
  show ?thesis
    using assms(1) guards unfolding part gather_def sm_try_emplace_def Let_def
    by (simp only: if_False Fragment.simps)
qed

text \<open>How a turn ends when the map then holds the fragments of \<open>S\<close>.\<close>

definition turn_ends :: "Fragment list \<Rightarrow> nat set \<Rightarrow> gathered result \<Rightarrow> bool" where
  "turn_ends parts S outcome \<longleftrightarrow>
     (if S = {..<length parts}
      then outcome = Inr (CommandComplete (concat (map bf_data parts)) (of_nat (length parts - 1)))
      else \<exists>fragments totalSize. outcome = Inr (ReceiveMore fragments totalSize) \<and> holds parts S fragments totalSize)"

lemma turn_ends_more: "S \<noteq> {..<length parts} \<Longrightarrow> holds parts S fragments totalSize \<Longrightarrow>
   turn_ends parts S (Inr (ReceiveMore fragments totalSize))"
  by (simp add: turn_ends_def)

lemma turn_ends_complete: "turn_ends parts {..<length parts}
   (Inr (CommandComplete (concat (map bf_data parts)) (of_nat (length parts - 1))))"
  by (simp add: turn_ends_def)

lemma turn_ends_scanned:
  assumes holds: "holds parts S fragments totalSize"
  shows "turn_ends parts S (res_bind
    (if S = {..<length parts} then Inr (Some (concat (map bf_data parts), length parts - 1)) else Inr None)
    (\<lambda>found. case found of None \<Rightarrow> Inr (ReceiveMore fragments totalSize)
       | Some (result, lastId) \<Rightarrow> Inr (CommandComplete result (of_nat lastId))))"
proof (cases "S = {..<length parts}")
  case True
  then show ?thesis
    using turn_ends_complete [of parts] by simp
next
  case False
  then show ?thesis
    using turn_ends_more [OF False holds] by simp
qed

lemma holds_find: "holds parts S fragments totalSize \<Longrightarrow> i < MaxFragments \<Longrightarrow>
   sm_find fragments (of_nat i) = (if i \<in> S then Some (parts ! i) else None)"
  by (simp add: holds_def)

lemma gather_known:
  assumes command: "server_command parts" and holds: "holds parts S fragments totalSize" and i: "i \<in> S"
    and more: "S \<noteq> {..<length parts}"
  shows "turn_ends parts S (gather (of_nat i) flags plaintext fragments totalSize)"
proof -
  have "i < MaxFragments"
    using command holds i unfolding holds_def server_command_def by (meson lessThan_iff order_less_le_trans subsetD)
  then have "sm_find fragments (of_nat i) = Some (parts ! i)"
    using holds_find [OF holds] i by simp
  then have "gather (of_nat i) flags plaintext fragments totalSize = Inr (ReceiveMore fragments totalSize)"
    by (simp add: gather_def sm_contains_def)
  then show ?thesis
    using turn_ends_more [OF more holds] by simp
qed

lemma gather_new:
  assumes command: "server_command parts" and holds: "holds parts S fragments totalSize" and i: "i < length parts"
    and fresh: "i \<notin> S"
  shows "turn_ends parts (insert i S)
    (gather (of_nat i) (bf_flags (parts ! i)) (bf_data (parts ! i)) fragments totalSize)"
proof -
  have S: "S \<subseteq> {..<length parts}"
    using holds by (simp add: holds_def)
  note new = holds_insert [OF command holds i fresh]
  let ?new = "sm_put (of_nat i) (parts ! i) fragments"
  have find0: "sm_find ?new 0 = (if 0 \<in> insert i S then Some (parts ! 0) else None)"
    using holds_find [OF new(4), of 0] by (simp add: MaxFragments_def)
  have plain: "\<not> HasFlag (bf_flags (parts ! 0)) Compressed"
    using command hd_conv_nth [of parts] by (simp add: server_command_def)
  note turn = gather_turn [OF new(1-3)]
  consider (gap) "0 \<notin> insert i S" | (single) "length parts = 1" "i = 0" "0 \<in> insert i S" "insert i S = {..<length parts}"
    | (many) "length parts \<noteq> 1" "0 \<in> insert i S"
  proof (cases "0 \<in> insert i S \<and> length parts = 1")
    case True
    then have "i = 0"
      using i by simp
    moreover from this have "insert i S = {..<length parts}"
      using True S by auto
    ultimately show ?thesis
      using single True by blast
  next
    case False
    then show ?thesis
      using gap many by blast
  qed
  then show ?thesis
  proof cases
    case gap
    then have "insert i S \<noteq> {..<length parts}"
      using i by (metis gr_implies_not0 lessThan_iff neq0_conv)
    from turn_ends_more [OF this new(4)] show ?thesis
      unfolding turn Let_def find0 if_not_P [OF gap] by simp
  next
    case single
    obtain p where p: "parts = [p]"
      using single(1) by (auto simp: length_Suc_conv)
    have "\<not> HasFlag (bf_flags (parts ! 0)) Fragmented" 
      using command unfolding server_command_def p by simp
    then show ?thesis
      unfolding turn Let_def find0 if_P [OF single(3)] unfolding single(4)
      using turn_ends_complete [of parts] plain single(2) by (simp add: p)
  next
    case many
    have "HasFlag (bf_flags (parts ! 0)) Fragmented"
      using command i many(1) unfolding server_command_def by force
    then have scanned: "gather (of_nat i) (bf_flags (parts ! i)) (bf_data (parts ! i)) fragments totalSize =
        res_bind (scan_last ?new 1) (\<lambda>found.
          case found of None \<Rightarrow> Inr (ReceiveMore ?new (totalSize + length (bf_data (parts ! i))))
          | Some (result, lastId) \<Rightarrow> Inr (CommandComplete result (of_nat lastId)))"
      unfolding turn Let_def find0 if_P [OF many(2)] using plain by simp
    show ?thesis
      unfolding scanned scan_holds [OF command many(1) new(4) many(2)]
      by (rule turn_ends_scanned [OF new(4)])
  qed
qed

text \<open>The packets of the given fragments arrive one after the other, each acknowledged.\<close>

primrec arrive ::
  "('n, 'd) Environment \<Rightarrow> (nat \<times> Fragment) list \<Rightarrow> 'n BootstrapTransport \<Rightarrow> 'n BootstrapTransport \<Rightarrow> bool" where
  "arrive env [] s s' \<longleftrightarrow> s' = s"
| "arrive env (x # xs) s s' \<longleftrightarrow>
     (case receive_fragment env s of
        (Inr (packet, plaintext), t) \<Rightarrow>
          sh_packetId (sp_header packet) = of_nat (fst x) \<and> sh_flags (sp_header packet) = bf_flags (snd x) \<and>
          plaintext = bf_data (snd x) \<and> arrive env xs t s'
      | (Inl e, t) \<Rightarrow> False)"

lemma arrive_Cons: "arrive env (x # xs) s s' \<Longrightarrow>
   \<exists>packet t. receive_fragment env s = (Inr (packet, bf_data (snd x)), t) \<and>
     sh_packetId (sp_header packet) = of_nat (fst x) \<and> sh_flags (sp_header packet) = bf_flags (snd x) \<and> arrive env xs t s'"
  by (auto split: prod.splits sum.splits)

lemma receive_loop_turn:
  assumes "receive_fragment env s = (Inr (packet, plaintext), t)"
  shows "gather (sh_packetId (sp_header packet)) (sh_flags (sp_header packet)) plaintext fragments totalSize =
      Inr (ReceiveMore fragments' totalSize') \<Longrightarrow>
      receive_command_loop env fragments totalSize s = receive_command_loop env fragments' totalSize' t"
    and "gather (sh_packetId (sp_header packet)) (sh_flags (sp_header packet)) plaintext fragments totalSize =
      Inr (CommandComplete result lastId) \<Longrightarrow>
      receive_command_loop env fragments totalSize s = Some (op_bind (set_incoming_command lastId) (\<lambda>_. op_return result) t)"
  using assms by (simp_all add: receive_command_loop.simps [of env fragments totalSize s])

lemma receive_loop_complete:
  assumes command: "server_command parts"
  shows "holds parts S fragments totalSize \<Longrightarrow> set ids \<subseteq> {..<length parts} \<Longrightarrow> S \<union> set ids = {..<length parts} \<Longrightarrow>
    S \<noteq> {..<length parts} \<Longrightarrow> S \<union> set (butlast ids) \<noteq> {..<length parts} \<Longrightarrow>
    arrive env (map (\<lambda>i. (i, parts ! i)) ids) s s' \<Longrightarrow>
    receive_command_loop env fragments totalSize s =
      Some (op_bind (set_incoming_command (of_nat (length parts - 1))) (\<lambda>_. op_return (concat (map bf_data parts))) s')"
proof (induction ids arbitrary: S fragments totalSize s)
  case Nil
  then show ?case
    unfolding list.set Un_empty_right by blast
next
  case (Cons i ids)
  obtain packet t where received: "receive_fragment env s = (Inr (packet, bf_data (parts ! i)), t)"
    and packet: "sh_packetId (sp_header packet) = of_nat i" "sh_flags (sp_header packet) = bf_flags (parts ! i)"
    and rest: "arrive env (map (\<lambda>i. (i, parts ! i)) ids) t s'"
    using arrive_Cons [OF Cons.prems(6) [unfolded list.map]] unfolding fst_conv snd_conv by blast
  note loop = receive_loop_turn [OF received, unfolded packet]
  have i: "i < length parts" and ids: "set ids \<subseteq> {..<length parts}"
    using Cons.prems(2) unfolding list.set by blast+
  have turn: "turn_ends parts (insert i S) (gather (of_nat i) (bf_flags (parts ! i)) (bf_data (parts ! i)) fragments totalSize)"
    using gather_known [OF command Cons.prems(1) _ Cons.prems(4)] gather_new [OF command Cons.prems(1) i]
    by (cases "i \<in> S") (auto simp only: insert_absorb)
  show ?case
  proof (cases "insert i S = {..<length parts}")
    case True
    have "ids = []"
    proof (rule ccontr)
      assume "ids \<noteq> []"
      then have "S \<union> set (butlast (i # ids)) = insert i S \<union> set (butlast ids)"
        by simp
      also have "\<dots> = {..<length parts}"
        using True ids in_set_butlastD [of _ ids] by blast
      finally show False
        using Cons.prems(5) by blast
    qed
    moreover from turn True have "gather (of_nat i) (bf_flags (parts ! i)) (bf_data (parts ! i)) fragments totalSize =
        Inr (CommandComplete (concat (map bf_data parts)) (of_nat (length parts - 1)))"
      unfolding turn_ends_def by argo
    from loop(2) [OF this] have "receive_command_loop env fragments totalSize s =
        Some (op_bind (set_incoming_command (of_nat (length parts - 1))) (\<lambda>_. op_return (concat (map bf_data parts))) t)" .
    moreover have "s' = t"
      using rest calculation(1) by simp
    ultimately show ?thesis
      by blast
  next
    case False
    then obtain fragments' totalSize' where
        more: "gather (of_nat i) (bf_flags (parts ! i)) (bf_data (parts ! i)) fragments totalSize =
          Inr (ReceiveMore fragments' totalSize')"
      and new: "holds parts (insert i S) fragments' totalSize'"
      using turn unfolding turn_ends_def if_not_P [OF False] by blast
    have all: "insert i S \<union> set ids = {..<length parts}"
      using Cons.prems(3) unfolding list.set by blast
    then have "ids \<noteq> []"
      using False by force
    then have "insert i S \<union> set (butlast ids) \<noteq> {..<length parts}"
      using Cons.prems(5) by (simp only: butlast.simps if_False list.set Un_insert_left Un_insert_right not_False_eq_True)
    from Cons.IH [OF new ids all False this rest] show ?thesis
      unfolding loop(1) [OF more] .
  qed
qed


section \<open>Evaluation\<close>

text \<open>A world that delivers given datagrams and accepts any, with constant primitives.\<close>

definition plain_env :: "(bytes list, unit) Environment" where
  "plain_env = \<lparr>env_ssl = \<lparr>ssl_cmac = (\<lambda>key data. Inr (replicate 16 0)), ssl_ctr = (\<lambda>key counter data. Inr data),
       ssl_sha256 = (\<lambda>data. Inr (replicate 32 0))\<rparr>,
     env_fp = \<lparr>dbl_lit = (\<lambda>_. ()), dbl_of_u64 = (\<lambda>_. ()), dbl_seconds = (\<lambda>_. ()), dbl_millis = (\<lambda>_. ()), dbl_add = (\<lambda>_ _. ()),
       dbl_sub = (\<lambda>_ _. ()), dbl_mul = (\<lambda>_ _. ()), dbl_div = (\<lambda>_ _. ()), dbl_abs = (\<lambda>_. ()), dbl_less = (\<lambda>_ _. False),
       dbl_le = (\<lambda>_ _. False), dbl_llround = (\<lambda>_. 0), dbl_to_string = (\<lambda>_. ''0'')\<rparr>,
     env_send = (\<lambda>p n. (Inr (), n)),
     env_receive = (\<lambda>_ n. case n of [] \<Rightarrow> (Inl (RuntimeError ''no datagram''), n) | p # n \<Rightarrow> (Inr p, n)),
     env_wait = (\<lambda>_ n. (Inr False, n)), env_now = (\<lambda>n. (0, n))\<rparr>"

text \<open>The datagram of a flagged fragment, and three of them.\<close>

definition fragment_datagram :: "u8 \<times> bytes \<Rightarrow> bytes" where
  "fragment_datagram x = replicate 8 0 @ [0, fst x, 0x12] @ snd x"

definition three_datagrams :: "bytes list" where
  "three_datagrams = map fragment_datagram [(1, [3]), (1, [3]), (0, [1, 2])]"



lemma plain_ssl: "ssl_cmac (env_ssl plain_env) k d = Inr (replicate 16 0)" "ssl_ctr (env_ssl plain_env) k c d = Inr d"
  by (simp_all add: plain_env_def)

lemma plain_tag: "ComputeTag (env_ssl plain_env) key (replicate 16 0) meta data = Inr (replicate 16 0)"
  by (auto simp add: ComputeTag_def Omac_def plain_ssl intro!: nth_equalityI)

lemma plain_eax:
  assumes "length data \<le> 100"
  shows "AesEax_Encrypt (env_ssl plain_env) key nonce meta data = Inr \<lparr>ae_tag = replicate 16 0, ae_data = data\<rparr>"
    and "AesEax_Decrypt (env_ssl plain_env) key nonce meta data (replicate 8 0) = Inr (Some data)"
proof -
  have ctr: "CryptCtr (env_ssl plain_env) key data counter = Inr data" for counter
    using assms by (simp add: CryptCtr_def plain_ssl)
  have omac: "Omac (env_ssl plain_env) key domain nonce = Inr (replicate 16 0)" for domain
    by (simp add: Omac_def plain_ssl)
  show "AesEax_Encrypt (env_ssl plain_env) key nonce meta data = Inr \<lparr>ae_tag = replicate 16 0, ae_data = data\<rparr>"
    by (simp only: AesEax_Encrypt_def omac ctr plain_tag res_bind_simps)
  show "AesEax_Decrypt (env_ssl plain_env) key nonce meta data (replicate 8 0) = Inr (Some data)"
    by (simp add: AesEax_Decrypt_def omac ctr plain_tag)
qed

lemma plain_net: "env_send plain_env p n = (Inr (), n)" "env_receive plain_env k (p # n) = (Inr p, n)"
  by (simp_all add: plain_env_def)


lemma ack_payload_size: "length (Take (WriteU16 v empty_writer)) \<le> 100"
  by (simp add: Take_def enc_u16_def)

definition acks :: "u16 \<Rightarrow> PacketSequenceState \<Rightarrow> bool" where
  "acks m qs \<longleftrightarrow> sequences_ok qs \<and> Outgoing Ack qs = Inr \<lparr>ps_packetId = m, ps_generationId = 0\<rparr> \<and>
     Incoming CommandType qs = Inr \<lparr>ps_packetId = 0, ps_generationId = 0\<rparr>"

lemma plain_fragment:
  assumes "length data \<le> 100" "acks m qs" "m \<noteq> - 1"
  shows "\<exists>qs'. receive_fragment plain_env \<lparr>bt_net = (replicate 8 0 @ [0, i, 0x12] @ data) # n, bt_sequences = qs\<rparr> =
     (Inr (\<lparr>sp_header = \<lparr>sh_mac = replicate 8 0, sh_packetId = u16_of 0 i, sh_type = CommandType, sh_flags = 0x10\<rparr>,
        sp_meta = [0, i, 0x12], sp_data = data\<rparr>, data), \<lparr>bt_net = n, bt_sequences = qs'\<rparr>) \<and> acks (m + 1) qs'"
proof -
  let ?mac = "replicate 8 0 :: bytes"
  have parse: "ServerPacket_Parse (?mac @ [0, i, 0x12] @ data) =
     Inr \<lparr>sp_header = \<lparr>sh_mac = ?mac, sh_packetId = u16_of 0 i, sh_type = CommandType, sh_flags = 0x10\<rparr>,
        sp_meta = [0, i, 0x12], sp_data = data\<rparr>"
    by (subst ServerPacket_Parse_split) (simp_all add: packet_type_of_def)
  have ok: "sequences_ok qs" and out: "Outgoing Ack qs = Inr \<lparr>ps_packetId = m, ps_generationId = 0\<rparr>"
     and inc: "Incoming CommandType qs = Inr \<lparr>ps_packetId = 0, ps_generationId = 0\<rparr>"
    using assms by (auto simp: acks_def)
  show ?thesis
    unfolding receive_fragment_def bootstrap_ReceivePacket_def
    using assms(1,3) out ok inc outgoing.fetch_store [OF ok out]
    by (simp add: parse [unfolded append.simps] acks_def op_bind_def op_zoom_def plain_net Bootstrap_Decrypt_def plain_eax
        bootstrap_SendAck_def bootstrap_SendEncrypted_def bootstrap_outgoing_def Bootstrap_Encrypt_def Let_def
        bootstrap_advance_outgoing_def Advance_def ack_payload_size)
qed

lemma u16_of_byte: "u16_of 0 i = of_nat (unat i)"
  by (simp add: u16_of_def)

lemma plain_arrive:
  "(\<forall>x\<in>set xs. length (snd x) \<le> 100) \<Longrightarrow> acks m qs \<Longrightarrow> unat m + length xs < 65536 \<Longrightarrow>
   \<exists>qs'. arrive plain_env (map (\<lambda>x. (unat (fst x), \<lparr>bf_flags = 0x10, bf_data = snd x\<rparr>)) xs)
       \<lparr>bt_net = map fragment_datagram xs, bt_sequences = qs\<rparr> \<lparr>bt_net = [], bt_sequences = qs'\<rparr> \<and>
     acks (m + of_nat (length xs)) qs'"
proof (induction xs arbitrary: m qs)
  case Nil
  then show ?case
    by simp
next
  case (Cons x xs)
  have m: "m \<noteq> - 1"
    using Cons.prems(3) by auto
  obtain qs1 where one: "receive_fragment plain_env \<lparr>bt_net = fragment_datagram x # map fragment_datagram xs, bt_sequences = qs\<rparr> =
     (Inr (\<lparr>sp_header = \<lparr>sh_mac = replicate 8 0, sh_packetId = u16_of 0 (fst x), sh_type = CommandType, sh_flags = 0x10\<rparr>,
        sp_meta = [0, fst x, 0x12], sp_data = snd x\<rparr>, snd x), \<lparr>bt_net = map fragment_datagram xs, bt_sequences = qs1\<rparr>)"
    "acks (m + 1) qs1"
    using plain_fragment [OF _ Cons.prems(2) m, of "snd x" "fst x" "map fragment_datagram xs"] Cons.prems(1)
    unfolding fragment_datagram_def by auto
  have "unat (m + 1) + length xs < 65536"
    using Cons.prems(3) m by (simp add: unat_u16_Suc)
  from Cons.IH [OF _ one(2) this] Cons.prems(1) one(1) show ?case
    by (auto simp: u16_of_byte algebra_simps)
qed

lemma plain_start: "acks 0 (bt_sequences (make_BootstrapTransport n))"
  by (simp add: acks_def make_BootstrapTransport_def Let_def Outgoing_def Incoming_def set_Outgoing_def set_Incoming_def
      sequence_index_def TrackedPacketTypeCount_def initial_sequence_state_def sequences_ok_def)


theorem gather_keeps_limits_witness:
  "case gather 1 0 [7, 8] [] 0 of Inr (ReceiveMore fragments totalSize) \<Rightarrow> gathered_ok fragments totalSize | _ \<Rightarrow> False"
proof -
  have "gathered_ok [] 0"
    by (simp add: gathered_ok_def sm.ok_empty total_size_def)
  from gather_keeps_limits [OF this, of 1 0 "[7, 8]"] show ?thesis
    by (simp add: gather_def sm_contains_def sm_find_def sm_try_emplace_def MaxFragments_def Bootstrap_MaxCommandSize_def)
qed

end
