(* ===== verification/License.thy ===== *)
theory License
  imports Binary_IO
begin

text \<open>
  The license chain of a TeamSpeak server, \<open>protocol/src/handshake/license.cpp\<close>: the cursor
  \<open>LicenseCursor\<close>, the block parser \<open>LicenseBlock::Parse\<close> and the chain parser \<open>License::Parse\<close>.

  The bytes come from the server before anything is authenticated, so the first question is
  memory safety: unchecked accesses of the code (\<open>property[1]\<close>, \<open>content.back()\<close>,
  \<open>first(blockSize)\<close>, the unsigned subtraction of \<open>Remaining\<close>) answer \<open>UndefinedBehaviour\<close>
  here when they would leave their range, and \<open>license_parse_safe\<close> shows that none does. The
  second is what an accepted license is: a partition of the input into blocks whose validity
  ranges are nested, ending in a server block and an ephemeral block.
\<close>

unbundle bit_operations_syntax

section \<open>LicenseCursor\<close>

record LicenseCursor =
  lc_data :: bytes
  lc_offset :: nat

text \<open>\<open>m_Data.size() - m_Offset\<close> on unsigned numbers: meaningful while the offset is inside.\<close>

definition lc_Remaining :: "(LicenseCursor, nat) op" where
  "lc_Remaining c =
     (if lc_offset c \<le> length (lc_data c) then (Inr (length (lc_data c) - lc_offset c), c)
      else (Inl (UndefinedBehaviour ''Remaining''), c))"

definition lc_Require :: "nat \<Rightarrow> (LicenseCursor, unit) op" where
  "lc_Require count = op_bind lc_Remaining (\<lambda>remaining.
     if count > remaining then op_throw (RuntimeError ''Unexpected end of license data'')
     else op_return ())"

definition lc_ReadU8 :: "(LicenseCursor, u8) op" where
  "lc_ReadU8 = op_bind (lc_Require 1) (\<lambda>_ c.
     (Inr (lc_data c ! lc_offset c), c\<lparr>lc_offset := lc_offset c + 1\<rparr>))"

definition lc_ReadU32 :: "(LicenseCursor, u32) op" where
  "lc_ReadU32 =
     op_bind lc_ReadU8 (\<lambda>a. op_bind lc_ReadU8 (\<lambda>b. op_bind lc_ReadU8 (\<lambda>c. op_bind lc_ReadU8 (\<lambda>d.
       op_return (push_bit 24 (ucast a) OR push_bit 16 (ucast b) OR push_bit 8 (ucast c) OR ucast d)))))"

definition lc_ReadBytes :: "nat \<Rightarrow> (LicenseCursor, bytes) op" where
  "lc_ReadBytes count = op_bind (lc_Require count) (\<lambda>_ c.
     (Inr (take count (drop (lc_offset c) (lc_data c))), c\<lparr>lc_offset := lc_offset c + count\<rparr>))"

text \<open>\<open>SkipNullTerminated\<close> is \<open>while ( true )\<close>: it ends because every turn reads a byte or throws.\<close>

lemma lc_ReadU8_Inr:
  "lc_ReadU8 c = (Inr b, c') \<longleftrightarrow> lc_offset c < length (lc_data c) \<and>
     b = lc_data c ! lc_offset c \<and> c' = c\<lparr>lc_offset := lc_offset c + 1\<rparr>"
  by (auto simp: lc_ReadU8_def lc_Require_def lc_Remaining_def op_bind_def split: if_splits)

function lc_SkipNullTerminated :: "(LicenseCursor, unit) op" where
  "lc_SkipNullTerminated c =
     op_bind lc_ReadU8 (\<lambda>b c'. if b = 0 then (Inr (), c') else lc_SkipNullTerminated c') c"
  by pat_completeness auto

termination
  by (relation "measure (\<lambda>c. length (lc_data c) - lc_offset c)") (auto simp: lc_ReadU8_Inr)

declare lc_SkipNullTerminated.simps [simp del]

section \<open>License blocks\<close>

datatype LicenseBlockType = Intermediate | Website | Ts3Server | Code | Ts5Server | Ephemeral

record LicenseBlock =
  lb_Type :: LicenseBlockType
  lb_PublicKey :: bytes
  lb_NotValidBefore :: u64
  lb_NotValidAfter :: u64
  lb_Raw :: bytes

definition HashData :: "LicenseBlock \<Rightarrow> bytes result" where
  "HashData b =
     (if length (lb_Raw b) < 2 then Inl (RuntimeError ''Invalid raw license block'')
      else Inr (drop 1 (lb_Raw b)))"

definition IsServer :: "LicenseBlock \<Rightarrow> bool" where
  "IsServer b \<longleftrightarrow> lb_Type b = Ts3Server \<or> lb_Type b = Ts5Server"

definition license_block_type :: "u8 \<Rightarrow> LicenseBlockType result" where
  "license_block_type t =
     (if t = 0x00 then Inr Intermediate
      else if t = 0x01 then Inr Website
      else if t = 0x02 then Inr Ts3Server
      else if t = 0x03 then Inr Code
      else if t = 0x08 then Inr Ts5Server
      else if t = 0x20 then Inr Ephemeral
      else Inl (RuntimeError ''Unsupported license block type''))"

text \<open>One property of a \<open>Ts5Server\<close> block, length, id, type and content.\<close>

definition check_property :: "bytes \<Rightarrow> unit result" where
  "check_property property = res_bind (vec_get property 1) (\<lambda>dataType.
     let content = drop 2 property in
     if dataType = 0x00 then
       (if content = [] then Inl (RuntimeError ''Invalid license string property'')
        else if last content \<noteq> 0 then Inl (RuntimeError ''Invalid license string property'')
        else Inr ())
     else if dataType = 0x01 \<or> dataType = 0x03 then
       (if length content \<noteq> 4 then Inl (RuntimeError ''Invalid 32-bit license property'') else Inr ())
     else if dataType = 0x02 \<or> dataType = 0x04 then
       (if length content \<noteq> 8 then Inl (RuntimeError ''Invalid 64-bit license property'') else Inr ())
     else Inr ())"

definition read_property :: "(LicenseCursor, unit) op" where
  "read_property = op_bind lc_ReadU8 (\<lambda>propertyLength.
     if propertyLength < 2 then op_throw (RuntimeError ''Invalid license property length'')
     else op_bind (lc_ReadBytes (unat propertyLength)) (\<lambda>property. op_lift (check_property property)))"

fun read_properties :: "nat \<Rightarrow> (LicenseCursor, unit) op" where
  "read_properties 0 = op_return ()"
| "read_properties (Suc n) = op_bind read_property (\<lambda>_. read_properties n)"

fun read_content :: "LicenseBlockType \<Rightarrow> (LicenseCursor, unit) op" where
  "read_content Intermediate = op_bind lc_ReadU32 (\<lambda>_. lc_SkipNullTerminated)"
| "read_content Website = lc_SkipNullTerminated"
| "read_content Code = lc_SkipNullTerminated"
| "read_content Ts3Server =
     op_bind lc_ReadU8 (\<lambda>_. op_bind lc_ReadU32 (\<lambda>_. lc_SkipNullTerminated))"
| "read_content Ts5Server =
     op_bind lc_ReadU8 (\<lambda>_. op_bind lc_ReadU8 (\<lambda>propertyCount. read_properties (unat propertyCount)))"
| "read_content Ephemeral = op_return ()"

definition TimestampOffset :: u64 where
  "TimestampOffset = 0x50e22700"

text \<open>The part of \<open>LicenseBlock::Parse\<close> that runs on the cursor, up to \<open>reader.Position()\<close>.\<close>

definition read_block :: "(LicenseCursor, LicenseBlock) op" where
  "read_block =
     op_bind lc_ReadU8 (\<lambda>keyType.
     if keyType \<noteq> 0x00 then op_throw (RuntimeError ''Unsupported license key type'') else
     op_bind (lc_ReadBytes 32) (\<lambda>publicKey.
     op_bind lc_ReadU8 (\<lambda>blockType.
     op_bind (op_lift (license_block_type blockType)) (\<lambda>type.
     op_bind lc_ReadU32 (\<lambda>before.
     op_bind lc_ReadU32 (\<lambda>after.
     let notBefore = ucast before + TimestampOffset; notAfter = ucast after + TimestampOffset in
     if notBefore > notAfter then op_throw (RuntimeError ''Invalid license validity range'') else
     op_bind (read_content type) (\<lambda>_.
     op_bind (op_gets lc_offset) (\<lambda>blockSize.
     op_bind (op_gets lc_data) (\<lambda>blockData.
     op_return \<lparr>lb_Type = type, lb_PublicKey = publicKey, lb_NotValidBefore = notBefore,
                lb_NotValidAfter = notAfter, lb_Raw = take blockSize blockData\<rparr>)))))))))"

definition MinimumBlockSize :: nat where
  "MinimumBlockSize = 42"

text \<open>
  \<open>offset\<close> is taken by reference: it is the state of the operation, and is only moved when the
  block is accepted. \<open>blockData.first( blockSize )\<close> is only defined for \<open>blockSize\<close> within the
  span.
\<close>

definition LicenseBlock_Parse :: "bytes \<Rightarrow> (nat, LicenseBlock) op" where
  "LicenseBlock_Parse data offset =
     (if offset > length data \<or> length data - offset < MinimumBlockSize
      then (Inl (RuntimeError ''License block is too short''), offset)
      else let blockData = drop offset data in
        case read_block \<lparr>lc_data = blockData, lc_offset = 0\<rparr> of
          (Inl e, _) \<Rightarrow> (Inl e, offset)
        | (Inr block, reader) \<Rightarrow>
            if lc_offset reader > length blockData then (Inl (UndefinedBehaviour ''first''), offset)
            else (Inr block, offset + lc_offset reader))"

section \<open>Every read stays inside the data or throws\<close>

text \<open>
  The contract of a cursor operation: on a cursor inside its data it either throws an
  exception of the code, or moves the offset forward, within the same data. It is closed
  under sequencing, so the parsers inherit it from \<open>ReadU8\<close> and \<open>ReadBytes\<close>.
\<close>

definition lc_inside :: "LicenseCursor \<Rightarrow> bool" where
  "lc_inside c \<longleftrightarrow> lc_offset c \<le> length (lc_data c)"

definition lc_moved :: "LicenseCursor \<Rightarrow> LicenseCursor \<Rightarrow> bool" where
  "lc_moved c c' \<longleftrightarrow> lc_data c' = lc_data c \<and> lc_offset c \<le> lc_offset c' \<and> lc_inside c'"

definition lc_consumes :: "(LicenseCursor, 'a) op \<Rightarrow> bool" where
  "lc_consumes m \<longleftrightarrow> (\<forall>c. lc_inside c \<longrightarrow> no_ub (fst (m c)) \<and>
     (\<forall>x c'. m c = (Inr x, c') \<longrightarrow> lc_moved c c'))"

lemma lc_moved_trans: "lc_moved c d \<Longrightarrow> lc_moved d e \<Longrightarrow> lc_moved c e"
  by (auto simp: lc_moved_def)

lemma lc_consumesD:
  "lc_consumes m \<Longrightarrow> lc_inside c \<Longrightarrow> m c = (Inr x, c') \<Longrightarrow> lc_moved c c'"
  "lc_consumes m \<Longrightarrow> lc_inside c \<Longrightarrow> m c = (Inl e, c') \<Longrightarrow> safe_error e"
  by (auto simp: lc_consumes_def no_ub_def dest!: spec [of _ c])

text \<open>
  Sequencing, with what the first operation is known to return available to the second: the
  property reader needs it, because its read makes the later index legal.
\<close>

lemma lc_consumes_bind_known:
  assumes m: "lc_consumes m" and known: "\<And>c x c'. m c = (Inr x, c') \<Longrightarrow> K x"
    and f: "\<And>x. K x \<Longrightarrow> lc_consumes (f x)"
  shows "lc_consumes (op_bind m f)"
  unfolding lc_consumes_def
proof (intro allI impI)
  fix c
  assume c: "lc_inside c"
  show "no_ub (fst (op_bind m f c)) \<and> (\<forall>x c'. op_bind m f c = (Inr x, c') \<longrightarrow> lc_moved c c')"
  proof (cases "m c")
    case (Pair r d)
    show ?thesis
    proof (cases r)
      case (Inr x)
      then have move: "lc_moved c d" and fx: "lc_consumes (f x)"
        using lc_consumesD(1) [OF m c] f [OF known] Pair by auto
      then have "lc_inside d"
        by (simp add: lc_moved_def)
      then show ?thesis
        using fx move Pair Inr lc_moved_trans [OF move] by (auto simp: lc_consumes_def op_bind_def)
    qed (use Pair lc_consumesD(2) [OF m c] in \<open>auto simp: op_bind_def\<close>)
  qed
qed

lemma lc_consumes_bind [intro]:
  "lc_consumes m \<Longrightarrow> (\<And>x. lc_consumes (f x)) \<Longrightarrow> lc_consumes (op_bind m f)"
  by (rule lc_consumes_bind_known [where K = "\<lambda>_. True"]) auto

lemma lc_consumes_basic [intro]:
  "lc_consumes (op_return x)"
  "lc_consumes (op_gets g)"
  "no_ub r \<Longrightarrow> lc_consumes (op_lift r)"
  "safe_error e \<Longrightarrow> lc_consumes (op_throw e)"
  by (auto simp: lc_consumes_def lc_moved_def)

lemma lc_consumes_ReadU8 [intro]: "lc_consumes lc_ReadU8"
  by (auto simp: lc_consumes_def lc_moved_def lc_inside_def lc_ReadU8_def lc_Require_def
      lc_Remaining_def op_bind_def)

lemma lc_ReadBytes_Inr:
  "lc_ReadBytes n c = (Inr bs, c') \<longleftrightarrow> lc_offset c \<le> length (lc_data c) \<and>
     lc_offset c + n \<le> length (lc_data c) \<and>
     bs = take n (drop (lc_offset c) (lc_data c)) \<and> c' = c\<lparr>lc_offset := lc_offset c + n\<rparr>"
  by (auto simp: lc_ReadBytes_def lc_Require_def lc_Remaining_def op_bind_def split: if_splits)

lemma lc_consumes_ReadBytes [intro]: "lc_consumes (lc_ReadBytes n)"
  by (auto simp: lc_consumes_def lc_moved_def lc_inside_def lc_ReadBytes_def lc_Require_def
      lc_Remaining_def op_bind_def)

lemma lc_consumes_ReadU32 [intro]: "lc_consumes lc_ReadU32"
  unfolding lc_ReadU32_def by blast

lemma lc_consumes_Skip [intro]: "lc_consumes lc_SkipNullTerminated"
proof -
  have "no_ub (fst (lc_SkipNullTerminated c)) \<and>
    (\<forall>x c'. lc_SkipNullTerminated c = (Inr x, c') \<longrightarrow> lc_moved c c')" if "lc_inside c" for c
    using that
  proof (induction c rule: lc_SkipNullTerminated.induct)
    case (1 c)
    show ?case
    proof (cases "lc_ReadU8 c")
      case (Pair r d)
      show ?thesis
      proof (cases r)
        case (Inr b)
        then have move: "lc_moved c d"
          using lc_consumesD(1) [OF lc_consumes_ReadU8] "1.prems" Pair by blast
        then have "lc_inside d"
          by (simp add: lc_moved_def)
        then show ?thesis
          using "1.IH" [of b d] Pair Inr move lc_moved_trans [OF move]
          by (subst (1 2) lc_SkipNullTerminated.simps) (auto simp: op_bind_def)
      qed (use Pair lc_consumesD(2) [OF lc_consumes_ReadU8] "1.prems" in
          \<open>auto simp: lc_SkipNullTerminated.simps op_bind_def\<close>)
    qed
  qed
  then show ?thesis
    by (auto simp: lc_consumes_def)
qed

text \<open>\<open>property[1]\<close> and \<open>property.subspan( 2 )\<close> are in range: the length is at least two.\<close>

lemma check_property_safe: "2 \<le> length property \<Longrightarrow> no_ub (check_property property)"
  by (simp add: check_property_def Let_def)

lemma lc_consumes_property: "lc_consumes read_property"
proof -
  have "lc_consumes (op_bind (lc_ReadBytes (unat n)) (\<lambda>property. op_lift (check_property property)))"
    if "\<not> n < 2" for n :: u8
  proof (rule lc_consumes_bind_known [where K = "\<lambda>p. length p = unat n"])
    have "2 \<le> unat n"
      using that by (simp add: word_less_nat_alt)
    then show "lc_consumes (op_lift (check_property p))" if "length p = unat n" for p
      using that by (simp add: check_property_safe lc_consumes_basic)
  qed (auto simp: lc_ReadBytes_Inr)
  then show ?thesis
    unfolding read_property_def by (intro lc_consumes_bind lc_consumes_ReadU8) (simp add: lc_consumes_basic)
qed

lemma lc_consumes_properties: "lc_consumes (read_properties n)"
  by (induction n) (simp_all only: read_properties.simps lc_consumes_basic lc_consumes_bind lc_consumes_property)

lemma lc_consumes_content: "lc_consumes (read_content t)"
  by (cases t) (auto intro: lc_consumes_properties)

section \<open>What a parsed block is\<close>

definition be32 :: "bytes \<Rightarrow> nat \<Rightarrow> u32" where
  "be32 bs i = push_bit 24 (ucast (bs ! i)) OR push_bit 16 (ucast (bs ! (i + 1))) OR
     push_bit 8 (ucast (bs ! (i + 2))) OR ucast (bs ! (i + 3))"

lemma lc_ReadU32_Inr:
  "lc_ReadU32 c = (Inr v, c') \<longleftrightarrow> lc_offset c + 4 \<le> length (lc_data c) \<and>
     v = be32 (lc_data c) (lc_offset c) \<and> c' = c\<lparr>lc_offset := lc_offset c + 4\<rparr>"
  by (auto simp: lc_ReadU32_def op_bind_eq_Inr lc_ReadU8_Inr be32_def numeral_eq_Suc)

text \<open>The underlying values of the enumeration.\<close>

fun type_code :: "LicenseBlockType \<Rightarrow> u8" where
  "type_code Intermediate = 0x00"
| "type_code Website = 0x01"
| "type_code Ts3Server = 0x02"
| "type_code Code = 0x03"
| "type_code Ts5Server = 0x08"
| "type_code Ephemeral = 0x20"

lemma license_block_type_Inr: "license_block_type c = Inr t \<longleftrightarrow> c = type_code t"
  by (cases t) (auto simp: license_block_type_def)

text \<open>
  The layout of a block over its own bytes: key type, key, block type, validity range, and
  the content of its type in what remains.
\<close>

definition block_layout :: "LicenseBlock \<Rightarrow> bytes \<Rightarrow> bool" where
  "block_layout b bs \<longleftrightarrow> lb_Raw b = bs \<and> MinimumBlockSize \<le> length bs \<and> bs ! 0 = 0 \<and>
     lb_PublicKey b = take 32 (drop 1 bs) \<and> bs ! 33 = type_code (lb_Type b) \<and>
     lb_NotValidBefore b = ucast (be32 bs 34) + TimestampOffset \<and>
     lb_NotValidAfter b = ucast (be32 bs 38) + TimestampOffset \<and>
     lb_NotValidBefore b \<le> lb_NotValidAfter b"

lemma be32_take: "i + 4 \<le> n \<Longrightarrow> be32 (take n bs) i = be32 bs i"
  by (simp add: be32_def)

lemma read_block_layout:
  assumes "read_block \<lparr>lc_data = bs, lc_offset = 0\<rparr> = (Inr b, c)"
  shows "block_layout b (take (lc_offset c) bs)" and "lc_offset c \<le> length bs"
proof -
  obtain t where content: "\<exists>d. read_content t \<lparr>lc_data = bs, lc_offset = 42\<rparr> = (Inr d, c)"
    and b: "b = \<lparr>lb_Type = t, lb_PublicKey = take 32 (drop 1 bs),
       lb_NotValidBefore = ucast (be32 bs 34) + TimestampOffset,
       lb_NotValidAfter = ucast (be32 bs 38) + TimestampOffset,
       lb_Raw = take (lc_offset c) (lc_data c)\<rparr>"
    and head: "bs ! 0 = 0" "bs ! 33 = type_code t" "42 \<le> length bs"
    and range: "ucast (be32 bs 34) + TimestampOffset \<le> ucast (be32 bs 38) + TimestampOffset"
    using assms unfolding read_block_def
    by (auto simp: op_bind_eq_Inr lc_ReadU8_Inr lc_ReadBytes_Inr lc_ReadU32_Inr license_block_type_Inr
        Let_def op_throw_def op_return_def op_lift_def op_gets_def not_less split: if_splits)
  obtain d where "read_content t \<lparr>lc_data = bs, lc_offset = 42\<rparr> = (Inr d, c)"
    using content by blast
  then have "lc_moved \<lparr>lc_data = bs, lc_offset = 42\<rparr> c"
    using head(3) by (intro lc_consumesD(1) [OF lc_consumes_content]) (auto simp: lc_inside_def)
  then have c: "lc_data c = bs" "42 \<le> lc_offset c" "lc_offset c \<le> length bs"
    by (auto simp: lc_moved_def lc_inside_def)
  then show "lc_offset c \<le> length bs"
    by simp
  show "block_layout b (take (lc_offset c) bs)"
    using c b head range
    by (simp add: block_layout_def MinimumBlockSize_def be32_take drop_take min_def)
qed

lemma lc_consumes_block: "lc_consumes read_block"
proof -
  have "no_ub (license_block_type t)" for t
    by (simp add: license_block_type_def)
  then show ?thesis
    unfolding read_block_def Let_def by (auto intro!: lc_consumes_bind lc_consumes_basic lc_consumes_content lc_consumes_ReadU8
        lc_consumes_ReadU32 lc_consumes_ReadBytes)
qed

lemma block_parse_Inr:
  assumes "LicenseBlock_Parse data offset = (Inr b, offset')"
  shows "\<exists>used. block_layout b used \<and> take offset' data = take offset data @ used \<and>
    offset' = offset + length used \<and> offset' \<le> length data"
proof -
  obtain c where offset: "offset \<le> length data"
    and run: "read_block \<lparr>lc_data = drop offset data, lc_offset = 0\<rparr> = (Inr b, c)"
    and offset': "offset' = offset + lc_offset c"
    using assms unfolding LicenseBlock_Parse_def
    by (auto simp: Let_def split: if_splits prod.splits sum.splits)
  note layout = read_block_layout [OF run]
  show ?thesis
    using layout offset offset'
    by (intro exI [of _ "take (lc_offset c) (drop offset data)"]) (simp add: take_add)
qed

lemma block_parse_safe: "no_ub (fst (LicenseBlock_Parse data offset))"
proof -
  have "lc_inside \<lparr>lc_data = drop offset data, lc_offset = 0\<rparr>"
    by (simp add: lc_inside_def)
  note block = lc_consumesD [OF lc_consumes_block this]
  show ?thesis
    unfolding LicenseBlock_Parse_def
    using block by (auto simp: Let_def lc_moved_def lc_inside_def split: prod.splits sum.splits)
qed

section \<open>License::Parse\<close>

record License =
  lic_Version :: u8
  lic_Raw :: bytes
  lic_Blocks :: "LicenseBlock list"

text \<open>
  The \<open>while ( offset < data.size() )\<close> loop, over its variables \<open>offset\<close>, \<open>hasParentBounds\<close>,
  \<open>parentBefore\<close>, \<open>parentAfter\<close> and \<open>result.m_Blocks\<close>. It ends because an accepted block moves
  the offset by at least \<open>MinimumBlockSize\<close>.
\<close>

function license_blocks ::
  "bytes \<Rightarrow> nat \<Rightarrow> bool \<Rightarrow> u64 \<Rightarrow> u64 \<Rightarrow> LicenseBlock list \<Rightarrow> LicenseBlock list result" where
  "license_blocks data offset hasParentBounds parentBefore parentAfter blocks =
     (if offset < length data then
        if length blocks \<ge> 8 then Inl (RuntimeError ''License contains too many blocks'')
        else case LicenseBlock_Parse data offset of
            (Inl e, _) \<Rightarrow> Inl e
          | (Inr block, offset') \<Rightarrow>
              if hasParentBounds \<and>
                 (lb_NotValidBefore block < parentBefore \<or> lb_NotValidAfter block > parentAfter)
              then Inl (RuntimeError ''License block exceeds parent validity range'')
              else license_blocks data offset' True (lb_NotValidBefore block) (lb_NotValidAfter block)
                     (blocks @ [block])
      else Inr blocks)"
  by pat_completeness auto

termination
proof (relation "measure (\<lambda>(data, offset, _). length data - offset)", goal_cases)
  case (2 data offset has before after blocks r offset' block)
  then have "offset < offset'"
    using block_parse_Inr [of data offset block offset']
    by (auto simp: block_layout_def MinimumBlockSize_def)
  then show ?case
    using 2 by auto
qed simp

declare license_blocks.simps [simp del]

definition License_Parse :: "bytes \<Rightarrow> License result" where
  "License_Parse data =
     (if data = [] then Inl (RuntimeError ''License is empty'')
      else if hd data \<noteq> 0 \<and> hd data \<noteq> 1 then Inl (RuntimeError ''Unsupported license version'')
      else res_bind (license_blocks data 1 False 0 0 []) (\<lambda>blocks.
        if length blocks < 2 then Inl (RuntimeError ''License contains too few blocks'')
        else res_bind (vec_get blocks (length blocks - 2)) (\<lambda>serverBlock.
        if \<not> IsServer serverBlock
        then Inl (RuntimeError ''Penultimate license block is not a server block'')
        else if lb_Type (last blocks) \<noteq> Ephemeral
        then Inl (RuntimeError ''Final license block is not ephemeral'')
        else Inr \<lparr>lic_Version = hd data, lic_Raw = data, lic_Blocks = blocks\<rparr>)))"

section \<open>What an accepted license is\<close>

text \<open>A block's validity lies within its parent's.\<close>

definition within :: "LicenseBlock \<Rightarrow> LicenseBlock \<Rightarrow> bool" where
  "within parent b \<longleftrightarrow> lb_NotValidBefore parent \<le> lb_NotValidBefore b \<and>
     lb_NotValidAfter b \<le> lb_NotValidAfter parent"

lemma within_trans: "within a b \<Longrightarrow> within b c \<Longrightarrow> within a c"
  by (auto simp: within_def)

definition parent_bounds :: "bool \<Rightarrow> u64 \<Rightarrow> u64 \<Rightarrow> LicenseBlock list \<Rightarrow> bool" where
  "parent_bounds has before after blocks \<longleftrightarrow> has = (blocks \<noteq> []) \<and>
     (has \<longrightarrow> before = lb_NotValidBefore (last blocks) \<and> after = lb_NotValidAfter (last blocks))"

definition chain_of :: "LicenseBlock list \<Rightarrow> bytes \<Rightarrow> bool" where
  "chain_of blocks bs \<longleftrightarrow> concat (map lb_Raw blocks) = bs \<and> length blocks \<le> 8 \<and>
     (\<forall>b\<in>set blocks. block_layout b (lb_Raw b)) \<and> sorted_wrt within blocks"

lemma chain_of_snoc:
  assumes chain: "chain_of blocks bs" and b: "block_layout b used" and few: "length blocks < 8"
    and nested: "blocks \<noteq> [] \<Longrightarrow> within (last blocks) b"
  shows "chain_of (blocks @ [b]) (bs @ used)"
proof -
  have "within a b" if "a \<in> set blocks" for a
  proof (cases "a = last blocks")
    case False
    then have "a \<in> set (butlast blocks)"
      using that by (metis UnE append_butlast_last_id empty_iff empty_set in_set_butlastD set_ConsD set_append
          split_list_last)
    moreover have "sorted_wrt within (butlast blocks @ [last blocks])"
      using chain that by (metis append_butlast_last_id chain_of_def empty_iff empty_set)
    ultimately have "within a (last blocks)"
      by (simp add: sorted_wrt_append)
    then show ?thesis
      using nested that within_trans by (metis empty_iff empty_set)
  qed (use that nested in \<open>metis empty_iff empty_set\<close>)
  then show ?thesis
    using chain b few by (auto simp: chain_of_def sorted_wrt_append block_layout_def)
qed

lemma license_blocks_chain:
  assumes "license_blocks data offset has before after blocks = Inr result"
    and "chain_of blocks (take (offset - 1) (drop 1 data))" and "1 \<le> offset" and "offset \<le> length data"
    and "parent_bounds has before after blocks"
  shows "chain_of result (drop 1 data)"
  using assms
proof (induction data offset has before after blocks rule: license_blocks.induct)
  case (1 data offset has before after blocks)
  show ?case
  proof (cases "offset < length data")
    case True
    then obtain b offset' where b: "LicenseBlock_Parse data offset = (Inr b, offset')"
      and few: "length blocks < 8"
      and nested: "\<not> (has \<and> (lb_NotValidBefore b < before \<or> lb_NotValidAfter b > after))"
      and rest: "license_blocks data offset' True (lb_NotValidBefore b) (lb_NotValidAfter b) (blocks @ [b]) =
        Inr result"
      using "1.prems"(1)
      by (auto simp: license_blocks.simps [of data offset] split: if_splits prod.splits sum.splits)
    obtain used where used: "block_layout b used" "take offset' data = take offset data @ used"
      and offset': "offset' = offset + length used" "offset' \<le> length data"
      using block_parse_Inr [OF b] by blast
    have "take (offset' - 1) (drop 1 data) = take (offset - 1) (drop 1 data) @ used"
      using used(2) \<open>1 \<le> offset\<close> True by (cases data) (auto simp: take_Cons' offset')
    moreover have "within (last blocks) b" if "blocks \<noteq> []"
      using nested that "1.prems"(5) by (auto simp: parent_bounds_def within_def)
    ultimately have "chain_of (blocks @ [b]) (take (offset' - 1) (drop 1 data))"
      using chain_of_snoc [OF "1.prems"(2) used(1) few] by simp
    moreover have "parent_bounds True (lb_NotValidBefore b) (lb_NotValidAfter b) (blocks @ [b])"
      by (simp add: parent_bounds_def)
    moreover have "1 \<le> offset'"
      using offset'(1) \<open>1 \<le> offset\<close> by simp
    ultimately show ?thesis
      using "1.IH" [OF True _ b [symmetric] refl nested rest] few offset'(2) by simp
  qed (use "1.prems" in \<open>auto simp: license_blocks.simps\<close>)
qed

lemma license_blocks_safe: "no_ub (license_blocks data offset has before after blocks)"
proof (induction data offset has before after blocks rule: license_blocks.induct)
  case (1 data offset has before after blocks)
  note safe = block_parse_safe [of data offset]
  show ?case
    using safe "1.IH"
    by (subst license_blocks.simps) (auto split: prod.splits sum.splits)
qed

text \<open>
  \<open>License::Parse\<close> reads the server's bytes before anything is authenticated, and it is
  memory safe on every input: it returns a license or throws one of its own exceptions, and
  none of its unchecked accesses leaves its range.
\<close>

theorem license_parse_safe: "no_ub (License_Parse data)"
proof -
  have "no_ub (if length blocks < 2 then Inl (RuntimeError ''License contains too few blocks'')
     else res_bind (vec_get blocks (length blocks - 2)) k)"
    if "\<And>b. no_ub (k b)" for k :: "LicenseBlock \<Rightarrow> License result" and blocks
    using that by simp
  then show ?thesis
    unfolding License_Parse_def by (auto intro!: no_ub_bind license_blocks_safe)
qed

text \<open>
  C21: what an accepted license is. Its version is 0 or 1; its blocks, two to eight of them,
  partition the input after the version byte, each block's fields being those of its own
  bytes; every block's validity range lies within those of all blocks before it; the block
  before the last belongs to the server and the last is the ephemeral one.
\<close>

theorem license_accepted:
  assumes "License_Parse data = Inr license"
  defines "blocks \<equiv> lic_Blocks license"
  shows "lic_Raw license = data \<and> lic_Version license \<in> {0, 1} \<and>
    data = lic_Version license # concat (map lb_Raw blocks) \<and>
    2 \<le> length blocks \<and> length blocks \<le> 8 \<and>
    (\<forall>b\<in>set blocks. block_layout b (lb_Raw b)) \<and> sorted_wrt within blocks \<and>
    IsServer (blocks ! (length blocks - 2)) \<and> lb_Type (last blocks) = Ephemeral"
proof -
  obtain version rest where data: "data = version # rest"
    using assms(1) by (cases data) (auto simp: License_Parse_def)
  have loop: "license_blocks data 1 False 0 0 [] = Inr blocks"
    and version: "version \<in> {0, 1}" and two: "2 \<le> length blocks"
    and server: "IsServer (blocks ! (length blocks - 2))" and last: "lb_Type (last blocks) = Ephemeral"
    and fields: "lic_Raw license = data" "lic_Version license = version"
    using assms unfolding License_Parse_def data blocks_def
    by (auto simp: res_bind_eq_Inr not_less split: if_splits)
  have "chain_of blocks (drop 1 data)"
    by (rule license_blocks_chain [OF loop]) (simp_all add: chain_of_def parent_bounds_def data)
  then show ?thesis
    using version two server last fields data by (auto simp: chain_of_def)
qed

text \<open>A server block and an ephemeral block, accepted.\<close>

definition toy_license :: bytes where
  "toy_license = [1] @
     ([0] @ replicate 32 7 @ [2] @ [0, 0, 0, 1] @ [0, 0, 0, 9] @ [3] @ [0, 0, 0, 32] @ [65, 0]) @
     ([0] @ replicate 32 9 @ [0x20] @ [0, 0, 0, 2] @ [0, 0, 0, 8])"

theorem license_accepted_witness:
  "\<exists>license. License_Parse toy_license = Inr license \<and> length (lic_Blocks license) = 2 \<and>
     IsServer (lic_Blocks license ! 0) \<and> sorted_wrt within (lic_Blocks license)"
proof -
  have "case License_Parse toy_license of Inr license \<Rightarrow> length (lic_Blocks license) = 2 | Inl _ \<Rightarrow> False"
    by code_simp
  then obtain license where "License_Parse toy_license = Inr license" "length (lic_Blocks license) = 2"
    by (auto split: sum.splits)
  then show ?thesis
    using license_accepted [of toy_license license] by auto
qed

end
