(* ===== verification/Session_Material.thy ===== *)
theory Session_Material
  imports License
begin

text \<open>
  The key agreement of the handshake, \<open>SessionMaterialDeriver\<close>
  (\<open>protocol/src/crypto/session_material.cpp\<close>): the server's public key is folded from the
  license chain, a fresh client key pair is multiplied in, and the shared point is hashed and
  masked with the two nonces \<open>alpha\<close> and \<open>beta\<close>.

  libsodium and OpenSSL are the record \<open>Sodium\<close>; a function answers the array it wrote, or
  \<open>None\<close> for a failure code. What they are documented to compute, the group of Ed25519 with
  one encoding per point, is the predicate \<open>ed25519\<close>.
\<close>

unbundle bit_operations_syntax

record Sodium =
  so_init :: int
  so_add :: "bytes \<Rightarrow> bytes \<Rightarrow> bytes option"
  so_mul_base :: "bytes \<Rightarrow> bytes option"
  so_mul :: "bytes \<Rightarrow> bytes \<Rightarrow> bytes option"
  so_reduce :: "bytes \<Rightarrow> bytes"
  so_sha512 :: "bytes \<Rightarrow> bytes option"
  so_sha1 :: "bytes \<Rightarrow> bytes option"

record SessionMaterial =
  sm_sharedIv :: bytes
  sm_sharedMac :: bytes
  sm_clientPublicKey :: bytes

definition EnsureSodium :: "Sodium \<Rightarrow> unit result" where
  "EnsureSodium so = (if so_init so < 0 then Inl (RuntimeError ''Failed to initialize libsodium'') else Inr ())"

definition or_throw :: "string \<Rightarrow> 'a option \<Rightarrow> 'a result" where
  "or_throw message x = (case x of None \<Rightarrow> Inl (RuntimeError message) | Some v \<Rightarrow> Inr v)"

lemma or_throw_Inr [simp]: "or_throw message x = Inr v \<longleftrightarrow> x = Some v"
  by (cases x) (simp_all add: or_throw_def)

definition Multiply :: "Sodium \<Rightarrow> bytes \<Rightarrow> bytes \<Rightarrow> bytes result" where
  "Multiply so scalar point = or_throw ''Failed to multiply Curve25519 point'' (so_mul so scalar point)"

definition MultiplyBase :: "Sodium \<Rightarrow> bytes \<Rightarrow> bytes result" where
  "MultiplyBase so scalar = or_throw ''Failed to derive client public key'' (so_mul_base so scalar)"

definition Sha512 :: "Sodium \<Rightarrow> bytes \<Rightarrow> bytes result" where
  "Sha512 so data = or_throw ''Failed to calculate SHA-512'' (so_sha512 so data)"

definition material_Sha1 :: "Sodium \<Rightarrow> bytes \<Rightarrow> bytes result" where
  "material_Sha1 so data =
     res_bind (or_throw ''Failed to calculate SHA-1'' (so_sha1 so data)) (\<lambda>hash.
       if length hash \<noteq> 20 then Inl (RuntimeError ''Unexpected SHA-1 size'') else Inr hash)"

definition Root :: bytes where
  "Root = [0xcd, 0x0d, 0xe2, 0xae, 0xd4, 0x63, 0x45, 0x50, 0x9a, 0x7e, 0x3c, 0xfd, 0x8f, 0x68, 0xb3, 0xdc,
           0x75, 0x55, 0xb2, 0x9d, 0xcc, 0xec, 0x73, 0xcd, 0x18, 0x75, 0x0f, 0x99, 0x38, 0x12, 0x40, 0x8a]"

text \<open>The clamped hash, zero-extended to the 64 bytes libsodium reduces.\<close>

definition clamp_hash :: "bytes \<Rightarrow> bytes" where
  "clamp_hash hash =
     (let hash = hash[0 := hash ! 0 AND 0xf8];
          hash = hash[31 := hash ! 31 AND 0x3f];
          hash = hash[31 := hash ! 31 OR 0x40]
      in take 32 hash @ replicate 32 0)"

definition DeriveBlockScalar :: "Sodium \<Rightarrow> LicenseBlock \<Rightarrow> bytes result" where
  "DeriveBlockScalar so block =
     res_bind (HashData block) (\<lambda>data.
     res_bind (Sha512 so data) (\<lambda>hash.
     Inr (so_reduce so (clamp_hash hash))))"

fun derive_chain :: "Sodium \<Rightarrow> LicenseBlock list \<Rightarrow> bytes \<Rightarrow> bytes result" where
  "derive_chain so [] parent = Inr parent"
| "derive_chain so (block # blocks) parent =
     res_bind (DeriveBlockScalar so block) (\<lambda>scalar.
     res_bind (Multiply so scalar (lb_PublicKey block)) (\<lambda>multiplied.
     res_bind (or_throw ''Failed to add license curve points'' (so_add so multiplied parent)) (\<lambda>next_parent.
     derive_chain so blocks next_parent)))"

definition DeriveServerPublicKey :: "Sodium \<Rightarrow> License \<Rightarrow> bytes result" where
  "DeriveServerPublicKey so license = derive_chain so (lic_Blocks license) Root"

text \<open>\<open>result.sharedIv[start + i] ^= data[i]\<close>, for the nonce arrays of fixed size.\<close>

fun xor_into :: "nat \<Rightarrow> bytes \<Rightarrow> bytes \<Rightarrow> bytes result" where
  "xor_into start [] iv = Inr iv"
| "xor_into start (b # bs) iv =
     res_bind (vec_get iv start) (\<lambda>v.
     res_bind (vec_set iv start (v XOR b)) (\<lambda>iv'. xor_into (Suc start) bs iv'))"

text \<open>\<open>Derive\<close>; the private key \<open>GeneratePrivateKey\<close> draws is an argument.\<close>

definition Derive :: "Sodium \<Rightarrow> bytes \<Rightarrow> License \<Rightarrow> bytes \<Rightarrow> bytes \<Rightarrow> SessionMaterial result" where
  "Derive so clientPrivateKey license alpha beta =
     res_bind (EnsureSodium so) (\<lambda>_.
     res_bind (DeriveServerPublicKey so license) (\<lambda>serverPublicKey.
     res_bind (MultiplyBase so clientPrivateKey) (\<lambda>clientPublicKey.
     res_bind (Multiply so clientPrivateKey serverPublicKey) (\<lambda>sharedData.
     res_bind (Sha512 so sharedData) (\<lambda>hash.
     res_bind (xor_into 0 alpha hash) (\<lambda>iv.
     res_bind (xor_into (length alpha) beta iv) (\<lambda>sharedIv.
     res_bind (material_Sha1 so sharedIv) (\<lambda>macHash.
     Inr \<lparr>sm_sharedIv = sharedIv, sm_sharedMac = take 8 macHash, sm_clientPublicKey = clientPublicKey\<rparr>))))))))"

section \<open>The masked hash\<close>

lemma xor_into_exact:
  "start + length bs \<le> length iv \<Longrightarrow> xor_into start bs iv =
     Inr (take start iv @ map2 (XOR) (take (length bs) (drop start iv)) bs @ drop (start + length bs) iv)"
proof (induction start bs iv rule: xor_into.induct)
  case (2 start b bs iv)
  then have start: "start < length iv"
    by simp
  let ?iv = "iv[start := iv ! start XOR b]"
  have "take (Suc start) ?iv = take start iv @ [iv ! start XOR b]" "drop (Suc start) ?iv = drop (Suc start) iv"
    "drop (Suc (start + length bs)) ?iv = drop (Suc (start + length bs)) iv" "drop start iv = iv ! start # drop (Suc start) iv"
    using start by (auto simp: take_Suc_conv_app_nth Cons_nth_drop_Suc)
  then show ?case
    using 2 start by simp
qed simp

lemma masked_hash:
  assumes "length hash = 64" "length alpha = 10" "length beta = 54"
  shows "res_bind (xor_into 0 alpha hash) (xor_into (length alpha) beta) = Inr (map2 (XOR) hash (alpha @ beta))"
proof -
  have "zip hash (alpha @ beta) = zip (take 10 hash) alpha @ zip (drop 10 hash) beta"
    using zip_append [of "take 10 hash" alpha "drop 10 hash" beta] assms by simp
  then show ?thesis
    using assms by (simp add: xor_into_exact)
qed

section \<open>Both sides derive the same material\<close>

fun times :: "nat \<Rightarrow> 'g::comm_monoid_add \<Rightarrow> 'g" where
  "times 0 g = 0"
| "times (Suc n) g = g + times n g"

lemma times_add: "times (m + n) g = times m g + times n g"
  by (induction m) (simp_all add: add.assoc)

lemma times_times: "times m (times n g) = times (m * n) g"
  by (induction m) (simp_all add: times_add)

lemma times_commute: "times m (times n g) = times n (times m g)"
  by (simp add: times_times mult.commute)

text \<open>
  What the curve operations are documented to compute, over a commutative group of points with
  base point \<open>base\<close>: \<open>point\<close> decodes an encoding, \<open>scalar\<close> the number of a scalar; the
  encodings written are canonical. SHA-512 writes 64 bytes.
\<close>

definition ed25519 :: "Sodium \<Rightarrow> (bytes \<Rightarrow> 'g::comm_monoid_add) \<Rightarrow> 'g \<Rightarrow> (bytes \<Rightarrow> nat) \<Rightarrow> bool" where
  "ed25519 so point base scalar \<longleftrightarrow>
     (\<forall>p q r. so_add so p q = Some r \<longrightarrow> point r = point p + point q) \<and>
     (\<forall>s r. so_mul_base so s = Some r \<longrightarrow> point r = times (scalar s) base) \<and>
     (\<forall>s p r. so_mul so s p = Some r \<longrightarrow> point r = times (scalar s) (point p)) \<and>
     (\<forall>s p r s' p' r'. so_mul so s p = Some r \<longrightarrow> so_mul so s' p' = Some r' \<longrightarrow> point r = point r' \<longrightarrow> r = r') \<and>
     (\<forall>data hash. so_sha512 so data = Some hash \<longrightarrow> length hash = 64)"

text \<open>The point a license chain stands for: every block adds a multiple of its key.\<close>

definition block_scalar :: "Sodium \<Rightarrow> (bytes \<Rightarrow> nat) \<Rightarrow> LicenseBlock \<Rightarrow> nat" where
  "block_scalar so scalar block =
     scalar (so_reduce so (clamp_hash (the (so_sha512 so (drop 1 (lb_Raw block))))))"

lemma derive_chain_point:
  assumes curve: "ed25519 so point base scalar" and "derive_chain so blocks parent = Inr result"
  shows "point result =
    point parent + (\<Sum>block\<leftarrow>blocks. times (block_scalar so scalar block) (point (lb_PublicKey block)))"
  using assms(2)
proof (induction blocks arbitrary: parent)
  case (Cons block blocks)
  then obtain s m q where s: "DeriveBlockScalar so block = Inr s"
    and m: "so_mul so s (lb_PublicKey block) = Some m" and q: "so_add so m parent = Some q"
    and rest: "derive_chain so blocks q = Inr result"
    by (auto simp: res_bind_eq_Inr Multiply_def)
  have "scalar s = block_scalar so scalar block"
    using s by (auto simp: DeriveBlockScalar_def HashData_def Sha512_def block_scalar_def res_bind_eq_Inr split: if_splits)
  moreover have "point q = times (scalar s) (point (lb_PublicKey block)) + point parent"
    using curve m q unfolding ed25519_def by metis
  ultimately show ?case
    using Cons.IH [OF rest] by (simp add: ac_simps)
qed simp

text \<open>
  C9: the key agreement. When the client's derivation succeeds, a server that holds the secret
  \<open>serverScalar\<close> of the point its license chain stands for, and multiplies it with the public key
  the client sends, gets the same shared point; the session IV is its SHA-512 masked with
  \<open>alpha\<close> and \<open>beta\<close>, the MAC the first eight bytes of the IV's SHA-1. The chain's point is
  the root plus one multiple of each block's key.
\<close>

theorem key_agreement:
  assumes curve: "ed25519 so point base scalar" and sizes: "length alpha = 10" "length beta = 54"
    and client: "Derive so clientPrivateKey license alpha beta = Inr material"
    and chain: "times (scalar serverScalar) base = point Root +
      (\<Sum>block\<leftarrow>lic_Blocks license. times (block_scalar so scalar block) (point (lb_PublicKey block)))"
    and server: "so_mul so serverScalar (sm_clientPublicKey material) = Some shared"
  shows "\<exists>hash ivHash. so_sha512 so shared = Some hash \<and>
    sm_sharedIv material = map2 (XOR) hash (alpha @ beta) \<and> length (sm_sharedIv material) = 64 \<and>
    so_sha1 so (sm_sharedIv material) = Some ivHash \<and> sm_sharedMac material = take 8 ivHash \<and>
    length (sm_sharedMac material) = 8"
proof -
  obtain serverKey clientKey sharedData hash iv ivHash where
    serverKey: "DeriveServerPublicKey so license = Inr serverKey"
    and clientKey: "so_mul_base so clientPrivateKey = Some clientKey"
    and sharedData: "so_mul so clientPrivateKey serverKey = Some sharedData"
    and hash: "so_sha512 so sharedData = Some hash"
    and iv: "res_bind (xor_into 0 alpha hash) (xor_into (length alpha) beta) = Inr iv"
    and ivHash: "so_sha1 so iv = Some ivHash" "length ivHash = 20"
    and material: "material = \<lparr>sm_sharedIv = iv, sm_sharedMac = take 8 ivHash, sm_clientPublicKey = clientKey\<rparr>"
    using client unfolding Derive_def res_bind_eq_Inr Multiply_def MultiplyBase_def Sha512_def material_Sha1_def
      or_throw_Inr by (auto split: if_splits)
  have "point serverKey = times (scalar serverScalar) base"
    using derive_chain_point [OF curve serverKey [unfolded DeriveServerPublicKey_def]] chain by simp
  moreover have "point sharedData = times (scalar clientPrivateKey) (point serverKey)"
    "point clientKey = times (scalar clientPrivateKey) base"
    "point shared = times (scalar serverScalar) (point clientKey)"
    using curve sharedData clientKey server material unfolding ed25519_def by auto
  ultimately have "point shared = point sharedData"
    by (simp add: times_commute)
  then have "shared = sharedData"
    using curve server sharedData unfolding ed25519_def by blast
  moreover have len: "length hash = 64"
    using curve hash unfolding ed25519_def by blast
  moreover have "iv = map2 (XOR) hash (alpha @ beta)"
    using masked_hash [OF len sizes] iv by simp
  ultimately show ?thesis
    using hash ivHash sizes by (simp add: material)
qed

text \<open>
  A concrete curve: the group of bytes under addition, an encoding being a byte and a fixed
  tail, with the identity standing for the hashes' compression.
\<close>

definition toy_point :: "bytes \<Rightarrow> u8" where
  "toy_point p = hd p"

definition toy_sodium :: Sodium where
  "toy_sodium = \<lparr>so_init = 0,
     so_add = \<lambda>p q. Some ((toy_point p + toy_point q) # replicate 31 0),
     so_mul_base = \<lambda>s. Some (times (unat (hd s)) 1 # replicate 31 0),
     so_mul = \<lambda>s p. Some (times (unat (hd s)) (toy_point p) # replicate 31 0),
     so_reduce = take 32, so_sha512 = \<lambda>data. Some (take 64 (data @ replicate 64 0)),
     so_sha1 = \<lambda>data. Some (take 20 (data @ replicate 20 0))\<rparr>"

lemma toy_curve: "ed25519 toy_sodium toy_point 1 (\<lambda>s. unat (hd s))"
  by (auto simp: ed25519_def toy_sodium_def toy_point_def)

definition toy_chain :: License where
  "toy_chain = \<lparr>lic_Version = 1, lic_Raw = [], lic_Blocks =
     [\<lparr>lb_Type = Ephemeral, lb_PublicKey = 3 # replicate 31 0, lb_NotValidBefore = 0, lb_NotValidAfter = 1,
       lb_Raw = [0, 16] @ replicate 40 0\<rparr>]\<rparr>"

theorem key_agreement_witness:
  "\<exists>material hash. Derive toy_sodium [2] toy_chain (replicate 10 1) (replicate 54 2) = Inr material \<and>
     so_sha512 toy_sodium (250 # replicate 31 0) = Some hash \<and>
     sm_sharedIv material = map2 (XOR) hash (replicate 10 1 @ replicate 54 2)"
proof -
  have "case Derive toy_sodium [2] toy_chain (replicate 10 1) (replicate 54 2) of
      Inr m \<Rightarrow> sm_clientPublicKey m = 2 # replicate 31 0 | Inl _ \<Rightarrow> False"
    by code_simp
  then obtain m where m: "Derive toy_sodium [2] toy_chain (replicate 10 1) (replicate 54 2) = Inr m"
    and key: "sm_clientPublicKey m = 2 # replicate 31 0"
    by (auto split: sum.splits)
  have "times (unat (hd [253 :: u8])) 1 = toy_point Root + (\<Sum>block\<leftarrow>lic_Blocks toy_chain.
      times (block_scalar toy_sodium (\<lambda>s. unat (hd s)) block) (toy_point (lb_PublicKey block)))"
    by code_simp
  moreover have "so_mul toy_sodium [253] (2 # replicate 31 0) = Some (250 # replicate 31 0)"
    by code_simp
  ultimately show ?thesis
    using key_agreement [OF toy_curve _ _ m, of "[253]" "250 # replicate 31 0"] m key by auto
qed

end
