(* ===== verification/Handshake_Commands.thy ===== *)
theory Handshake_Commands
  imports Messages Base64
begin

text \<open>
  The three text commands of the key exchange: \<open>ClientInitIv\<close> and \<open>ClientEk\<close>, which the client
  sends (\<open>protocol/src/handshake/client_init_iv.cpp\<close>, \<open>client_ek.cpp\<close>), and \<open>InitIvExpand2\<close>, the
  server's answer (\<open>init_iv_expand_2.cpp\<close>). The identity is the two functions the code calls of
  it, its public key and its signature; the random \<open>alpha\<close> is an argument.

  The results say what the other side reads: parsing a written \<open>clientek\<close> gives the key and a
  signature over exactly key and \<open>beta\<close>, and an accepted \<open>initivexpand2\<close> has all its fields in
  the sizes the derivation relies on.
\<close>

section \<open>Client commands\<close>

definition ClientInitIv_Serialize ::
  "(bytes \<Rightarrow> string option) \<Rightarrow> bytes result \<Rightarrow> bytes \<Rightarrow> string \<Rightarrow> bytes result" where
  "ClientInitIv_Serialize encode_block identity_public_key alpha serverIp =
     res_bind (Base64Encode encode_block alpha) (\<lambda>alpha64.
     res_bind identity_public_key (\<lambda>publicKey.
     res_bind (Base64Encode encode_block publicKey) (\<lambda>omega.
     with_writer ''clientinitiv'' (op_for
       [Write_value ''alpha'' alpha64,
        Write_value ''omega'' omega,
        Write_integral ''ot'' 1,
        Write_value ''ip'' serverIp] (\<lambda>m. m)))))"

text \<open>The constructor builds the command; \<open>Serialize\<close> hands it out.\<close>

definition ClientEk_Serialize ::
  "(bytes \<Rightarrow> string option) \<Rightarrow> (bytes \<Rightarrow> bytes result) \<Rightarrow> bytes \<Rightarrow> bytes \<Rightarrow> bytes result" where
  "ClientEk_Serialize encode_block identity_sign clientPublicKey beta =
     (let proofData = clientPublicKey @ beta in
      res_bind (identity_sign proofData) (\<lambda>proof.
      res_bind (make_CommandWriter ''clientek'') (\<lambda>writer.
      res_bind (Base64Encode encode_block clientPublicKey) (\<lambda>ek.
      case Write_value ''ek'' ek writer of
        (Inl e, _) \<Rightarrow> Inl e
      | (Inr _, writer) \<Rightarrow>
          res_bind (Base64Encode encode_block proof) (\<lambda>proof64.
          case Write_value ''proof'' proof64 writer of
            (Inl e, _) \<Rightarrow> Inl e
          | (Inr _, writer) \<Rightarrow> CommandWriter_Take writer)))))"

section \<open>InitIvExpand2\<close>

record InitIvExpand2 =
  iv_EncodedLicense :: string
  iv_License :: bytes
  iv_Beta :: bytes
  iv_Omega :: bytes
  iv_Proof :: bytes
  iv_Ot :: u32
  iv_Root :: "string option"
  iv_Tvd :: "string option"
  iv_Time :: "string option"

text \<open>\<open>exception.what()\<close>, for the exceptions the code throws.\<close>

fun what :: "error \<Rightarrow> string" where
  "what (RuntimeError m) = m"
| "what (InvalidArgument m) = m"
| "what (ProtocolError m) = m"
| "what (NotConnectedError m) = m"
| "what (LoginRejectedError i m) = ''Login rejected ('' @ to_string (unat i) @ ''): '' @ m"
| "what (UndefinedBehaviour m) = m"

definition DecodeField :: "(string \<Rightarrow> bytes option) \<Rightarrow> CommandRow \<Rightarrow> string \<Rightarrow> bytes result" where
  "DecodeField decode_block row name =
     res_bind (row_Require name row) (\<lambda>encoded.
       case Base64Decode decode_block encoded of
         Inr data \<Rightarrow> Inr data
       | Inl (UndefinedBehaviour m) \<Rightarrow> Inl (UndefinedBehaviour m)
       | Inl e \<Rightarrow> Inl (RuntimeError (''Failed to decode initivexpand2 '' @ name @ '' (length '' @
           to_string (length encoded) @ ''): '' @ what e)))"

definition InitIvExpand2_Parse :: "(string \<Rightarrow> bytes option) \<Rightarrow> Command \<Rightarrow> InitIvExpand2 result" where
  "InitIvExpand2_Parse decode_block command =
     res_bind (check (cmd_name command = ''initivexpand2'') ''Expected initivexpand2 command'') (\<lambda>_.
     case cmd_rows command of
       [row] \<Rightarrow>
         res_bind (row_Require ''l'' row) (\<lambda>encodedLicense.
         res_bind (DecodeField decode_block row ''l'') (\<lambda>license.
         res_bind (check (license \<noteq> []) ''initivexpand2 license is empty'') (\<lambda>_.
         res_bind (DecodeField decode_block row ''beta'') (\<lambda>beta.
         res_bind (check (length beta = 54) ''Invalid initivexpand2 beta length'') (\<lambda>_.
         res_bind (DecodeField decode_block row ''omega'') (\<lambda>omega.
         res_bind (check (omega \<noteq> []) ''initivexpand2 omega is empty'') (\<lambda>_.
         res_bind (DecodeField decode_block row ''proof'') (\<lambda>proof.
         res_bind (check (proof \<noteq> []) ''initivexpand2 proof is empty'') (\<lambda>_.
         res_bind (row_Require ''ot'' row) (\<lambda>ot.
           case from_chars (2 ^ 32) ot of
             (Some n, []) \<Rightarrow>
               res_bind (check (n = 1) ''Unsupported initivexpand2 ot value'') (\<lambda>_.
               Inr \<lparr>iv_EncodedLicense = encodedLicense, iv_License = license, iv_Beta = beta, iv_Omega = omega,
                    iv_Proof = proof, iv_Ot = of_nat n, iv_Root = row_Find ''root'' row,
                    iv_Tvd = row_Find ''tvd'' row, iv_Time = row_Find ''time'' row\<rparr>)
           | _ \<Rightarrow> Inl (RuntimeError ''Invalid initivexpand2 ot value'')))))))))))
     | _ \<Rightarrow> Inl (RuntimeError ''initivexpand2 must contain exactly one row''))"

section \<open>What the other side reads\<close>

lemma write_row_read:
  assumes "clean_name name" and "clean_fields row"
  shows "\<exists>data. write_command name (values_document [row]) = Inr data \<and>
    CommandParser_ParseBytes data = Inr \<lparr>cmd_name = name, cmd_rows = values_rows [row]\<rparr>"
  using write_values_read [OF assms(1), of "[row]"] assms(2) by (auto simp: res_bind_eq_Inr)

lemma fields_of_names:
  "clean_name ''clientek''" "clean_name ''initivexpand2''"
  "clean_name ''ek''" "clean_name ''proof''" "clean_name ''l''" "clean_name ''beta''" "clean_name ''omega''" "clean_name ''ot''"
  by (simp_all add: clean_name_def)

lemma ClientEk_document:
  assumes "identity_sign (clientPublicKey @ beta) = Inr proof" and "Base64Encode encode_block clientPublicKey = Inr ek"
    and "Base64Encode encode_block proof = Inr proof64"
  shows "ClientEk_Serialize encode_block identity_sign clientPublicKey beta =
    write_command ''clientek'' (values_document [[(''ek'', ek), (''proof'', proof64)]])"
  using assms
  by (auto simp: ClientEk_Serialize_def write_command_def values_document_def write_parameter_def op_bind_def
      split: prod.splits sum.splits intro!: arg_cong [where f = "res_bind _"])

text \<open>
  The client's key message. Whatever the identity signs with, a server that parses the
  \<open>clientek\<close> command the client writes finds the client's public key and a signature over
  exactly that key followed by \<open>beta\<close>.
\<close>

theorem client_key_message:
  assumes blocks: "base64_blocks encode_block decode_block"
    and sign: "identity_sign (clientPublicKey @ beta) = Inr signature"
    and sizes: "length clientPublicKey = 32" "length signature \<le> 1000"
  shows "\<exists>data row ek proof64. ClientEk_Serialize encode_block identity_sign clientPublicKey beta = Inr data \<and>
    CommandParser_ParseBytes data = Inr \<lparr>cmd_name = ''clientek'', cmd_rows = [row]\<rparr> \<and>
    row_Require ''ek'' row = Inr ek \<and> Base64Decode decode_block ek = Inr clientPublicKey \<and>
    row_Require ''proof'' row = Inr proof64 \<and> Base64Decode decode_block proof64 = Inr signature"
proof -
  obtain ek where ek: "Base64Encode encode_block clientPublicKey = Inr ek" "NUL \<notin> set ek"
    "Base64Decode decode_block ek = Inr clientPublicKey"
    using base64_blocks.coded [OF blocks, of clientPublicKey] sizes by auto
  obtain proof64 where p: "Base64Encode encode_block signature = Inr proof64" "NUL \<notin> set proof64"
    "Base64Decode decode_block proof64 = Inr signature"
    using base64_blocks.coded [OF blocks, of signature] sizes by auto
  have "clean_fields [(''ek'', ek), (''proof'', proof64)]"
    using ek p by (simp add: clean_fields_def fields_of_names)
  from write_row_read [OF fields_of_names(1) this] show ?thesis
    using ek p ClientEk_document [of identity_sign clientPublicKey beta signature encode_block ek proof64] sign
    by (auto simp: values_rows_def row_Require_def)
qed

text \<open>The fields a server writes, Base64 with its padding kept or dropped.\<close>

definition unpadded :: "bool \<Rightarrow> string \<Rightarrow> string" where
  "unpadded strip encoded = (if strip then takeWhile (\<lambda>c. c \<noteq> CHR ''='') encoded else encoded)"

definition expand_fields ::
  "(bytes \<Rightarrow> string option) \<Rightarrow> bool \<Rightarrow> bytes \<Rightarrow> bytes \<Rightarrow> bytes \<Rightarrow> bytes \<Rightarrow> (string \<times> string) list" where
  "expand_fields encode_block strip license beta omega signature =
     (let code = (\<lambda>data. unpadded strip (projr (Base64Encode encode_block data)))
      in [(''l'', code license), (''beta'', code beta), (''omega'', code omega), (''proof'', code signature),
          (''ot'', ''1'')])"

lemma coded_field:
  assumes "base64_blocks encode_block decode_block" and "length data \<le> 1610612733"
  shows "Base64Decode decode_block (unpadded strip (projr (Base64Encode encode_block data))) = Inr data"
    and "NUL \<notin> set (unpadded strip (projr (Base64Encode encode_block data)))"
  using base64_blocks.coded [OF assms] by (auto simp: unpadded_def dest: set_takeWhileD)

text \<open>
  The server's key message. An \<open>initivexpand2\<close> written with non-empty license, key and
  signature and a 54-byte \<open>beta\<close>, each as Base64 with its padding or without, is parsed back
  to exactly these bytes.
\<close>

theorem server_key_message:
  assumes blocks: "base64_blocks encode_block decode_block"
    and fields: "license \<noteq> []" "length beta = 54" "omega \<noteq> []" "signature \<noteq> []"
    and sizes: "length license \<le> 1610612733" "length omega \<le> 1610612733" "length signature \<le> 1610612733"
  shows "\<exists>data expand.
    write_command ''initivexpand2'' (values_document [expand_fields encode_block strip license beta omega signature]) =
      Inr data \<and>
    res_bind (CommandParser_ParseBytes data) (InitIvExpand2_Parse decode_block) = Inr expand \<and>
    iv_License expand = license \<and> iv_Beta expand = beta \<and> iv_Omega expand = omega \<and> iv_Proof expand = signature"
proof -
  have "length beta \<le> 1610612733"
    using fields by simp
  note code = coded_field [OF blocks sizes(1), of strip] coded_field [OF blocks this, of strip]
    coded_field [OF blocks sizes(2), of strip] coded_field [OF blocks sizes(3), of strip]
  have "clean_fields (expand_fields encode_block strip license beta omega signature)"
    using code by (simp add: clean_fields_def expand_fields_def fields_of_names)
  moreover have "to_string 1 = ''1''"
    by code_simp
  then have "from_chars (2 ^ 32) ''1'' = (Some 1, [])"
    using from_chars_to_string [of 1 "2 ^ 32"] by simp
  ultimately show ?thesis
    using write_row_read [OF fields_of_names(2)] code fields
    by (fastforce simp: values_rows_def expand_fields_def Let_def InitIvExpand2_Parse_def DecodeField_def row_Require_def)
qed

theorem client_key_message_witness:
  "\<exists>data row ek. ClientEk_Serialize (\<lambda>data. Some (ref_encode data)) (\<lambda>data. Inr (take 3 data)) (replicate 32 7) [1] =
     Inr data \<and> CommandParser_ParseBytes data = Inr \<lparr>cmd_name = ''clientek'', cmd_rows = [row]\<rparr> \<and>
     row_Require ''ek'' row = Inr ek \<and> Base64Decode ref_decode ek = Inr (replicate 32 7)"
  using client_key_message [OF rfc4648.base64_blocks_axioms, of "\<lambda>data. Inr (take 3 data)" "replicate 32 7" "[1]"
      "replicate 3 7"] by fastforce

theorem server_key_message_witness:
  "\<exists>data expand. write_command ''initivexpand2'' (values_document
       [expand_fields (\<lambda>data. Some (ref_encode data)) True [1] (replicate 54 2) [3] [4]]) = Inr data \<and>
     res_bind (CommandParser_ParseBytes data) (InitIvExpand2_Parse ref_decode) = Inr expand \<and> iv_Omega expand = [3]"
  using server_key_message [OF rfc4648.base64_blocks_axioms, of "[1]" "replicate 54 2" "[3]" "[4]" True] by force

end
