(* ===== verification/Identity_Keys.thy ===== *)
theory Identity_Keys
  imports Prelude
begin

text \<open>
  The DER public keys of identities: \<open>Identity::PublicKey\<close> (\<open>protocol/src/identity.cpp\<close>) writes
  the client's own key, \<open>P256Impl::ParsePublicKey\<close> (\<open>protocol/src/crypto/p256.cpp\<close>) reads the
  server's, in the same TomCrypt layout, and \<open>P256::Verify\<close> checks a signature with it.

  OpenSSL is a parameter: \<open>import_point\<close> and \<open>digest_verify\<close> are its key import and its
  verification. A \<open>BIGNUM\<close> coordinate is the byte string \<open>BN_bn2bin\<close> writes for it, big-endian
  with no leading zero, so that \<open>BN_num_bytes\<close> is its length and zero is the empty string.
  \<open>size_t\<close> lengths read from the wire are 64-bit words; offsets into the data are numbers.
\<close>

unbundle bit_operations_syntax

section \<open>DerReader\<close>

record DerReader =
  der_data :: bytes
  der_offset :: nat

definition make_der :: "bytes \<Rightarrow> DerReader" where
  "make_der data = \<lparr>der_data = data, der_offset = 0\<rparr>"

definition der_Require :: "nat \<Rightarrow> (DerReader, unit) op" where
  "der_Require count r =
     (if der_offset r > length (der_data r) \<or> count > length (der_data r) - der_offset r
      then (Inl (RuntimeError ''Unexpected end of DER data''), r) else (Inr (), r))"

text \<open>\<open>m_Data[m_Offset++]\<close>, with no check of its own.\<close>

definition der_next :: "(DerReader, u8) op" where
  "der_next r =
     (case vec_get (der_data r) (der_offset r) of
        Inl e \<Rightarrow> (Inl e, r)
      | Inr b \<Rightarrow> (Inr b, r\<lparr>der_offset := der_offset r + 1\<rparr>))"

fun der_length_bytes :: "nat \<Rightarrow> u64 \<Rightarrow> (DerReader, u64) op" where
  "der_length_bytes 0 result = op_return result"
| "der_length_bytes (Suc n) result =
     op_bind der_next (\<lambda>b. der_length_bytes n (push_bit 8 result OR ucast b))"

definition der_ReadLength :: "(DerReader, u64) op" where
  "der_ReadLength =
     op_bind (der_Require 1) (\<lambda>_. op_bind der_next (\<lambda>first.
       if first AND 0x80 = 0 then op_return (ucast first)
       else let byteCount = unat (first AND 0x7f) in
         if byteCount = 0 \<or> byteCount > 8 then op_throw (RuntimeError ''Unsupported DER length'')
         else op_bind (der_Require byteCount) (\<lambda>_. der_length_bytes byteCount 0)))"

definition der_Read :: "u8 \<Rightarrow> (DerReader, bytes) op" where
  "der_Read expectedTag =
     op_bind (der_Require 1) (\<lambda>_. op_bind der_next (\<lambda>tag.
       if tag \<noteq> expectedTag then op_throw (RuntimeError ''Unexpected DER tag'')
       else op_bind der_ReadLength (\<lambda>len. op_bind (der_Require (unat len)) (\<lambda>_ r.
         (Inr (take (unat len) (drop (der_offset r) (der_data r))),
          r\<lparr>der_offset := der_offset r + unat len\<rparr>)))))"

definition der_Empty :: "DerReader \<Rightarrow> bool" where
  "der_Empty r \<longleftrightarrow> der_offset r = length (der_data r)"

section \<open>ParsePublicKey\<close>

fun strip_zeros :: "bytes \<Rightarrow> bytes" where
  "strip_zeros integer =
     (case integer of b # c # rest \<Rightarrow> if b = 0 then strip_zeros (c # rest) else integer | _ \<Rightarrow> integer)"

declare strip_zeros.simps [simp del]

definition DecodeCoordinate :: "bytes \<Rightarrow> bytes result" where
  "DecodeCoordinate integer =
     (if integer = [] then Inl (RuntimeError ''Empty P-256 coordinate'')
      else if hd integer AND 0x80 \<noteq> 0 then Inl (RuntimeError ''Negative P-256 coordinate'')
      else let integer' = strip_zeros integer in
        if length integer' > 32 then Inl (RuntimeError ''P-256 coordinate is too large'')
        else Inr (replicate (32 - length integer') 0 @ integer'))"

text \<open>The fields of the key, down to the 65-byte uncompressed point handed to OpenSSL.\<close>

definition parse_point :: "bytes \<Rightarrow> bytes result" where
  "parse_point encoded =
     (case der_Read 0x30 (make_der encoded) of
        (Inl e, _) \<Rightarrow> Inl e
      | (Inr sequence, outer) \<Rightarrow>
          if \<not> der_Empty outer then Inl (RuntimeError ''Unexpected trailing public key data'')
          else fst (op_bind (der_Read 0x03) (\<lambda>bitString.
            op_bind (op_when (length bitString \<noteq> 2 \<or> bitString ! 0 \<noteq> 0x07 \<or> bitString ! 1 \<noteq> 0x00)
              (op_throw (RuntimeError ''Invalid TeamSpeak P-256 key marker''))) (\<lambda>_.
            op_bind (der_Read 0x02) (\<lambda>keySize.
            op_bind (op_when (length keySize \<noteq> 1 \<or> keySize ! 0 \<noteq> 0x20)
              (op_throw (RuntimeError ''Invalid TeamSpeak P-256 key size''))) (\<lambda>_.
            op_bind (der_Read 0x02) (\<lambda>xInteger.
            op_bind (der_Read 0x02) (\<lambda>yInteger.
            op_bind (op_gets der_Empty) (\<lambda>empty.
            if \<not> empty then op_throw (RuntimeError ''Unexpected TeamSpeak public key fields'')
            else op_lift (res_bind (DecodeCoordinate xInteger) (\<lambda>x.
              res_bind (DecodeCoordinate yInteger) (\<lambda>y. Inr ([0x04] @ x @ y))))))))))) (make_der sequence)))"

definition ParsePublicKey :: "(bytes \<Rightarrow> 'key option) \<Rightarrow> bytes \<Rightarrow> 'key result" where
  "ParsePublicKey import_point encoded = res_bind (parse_point encoded) (\<lambda>point.
     case import_point point of
       None \<Rightarrow> Inl (RuntimeError ''Failed to import P-256 public key'')
     | Some key \<Rightarrow> Inr key)"

text \<open>
  \<open>P256::Verify\<close>; \<open>digest_verify key data signature\<close> is the \<open>int\<close> that \<open>EVP_DigestVerify\<close> answers.
\<close>

definition Verify ::
  "(bytes \<Rightarrow> 'key option) \<Rightarrow> ('key \<Rightarrow> bytes \<Rightarrow> bytes \<Rightarrow> int) \<Rightarrow> bytes \<Rightarrow> bytes \<Rightarrow> bytes \<Rightarrow> bool result" where
  "Verify import_point digest_verify publicKey data signature =
     res_bind (ParsePublicKey import_point publicKey) (\<lambda>key.
       let result = digest_verify key data signature in
       if result < 0 then Inl (RuntimeError ''P-256 signature verification failed'')
       else Inr (result = 1))"

section \<open>Identity::PublicKey\<close>

definition WriteDerLength :: "bytes \<Rightarrow> nat \<Rightarrow> bytes result" where
  "WriteDerLength output len =
     (if len \<ge> 128 then Inl (RuntimeError ''Unsupported DER length'')
      else Inr (output @ [of_nat len]))"

definition WriteDerInteger :: "bytes \<Rightarrow> bytes \<Rightarrow> bytes result" where
  "WriteDerInteger output buffer =
     (if length buffer = 0 then Inr (output @ [0x02] @ [0x01] @ [0x00])
      else let needsPadding = hd buffer AND 0x80 \<noteq> 0 in
        res_bind (WriteDerLength (output @ [0x02]) (length buffer + (if needsPadding then 1 else 0))) (\<lambda>output'.
          Inr (output' @ (if needsPadding then [0x00] else []) @ buffer)))"

definition Identity_PublicKey :: "bytes \<Rightarrow> bytes \<Rightarrow> bytes result" where
  "Identity_PublicKey x y =
     res_bind (WriteDerInteger [0x03, 0x02, 0x07, 0x00, 0x02, 0x01, 0x20] x) (\<lambda>body.
     res_bind (WriteDerInteger body y) (\<lambda>body'.
     res_bind (WriteDerLength [0x30] (length body')) (\<lambda>result. Inr (result @ body'))))"

section \<open>Memory safety\<close>

text \<open>
  As for every reader of the client, an operation is described by where it moves the offset:
  \<open>der_moves\<close> says it stays inside the data and cannot index past its end, given that at least
  \<open>n\<close> bytes were required before.
\<close>

definition der_left :: "nat \<Rightarrow> DerReader \<Rightarrow> bool" where
  "der_left n r \<longleftrightarrow> der_offset r + n \<le> length (der_data r)"

definition der_moves :: "nat \<Rightarrow> nat \<Rightarrow> (DerReader, 'a) op \<Rightarrow> bool" where
  "der_moves n m f \<longleftrightarrow> (\<forall>r. der_left n r \<longrightarrow> no_ub (fst (f r)) \<and>
     (\<forall>x r'. f r = (Inr x, r') \<longrightarrow> der_left m r' \<and> der_data r' = der_data r))"

lemma der_moves_bind:
  assumes f: "der_moves n m f" and g: "\<And>x. der_moves m k (g x)"
  shows "der_moves n k (op_bind f g)"
  unfolding der_moves_def
proof (intro allI impI)
  fix r
  assume r: "der_left n r"
  show "no_ub (fst (op_bind f g r)) \<and>
      (\<forall>y r'. op_bind f g r = (Inr y, r') \<longrightarrow> der_left k r' \<and> der_data r' = der_data r)"
  proof (cases "f r")
    case (Pair v r1)
    show ?thesis
    proof (cases v)
      case (Inr x)
      then have r1: "der_left m r1" "der_data r1 = der_data r"
        using f r Pair unfolding der_moves_def by blast+
      have "op_bind f g r = g x r1"
        by (simp add: op_bind_def Pair Inr)
      then show ?thesis
        using g [of x] r1 unfolding der_moves_def by metis
    next
      case (Inl e)
      then have "op_bind f g r = (Inl e, r1)" and "no_ub (fst (Inl e :: 'a result, r1))"
        using f r Pair unfolding der_moves_def by (simp add: op_bind_def, metis)
      then show ?thesis
        by simp
    qed
  qed
qed

lemma der_moves_next: "der_moves (Suc n) n der_next"
  by (auto simp: der_moves_def der_next_def der_left_def vec_get_def)

lemma der_moves_Require: "der_moves 0 n (der_Require n)"
  by (auto simp: der_moves_def der_Require_def der_left_def)

lemma der_moves_basic:
  "m \<le> n \<Longrightarrow> der_moves n m (op_return x)"
  "safe_error e \<Longrightarrow> der_moves n m (op_throw e)"
  "no_ub v \<Longrightarrow> m \<le> n \<Longrightarrow> der_moves n m (op_lift v)"
  "m \<le> n \<Longrightarrow> der_moves n m (op_gets h)"
  "safe_error e \<Longrightarrow> m \<le> n \<Longrightarrow> der_moves n m (op_when b (op_throw e))"
  by (auto simp: der_moves_def der_left_def)

lemma der_moves_length_bytes: "der_moves n 0 (der_length_bytes n v)"
  by (induction n arbitrary: v)
     (auto intro: der_moves_bind der_moves_next simp only: der_length_bytes.simps der_moves_basic)

lemma der_moves_ReadLength: "der_moves 0 0 der_ReadLength"
proof -
  have "der_moves 0 0 (op_bind (der_Require k) (\<lambda>_. der_length_bytes k 0))" for k
    by (rule der_moves_bind [OF der_moves_Require der_moves_length_bytes])
  then show ?thesis
    unfolding der_ReadLength_def Let_def
    by (intro der_moves_bind [OF der_moves_Require] der_moves_bind [OF der_moves_next [of 0, folded One_nat_def]])
       (simp add: der_moves_basic)
qed

lemma der_moves_Read: "der_moves 0 0 (der_Read tag)"
proof -
  have "der_moves k 0 (\<lambda>r. (Inr (h r), r\<lparr>der_offset := der_offset r + k\<rparr>))" for k and h :: "DerReader \<Rightarrow> bytes"
    by (auto simp: der_moves_def der_left_def)
  then have "der_moves 0 0 (op_bind der_ReadLength (\<lambda>len. op_bind (der_Require (unat len)) (\<lambda>_ r.
      (Inr (take (unat len) (drop (der_offset r) (der_data r))), r\<lparr>der_offset := der_offset r + unat len\<rparr>))))"
    by (intro der_moves_bind [OF der_moves_ReadLength] der_moves_bind [OF der_moves_Require])
  then show ?thesis
    unfolding der_Read_def
    by (intro der_moves_bind [OF der_moves_Require] der_moves_bind [OF der_moves_next [of 0, folded One_nat_def]])
       (simp add: der_moves_basic)
qed

lemma DecodeCoordinate_safe: "no_ub (DecodeCoordinate v)"
  by (simp add: DecodeCoordinate_def Let_def)

lemma der_movesD: "der_moves 0 0 f \<Longrightarrow> no_ub (fst (f (make_der bs)))"
  by (simp add: der_moves_def der_left_def make_der_def)

text \<open>
  The server's public key is parsed before the server is authenticated, and parsing it is
  memory safe for every byte string: no tag, length or content byte is read past the end,
  whatever lengths the DER claims, up to eight length bytes of an unsigned 64-bit value.
\<close>

theorem parse_public_key_safe: "no_ub (ParsePublicKey import_point encoded)"
proof -
  have "no_ub (res_bind (DecodeCoordinate x) (\<lambda>x. res_bind (DecodeCoordinate y) (\<lambda>y. Inr (k x y))))"
    for x y and k :: "bytes \<Rightarrow> bytes \<Rightarrow> bytes"
    by (intro no_ub_bind DecodeCoordinate_safe) simp
  note coordinates = this [THEN der_moves_basic(3) [OF _ le_refl]]
  have "no_ub (parse_point encoded)"
    using der_movesD [OF der_moves_Read, of "0x30" encoded]
    unfolding parse_point_def
    by (auto intro!: der_movesD der_moves_bind [OF der_moves_Read] der_moves_bind [OF der_moves_basic(5)]
        der_moves_bind [OF der_moves_basic(4)] coordinates simp: der_moves_basic(2) split: prod.splits sum.splits)
  then show ?thesis
    unfolding ParsePublicKey_def by (auto intro!: no_ub_bind split: option.splits)
qed

section \<open>The key written is the key read\<close>

text \<open>The bytes \<open>BN_bn2bin\<close> writes for a P-256 coordinate, and the coordinate at full width.\<close>

definition coordinate_bytes :: "bytes \<Rightarrow> bool" where
  "coordinate_bytes v \<longleftrightarrow> length v \<le> 32 \<and> (v \<noteq> [] \<longrightarrow> hd v \<noteq> 0)"

definition pad32 :: "bytes \<Rightarrow> bytes" where
  "pad32 v = replicate (32 - length v) 0 @ v"

definition der_integer :: "bytes \<Rightarrow> bytes" where
  "der_integer v = (if v = [] then [0] else if hd v AND 0x80 \<noteq> 0 then 0 # v else v)"

lemma der_integer_length: "coordinate_bytes v \<Longrightarrow> 1 \<le> length (der_integer v) \<and> length (der_integer v) \<le> 33"
  by (cases v) (auto simp: der_integer_def coordinate_bytes_def)

lemma WriteDerInteger_exact:
  "coordinate_bytes v \<Longrightarrow>
   WriteDerInteger out v = Inr (out @ 0x02 # of_nat (length (der_integer v)) # der_integer v)"
  by (auto simp: WriteDerInteger_def WriteDerLength_def der_integer_def coordinate_bytes_def Let_def)

lemma strip_zeros_id: "v = [] \<or> hd v \<noteq> 0 \<Longrightarrow> strip_zeros v = v"
  by (subst strip_zeros.simps) (auto split: list.splits)

lemma DecodeCoordinate_der_integer:
  assumes "coordinate_bytes v"
  shows "DecodeCoordinate (der_integer v) = Inr (pad32 v)"
proof (cases v)
  case Nil
  have "strip_zeros [0] = [0 :: u8]"
    by (subst strip_zeros.simps) simp
  moreover have "replicate (Suc 31) (0 :: u8) = replicate 31 0 @ [0]"
    by (simp only: replicate_append_same replicate_Suc)
  ultimately show ?thesis
    by (simp add: Nil DecodeCoordinate_def der_integer_def pad32_def)
next
  case (Cons b bs)
  have "strip_zeros (0 # v) = v"
    using assms strip_zeros_id [of v] by (subst strip_zeros.simps) (auto simp: coordinate_bytes_def Cons)
  then show ?thesis
    using assms strip_zeros_id [of v]
    by (auto simp: DecodeCoordinate_def der_integer_def coordinate_bytes_def pad32_def Cons)
qed

definition der_at :: "bytes \<Rightarrow> bytes \<Rightarrow> DerReader" where
  "der_at pre rest = \<lparr>der_data = pre @ rest, der_offset = length pre\<rparr>"

lemma der_at_simps:
  "make_der bs = der_at [] bs"
  "der_Require n (der_at pre rest) =
     (if n \<le> length rest then (Inr (), der_at pre rest)
      else (Inl (RuntimeError ''Unexpected end of DER data''), der_at pre rest))"
  "der_next (der_at pre (b # rest)) = (Inr b, der_at (pre @ [b]) rest)"
  "der_Empty (der_at pre rest) \<longleftrightarrow> rest = []"
  by (auto simp: der_at_def make_der_def der_Require_def der_next_def der_Empty_def)

lemma short_length:
  fixes n :: nat
  assumes "n < 128"
  shows "(of_nat n :: u8) AND 0x80 = 0" "unat (ucast (of_nat n :: u8) :: u64) = n"
proof -
  have n: "unat (of_nat n :: u8) = n"
    using assms by (simp add: unat_of_nat)
  have bit7: "\<not> bit n 7"
    using assms by (simp add: bit_iff_odd)
  have high: "(0x80 :: u8) = push_bit 7 1"
    by simp
  have "bit (0x80 :: u8) k \<longleftrightarrow> k = 7" for k
    unfolding high by (simp only: bit_push_bit_iff bit_1_iff) auto
  then have "bit (of_nat n AND 0x80 :: u8) k = bit (0 :: u8) k" for k
    using bit7 by (auto simp: bit_and_iff bit_of_nat_iff)
  then show "(of_nat n :: u8) AND 0x80 = 0"
    by (rule bit_eqI)
  show "unat (ucast (of_nat n :: u8) :: u64) = n"
    using n by (simp add: unat_ucast_up)
qed

lemma der_Read_at:
  assumes "length content < 128"
  shows "der_Read tag (der_at pre (tag # of_nat (length content) # content @ rest)) =
    (Inr content, der_at (pre @ tag # of_nat (length content) # content) rest)"
proof -
  have "der_ReadLength (der_at p (of_nat (length content) # content @ rest)) =
      (Inr (ucast (of_nat (length content) :: u8)), der_at (p @ [of_nat (length content)]) (content @ rest))" for p
    using short_length(1) [OF assms] by (simp add: der_ReadLength_def op_bind_def der_at_simps)
  then show ?thesis
    using short_length(2) [OF assms]
    by (simp add: der_Read_def op_bind_def der_at_simps) (simp add: der_at_def)
qed

lemma der_point_written:
  assumes x: "coordinate_bytes x" and y: "coordinate_bytes y"
    and encoded: "Identity_PublicKey x y = Inr encoded"
  shows "parse_point encoded = Inr ([0x04] @ pad32 x @ pad32 y)"
proof -
  let ?int = "\<lambda>v. 0x02 # of_nat (length (der_integer v)) # der_integer v"
  let ?body = "0x03 # of_nat (length [0x07, 0x00 :: u8]) # [0x07, 0x00] @
     (0x02 # of_nat (length [0x20 :: u8]) # [0x20] @ ?int x @ ?int y)"
  note lengths = der_integer_length [OF x] der_integer_length [OF y]
  have encoded': "encoded = 0x30 # of_nat (length ?body) # ?body @ []"
    using encoded lengths
    by (auto simp: Identity_PublicKey_def WriteDerInteger_exact [OF x] WriteDerInteger_exact [OF y]
        WriteDerLength_def split: if_splits)
  have outer: "der_Read 0x30 (make_der encoded) = (Inr ?body, der_at (0x30 # of_nat (length ?body) # ?body) [])"
    unfolding encoded' der_at_simps(1) using lengths by (subst der_Read_at) auto
  have marker: "der_Read 0x03 (der_at [] ?body) =
      (Inr [0x07, 0x00], der_at [0x03, 0x02, 0x07, 0x00] (0x02 # 0x01 # [0x20] @ ?int x @ ?int y))"
    by (subst der_Read_at) auto
  have size: "der_Read 0x02 (der_at p (0x02 # 0x01 # [0x20] @ r)) = (Inr [0x20], der_at (p @ [0x02, 0x01, 0x20]) r)" for p r
    using der_Read_at [of "[0x20]" "0x02" p r] by simp
  have int: "der_Read 0x02 (der_at p (?int v @ r)) = (Inr (der_integer v), der_at (p @ ?int v) r)"
    if "coordinate_bytes v" for p v r
    using der_Read_at [of "der_integer v" "0x02" p r] der_integer_length [OF that] by simp
  show ?thesis
    unfolding parse_point_def outer
    using marker size int [OF x] int [OF y, of _ "[]"]
    by (simp add: der_at_simps op_bind_def DecodeCoordinate_der_integer x y)
qed

text \<open>
  A P-256 public key written by the client is read back to the same uncompressed point, both
  coordinates at their full 32 bytes, whichever of them are zero, short, or need the DER sign
  byte; writing never fails and the outer length always fits the single length byte.
\<close>

theorem public_key_roundtrip:
  assumes "coordinate_bytes x" and "coordinate_bytes y"
  shows "\<exists>encoded. Identity_PublicKey x y = Inr encoded \<and>
    parse_point encoded = Inr ([0x04] @ pad32 x @ pad32 y) \<and> length (pad32 x @ pad32 y) = 64"
proof -
  obtain encoded where "Identity_PublicKey x y = Inr encoded"
    using der_integer_length [OF assms(1)] der_integer_length [OF assms(2)]
    by (auto simp: Identity_PublicKey_def WriteDerInteger_exact assms WriteDerLength_def)
  then show ?thesis
    using der_point_written [OF assms] assms by (simp add: pad32_def coordinate_bytes_def)
qed

theorem public_key_roundtrip_witness:
  "\<exists>encoded. Identity_PublicKey (0x90 # replicate 31 1) [0x05] = Inr encoded \<and>
     parse_point encoded = Inr ([0x04] @ (0x90 # replicate 31 1) @ replicate 31 0 @ [0x05])"
  using public_key_roundtrip [of "0x90 # replicate 31 1" "[0x05]"]
  by (simp add: coordinate_bytes_def pad32_def)

end
