(* ===== verification/Init_Messages.thy ===== *)
theory Init_Messages
  imports Packet
begin

text \<open>
  The five \<open>Init1\<close> messages that open a connection (\<open>protocol/src/handshake/get_cookie.cpp\<close>,
  \<open>set_cookie.cpp\<close>, \<open>get_puzzle.cpp\<close>, \<open>puzzle.cpp\<close>, \<open>puzzle_answer.cpp\<close>, with the two base
  classes of \<open>include/protocol/handshake/message.hpp\<close>).

  The server keeps no state before the puzzle is solved: it recognises a client by the bytes
  the client echoes. The theorems show that they are echoed unchanged: what follows the header
  of \<open>GetPuzzle\<close> is the cookie of the packet parsed, and what follows the header of
  \<open>PuzzleAnswer\<close> is the whole puzzle, the solution and the IV command.
\<close>

section \<open>Headers\<close>

definition handshake_PacketId :: u16 where "handshake_PacketId = 101"
definition InitialClientId :: u16 where "InitialClientId = 0"
definition handshake_Flags :: u8 where "handshake_Flags = 0x88"
definition GetCookieCommand :: u8 where "GetCookieCommand = 0x00"
definition SetCookieCommand :: u8 where "SetCookieCommand = 0x01"
definition GetPuzzleCommand :: u8 where "GetPuzzleCommand = 0x02"
definition PuzzleCommand :: u8 where "PuzzleCommand = 0x03"
definition PuzzleAnswerCommand :: u8 where "PuzzleAnswerCommand = 0x04"
definition ResetCommand :: u8 where "ResetCommand = 0x7f"

text \<open>\<open>ClientHandshakeMessage<Command>::CreateWriter\<close>; the template parameter is an argument.\<close>

definition CreateWriter :: "u8 \<Rightarrow> u32 \<Rightarrow> BinaryWriter" where
  "CreateWriter command clientVersion =
     Init_WriteClientHeader \<lparr>ci_packetId = handshake_PacketId, ci_clientId = InitialClientId,
       ci_flags = handshake_Flags, ci_version = clientVersion, ci_command = command\<rparr> empty_writer"

text \<open>\<open>ServerHandshakeMessage<Command>::CreateReader\<close>, the reader left after the header.\<close>

definition CreateReader :: "u8 \<Rightarrow> Packet \<Rightarrow> BinaryReader result" where
  "CreateReader command packet =
     (case Init_ReadServerHeader (make_reader packet) of
        (Inl e, _) \<Rightarrow> Inl e
      | (Inr header, reader) \<Rightarrow>
          if si_packetId header \<noteq> handshake_PacketId then Inl (RuntimeError ''Invalid handshake packet ID'')
          else if si_flags header \<noteq> handshake_Flags then Inl (RuntimeError ''Invalid handshake flags'')
          else if si_command header \<noteq> command then Inl (RuntimeError ''Unexpected handshake command'')
          else Inr reader)"

section \<open>Messages\<close>

text \<open>The time and the four random bytes are read from outside: they are arguments.\<close>

definition GetCookie_Serialize :: "u32 \<Rightarrow> u32 \<Rightarrow> bytes \<Rightarrow> Packet" where
  "GetCookie_Serialize clientVersion currentUnixTime random =
     Take (WriteZeros 6 (WriteU16 1 (WriteBytes random (WriteU32 currentUnixTime
       (CreateWriter GetCookieCommand clientVersion)))))"

record SetCookie =
  sk_ServerData :: bytes
  sk_RandomData :: bytes

definition SetCookie_Parse :: "Packet \<Rightarrow> SetCookie result" where
  "SetCookie_Parse packet = res_bind (CreateReader SetCookieCommand packet) (\<lambda>reader.
     fst (op_bind (ReadBytes 16) (\<lambda>serverData.
          op_bind (ReadBytes 4) (\<lambda>randomData.
          op_bind (op_gets Remaining) (\<lambda>remaining.
          op_bind (if remaining = 3 then Skip 3
                   else if remaining \<noteq> 0 then op_throw (RuntimeError ''Unexpected SET_COOKIE payload size'')
                   else op_return ()) (\<lambda>_.
          op_return \<lparr>sk_ServerData = serverData, sk_RandomData = randomData\<rparr>)))) reader))"

definition GetPuzzle_Serialize :: "SetCookie \<Rightarrow> u32 \<Rightarrow> Packet" where
  "GetPuzzle_Serialize cookie clientVersion =
     Take (WriteBytes (sk_RandomData cookie) (WriteBytes (sk_ServerData cookie)
       (CreateWriter GetPuzzleCommand clientVersion)))"

record Puzzle =
  pz_X :: bytes
  pz_N :: bytes
  pz_Level :: u32
  pz_ServerData :: bytes

definition Puzzle_Parse :: "Packet \<Rightarrow> Puzzle result" where
  "Puzzle_Parse packet = res_bind (CreateReader PuzzleCommand packet) (\<lambda>reader.
     fst (op_bind (ReadBytes 64) (\<lambda>x.
          op_bind (ReadBytes 64) (\<lambda>n.
          op_bind ReadU32 (\<lambda>level.
          op_bind (ReadBytes 100) (\<lambda>serverData.
          op_bind (op_gets Remaining) (\<lambda>remaining.
          if remaining \<noteq> 0 then op_throw (RuntimeError ''Unexpected trailing puzzle data'')
          else op_return \<lparr>pz_X = x, pz_N = n, pz_Level = level, pz_ServerData = serverData\<rparr>))))) reader))"

definition PuzzleAnswer_Serialize :: "Puzzle \<Rightarrow> bytes \<Rightarrow> bytes \<Rightarrow> u32 \<Rightarrow> Packet" where
  "PuzzleAnswer_Serialize puzzle solution clientInitIv clientVersion =
     Take (WriteBytes clientInitIv (WriteBytes solution (WriteBytes (pz_ServerData puzzle)
       (WriteU32 (pz_Level puzzle) (WriteBytes (pz_N puzzle) (WriteBytes (pz_X puzzle)
         (CreateWriter PuzzleAnswerCommand clientVersion)))))))"

section \<open>Layout\<close>

definition client_init_header :: "u32 \<Rightarrow> u8 \<Rightarrow> bytes" where
  "client_init_header clientVersion command =
     InitMagic @ [0, 101, 0, 0, 0x88] @ enc_u32 clientVersion @ [command]"

definition server_init_header :: "u8 \<Rightarrow> bytes" where
  "server_init_header command = InitMagic @ [0, 101, 0x88, command]"

lemma CreateWriter_data: "bw_data (CreateWriter command v) = client_init_header v command"
  by (simp add: CreateWriter_def Init_WriteClientHeader_def client_init_header_def handshake_PacketId_def
      InitialClientId_def handshake_Flags_def enc_u8_def enc_u16_def)

lemma length_InitMagic [simp]: "length InitMagic = 8"
  by (simp add: InitMagic_def)

lemma ReadU16_short: "length rest < 2 \<Longrightarrow> ReadU16 (reader_at pre rest) =
    (Inl (RuntimeError ''BinaryReader exceeds buffer''), reader_at pre rest)"
  by (rule u16_field.get_short)

lemma ReadU8_short: "ReadU8 (reader_at pre []) = (Inl (RuntimeError ''BinaryReader exceeds buffer''), reader_at pre [])"
  by (rule u8_field.get_short) simp

lemma u16_of_101: "u16_of a b = 101 \<longleftrightarrow> a = 0 \<and> b = 101"
proof -
  have "u16_of a b = 101 \<longleftrightarrow> enc_u16 101 = [a, b]"
    using u16_of_enc [of 101 a b] by (metis enc_u16_of)
  moreover have "enc_u16 101 = [0, 101]"
    by (simp add: enc_u16_def)
  ultimately show ?thesis
    by auto
qed

text \<open>A server message is accepted by \<open>CreateReader\<close> exactly when it starts with its header.\<close>

lemma CreateReader_Inr:
  "CreateReader command packet = Inr reader \<longleftrightarrow>
   (\<exists>rest. packet = server_init_header command @ rest \<and> reader = reader_at (server_init_header command) rest)"
proof
  assume accepted: "CreateReader command packet = Inr reader"
  then have len: "8 \<le> length packet" and magic: "take 8 packet = InitMagic"
    by (auto simp: CreateReader_def Init_ReadServerHeader_def op_bind_def make_reader_at ReadBytes_at
        split: if_splits prod.splits sum.splits)
  define r1 where "r1 = drop 8 packet"
  have packet: "packet = InitMagic @ r1"
    by (metis append_take_drop_id magic r1_def)
  have "2 \<le> length r1"
  proof (rule ccontr)
    assume "\<not> 2 \<le> length r1"
    then show False
      using accepted by (auto simp: CreateReader_def Init_ReadServerHeader_def op_bind_def make_reader_at ReadBytes_at
        packet ReadU16_short)
  qed
  then obtain a b r2 where r1: "r1 = a # b # r2"
    by (cases r1; cases "tl r1") auto
  show "\<exists>rest. packet = server_init_header command @ rest \<and> reader = reader_at (server_init_header command) rest"
    using accepted
    by (cases r2; cases "tl r2")
      (auto simp: CreateReader_def Init_ReadServerHeader_def op_bind_def make_reader_at ReadBytes_at packet r1
        ReadU16_at ReadU8_at ReadU8_short server_init_header_def handshake_PacketId_def handshake_Flags_def
        u16_of_101 split: if_splits)
next
  assume "\<exists>rest. packet = server_init_header command @ rest \<and> reader = reader_at (server_init_header command) rest"
  then show "CreateReader command packet = Inr reader"
    by (auto simp: CreateReader_def Init_ReadServerHeader_def op_bind_def make_reader_at ReadBytes_at ReadU16_at
        ReadU8_at server_init_header_def handshake_PacketId_def handshake_Flags_def u16_of_101)
qed

section \<open>What the parsers accept\<close>

lemma enc_u32_surj: "length bs = 4 \<Longrightarrow> \<exists>v. enc_u32 v = bs"
proof -
  assume "length bs = 4"
  then obtain a b c d where bs: "bs = [a, b, c, d]"
    by (auto simp: numeral_eq_Suc length_Suc_conv)
  let ?v = "push_bit 24 (ucast a) OR push_bit 16 (ucast b) OR push_bit 8 (ucast c) OR ucast d :: u32"
  have "ucast (drop_bit 24 ?v) = a" "ucast (drop_bit 16 ?v) = b" "ucast (drop_bit 8 ?v) = c" "ucast ?v = d"
    by (rule bit_word_eqI; use bit_imp_le_length in \<open>force simp: bit_simps\<close>)+
  then show ?thesis
    unfolding bs by (intro exI [of _ ?v]) (simp add: enc_u32_def)
qed

lemma ReadU32_at: "ReadU32 (reader_at pre rest) =
   (if 4 \<le> length rest then (Inr (THE v. enc_u32 v = take 4 rest), reader_at (pre @ take 4 rest) (drop 4 rest))
    else (Inl (RuntimeError ''BinaryReader exceeds buffer''), reader_at pre rest))"
proof (cases "4 \<le> length rest")
  case True
  then obtain v where v: "enc_u32 v = take 4 rest"
    using enc_u32_surj [of "take 4 rest"] by auto
  then have "(THE v. enc_u32 v = take 4 rest) = v"
    using u32_field.encode_inject by auto
  then show ?thesis
    using u32_field.get_encoded [of pre v "drop 4 rest"] True by (simp add: v)
qed (use u32_field.get_short [of rest pre] in simp)

lemma SetCookie_Parse_payload:
  "SetCookie_Parse (server_init_header SetCookieCommand @ rest) = Inr cookie \<longleftrightarrow>
   length rest \<in> {20, 23} \<and> cookie = \<lparr>sk_ServerData = take 16 rest, sk_RandomData = take 4 (drop 16 rest)\<rparr>"
  by (auto simp: SetCookie_Parse_def CreateReader_Inr [of SetCookieCommand _, THEN iffD2] res_bind_def op_bind_def
      ReadBytes_at Skip_at split: if_splits)

lemma Puzzle_Parse_payload:
  "Puzzle_Parse (server_init_header PuzzleCommand @ rest) = Inr puzzle \<longleftrightarrow>
   length rest = 232 \<and> puzzle = \<lparr>pz_X = take 64 rest, pz_N = take 64 (drop 64 rest),
     pz_Level = (THE v. enc_u32 v = take 4 (drop 128 rest)), pz_ServerData = take 100 (drop 132 rest)\<rparr>"
  by (auto simp: Puzzle_Parse_def CreateReader_Inr [of PuzzleCommand _, THEN iffD2] res_bind_def op_bind_def
      ReadBytes_at ReadU32_at split: if_splits)

lemma parsed_has_header:
  "SetCookie_Parse packet = Inr cookie \<Longrightarrow> \<exists>rest. packet = server_init_header SetCookieCommand @ rest"
  "Puzzle_Parse packet = Inr puzzle \<Longrightarrow> \<exists>rest. packet = server_init_header PuzzleCommand @ rest"
  by (auto simp: SetCookie_Parse_def Puzzle_Parse_def res_bind_eq_Inr CreateReader_Inr)

text \<open>Consecutive pieces of a byte string, by their widths.\<close>

fun cut :: "nat list \<Rightarrow> 'a list \<Rightarrow> 'a list list" where
  "cut [] bs = [bs]"
| "cut (n # ns) bs = take n bs # cut ns (drop n bs)"

lemma concat_cut: "concat (cut ns bs) = bs"
  by (induction ns arbitrary: bs) simp_all

text \<open>
  The cookie the client answers with is the one it was sent. \<open>SetCookie::Parse\<close> accepts the
  two sizes it is meant to, 20 bytes after the header or the 23 of the newer servers, and
  \<open>GetPuzzle\<close> carries exactly the first 20 of them after its own header.
\<close>

theorem cookie_echoed:
  "SetCookie_Parse packet = Inr cookie \<longleftrightarrow>
   (\<exists>payload extra. packet = server_init_header SetCookieCommand @ payload @ extra \<and>
      length payload = 20 \<and> (extra = [] \<or> length extra = 3) \<and>
      cookie = \<lparr>sk_ServerData = take 16 payload, sk_RandomData = drop 16 payload\<rparr> \<and>
      GetPuzzle_Serialize cookie version = client_init_header version GetPuzzleCommand @ payload)"
  (is "?parsed \<longleftrightarrow> ?echoed")
proof
  assume ?parsed
  then obtain rest where packet: "packet = server_init_header SetCookieCommand @ rest"
    and rest: "length rest \<in> {20, 23}"
    and cookie: "cookie = \<lparr>sk_ServerData = take 16 rest, sk_RandomData = take 4 (drop 16 rest)\<rparr>"
    using parsed_has_header(1) SetCookie_Parse_payload by blast
  have parts: "take 16 (take 20 rest) = take 16 rest" "drop 16 (take 20 rest) = take 4 (drop 16 rest)"
    by (simp_all add: drop_take)
  then have "take 16 rest @ take 4 (drop 16 rest) = take 20 rest"
    by (metis append_take_drop_id)
  then show ?echoed
    using rest parts
    by (intro exI [of _ "take 20 rest"] exI [of _ "drop 20 rest"])
      (auto simp: packet cookie GetPuzzle_Serialize_def Take_def CreateWriter_data)
next
  assume ?echoed
  then show ?parsed
    by (auto simp: SetCookie_Parse_payload drop_take)
qed

text \<open>
  The puzzle the client answers is the one it was sent. \<open>Puzzle::Parse\<close> accepts exactly the
  232 bytes of a puzzle after the header, and \<open>PuzzleAnswer\<close> carries them unchanged, followed by
  the solution and the IV command.
\<close>

theorem puzzle_echoed:
  assumes "Puzzle_Parse packet = Inr puzzle"
  shows "\<exists>payload. packet = server_init_header PuzzleCommand @ payload \<and> length payload = 232 \<and>
    pz_X puzzle = take 64 payload \<and> pz_N puzzle = take 64 (drop 64 payload) \<and>
    PuzzleAnswer_Serialize puzzle solution iv version =
      client_init_header version PuzzleAnswerCommand @ payload @ solution @ iv"
proof -
  obtain rest where packet: "packet = server_init_header PuzzleCommand @ rest"
    using assms parsed_has_header(2) by blast
  have rest: "length rest = 232"
    and puzzle: "puzzle = \<lparr>pz_X = take 64 rest, pz_N = take 64 (drop 64 rest),
       pz_Level = (THE v. enc_u32 v = take 4 (drop 128 rest)), pz_ServerData = take 100 (drop 132 rest)\<rparr>"
    using assms by (auto simp: packet Puzzle_Parse_payload)
  obtain v where v: "enc_u32 v = take 4 (drop 128 rest)"
    using enc_u32_surj [of "take 4 (drop 128 rest)"] rest by auto
  then have "enc_u32 (pz_Level puzzle) = take 4 (drop 128 rest)"
    using u32_field.encode_inject by (simp add: puzzle) (metis (mono_tags, lifting) the_equality)
  moreover have "take 64 rest @ take 64 (drop 64 rest) @ take 4 (drop 128 rest) @ take 100 (drop 132 rest) = rest"
    using concat_cut [of "[64, 64, 4, 100]" rest] rest by simp
  ultimately have "pz_X puzzle @ pz_N puzzle @ enc_u32 (pz_Level puzzle) @ pz_ServerData puzzle = rest"
    by (simp add: puzzle)
  then have "PuzzleAnswer_Serialize puzzle solution iv version =
      client_init_header version PuzzleAnswerCommand @ rest @ solution @ iv"
    unfolding PuzzleAnswer_Serialize_def Take_def write_simps CreateWriter_data by (metis append_assoc)
  then show ?thesis
    using rest by (simp add: packet puzzle)
qed

theorem puzzle_echoed_witness:
  "PuzzleAnswer_Serialize \<lparr>pz_X = replicate 64 1, pz_N = replicate 64 2, pz_Level = 5, pz_ServerData = replicate 100 3\<rparr>
     [9] [8] 7 = client_init_header 7 PuzzleAnswerCommand @
       (replicate 64 1 @ replicate 64 2 @ [0, 0, 0, 5] @ replicate 100 3) @ [9] @ [8]"
proof -
  let ?payload = "replicate 64 1 @ replicate 64 2 @ [0, 0, 0, 5] @ replicate 100 3"
  have "enc_u32 5 = [0, 0, 0, 5]"
    by (simp add: enc_u32_def)
  then have "(THE v. enc_u32 v = [0, 0, 0, 5]) = 5"
    using u32_field.encode_inject by (metis (mono_tags, lifting) the_equality)
  then have "Puzzle_Parse (server_init_header PuzzleCommand @ ?payload) = Inr \<lparr>pz_X = replicate 64 1,
      pz_N = replicate 64 2, pz_Level = 5, pz_ServerData = replicate 100 3\<rparr>"
    unfolding Puzzle_Parse_payload by simp
  from puzzle_echoed [OF this] show ?thesis
    by auto
qed

end
