(* ===== verification/Puzzle_Solver.thy ===== *)
theory Puzzle_Solver
  imports Prelude
begin

text \<open>
  The time-lock puzzle of the handshake, \<open>PuzzleSolver::Solve\<close>
  (\<open>protocol/src/crypto/puzzle_solver.cpp\<close>): \<open>level\<close> modular squarings of \<open>x\<close> modulo \<open>n\<close>, all
  three numbers as 64 big-endian bytes.

  The arithmetic is OpenSSL's, on its type \<open>BIGNUM\<close>: the record \<open>BigNumbers\<close> holds the three
  operations the code calls, over a type \<open>'bn\<close>. What they are documented to do is the locale
  \<open>big_numbers\<close>; the natural numbers are an instance.
\<close>

record 'bn BigNumbers =
  bn_bin2bn :: "bytes \<Rightarrow> 'bn option"
  bn_mod_sqr :: "'bn \<Rightarrow> 'bn \<Rightarrow> 'bn option"
  bn_bn2binpad :: "'bn \<Rightarrow> nat \<Rightarrow> bytes option"

definition FromBytes :: "'bn BigNumbers \<Rightarrow> bytes \<Rightarrow> 'bn result" where
  "FromBytes bn data =
     (case bn_bin2bn bn data of
        None \<Rightarrow> Inl (RuntimeError ''Failed to create BIGNUM'')
      | Some v \<Rightarrow> Inr v)"

text \<open>\<open>for ( i = 0; i < level; ++i )\<close>, by the number of turns left.\<close>

primrec square_loop :: "'bn BigNumbers \<Rightarrow> 'bn \<Rightarrow> nat \<Rightarrow> 'bn \<Rightarrow> 'bn result" where
  "square_loop bn modulus 0 value = Inr value"
| "square_loop bn modulus (Suc n) value =
     (case bn_mod_sqr bn value modulus of
        None \<Rightarrow> Inl (RuntimeError ''Failed to solve TeamSpeak puzzle'')
      | Some value' \<Rightarrow> square_loop bn modulus n value')"

definition SolvePuzzle :: "'bn BigNumbers \<Rightarrow> bytes \<Rightarrow> bytes \<Rightarrow> u32 \<Rightarrow> bytes result" where
  "SolvePuzzle bn x n level =
     res_bind (FromBytes bn x) (\<lambda>value.
     res_bind (FromBytes bn n) (\<lambda>modulus.
     res_bind (square_loop bn modulus (unat level) value) (\<lambda>value'.
       case bn_bn2binpad bn value' 64 of
         None \<Rightarrow> Inl (RuntimeError ''Failed to serialize puzzle result'')
       | Some written \<Rightarrow>
           if length written \<noteq> 64 then Inl (RuntimeError ''Failed to serialize puzzle result'')
           else Inr written)))"

section \<open>Big-endian numbers\<close>

definition be_value :: "bytes \<Rightarrow> nat" where
  "be_value bs = foldl (\<lambda>v b. v * 256 + unat b) 0 bs"

fun be_bytes :: "nat \<Rightarrow> nat \<Rightarrow> bytes" where
  "be_bytes 0 v = []"
| "be_bytes (Suc n) v = be_bytes n (v div 256) @ [of_nat (v mod 256)]"

lemma length_be_bytes [simp]: "length (be_bytes n v) = n"
  by (induction n arbitrary: v) simp_all

lemma be_value_snoc: "be_value (bs @ [b]) = be_value bs * 256 + unat b"
  by (simp add: be_value_def)

lemma be_value_bytes: "v < 256 ^ n \<Longrightarrow> be_value (be_bytes n v) = v"
proof (induction n arbitrary: v)
  case (Suc n)
  then have "v div 256 < 256 ^ n"
    by (intro less_mult_imp_div_less) (simp only: power_Suc2)
  then have "be_value (be_bytes n (v div 256)) = v div 256"
    by (rule Suc.IH)
  moreover have "unat (of_nat (v mod 256) :: u8) = v mod 256"
    by (simp add: unat_of_nat)
  ultimately show ?case
    by (simp only: be_bytes.simps be_value_snoc div_mult_mod_eq)
qed (simp add: be_value_def)

lemma be_value_bound: "be_value bs < 256 ^ length bs"
proof (induction bs rule: rev_induct)
  case (snoc b bs)
  have "unat b < 256"
    by (rule order.strict_trans2 [OF unsigned_less]) simp
  then show ?case
    using snoc by (simp add: be_value_snoc del: One_nat_def)
qed (simp add: be_value_def)

section \<open>The documented arithmetic\<close>

text \<open>
  \<open>BN_bin2bn\<close> reads a big-endian number, \<open>BN_mod_sqr\<close> squares modulo a number and fails for the
  modulus zero only, \<open>BN_bn2binpad\<close> writes a number that fits and refuses one that does not.
\<close>

locale big_numbers =
  fixes bn :: "'bn BigNumbers" and num :: "'bn \<Rightarrow> nat"
  assumes bin2bn: "\<exists>v. bn_bin2bn bn data = Some v \<and> num v = be_value data"
    and mod_sqr: "num m \<noteq> 0 \<Longrightarrow> \<exists>r. bn_mod_sqr bn v m = Some r \<and> num r = (num v)\<^sup>2 mod num m"
    and mod_sqr_zero: "num m = 0 \<Longrightarrow> bn_mod_sqr bn v m = None"
    and bn2binpad: "num v < 256 ^ k \<Longrightarrow>
      \<exists>written. bn_bn2binpad bn v k = Some written \<and> length written = k \<and> be_value written = num v"
begin

lemma square_loop_value:
  assumes "num m \<noteq> 0"
  shows "\<exists>r. square_loop bn m n v = Inr r \<and>
    num r = (if n = 0 then num v else num v ^ (2 ^ n) mod num m)"
proof (induction n arbitrary: v)
  case (Suc n)
  obtain r where r: "bn_mod_sqr bn v m = Some r" "num r = (num v)\<^sup>2 mod num m"
    using mod_sqr [OF assms] by blast
  obtain s where s: "square_loop bn m n r = Inr s"
    "num s = (if n = 0 then num r else num r ^ (2 ^ n) mod num m)"
    using Suc.IH by blast
  have "num r ^ (2 ^ n) mod num m = num v ^ (2 ^ Suc n) mod num m"
    by (simp add: r(2) power_mod power_mult [symmetric] mult.commute)
  then show ?case
    using r s by auto
qed simp

lemma solve_value:
  assumes "be_value n \<noteq> 0" and x: "length x = 64"  and n: "length n = 64"
  shows "\<exists>y. SolvePuzzle bn x n level = Inr y \<and> length y = 64 \<and>
    be_value y = (if level = 0 then be_value x else be_value x ^ (2 ^ unat level) mod be_value n)"
proof -
  obtain vx vn where vx: "bn_bin2bn bn x = Some vx" "num vx = be_value x"
    and vn: "bn_bin2bn bn n = Some vn" "num vn = be_value n"
    using bin2bn by blast
  obtain r where r: "square_loop bn vn (unat level) vx = Inr r"
    "num r = (if unat level = 0 then num vx else num vx ^ (2 ^ unat level) mod num vn)"
    using square_loop_value [of vn] assms(1) vn(2) by metis
  have "be_value x ^ k mod be_value n < be_value n" for k
    using assms(1) by simp
  then have "num r < 256 ^ 64"
    using r(2) vx vn be_value_bound [of x] be_value_bound [of n] x n by (auto intro: order.strict_trans)
  then obtain y where "bn_bn2binpad bn r 64 = Some y" "length y = 64" "be_value y = num r"
    using bn2binpad by blast
  then show ?thesis
    using r(2) vx vn by (simp add: SolvePuzzle_def FromBytes_def r(1) unat_eq_0)
qed

lemma solve_modulus_zero:
  assumes "be_value n = 0" and "level \<noteq> 0"
  shows "SolvePuzzle bn x n level = Inl (RuntimeError ''Failed to solve TeamSpeak puzzle'')"
proof -
  obtain vx vn where "bn_bin2bn bn x = Some vx" and vn: "bn_bin2bn bn n = Some vn" "num vn = 0"
    using bin2bn assms(1) by metis
  moreover obtain k where "unat level = Suc k"
    using assms(2) by (metis not0_implies_Suc unat_eq_0)
  ultimately show ?thesis
    using mod_sqr_zero by (simp add: SolvePuzzle_def FromBytes_def)
qed

end

definition nat_numbers :: "nat BigNumbers" where
  "nat_numbers = \<lparr>bn_bin2bn = \<lambda>data. Some (be_value data),
     bn_mod_sqr = \<lambda>v m. if m = 0 then None else Some (v\<^sup>2 mod m),
     bn_bn2binpad = \<lambda>v k. if v < 256 ^ k then Some (be_bytes k v) else None\<rparr>"

interpretation naturals: big_numbers nat_numbers "\<lambda>v. v"
  by unfold_locales (auto simp: nat_numbers_def be_value_bytes)

text \<open>
  The solver computes the puzzle's answer. For a modulus other than zero, whatever the
  level, it returns 64 bytes holding \<open>x ^ (2 ^ level) mod n\<close>, or \<open>x\<close> itself, unreduced, at level
  zero; for the modulus zero it throws instead of looping or answering.
\<close>

theorem puzzle_solution:
  assumes bn: "big_numbers bn num" and sizes: "length x = 64" "length n = 64"
  shows "(be_value n \<noteq> 0 \<longrightarrow> (\<exists>y. SolvePuzzle bn x n level = Inr y \<and> length y = 64 \<and>
      be_value y = (if level = 0 then be_value x else be_value x ^ (2 ^ unat level) mod be_value n))) \<and>
    (be_value n = 0 \<longrightarrow> level \<noteq> 0 \<longrightarrow>
      SolvePuzzle bn x n level = Inl (RuntimeError ''Failed to solve TeamSpeak puzzle''))"
  using big_numbers.solve_value [OF bn _ sizes] big_numbers.solve_modulus_zero [OF bn] by blast

theorem puzzle_solution_witness:
  "\<exists>y. SolvePuzzle nat_numbers (replicate 63 0 @ [3]) (replicate 63 0 @ [101]) 5 = Inr y \<and>
     be_value y = 3 ^ 32 mod 101"
proof -
  have zeros: "foldl (\<lambda>v b. v * 256 + unat b) 0 (replicate k (0 :: u8)) = 0" for k
    by (induction k) simp_all
  have "be_value (replicate 63 0 @ [b]) = unat b" for b
    by (simp add: be_value_def zeros)
  then show ?thesis
    using puzzle_solution [OF naturals.big_numbers_axioms, of "replicate 63 0 @ [3]" "replicate 63 0 @ [101]" 5]
    by (auto simp del: replicate.simps)
qed

end
