(* ===== verification/Handshake.thy ===== *)
theory Handshake
  imports Transport_Safety Bootstrap_Transport Session_Material Handshake_Commands Identity_Keys Init_Messages Puzzle_Solver
begin

text \<open>
  The handshake that opens a connection, \<open>Handshake::Run\<close> (\<open>protocol/src/handshake/handshake.cpp\<close>),
  composed of the messages and commands of the theories imported: cookie, puzzle, the answer with
  the first key command, then the key exchange over the bootstrap transport.

  The sockets and primitives are those of \<open>Environment\<close>, which the record \<open>HandshakeWorld\<close>
  extends by what only the handshake calls: the wall clock, the random sources, OpenSSL's big
  numbers, P-256 and Base64, libsodium, and the identity, whose private key stays inside
  \<open>hw_sign\<close>. Receiving a command may not return, so the run is an option.
\<close>

record ('n, 'd, 'bn, 'key) HandshakeWorld =
  hw_env :: "('n, 'd) Environment"
  hw_seconds :: "'n \<Rightarrow> int \<times> 'n"
  hw_random_device :: "'n \<Rightarrow> u32 \<times> 'n"
  hw_rand_bytes :: "nat \<Rightarrow> 'n \<Rightarrow> bytes option \<times> 'n"
  hw_scalar_random :: "'n \<Rightarrow> bytes \<times> 'n"
  hw_bn :: "'bn BigNumbers"
  hw_sodium :: Sodium
  hw_import_point :: "bytes \<Rightarrow> 'key option"
  hw_digest_verify :: "'key \<Rightarrow> bytes \<Rightarrow> bytes \<Rightarrow> int"
  hw_encode_block :: "bytes \<Rightarrow> string option"
  hw_decode_block :: "string \<Rightarrow> bytes option"
  hw_public_key :: "bytes result"
  hw_sign :: "bytes \<Rightarrow> bytes result"

record SessionBootstrap =
  sb_material :: SessionMaterial
  sb_sequences :: PacketSequenceState

definition op_read :: "('n \<Rightarrow> 'a \<times> 'n) \<Rightarrow> ('n, 'a) op" where
  "op_read f n = (case f n of (x, n) \<Rightarrow> (Inr x, n))"

section \<open>The Init1 messages\<close>

definition Transport_Send :: "('n, 'd) Environment \<Rightarrow> Packet \<Rightarrow> ('n, unit) op" where
  "Transport_Send env packet = env_send env packet"

definition Transport_Receive :: "('n, 'd) Environment \<Rightarrow> ('n, Packet) op" where
  "Transport_Receive env = env_receive env 4096"

definition CurrentUnixTime :: "('n, 'd, 'bn, 'key) HandshakeWorld \<Rightarrow> ('n, u32) op" where
  "CurrentUnixTime w = op_bind (op_read (hw_seconds w)) (\<lambda>seconds. op_return (of_int seconds))"

fun random_bytes :: "('n, 'd, 'bn, 'key) HandshakeWorld \<Rightarrow> nat \<Rightarrow> ('n, bytes) op" where
  "random_bytes w 0 = op_return []"
| "random_bytes w (Suc n) =
     op_bind (op_read (hw_random_device w)) (\<lambda>v.
     op_bind (random_bytes w n) (\<lambda>bs. op_return (ucast (v AND 0xff) # bs)))"

definition send_cookie_request :: "('n, 'd, 'bn, 'key) HandshakeWorld \<Rightarrow> u32 \<Rightarrow> ('n, unit) op" where
  "send_cookie_request w clientVersion =
     op_bind (CurrentUnixTime w) (\<lambda>time.
     op_bind (random_bytes w 4) (\<lambda>random.
     Transport_Send (hw_env w) (GetCookie_Serialize clientVersion time random)))"

text \<open>The exchange up to the raw answer to \<open>GetPuzzle\<close>, and the header read from it.\<close>

definition request_puzzle :: "('n, 'd, 'bn, 'key) HandshakeWorld \<Rightarrow> u32 \<Rightarrow> ('n, Packet \<times> ServerInitHeader) op" where
  "request_puzzle w clientVersion =
     op_bind (send_cookie_request w clientVersion) (\<lambda>_.
     op_bind (Transport_Receive (hw_env w)) (\<lambda>packet.
     op_bind (op_lift (SetCookie_Parse packet)) (\<lambda>cookie.
     op_bind (Transport_Send (hw_env w) (GetPuzzle_Serialize cookie clientVersion)) (\<lambda>_.
     op_bind (Transport_Receive (hw_env w)) (\<lambda>rawPuzzle.
     op_bind (op_lift (fst (Init_ReadServerHeader (make_reader rawPuzzle)))) (\<lambda>header.
     op_return (rawPuzzle, header)))))))"

definition GenerateAlpha :: "('n, 'd, 'bn, 'key) HandshakeWorld \<Rightarrow> ('n, bytes) op" where
  "GenerateAlpha w =
     op_bind (op_read (hw_rand_bytes w 10)) (\<lambda>alpha.
     op_lift (or_throw ''Failed to generate client alpha'' alpha))"

text \<open>The solved puzzle and the IV command go out; the result is \<open>alpha\<close>.\<close>

definition answer_puzzle :: "('n, 'd, 'bn, 'key) HandshakeWorld \<Rightarrow> u32 \<Rightarrow> string \<Rightarrow> Packet \<Rightarrow> ('n, bytes) op" where
  "answer_puzzle w clientVersion serverIp rawPuzzle =
     op_bind (op_lift (Puzzle_Parse rawPuzzle)) (\<lambda>puzzle.
     op_bind (op_lift (SolvePuzzle (hw_bn w) (pz_X puzzle) (pz_N puzzle) (pz_Level puzzle))) (\<lambda>solution.
     op_bind (GenerateAlpha w) (\<lambda>alpha.
     op_bind (op_lift (ClientInitIv_Serialize (hw_encode_block w) (hw_public_key w) alpha serverIp)) (\<lambda>clientInitIv.
     op_bind (Transport_Send (hw_env w) (PuzzleAnswer_Serialize puzzle solution clientInitIv clientVersion)) (\<lambda>_.
     op_return alpha)))))"

section \<open>The key exchange\<close>

text \<open>What the plaintext of the server's command must be before anything is derived from it.\<close>

definition accept_expand :: "('n, 'd, 'bn, 'key) HandshakeWorld \<Rightarrow> bytes \<Rightarrow> (InitIvExpand2 \<times> License) result" where
  "accept_expand w plaintext =
     res_bind (CommandParser_ParseBytes plaintext) (\<lambda>command.
     if cmd_name command = ''initivexpand'' then Inl (RuntimeError ''Legacy initivexpand is not supported'')
     else res_bind (InitIvExpand2_Parse (hw_decode_block w) command) (\<lambda>expand.
          res_bind (Verify (hw_import_point w) (hw_digest_verify w) (iv_Omega expand) (iv_License expand) (iv_Proof expand)) (\<lambda>valid.
          if \<not> valid then Inl (RuntimeError ''Invalid initivexpand2 server proof'')
          else res_bind (License_Parse (iv_License expand)) (\<lambda>license.
               Inr (expand, license)))))"

text \<open>
  \<open>SessionMaterialDeriver::Derive\<close> with the draw of its private key, which comes after the
  server key is derived.
\<close>

definition derive_material ::
  "('n, 'd, 'bn, 'key) HandshakeWorld \<Rightarrow> License \<Rightarrow> bytes \<Rightarrow> bytes \<Rightarrow> ('n, SessionMaterial) op" where
  "derive_material w license alpha beta =
     op_bind (op_lift (EnsureSodium (hw_sodium w))) (\<lambda>_.
     op_bind (op_lift (DeriveServerPublicKey (hw_sodium w) license)) (\<lambda>_.
     op_bind (op_read (hw_scalar_random w)) (\<lambda>clientPrivateKey.
     op_lift (Derive (hw_sodium w) clientPrivateKey license alpha beta))))"

text \<open>The rest of \<open>Run\<close> once the plaintext of the server's command is there.\<close>

definition answer_expand ::
  "('n, 'd, 'bn, 'key) HandshakeWorld \<Rightarrow> bytes \<Rightarrow> bytes \<Rightarrow> ('n, SessionBootstrap) bootstrap_op" where
  "answer_expand w alpha plaintext =
     op_bind (op_lift (accept_expand w plaintext)) (\<lambda>(expand, license).
     op_bind (on_bootstrap_net (derive_material w license alpha (iv_Beta expand))) (\<lambda>material.
     op_bind (op_lift (ClientEk_Serialize (hw_encode_block w) (hw_sign w) (sm_clientPublicKey material) (iv_Beta expand))) (\<lambda>clientEk.
     op_bind (bootstrap_SendCommand (hw_env w) clientEk) (\<lambda>clientEkPacketId.
     op_bind (bootstrap_ReceiveAck (hw_env w) clientEkPacketId) (\<lambda>_.
     op_bind (op_gets bt_sequences) (\<lambda>sequences.
     op_return \<lparr>sb_material = material, sb_sequences = sequences\<rparr>))))))"

definition exchange_keys ::
  "('n, 'd, 'bn, 'key) HandshakeWorld \<Rightarrow> bytes \<Rightarrow> 'n \<Rightarrow> (SessionBootstrap result \<times> 'n) option" where
  "exchange_keys w alpha n =
     (case bootstrap_ReceiveCommand (hw_env w) (make_BootstrapTransport n) of
        None \<Rightarrow> None
      | Some (Inl e, t) \<Rightarrow> Some (Inl e, bt_net t)
      | Some (Inr plaintext, t) \<Rightarrow>
          (case answer_expand w alpha plaintext t of (r, t) \<Rightarrow> Some (r, bt_net t)))"

section \<open>Run\<close>

text \<open>
  One turn of the loop: \<open>Inr None\<close> for the \<open>continue\<close> of a reset. The wire command of another
  answer is printed as a number.
\<close>

definition handshake_attempt ::
  "('n, 'd, 'bn, 'key) HandshakeWorld \<Rightarrow> u32 \<Rightarrow> string \<Rightarrow> 'n \<Rightarrow> (SessionBootstrap option result \<times> 'n) option" where
  "handshake_attempt w clientVersion serverIp n =
     (case request_puzzle w clientVersion n of
        (Inl e, n) \<Rightarrow> Some (Inl e, n)
      | (Inr (rawPuzzle, header), n) \<Rightarrow>
          if si_command header = ResetCommand then Some (Inr None, n)
          else if si_command header \<noteq> PuzzleCommand
          then Some (Inl (RuntimeError (''Unexpected Init1 response command: '' @ to_string (unat (si_command header)))), n)
          else (case answer_puzzle w clientVersion serverIp rawPuzzle n of
                  (Inl e, n) \<Rightarrow> Some (Inl e, n)
                | (Inr alpha, n) \<Rightarrow>
                    map_option (\<lambda>(r, n). (res_bind r (\<lambda>b. Inr (Some b)), n)) (exchange_keys w alpha n)))"

fun handshake_loop ::
  "('n, 'd, 'bn, 'key) HandshakeWorld \<Rightarrow> u32 \<Rightarrow> string \<Rightarrow> nat \<Rightarrow> 'n \<Rightarrow> (SessionBootstrap result \<times> 'n) option" where
  "handshake_loop w clientVersion serverIp 0 n = Some (Inl (RuntimeError ''Init1 handshake reset too many times''), n)"
| "handshake_loop w clientVersion serverIp (Suc attempts) n =
     (case handshake_attempt w clientVersion serverIp n of
        None \<Rightarrow> None
      | Some (Inl e, n) \<Rightarrow> Some (Inl e, n)
      | Some (Inr (Some b), n) \<Rightarrow> Some (Inr b, n)
      | Some (Inr None, n) \<Rightarrow> handshake_loop w clientVersion serverIp attempts n)"

definition MaxAttempts :: nat where "MaxAttempts = 5"

definition Handshake_Run ::
  "('n, 'd, 'bn, 'key) HandshakeWorld \<Rightarrow> u32 \<Rightarrow> string \<Rightarrow> 'n \<Rightarrow> (SessionBootstrap result \<times> 'n) option" where
  "Handshake_Run w clientVersion serverIp n = handshake_loop w clientVersion serverIp MaxAttempts n"

section \<open>What a finished handshake has checked\<close>

lemmas attempt_splits = sum.splits option.splits prod.splits if_splits

text \<open>\<open>k\<close> turns of the loop, all answered by a reset.\<close>

primrec resets ::
  "('n, 'd, 'bn, 'key) HandshakeWorld \<Rightarrow> u32 \<Rightarrow> string \<Rightarrow> nat \<Rightarrow> 'n \<Rightarrow> 'n \<Rightarrow> bool" where
  "resets w clientVersion serverIp 0 n n' \<longleftrightarrow> n' = n"
| "resets w clientVersion serverIp (Suc k) n n' \<longleftrightarrow>
     (case handshake_attempt w clientVersion serverIp n of
        Some (Inr None, m) \<Rightarrow> resets w clientVersion serverIp k m n'
      | _ \<Rightarrow> False)"

text \<open>The result of a turn that is not a reset, as the loop returns it.\<close>

fun final_turn :: "(SessionBootstrap option result \<times> 'n) option \<Rightarrow> (SessionBootstrap result \<times> 'n) option option" where
  "final_turn None = Some None"
| "final_turn (Some (Inl e, n)) = Some (Some (Inl e, n))"
| "final_turn (Some (Inr (Some b), n)) = Some (Some (Inr b, n))"
| "final_turn (Some (Inr None, n)) = None"

lemma final_turn_None: "final_turn outcome = None \<longleftrightarrow> (\<exists>n. outcome = Some (Inr None, n))"
  by (cases outcome rule: final_turn.cases) auto

lemma handshake_loop_cases:
  "(\<exists>n'. resets w v ip attempts n n' \<and>
      handshake_loop w v ip attempts n = Some (Inl (RuntimeError ''Init1 handshake reset too many times''), n')) \<or>
   (\<exists>k n'. k < attempts \<and> resets w v ip k n n' \<and>
      final_turn (handshake_attempt w v ip n') = Some (handshake_loop w v ip attempts n))"
proof (induction attempts arbitrary: n)
  case 0
  then show ?case
    by simp
next
  case (Suc attempts)
  show ?case
  proof (cases "final_turn (handshake_attempt w v ip n)")
    case None
    then obtain m where reset: "handshake_attempt w v ip n = Some (Inr None, m)"
      by (auto simp: final_turn_None)
    from Suc.IH [of m] show ?thesis
    proof (elim disjE exE conjE)
      fix n'
      assume "resets w v ip attempts m n'"
        "handshake_loop w v ip attempts m = Some (Inl (RuntimeError ''Init1 handshake reset too many times''), n')"
      then show ?thesis
        using reset by simp
    next
      fix k n'
      assume "k < attempts" "resets w v ip k m n'"
        "final_turn (handshake_attempt w v ip n') = Some (handshake_loop w v ip attempts m)"
      then show ?thesis
        using reset by (intro disjI2 exI [of _ "Suc k"] exI [of _ n']) simp
    qed
  next
    case (Some outcome)
    then have "handshake_loop w v ip (Suc attempts) n = outcome"
      by (cases "handshake_attempt w v ip n" rule: final_turn.cases) auto
    then show ?thesis
      using Some by (intro disjI2 exI [of _ 0] exI [of _ n]) simp
  qed
qed

lemma accept_expand_Inr:
  "accept_expand w plaintext = Inr (expand, license) \<longleftrightarrow>
   (\<exists>command. CommandParser_ParseBytes plaintext = Inr command \<and> cmd_name command \<noteq> ''initivexpand'' \<and>
      InitIvExpand2_Parse (hw_decode_block w) command = Inr expand) \<and>
   Verify (hw_import_point w) (hw_digest_verify w) (iv_Omega expand) (iv_License expand) (iv_Proof expand) = Inr True \<and>
   License_Parse (iv_License expand) = Inr license"
  by (auto simp: accept_expand_def res_bind_eq_Inr)

text \<open>
  What \<open>Run\<close> has seen when it returns \<open>b\<close>: an answered puzzle, a server command that passed
  every check, and the material derived from exactly that license and its \<open>beta\<close>.
\<close>

definition authenticated ::
  "('n, 'd, 'bn, 'key) HandshakeWorld \<Rightarrow> u32 \<Rightarrow> string \<Rightarrow> 'n \<Rightarrow> SessionBootstrap \<Rightarrow> bool" where
  "authenticated w clientVersion serverIp n b \<longleftrightarrow>
     (\<exists>rawPuzzle header n1 alpha n2 plaintext t expand license clientPrivateKey clientEk.
        request_puzzle w clientVersion n = (Inr (rawPuzzle, header), n1) \<and> si_command header = PuzzleCommand \<and>
        answer_puzzle w clientVersion serverIp rawPuzzle n1 = (Inr alpha, n2) \<and>
        bootstrap_ReceiveCommand (hw_env w) (make_BootstrapTransport n2) = Some (Inr plaintext, t) \<and>
        (\<exists>command. CommandParser_ParseBytes plaintext = Inr command \<and>
           InitIvExpand2_Parse (hw_decode_block w) command = Inr expand) \<and>
        Verify (hw_import_point w) (hw_digest_verify w) (iv_Omega expand) (iv_License expand) (iv_Proof expand) = Inr True \<and>
        License_Parse (iv_License expand) = Inr license \<and>
        Derive (hw_sodium w) clientPrivateKey license alpha (iv_Beta expand) = Inr (sb_material b) \<and>
        ClientEk_Serialize (hw_encode_block w) (hw_sign w) (sm_clientPublicKey (sb_material b)) (iv_Beta expand) = Inr clientEk \<and>
        (\<exists>sent i acked t'. bootstrap_SendCommand (hw_env w) clientEk sent = (Inr i, acked) \<and>
           bootstrap_ReceiveAck (hw_env w) i acked = (Inr (), t') \<and> sb_sequences b = bt_sequences t'))"

lemma answer_expand_Inr:
  assumes "answer_expand w alpha plaintext t = (Inr b, t')"
  obtains expand license clientPrivateKey clientEk where
    "accept_expand w plaintext = Inr (expand, license)"
    "Derive (hw_sodium w) clientPrivateKey license alpha (iv_Beta expand) = Inr (sb_material b)"
    "ClientEk_Serialize (hw_encode_block w) (hw_sign w) (sm_clientPublicKey (sb_material b)) (iv_Beta expand) = Inr clientEk"
    "\<exists>sent i acked. bootstrap_SendCommand (hw_env w) clientEk sent = (Inr i, acked) \<and>
       bootstrap_ReceiveAck (hw_env w) i acked = (Inr (), t') \<and> sb_sequences b = bt_sequences t'"
proof -
  obtain expand license where accepted: "accept_expand w plaintext = Inr (expand, license)"
    using assms by (cases "accept_expand w plaintext") (auto simp: answer_expand_def)
  with assms show thesis
    using that [OF accepted]
    by (auto simp: answer_expand_def derive_material_def op_bind_def op_zoom_def
        op_return_def op_throw_def op_lift_def op_gets_def split: attempt_splits) blast
qed

lemma exchange_keys_Inr:
  assumes "exchange_keys w alpha n = Some (Inr b, n')"
  obtains plaintext t t' where "bootstrap_ReceiveCommand (hw_env w) (make_BootstrapTransport n) = Some (Inr plaintext, t)"
    and "answer_expand w alpha plaintext t = (Inr b, t')"
  using assms that by (auto simp: exchange_keys_def split: attempt_splits)

lemma handshake_attempt_Inr:
  assumes "handshake_attempt w v ip n = Some (Inr (Some b), n')"
  shows "authenticated w v ip n b"
proof -
  obtain rawPuzzle header n1 where puzzle: "request_puzzle w v n = (Inr (rawPuzzle, header), n1)"
    using assms by (auto simp: handshake_attempt_def split: attempt_splits)
  obtain alpha n2 n3 where answer: "si_command header = PuzzleCommand"
      "answer_puzzle w v ip rawPuzzle n1 = (Inr alpha, n2)" "exchange_keys w alpha n2 = Some (Inr b, n3)"
    using assms puzzle by (auto simp: handshake_attempt_def res_bind_eq_Inr split: attempt_splits)
  obtain plaintext t t' where received:
      "bootstrap_ReceiveCommand (hw_env w) (make_BootstrapTransport n2) = Some (Inr plaintext, t)"
    and expanded: "answer_expand w alpha plaintext t = (Inr b, t')"
    by (rule exchange_keys_Inr [OF answer(3)])
  from answer_expand_Inr [OF expanded] puzzle answer received show ?thesis
    unfolding authenticated_def accept_expand_Inr by metis
qed

lemma Handshake_Run_Inr:
  assumes "Handshake_Run w clientVersion serverIp n = Some (Inr b, n')"
  shows "\<exists>k m. k < 5 \<and> resets w clientVersion serverIp k n m \<and> authenticated w clientVersion serverIp m b"
proof -
  have "handshake_loop w clientVersion serverIp MaxAttempts n = Some (Inr b, n')"
    using assms by (simp add: Handshake_Run_def)
  then obtain k m where k: "k < MaxAttempts" "resets w clientVersion serverIp k n m"
      "final_turn (handshake_attempt w clientVersion serverIp m) = Some (Some (Inr b, n'))"
    using handshake_loop_cases [of w clientVersion serverIp MaxAttempts n] by auto
  have "authenticated w clientVersion serverIp m b"
    using k(3) by (cases "handshake_attempt w clientVersion serverIp m" rule: final_turn.cases)
      (auto intro: handshake_attempt_Inr)
  then show ?thesis
    using k by (auto simp: MaxAttempts_def)
qed

section \<open>The sequence state the session starts from\<close>

abbreviation bootstrap_ok :: "'n BootstrapTransport \<Rightarrow> bool" where
  "bootstrap_ok t \<equiv> sequences_ok (bt_sequences t)"

lemma on_bootstrap_net_keeps: "op_keeps bootstrap_ok (on_bootstrap_net m)"
  by (simp add: op_keeps_def op_zoom_def split: prod.split)

lemma bootstrap_senders_keep:
  "op_keeps bootstrap_ok (bootstrap_SendEncrypted env type flags data)"
  "op_keeps bootstrap_ok (bootstrap_SendAck env packet)"
  "op_keeps bootstrap_ok (bootstrap_SendCommand env data)"
proof -
  have counters: "op_keeps bootstrap_ok (bootstrap_outgoing type)" "op_keeps bootstrap_ok (bootstrap_advance_outgoing type)" for type
    by (simp_all add: op_keeps_def bootstrap_outgoing_def bootstrap_advance_outgoing_def split: sum.split prod.split)
  show encrypted: "op_keeps bootstrap_ok (bootstrap_SendEncrypted env type flags data)" for type flags data
    unfolding bootstrap_SendEncrypted_def Let_def
    by (intro op_keeps_bind op_keeps_lift on_bootstrap_net_keeps counters)
  show "op_keeps bootstrap_ok (bootstrap_SendAck env packet)"
    unfolding bootstrap_SendAck_def by (rule encrypted)
  show "op_keeps bootstrap_ok (bootstrap_SendCommand env data)"
    unfolding bootstrap_SendCommand_def
    by (intro op_keeps_if op_keeps_throw op_keeps_bind op_keeps_return counters encrypted)
qed

lemma bootstrap_receivers_keep:
  "op_keeps bootstrap_ok (receive_fragment env)"
  "op_keeps bootstrap_ok (bootstrap_ReceiveAck env i)"
  "op_keeps bootstrap_ok (set_incoming_command i)"
proof -
  have packet: "op_keeps bootstrap_ok (bootstrap_ReceivePacket env)"
    unfolding bootstrap_ReceivePacket_def by (intro op_keeps_bind on_bootstrap_net_keeps op_keeps_lift)
  show "op_keeps bootstrap_ok (receive_fragment env)"
    unfolding receive_fragment_def by (intro op_keeps_bind packet op_keeps_if op_keeps_throw op_keeps_lift op_keeps_return bootstrap_senders_keep)
  show "op_keeps bootstrap_ok (bootstrap_ReceiveAck env i)"
    unfolding bootstrap_ReceiveAck_def
    by (intro op_keeps_bind packet op_keeps_if op_keeps_throw op_keeps_lift op_keeps_pure)
      (simp add: op_keeps_def split: prod.split)
  show "op_keeps bootstrap_ok (set_incoming_command i)"
    by (simp add: op_keeps_def set_incoming_command_def split: sum.split prod.split)
qed

lemma receive_command_loop_keeps:
  assumes "receive_command_loop env fragments totalSize t = Some x"
  shows "bootstrap_ok t \<longrightarrow> bootstrap_ok (snd x)"
proof (rule receive_command_loop.raw_induct [OF _ assms], goal_cases)
  case (1 rec env fragments totalSize t x)
  obtain r t1 where received: "receive_fragment env t = (r, t1)"
    by (rule prod.exhaust)
  note step = op_keepsD' [OF bootstrap_receivers_keep(1) _ received]
  show ?case
  proof (cases r)
    case (Inr p)
    obtain packet plaintext where p: "p = (packet, plaintext)"
      by (rule prod.exhaust)
    have finish: "bootstrap_ok t1 \<Longrightarrow> bootstrap_ok (snd (op_bind (set_incoming_command i) (\<lambda>_. op_return result) t1))" for i and result :: bytes
      by (rule op_keepsD) (intro op_keeps_bind bootstrap_receivers_keep op_keeps_return)
    show ?thesis
      using 1(2) 1(1) step finish by (auto simp: received Inr p split: sum.splits gathered.splits)
  qed (use 1(2) received step in auto)
qed

lemma answer_expand_keeps: "op_keeps bootstrap_ok (answer_expand w alpha plaintext)"
  unfolding answer_expand_def split_beta
  by (intro op_keeps_bind op_keeps_lift on_bootstrap_net_keeps bootstrap_senders_keep bootstrap_receivers_keep
      op_keeps_gets op_keeps_return)

lemma exchange_keys_sequences:
  assumes "exchange_keys w alpha n = Some (Inr b, n')"
  shows "sequences_ok (sb_sequences b)"
proof -
  obtain plaintext t t' where received:
      "bootstrap_ReceiveCommand (hw_env w) (make_BootstrapTransport n) = Some (Inr plaintext, t)"
    and expanded: "answer_expand w alpha plaintext t = (Inr b, t')"
    by (rule exchange_keys_Inr [OF assms])
  have "bootstrap_ok (make_BootstrapTransport n)"
    by (simp add: make_BootstrapTransport_def Let_def sequences_ok_initial)
  then have "bootstrap_ok t"
    using receive_command_loop_keeps [OF received [unfolded bootstrap_ReceiveCommand_def]] by simp
  then have "bootstrap_ok t'"
    by (rule op_keepsD' [OF answer_expand_keeps _ expanded])
  moreover have "sb_sequences b = bt_sequences t'"
    by (rule answer_expand_Inr [OF expanded]) blast
  ultimately show ?thesis
    by simp
qed

lemma Handshake_Run_sequences:
  "handshake_loop w clientVersion serverIp attempts n = Some (Inr b, n') \<Longrightarrow> sequences_ok (sb_sequences b)"
proof (induction attempts arbitrary: n)
  case (Suc attempts)
  then show ?case
    by (auto simp: handshake_attempt_def res_bind_eq_Inr split: attempt_splits intro: exchange_keys_sequences)
qed simp

section \<open>Properties\<close>

text \<open>
  The handshake tries at most five times. Some number of attempts is answered by a reset;
  if that is all five of them the run throws, otherwise the next attempt decides, whether it
  succeeds, throws or does not return.
\<close>

theorem handshake_attempts_bounded:
  "\<exists>k n'. k \<le> 5 \<and> resets w clientVersion serverIp k n n' \<and>
     (if k = 5
      then Handshake_Run w clientVersion serverIp n =
        Some (Inl (RuntimeError ''Init1 handshake reset too many times''), n')
      else final_turn (handshake_attempt w clientVersion serverIp n') = Some (Handshake_Run w clientVersion serverIp n))"
proof -
  have five: "5 = MaxAttempts"
    by (simp add: MaxAttempts_def)
  show ?thesis
    using handshake_loop_cases [of w clientVersion serverIp MaxAttempts n] unfolding five Handshake_Run_def
    by (metis less_imp_le less_irrefl order_refl)
qed

text \<open>
  C3: a handshake that succeeds has authenticated the server. On the turn that ended it, the
  puzzle was answered, the server's command was received whole and parsed as \<open>initivexpand2\<close>,
  its proof verified over its license under its own key, the license was accepted, the session
  keys were derived from that license and \<open>beta\<close>, and the client's signed key was sent and
  acknowledged.
\<close>

theorem handshake_authenticates:
  "case Handshake_Run w clientVersion serverIp n of
     Some (Inr b, n') \<Rightarrow> (\<exists>k m. k < 5 \<and> resets w clientVersion serverIp k n m \<and> authenticated w clientVersion serverIp m b)
   | _ \<Rightarrow> True"
  using Handshake_Run_Inr [of w clientVersion serverIp n] by (auto split: attempt_splits)

end
