(* ===== verification/Connection.thy ===== *)
theory Connection
  imports Handshake Session_Safety
begin

text \<open>
  The public face of the protocol library, \<open>Connection\<close> (\<open>protocol/src/connection.cpp\<close>,
  \<open>protocol/include/protocol/connection.hpp\<close>): it runs the handshake and the login, pumps the
  session, and ends it. A connection goes through \<open>Created\<close>, \<open>Connecting\<close>, \<open>Established\<close> and
  \<open>Closed\<close> and never back.

  The outside world is the member \<open>cn_net\<close> until the session exists, which then carries it in
  its transport. The two handlers the caller passes to \<open>Run\<close> are operations on the connection:
  they may call back into it and may throw. Loops that need not end are partial functions.

  \<open>catch ( const std::exception& )\<close> catches every error of the model but \<open>UndefinedBehaviour\<close>,
  which no code throws.
\<close>

section \<open>State\<close>

datatype ConnectionState = Created | Connecting | Established | Closed

record ('n, 'd) Connection =
  cn_net :: 'n
  cn_state :: ConnectionState
  cn_session :: "('n, 'd) Session option"

type_synonym ('n, 'd, 'a) connection_op = "(('n, 'd) Connection, 'a) op"

record ('n, 'd, 'bn, 'key) ConnectionWorld =
  cw_handshake :: "('n, 'd, 'bn, 'key) HandshakeWorld"
  cw_connect :: "('n, unit) op"
  cw_stop_requested :: "'n \<Rightarrow> bool \<times> 'n"
  cw_wake :: "('n, unit) op"

abbreviation cw_env :: "('n, 'd, 'bn, 'key) ConnectionWorld \<Rightarrow> ('n, 'd) Environment" where
  "cw_env w \<equiv> hw_env (cw_handshake w)"

datatype DisconnectReason = LocalRequest | ServerClosed | Timeout | TransportError

record DisconnectInfo =
  di_reason :: DisconnectReason
  di_serverReasonId :: u64
  di_message :: string

definition make_Connection :: "'n \<Rightarrow> ('n, 'd) Connection" where
  "make_Connection n = \<lparr>cn_net = n, cn_state = Created, cn_session = None\<rparr>"

text \<open>A call through \<open>m_Session\<close>; dereferencing a null pointer is undefined.\<close>

definition on_session :: "('n, 'd, 'a) session_op \<Rightarrow> ('n, 'd, 'a) connection_op" where
  "on_session m c =
     (case cn_session c of
        None \<Rightarrow> (Inl (UndefinedBehaviour ''m_Session''), c)
      | Some s \<Rightarrow> (case m s of (r, s) \<Rightarrow> (r, c\<lparr>cn_session := Some s\<rparr>)))"

definition on_world :: "('n, 'a) op \<Rightarrow> ('n, 'd, 'a) connection_op" where
  "on_world m c =
     (if cn_session c = None then op_zoom cn_net (\<lambda>n c. c\<lparr>cn_net := n\<rparr>) m c
      else on_session (on_transport (on_net m)) c)"

definition RequireEstablished :: "('n, 'd, unit) connection_op" where
  "RequireEstablished c =
     (if cn_state c \<noteq> Established \<or> cn_session c = None
      then (Inl (NotConnectedError ''Connection is not established''), c) else (Inr (), c))"

definition when_established :: "('n, 'd, 'a) session_op \<Rightarrow> ('n, 'd, 'a) connection_op" where
  "when_established m = op_bind RequireEstablished (\<lambda>_. on_session m)"

definition set_state :: "ConnectionState \<Rightarrow> ('n, 'd) Connection \<Rightarrow> ('n, 'd) Connection" where
  "set_state state c = c\<lparr>cn_state := state\<rparr>"

section \<open>Connect\<close>

text \<open>The \<open>try\<close> block: the session, or the error with the world it leaves behind.\<close>

definition connect_session ::
  "('n, 'd, 'bn, 'key) ConnectionWorld \<Rightarrow> ClientProfile \<Rightarrow> u64 \<Rightarrow> string \<Rightarrow> 'n \<Rightarrow>
     (('n, 'd) Session result \<times> 'n) option" where
  "connect_session w profile keyOffset serverIp n =
     (case cw_connect w n of
        (Inl e, n) \<Rightarrow> Some (Inl e, n)
      | (Inr _, n) \<Rightarrow>
          (case Handshake_Run (cw_handshake w) (vp_initVersion (cp_version_profile profile)) serverIp n of
             None \<Rightarrow> None
           | Some (Inl e, n) \<Rightarrow> Some (Inl e, n)
           | Some (Inr b, n) \<Rightarrow>
               let crypto = \<lparr>sc_sharedIv = sm_sharedIv (sb_material b), sc_sharedMac = sm_sharedMac (sb_material b)\<rparr>
               in (case Login (cw_env w) profile keyOffset (make_Session (cw_env w) crypto (sb_sequences b) n) of
                     None \<Rightarrow> None
                   | Some (r, s) \<Rightarrow> Some (res_bind r (\<lambda>_. Inr s), tr_net (sn_transport s)))))"

definition Connect ::
  "('n, 'd, 'bn, 'key) ConnectionWorld \<Rightarrow> ClientProfile \<Rightarrow> u64 \<Rightarrow> string \<Rightarrow> ('n, 'd) Connection \<Rightarrow>
     (unit result \<times> ('n, 'd) Connection) option" where
  "Connect w profile keyOffset serverIp c =
     (if cn_state c \<noteq> Created then Some (Inl (ProtocolError ''Connection has already been connected''), c)
      else case connect_session w profile keyOffset serverIp (cn_net (set_state Connecting c)) of
             None \<Rightarrow> None
           | Some (Inl e, n) \<Rightarrow> Some (Inl e, set_state Closed (c\<lparr>cn_net := n\<rparr>))
           | Some (Inr s, n) \<Rightarrow> Some (Inr (), set_state Established (c\<lparr>cn_net := n, cn_session := Some s\<rparr>)))"

section \<open>Pumping the session\<close>

definition poll_wait :: "('n, 'd) Environment \<Rightarrow> int \<Rightarrow> ('n, 'd, int) session_op" where
  "poll_wait env timeout =
     op_bind (op_gets (\<lambda>s. transport_NextDeadline (sn_transport s))) (\<lambda>next.
     case next of
       None \<Rightarrow> op_return timeout
     | Some deadline \<Rightarrow>
         op_bind (on_transport (clock_now env)) (\<lambda>now.
         if deadline \<le> now then op_return 0
         else op_return (min timeout (ceil_milliseconds (deadline - now)))))"

definition Poll :: "('n, 'd, 'bn, 'key) ConnectionWorld \<Rightarrow> int \<Rightarrow> ('n, 'd, bool) connection_op" where
  "Poll w timeout =
     op_bind RequireEstablished (\<lambda>_.
     op_bind (on_session (session_ProcessTimers (cw_env w))) (\<lambda>_.
     op_bind (on_session (poll_wait (cw_env w) timeout)) (\<lambda>wait.
     op_bind (on_session (on_transport (transport_WaitReadable (cw_env w) wait))) (\<lambda>readable.
     if \<not> readable then op_return False
     else op_bind (on_session (session_ProcessPacket (cw_env w))) (\<lambda>_. op_return True)))))"

type_synonym ('n, 'd) EventHandler = "(SessionEvent \<Rightarrow> ('n, 'd, unit) connection_op) option"
type_synonym ('n, 'd) CycleHandler = "('n, 'd, unit) connection_op option"

definition dispatch_event :: "('n, 'd) EventHandler \<Rightarrow> ('n, 'd, unit) connection_op" where
  "dispatch_event handler =
     op_bind (on_session TakeEvent) (\<lambda>event.
     case handler of None \<Rightarrow> op_return () | Some h \<Rightarrow> h event)"

partial_function (option) DispatchEvents ::
  "('n, 'd) EventHandler \<Rightarrow> ('n, 'd) Connection \<Rightarrow> (unit result \<times> ('n, 'd) Connection) option" where
  "DispatchEvents handler c =
     (case on_session (op_gets (\<lambda>s. sn_events s \<noteq> [])) c of
        (Inl e, c) \<Rightarrow> Some (Inl e, c)
      | (Inr hasEvent, c) \<Rightarrow>
          if \<not> hasEvent then Some (Inr (), c)
          else (case dispatch_event handler c of
                  (Inl e, c) \<Rightarrow> Some (Inl e, c)
                | (Inr _, c) \<Rightarrow> DispatchEvents handler c))"

section \<open>Leaving\<close>

text \<open>One turn of the wait for the goodbye to be acknowledged: whether to go on.\<close>

definition goodbye_turn :: "('n, 'd, 'bn, 'key) ConnectionWorld \<Rightarrow> time \<Rightarrow> ('n, 'd, bool) connection_op" where
  "goodbye_turn w deadline =
     op_bind (on_session (op_gets DisconnectPending)) (\<lambda>pending.
     if \<not> pending then op_return False
     else op_bind (on_session (on_transport (clock_now (cw_env w)))) (\<lambda>now.
          if now \<ge> deadline then op_return False
          else op_bind (Poll w (min 100 (ceil_milliseconds (deadline - now)))) (\<lambda>_. op_return True)))"

partial_function (option) goodbye_loop ::
  "('n, 'd, 'bn, 'key) ConnectionWorld \<Rightarrow> time \<Rightarrow> ('n, 'd) EventHandler \<Rightarrow> ('n, 'd) Connection \<Rightarrow>
     (unit result \<times> ('n, 'd) Connection) option" where
  "goodbye_loop w deadline handler c =
     (case goodbye_turn w deadline c of
        (Inl e, c) \<Rightarrow> Some (Inl e, c)
      | (Inr again, c) \<Rightarrow>
          if \<not> again then Some (Inr (), c)
          else (case DispatchEvents handler c of
                  None \<Rightarrow> None
                | Some (Inl e, c) \<Rightarrow> Some (Inl e, c)
                | Some (Inr _, c) \<Rightarrow> goodbye_loop w deadline handler c))"

definition start_goodbye :: "('n, 'd, 'bn, 'key) ConnectionWorld \<Rightarrow> string \<Rightarrow> ('n, 'd, time) connection_op" where
  "start_goodbye w reason =
     op_bind (on_session (session_Disconnect (cw_env w) reason)) (\<lambda>_.
     op_bind (on_session (on_transport (clock_now (cw_env w)))) (\<lambda>now.
     op_return (now + milliseconds 1500)))"

definition DisconnectGracefully ::
  "('n, 'd, 'bn, 'key) ConnectionWorld \<Rightarrow> string \<Rightarrow> ('n, 'd) EventHandler \<Rightarrow> ('n, 'd) Connection \<Rightarrow>
     (unit result \<times> ('n, 'd) Connection) option" where
  "DisconnectGracefully w reason handler c =
     (case start_goodbye w reason c of
        (Inl e, c) \<Rightarrow> Some (Inl e, c)
      | (Inr deadline, c) \<Rightarrow> goodbye_loop w deadline handler c)"

definition connection_Disconnect ::
  "('n, 'd, 'bn, 'key) ConnectionWorld \<Rightarrow> string \<Rightarrow> ('n, 'd) Connection \<Rightarrow> (unit result \<times> ('n, 'd) Connection) option" where
  "connection_Disconnect w reason c =
     (case RequireEstablished c of
        (Inl e, c) \<Rightarrow> Some (Inl e, c)
      | (Inr _, c) \<Rightarrow>
          (case DisconnectGracefully w reason None c of
             None \<Rightarrow> None
           | Some (Inl e, c) \<Rightarrow> Some (Inl e, c)
           | Some (Inr _, c) \<Rightarrow> Some (Inr (), set_state Closed c)))"

section \<open>Run\<close>

definition SessionEnded :: "('n, 'd, 'bn, 'key) ConnectionWorld \<Rightarrow> ('n, 'd, DisconnectInfo option) connection_op" where
  "SessionEnded w =
     op_bind (on_session (op_gets sn_serverRemoval)) (\<lambda>removal.
     case removal of
       Some r \<Rightarrow> op_return (Some \<lparr>di_reason = ServerClosed, di_serverReasonId = sd_reasonId r, di_message = sd_message r\<rparr>)
     | None \<Rightarrow>
         op_bind (on_session (session_TimedOut (cw_env w))) (\<lambda>timedOut.
         if timedOut
         then op_return (Some \<lparr>di_reason = Timeout, di_serverReasonId = 0,
                di_message = ''No data received from the server for '' @ to_string (nat ReceiveTimeout) @ '' seconds''\<rparr>)
         else op_return None))"

text \<open>The head of a turn: \<open>False\<close> when a stop was requested, else the cycle handler and \<open>Poll\<close>.\<close>

definition run_turn ::
  "('n, 'd, 'bn, 'key) ConnectionWorld \<Rightarrow> int \<Rightarrow> ('n, 'd) CycleHandler \<Rightarrow> ('n, 'd, bool) connection_op" where
  "run_turn w maximumWait cycleHandler =
     op_bind (on_world (op_read (cw_stop_requested w))) (\<lambda>stop.
     if stop then op_return False
     else op_bind (case cycleHandler of None \<Rightarrow> op_return () | Some h \<Rightarrow> h) (\<lambda>_.
          op_bind (Poll w maximumWait) (\<lambda>_. op_return True)))"

partial_function (option) run_loop ::
  "('n, 'd, 'bn, 'key) ConnectionWorld \<Rightarrow> int \<Rightarrow> ('n, 'd) EventHandler \<Rightarrow> ('n, 'd) CycleHandler \<Rightarrow> ('n, 'd) Connection \<Rightarrow>
     (DisconnectInfo option result \<times> ('n, 'd) Connection) option" where
  "run_loop w maximumWait eventHandler cycleHandler c =
     (case run_turn w maximumWait cycleHandler c of
        (Inl e, c) \<Rightarrow> Some (Inl e, c)
      | (Inr again, c) \<Rightarrow>
          if \<not> again then Some (Inr None, c)
          else (case DispatchEvents eventHandler c of
                  None \<Rightarrow> None
                | Some (Inl e, c) \<Rightarrow> Some (Inl e, c)
                | Some (Inr _, c) \<Rightarrow>
                    (case SessionEnded w c of
                       (Inl e, c) \<Rightarrow> Some (Inl e, c)
                     | (Inr (Some ended), c) \<Rightarrow> Some (Inr (Some ended), c)
                     | (Inr None, c) \<Rightarrow> run_loop w maximumWait eventHandler cycleHandler c)))"

text \<open>The \<open>try\<close> block of \<open>Run\<close>; \<open>info\<close> is a local request unless the loop found another end.\<close>

definition run_session ::
  "('n, 'd, 'bn, 'key) ConnectionWorld \<Rightarrow> ('n, 'd) EventHandler \<Rightarrow> ('n, 'd) CycleHandler \<Rightarrow> ('n, 'd) Connection \<Rightarrow>
     (DisconnectInfo result \<times> ('n, 'd) Connection) option" where
  "run_session w eventHandler cycleHandler c =
     (let maximumWait = if cycleHandler = None then 250 else 50;
          info = \<lparr>di_reason = LocalRequest, di_serverReasonId = 0, di_message = []\<rparr>
      in case DispatchEvents eventHandler c of
           None \<Rightarrow> None
         | Some (Inl e, c) \<Rightarrow> Some (Inl e, c)
         | Some (Inr _, c) \<Rightarrow>
             (case run_loop w maximumWait eventHandler cycleHandler c of
                None \<Rightarrow> None
              | Some (Inl e, c) \<Rightarrow> Some (Inl e, c)
              | Some (Inr ended, c) \<Rightarrow>
                  let info = (case ended of None \<Rightarrow> info | Some ended \<Rightarrow> ended)
                  in if di_reason info = LocalRequest
                     then (case DisconnectGracefully w ''Client disconnected'' eventHandler c of
                             None \<Rightarrow> None
                           | Some (Inl e, c) \<Rightarrow> Some (Inl e, c)
                           | Some (Inr _, c) \<Rightarrow> Some (Inr info, c))
                     else Some (Inr info, c)))"

definition Run ::
  "('n, 'd, 'bn, 'key) ConnectionWorld \<Rightarrow> ('n, 'd) EventHandler \<Rightarrow> ('n, 'd) CycleHandler \<Rightarrow> ('n, 'd) Connection \<Rightarrow>
     (DisconnectInfo result \<times> ('n, 'd) Connection) option" where
  "Run w eventHandler cycleHandler c =
     (case RequireEstablished c of
        (Inl e, c) \<Rightarrow> Some (Inl e, c)
      | (Inr _, c) \<Rightarrow>
          (case run_session w eventHandler cycleHandler c of
             None \<Rightarrow> None
           | Some (Inl e, c) \<Rightarrow>
               if safe_error e
               then Some (Inr \<lparr>di_reason = TransportError, di_serverReasonId = 0, di_message = what e\<rparr>, set_state Closed c)
               else Some (Inl e, c)
           | Some (Inr info, c) \<Rightarrow> Some (Inr info, set_state Closed c)))"

section \<open>The rest of the interface\<close>

definition Wake :: "('n, 'd, 'bn, 'key) ConnectionWorld \<Rightarrow> ('n, 'd, unit) connection_op" where
  "Wake w = on_world (cw_wake w)"

definition connection_HasEvent :: "('n, 'd, bool) connection_op" where
  "connection_HasEvent = when_established (op_gets (\<lambda>s. sn_events s \<noteq> []))"

definition connection_TakeEvent :: "('n, 'd, SessionEvent) connection_op" where
  "connection_TakeEvent = when_established TakeEvent"

definition connection_SendTextMessage ::
  "('n, 'd, 'bn, 'key) ConnectionWorld \<Rightarrow> TextMessageTarget \<Rightarrow> string \<Rightarrow> ('n, 'd, unit) connection_op" where
  "connection_SendTextMessage w target body = when_established (session_SendTextMessage (cw_env w) target body)"

definition connection_MoveToChannel :: "('n, 'd, 'bn, 'key) ConnectionWorld \<Rightarrow> u64 \<Rightarrow> ('n, 'd, unit) connection_op" where
  "connection_MoveToChannel w channelId = when_established (session_MoveToChannel (cw_env w) channelId)"

definition connection_ChangeNickname :: "('n, 'd, 'bn, 'key) ConnectionWorld \<Rightarrow> string \<Rightarrow> ('n, 'd, unit) connection_op" where
  "connection_ChangeNickname w nickname = when_established (session_ChangeNickname (cw_env w) nickname)"

definition connection_SetAudioState :: "('n, 'd, 'bn, 'key) ConnectionWorld \<Rightarrow> AudioState \<Rightarrow> ('n, 'd, unit) connection_op" where
  "connection_SetAudioState w audio = when_established (session_SetAudioState (cw_env w) audio)"

definition connection_SendVoice :: "('n, 'd, 'bn, 'key) ConnectionWorld \<Rightarrow> bytes \<Rightarrow> bool \<Rightarrow> ('n, 'd, unit) connection_op" where
  "connection_SendVoice w data talkStart = when_established (session_SendVoice (cw_env w) data talkStart)"

definition connection_SendWhisper ::
  "('n, 'd, 'bn, 'key) ConnectionWorld \<Rightarrow> WhisperTarget \<Rightarrow> bytes \<Rightarrow> bool \<Rightarrow> ('n, 'd, unit) connection_op" where
  "connection_SendWhisper w target data talkStart = when_established (session_SendWhisper (cw_env w) target data talkStart)"

definition connection_SendGroupWhisper ::
  "('n, 'd, 'bn, 'key) ConnectionWorld \<Rightarrow> GroupWhisper \<Rightarrow> bytes \<Rightarrow> bool \<Rightarrow> ('n, 'd, unit) connection_op" where
  "connection_SendGroupWhisper w target data talkStart =
     when_established (session_SendGroupWhisper (cw_env w) target data talkStart)"

definition IsEstablished :: "('n, 'd) Connection \<Rightarrow> bool" where
  "IsEstablished c \<longleftrightarrow> cn_state c = Established \<and> cn_session c \<noteq> None"

definition connection_ClientId :: "('n, 'd, u16) connection_op" where
  "connection_ClientId = when_established (op_gets sn_clientId)"

definition connection_CurrentChannelId :: "('n, 'd, u64) connection_op" where
  "connection_CurrentChannelId = when_established (op_gets sn_currentChannelId)"

definition connection_CurrentNickname :: "('n, 'd, string) connection_op" where
  "connection_CurrentNickname = when_established (op_gets sn_currentNickname)"

definition connection_ServerName :: "('n, 'd, string) connection_op" where
  "connection_ServerName = when_established (op_gets sn_serverName)"

definition connection_Channels :: "('n, 'd, ChannelStore) connection_op" where
  "connection_Channels = when_established (op_gets sn_channels)"

definition connection_Clients :: "('n, 'd, ClientStore) connection_op" where
  "connection_Clients = when_established (op_gets sn_clients)"

definition connection_Statistics :: "('n, 'd, 'bn, 'key) ConnectionWorld \<Rightarrow> ('n, 'd, 'd Snapshot) connection_op" where
  "connection_Statistics w = when_established (on_transport (transport_Statistics (cw_env w)))"

section \<open>Moves of a connection\<close>

text \<open>
  A relation between a connection before and after, such as \<open>later\<close> below: what the loops of
  this class need of it to stay within it. \<open>handlers\<close> are the event handlers that keep it.
\<close>

locale connection_moves =
  fixes moves :: "('n, 'd) Connection \<Rightarrow> ('n, 'd) Connection \<Rightarrow> bool"
    and handlers :: "('n, 'd) EventHandler \<Rightarrow> bool"
    and w :: "('n, 'd, 'bn, 'key) ConnectionWorld"
  assumes same: "moves c c"
    and chain: "moves c c' \<Longrightarrow> moves c' c'' \<Longrightarrow> moves c c''"
    and query_move: "op_keeps (moves c) (on_session (op_gets (has :: ('n, 'd) Session \<Rightarrow> bool)))"
    and event_move: "handlers handler \<Longrightarrow> op_keeps (moves c) (dispatch_event handler)"
    and start_move: "op_keeps (moves c) (start_goodbye w reason)"
    and turn_move: "op_keeps (moves c) (goodbye_turn w deadline)"
begin

lemma step: "op_keeps (moves c) m \<Longrightarrow> m c = (r, c') \<Longrightarrow> moves c c'"
  using op_keepsD' [of "moves c" m c r c'] same by simp

lemma dispatch_moves:
  assumes "handlers handler" and "DispatchEvents handler c = Some x"
  shows "moves c (snd x)"
proof -
  have "handlers handler \<longrightarrow> moves c (snd x)"
  proof (rule DispatchEvents.raw_induct [OF _ assms(2)], goal_cases)
    case (1 rec handler c x)
    obtain r c1 where more: "on_session (op_gets (\<lambda>s. sn_events s \<noteq> [])) c = (r, c1)"
      by (rule prod.exhaust)
    have c1: "moves c c1"
      by (rule step [OF query_move more])
    obtain r2 c2 where event: "dispatch_event handler c1 = (r2, c2)"
      by (rule prod.exhaust)
    have c2: "handlers handler \<longrightarrow> moves c c2"
      using chain [OF c1 step [OF event_move event]] by blast
    show ?case
    proof (cases "\<exists>u. r = Inr True \<and> r2 = Inr u")
      case True
      then have "rec handler c2 = Some x"
        using 1(2) by (auto simp: more event)
      from 1(1) [OF this] show ?thesis
        using c2 by (blast intro: chain)
    next
      case False
      then show ?thesis
        using 1(2) c1 c2 by (auto simp: more event split: sum.splits if_splits)
    qed
  qed
  then show ?thesis
    using assms(1) by blast
qed

lemma goodbye_moves:
  assumes "handlers handler" and "goodbye_loop w deadline handler c = Some x"
  shows "moves c (snd x)"
proof -
  have "w' = w \<longrightarrow> handlers handler \<longrightarrow> moves c (snd x)" if "goodbye_loop w' deadline handler c = Some x" for w'
  proof (rule goodbye_loop.raw_induct [OF _ that], goal_cases)
    case (1 rec w' deadline handler c x)
    obtain r c1 where turn: "goodbye_turn w' deadline c = (r, c1)"
      by (rule prod.exhaust)
    have c1: "w' = w \<longrightarrow> moves c c1"
      using step [OF turn_move] turn by blast
    show ?case
    proof (cases "r = Inr True")
      case True
      then obtain r2 c2 where dispatched: "DispatchEvents handler c1 = Some (r2, c2)"
        using 1(2) by (auto simp: turn split: option.splits)
      have c2: "w' = w \<longrightarrow> handlers handler \<longrightarrow> moves c c2"
        using dispatch_moves [OF _ dispatched] c1 by (auto intro: chain)
      show ?thesis
        using 1(2) 1(1) [of w' deadline handler c2] c2
        by (auto simp: turn True dispatched split: sum.splits intro: chain)
    next
      case False
      then show ?thesis
        using 1(2) c1 by (auto simp: turn split: sum.splits if_splits)
    qed
  qed
  then show ?thesis
    using assms by blast
qed

lemma graceful_moves:
  assumes "handlers handler" and "DisconnectGracefully w reason handler c = Some (r, c')"
  shows "moves c c'"
proof -
  obtain r1 c1 where start: "start_goodbye w reason c = (r1, c1)"
    by (rule prod.exhaust)
  have c1: "moves c c1"
    by (rule step [OF start_move start])
  then show ?thesis
    using assms(2) by (cases r1) (auto simp: DisconnectGracefully_def start dest!: goodbye_moves [OF assms(1)]
      intro: chain [OF c1])
qed

end

section \<open>The life of a connection\<close>

text \<open>
  \<open>connection_ok\<close> is what holds of a connection between calls; \<open>later\<close> orders its states. Every
  operation stays above the state it started in: \<open>op_keeps (later c)\<close> for every \<open>c\<close>.
\<close>

definition connection_ok :: "('n, 'd) Connection \<Rightarrow> bool" where
  "connection_ok c \<longleftrightarrow> cn_state c \<noteq> Connecting \<and> (cn_state c = Created \<longrightarrow> cn_session c = None) \<and>
     (cn_state c = Established \<longrightarrow> cn_session c \<noteq> None) \<and>
     (case cn_session c of None \<Rightarrow> True | Some s \<Rightarrow> session_ok (\<lambda>_. 0) s)"

fun rank :: "ConnectionState \<Rightarrow> nat" where
  "rank Created = 0"
| "rank Connecting = 1"
| "rank Established = 2"
| "rank Closed = 3"

definition later :: "('n, 'd) Connection \<Rightarrow> ('n, 'd) Connection \<Rightarrow> bool" where
  "later c c' \<longleftrightarrow> rank (cn_state c) \<le> rank (cn_state c') \<and> (connection_ok c \<longrightarrow> connection_ok c')"

lemma later_refl [simp]: "later c c"
  by (simp add: later_def)

lemma later_trans: "later c c' \<Longrightarrow> later c' c'' \<Longrightarrow> later c c''"
  by (auto simp: later_def)

lemma rank_le: "rank state \<le> 3"
  by (cases state) auto

lemma rank_Closed: "3 \<le> rank state \<longleftrightarrow> state = Closed"
  by (cases state) auto

text \<open>An operation of the session keeps its invariant and does not touch the connection's state.\<close>

lemma on_session_state: "on_session m c = (r, c') \<Longrightarrow>
    cn_state c' = cn_state c \<and> (cn_session c' = None \<longleftrightarrow> cn_session c = None) \<and> cn_net c' = cn_net c"
  by (auto simp: on_session_def split: option.splits prod.splits)

lemma on_session_later:
  assumes "op_keeps (session_ok (\<lambda>_. 0)) m"
  shows "op_keeps (later c) (on_session m)"
proof (rule op_keepsI)
  fix c1
  assume later: "later c c1"
  show "later c (snd (on_session m c1))"
  proof (cases "cn_session c1")
    case (Some s)
    obtain r s' where run: "m s = (r, s')"
      by (rule prod.exhaust)
    have "session_ok (\<lambda>_. 0) s \<longrightarrow> session_ok (\<lambda>_. 0) s'"
      using op_keepsD' [OF assms _ run] by blast
    then have "later c1 (c1\<lparr>cn_session := Some s'\<rparr>)"
      by (auto simp: later_def connection_ok_def Some)
    then show ?thesis
      using later by (auto simp: on_session_def Some run intro: later_trans)
  qed (use later in \<open>simp add: on_session_def\<close>)
qed

lemma RequireEstablished_later: "op_keeps (later c) RequireEstablished"
  by (simp add: op_keeps_def RequireEstablished_def)

lemma when_established_later:
  "op_keeps (session_ok (\<lambda>_. 0)) m \<Longrightarrow> op_keeps (later c) (when_established m)"
  unfolding when_established_def by (intro op_keeps_bind RequireEstablished_later on_session_later)

lemma on_world_later: "op_keeps (later c) (on_world m)"
proof -
  have "op_keeps (later c) (op_zoom cn_net (\<lambda>n c. c\<lparr>cn_net := n\<rparr>) m)"
    by (auto simp: op_keeps_def op_zoom_def later_def connection_ok_def split: prod.split)
  moreover have "op_keeps (later c) (on_session (on_transport (on_net m)))"
    by (intro on_session_later transport_session_keeps on_net_keeps)
  ultimately show ?thesis
    by (simp add: op_keeps_def on_world_def)
qed

lemma poll_wait_is_WaitTimeout: "poll_wait env timeout = on_transport (WaitTimeout env timeout)"
  by (rule ext) (simp add: poll_wait_def WaitTimeout_def op_bind_def op_zoom_def op_gets_def op_return_def
      split: option.split prod.split sum.split)

lemma Poll_later: "op_keeps (later c) (Poll w timeout)"
  unfolding Poll_def poll_wait_is_WaitTimeout transport_WaitReadable_def
  by (intro op_keeps_bind RequireEstablished_later on_session_later session_ProcessTimers_keeps
      transport_session_keeps WaitTimeout_keeps on_net_keeps op_keeps_if op_keeps_return session_ProcessPacket_keeps)

text \<open>What the caller's handlers may do: anything that is itself a move forward.\<close>

definition event_handler_ok :: "('n, 'd) EventHandler \<Rightarrow> bool" where
  "event_handler_ok handler \<longleftrightarrow> (case handler of None \<Rightarrow> True | Some h \<Rightarrow> \<forall>e c. op_keeps (later c) (h e))"

definition cycle_handler_ok :: "('n, 'd) CycleHandler \<Rightarrow> bool" where
  "cycle_handler_ok handler \<longleftrightarrow> (case handler of None \<Rightarrow> True | Some h \<Rightarrow> \<forall>c. op_keeps (later c) h)"

lemma dispatch_event_later:
  assumes "event_handler_ok handler"
  shows "op_keeps (later c) (dispatch_event handler)"
proof -
  have "op_keeps (later c) (case handler of None \<Rightarrow> op_return () | Some h \<Rightarrow> h e)" for e
    using assms by (auto simp: event_handler_ok_def split: option.splits)
  then show ?thesis
    unfolding dispatch_event_def by (intro op_keeps_bind on_session_later TakeEvent_keeps)
qed

lemma goodbye_turn_later: "op_keeps (later c) (goodbye_turn w deadline)"
  unfolding goodbye_turn_def
  by (intro op_keeps_bind op_keeps_if op_keeps_return on_session_later op_keeps_gets transport_session_keeps
      clock_now_keeps Poll_later)

lemma start_goodbye_later: "op_keeps (later c) (start_goodbye w reason)"
  unfolding start_goodbye_def
  by (intro op_keeps_bind on_session_later Disconnect_keeps transport_session_keeps clock_now_keeps op_keeps_return)

interpretation forward: connection_moves later event_handler_ok w for w
  by unfold_locales (auto intro: later_trans on_session_later op_keeps_gets dispatch_event_later start_goodbye_later
    goodbye_turn_later)

lemma SessionEnded_later: "op_keeps (later c) (SessionEnded w)"
  unfolding SessionEnded_def session_TimedOut_def
  by (intro op_keeps_bind op_keeps_option op_keeps_if op_keeps_return on_session_later op_keeps_gets
      transport_session_keeps clock_now_keeps)

lemma run_turn_later:
  assumes "cycle_handler_ok handler"
  shows "op_keeps (later c) (run_turn w maximumWait handler)"
proof -
  have "op_keeps (later c) (case handler of None \<Rightarrow> op_return () | Some h \<Rightarrow> h)"
    using assms by (auto simp: cycle_handler_ok_def split: option.splits)
  then show ?thesis
    unfolding run_turn_def
    by (intro op_keeps_bind op_keeps_if op_keeps_return on_world_later Poll_later)
qed

lemma run_loop_later:
  assumes "event_handler_ok eventHandler" and "cycle_handler_ok cycleHandler"
    and "run_loop w maximumWait eventHandler cycleHandler c = Some x"
  shows "later c (snd x)"
proof -
  have "event_handler_ok eventHandler \<longrightarrow> cycle_handler_ok cycleHandler \<longrightarrow> later c (snd x)"
  proof (rule run_loop.raw_induct [OF _ assms(3)], goal_cases)
    case (1 rec w maximumWait eventHandler cycleHandler c x)
    obtain r c1 where turn: "run_turn w maximumWait cycleHandler c = (r, c1)"
      by (rule prod.exhaust)
    have c1: "cycle_handler_ok cycleHandler \<longrightarrow> later c c1"
      using op_keepsD' [OF run_turn_later later_refl turn] by blast
    show ?case
    proof (cases "r = Inr True")
      case True
      then obtain r2 c2 where dispatched: "DispatchEvents eventHandler c1 = Some (r2, c2)"
        using 1(2) by (auto simp: turn split: option.splits)
      have c2: "event_handler_ok eventHandler \<longrightarrow> cycle_handler_ok cycleHandler \<longrightarrow> later c c2"
        using forward.dispatch_moves [OF _ dispatched] c1 by (auto intro: later_trans)
      obtain r3 c3 where ended: "SessionEnded w c2 = (r3, c3)"
        by (rule prod.exhaust)
      have "later c2 c3"
        by (rule op_keepsD' [OF SessionEnded_later later_refl ended])
      then have c3: "event_handler_ok eventHandler \<longrightarrow> cycle_handler_ok cycleHandler \<longrightarrow> later c c3"
        using c2 by (blast intro: later_trans)
      show ?thesis
        using 1(2) 1(1) [of w maximumWait eventHandler cycleHandler c3] c2 c3
        by (auto simp: turn True dispatched ended split: sum.splits option.splits intro: later_trans)
    next
      case False
      then show ?thesis
        using 1(2) c1 by (auto simp: turn split: sum.splits if_splits)
    qed
  qed
  then show ?thesis
    using assms(1,2) by blast
qed

lemma run_session_later:
  assumes ok: "event_handler_ok eventHandler" "cycle_handler_ok cycleHandler"
    and run: "run_session w eventHandler cycleHandler c = Some (r, c')"
  shows "later c c'"
proof -
  obtain r1 c1 where dispatched: "DispatchEvents eventHandler c = Some (r1, c1)"
    using run by (auto simp: run_session_def Let_def split: option.splits)
  have c1: "later c c1"
    using forward.dispatch_moves [OF ok(1) dispatched] by simp
  show ?thesis
  proof (cases r1)
    case (Inr u)
    define maximumWait :: int where "maximumWait = (if cycleHandler = None then 250 else 50)"
    obtain r2 c2 where looped: "run_loop w maximumWait eventHandler cycleHandler c1 = Some (r2, c2)"
      using run by (auto simp: run_session_def Let_def dispatched Inr maximumWait_def [symmetric] split: option.splits)
    have "later c1 c2"
      using run_loop_later [OF ok looped] by simp
    then have c2: "later c c2"
      using c1 by (rule later_trans [rotated])
    show ?thesis
      using run c2
      by (auto simp: run_session_def Let_def dispatched Inr maximumWait_def [symmetric] looped
          split: option.splits sum.splits if_splits
          dest!: forward.graceful_moves [OF ok(1)] intro: later_trans [OF c2])
  qed (use run c1 in \<open>auto simp: run_session_def Let_def dispatched\<close>)
qed

lemma set_Closed_later: "later c c' \<Longrightarrow> later c (set_state Closed c')"
  by (auto simp: later_def set_state_def connection_ok_def rank_le)

lemma Run_later:
  assumes "event_handler_ok eventHandler" "cycle_handler_ok cycleHandler" "Run w eventHandler cycleHandler c = Some (r, c')"
  shows "later c c'"
  using assms(3)
  by (auto simp: Run_def RequireEstablished_def split: if_splits option.splits sum.splits
      dest!: run_session_later [OF assms(1,2)] intro: set_Closed_later)

lemma connection_Disconnect_later:
  assumes "connection_Disconnect w reason c = Some (r, c')"
  shows "later c c'"
proof -
  have "event_handler_ok None"
    by (simp add: event_handler_ok_def)
  note leave = forward.graceful_moves [OF this]
  show ?thesis
    using assms by (auto simp: connection_Disconnect_def RequireEstablished_def
        split: if_splits option.splits sum.splits dest!: leave intro: set_Closed_later)
qed

lemma connect_session_Inr:
  assumes "connect_session w profile keyOffset serverIp n = Some (Inr s, n')"
  obtains n1 n2 b where "cw_connect w n = (Inr (), n1)"
    and "Handshake_Run (cw_handshake w) (vp_initVersion (cp_version_profile profile)) serverIp n1 = Some (Inr b, n2)"
    and "Login (cw_env w) profile keyOffset (make_Session (cw_env w)
        \<lparr>sc_sharedIv = sm_sharedIv (sb_material b), sc_sharedMac = sm_sharedMac (sb_material b)\<rparr> (sb_sequences b) n2) =
      Some (Inr (), s)"
  using assms that by (auto simp: connect_session_def Let_def res_bind_eq_Inr split: prod.splits sum.splits option.splits)

lemma connect_session_ok:
  assumes "connect_session w profile keyOffset serverIp n = Some (Inr s, n')"
  shows "session_ok (\<lambda>_. 0) s"
  by (rule connect_session_Inr [OF assms])
    (use Login_keeps make_Session_ok Handshake_Run_sequences in \<open>metis Handshake_Run_def\<close>)

lemma Connect_later: "Connect w profile keyOffset serverIp c = Some (r, c') \<Longrightarrow> later c c'"
  by (auto simp: Connect_def later_def set_state_def connection_ok_def connect_session_ok
      split: if_splits option.splits sum.splits)

text \<open>One call of the public interface, with the state it leaves whether or not it throws.\<close>

inductive connection_call ::
  "('n, 'd, 'bn, 'key) ConnectionWorld \<Rightarrow> ('n, 'd) Connection \<Rightarrow> ('n, 'd) Connection \<Rightarrow> bool" for w where
  on_connect: "Connect w profile keyOffset serverIp c = Some (r, c') \<Longrightarrow> connection_call w c c'"
| on_disconnect: "connection_Disconnect w reason c = Some (r, c') \<Longrightarrow> connection_call w c c'"
| on_poll: "Poll w timeout c = (readable, c') \<Longrightarrow> connection_call w c c'"
| on_run: "event_handler_ok eventHandler \<Longrightarrow> cycle_handler_ok cycleHandler \<Longrightarrow>
    Run w eventHandler cycleHandler c = Some (info, c') \<Longrightarrow> connection_call w c c'"
| on_take: "connection_TakeEvent c = (event, c') \<Longrightarrow> connection_call w c c'"
| on_wake: "Wake w c = (r, c') \<Longrightarrow> connection_call w c c'"
| on_text: "connection_SendTextMessage w target body c = (r, c') \<Longrightarrow> connection_call w c c'"
| on_move: "connection_MoveToChannel w channelId c = (r, c') \<Longrightarrow> connection_call w c c'"
| on_nickname: "connection_ChangeNickname w nickname c = (r, c') \<Longrightarrow> connection_call w c c'"
| on_audio: "connection_SetAudioState w audio c = (r, c') \<Longrightarrow> connection_call w c c'"
| on_voice: "connection_SendVoice w data talkStart c = (r, c') \<Longrightarrow> connection_call w c c'"
| on_whisper: "connection_SendWhisper w whisper data talkStart c = (r, c') \<Longrightarrow> connection_call w c c'"
| on_group_whisper: "connection_SendGroupWhisper w whisperers data talkStart c = (r, c') \<Longrightarrow> connection_call w c c'"
| on_statistics: "connection_Statistics w c = (snapshot, c') \<Longrightarrow> connection_call w c c'"

lemma requests_later:
  "op_keeps (later c) (connection_SendTextMessage w target body)"
  "op_keeps (later c) (connection_MoveToChannel w channelId)"
  "op_keeps (later c) (connection_ChangeNickname w nickname)"
  "op_keeps (later c) (connection_SetAudioState w audio)"
  "op_keeps (later c) (connection_SendVoice w data talkStart)"
  "op_keeps (later c) (connection_SendWhisper w whisper data talkStart)"
  "op_keeps (later c) (connection_SendGroupWhisper w whisperers data talkStart)"
  "op_keeps (later c) connection_TakeEvent"
  "op_keeps (later c) (connection_Statistics w)"
  unfolding connection_SendTextMessage_def connection_MoveToChannel_def connection_ChangeNickname_def
    connection_SetAudioState_def connection_SendVoice_def connection_SendWhisper_def connection_SendGroupWhisper_def
    connection_TakeEvent_def connection_Statistics_def
  by (intro when_established_later requests_keep MoveToChannel_keeps voice_keeps TakeEvent_keeps transport_session_keeps
      client_interface_keeps)+

lemma Wake_later: "op_keeps (later c) (Wake w)"
  unfolding Wake_def by (rule on_world_later)

lemma connection_call_later: "connection_call w c c' \<Longrightarrow> later c c'"
  by (induction rule: connection_call.induct)
    (auto intro: Connect_later connection_Disconnect_later Run_later op_keepsD' [OF Poll_later later_refl]
      op_keepsD' [OF requests_later(1) later_refl] op_keepsD' [OF requests_later(2) later_refl]
      op_keepsD' [OF requests_later(3) later_refl] op_keepsD' [OF requests_later(4) later_refl]
      op_keepsD' [OF requests_later(5) later_refl] op_keepsD' [OF requests_later(6) later_refl]
      op_keepsD' [OF requests_later(7) later_refl] op_keepsD' [OF requests_later(8) later_refl]
      op_keepsD' [OF requests_later(9) later_refl] op_keepsD' [OF Wake_later later_refl])

lemma connection_calls_later: "(connection_call w)\<^sup>*\<^sup>* c c' \<Longrightarrow> later c c'"
  by (induction rule: rtranclp_induct) (auto intro: later_trans connection_call_later)


text \<open>Why the live loop ended: the reason it reports is the session's own record.\<close>

definition ended_by :: "('n, 'd) Connection \<Rightarrow> DisconnectInfo \<Rightarrow> bool" where
  "ended_by c info \<longleftrightarrow> (\<exists>s. cn_session c = Some s \<and>
     (case sn_serverRemoval s of
        Some d \<Rightarrow> info = \<lparr>di_reason = ServerClosed, di_serverReasonId = sd_reasonId d, di_message = sd_message d\<rparr>
      | None \<Rightarrow> (\<exists>now. TimedOut now (sn_transport s)) \<and> info = \<lparr>di_reason = Timeout, di_serverReasonId = 0,
          di_message = ''No data received from the server for 30 seconds''\<rparr>))"

lemma ended_by_reason: "ended_by c info \<Longrightarrow> di_reason info \<noteq> LocalRequest"
  by (auto simp: ended_by_def split: option.splits)

lemma thirty_seconds: "to_string (nat ReceiveTimeout) = ''30''"
  by code_simp

lemma TimedOut_net [simp]: "TimedOut now (t\<lparr>tr_net := n\<rparr>) \<longleftrightarrow> TimedOut now t"
  by (simp add: TimedOut_def)

lemma SessionEnded_Inr:
  assumes "SessionEnded w c = (Inr (Some info), c')"
  shows "ended_by c' info"
proof -
  obtain s where s: "cn_session c = Some s"
    using assms by (cases "cn_session c") (auto simp: SessionEnded_def on_session_def op_bind_def)
  show ?thesis
  proof (cases "sn_serverRemoval s")
    case None
    then show ?thesis
      using assms s by (auto simp: SessionEnded_def on_session_def session_TimedOut_def op_bind_def op_zoom_def clock_now_def
          ended_by_def thirty_seconds op_return_def split: prod.splits if_splits) blast
  next
    case (Some d)
    then show ?thesis
      using assms s by (auto simp: SessionEnded_def on_session_def op_bind_def ended_by_def op_return_def)
  qed
qed

lemma run_turn_stop:
  assumes "run_turn w maximumWait cycleHandler c = (Inr False, c')"
  shows "on_world (op_read (cw_stop_requested w)) c = (Inr True, c')"
  using assms by (auto simp: run_turn_def op_bind_def op_return_def split: prod.splits sum.splits if_splits)

lemma run_loop_end:
  assumes "run_loop w maximumWait eventHandler cycleHandler c = Some x"
  shows "case x of
      (Inr (Some info), c') \<Rightarrow> ended_by c' info
    | (Inr None, c') \<Rightarrow> (\<exists>c0. on_world (op_read (cw_stop_requested w)) c0 = (Inr True, c'))
    | (Inl e, c') \<Rightarrow> True"
proof (rule run_loop.raw_induct [OF _ assms], goal_cases)
  case (1 rec w maximumWait eventHandler cycleHandler c x)
  obtain r c1 where turn: "run_turn w maximumWait cycleHandler c = (r, c1)"
    by (rule prod.exhaust)
  show ?case
  proof (cases "r = Inr True")
    case True
    then obtain r2 c2 where dispatched: "DispatchEvents eventHandler c1 = Some (r2, c2)"
      using 1(2) by (auto simp: turn split: option.splits)
    obtain r3 c3 where ended: "SessionEnded w c2 = (r3, c3)"
      by (rule prod.exhaust)
    show ?thesis
      using 1(2) 1(1) [of w maximumWait eventHandler cycleHandler c3] SessionEnded_Inr [of w c2 _ c3] ended
      by (auto simp: turn True dispatched split: sum.splits option.splits)
  next
    case False
    then show ?thesis
      using 1(2) run_turn_stop [of w maximumWait cycleHandler c c1] turn by (auto split: sum.splits if_splits)
  qed
qed

lemma run_session_Inr:
  assumes "run_session w eventHandler cycleHandler c = Some (Inr info, c')"
  shows "ended_by c' info \<or>
    info = \<lparr>di_reason = LocalRequest, di_serverReasonId = 0, di_message = []\<rparr> \<and>
    (\<exists>c0 c1. on_world (op_read (cw_stop_requested w)) c0 = (Inr True, c1) \<and>
       DisconnectGracefully w ''Client disconnected'' eventHandler c1 = Some (Inr (), c'))"
proof -
  define maximumWait :: int where "maximumWait = (if cycleHandler = None then 250 else 50)"
  obtain c1 ended c2 where "DispatchEvents eventHandler c = Some (Inr (), c1)"
    and looped: "run_loop w maximumWait eventHandler cycleHandler c1 = Some (Inr ended, c2)"
    using assms by (auto simp: run_session_def Let_def maximumWait_def [symmetric] split: option.splits sum.splits)
  then show ?thesis
    using assms run_loop_end [OF looped]
    by (cases ended; auto simp: run_session_def Let_def maximumWait_def [symmetric] dest: ended_by_reason
        split: option.splits sum.splits if_splits; blast)
qed

text \<open>
  Handlers that return rather than throw; they may call back into the connection. With them,
  what ends \<open>Run\<close> with an exception was thrown by the session: by \<open>Poll\<close> or by sending the
  goodbye.
\<close>

definition handlers_return :: "('n, 'd) EventHandler \<Rightarrow> ('n, 'd) CycleHandler \<Rightarrow> bool" where
  "handlers_return eventHandler cycleHandler \<longleftrightarrow>
     (\<forall>h \<in> set_option eventHandler. \<forall>event c. fst (h event c) = Inr ()) \<and>
     (\<forall>h \<in> set_option cycleHandler. \<forall>c. fst (h c) = Inr ())"

definition session_throws :: "('n, 'd, 'bn, 'key) ConnectionWorld \<Rightarrow> string \<Rightarrow> error \<Rightarrow> bool" where
  "session_throws w reason e \<longleftrightarrow>
     (\<exists>timeout c c'. Poll w timeout c = (Inl e, c')) \<or>
     (\<exists>c c'. on_session (session_Disconnect (cw_env w) reason) c = (Inl e, c'))"

definition fails_safely_by :: "(error \<Rightarrow> bool) \<Rightarrow> ('a result \<times> 'c) \<Rightarrow> bool" where
  "fails_safely_by P x \<longleftrightarrow> (\<forall>e. fst x = Inl e \<longrightarrow> safe_error e \<longrightarrow> P e)"

lemma on_session_gets:
  "on_session (op_gets f) c = (case cn_session c of None \<Rightarrow> (Inl (UndefinedBehaviour ''m_Session''), c) | Some s \<Rightarrow> (Inr (f s), c))"
  by (cases c) (auto simp: on_session_def split: option.split)

lemma on_session_clock:
  "fst (on_session (on_transport (clock_now env)) c) = Inl e \<Longrightarrow> \<not> safe_error e"
  by (auto simp: on_session_def op_zoom_def clock_now_def split: option.splits prod.splits)

lemma event_returns:
  assumes "handlers_return eventHandler cycleHandler" and "cn_session c = Some s" and "sn_events s \<noteq> []"
  shows "fst (dispatch_event eventHandler c) = Inr ()"
proof -
  obtain e es where "sn_events s = e # es" using assms(3) by (cases "sn_events s") auto
  then have "on_session TakeEvent c = (Inr e, c\<lparr>cn_session := Some (s\<lparr>sn_events := es\<rparr>)\<rparr>)"
    using assms(2) by (simp add: on_session_def TakeEvent_def)
  then show ?thesis
    using assms(1) by (cases eventHandler) (simp_all add: dispatch_event_def op_bind_def handlers_return_def)
qed

lemma dispatch_safe:
  assumes "handlers_return eventHandler cycleHandler" and "DispatchEvents eventHandler c = Some x"
  shows "fails_safely_by (\<lambda>e. False) x"
proof -
  have "handlers_return eventHandler cycleHandler \<longrightarrow> fails_safely_by (\<lambda>e. False) x"
  proof (rule DispatchEvents.raw_induct [OF _ assms(2)], goal_cases)
    case (1 rec handler c x)
    show ?case
    proof (intro impI)
      assume handlers: "handlers_return handler cycleHandler"
      show "fails_safely_by (\<lambda>e. False) x"
      proof (cases "cn_session c")
        case None
        then show ?thesis using 1(2) by (auto simp: on_session_gets fails_safely_by_def)
      next
        case (Some s)
        show ?thesis
        proof (cases "sn_events s = []")
          case True
          then show ?thesis using 1(2) Some by (auto simp: on_session_gets fails_safely_by_def)
        next
          case False
          obtain r c2 where event: "dispatch_event handler c = (r, c2)" by (rule prod.exhaust)
          then have "r = Inr ()" using event_returns [OF handlers Some False] by simp
          then have "rec handler c2 = Some x" using 1(2) Some False event by (simp add: on_session_gets)
          from 1(1) [OF this] handlers show ?thesis by blast
        qed
      qed
    qed
  qed
  with assms(1) show ?thesis by blast
qed

lemma goodbye_turn_safe: "fails_safely_by (session_throws w reason) (goodbye_turn w deadline c)"
proof (cases "cn_session c")
  case None
  then show ?thesis by (simp add: goodbye_turn_def op_bind_def on_session_gets fails_safely_by_def)
next
  case (Some s)
  obtain r c1 where now: "on_session (on_transport (clock_now (cw_env w))) c = (r, c1)" by (rule prod.exhaust)
  show ?thesis
  proof (cases r)
    case (Inl e)
    then show ?thesis
      using on_session_clock [of "cw_env w" c e] now Some
      by (simp add: goodbye_turn_def op_bind_def on_session_gets fails_safely_by_def)
  next
    case (Inr t)
    obtain r2 c2 where poll: "Poll w (min 100 (ceil_milliseconds (deadline - t))) c1 = (r2, c2)" by (rule prod.exhaust)
    then show ?thesis
      using now Some Inr
      by (cases r2) (auto simp: goodbye_turn_def op_bind_def on_session_gets fails_safely_by_def session_throws_def)
  qed
qed

lemma goodbye_safe:
  assumes "handlers_return eventHandler cycleHandler" and "goodbye_loop w deadline eventHandler c = Some x"
  shows "fails_safely_by (session_throws w reason) x"
proof -
  have "handlers_return eventHandler cycleHandler \<longrightarrow> fails_safely_by (session_throws w reason) x"
  proof (rule goodbye_loop.raw_induct [OF _ assms(2)], goal_cases)
    case (1 rec w deadline handler c x)
    obtain r c1 where turn: "goodbye_turn w deadline c = (r, c1)" by (rule prod.exhaust)
    show ?case
    proof (cases "r = Inr True")
      case True
      then obtain r2 c2 where dispatched: "DispatchEvents handler c1 = Some (r2, c2)"
        using 1(2) by (auto simp: turn split: option.splits)
      then show ?thesis
        using 1(2) 1(1) [of w deadline handler c2] dispatch_safe [OF _ dispatched, of cycleHandler] True turn
        by (cases r2) (auto simp: fails_safely_by_def)
    next
      case False
      then show ?thesis
        using 1(2) goodbye_turn_safe [of w reason deadline c] turn
        by (auto simp: fails_safely_by_def split: sum.splits if_splits)
    qed
  qed
  with assms(1) show ?thesis by blast
qed

lemma graceful_safe:
  assumes "handlers_return eventHandler cycleHandler" and "DisconnectGracefully w reason eventHandler c = Some x"
  shows "fails_safely_by (session_throws w reason) x"
proof -
  have start: "fails_safely_by (session_throws w reason) (start_goodbye w reason c)"
  proof -
    obtain r c1 where said: "on_session (session_Disconnect (cw_env w) reason) c = (r, c1)" by (rule prod.exhaust)
    obtain r2 c2 where now: "on_session (on_transport (clock_now (cw_env w))) c1 = (r2, c2)" by (rule prod.exhaust)
    show ?thesis
      using said now on_session_clock [of "cw_env w" c1]
      by (cases r; cases r2) (auto simp: start_goodbye_def op_bind_def fails_safely_by_def session_throws_def)
  qed
  obtain r c1 where started: "start_goodbye w reason c = (r, c1)" by (rule prod.exhaust)
  show ?thesis
  proof (cases r)
    case (Inl e)
    then show ?thesis using assms(2) start started by (auto simp: DisconnectGracefully_def fails_safely_by_def)
  next
    case (Inr deadline)
    then have "goodbye_loop w deadline eventHandler c1 = Some x"
      using assms(2) started by (simp add: DisconnectGracefully_def)
    then show ?thesis by (rule goodbye_safe [OF assms(1)])
  qed
qed

lemma SessionEnded_safe: "fails_safely_by (\<lambda>e. False) (SessionEnded w c)"
proof (cases "cn_session c")
  case None
  then show ?thesis by (simp add: SessionEnded_def op_bind_def on_session_gets fails_safely_by_def)
next
  case (Some s)
  then show ?thesis
    by (cases "sn_serverRemoval s")
       (auto simp: SessionEnded_def op_bind_def on_session_gets fails_safely_by_def session_TimedOut_def on_session_def
          op_zoom_def clock_now_def split: prod.split)
qed

lemma run_turn_safe:
  assumes "handlers_return eventHandler cycleHandler"
  shows "fails_safely_by (session_throws w reason) (run_turn w maximumWait cycleHandler c)"
proof -
  obtain r c1 where stop: "on_world (op_read (cw_stop_requested w)) c = (r, c1)" by (rule prod.exhaust)
  then obtain b where b: "r = Inr b"
    by (auto simp: on_world_def op_zoom_def op_read_def on_session_def split: if_splits option.splits prod.splits)
  obtain r2 c2 where cycle: "(case cycleHandler of None \<Rightarrow> op_return () | Some h \<Rightarrow> h) c1 = (r2, c2)" by (rule prod.exhaust)
  then have r2: "r2 = Inr ()"
    using assms by (cases cycleHandler) (auto simp: handlers_return_def split: prod.splits dest: spec [of _ c1])
  obtain r3 c3 where poll: "Poll w maximumWait c2 = (r3, c3)" by (rule prod.exhaust)
  show ?thesis
  proof (cases b)
    case False
    then show ?thesis
      using stop b cycle r2 poll
      by (cases r3) (auto simp: run_turn_def op_bind_def fails_safely_by_def session_throws_def)
  qed (use stop b in \<open>simp add: run_turn_def op_bind_def fails_safely_by_def\<close>)
qed

lemma run_loop_safe:
  assumes "handlers_return eventHandler cycleHandler"
    and "run_loop w maximumWait eventHandler cycleHandler c = Some x"
  shows "fails_safely_by (session_throws w reason) x"
proof -
  have "handlers_return eventHandler cycleHandler \<longrightarrow> fails_safely_by (session_throws w reason) x"
  proof (rule run_loop.raw_induct [OF _ assms(2)], goal_cases)
    case (1 rec w maximumWait eventHandler cycleHandler c x)
    obtain r c1 where turn: "run_turn w maximumWait cycleHandler c = (r, c1)" by (rule prod.exhaust)
    show ?case
    proof (intro impI, cases "r = Inr True")
      case True
      assume handlers: "handlers_return eventHandler cycleHandler"
      from True obtain r2 c2 where dispatched: "DispatchEvents eventHandler c1 = Some (r2, c2)"
        using 1(2) by (auto simp: turn split: option.splits)
      obtain r3 c3 where ended: "SessionEnded w c2 = (r3, c3)" by (rule prod.exhaust)
      have last: "fails_safely_by (\<lambda>e. False) (r3, c3)" using SessionEnded_safe [of w c2] unfolding ended .
      note rec = 1(1) [of w maximumWait eventHandler cycleHandler c3]
      note now = 1(2) [unfolded turn True prod.case sum.case not_True_eq_False if_False dispatched option.case ended]
      show "fails_safely_by (session_throws w reason) x"
        using now rec handlers dispatch_safe [OF handlers dispatched] last
        by (auto simp: fails_safely_by_def split: sum.splits option.splits)
    next
      case False
      assume handlers: "handlers_return eventHandler cycleHandler"
      show "fails_safely_by (session_throws w reason) x"
        using 1(2) run_turn_safe [OF handlers, of w reason maximumWait c] turn False
        by (auto simp: fails_safely_by_def split: sum.splits if_splits)
    qed
  qed
  with assms(1) show ?thesis by blast
qed

lemma run_session_safe:
  assumes handlers: "handlers_return eventHandler cycleHandler" and "run_session w eventHandler cycleHandler c = Some x"
  shows "fails_safely_by (session_throws w ''Client disconnected'') x"
proof -
  define maximumWait :: int where "maximumWait = (if cycleHandler = None then 250 else 50)"
  note run = assms(2) [unfolded run_session_def Let_def, folded maximumWait_def]
  obtain r1 c1 where dispatched: "DispatchEvents eventHandler c = Some (r1, c1)"
    using run by (auto split: option.splits)
  note first = dispatch_safe [OF handlers dispatched]
  show ?thesis
  proof (cases r1)
    case (Inl e)
    then show ?thesis using run dispatched first by (auto simp: fails_safely_by_def)
  next
    case (Inr u)
    then obtain r2 c2 where looped: "run_loop w maximumWait eventHandler cycleHandler c1 = Some (r2, c2)"
      using run dispatched by (auto split: option.splits)
    note second = run_loop_safe [OF handlers looped, of "''Client disconnected''"]
    show ?thesis
    proof (cases r2)
      case (Inl e)
      then show ?thesis using run dispatched Inr looped second by (auto simp: fails_safely_by_def)
    next
      case ended: (Inr ended)
      note rest = run [unfolded dispatched option.case prod.case Inr sum.case looped ended]
      show ?thesis
      proof (cases "di_reason (case ended of None \<Rightarrow> \<lparr>di_reason = LocalRequest, di_serverReasonId = 0, di_message = []\<rparr>
          | Some ended \<Rightarrow> ended) = LocalRequest")
        case True
        with rest obtain r3 c3 where bye: "DisconnectGracefully w ''Client disconnected'' eventHandler c2 = Some (r3, c3)"
          by (auto split: option.splits)
        then show ?thesis
          using rest True graceful_safe [OF handlers bye] by (cases r3) (auto simp: fails_safely_by_def)
      next
        case False
        then show ?thesis using rest by (auto simp: fails_safely_by_def)
      qed
    qed
  qed
qed

text \<open>What does not touch the state of the connection at all, as opposed to moving it forward.\<close>

definition same_state :: "('n, 'd) Connection \<Rightarrow> ('n, 'd) Connection \<Rightarrow> bool" where
  "same_state c c' \<longleftrightarrow> cn_state c' = cn_state c \<and> (cn_session c' = None \<longleftrightarrow> cn_session c = None)"

lemma same_state_refl [simp]: "same_state c c"
  by (simp add: same_state_def)

lemma same_state_trans: "same_state c c' \<Longrightarrow> same_state c' c'' \<Longrightarrow> same_state c c''"
  by (simp add: same_state_def)

lemma on_session_same: "op_keeps (same_state c) (on_session m)"
  by (auto simp: op_keeps_def on_session_def same_state_def split: option.split prod.split)

lemma RequireEstablished_same: "op_keeps (same_state c) RequireEstablished"
  by (simp add: op_keeps_def RequireEstablished_def)

lemma Poll_same: "op_keeps (same_state c) (Poll w timeout)"
  unfolding Poll_def by (intro op_keeps_bind op_keeps_if op_keeps_return RequireEstablished_same on_session_same)

interpretation unchanged: connection_moves same_state "\<lambda>handler. handler = None" w for w
proof (unfold_locales, goal_cases)
  case (4 handler c)
  then show ?case
    unfolding dispatch_event_def by (intro op_keeps_bind on_session_same) auto
next
  case (5 c reason)
  then show ?case
    unfolding start_goodbye_def by (intro op_keeps_bind on_session_same op_keeps_return)
next
  case (6 c deadline)
  then show ?case
    unfolding goodbye_turn_def by (intro op_keeps_bind op_keeps_if op_keeps_return on_session_same Poll_same)
qed (auto intro: same_state_trans on_session_same)

section \<open>Properties\<close>


text \<open>
  C5: over any sequence of calls, with handlers that themselves only move forward, a connection
  never goes back to an earlier state, is never seen half connected, and keeps the invariants of
  its session, its stores and its transport.
\<close>

theorem connection_lifecycle:
  assumes "(connection_call w)\<^sup>*\<^sup>* (make_Connection n) c" and "(connection_call w)\<^sup>*\<^sup>* c c'"
  shows "rank (cn_state c) \<le> rank (cn_state c') \<and> cn_state c' \<noteq> Connecting \<and>
    (cn_state c' = Established \<longrightarrow> IsEstablished c') \<and>
    (case cn_session c' of None \<Rightarrow> True
     | Some s \<Rightarrow> transport_inv (sn_transport s) \<and> store_inv (sn_channels s) \<and> clients_inv (sn_clients s))"
proof -
  have "connection_ok (make_Connection n)"
    by (simp add: connection_ok_def make_Connection_def)
  then have "connection_ok c'" and "rank (cn_state c) \<le> rank (cn_state c')"
    using connection_calls_later [OF assms(1)] connection_calls_later [OF assms(2)] by (auto simp: later_def)
  then show ?thesis
    by (auto simp: connection_ok_def IsEstablished_def session_ok_def transport_ok_def split: option.splits)
qed

text \<open>
  On a connection that is not established every call but \<open>Connect\<close>, \<open>Wake\<close> and the state
  queries throws \<open>NotConnectedError\<close> and changes nothing, so a closed connection stays as it is.
\<close>

theorem not_established_refused:
  assumes "\<not> IsEstablished c"
  shows "Poll w timeout c = (Inl (NotConnectedError ''Connection is not established''), c) \<and>
    Run w eventHandler cycleHandler c = Some (Inl (NotConnectedError ''Connection is not established''), c) \<and>
    connection_Disconnect w reason c = Some (Inl (NotConnectedError ''Connection is not established''), c) \<and>
    connection_SendTextMessage w target body c = (Inl (NotConnectedError ''Connection is not established''), c) \<and>
    connection_SendVoice w data talkStart c = (Inl (NotConnectedError ''Connection is not established''), c) \<and>
    connection_TakeEvent c = (Inl (NotConnectedError ''Connection is not established''), c) \<and>
    connection_ClientId c = (Inl (NotConnectedError ''Connection is not established''), c) \<and>
    connection_Channels c = (Inl (NotConnectedError ''Connection is not established''), c)"
  using assms
  by (auto simp: IsEstablished_def RequireEstablished_def Poll_def Run_def connection_Disconnect_def
      connection_SendTextMessage_def connection_SendVoice_def connection_TakeEvent_def connection_ClientId_def
      connection_Channels_def when_established_def op_bind_def)


text \<open>
  \<open>Disconnect\<close> closes the connection only when it returns. When it throws, because the goodbye
  cannot be sent or the wait for it fails, the connection is still in the state \<open>Established\<close>.
\<close>

theorem disconnect_outcome:
  "case connection_Disconnect w reason c of
     Some (Inr _, c') \<Rightarrow> cn_state c' = Closed
   | Some (Inl e, c') \<Rightarrow> cn_state c' = cn_state c \<and> (IsEstablished c' \<longleftrightarrow> IsEstablished c)
   | None \<Rightarrow> IsEstablished c"
  by (auto simp: connection_Disconnect_def RequireEstablished_def IsEstablished_def set_state_def same_state_def
      dest!: unchanged.graceful_moves [OF refl] split: option.split sum.split)

text \<open>
  With a cycle handler that throws in the first turn, \<open>Run\<close> as it is written returns a transport
  error; the comment in \<open>connection.hpp\<close> and \<open>docs/protocol/api.md\<close> say that the exception
  propagates. The same happens to a handler that calls \<open>Disconnect\<close> itself.
\<close>

theorem handler_ends_run:
  assumes "IsEstablished c" and "cn_session c = Some s" and "sn_events s = []"
    and "on_world (op_read (cw_stop_requested w)) c = (Inr False, c1)"
    and "cycleHandler c1 = (r, c2)"
    and "case r of Inl e \<Rightarrow> safe_error e \<and> text = what e
      | Inr _ \<Rightarrow> cn_state c2 = Closed \<and> text = ''Connection is not established''"
  shows "Run w eventHandler (Some cycleHandler) c =
    Some (Inr \<lparr>di_reason = TransportError, di_serverReasonId = 0, di_message = text\<rparr>, set_state Closed c2)"
proof -
  have idle: "DispatchEvents eventHandler c = Some (Inr (), c)"
    using assms(2,3) by (subst DispatchEvents.simps) (auto simp: on_session_def)
  have "\<exists>e. run_turn w 50 (Some cycleHandler) c = (Inl e, c2) \<and> safe_error e \<and> what e = text"
    using assms(4-6) by (cases r) (auto simp: run_turn_def op_bind_def Poll_def RequireEstablished_def)
  then obtain e where turn: "run_turn w 50 (Some cycleHandler) c = (Inl e, c2)" and e: "safe_error e" "what e = text"
    by blast
  have "run_loop w 50 eventHandler (Some cycleHandler) c = Some (Inl e, c2)"
    by (subst run_loop.simps) (simp add: turn)
  then have "run_session w eventHandler (Some cycleHandler) c = Some (Inl e, c2)"
    by (simp add: run_session_def idle)
  then show ?thesis
    using assms(1) e by (auto simp: Run_def RequireEstablished_def IsEstablished_def)
qed

section \<open>Evaluation on a concrete world\<close>

definition toy_world :: "bool \<Rightarrow> (int \<times> bytes list, unit, nat, unit) ConnectionWorld" where
  "toy_world works = \<lparr>cw_handshake =
     \<lparr>hw_env = toy_env works, hw_seconds = \<lambda>n. (0, n), hw_random_device = \<lambda>n. (0, n), hw_rand_bytes = \<lambda>k n. (None, n),
      hw_scalar_random = \<lambda>n. ([], n), hw_bn = nat_numbers, hw_sodium = toy_sodium, hw_import_point = \<lambda>_. None,
      hw_digest_verify = \<lambda>_ _ _. 0, hw_encode_block = \<lambda>_. None, hw_decode_block = \<lambda>_. None,
      hw_public_key = Inr [], hw_sign = \<lambda>_. Inr []\<rparr>,
     cw_connect = (\<lambda>n. (Inl (RuntimeError ''Failed to connect socket''), n)),
     cw_stop_requested = \<lambda>n. (False, n), cw_wake = \<lambda>n. (Inr (), n)\<rparr>"

definition toy_connection :: "(int \<times> bytes list, unit) Connection" where
  "toy_connection = \<lparr>cn_net = (0, []), cn_state = Established, cn_session = Some toy_live\<rparr>"

text \<open>A refused socket: the connection is closed, and stays closed.\<close>

lemma refused_connect:
  "Connect (toy_world True) toy_profile 0 ''127.0.0.1'' (make_Connection (0, [])) =
     Some (Inl (RuntimeError ''Failed to connect socket''), \<lparr>cn_net = (0, []), cn_state = Closed, cn_session = None\<rparr>)"
  by (simp add: Connect_def connect_session_def toy_world_def make_Connection_def set_state_def)

theorem connection_lifecycle_witness:
  "(connection_call (toy_world True))\<^sup>*\<^sup>* (make_Connection (0, []))
     (\<lparr>cn_net = (0, []), cn_state = Closed, cn_session = None\<rparr> :: (int \<times> bytes list, unit) Connection) \<and>
   rank Created \<le> rank Closed"
proof -
  let ?closed = "\<lparr>cn_net = (0, []), cn_state = Closed, cn_session = None\<rparr> :: (int \<times> bytes list, unit) Connection"
  have call: "(connection_call (toy_world True))\<^sup>*\<^sup>* (make_Connection (0, [])) ?closed"
    by (rule r_into_rtranclp, rule on_connect [OF refused_connect])
  then show ?thesis
    using connection_lifecycle [OF rtranclp.rtrancl_refl call] by (simp add: make_Connection_def)
qed

theorem not_established_refused_witness:
  "Poll (toy_world True) 100 \<lparr>cn_net = (0, []), cn_state = Closed, cn_session = Some toy_live\<rparr> =
     (Inl (NotConnectedError ''Connection is not established''),
      \<lparr>cn_net = (0, []), cn_state = Closed, cn_session = Some toy_live\<rparr>)"
  by (rule conjunct1 [OF not_established_refused]) (simp add: IsEstablished_def)

definition removed_connection :: "(int \<times> bytes list, unit) Connection" where
  "removed_connection = toy_connection\<lparr>cn_session := Some (toy_live\<lparr>sn_serverRemoval := Some \<lparr>sd_reasonId = 5, sd_message = ''bye''\<rparr>\<rparr>)\<rparr>"

definition deaf_world :: "(int \<times> bytes list, unit, nat, unit) ConnectionWorld" where
  "deaf_world = (toy_world True)\<lparr>cw_handshake := (cw_handshake (toy_world True))\<lparr>hw_env := (toy_env True)\<lparr>env_wait :=
     (\<lambda>_ n. (Inl (RuntimeError ''Failed to wait for socket''), n))\<rparr>\<rparr>\<rparr>"

lemma live_turn:
  assumes "sn_transport s = sn_transport toy_live" and "\<not> sn_connectionInfoRequested s"
  shows "\<exists>t. run_turn (toy_world True) 250 None \<lparr>cn_net = (0, []), cn_state = Established, cn_session = Some s\<rparr> =
      (Inr True, \<lparr>cn_net = (0, []), cn_state = Established, cn_session = Some (s\<lparr>sn_transport := t\<rparr>)\<rparr>)"
    and "\<exists>c. run_turn deaf_world 250 None \<lparr>cn_net = (0, []), cn_state = Established, cn_session = Some s\<rparr> =
      (Inl (RuntimeError ''Failed to wait for socket''), c)"
proof -
  have quiet: "tr_reliableCommands (sn_transport toy_live) = []" "\<not> tr_connected (sn_transport toy_live)"
    "tr_net (sn_transport toy_live) = (1, [])"
    by (simp_all add: toy_live_def toy_session_def make_Session_def make_SessionTransport_def clock_now_def toy_env_simps Let_def)
  have idle: "env_wait (toy_env True) k n = (Inr False, n)" for k n by (simp add: toy_env_def)
  note eval = idle run_turn_def op_bind_def on_world_def on_session_def op_zoom_def op_read_def Poll_def RequireEstablished_def
    session_ProcessTimers_def ProcessTimers_def clock_now_def poll_wait_def transport_NextDeadline_def queue_NextDeadline_def
    transport_WaitReadable_def toy_env_simps toy_world_def deaf_world_def
  show "\<exists>t. run_turn (toy_world True) 250 None \<lparr>cn_net = (0, []), cn_state = Established, cn_session = Some s\<rparr> =
      (Inr True, \<lparr>cn_net = (0, []), cn_state = Established, cn_session = Some (s\<lparr>sn_transport := t\<rparr>)\<rparr>)"
    using assms quiet by (simp add: eval) (rule exI, rule refl)
  show "\<exists>c. run_turn deaf_world 250 None \<lparr>cn_net = (0, []), cn_state = Established, cn_session = Some s\<rparr> =
      (Inl (RuntimeError ''Failed to wait for socket''), c)"
    using assms quiet by (simp add: eval)
qed


end
