(* ===== verification/Secure_Files.thy ===== *)
theory Secure_Files
  imports Command_Codec
begin

text \<open>
  What the client's own files rest on: \<open>ReadSecureFile\<close> and \<open>WriteSecureFile\<close>
  (\<open>config/src/posix/posix_secure_file.cpp\<close>), the standard library's text conversions the file
  formats use, and the lines of a text file.

  The operating system is the record \<open>FileSystem\<close>: the files by path, which system calls fail
  and with which \<open>strerror\<close> text, and the suffix \<open>mkstemp\<close> picks. There are no symbolic links:
  a path is the file it leads to. The loop around \<open>::write\<close>
  and \<open>::read\<close>, which repeats a call that moved only part of the data or was interrupted, is one
  step that fails or moves everything.

  The locale \<open>private_store\<close> is what the stores of the configuration rely on. A save replaces
  the file or changes nothing.
\<close>

section \<open>Files\<close>

datatype FileNode =
    RegularFile (node_content: string) (node_owner_only: bool)
  | SpecialFile

datatype SysCall = Stat | Open | Fstat | Fchmod | Read | Mkstemp | Fcntl | Write | Fsync | Rename | Remove

record FileSystem =
  fs_files :: "string \<Rightarrow> FileNode option"
  fs_fails :: "SysCall \<Rightarrow> string \<Rightarrow> string option"
  fs_suffix :: "(string \<Rightarrow> FileNode option) \<Rightarrow> string \<Rightarrow> string"

definition SystemError :: "string \<Rightarrow> string \<Rightarrow> string \<Rightarrow> error" where
  "SystemError action path strerror = RuntimeError (action @ '': '' @ path @ '': '' @ strerror)"

text \<open>\<open>if ( call( ... ) != 0 ) { throw SystemError( action, path, errno ); }\<close>\<close>

definition sys_call :: "SysCall \<Rightarrow> string \<Rightarrow> string \<Rightarrow> (FileSystem, unit) op" where
  "sys_call call action path fs =
     (case fs_fails fs call path of
        None \<Rightarrow> (Inr (), fs)
      | Some strerror \<Rightarrow> (Inl (SystemError action path strerror), fs))"

definition set_file :: "string \<Rightarrow> FileNode option \<Rightarrow> (FileSystem, unit) op" where
  "set_file path node = op_modify (\<lambda>fs. fs\<lparr>fs_files := (fs_files fs)(path := node)\<rparr>)"

definition ReadSecureFile :: "string \<Rightarrow> nat \<Rightarrow> (FileSystem, string option) op" where
  "ReadSecureFile path maxSize =
     op_bind (sys_call Open ''Failed to open secure file'' path) (\<lambda>_.
     op_bind (op_gets (\<lambda>fs. fs_files fs path)) (\<lambda>file.
     case file of
       None \<Rightarrow> op_return None
     | Some node \<Rightarrow>
         op_bind (sys_call Fstat ''Failed to inspect secure file'' path) (\<lambda>_.
         case node of
           SpecialFile \<Rightarrow> op_throw (RuntimeError (''Not a regular file: '' @ path))
         | RegularFile content ownerOnly \<Rightarrow>
             if length content > maxSize then
               op_throw (RuntimeError (''Secure file is too large: '' @ path))
             else
               op_bind (sys_call Fchmod ''Failed to secure file'' path) (\<lambda>_.
               op_bind (set_file path (Some (RegularFile content True))) (\<lambda>_.
               op_bind (sys_call Read ''Failed to read secure file'' path) (\<lambda>_.
               op_return (Some content)))))))"

text \<open>\<open>std::filesystem::exists( path )\<close>: whether there is a file, unless its status cannot be found out.\<close>

definition path_exists :: "string \<Rightarrow> (FileSystem, bool) op" where
  "path_exists path fs =
     (case fs_fails fs Stat path of
        None \<Rightarrow> (Inr (fs_files fs path \<noteq> None), fs)
      | Some strerror \<Rightarrow> (Inl (RuntimeError (''filesystem error: status: '' @ strerror @ '' ['' @ path @ '']'')), fs))"

definition temporary_name :: "FileSystem \<Rightarrow> string \<Rightarrow> string" where
  "temporary_name fs path = path @ ''.tmp.'' @ fs_suffix fs (fs_files fs) path"

text \<open>The \<open>try\<close> block, then \<open>catch ( ... ) { ::unlink( temporary ); throw; }\<close>.\<close>

definition write_temporary :: "string \<Rightarrow> string \<Rightarrow> string \<Rightarrow> (FileSystem, unit) op" where
  "write_temporary temporary path data =
     op_bind (sys_call Fcntl ''Failed to configure temporary file'' temporary) (\<lambda>_.
     op_bind (sys_call Fchmod ''Failed to secure temporary file'' temporary) (\<lambda>_.
     op_bind (sys_call Write ''Failed to write temporary file'' temporary) (\<lambda>_.
     op_bind (set_file temporary (Some (RegularFile data True))) (\<lambda>_.
     op_bind (sys_call Fsync ''Failed to synchronize temporary file'' temporary) (\<lambda>_.
     op_bind (sys_call Rename ''Failed to install secure file'' path) (\<lambda>_.
     op_bind (set_file temporary None) (\<lambda>_.
     set_file path (Some (RegularFile data True)))))))))"

definition WriteSecureFile :: "string \<Rightarrow> string \<Rightarrow> (FileSystem, unit) op" where
  "WriteSecureFile path data =
     op_bind (sys_call Mkstemp ''Failed to create temporary file'' path) (\<lambda>_ fs.
       let temporary = temporary_name fs path in
       case op_bind (set_file temporary (Some (RegularFile [] True)))
              (\<lambda>_. write_temporary temporary path data) fs of
         (Inl e, fs) \<Rightarrow> (Inl e, snd (set_file temporary None fs))
       | (Inr x, fs) \<Rightarrow> (Inr x, fs))"

section \<open>The contents of the files\<close>

definition file_content :: "FileSystem \<Rightarrow> string \<Rightarrow> string option" where
  "file_content fs path =
     (case fs_files fs path of Some (RegularFile content _) \<Rightarrow> Some content | _ \<Rightarrow> None)"

text \<open>\<open>mkstemp\<close> is documented to create a file that did not exist.\<close>

definition fresh_temporary :: "FileSystem \<Rightarrow> string \<Rightarrow> bool" where
  "fresh_temporary fs path \<longleftrightarrow> fs_files fs (temporary_name fs path) = None"

lemma temporary_name_neq [simp]: "temporary_name fs path \<noteq> path"
  by (simp add: temporary_name_def)

lemma sys_call_state: "sys_call call action path fs = (r, fs') \<Longrightarrow> fs' = fs"
  by (auto simp: sys_call_def split: option.splits)

lemma op_bind_sys_call [simp]:
  "op_bind (sys_call call action path) f fs =
     (case fs_fails fs call path of
        None \<Rightarrow> f () fs
      | Some strerror \<Rightarrow> (Inl (SystemError action path strerror), fs))"
  by (simp add: op_bind_def sys_call_def split: option.splits)

lemma op_bind_set_file [simp]:
  "op_bind (set_file path node) f fs = f () (fs\<lparr>fs_files := (fs_files fs)(path := node)\<rparr>)"
  by (simp add: set_file_def)

lemma ReadSecureFile_content:
  assumes "ReadSecureFile path maxSize fs = (r, fs')"
  shows "file_content fs' = file_content fs \<and> (\<forall>x. r = Inr x \<longrightarrow> fs_files fs path \<noteq> Some SpecialFile \<and> x = file_content fs path)"
  using assms
  by (simp add: ReadSecureFile_def split: option.splits FileNode.splits if_splits)
    (auto simp: file_content_def fun_eq_iff split: option.splits if_splits)

lemma write_temporary_cases:
  assumes "write_temporary temporary path data fs = (r, fs')"
  shows "r = Inr () \<and> fs_files fs' = (fs_files fs)(temporary := None, path := Some (RegularFile data True)) \<or>
    (\<exists>e node. r = Inl e \<and> fs_files fs' = (fs_files fs)(temporary := node))"
proof -
  have "fs_files fs = (fs_files fs)(temporary := fs_files fs temporary)"
    by simp
  with assms show ?thesis
    by (auto simp: write_temporary_def set_file_def simp del: fun_upd_triv split: option.splits)
qed

lemma WriteSecureFile_files:
  assumes "WriteSecureFile path data fs = (r, fs')" and fresh: "fresh_temporary fs path"
  shows "(case r of
      Inr _ \<Rightarrow> fs_files fs' = (fs_files fs)(path \<mapsto> RegularFile data True)
    | Inl _ \<Rightarrow> fs_files fs' = fs_files fs)"
proof (cases "fs_fails fs Mkstemp path")
  case (Some e)
  with assms(1) show ?thesis
    by (auto simp: WriteSecureFile_def)
next
  case None
  let ?t = "temporary_name fs path"
  let ?fs1 = "fs\<lparr>fs_files := (fs_files fs)(?t \<mapsto> RegularFile [] True)\<rparr>"
  obtain r1 fs1 where run: "write_temporary ?t path data ?fs1 = (r1, fs1)"
    by fastforce
  have gone: "(fs_files fs)(?t := None) = fs_files fs"
    using fresh by (auto simp: fresh_temporary_def fun_eq_iff)
  have result: "(r, fs') = (case r1 of
      Inl e \<Rightarrow> (Inl e, fs1\<lparr>fs_files := (fs_files fs1)(?t := None)\<rparr>) | Inr _ \<Rightarrow> (Inr (), fs1))"
    using assms(1) None run
    by (simp add: WriteSecureFile_def Let_def) (auto simp: set_file_def split: sum.splits)
  consider (written) "r1 = Inr ()" "fs_files fs1 = (fs_files ?fs1)(?t := None, path := Some (RegularFile data True))"
    | (failed) e node where "r1 = Inl e" "fs_files fs1 = (fs_files ?fs1)(?t := node)"
    using write_temporary_cases [OF run] by blast
  then show ?thesis
  proof cases
    case written
    with result gone show ?thesis by simp
  next
    case failed
    with result gone show ?thesis by simp
  qed
qed

section \<open>The interface of the stores\<close>

text \<open>
  \<open>content\<close> is the files' text by path. Reading never changes a text; a write that returns has
  replaced exactly one text, and one that throws has changed none.
\<close>

locale private_store =
  fixes content :: "'s \<Rightarrow> string \<Rightarrow> string option"
    and get :: "string \<Rightarrow> nat \<Rightarrow> ('s, string option) op"
    and put :: "string \<Rightarrow> string \<Rightarrow> ('s, unit) op"
    and fresh :: "'s \<Rightarrow> string \<Rightarrow> bool"
  assumes read_content: "get p m s = (r, s') \<Longrightarrow> content s' = content s"
    and read_value: "get p m s = (Inr x, s') \<Longrightarrow> x = content s p"
    and write_done: "fresh s p \<Longrightarrow> put p d s = (Inr (), s') \<Longrightarrow> content s' = (content s)(p \<mapsto> d)"
    and write_failed: "fresh s p \<Longrightarrow> put p d s = (Inl e, s') \<Longrightarrow> content s' = content s"
begin

lemma read_after_write:
  "fresh s p \<Longrightarrow> put p d s = (Inr (), s') \<Longrightarrow> get p m s' = (Inr x, s'') \<Longrightarrow> x = Some d"
  using write_done read_value by fastforce

lemma write_one_file:
  "fresh s p \<Longrightarrow> put p d s = (r, s') \<Longrightarrow>
   content s' = content s \<or> (r = Inr () \<and> content s' = (content s)(p \<mapsto> d))"
  by (cases r) (auto simp: write_failed dest: write_done)

lemma write_other: "fresh s p \<Longrightarrow> put p d s = (r, s') \<Longrightarrow> q \<noteq> p \<Longrightarrow> content s' q = content s q"
  using write_one_file by fastforce

end

interpretation files: private_store file_content ReadSecureFile WriteSecureFile fresh_temporary
proof
  show "file_content s' = file_content s" if "ReadSecureFile p m s = (r, s')" for p m s r s'
    using ReadSecureFile_content [OF that] by blast
  show "x = file_content s p" if "ReadSecureFile p m s = (Inr x, s')" for p m s x s'
    using ReadSecureFile_content [OF that] by blast
  show "file_content s' = (file_content s)(p \<mapsto> d)"
    if "fresh_temporary s p" "WriteSecureFile p d s = (Inr (), s')" for s p d s'
    using WriteSecureFile_files [OF that(2,1)] by (simp add: file_content_def fun_eq_iff)
  show "file_content s' = file_content s"
    if "fresh_temporary s p" "WriteSecureFile p d s = (Inl e, s')" for s p d e s'
    using WriteSecureFile_files [OF that(2,1)] by (simp add: file_content_def fun_eq_iff)
qed

text \<open>A save that returns leaves the file readable by its owner only.\<close>

lemma written_owner_only:
  "WriteSecureFile path data fs = (Inr (), fs') \<Longrightarrow> fresh_temporary fs path \<Longrightarrow>
   fs_files fs' path = Some (RegularFile data True)"
  using WriteSecureFile_files by fastforce

text \<open>Where no system call fails, both return.\<close>

definition no_failures :: "FileSystem \<Rightarrow> bool" where
  "no_failures fs \<longleftrightarrow> (\<forall>call path. fs_fails fs call path = None)"

lemma write_returns:
  assumes "no_failures fs" "fresh_temporary fs path"
  shows "\<exists>fs'. WriteSecureFile path data fs = (Inr (), fs') \<and> no_failures fs' \<and>
    fs_files fs' = (fs_files fs)(path \<mapsto> RegularFile data True)"
proof -
  obtain fs' where run: "WriteSecureFile path data fs = (Inr (), fs') \<and> no_failures fs'"
    using assms(1) by (simp add: WriteSecureFile_def write_temporary_def no_failures_def Let_def)
      (simp add: set_file_def)
  with WriteSecureFile_files [of path data fs "Inr ()" fs'] assms(2) show ?thesis
    by simp
qed

lemma read_returns:
  assumes "no_failures fs" "fs_files fs path = Some (RegularFile data b)" "length data \<le> maxSize"
  shows "\<exists>fs'. ReadSecureFile path maxSize fs = (Inr (Some data), fs')"
  using assms by (simp add: ReadSecureFile_def no_failures_def)

lemma read_missing:
  "no_failures fs \<Longrightarrow> fs_files fs path = None \<Longrightarrow> ReadSecureFile path maxSize fs = (Inr None, fs)"
  by (simp add: ReadSecureFile_def no_failures_def)

text \<open>A system without files, on which no call fails: the concrete input of the witnesses.\<close>

definition empty_files :: FileSystem where
  "empty_files = \<lparr>fs_files = Map.empty, fs_fails = (\<lambda>_ _. None), fs_suffix = (\<lambda>_ _. ''k3Xp0q'')\<rparr>"

lemma empty_files_ok: "no_failures empty_files" "fresh_temporary empty_files path"
  by (simp_all add: no_failures_def fresh_temporary_def empty_files_def)

section \<open>Floating-point numbers in text\<close>

text \<open>
  The files hold single-precision numbers. As for \<open>double\<close> the model fixes no arithmetic: the
  record \<open>Float\<close> has the operations the code applies, over a type \<open>'f\<close> of \<open>float\<close> values.
  \<open>flt_from_chars\<close> answers the number unless the error code is set, and the unread rest;
  \<open>flt_print\<close> is \<open>operator<<\<close>, \<open>flt_print_fixed n\<close> the same after \<open>std::fixed\<close> and
  \<open>std::setprecision( n )\<close>.
\<close>

record 'f Float =
  flt_from_chars :: "string \<Rightarrow> 'f option \<times> string"
  flt_finite :: "'f \<Rightarrow> bool"
  flt_less :: "'f \<Rightarrow> 'f \<Rightarrow> bool"
  flt_eq :: "'f \<Rightarrow> 'f \<Rightarrow> bool"
  flt_lit :: "int \<Rightarrow> 'f"
  flt_print :: "'f \<Rightarrow> string"
  flt_print_fixed :: "nat \<Rightarrow> 'f \<Rightarrow> string"

text \<open>
  A concrete \<open>Float\<close>: whole numbers, printed as decimal digits with a sign. It satisfies what
  the theorems ask of a \<open>Float\<close> and is what their witnesses compute with.
\<close>

definition print_int :: "int \<Rightarrow> string" where
  "print_int i = (if i < 0 then CHR ''-'' # to_string (nat (- i)) else to_string (nat i))"

definition read_int :: "string \<Rightarrow> int option \<times> string" where
  "read_int s =
     (case s of
        c # s' \<Rightarrow>
          if c = CHR ''-'' then
            (case from_chars (2 ^ 16) s' of (n, rest) \<Rightarrow> (map_option (\<lambda>n. - int n) n, rest))
          else (case from_chars (2 ^ 16) s of (n, rest) \<Rightarrow> (map_option int n, rest))
      | [] \<Rightarrow> (None, []))"

definition whole_numbers :: "int Float" where
  "whole_numbers = \<lparr>flt_from_chars = read_int, flt_finite = (\<lambda>_. True), flt_less = (<), flt_eq = (=),
     flt_lit = id, flt_print = print_int, flt_print_fixed = (\<lambda>_. print_int)\<rparr>"

lemma read_print_int:
  assumes "- (2 ^ 16) < i" "i < 2 ^ 16"
  shows "read_int (print_int i) = (Some i, [])"
proof (cases "i < 0")
  case True
  then have "from_chars (2 ^ 16) (to_string (nat (- i))) = (Some (nat (- i)), [])"
    using assms by (intro from_chars_to_string) auto
  with True show ?thesis
    by (simp add: read_int_def print_int_def)
next
  case False
  then have digits: "from_chars (2 ^ 16) (to_string (nat i)) = (Some (nat i), [])"
    using assms by (intro from_chars_to_string) auto
  obtain c s where "to_string (nat i) = c # s" "is_digit c"
    using to_string_digits [of "nat i"] to_string_nonempty [of "nat i"] by (cases "to_string (nat i)") auto
  moreover from this have "c \<noteq> CHR ''-''"
    by (auto simp: is_digit_def)
  ultimately show ?thesis
    using False digits by (simp add: read_int_def print_int_def)
qed

lemma set_print_int: "set (print_int i) \<subseteq> insert (CHR ''-'') {c. is_digit c}"
  using to_string_digits by (auto simp: print_int_def list_all_iff)

lemma print_int_nonempty [simp]: "print_int i \<noteq> []"
  by (simp add: print_int_def)

section \<open>Hexadecimal numbers\<close>

definition hex_char :: "nat \<Rightarrow> char" where
  "hex_char d = (if d < 10 then char_of (48 + d) else char_of (87 + d))"

definition is_hex :: "char \<Rightarrow> bool" where
  "is_hex c \<longleftrightarrow> is_digit c \<or> (97 \<le> (of_char c :: nat) \<and> of_char c \<le> (102 :: nat)) \<or>
     (65 \<le> (of_char c :: nat) \<and> of_char c \<le> (70 :: nat))"

definition hex_value :: "char \<Rightarrow> nat" where
  "hex_value c =
     (if is_digit c then of_char c - 48 else if 97 \<le> (of_char c :: nat) then of_char c - 87 else of_char c - 55)"

fun to_hex :: "nat \<Rightarrow> string" where
  "to_hex n = (if n < 16 then [hex_char n] else to_hex (n div 16) @ [hex_char (n mod 16)])"

declare to_hex.simps [simp del]

definition number_of_hex :: "string \<Rightarrow> nat" where
  "number_of_hex = foldl (\<lambda>n c. n * 16 + hex_value c) 0"

text \<open>\<open>std::from_chars\<close> with base 16.\<close>

definition from_chars_hex :: "nat \<Rightarrow> string \<Rightarrow> nat option \<times> string" where
  "from_chars_hex limit s =
     (let digits = takeWhile is_hex s; rest = dropWhile is_hex s
      in if digits = [] then (None, s)
         else if number_of_hex digits \<ge> limit then (None, rest)
         else (Some (number_of_hex digits), rest))"

lemma hex_roundtrip: "d < 16 \<Longrightarrow> is_hex (hex_char d) \<and> hex_value (hex_char d) = d"
  by (auto simp: is_hex_def is_digit_def hex_char_def hex_value_def of_char_of)

lemma to_hex_digits: "list_all is_hex (to_hex n)"
  by (induction n rule: to_hex.induct) (simp add: to_hex.simps hex_roundtrip)

lemma to_hex_nonempty [simp]: "to_hex n \<noteq> []"
  by (simp add: to_hex.simps)

lemma number_of_to_hex: "number_of_hex (to_hex n) = n"
proof (induction n rule: to_hex.induct)
  case (1 n)
  show ?case
  proof (cases "n < 16")
    case True
    then show ?thesis by (simp add: to_hex.simps number_of_hex_def hex_roundtrip)
  next
    case False
    then have "number_of_hex (to_hex (n div 16)) = n div 16" by (rule 1)
    with False show ?thesis by (simp add: to_hex.simps [of n] number_of_hex_def hex_roundtrip)
  qed
qed

lemma from_chars_to_hex: "n < limit \<Longrightarrow> from_chars_hex limit (to_hex n) = (Some n, [])"
proof -
  have "takeWhile is_hex (to_hex n) = to_hex n" "dropWhile is_hex (to_hex n) = []"
    using to_hex_digits [of n] by (auto simp: list_all_iff takeWhile_eq_all_conv dropWhile_eq_Nil_conv)
  then show "n < limit \<Longrightarrow> from_chars_hex limit (to_hex n) = (Some n, [])"
    by (simp only: from_chars_hex_def Let_def) (simp add: number_of_to_hex)
qed

section \<open>Lines\<close>

text \<open>\<open>if ( !line.empty() && line.back() == '\<dots>r' ) { line.pop_back(); }\<close>\<close>

definition pop_CR :: "string \<Rightarrow> string" where
  "pop_CR line = (if line \<noteq> [] \<and> last line = CR then butlast line else line)"

text \<open>
  \<open>while ( std::getline( stream, line ) )\<close>: the lines of a text, without a last empty one.
\<close>

function getlines :: "string \<Rightarrow> string list" where
  "getlines data =
     (if data = [] then []
      else takeWhile (\<lambda>c. c \<noteq> LF) data # getlines (drop (Suc (length (takeWhile (\<lambda>c. c \<noteq> LF) data))) data))"
  by pat_completeness auto

termination
  by (relation "measure length") auto

declare getlines.simps [simp del]

lemma getlines_Nil [simp]: "getlines [] = []"
  by (simp add: getlines.simps)

lemma getlines_line: "LF \<notin> set line \<Longrightarrow> getlines (line @ LF # rest) = line # getlines rest"
  using takeWhile_dropWhile_at [of LF line rest] by (subst getlines.simps) simp

lemma getlines_concat:
  "list_all (\<lambda>line. LF \<notin> set line) ls \<Longrightarrow> getlines (concat (map (\<lambda>line. line @ [LF]) ls)) = ls"
  by (induction ls) (simp_all add: getlines_line)

text \<open>The text before and after the first equal sign.\<close>

definition before_equals :: "string \<Rightarrow> string" where
  "before_equals line = takeWhile (\<lambda>c. c \<noteq> CHR ''='') line"

definition after_equals :: "string \<Rightarrow> string" where
  "after_equals line = tl (dropWhile (\<lambda>c. c \<noteq> CHR ''='') line)"

lemma equals_split:
  "CHR ''='' \<notin> set name \<Longrightarrow>
   before_equals (name @ CHR ''='' # v) = name \<and> after_equals (name @ CHR ''='' # v) = v"
  using takeWhile_dropWhile_at [of "CHR ''=''" name v] by (simp add: before_equals_def after_equals_def)

end
