(* ===== verification/Config.thy ===== *)
theory Config
  imports Login_Messages Secure_Files
begin

text \<open>
  The client's configuration file: \<open>Config\<close> (\<open>config/src/config.cpp\<close>,
  \<open>config/include/config/config.hpp\<close>) over the files of \<open>Secure_Files\<close>. A path is its text.

  Every configuration that the operations build or that \<open>Load\<close> accepts is well formed, and a
  configuration whose texts are clean (no line feed, no blank or carriage return at an end) is
  read back as it was saved, but for the threshold, which comes back as the number its printed
  text means: \<open>Save\<close> prints six significant digits. The setters do not ask for clean texts, apart from
  \<open>SetLastServer\<close>: a nickname with a line feed adds entries of its own to the file.
\<close>

section \<open>The configuration\<close>

record 'f AudioSettings =
  as_input :: string
  as_output :: string
  as_captureFilter :: string
  as_activationThresholdDb :: 'f

record 'f Config =
  m_Nickname :: string
  m_ClientInitVersion :: u32
  m_ClientVersion :: string
  m_ClientPlatform :: string
  m_ClientVersionSignature :: string
  m_AudioSettings :: "'f AudioSettings"
  m_LastServer :: string
  m_Path :: "string option"

definition default_AudioSettings :: "'f Float \<Rightarrow> 'f AudioSettings" where
  "default_AudioSettings F =
     \<lparr>as_input = ''default'', as_output = ''default'', as_captureFilter = ''none'',
      as_activationThresholdDb = flt_lit F (- 45)\<rparr>"

definition new_Config :: "'f Float \<Rightarrow> 'f Config" where
  "new_Config F =
     \<lparr>m_Nickname = [], m_ClientInitVersion = 0, m_ClientVersion = [], m_ClientPlatform = [],
      m_ClientVersionSignature = [], m_AudioSettings = default_AudioSettings F, m_LastServer = [], m_Path = None\<rparr>"

definition MaxConfigSize :: nat where
  "MaxConfigSize = 1024 * 1024"

definition DefaultProfile :: ClientProfile where
  "DefaultProfile =
     \<lparr>cp_nickname = ''ts-cli'',
      cp_version_profile =
        \<lparr>vp_initVersion = 0x142898dd,
         vp_version = ''3.6.2 [Build: 1695203293]'',
         vp_platform = ''Linux'',
         vp_signature = ''p4iF1jZ3ZOz9MEkKSZ2bvnFtm9WmUcQy9mAP//erFE4PF1sB6K1CSANrr+3X4B0aZR0u+K2pjnv8kiKsWKQCBQ==''\<rparr>\<rparr>"

definition set_profile :: "ClientProfile \<Rightarrow> 'f Config \<Rightarrow> 'f Config" where
  "set_profile profile config = config
     \<lparr>m_Nickname := cp_nickname profile,
      m_ClientInitVersion := vp_initVersion (cp_version_profile profile),
      m_ClientVersion := vp_version (cp_version_profile profile),
      m_ClientPlatform := vp_platform (cp_version_profile profile),
      m_ClientVersionSignature := vp_signature (cp_version_profile profile)\<rparr>"

definition config_Create :: "'f Float \<Rightarrow> ClientProfile \<Rightarrow> 'f Config result" where
  "config_Create F profile =
     (if cp_nickname profile = [] then Inl (RuntimeError ''Client nickname cannot be empty'')
      else Inr (set_profile profile (new_Config F)))"

definition config_Profile :: "'f Config \<Rightarrow> ClientProfile result" where
  "config_Profile config =
     (if m_Nickname config = [] then Inl (RuntimeError ''Client nickname cannot be empty'')
      else Inr
        \<lparr>cp_nickname = m_Nickname config,
         cp_version_profile =
           \<lparr>vp_initVersion = m_ClientInitVersion config, vp_version = m_ClientVersion config,
            vp_platform = m_ClientPlatform config, vp_signature = m_ClientVersionSignature config\<rparr>\<rparr>)"

section \<open>The setters\<close>

definition out_of_range :: "'f Float \<Rightarrow> 'f \<Rightarrow> bool" where
  "out_of_range F threshold \<longleftrightarrow> flt_less F threshold (flt_lit F (- 100)) \<or> flt_less F (flt_lit F 0) threshold"

definition threshold_error :: error where
  "threshold_error = RuntimeError ''audio_activation_threshold_db must be between -100 and 0''"

definition SetAudioSettings :: "'f Float \<Rightarrow> 'f AudioSettings \<Rightarrow> ('f Config, unit) op" where
  "SetAudioSettings F settings =
     (if \<not> flt_finite F (as_activationThresholdDb settings) \<or> out_of_range F (as_activationThresholdDb settings)
      then op_throw threshold_error
      else if as_input settings = [] \<or> as_output settings = [] \<or> as_captureFilter settings = []
      then op_throw (RuntimeError ''Audio config values cannot be empty'')
      else op_modify (\<lambda>config. config\<lparr>m_AudioSettings := settings\<rparr>))"

definition SetNickname :: "string \<Rightarrow> ('f Config, unit) op" where
  "SetNickname nickname =
     (if nickname = [] then op_throw (RuntimeError ''Client nickname cannot be empty'')
      else op_modify (\<lambda>config. config\<lparr>m_Nickname := nickname\<rparr>))"

definition SetLastServer :: "string \<Rightarrow> ('f Config, unit) op" where
  "SetLastServer server =
     (if \<exists>c \<in> set server. c = CR \<or> c = LF
      then op_throw (RuntimeError ''Server address cannot contain line breaks'')
      else op_modify (\<lambda>config. config\<lparr>m_LastServer := server\<rparr>))"

section \<open>The text of the file\<close>

definition config_lines :: "'f Float \<Rightarrow> 'f Config \<Rightarrow> string list" where
  "config_lines F config =
     [''# ts-cli configuration'',
      [],
      ''nickname='' @ m_Nickname config,
      [],
      ''# TeamSpeak wire client profile.'',
      ''# Keep these four fields as one coherent tuple.'',
      ''client_init_version=0x'' @ to_hex (unat (m_ClientInitVersion config)),
      ''client_version='' @ m_ClientVersion config,
      ''client_platform='' @ m_ClientPlatform config,
      ''client_version_sign='' @ m_ClientVersionSignature config,
      [],
      ''# Audio settings. Transmission still starts muted each session.'',
      ''audio_input='' @ as_input (m_AudioSettings config),
      ''audio_output='' @ as_output (m_AudioSettings config),
      ''audio_filter='' @ as_captureFilter (m_AudioSettings config),
      ''audio_activation_threshold_db='' @ flt_print F (as_activationThresholdDb (m_AudioSettings config))] @
     (if m_LastServer config \<noteq> [] then
        [[],
         ''# The server ts-gtk connected to last.'',
         ''last_server='' @ m_LastServer config]
      else [])"

definition config_text :: "'f Float \<Rightarrow> 'f Config \<Rightarrow> string" where
  "config_text F config = concat (map (\<lambda>line. line @ [LF]) (config_lines F config))"

section \<open>Parsing\<close>

definition config_Trim :: "string \<Rightarrow> string" where
  "config_Trim value =
     rev (dropWhile (\<lambda>c. c = CHR '' '' \<or> c = CHR 0x09) (rev (dropWhile (\<lambda>c. c = CHR '' '' \<or> c = CHR 0x09) value)))"

definition config_keys :: "string list" where
  "config_keys =
     [''nickname'', ''client_init_version'', ''client_version'', ''client_platform'', ''client_version_sign'',
      ''audio_input'', ''audio_output'', ''audio_filter'', ''audio_activation_threshold_db'', ''last_server'']"

text \<open>The body of the loop over the lines, on \<open>values\<close>.\<close>

definition parse_config_line :: "nat \<Rightarrow> string \<Rightarrow> (string \<rightharpoonup> string) \<Rightarrow> (string \<rightharpoonup> string) result" where
  "parse_config_line lineNumber line values =
     (let line = config_Trim (pop_CR line) in
      if line = [] \<or> hd line = CHR ''#'' then Inr values
      else if CHR ''='' \<notin> set line then Inl (RuntimeError (''Invalid config line '' @ to_string lineNumber))
      else
        let name = config_Trim (before_equals line); value = config_Trim (after_equals line) in
        if name = [] then Inl (RuntimeError (''Empty config key on line '' @ to_string lineNumber))
        else if name \<notin> set config_keys then Inl (RuntimeError (''Unknown config key: '' @ name))
        else if values name \<noteq> None then Inl (RuntimeError (''Duplicate config key: '' @ name))
        else Inr (values(name \<mapsto> value)))"

function parse_config_lines :: "nat \<Rightarrow> string \<Rightarrow> (string \<rightharpoonup> string) \<Rightarrow> (string \<rightharpoonup> string) result" where
  "parse_config_lines lineNumber data values =
     (if data = [] then Inr values
      else
        let line = takeWhile (\<lambda>c. c \<noteq> LF) data in
        res_bind (parse_config_line (lineNumber + 1) line values)
          (parse_config_lines (lineNumber + 1) (drop (length line + 1) data)))"
  by pat_completeness auto

termination
  by (relation "measure (\<lambda>(_, data, _). length data)") auto

declare parse_config_lines.simps [simp del]

definition config_ParseUnsigned :: "string \<Rightarrow> string \<Rightarrow> nat result" where
  "config_ParseUnsigned value name =
     (if value = [] then Inl (RuntimeError (''Empty unsigned config value: '' @ name))
      else
        let hex = length value \<ge> 2 \<and> value ! 0 = CHR ''0'' \<and> (value ! 1 = CHR ''x'' \<or> value ! 1 = CHR ''X'');
            value = (if hex then drop 2 value else value)
        in if value = [] then Inl (RuntimeError (''Invalid hexadecimal config value: '' @ name))
           else case (if hex then from_chars_hex (2 ^ 64) value else from_chars (2 ^ 64) value) of
               (Some result, []) \<Rightarrow> Inr result
             | _ \<Rightarrow> Inl (RuntimeError (''Invalid unsigned config value: '' @ name)))"

definition config_ParseFloat :: "'f Float \<Rightarrow> string \<Rightarrow> string \<Rightarrow> 'f result" where
  "config_ParseFloat F value name =
     (case flt_from_chars F value of
        (Some result, []) \<Rightarrow> if flt_finite F result then Inr result else Inl (RuntimeError (''Invalid '' @ name))
      | _ \<Rightarrow> Inl (RuntimeError (''Invalid '' @ name)))"

text \<open>
  \<open>if ( const auto value = values.find( name ); value != values.end() ) { \<dots> }\<close>, and the same for
  the three audio entries that cannot be empty.
\<close>

definition with_value ::
  "(string \<rightharpoonup> string) \<Rightarrow> string \<Rightarrow> (string \<Rightarrow> 'f Config \<Rightarrow> 'f Config result) \<Rightarrow> 'f Config \<Rightarrow> 'f Config result" where
  "with_value values name f config =
     (case values name of None \<Rightarrow> Inr config | Some value \<Rightarrow> f value config)"

definition nonempty_value ::
  "string \<Rightarrow> (string \<Rightarrow> 'f AudioSettings \<Rightarrow> 'f AudioSettings) \<Rightarrow> string \<Rightarrow> 'f Config \<Rightarrow> 'f Config result" where
  "nonempty_value name put value config =
     (if value = [] then Inl (RuntimeError (name @ '' cannot be empty''))
      else Inr (config\<lparr>m_AudioSettings := put value (m_AudioSettings config)\<rparr>))"

definition apply_values :: "'f Float \<Rightarrow> (string \<rightharpoonup> string) \<Rightarrow> 'f Config \<Rightarrow> 'f Config result" where
  "apply_values F values config =
     res_bind (with_value values ''nickname'' (\<lambda>value config.
       if value = [] then Inl (RuntimeError ''Client nickname cannot be empty'')
       else Inr (config\<lparr>m_Nickname := value\<rparr>)) config) (\<lambda>config.
     res_bind (with_value values ''client_init_version'' (\<lambda>value config.
       res_bind (config_ParseUnsigned value ''client_init_version'') (\<lambda>parsed.
         if parsed > 2 ^ 32 - 1 then Inl (RuntimeError ''client_init_version is too large'')
         else Inr (config\<lparr>m_ClientInitVersion := of_nat parsed\<rparr>))) config) (\<lambda>config.
     res_bind (with_value values ''client_version'' (\<lambda>value config.
       Inr (config\<lparr>m_ClientVersion := value\<rparr>)) config) (\<lambda>config.
     res_bind (with_value values ''client_platform'' (\<lambda>value config.
       Inr (config\<lparr>m_ClientPlatform := value\<rparr>)) config) (\<lambda>config.
     res_bind (with_value values ''client_version_sign'' (\<lambda>value config.
       Inr (config\<lparr>m_ClientVersionSignature := value\<rparr>)) config) (\<lambda>config.
     res_bind (config_Profile config) (\<lambda>_.
     res_bind (with_value values ''audio_input'' (nonempty_value ''audio_input'' (\<lambda>value. as_input_update (\<lambda>_. value))) config) (\<lambda>config.
     res_bind (with_value values ''audio_output'' (nonempty_value ''audio_output'' (\<lambda>value. as_output_update (\<lambda>_. value))) config) (\<lambda>config.
     res_bind (with_value values ''audio_filter'' (nonempty_value ''audio_filter'' (\<lambda>value. as_captureFilter_update (\<lambda>_. value))) config) (\<lambda>config.
     res_bind (with_value values ''audio_activation_threshold_db'' (\<lambda>value config.
       res_bind (config_ParseFloat F value ''audio_activation_threshold_db'') (\<lambda>threshold.
         if out_of_range F threshold then Inl threshold_error
         else Inr (config\<lparr>m_AudioSettings := (m_AudioSettings config)\<lparr>as_activationThresholdDb := threshold\<rparr>\<rparr>))) config) (\<lambda>config.
     with_value values ''last_server'' (\<lambda>value config. Inr (config\<lparr>m_LastServer := value\<rparr>)) config))))))))))"

definition config_Parse :: "'f Float \<Rightarrow> string \<Rightarrow> 'f Config result" where
  "config_Parse F data =
     res_bind (parse_config_lines 0 data Map.empty) (\<lambda>values.
       apply_values F values (set_profile DefaultProfile (new_Config F)))"

section \<open>Loading and saving\<close>

definition config_Load :: "'f Float \<Rightarrow> string \<Rightarrow> (FileSystem, 'f Config) op" where
  "config_Load F path =
     op_bind (ReadSecureFile path MaxConfigSize) (\<lambda>data.
     case data of
       None \<Rightarrow> op_throw (RuntimeError (''Config does not exist: '' @ path))
     | Some text \<Rightarrow> op_lift (res_bind (config_Parse F text) (\<lambda>config. Inr (config\<lparr>m_Path := Some path\<rparr>))))"

text \<open>The two \<open>Save\<close> functions and \<open>Update\<close> act on the object and on the files.\<close>

definition config_Save_to :: "'f Float \<Rightarrow> string \<Rightarrow> ('f Config \<times> FileSystem, unit) op" where
  "config_Save_to F path =
     op_bind (op_modify (\<lambda>(config, fs). (config\<lparr>m_Path := Some path\<rparr>, fs))) (\<lambda>_.
     op_bind (op_gets fst) (\<lambda>config.
     op_zoom snd (\<lambda>fs (config, _). (config, fs)) (WriteSecureFile path (config_text F config))))"

definition config_Save :: "'f Float \<Rightarrow> ('f Config \<times> FileSystem, unit) op" where
  "config_Save F =
     op_bind (op_gets (\<lambda>(config, _). m_Path config)) (\<lambda>path.
     case path of
       None \<Rightarrow> op_throw (RuntimeError ''Config has no bound path to save to'')
     | Some p \<Rightarrow> config_Save_to F p)"

definition config_Update :: "'f Float \<Rightarrow> ('f Config, unit) op \<Rightarrow> ('f Config \<times> FileSystem, unit) op" where
  "config_Update F mutator =
     op_bind (op_zoom fst (\<lambda>config (_, fs). (config, fs)) mutator) (\<lambda>_. config_Save F)"

section \<open>What a line of the file says\<close>

definition blank :: "char \<Rightarrow> bool" where
  "blank c \<longleftrightarrow> c = CHR '' '' \<or> c = CHR 0x09"

definition trimmed :: "string \<Rightarrow> bool" where
  "trimmed v \<longleftrightarrow> v = [] \<or> \<not> blank (hd v) \<and> \<not> blank (last v)"

definition clean_text :: "string \<Rightarrow> bool" where
  "clean_text v \<longleftrightarrow> LF \<notin> set v \<and> trimmed v \<and> (v = [] \<or> last v \<noteq> CR)"

definition config_entry :: "string \<Rightarrow> string \<Rightarrow> string" where
  "config_entry name v = name @ CHR ''='' # v"

lemma config_Trim_blank: "config_Trim v = rev (dropWhile blank (rev (dropWhile blank v)))"
  by (simp add: config_Trim_def blank_def [abs_def])

lemma Trim_trimmed: "trimmed v \<Longrightarrow> config_Trim v = v"
proof -
  assume v: "trimmed v"
  then have "dropWhile blank v = v"
    by (cases v) (auto simp: trimmed_def)
  moreover have "dropWhile blank (rev v) = rev v"
    using v by (cases v rule: rev_cases) (auto simp: trimmed_def)
  ultimately show ?thesis
    by (simp add: config_Trim_blank)
qed

lemma key_names:
  assumes "name \<in> set config_keys"
  shows "name \<noteq> []" "CHR ''='' \<notin> set name" "LF \<notin> set name" "hd name \<noteq> CHR ''#''" "trimmed name"
    "\<not> blank (hd name)"
  using assms by (auto simp: config_keys_def trimmed_def blank_def)

lemma parse_entry:
  assumes name: "name \<in> set config_keys" and v: "clean_text v" and new: "values name = None"
  shows "parse_config_line n (config_entry name v) values = Inr (values(name \<mapsto> v))"
proof -
  note k = key_names [OF name]
  have last: "last (config_entry name v) = (if v = [] then CHR ''='' else last v)"
    by (simp add: config_entry_def)
  have hd: "hd (config_entry name v) = hd name"
    using k(1) by (cases name) (auto simp: config_entry_def)
  have pop: "pop_CR (config_entry name v) = config_entry name v"
    using v by (auto simp: pop_CR_def last clean_text_def)
  have trim: "config_Trim (config_entry name v) = config_entry name v"
    using v k(6) by (intro Trim_trimmed) (auto simp: trimmed_def last hd clean_text_def blank_def)
  have parts: "before_equals (config_entry name v) = name" "after_equals (config_entry name v) = v"
    using equals_split [OF k(2), of v] by (simp_all add: config_entry_def)
  have nonempty: "config_entry name v \<noteq> []" and eq: "CHR ''='' \<in> set (config_entry name v)"
    by (simp_all add: config_entry_def)
  have trims: "config_Trim name = name" "config_Trim v = v"
    using k(5) v by (simp_all add: Trim_trimmed clean_text_def)
  show ?thesis
    unfolding parse_config_line_def pop trim parts trims Let_def
    using nonempty eq hd k(1,4) name new by simp
qed

lemma parse_comment:
  assumes "last (CHR ''#'' # s) \<noteq> CR"
  shows "parse_config_line n (CHR ''#'' # s) values = Inr values"
proof -
  have "dropWhile blank (CHR ''#'' # s) = CHR ''#'' # s"
    by (simp add: blank_def)
  moreover obtain t where "rev (dropWhile blank (rev (CHR ''#'' # s))) = CHR ''#'' # t"
  proof (cases "dropWhile blank (rev s) = []")
    case True
    then have "dropWhile blank (rev s @ [CHR ''#'']) = [CHR ''#'']"
      by (simp add: dropWhile_append blank_def)
    with that show ?thesis by simp
  next
    case False
    then have "dropWhile blank (rev s @ [CHR ''#'']) = dropWhile blank (rev s) @ [CHR ''#'']"
      by (simp add: dropWhile_append)
    with that show ?thesis by simp
  qed
  ultimately show ?thesis
    using assms by (simp add: parse_config_line_def pop_CR_def config_Trim_blank)
qed

lemma parse_empty_line: "parse_config_line n [] values = Inr values"
  by (simp add: parse_config_line_def pop_CR_def config_Trim_def)

section \<open>Reading back what was written\<close>

fun run_lines :: "nat \<Rightarrow> string list \<Rightarrow> (string \<rightharpoonup> string) \<Rightarrow> (string \<rightharpoonup> string) result" where
  "run_lines n [] values = Inr values"
| "run_lines n (line # ls) values = res_bind (parse_config_line (n + 1) line values) (run_lines (n + 1) ls)"

lemma parse_config_lines_line:
  "LF \<notin> set line \<Longrightarrow>
   parse_config_lines n (line @ LF # rest) values =
     res_bind (parse_config_line (n + 1) line values) (parse_config_lines (n + 1) rest)"
  using takeWhile_dropWhile_at [of LF line rest] by (subst parse_config_lines.simps) simp

lemma parse_lines_run:
  "list_all (\<lambda>line. LF \<notin> set line) ls \<Longrightarrow>
   parse_config_lines n (concat (map (\<lambda>line. line @ [LF]) ls)) vs = run_lines n ls vs"
proof (induction ls arbitrary: n vs)
  case Nil
  show ?case by (simp add: parse_config_lines.simps)
next
  case (Cons line ls)
  then have "parse_config_lines (n + 1) (concat (map (\<lambda>line. line @ [LF]) ls)) = run_lines (n + 1) ls"
    by (simp add: fun_eq_iff)
  with Cons.prems show ?case by (simp add: parse_config_lines_line)
qed

definition init_version_text :: "'f Config \<Rightarrow> string" where
  "init_version_text c = ''0x'' @ to_hex (unat (m_ClientInitVersion c))"

definition config_values :: "'f Float \<Rightarrow> 'f Config \<Rightarrow> string \<rightharpoonup> string" where
  "config_values F c =
     [''nickname'' \<mapsto> m_Nickname c,
      ''client_init_version'' \<mapsto> init_version_text c,
      ''client_version'' \<mapsto> m_ClientVersion c,
      ''client_platform'' \<mapsto> m_ClientPlatform c,
      ''client_version_sign'' \<mapsto> m_ClientVersionSignature c,
      ''audio_input'' \<mapsto> as_input (m_AudioSettings c),
      ''audio_output'' \<mapsto> as_output (m_AudioSettings c),
      ''audio_filter'' \<mapsto> as_captureFilter (m_AudioSettings c),
      ''audio_activation_threshold_db'' \<mapsto> flt_print F (as_activationThresholdDb (m_AudioSettings c))]"

lemma config_lines_entries:
  "config_lines F c =
     [''# ts-cli configuration'', [], config_entry ''nickname'' (m_Nickname c), [],
      ''# TeamSpeak wire client profile.'', ''# Keep these four fields as one coherent tuple.'',
      config_entry ''client_init_version'' (init_version_text c),
      config_entry ''client_version'' (m_ClientVersion c),
      config_entry ''client_platform'' (m_ClientPlatform c),
      config_entry ''client_version_sign'' (m_ClientVersionSignature c), [],
      ''# Audio settings. Transmission still starts muted each session.'',
      config_entry ''audio_input'' (as_input (m_AudioSettings c)),
      config_entry ''audio_output'' (as_output (m_AudioSettings c)),
      config_entry ''audio_filter'' (as_captureFilter (m_AudioSettings c)),
      config_entry ''audio_activation_threshold_db'' (flt_print F (as_activationThresholdDb (m_AudioSettings c)))] @
     (if m_LastServer c \<noteq> []
      then [[], ''# The server ts-gtk connected to last.'', config_entry ''last_server'' (m_LastServer c)] else [])"
  by (simp add: config_lines_def config_entry_def init_version_text_def)

text \<open>
  Which configurations the file can hold: the texts are clean, and the text of the threshold is
  that of some finite number in range, \<open>reread_threshold\<close>, not necessarily the same.
\<close>

definition config_ok :: "'f Float \<Rightarrow> 'f Config \<Rightarrow> bool" where
  "config_ok F c \<longleftrightarrow>
     m_Nickname c \<noteq> [] \<and> as_input (m_AudioSettings c) \<noteq> [] \<and> as_output (m_AudioSettings c) \<noteq> [] \<and>
     as_captureFilter (m_AudioSettings c) \<noteq> [] \<and>
     flt_finite F (as_activationThresholdDb (m_AudioSettings c)) \<and>
     \<not> out_of_range F (as_activationThresholdDb (m_AudioSettings c))"

definition clean_config :: "'f Float \<Rightarrow> 'f Config \<Rightarrow> bool" where
  "clean_config F c \<longleftrightarrow>
     clean_text (m_Nickname c) \<and> clean_text (m_ClientVersion c) \<and> clean_text (m_ClientPlatform c) \<and>
     clean_text (m_ClientVersionSignature c) \<and> clean_text (as_input (m_AudioSettings c)) \<and>
     clean_text (as_output (m_AudioSettings c)) \<and> clean_text (as_captureFilter (m_AudioSettings c)) \<and>
     clean_text (m_LastServer c) \<and>
     (let text = flt_print F (as_activationThresholdDb (m_AudioSettings c)) in
      clean_text text \<and>
      (case flt_from_chars F text of (Some t, []) \<Rightarrow> flt_finite F t \<and> \<not> out_of_range F t | _ \<Rightarrow> False))"

definition reread_threshold :: "'f Float \<Rightarrow> 'f \<Rightarrow> 'f" where
  "reread_threshold F t = (case flt_from_chars F (flt_print F t) of (Some t', _) \<Rightarrow> t' | (None, _) \<Rightarrow> t)"

definition reread :: "'f Float \<Rightarrow> 'f Config \<Rightarrow> 'f Config" where
  "reread F c = c\<lparr>m_AudioSettings := (m_AudioSettings c)\<lparr>as_activationThresholdDb :=
     reread_threshold F (as_activationThresholdDb (m_AudioSettings c))\<rparr>\<rparr>"

lemma reread_simps [simp]:
  "m_LastServer (reread F c) = m_LastServer c" "m_Nickname (reread F c) = m_Nickname c"
  "reread F (c\<lparr>m_Path := p\<rparr>) = (reread F c)\<lparr>m_Path := p\<rparr>"
  "reread F (c\<lparr>m_Nickname := n\<rparr>) = (reread F c)\<lparr>m_Nickname := n\<rparr>"
  "reread F (c\<lparr>m_LastServer := v\<rparr>) = (reread F c)\<lparr>m_LastServer := v\<rparr>"
  by (simp_all add: reread_def)

lemma clean_threshold:
  assumes "clean_config F c"
  shows "config_ParseFloat F (flt_print F (as_activationThresholdDb (m_AudioSettings c))) name =
      Inr (reread_threshold F (as_activationThresholdDb (m_AudioSettings c)))"
    and "\<not> out_of_range F (reread_threshold F (as_activationThresholdDb (m_AudioSettings c)))"
  using assms
  by (auto simp: clean_config_def Let_def config_ParseFloat_def reread_threshold_def
      split: prod.splits option.splits list.splits)

lemma clean_hex: "clean_text (init_version_text c)"
proof -
  have "\<forall>d \<in> set (to_hex (unat (m_ClientInitVersion c))). d \<noteq> LF \<and> d \<noteq> CR \<and> \<not> blank d"
    using to_hex_digits [of "unat (m_ClientInitVersion c)"] by (auto simp: list_all_iff is_hex_def is_digit_def blank_def)
  moreover from this have "last (to_hex (unat (m_ClientInitVersion c))) \<noteq> CR" "\<not> blank (last (to_hex (unat (m_ClientInitVersion c))))"
    using last_in_set [OF to_hex_nonempty] by blast+
  ultimately show ?thesis
    by (auto simp: init_version_text_def clean_text_def trimmed_def blank_def)
qed

lemma parse_config_text:
  assumes "clean_config F c"
  shows "parse_config_lines 0 (config_text F c) Map.empty =
    Inr (if m_LastServer c \<noteq> [] then (config_values F c)(''last_server'' \<mapsto> m_LastServer c) else config_values F c)"
proof -
  have "list_all (\<lambda>line. LF \<notin> set line) (config_lines F c)"
    using assms clean_hex [of c]
    by (simp add: config_lines_def init_version_text_def clean_config_def clean_text_def Let_def)
  then have "parse_config_lines 0 (config_text F c) Map.empty = run_lines 0 (config_lines F c) Map.empty"
    unfolding config_text_def by (rule parse_lines_run)
  also have "\<dots> = Inr (if m_LastServer c \<noteq> [] then (config_values F c)(''last_server'' \<mapsto> m_LastServer c) else config_values F c)"
    using assms clean_hex [of c] unfolding config_lines_entries clean_config_def Let_def
    by (simp add: parse_entry parse_comment parse_empty_line config_values_def config_keys_def)
  finally show ?thesis .
qed

lemma config_ParseUnsigned_hex:
  "config_ParseUnsigned (init_version_text c) name = Inr (unat (m_ClientInitVersion c))"
proof -
  have "unat (m_ClientInitVersion c) < 2 ^ 64"
    using unsigned_less [of "m_ClientInitVersion c", where 'a = nat] by simp
  then have "from_chars_hex (2 ^ 64) (to_hex (unat (m_ClientInitVersion c))) = (Some (unat (m_ClientInitVersion c)), [])"
    by (rule from_chars_to_hex)
  then show ?thesis
    by (simp add: config_ParseUnsigned_def init_version_text_def Let_def)
qed

lemma apply_config_values:
  assumes ok: "config_ok F c" and clean: "clean_config F c" and path: "m_Path c' = None" and last: "m_LastServer c' = []"
  shows "apply_values F
    (if m_LastServer c \<noteq> [] then (config_values F c)(''last_server'' \<mapsto> m_LastServer c) else config_values F c) c' =
    Inr ((reread F c)\<lparr>m_Path := None\<rparr>)"
proof -
  let ?vs = "if m_LastServer c \<noteq> [] then (config_values F c)(''last_server'' \<mapsto> m_LastServer c) else config_values F c"
  note threshold = clean_threshold [OF clean]
  have small: "unat (m_ClientInitVersion c) \<le> 2 ^ 32 - 1"
    using unsigned_less [of "m_ClientInitVersion c", where 'a = nat] by simp
  have vs: "?vs ''nickname'' = Some (m_Nickname c)" "?vs ''client_init_version'' = Some (init_version_text c)"
    "?vs ''client_version'' = Some (m_ClientVersion c)" "?vs ''client_platform'' = Some (m_ClientPlatform c)"
    "?vs ''client_version_sign'' = Some (m_ClientVersionSignature c)"
    "?vs ''audio_input'' = Some (as_input (m_AudioSettings c))"
    "?vs ''audio_output'' = Some (as_output (m_AudioSettings c))"
    "?vs ''audio_filter'' = Some (as_captureFilter (m_AudioSettings c))"
    "?vs ''audio_activation_threshold_db'' = Some (flt_print F (as_activationThresholdDb (m_AudioSettings c)))"
    "?vs ''last_server'' = (if m_LastServer c \<noteq> [] then Some (m_LastServer c) else None)"
    by (simp_all add: config_values_def)
  show ?thesis
    using ok small path last threshold
    unfolding apply_values_def with_value_def nonempty_value_def vs option.case config_ParseUnsigned_hex
    by (cases "m_LastServer c = []") (simp_all add: config_ok_def config_Profile_def not_less reread_def)
qed

lemma config_Parse_text:
  assumes "config_ok F c" "clean_config F c"
  shows "config_Parse F (config_text F c) = Inr ((reread F c)\<lparr>m_Path := None\<rparr>)"
  using assms parse_config_text [OF assms(2)]
  by (simp only: config_Parse_def res_bind_simps)
    (intro apply_config_values, simp_all add: new_Config_def set_profile_def)

section \<open>Saving and loading\<close>

lemma config_Save_to_run:
  "config_Save_to F path (c, fs) =
     (case WriteSecureFile path (config_text F (c\<lparr>m_Path := Some path\<rparr>)) fs of
        (r, fs') \<Rightarrow> (r, c\<lparr>m_Path := Some path\<rparr>, fs'))"
  by (simp add: config_Save_to_def op_zoom_def split: prod.splits)

lemma config_text_Path [simp]: "config_text F (c\<lparr>m_Path := p\<rparr>) = config_text F c"
  by (simp add: config_text_def config_lines_def)

text \<open>
  C31: A saved configuration is read back. Where no system call fails, saving a well-formed
  configuration with clean texts to a path returns, the file is readable by its owner only, and
  loading the path gives the same configuration, bound to that path, with the threshold that its
  printed text means. \<open>Save\<close> prints the threshold with six significant digits, so a threshold of
  more digits changes to the one the file shows; of the printed text it is only asked that it
  means a finite number in range.
\<close>

theorem config_saved_and_loaded:
  assumes "config_ok F c" "clean_config F c" "length (config_text F c) \<le> MaxConfigSize"
    and "no_failures fs" "fresh_temporary fs path"
  shows "\<exists>fs' fs''. config_Save_to F path (c, fs) = (Inr (), c\<lparr>m_Path := Some path\<rparr>, fs') \<and>
    fs_files fs' = (fs_files fs)(path \<mapsto> RegularFile (config_text F c) True) \<and>
    config_Load F path fs' = (Inr ((reread F c)\<lparr>m_Path := Some path\<rparr>), fs'')"
proof -
  obtain fs' where saved: "WriteSecureFile path (config_text F c) fs = (Inr (), fs')" "no_failures fs'"
    "fs_files fs' = (fs_files fs)(path \<mapsto> RegularFile (config_text F c) True)"
    using write_returns [OF assms(4,5)] by blast
  then obtain fs'' where "ReadSecureFile path MaxConfigSize fs' = (Inr (Some (config_text F c)), fs'')"
    using read_returns [of fs' path "config_text F c" True] assms(3) by auto
  then have "config_Load F path fs' = (Inr ((reread F c)\<lparr>m_Path := Some path\<rparr>), fs'')"
    by (simp add: config_Load_def op_bind_run config_Parse_text assms(1,2))
  with saved show ?thesis
    by (simp add: config_Save_to_run)
qed

definition example_config :: "int Config" where
  "example_config = (set_profile DefaultProfile (new_Config whole_numbers))\<lparr>m_LastServer := ''voice.example.net:9987''\<rparr>"

lemma example_config_clean:
  "config_ok whole_numbers example_config" "clean_config whole_numbers example_config"
  "length (config_text whole_numbers example_config) \<le> MaxConfigSize"
proof -
  have "to_string 45 = ''45''"
    by code_simp
  note eval = this example_config_def set_profile_def DefaultProfile_def new_Config_def default_AudioSettings_def
    whole_numbers_def print_int_def
  show "config_ok whole_numbers example_config"
    by (simp add: config_ok_def out_of_range_def eval)
  show "clean_config whole_numbers example_config"
    using read_print_int [of "- 45"] by (simp add: clean_config_def clean_text_def trimmed_def blank_def out_of_range_def eval)
  show "length (config_text whole_numbers example_config) \<le> MaxConfigSize"
    by (simp add: config_text_def config_lines_def MaxConfigSize_def to_hex.simps eval)
qed

lemma example_config_reread: "reread whole_numbers example_config = example_config"
proof -
  have "reread_threshold whole_numbers (- 45) = - 45"
    using read_print_int [of "- 45"] by (simp add: reread_threshold_def whole_numbers_def)
  then show ?thesis
    by (simp add: reread_def example_config_def set_profile_def new_Config_def default_AudioSettings_def whole_numbers_def)
qed

text \<open>Numbers in tenths, printed as whole ones: \<open>-45.3\<close> is written as \<open>-46\<close>.\<close>

definition tenths :: "int Float" where
  "tenths = \<lparr>flt_from_chars = (\<lambda>s. case read_int s of (n, rest) \<Rightarrow> (map_option ((*) 10) n, rest)), flt_finite = (\<lambda>_. True),
     flt_less = (<), flt_eq = (=), flt_lit = (*) 10, flt_print = (\<lambda>i. print_int (i div 10)),
     flt_print_fixed = (\<lambda>_ i. print_int (i div 10))\<rparr>"

definition fine_config :: "int Config" where
  "fine_config = example_config\<lparr>m_AudioSettings := (m_AudioSettings example_config)\<lparr>as_activationThresholdDb := - 453\<rparr>\<rparr>"

theorem config_saved_and_loaded_witness:
  "\<exists>fs' fs''. config_Save_to tenths ''c'' (fine_config, empty_files) = (Inr (), fine_config\<lparr>m_Path := Some ''c''\<rparr>, fs') \<and>
    config_Load tenths ''c'' fs' =
      (Inr (fine_config\<lparr>m_AudioSettings := (m_AudioSettings fine_config)\<lparr>as_activationThresholdDb := - 460\<rparr>, m_Path := Some ''c''\<rparr>), fs'')"
proof -
  have digits: "to_string 46 = ''46''" by code_simp
  have read: "read_int ''-46'' = (Some (- 46), [])"
    using read_print_int [of "- 46"] digits by (simp add: print_int_def)
  note eval = digits read fine_config_def example_config_def set_profile_def DefaultProfile_def new_Config_def
    default_AudioSettings_def whole_numbers_def tenths_def print_int_def
  have ok: "config_ok tenths fine_config"
    by (simp add: config_ok_def out_of_range_def eval)
  have clean: "clean_config tenths fine_config"
    by (simp add: clean_config_def clean_text_def trimmed_def blank_def out_of_range_def eval)
  have short: "length (config_text tenths fine_config) \<le> MaxConfigSize"
    by (simp add: config_text_def config_lines_def MaxConfigSize_def to_hex.simps eval)
  have "reread tenths fine_config =
      fine_config\<lparr>m_AudioSettings := (m_AudioSettings fine_config)\<lparr>as_activationThresholdDb := - 460\<rparr>\<rparr>"
    by (simp add: reread_def reread_threshold_def eval)
  then show ?thesis
    using config_saved_and_loaded [OF ok clean short empty_files_ok, of "''c''"] by force
qed

text \<open>A save replaces the file with the whole text or leaves every file as it was.\<close>

lemma config_save_all_or_nothing:
  assumes "config_Save_to F path (c, fs) = (r, c', fs')" "fresh_temporary fs path"
  shows "c' = c\<lparr>m_Path := Some path\<rparr> \<and>
    (r = Inr () \<and> file_content fs' = (file_content fs)(path \<mapsto> config_text F c) \<or>
     file_content fs' = file_content fs)"
  using assms files.write_one_file [OF assms(2)]
  by (fastforce simp: config_Save_to_run split: prod.splits)

section \<open>Every configuration is well formed\<close>

text \<open>\<open>keeps_config F f\<close>: a step that returns a configuration keeps it well formed.\<close>

definition keeps_config :: "'f Float \<Rightarrow> ('f Config \<Rightarrow> 'f Config result) \<Rightarrow> bool" where
  "keeps_config F f \<longleftrightarrow> (\<forall>c c'. config_ok F c \<longrightarrow> f c = Inr c' \<longrightarrow> config_ok F c')"

lemma keeps_bind:
  "keeps_config F f \<Longrightarrow> keeps_config F g \<Longrightarrow> keeps_config F (\<lambda>c. res_bind (f c) g)"
  unfolding keeps_config_def res_bind_eq_Inr by blast

lemma keeps_profile: "keeps_config F g \<Longrightarrow> keeps_config F (\<lambda>c. res_bind (config_Profile c) (\<lambda>_. g c))"
  unfolding keeps_config_def res_bind_eq_Inr by blast

lemma keeps_with_value: "(\<And>value. keeps_config F (f value)) \<Longrightarrow> keeps_config F (with_value vs name f)"
  by (auto simp: keeps_config_def with_value_def split: option.splits)

lemma keeps_nonempty:
  "keeps_config F (nonempty_value name (\<lambda>value. as_input_update (\<lambda>_. value)) value)"
  "keeps_config F (nonempty_value name (\<lambda>value. as_output_update (\<lambda>_. value)) value)"
  "keeps_config F (nonempty_value name (\<lambda>value. as_captureFilter_update (\<lambda>_. value)) value)"
  by (auto simp: keeps_config_def nonempty_value_def config_ok_def split: if_splits)

lemma keeps_threshold:
  "keeps_config F (\<lambda>config. res_bind (config_ParseFloat F value name) (\<lambda>threshold.
     if out_of_range F threshold then Inl threshold_error
     else Inr (config\<lparr>m_AudioSettings := (m_AudioSettings config)\<lparr>as_activationThresholdDb := threshold\<rparr>\<rparr>)))"
  by (auto simp: keeps_config_def config_ParseFloat_def config_ok_def res_bind_eq_Inr
      split: if_splits option.splits list.splits prod.splits)

lemma apply_values_keeps: "keeps_config F (apply_values F vs)"
  unfolding apply_values_def
  by (intro keeps_bind keeps_profile keeps_with_value keeps_threshold keeps_nonempty)
    (auto simp: keeps_config_def config_ok_def res_bind_eq_Inr split: if_splits)

lemma apply_values_ok: "apply_values F vs c = Inr c' \<Longrightarrow> config_ok F c \<Longrightarrow> config_ok F c'"
  using apply_values_keeps by (auto simp: keeps_config_def)

definition float_default :: "'f Float \<Rightarrow> bool" where
  "float_default F \<longleftrightarrow> flt_finite F (flt_lit F (- 45)) \<and> \<not> out_of_range F (flt_lit F (- 45))"

lemma default_config_ok: "float_default F \<Longrightarrow> cp_nickname p \<noteq> [] \<Longrightarrow> config_ok F (set_profile p (new_Config F))"
  by (simp add: config_ok_def set_profile_def new_Config_def default_AudioSettings_def float_default_def)

text \<open>The calls on a configuration object and the files it is saved to.\<close>

inductive config_setter :: "'f Float \<Rightarrow> ('f Config, unit) op \<Rightarrow> bool" for F where
  nickname: "config_setter F (SetNickname n)"
| audio: "config_setter F (SetAudioSettings F settings)"
| server: "config_setter F (SetLastServer s)"

inductive config_reachable :: "'f Float \<Rightarrow> 'f Config \<times> FileSystem \<Rightarrow> bool" for F where
  created: "config_Create F profile = Inr c \<Longrightarrow> config_reachable F (c, fs)"
| loaded: "config_Load F path fs = (Inr c, fs') \<Longrightarrow> config_reachable F (c, fs')"
| set: "config_reachable F (c, fs) \<Longrightarrow> config_setter F m \<Longrightarrow> m c = (r, c') \<Longrightarrow> config_reachable F (c', fs)"
| saved_to: "config_reachable F s \<Longrightarrow> config_Save_to F path s = (r, s') \<Longrightarrow> config_reachable F s'"
| saved: "config_reachable F s \<Longrightarrow> config_Save F s = (r, s') \<Longrightarrow> config_reachable F s'"
| updated: "config_reachable F s \<Longrightarrow> config_setter F m \<Longrightarrow> config_Update F m s = (r, s') \<Longrightarrow> config_reachable F s'"

lemma config_ok_Path [simp]: "config_ok F (c\<lparr>m_Path := p\<rparr>) = config_ok F c"
  by (simp add: config_ok_def)

lemma setter_ok: "config_setter F m \<Longrightarrow> config_ok F c \<Longrightarrow> m c = (r, c') \<Longrightarrow> config_ok F c'"
  by (auto simp: SetNickname_def SetAudioSettings_def SetLastServer_def config_ok_def
      elim!: config_setter.cases split: if_splits)

lemma save_to_ok: "config_Save_to F path s = (r, s') \<Longrightarrow> config_ok F (fst s) \<Longrightarrow> config_ok F (fst s')"
  by (cases s) (auto simp: config_Save_to_run split: prod.splits)

lemma save_ok: "config_Save F s = (r, s') \<Longrightarrow> config_ok F (fst s) \<Longrightarrow> config_ok F (fst s')"
  by (cases s) (auto simp: config_Save_def split: option.splits dest: save_to_ok)

text \<open>
  However a configuration object came about - created from a profile, loaded from a file, then
  changed by any calls of its setters and saved or updated any number of times, whether the calls
  succeed or throw - its nickname and audio selectors are not empty, its threshold is finite and
  between -100 and 0, and \<open>Profile\<close> answers a profile.
\<close>

theorem config_reachable_ok:
  assumes "config_reachable F (c, fs)" "float_default F"
  shows "config_ok F c \<and> (\<exists>profile. config_Profile c = Inr profile)"
proof -
  have "config_ok F (fst s)" if "config_reachable F s" for s
    using that
  proof induction
    case (created profile c fs)
    then show ?case
      using default_config_ok [OF assms(2)] by (auto simp: config_Create_def split: if_splits)
  next
    case (loaded path fs c fs')
    have "config_ok F (set_profile DefaultProfile (new_Config F))"
      using assms(2) by (intro default_config_ok) (simp_all add: DefaultProfile_def)
    moreover obtain vs c' where "apply_values F vs (set_profile DefaultProfile (new_Config F)) = Inr c'"
      "c = c'\<lparr>m_Path := Some path\<rparr>"
      using loaded by (auto simp: config_Load_def config_Parse_def op_bind_eq_Inr res_bind_eq_Inr split: option.splits)
    ultimately show ?case
      by (simp add: apply_values_ok)
  next
    case (set c fs m r c')
    then show ?case by (simp add: setter_ok)
  next
    case (saved_to s path r s')
    then show ?case by (blast intro: save_to_ok)
  next
    case (saved s r s')
    then show ?case by (blast intro: save_ok)
  next
    case (updated s m r s')
    obtain c fs where s: "s = (c, fs)" by fastforce
    obtain r1 c1 where m: "m c = (r1, c1)" by fastforce
    with updated s have "config_ok F c1"
      by (auto dest: setter_ok)
    with updated s m show ?case
      by (cases r1) (auto simp: config_Update_def op_zoom_def op_bind_def dest: save_ok)
  qed
  from this [OF assms(1)] show ?thesis
    by (simp add: config_ok_def config_Profile_def)
qed

theorem config_reachable_ok_witness:
  "config_ok whole_numbers (example_config\<lparr>m_LastServer := []\<rparr>)"
proof -
  have "config_reachable whole_numbers (example_config\<lparr>m_LastServer := []\<rparr>, empty_files)"
    by (rule config_reachable.created [of _ DefaultProfile])
      (simp add: config_Create_def example_config_def DefaultProfile_def set_profile_def new_Config_def)
  moreover have "float_default whole_numbers"
    by (simp add: float_default_def out_of_range_def whole_numbers_def)
  ultimately show ?thesis
    using config_reachable_ok by blast
qed

section \<open>Texts the setters let through\<close>

lemma init_version_text_update [simp]:
  "init_version_text (c\<lparr>m_Nickname := n\<rparr>) = init_version_text c"
  "init_version_text (c\<lparr>m_LastServer := v\<rparr>) = init_version_text c"
  by (simp_all add: init_version_text_def)

lemma parse_blank_entry:
  assumes name: "name \<in> set config_keys" and b: "list_all blank b" and new: "values name = None"
  shows "parse_config_line n (config_entry name b) values = Inr (values(name \<mapsto> []))"
proof -
  note k = key_names [OF name]
  have "blank (last b)" if "b \<noteq> []"
    using b last_in_set [OF that] unfolding list_all_iff by blast
  then have "last (config_entry name b) \<noteq> CR"
    by (cases "b = []") (auto simp: config_entry_def blank_def)
  then have pop: "pop_CR (config_entry name b) = config_entry name b"
    by (simp only: pop_CR_def if_False simp_thms)
  have "dropWhile blank (config_entry name b) = config_entry name b"
    using k(1,6) by (cases name) (auto simp: config_entry_def)
  moreover have "dropWhile blank (rev (config_entry name b)) = CHR ''='' # rev name"
  proof -
    have "dropWhile blank (rev b @ CHR ''='' # rev name) = dropWhile blank (CHR ''='' # rev name)"
      using b by (intro dropWhile_append2) (simp add: list_all_iff)
    then show ?thesis by (simp add: config_entry_def blank_def)
  qed
  ultimately have trim: "config_Trim (config_entry name b) = name @ [CHR ''='']"
    by (simp add: config_Trim_blank)
  have parts: "before_equals (name @ [CHR ''='']) = name" "after_equals (name @ [CHR ''='']) = []"
    using equals_split [OF k(2), of "[]"] by simp_all
  have trims: "config_Trim name = name" "config_Trim [] = []"
    using k(5) by (simp_all add: Trim_trimmed trimmed_def)
  have hd: "hd (name @ [CHR ''='']) = hd name" "CHR ''='' \<in> set (name @ [CHR ''=''])"
    using k(1) by simp_all
  show ?thesis
    unfolding parse_config_line_def pop trim parts trims Let_def
    using k(1,4) name new hd by simp
qed

lemma blank_no_LF: "list_all blank b \<Longrightarrow> LF \<notin> set b"
  by (induction b) (auto simp: blank_def)

lemma blank_nickname_unreadable:
  assumes "clean_config F c" "b \<noteq> []" "list_all blank b"
  shows "config_Parse F (config_text F (c\<lparr>m_Nickname := b\<rparr>)) = Inl (RuntimeError ''Client nickname cannot be empty'')"
proof -
  let ?c = "c\<lparr>m_Nickname := b\<rparr>"
  have "LF \<notin> set b"
    using assms(3) by (rule blank_no_LF)
  then have "list_all (\<lambda>line. LF \<notin> set line) (config_lines F ?c)"
    using assms(1) clean_hex [of c]
    by (simp add: config_lines_def init_version_text_def clean_config_def clean_text_def Let_def)
  then have "parse_config_lines 0 (config_text F ?c) Map.empty = run_lines 0 (config_lines F ?c) Map.empty"
    unfolding config_text_def by (rule parse_lines_run)
  also have "\<dots> = Inr (if m_LastServer c \<noteq> [] then (config_values F (c\<lparr>m_Nickname := []\<rparr>))(''last_server'' \<mapsto> m_LastServer c)
      else config_values F (c\<lparr>m_Nickname := []\<rparr>))"
    using assms clean_hex [of c] unfolding config_lines_entries clean_config_def Let_def
    by (simp add: parse_entry parse_blank_entry [of "''nickname''"] parse_comment parse_empty_line config_values_def config_keys_def)
  finally show ?thesis
    by (simp add: config_Parse_def apply_values_def with_value_def config_values_def)
qed

lemma nickname_adds_entry:
  assumes "config_ok F c" "clean_config F c" "m_LastServer c = []" "clean_text n" "n \<noteq> []" "clean_text v" "v \<noteq> []"
  shows "config_Parse F (config_text F (c\<lparr>m_Nickname := n @ LF # ''last_server='' @ v\<rparr>)) =
    Inr ((reread F c)\<lparr>m_Nickname := n, m_LastServer := v, m_Path := None\<rparr>)"
proof -
  let ?c = "c\<lparr>m_Nickname := n, m_LastServer := v\<rparr>"
  let ?lines = "''# ts-cli configuration'' # [] # config_entry ''nickname'' n # config_entry ''last_server'' v #
    drop 3 (config_lines F c)"
  have split: "config_text F (c\<lparr>m_Nickname := n @ LF # ''last_server='' @ v\<rparr>) = concat (map (\<lambda>line. line @ [LF]) ?lines)"
    by (simp add: config_text_def config_lines_def config_entry_def)
  have "list_all (\<lambda>line. LF \<notin> set line) ?lines"
    using assms clean_hex [of c]
    by (simp add: config_lines_def config_entry_def init_version_text_def clean_config_def clean_text_def Let_def)
  then have "parse_config_lines 0 (concat (map (\<lambda>line. line @ [LF]) ?lines)) Map.empty = run_lines 0 ?lines Map.empty"
    by (rule parse_lines_run)
  also have "\<dots> = Inr ((config_values F ?c)(''last_server'' \<mapsto> v))"
    using assms clean_hex [of c] unfolding config_lines_entries clean_config_def Let_def
    by (simp add: parse_entry parse_comment parse_empty_line config_values_def config_keys_def fun_eq_iff)
  finally have "config_Parse F (config_text F (c\<lparr>m_Nickname := n @ LF # ''last_server='' @ v\<rparr>)) =
      apply_values F ((config_values F ?c)(''last_server'' \<mapsto> v)) (set_profile DefaultProfile (new_Config F))"
    unfolding split config_Parse_def by (simp only: res_bind_simps)
  also have "\<dots> = Inr ((reread F ?c)\<lparr>m_Path := None\<rparr>)"
    using apply_config_values [of F ?c "set_profile DefaultProfile (new_Config F)"] assms
    by (simp add: config_ok_def clean_config_def new_Config_def set_profile_def)
  finally show ?thesis by simp
qed

text \<open>
  C32: \<open>SetNickname\<close> takes any text that is not empty, and \<open>Save\<close> writes it into the file as it is.
  A nickname \<open>b\<close> made of blanks is saved to a file that cannot be loaded again. A nickname with a
  line feed adds an entry of its own: after \<open>n\<close>, a line feed and \<open>last_server=v\<close>, the file reads
  back with the nickname \<open>n\<close> and the last server \<open>v\<close>, although \<open>SetLastServer\<close> was never called;
  the rest is as saved, the threshold as printed.
\<close>

theorem nickname_text_not_checked:
  assumes "config_ok F c" "clean_config F c" "m_LastServer c = []" "b \<noteq> []" "list_all blank b"
    and "clean_text n" "n \<noteq> []" "clean_text v" "v \<noteq> []"
  shows "SetNickname b c = (Inr (), c\<lparr>m_Nickname := b\<rparr>) \<and>
    config_Parse F (config_text F (c\<lparr>m_Nickname := b\<rparr>)) = Inl (RuntimeError ''Client nickname cannot be empty'') \<and>
    (let nick = n @ LF # ''last_server='' @ v in
     SetNickname nick c = (Inr (), c\<lparr>m_Nickname := nick\<rparr>) \<and>
     config_Parse F (config_text F (c\<lparr>m_Nickname := nick\<rparr>)) =
       Inr ((reread F c)\<lparr>m_Nickname := n, m_LastServer := v, m_Path := None\<rparr>))"
  unfolding Let_def blank_nickname_unreadable [OF assms(2,4,5)] nickname_adds_entry [OF assms(1-3,6-9)]
  using assms(4) by (simp add: SetNickname_def)

theorem nickname_text_not_checked_witness:
  "let c = example_config\<lparr>m_LastServer := []\<rparr>; nick = ''bob'' @ LF # ''last_server='' @ ''evil.example'' in
   fst (SetNickname nick c) = Inr () \<and>
   config_Parse whole_numbers (config_text whole_numbers (snd (SetNickname nick c))) =
     Inr (c\<lparr>m_Nickname := ''bob'', m_LastServer := ''evil.example'', m_Path := None\<rparr>)"
proof -
  have "config_ok whole_numbers (example_config\<lparr>m_LastServer := []\<rparr>)"
    "clean_config whole_numbers (example_config\<lparr>m_LastServer := []\<rparr>)"
    using example_config_clean by (simp_all add: config_ok_def clean_config_def clean_text_def trimmed_def)
  from nickname_text_not_checked [OF this, of "'' ''" "''bob''" "''evil.example''"] show ?thesis
    by (simp add: Let_def blank_def clean_text_def trimmed_def example_config_reread)
qed

end
