(* ===== verification/Identity_Store.thy ===== *)
theory Identity_Store
  imports Secure_Files Hash_Cash Identity_Keys
begin

text \<open>
  The client's own identity: the key object \<open>Identity\<close> (\<open>protocol/src/identity.cpp\<close>) and its file,
  \<open>IdentityStore\<close> (\<open>config/src/identity_store.cpp\<close>). OpenSSL's keys are a parameter, the record
  \<open>KeyLibrary\<close>: what reading and writing PEM text, the queries of a key and the digests answer.
  A key's coordinates are the big-endian bytes of \<open>BN_bn2bin\<close>.

  Every identity the store makes, loads or raises carries a key offset that reaches its security
  level, so \<open>Save\<close> accepts it, and a saved identity is loaded as it was. As in \<open>Hash_Cash\<close>,
  \<open>None\<close> is not returning.
\<close>

section \<open>Identity\<close>

record 'key KeyLibrary =
  kl_read_pem :: "string \<Rightarrow> 'key option"
  kl_write_pem :: "'key \<Rightarrow> string option"
  kl_is_ec :: "'key \<Rightarrow> bool"
  kl_group :: "'key \<Rightarrow> string option"
  kl_has_private :: "'key \<Rightarrow> bool"
  kl_x :: "'key \<Rightarrow> bytes option"
  kl_y :: "'key \<Rightarrow> bytes option"
  kl_sign :: "'key \<Rightarrow> bytes \<Rightarrow> bytes option"
  kl_sha1 :: "string \<Rightarrow> bytes option"
  kl_encode_block :: "bytes \<Rightarrow> string option"
  kl_decode_block :: "string \<Rightarrow> bytes option"

definition ValidateKey :: "'key KeyLibrary \<Rightarrow> 'key \<Rightarrow> unit result" where
  "ValidateKey K key =
     (if \<not> kl_is_ec K key then Inl (RuntimeError ''Identity key is not an EC key'')
      else case kl_group K key of
          None \<Rightarrow> Inl (RuntimeError ''Failed to read identity curve'')
        | Some curve \<Rightarrow>
            if curve \<noteq> ''prime256v1'' \<and> curve \<noteq> ''P-256'' \<and> curve \<noteq> ''secp256r1''
            then Inl (RuntimeError ''Identity key is not P-256'')
            else if \<not> kl_has_private K key then Inl (RuntimeError ''Identity does not contain a private key'')
            else Inr ())"

definition LoadPrivateKey :: "'key KeyLibrary \<Rightarrow> string \<Rightarrow> 'key result" where
  "LoadPrivateKey K pem =
     (if pem = [] then Inl (RuntimeError ''Identity PEM is empty'')
      else if length pem > INT_MAX then Inl (RuntimeError ''Identity PEM is too large'')
      else case kl_read_pem K pem of
          None \<Rightarrow> Inl (RuntimeError ''Failed to read identity private key'')
        | Some key \<Rightarrow> res_bind (ValidateKey K key) (\<lambda>_. Inr key))"

text \<open>The constructor from an imported key validates it once more.\<close>

definition FromPrivateKeyPem :: "'key KeyLibrary \<Rightarrow> string \<Rightarrow> 'key result" where
  "FromPrivateKeyPem K pem =
     res_bind (LoadPrivateKey K pem) (\<lambda>key. res_bind (ValidateKey K key) (\<lambda>_. Inr key))"

definition PrivateKeyPem :: "'key KeyLibrary \<Rightarrow> 'key \<Rightarrow> string result" where
  "PrivateKeyPem K key =
     (case kl_write_pem K key of
        None \<Rightarrow> Inl (RuntimeError ''Failed to serialize identity private key'')
      | Some pem \<Rightarrow> Inr pem)"

definition key_PublicKey :: "'key KeyLibrary \<Rightarrow> 'key \<Rightarrow> bytes result" where
  "key_PublicKey K key =
     (case kl_x K key of
        None \<Rightarrow> Inl (RuntimeError ''Failed to read EC X coordinate'')
      | Some x \<Rightarrow>
          case kl_y K key of
            None \<Rightarrow> Inl (RuntimeError ''Failed to read EC Y coordinate'')
          | Some y \<Rightarrow> Identity_PublicKey x y)"

definition UniqueId :: "'key KeyLibrary \<Rightarrow> 'key \<Rightarrow> string result" where
  "UniqueId K key =
     res_bind (key_PublicKey K key) (\<lambda>publicKey.
     res_bind (Base64Encode (kl_encode_block K) publicKey) (\<lambda>encodedPublicKey.
     case kl_sha1 K encodedPublicKey of
       None \<Rightarrow> Inl (RuntimeError ''Failed to hash identity public key'')
     | Some hash \<Rightarrow>
         if length hash \<noteq> 20 then Inl (RuntimeError ''Failed to hash identity public key'')
         else Base64Encode (kl_encode_block K) hash))"

definition identity_Sign :: "'key KeyLibrary \<Rightarrow> 'key \<Rightarrow> bytes \<Rightarrow> bytes result" where
  "identity_Sign K key data =
     (case kl_sign K key data of
        None \<Rightarrow> Inl (RuntimeError ''Failed to sign identity data'')
      | Some signature \<Rightarrow> Inr signature)"

section \<open>IdentityStore\<close>

record 'key LocalIdentity =
  li_identity :: 'key
  li_securityLevel :: u8
  li_keyOffset :: u64

definition MaxIdentitySize :: nat where
  "MaxIdentitySize = 1024 * 1024"

definition DefaultSecurityLevel :: u8 where
  "DefaultSecurityLevel = 8"

definition MaxSecurityLevel :: u8 where
  "MaxSecurityLevel = 32"

definition level_too_large :: error where
  "level_too_large = RuntimeError ''Identity security level is too large''"

definition identity_Create :: "'key KeyLibrary \<Rightarrow> 'key \<Rightarrow> u8 \<Rightarrow> 'key LocalIdentity result option" where
  "identity_Create K identity securityLevel =
     (if securityLevel > MaxSecurityLevel then Some (Inl level_too_large)
      else case key_PublicKey K identity of
          Inl e \<Rightarrow> Some (Inl e)
        | Inr publicKey \<Rightarrow>
            map_option (\<lambda>r. res_bind r (\<lambda>keyOffset.
                Inr \<lparr>li_identity = identity, li_securityLevel = securityLevel, li_keyOffset = keyOffset\<rparr>))
              (FindOffset_from_zero (kl_encode_block K) (kl_sha1 K) publicKey securityLevel))"

definition identity_ParseUnsigned :: "string \<Rightarrow> string \<Rightarrow> nat result" where
  "identity_ParseUnsigned value name =
     (if value = [] then Inl (RuntimeError (''Empty identity value: '' @ name))
      else case from_chars (2 ^ 64) value of
          (Some result, []) \<Rightarrow> Inr result
        | _ \<Rightarrow> Inl (RuntimeError (''Invalid identity value: '' @ name)))"

definition DecodeIdentity :: "'key KeyLibrary \<Rightarrow> string \<Rightarrow> 'key result" where
  "DecodeIdentity K encodedPrivateKey =
     (if encodedPrivateKey = [] then Inl (RuntimeError ''Identity private key is empty'')
      else res_bind (Base64Decode (kl_decode_block K) encodedPrivateKey) (\<lambda>decoded.
        if decoded = [] then Inl (RuntimeError ''Identity private key decoded to empty data'')
        else FromPrivateKeyPem K (chars_of_bytes decoded)))"

definition EncodeIdentity :: "'key KeyLibrary \<Rightarrow> 'key \<Rightarrow> string result" where
  "EncodeIdentity K identity =
     res_bind (PrivateKeyPem K identity) (\<lambda>pem. Base64Encode (kl_encode_block K) (bytes_of_chars pem))"

text \<open>\<open>HashCash::ValidateOffset( identity.PublicKey(), level, offset )\<close> and the refusal around it.\<close>

definition check_offset :: "'key KeyLibrary \<Rightarrow> 'key LocalIdentity \<Rightarrow> unit result option" where
  "check_offset K identity =
     (case key_PublicKey K (li_identity identity) of
        Inl e \<Rightarrow> Some (Inl e)
      | Inr publicKey \<Rightarrow>
          map_option (\<lambda>r. res_bind r (\<lambda>valid.
              if valid then Inr () else Inl (RuntimeError ''Identity key offset is invalid'')))
            (ValidateOffset (kl_encode_block K) (kl_sha1 K) publicKey (li_securityLevel identity) (li_keyOffset identity)))"

text \<open>The body of the loop over the lines, on \<open>securityLevel\<close>, \<open>keyOffset\<close> and \<open>privateKey\<close>.\<close>

type_synonym identity_fields = "u8 option \<times> u64 option \<times> string"

definition load_identity_line :: "string \<Rightarrow> identity_fields \<Rightarrow> identity_fields result" where
  "load_identity_line line seen =
     (let line = pop_CR line; (securityLevel, keyOffset, privateKey) = seen in
      if line = [] \<or> hd line = CHR ''#'' then Inr seen
      else if CHR ''='' \<notin> set line then Inl (RuntimeError ''Invalid identity file'')
      else
        let name = before_equals line; value = after_equals line in
        if name = ''security_level'' then
          res_bind (identity_ParseUnsigned value name) (\<lambda>parsed.
            if parsed > unat MaxSecurityLevel then Inl level_too_large
            else Inr (Some (of_nat parsed), keyOffset, privateKey))
        else if name = ''key_offset'' then
          res_bind (identity_ParseUnsigned value name) (\<lambda>parsed. Inr (securityLevel, Some (of_nat parsed), privateKey))
        else if name = ''private_key'' then Inr (securityLevel, keyOffset, value)
        else Inl (RuntimeError (''Unknown identity key: '' @ name)))"

fun load_identity_lines :: "string list \<Rightarrow> identity_fields \<Rightarrow> identity_fields result" where
  "load_identity_lines [] seen = Inr seen"
| "load_identity_lines (line # ls) seen = res_bind (load_identity_line line seen) (load_identity_lines ls)"

definition identity_of_fields :: "'key KeyLibrary \<Rightarrow> identity_fields \<Rightarrow> 'key LocalIdentity result option" where
  "identity_of_fields K seen =
     (case seen of
        (Some securityLevel, Some keyOffset, privateKey) \<Rightarrow>
          if privateKey = [] then Some (Inl (RuntimeError ''Identity file is incomplete''))
          else (case DecodeIdentity K privateKey of
              Inl e \<Rightarrow> Some (Inl e)
            | Inr identity \<Rightarrow>
                let loaded = \<lparr>li_identity = identity, li_securityLevel = securityLevel, li_keyOffset = keyOffset\<rparr>
                in map_option (\<lambda>r. res_bind r (\<lambda>_. Inr loaded)) (check_offset K loaded))
      | _ \<Rightarrow> Some (Inl (RuntimeError ''Identity file is incomplete'')))"

definition parse_identity :: "'key KeyLibrary \<Rightarrow> string \<Rightarrow> 'key LocalIdentity result option" where
  "parse_identity K data =
     (case load_identity_lines (getlines data) (None, None, []) of
        Inl e \<Rightarrow> Some (Inl e)
      | Inr seen \<Rightarrow> identity_of_fields K seen)"

definition ReadIdentityFile :: "string \<Rightarrow> (FileSystem, string) op" where
  "ReadIdentityFile path =
     op_bind (ReadSecureFile path MaxIdentitySize) (\<lambda>data.
     case data of
       None \<Rightarrow> op_throw (RuntimeError (''Identity does not exist: '' @ path))
     | Some text \<Rightarrow> op_return text)"

definition identity_Load ::
  "'key KeyLibrary \<Rightarrow> string \<Rightarrow> FileSystem \<Rightarrow> ('key LocalIdentity result \<times> FileSystem) option" where
  "identity_Load K path fs =
     (case ReadIdentityFile path fs of
        (Inl e, fs) \<Rightarrow> Some (Inl e, fs)
      | (Inr data, fs) \<Rightarrow> map_option (\<lambda>r. (r, fs)) (parse_identity K data))"

definition identity_text :: "'key LocalIdentity \<Rightarrow> string \<Rightarrow> string" where
  "identity_text identity encoded =
     concat (map (\<lambda>line. line @ [LF])
       [''# ts-cli TeamSpeak identity'',
        ''security_level='' @ to_string (unat (li_securityLevel identity)),
        ''key_offset='' @ to_string (unat (li_keyOffset identity)),
        ''private_key='' @ encoded])"

definition identity_Save ::
  "'key KeyLibrary \<Rightarrow> string \<Rightarrow> 'key LocalIdentity \<Rightarrow> FileSystem \<Rightarrow> (unit result \<times> FileSystem) option" where
  "identity_Save K path identity fs =
     (if li_securityLevel identity > MaxSecurityLevel then Some (Inl level_too_large, fs)
      else case check_offset K identity of
          None \<Rightarrow> None
        | Some r \<Rightarrow>
            Some (op_bind (op_lift r) (\<lambda>_.
              op_bind (op_lift (EncodeIdentity K (li_identity identity))) (\<lambda>encoded.
              WriteSecureFile path (identity_text identity encoded))) fs))"

definition IncreaseSecurityLevel ::
  "'key KeyLibrary \<Rightarrow> u8 \<Rightarrow> (u64 \<Rightarrow> bool) \<Rightarrow> 'key LocalIdentity \<Rightarrow> (bool result \<times> 'key LocalIdentity) option" where
  "IncreaseSecurityLevel K targetLevel stop identity =
     (if targetLevel \<le> li_securityLevel identity then
        Some (Inl (RuntimeError (''The new security level must be higher than the current one ('' @
          to_string (unat (li_securityLevel identity)) @ '')'')), identity)
      else if targetLevel > MaxSecurityLevel then Some (Inl level_too_large, identity)
      else case key_PublicKey K (li_identity identity) of
          Inl e \<Rightarrow> Some (Inl e, identity)
        | Inr publicKey \<Rightarrow>
            map_option (\<lambda>(r, _). case r of
                Inl e \<Rightarrow> (Inl e, identity)
              | Inr None \<Rightarrow> (Inr False, identity)
              | Inr (Some keyOffset) \<Rightarrow>
                  (Inr True, identity\<lparr>li_securityLevel := targetLevel, li_keyOffset := keyOffset\<rparr>))
              (FindOffset (kl_encode_block K) (kl_sha1 K) publicKey targetLevel (li_keyOffset identity) stop))"

text \<open>
  \<open>ImportPem\<close> reads the whole file: it cannot be opened, the stream goes bad while it is read, or
  this is the text that was read.
\<close>

datatype FileRead = CannotOpen | ReadFailed | FileText string

definition ImportPem :: "'key KeyLibrary \<Rightarrow> (string \<Rightarrow> FileRead) \<Rightarrow> string \<Rightarrow> 'key result" where
  "ImportPem K read_file path =
     (case read_file path of
        CannotOpen \<Rightarrow> Inl (RuntimeError (''Failed to open PEM file: '' @ path))
      | ReadFailed \<Rightarrow> Inl (RuntimeError (''Failed to read PEM file: '' @ path))
      | FileText pem \<Rightarrow> FromPrivateKeyPem K pem)"

definition ExportPem :: "'key KeyLibrary \<Rightarrow> string \<Rightarrow> 'key \<Rightarrow> (FileSystem, unit) op" where
  "ExportPem K path identity = op_bind (op_lift (PrivateKeyPem K identity)) (WriteSecureFile path)"

section \<open>Every identity reaches its level\<close>

text \<open>What \<open>Save\<close> asks, and what it means: the hash of key and offset starts with enough zero bits.\<close>

definition identity_valid :: "'key KeyLibrary \<Rightarrow> 'key LocalIdentity \<Rightarrow> bool" where
  "identity_valid K li \<longleftrightarrow> li_securityLevel li \<le> MaxSecurityLevel \<and> check_offset K li = Some (Inr ())"

lemma FindOffset_valid:
  assumes "FindOffset encode_block sha1 key level start stop = Some (Inr (Some found), calls)"
  shows "ValidateOffset encode_block sha1 key level found = Some (Inr True)"
proof -
  obtain encoded where enc: "Base64Encode encode_block key = Inr encoded"
    and run: "find_loop (GetLevel sha1 encoded) level start stop start = Some (Inr (Some found), calls)"
    using assms by (auto simp: FindOffset_def split: sum.splits)
  show ?thesis
    using find_loop_first [OF run] by (auto simp: ValidateOffset_def enc)
qed

lemma FindOffset_from_zero_valid:
  "FindOffset_from_zero encode_block sha1 key level = Some (Inr found) \<Longrightarrow>
   ValidateOffset encode_block sha1 key level found = Some (Inr True)"
  by (auto simp: FindOffset_from_zero_def split: option.splits sum.splits prod.splits intro: FindOffset_valid)

lemma check_offset_valid:
  "key_PublicKey K (li_identity li) = Inr key \<Longrightarrow>
   ValidateOffset (kl_encode_block K) (kl_sha1 K) key (li_securityLevel li) (li_keyOffset li) = Some (Inr True) \<Longrightarrow>
   check_offset K li = Some (Inr ())"
  by (simp add: check_offset_def)

lemma Create_valid: "identity_Create K key level = Some (Inr li) \<Longrightarrow> identity_valid K li"
  unfolding identity_Create_def identity_valid_def
  by (auto simp: res_bind_eq_Inr not_less split: if_splits sum.splits
      intro!: check_offset_valid FindOffset_from_zero_valid)

lemma load_line_level:
  assumes "load_identity_line line (l, k, p) = Inr (l', k', p')" "\<forall>n. l = Some n \<longrightarrow> n \<le> MaxSecurityLevel"
  shows "\<forall>n. l' = Some n \<longrightarrow> n \<le> MaxSecurityLevel"
proof -
  have "of_nat n \<le> MaxSecurityLevel" if "n \<le> unat MaxSecurityLevel" for n
    using that by (simp add: word_le_nat_alt MaxSecurityLevel_def unat_of_nat take_bit_eq_mod)
  with assms show ?thesis
    by (auto simp: load_identity_line_def Let_def res_bind_eq_Inr not_less split: if_splits)
qed

lemma load_lines_level:
  "load_identity_lines ls (l, k, p) = Inr (l', k', p') \<Longrightarrow> \<forall>n. l = Some n \<longrightarrow> n \<le> MaxSecurityLevel \<Longrightarrow>
   \<forall>n. l' = Some n \<longrightarrow> n \<le> MaxSecurityLevel"
proof (induction ls arbitrary: l k p)
  case (Cons line ls)
  obtain l1 k1 p1 where "load_identity_line line (l, k, p) = Inr (l1, k1, p1)"
    "load_identity_lines ls (l1, k1, p1) = Inr (l', k', p')"
    using Cons.prems(1) by (auto simp: res_bind_eq_Inr)
  then show ?case
    using Cons.IH load_line_level Cons.prems(2) by blast
qed simp

lemma parse_valid: "parse_identity K data = Some (Inr li) \<Longrightarrow> identity_valid K li"
  using load_lines_level [of "getlines data" None None "[]"]
  by (fastforce simp: parse_identity_def identity_of_fields_def identity_valid_def res_bind_eq_Inr Let_def
      split: sum.splits option.splits prod.splits if_splits)

lemma Increase_cases:
  assumes "IncreaseSecurityLevel K target stop li = Some (r, li')"
  obtains (unchanged) "li' = li" "r \<noteq> Inr True"
    | (raised) key found calls where "r = Inr True" "li_securityLevel li < target" "target \<le> MaxSecurityLevel"
        "key_PublicKey K (li_identity li) = Inr key"
        "FindOffset (kl_encode_block K) (kl_sha1 K) key target (li_keyOffset li) stop = Some (Inr (Some found), calls)"
        "li' = li\<lparr>li_securityLevel := target, li_keyOffset := found\<rparr>"
proof (cases "target \<le> li_securityLevel li \<or> target > MaxSecurityLevel")
  case True
  with assms that(1) show ?thesis
    by (auto simp: IncreaseSecurityLevel_def split: if_splits)
next
  case False
  show ?thesis
  proof (cases "key_PublicKey K (li_identity li)")
    case (Inl e)
    with False assms that(1) show ?thesis
      by (auto simp: IncreaseSecurityLevel_def)
  next
    case (Inr key)
    with False assms obtain r1 calls where
      "FindOffset (kl_encode_block K) (kl_sha1 K) key target (li_keyOffset li) stop = Some (r1, calls)"
      by (auto simp: IncreaseSecurityLevel_def)
    moreover from this have "(r, li') = (case r1 of
        Inl e \<Rightarrow> (Inl e, li)
      | Inr None \<Rightarrow> (Inr False, li)
      | Inr (Some found) \<Rightarrow> (Inr True, li\<lparr>li_securityLevel := target, li_keyOffset := found\<rparr>))"
      using False assms Inr by (simp add: IncreaseSecurityLevel_def)
    ultimately show ?thesis
      using that False Inr by (auto simp: not_le not_less split: sum.splits option.splits)
  qed
qed

lemma Increase_valid:
  assumes "IncreaseSecurityLevel K target stop li = Some (r, li')" "identity_valid K li"
  shows "identity_valid K li' \<and> li_identity li' = li_identity li \<and>
    (if r = Inr True then li_securityLevel li' = target \<and> li_securityLevel li < target else li' = li)"
  using assms(1)
proof (cases rule: Increase_cases)
  case unchanged
  with assms(2) show ?thesis by simp
next
  case (raised key found calls)
  have "check_offset K li' = Some (Inr ())"
    using raised FindOffset_valid [OF raised(5)] by (intro check_offset_valid) simp_all
  with raised show ?thesis
    by (simp add: identity_valid_def)
qed

text \<open>How a program comes by an identity: it creates one, loads it, or raises the level of one it has.\<close>

inductive identity_reachable :: "'key KeyLibrary \<Rightarrow> 'key LocalIdentity \<Rightarrow> bool" for K where
  created: "identity_Create K key level = Some (Inr li) \<Longrightarrow> identity_reachable K li"
| loaded: "identity_Load K path fs = Some (Inr li, fs') \<Longrightarrow> identity_reachable K li"
| raised: "identity_reachable K li \<Longrightarrow> IncreaseSecurityLevel K target stop li = Some (r, li') \<Longrightarrow>
    identity_reachable K li'"

lemma reachable_valid: "identity_reachable K li \<Longrightarrow> identity_valid K li"
proof (induction rule: identity_reachable.induct)
  case (loaded path fs li fs')
  then obtain data where "parse_identity K data = Some (Inr li)"
    by (auto simp: identity_Load_def split: prod.splits sum.splits)
  then show ?case by (rule parse_valid)
qed (simp_all add: Create_valid Increase_valid)

section \<open>Reading back a saved identity\<close>

text \<open>
  What OpenSSL is documented to do for this key: its PEM text is read back as the key, which is a
  P-256 key with a private part.
\<close>

definition key_text_ok :: "'key KeyLibrary \<Rightarrow> 'key \<Rightarrow> string \<Rightarrow> bool" where
  "key_text_ok K key pem \<longleftrightarrow>
     kl_write_pem K key = Some pem \<and> kl_read_pem K pem = Some key \<and> ValidateKey K key = Inr () \<and>
     pem \<noteq> [] \<and> length pem \<le> 1000000"

lemma decode_encoded_identity:
  assumes "base64_blocks (kl_encode_block K) (kl_decode_block K)" "key_text_ok K key pem"
  shows "\<exists>encoded. EncodeIdentity K key = Inr encoded \<and> DecodeIdentity K encoded = Inr key \<and> encoded \<noteq> []"
proof -
  have "length (bytes_of_chars pem) \<le> 1610612733"
    using assms(2) by (simp add: key_text_ok_def)
  then obtain encoded where e: "Base64Encode (kl_encode_block K) (bytes_of_chars pem) = Inr encoded"
    "Base64Decode (kl_decode_block K) encoded = Inr (bytes_of_chars pem)"
    using base64_blocks.coded [OF assms(1)] by blast
  moreover have "encoded \<noteq> []"
  proof
    assume "encoded = []"
    then have "bytes_of_chars pem = []"
      using e(2) by (simp add: Base64Decode_def)
    with assms(2) show False
      by (simp add: key_text_ok_def)
  qed
  ultimately show ?thesis
    using assms(2)
    by (auto simp: EncodeIdentity_def PrivateKeyPem_def DecodeIdentity_def FromPrivateKeyPem_def LoadPrivateKey_def
        key_text_ok_def INT_MAX_def)
qed

lemma number_line:
  assumes "n < 2 ^ 64"
  shows "identity_ParseUnsigned (to_string n) name = Inr n" "last (to_string n) \<noteq> CR"
    "LF \<notin> set (to_string n)"
proof -
  show "identity_ParseUnsigned (to_string n) name = Inr n"
    using from_chars_to_string [OF assms] by (simp add: identity_ParseUnsigned_def)
  have no: "CR \<notin> set (to_string n)" "LF \<notin> set (to_string n)"
    by (auto intro!: to_string_no simp: is_digit_def)
  then show "last (to_string n) \<noteq> CR" "LF \<notin> set (to_string n)"
    using last_in_set [OF to_string_nonempty, of n] by metis+
qed

lemma parse_identity_text:
  assumes valid: "identity_valid K li" and enc: "DecodeIdentity K encoded = Inr (li_identity li)"
    "encoded \<noteq> []" "LF \<notin> set encoded" "CR \<notin> set encoded"
  shows "parse_identity K (identity_text li encoded) = Some (Inr li)"
proof -
  let ?level = "to_string (unat (li_securityLevel li))" and ?offset = "to_string (unat (li_keyOffset li))"
  have small: "unat (li_securityLevel li) < 2 ^ 64" "unat (li_keyOffset li) < 2 ^ 64"
    using unsigned_less [of "li_securityLevel li", where 'a = nat] unsigned_less [of "li_keyOffset li", where 'a = nat]
    by simp_all
  have top: "unat (li_securityLevel li) \<le> unat MaxSecurityLevel"
    using valid by (simp add: identity_valid_def word_le_nat_alt)
  have "getlines (identity_text li encoded) =
      [''# ts-cli TeamSpeak identity'', ''security_level='' @ ?level, ''key_offset='' @ ?offset, ''private_key='' @ encoded]"
    unfolding identity_text_def using enc number_line(3) small by (intro getlines_concat) simp
  moreover have "load_identity_line ''# ts-cli TeamSpeak identity'' s = Inr s" for s
    by (cases s) (simp add: load_identity_line_def pop_CR_def)
  moreover have "load_identity_line (''security_level='' @ ?level) (l, k, p) = Inr (Some (li_securityLevel li), k, p)" for l k p
    using number_line [OF small(1)] equals_split [of "''security_level''" ?level] top
    by (simp add: load_identity_line_def pop_CR_def)
  moreover have "load_identity_line (''key_offset='' @ ?offset) (l, k, p) = Inr (l, Some (li_keyOffset li), p)" for l k p
    using number_line [OF small(2)] equals_split [of "''key_offset''" ?offset]
    by (simp add: load_identity_line_def pop_CR_def)
  moreover have "last encoded \<noteq> CR"
    using enc(2,4) last_in_set by fastforce
  then have "load_identity_line (''private_key='' @ encoded) (l, k, p) = Inr (l, k, encoded)" for l k p
    using equals_split [of "''private_key''" encoded] enc(2) by (simp add: load_identity_line_def pop_CR_def)
  ultimately show ?thesis
    using valid enc(1,2) by (cases li) (simp add: parse_identity_def identity_of_fields_def identity_valid_def Let_def)
qed

text \<open>
  C33: The local identity survives its file, and always reaches its level. Whichever way a program
  came by an identity - created, loaded, or raised any number of times, stopped or not - its level
  is at most 32 and its key offset reaches it, so where no system call fails \<open>Save\<close> returns, the
  file is readable by its owner only, and \<open>Load\<close> gives the same key, level and offset.
\<close>

theorem identity_saved_and_loaded:
  assumes reach: "identity_reachable K li"
    and blocks: "base64_blocks (kl_encode_block K) (kl_decode_block K)"
    and lines: "\<forall>data encoded. kl_encode_block K data = Some encoded \<longrightarrow> LF \<notin> set encoded \<and> CR \<notin> set encoded"
    and key: "key_text_ok K (li_identity li) pem"
    and size: "\<forall>encoded. EncodeIdentity K (li_identity li) = Inr encoded \<longrightarrow>
      length (identity_text li encoded) \<le> MaxIdentitySize"
    and env: "no_failures fs" "fresh_temporary fs path"
  shows "\<exists>encoded fs' fs''. identity_Save K path li fs = Some (Inr (), fs') \<and>
    fs_files fs' = (fs_files fs)(path \<mapsto> RegularFile (identity_text li encoded) True) \<and>
    identity_Load K path fs' = Some (Inr li, fs'')"
proof -
  note valid = reachable_valid [OF reach]
  obtain encoded where e: "EncodeIdentity K (li_identity li) = Inr encoded"
    "DecodeIdentity K encoded = Inr (li_identity li)" "encoded \<noteq> []"
    using decode_encoded_identity [OF blocks key] by blast
  then have clean: "LF \<notin> set encoded" "CR \<notin> set encoded"
    using lines by (auto simp: EncodeIdentity_def Base64Encode_def res_bind_eq_Inr split: if_splits option.splits)
  let ?text = "identity_text li encoded"
  obtain fs' where saved: "WriteSecureFile path ?text fs = (Inr (), fs')" "no_failures fs'"
    "fs_files fs' = (fs_files fs)(path \<mapsto> RegularFile ?text True)"
    using write_returns [OF env] by blast
  then obtain fs'' where read: "ReadSecureFile path MaxIdentitySize fs' = (Inr (Some ?text), fs'')"
    using read_returns [of fs' path ?text True] size e(1) by auto
  have "identity_Save K path li fs = Some (Inr (), fs')"
    using valid saved e(1) by (simp add: identity_Save_def identity_valid_def not_less)
  moreover have "identity_Load K path fs' = Some (Inr li, fs'')"
    using parse_identity_text [OF valid e(2,3) clean] read
    by (simp add: identity_Load_def ReadIdentityFile_def op_bind_run)
  ultimately show ?thesis
    using saved(3) by blast
qed

text \<open>
  A library of one key, in which every offset reaches every level, computed by the reference
  coder of \<open>Base64\<close>.
\<close>

definition one_key :: "unit KeyLibrary" where
  "one_key = \<lparr>kl_read_pem = (\<lambda>_. Some ()), kl_write_pem = (\<lambda>_. Some ''PEM''), kl_is_ec = (\<lambda>_. True),
     kl_group = (\<lambda>_. Some ''P-256''), kl_has_private = (\<lambda>_. True), kl_x = (\<lambda>_. Some [1]), kl_y = (\<lambda>_. Some [2]),
     kl_sign = (\<lambda>_ _. None), kl_sha1 = (\<lambda>_. Some (replicate 20 0)),
     kl_encode_block = (\<lambda>data. Some (ref_encode data)), kl_decode_block = ref_decode\<rparr>"

lemma one_key_valid:
  "identity_reachable one_key \<lparr>li_identity = (), li_securityLevel = 8, li_keyOffset = 0\<rparr>"
proof -
  have "leading_zeros (hash_bits (replicate 20 0)) = 160"
    by (simp add: leading_zeros_def hash_bits_def upt_rec numeral_eq_Suc)
  then have level: "level_of_hash (replicate 20 0) 0 = Some 160"
    by (simp add: level_of_hash_bits)
  obtain pk where pk: "key_PublicKey one_key () = Inr pk" "length pk < 100"
    by (simp add: key_PublicKey_def one_key_def Identity_PublicKey_def WriteDerInteger_def WriteDerLength_def)
  then obtain encoded where enc: "Base64Encode (\<lambda>data. Some (ref_encode data)) pk = Inr encoded"
    using rfc4648.coded [of pk] by auto
  have "GetLevel (\<lambda>_. Some (replicate 20 0)) encoded 0 = Some (Inr 160)"
    by (simp add: GetLevel_def Sha1_def level)
  then have "FindOffset_from_zero (\<lambda>data. Some (ref_encode data)) (\<lambda>_. Some (replicate 20 0)) pk 8 = Some (Inr 0)"
    by (simp add: FindOffset_from_zero_def FindOffset_def enc find_loop.simps)
  then have "identity_Create one_key () 8 = Some (Inr \<lparr>li_identity = (), li_securityLevel = 8, li_keyOffset = 0\<rparr>)"
    using pk by (simp add: identity_Create_def MaxSecurityLevel_def) (simp add: one_key_def)
  then show ?thesis
    by (rule identity_reachable.created)
qed

lemma ref_encode_one_line: "LF \<notin> set (ref_encode data) \<and> CR \<notin> set (ref_encode data)"
proof -
  have "LF \<notin> set alphabet" "CR \<notin> set alphabet" "length alphabet = 64"
    by code_simp+
  then have "digit n \<noteq> LF" "digit n \<noteq> CR" for n
    using nth_mem [of "n mod 64" alphabet] unfolding digit_def by (metis mod_less_divisor zero_less_numeral)+
  then have "LF \<notin> set (digits4 n)" "CR \<notin> set (digits4 n)" for n
    by (auto simp: digits4_def dest: sym)
  then show ?thesis
    by (induction data rule: ref_encode.induct) (auto dest: in_set_takeD)
qed

theorem identity_saved_and_loaded_witness:
  "\<exists>fs' fs''. identity_Save one_key ''identity'' \<lparr>li_identity = (), li_securityLevel = 8, li_keyOffset = 0\<rparr> empty_files =
      Some (Inr (), fs') \<and>
    identity_Load one_key ''identity'' fs' = Some (Inr \<lparr>li_identity = (), li_securityLevel = 8, li_keyOffset = 0\<rparr>, fs'')"
proof -
  let ?li = "\<lparr>li_identity = (), li_securityLevel = 8, li_keyOffset = 0\<rparr> :: unit LocalIdentity"
  have blocks: "base64_blocks (kl_encode_block one_key) (kl_decode_block one_key)"
    by (simp add: one_key_def rfc4648.base64_blocks_axioms)
  moreover have "\<forall>data encoded. kl_encode_block one_key data = Some encoded \<longrightarrow> LF \<notin> set encoded \<and> CR \<notin> set encoded"
    using ref_encode_one_line by (auto simp: one_key_def)
  moreover have "key_text_ok one_key (li_identity ?li) ''PEM''"
    by (simp add: key_text_ok_def one_key_def ValidateKey_def)
  moreover have "length (identity_text ?li encoded) \<le> MaxIdentitySize"
    if "EncodeIdentity one_key (li_identity ?li) = Inr encoded" for encoded
  proof -
    have "encoded = ref_encode (bytes_of_chars ''PEM'')"
      using that by (auto simp: EncodeIdentity_def PrivateKeyPem_def Base64Encode_def one_key_def split: if_splits)
    then have "length encoded = 4"
      by (simp add: ref_encode_length)
    then show ?thesis
      by (simp add: identity_text_def MaxIdentitySize_def to_string.simps)
  qed
  moreover note empty_files_ok
  ultimately show ?thesis
    using identity_saved_and_loaded [OF one_key_valid, of "''PEM''" empty_files "''identity''"] by blast
qed

end
