(* ===== verification/Char_Class.thy ===== *)
theory Char_Class
  imports Text_Format
begin

text \<open>
  The character classes of \<open><cctype>\<close> in the C locale, which the client's text input is read
  with: white space, lower case, and the value of the printed decimal digits.
\<close>

definition isspace :: "char \<Rightarrow> bool" where
  "isspace c \<longleftrightarrow> c = CHR '' '' \<or> ((9 :: nat) \<le> of_char c \<and> of_char c \<le> (13 :: nat))"

definition tolower :: "char \<Rightarrow> char" where
  "tolower c = (if (65 :: nat) \<le> of_char c \<and> of_char c \<le> (90 :: nat) then char_of (of_char c + (32 :: nat)) else c)"

lemma digit_chars:
  "digit_char 0 = CHR ''0''" "digit_char (Suc 0) = CHR ''1''" "digit_char 8 = CHR ''8''" "digit_char 9 = CHR ''9''"
  by code_simp+

lemma digit_not_space: "is_digit c \<Longrightarrow> \<not> isspace c"
  by (auto simp: is_digit_def isspace_def)

text \<open>A second lower-casing changes nothing.\<close>

lemma tolower_idem [simp]: "tolower (tolower c) = tolower c"
proof (cases "(65 :: nat) \<le> of_char c \<and> of_char c \<le> (90 :: nat)")
  case True
  then have "(of_char (char_of (of_char c + (32 :: nat))) :: nat) = of_char c + 32"
    by (simp add: of_char_of)
  with True show ?thesis by (simp add: tolower_def)
next
  case False
  then show ?thesis by (simp only: tolower_def if_False)
qed

text \<open>Removing the characters of a class at both ends.\<close>

definition strip :: "(char \<Rightarrow> bool) \<Rightarrow> string \<Rightarrow> string" where
  "strip P s = rev (dropWhile P (rev (dropWhile P s)))"

lemma strip_ends: "strip P s = [] \<or> \<not> P (hd (strip P s)) \<and> \<not> P (last (strip P s))"
proof -
  let ?t = "dropWhile P s"
  have "rev (dropWhile P (rev ?t)) = take (length (dropWhile P (rev ?t))) ?t"
    by (metis append_eq_conv_conj length_rev rev_append rev_rev_ident takeWhile_dropWhile_id)
  moreover have "?t \<noteq> [] \<Longrightarrow> \<not> P (hd ?t)"
    by (rule hd_dropWhile)
  moreover have "dropWhile P (rev ?t) \<noteq> [] \<Longrightarrow> \<not> P (hd (dropWhile P (rev ?t)))"
    by (rule hd_dropWhile)
  ultimately show ?thesis
    unfolding strip_def by (metis hd_take last_rev length_greater_0_conv rev_is_Nil_conv take_eq_Nil)
qed

lemma strip_fixed: "s = [] \<or> \<not> P (hd s) \<and> \<not> P (last s) \<Longrightarrow> strip P s = s"
proof -
  assume s: "s = [] \<or> \<not> P (hd s) \<and> \<not> P (last s)"
  then have "dropWhile P s = s"
    by (cases s) auto
  moreover have "dropWhile P (rev s) = rev s"
    using s by (cases s rule: rev_cases) auto
  ultimately show ?thesis
    by (simp add: strip_def)
qed

lemma strip_idem [simp]: "strip P (strip P s) = strip P s"
  using strip_ends [of P s] by (intro strip_fixed) auto

lemma strip_front: "P c \<Longrightarrow> strip P (c # s) = strip P s"
  by (simp add: strip_def)

end
