(* ===== verification/Config_Setup.thy ===== *)
theory Config_Setup
  imports Config Identity_Store Handshake_Commands Char_Class
begin

text \<open>
  The first run: \<open>ConfigSetup\<close> (\<open>config/src/setup.cpp\<close>) asks for the client profile on a
  terminal, keeps or creates the local identity and writes the configuration. The terminal is the
  list of the lines still to be typed and the text printed so far; \<open>generated\<close> is what the
  constructor of a new \<open>Identity\<close> answers, and \<open>read_file\<close> what \<open>ImportPem\<close> reads.

  The loops that ask again end with the input. Setup always returns, leaves every file as it was
  when the input ends early, and never replaces an identity that is there.
\<close>

section \<open>Prompts\<close>

record SetupIO =
  io_input :: "string list"
  io_output :: string
  io_files :: FileSystem

definition say :: "string \<Rightarrow> SetupIO \<Rightarrow> SetupIO" where
  "say s io = io\<lparr>io_output := io_output io @ s\<rparr>"

definition end_of_input :: error where
  "end_of_input = RuntimeError ''Unexpected end of input during configuration''"

text \<open>\<open>std::getline( input, value )\<close>, and the \<open>throw\<close> where it fails.\<close>

definition read_line :: "(SetupIO, string) op" where
  "read_line io =
     (case io_input io of
        [] \<Rightarrow> (Inl end_of_input, io)
      | value # rest \<Rightarrow> (Inr value, io\<lparr>io_input := rest\<rparr>))"

definition Prompt :: "string \<Rightarrow> string \<Rightarrow> (SetupIO, string) op" where
  "Prompt label defaultValue =
     op_bind (op_modify (say (label @ (if defaultValue \<noteq> [] then '' ['' @ defaultValue @ '']'' else []) @ '': ''))) (\<lambda>_.
     op_bind read_line (\<lambda>value. op_return (if value = [] then defaultValue else value)))"

text \<open>The loop asks again on the input that is left; \<open>lines\<close> is \<open>io_input\<close>.\<close>

fun yes_no_loop :: "string \<Rightarrow> bool \<Rightarrow> string list \<Rightarrow> SetupIO \<Rightarrow> bool result \<times> SetupIO" where
  "yes_no_loop label defaultValue [] io =
     (Inl end_of_input, (say (label @ (if defaultValue then '' [Y/n]: '' else '' [y/N]: '')) io)\<lparr>io_input := []\<rparr>)"
| "yes_no_loop label defaultValue (value # lines) io =
     (let io = (say (label @ (if defaultValue then '' [Y/n]: '' else '' [y/N]: '')) io)\<lparr>io_input := lines\<rparr> in
      if value = [] then (Inr defaultValue, io)
      else if length value = 1 \<and> tolower (hd value) = CHR ''y'' then (Inr True, io)
      else if length value = 1 \<and> tolower (hd value) = CHR ''n'' then (Inr False, io)
      else yes_no_loop label defaultValue lines (say (''Please enter y or n.'' @ [LF]) io))"

definition PromptYesNo :: "string \<Rightarrow> bool \<Rightarrow> (SetupIO, bool) op" where
  "PromptYesNo label defaultValue io = yes_no_loop label defaultValue (io_input io) io"

definition setup_ParseUnsigned :: "string \<Rightarrow> nat result" where
  "setup_ParseUnsigned value =
     (let hex = length value \<ge> 2 \<and> value ! 0 = CHR ''0'' \<and> (value ! 1 = CHR ''x'' \<or> value ! 1 = CHR ''X'');
          value = (if hex then drop 2 value else value)
      in if value = [] then Inl (RuntimeError ''Empty integer'')
         else case (if hex then from_chars_hex (2 ^ 64) value else from_chars (2 ^ 64) value) of
             (Some result, []) \<Rightarrow> Inr result
           | _ \<Rightarrow> Inl (RuntimeError ''Invalid integer''))"

fun unsigned_loop :: "string \<Rightarrow> nat \<Rightarrow> nat \<Rightarrow> string list \<Rightarrow> SetupIO \<Rightarrow> nat result \<times> SetupIO" where
  "unsigned_loop label defaultValue maximum [] io =
     (Inl end_of_input, (say (label @ '' ['' @ to_string defaultValue @ '']: '') io)\<lparr>io_input := []\<rparr>)"
| "unsigned_loop label defaultValue maximum (value # lines) io =
     (let io = (say (label @ '' ['' @ to_string defaultValue @ '']: '') io)\<lparr>io_input := lines\<rparr> in
      if value = [] then (Inr defaultValue, io)
      else case setup_ParseUnsigned value of
          Inr parsed \<Rightarrow>
            if parsed > maximum then
              unsigned_loop label defaultValue maximum lines (say (''Value is too large.'' @ [LF]) io)
            else (Inr parsed, io)
        | Inl e \<Rightarrow>
            unsigned_loop label defaultValue maximum lines
              (say (''Please enter a decimal or hexadecimal integer.'' @ [LF]) io))"

definition PromptUnsigned :: "string \<Rightarrow> nat \<Rightarrow> nat \<Rightarrow> (SetupIO, nat) op" where
  "PromptUnsigned label defaultValue maximum io = unsigned_loop label defaultValue maximum (io_input io) io"

fun import_loop ::
  "'key KeyLibrary \<Rightarrow> (string \<Rightarrow> FileRead) \<Rightarrow> string list \<Rightarrow> SetupIO \<Rightarrow> 'key result \<times> SetupIO" where
  "import_loop K read_file [] io = (Inl end_of_input, (say ''Private key PEM path: '' io)\<lparr>io_input := []\<rparr>)"
| "import_loop K read_file (path # lines) io =
     (let io = (say ''Private key PEM path: '' io)\<lparr>io_input := lines\<rparr> in
      if path = [] then import_loop K read_file lines (say (''A PEM path is required.'' @ [LF]) io)
      else case ImportPem K read_file path of
          Inr identity \<Rightarrow> (Inr identity, io)
        | Inl e \<Rightarrow> import_loop K read_file lines (say (''Could not import identity: '' @ what e @ [LF]) io))"

definition PromptIdentity ::
  "'key KeyLibrary \<Rightarrow> 'key result \<Rightarrow> (string \<Rightarrow> FileRead) \<Rightarrow> (SetupIO, 'key) op" where
  "PromptIdentity K generated read_file =
     op_bind (PromptYesNo ''Generate a new TeamSpeak identity'' True) (\<lambda>generate.
     if generate then
       op_bind (op_modify (say (''Generating new P-256 identity...'' @ [LF]))) (\<lambda>_. op_lift generated)
     else (\<lambda>io. import_loop K read_file (io_input io) io))"

section \<open>Run\<close>

text \<open>The prompts for the profile.\<close>

definition prompt_version :: "ClientVersionProfile \<Rightarrow> (SetupIO, ClientVersionProfile) op" where
  "prompt_version version =
     op_bind (op_modify (say ([LF] @ ''Enter the TeamSpeak wire client profile.'' @ [LF] @
       ''These values are sent exactly as configured.'' @ [LF] @ [LF]))) (\<lambda>_.
     op_bind (PromptUnsigned ''Init1 client version'' (unat (vp_initVersion version)) (2 ^ 32 - 1)) (\<lambda>initVersion.
     op_bind (Prompt ''Client version'' (vp_version version)) (\<lambda>text.
     op_bind (Prompt ''Client platform'' (vp_platform version)) (\<lambda>platform.
     op_bind (Prompt (''Client version signature ('' @ CHR 0x27 # ''-'' @ CHR 0x27 # '' for empty)'') (vp_signature version)) (\<lambda>signature.
     op_return
       \<lparr>vp_initVersion = of_nat initVersion, vp_version = text, vp_platform = platform,
        vp_signature = (if signature = ''-'' then [] else signature)\<rparr>)))))"

definition prompt_profile :: "(SetupIO, ClientProfile) op" where
  "prompt_profile =
     op_bind (op_modify (say (''No ts-cli configuration found.'' @ [LF] @ ''Starting first-run setup.'' @ [LF] @ [LF]))) (\<lambda>_.
     op_bind (Prompt ''Nickname'' (cp_nickname DefaultProfile)) (\<lambda>nickname.
     op_bind (op_modify (say [LF])) (\<lambda>_.
     op_bind (PromptYesNo ''Use the default TeamSpeak client version'' True) (\<lambda>useDefaultVersion.
     op_bind (if useDefaultVersion then op_return (cp_version_profile DefaultProfile)
              else prompt_version (cp_version_profile DefaultProfile)) (\<lambda>version.
     op_bind (op_modify (say [LF])) (\<lambda>_.
     op_return \<lparr>cp_nickname = nickname, cp_version_profile = version\<rparr>))))))"

text \<open>\<open>output << path\<close> quotes the path.\<close>

definition quoted :: "string \<Rightarrow> string" where
  "quoted s = CHR 0x22 # concat (map (\<lambda>c. if c = CHR 0x22 \<or> c = backslash then [backslash, c] else [c]) s) @ [CHR 0x22]"

definition set_files :: "FileSystem \<Rightarrow> SetupIO \<Rightarrow> SetupIO" where
  "set_files fs io = io\<lparr>io_files := fs\<rparr>"

text \<open>\<open>IdentityStore::Create\<close>, then \<open>Save\<close>.\<close>

definition create_and_save ::
  "'key KeyLibrary \<Rightarrow> string \<Rightarrow> 'key \<Rightarrow> u8 \<Rightarrow> FileSystem \<Rightarrow> (unit result \<times> FileSystem) option" where
  "create_and_save K identityPath identity securityLevel fs =
     (case identity_Create K identity securityLevel of
        None \<Rightarrow> None
      | Some (Inl e) \<Rightarrow> Some (Inl e, fs)
      | Some (Inr localIdentity) \<Rightarrow> identity_Save K identityPath localIdentity fs)"

definition prompt_new_identity ::
  "'key KeyLibrary \<Rightarrow> 'key result \<Rightarrow> (string \<Rightarrow> FileRead) \<Rightarrow> (SetupIO, 'key \<times> u8) op" where
  "prompt_new_identity K generated read_file =
     op_bind (PromptUnsigned ''Identity security level'' (unat DefaultSecurityLevel) (unat MaxSecurityLevel)) (\<lambda>securityLevel.
     op_bind (op_modify (say [LF])) (\<lambda>_.
     op_bind (PromptIdentity K generated read_file) (\<lambda>identity.
     op_bind (op_modify (say ([LF] @ ''Calculating identity key offset...'' @ [LF]))) (\<lambda>_.
     op_return (identity, of_nat securityLevel)))))"

definition setup_identity ::
  "'key KeyLibrary \<Rightarrow> 'key result \<Rightarrow> (string \<Rightarrow> FileRead) \<Rightarrow> string \<Rightarrow> SetupIO \<Rightarrow> (unit result \<times> SetupIO) option" where
  "setup_identity K generated read_file identityPath io =
     (case path_exists identityPath (io_files io) of
        (Inl e, _) \<Rightarrow> Some (Inl e, io)
      | (Inr True, _) \<Rightarrow>
          (case identity_Load K identityPath (io_files io) of
             None \<Rightarrow> None
           | Some (Inl e, fs) \<Rightarrow> Some (Inl e, set_files fs io)
           | Some (Inr _, fs) \<Rightarrow>
               Some (Inr (), say (''Using existing TeamSpeak identity:'' @ [LF] @ ''  '' @ quoted identityPath @ [LF]) (set_files fs io)))
      | (Inr False, _) \<Rightarrow>
          (case prompt_new_identity K generated read_file io of
             (Inl e, io) \<Rightarrow> Some (Inl e, io)
           | (Inr (identity, securityLevel), io) \<Rightarrow>
               map_option (\<lambda>(r, fs). (r, set_files fs io))
                 (create_and_save K identityPath identity securityLevel (io_files io))))"

definition write_config :: "'f Float \<Rightarrow> string \<Rightarrow> ClientProfile \<Rightarrow> (FileSystem, 'f Config) op" where
  "write_config F configPath profile fs =
     (case config_Create F profile of
        Inl e \<Rightarrow> (Inl e, fs)
      | Inr config \<Rightarrow>
          (case config_Save_to F configPath (config, fs) of
             (Inl e, (_, fs)) \<Rightarrow> (Inl e, fs)
           | (Inr _, (config, fs)) \<Rightarrow> (Inr config, fs)))"

definition setup_Run ::
  "'f Float \<Rightarrow> 'key KeyLibrary \<Rightarrow> 'key result \<Rightarrow> (string \<Rightarrow> FileRead) \<Rightarrow> string \<Rightarrow> string \<Rightarrow> SetupIO \<Rightarrow>
     ('f Config result \<times> SetupIO) option" where
  "setup_Run F K generated read_file configPath identityPath io =
     (case prompt_profile io of
        (Inl e, io) \<Rightarrow> Some (Inl e, io)
      | (Inr profile, io) \<Rightarrow>
          (case setup_identity K generated read_file identityPath io of
             None \<Rightarrow> None
           | Some (Inl e, io) \<Rightarrow> Some (Inl e, io)
           | Some (Inr _, io) \<Rightarrow>
               Some (op_bind (op_zoom io_files set_files (write_config F configPath profile)) (\<lambda>config.
                 op_bind (op_modify (say (''Configuration written to:'' @ [LF] @ ''  '' @ quoted configPath @ [LF] @
                   ''Identity written to:'' @ [LF] @ ''  '' @ quoted identityPath @ [LF] @ [LF]))) (\<lambda>_.
                 op_return config)) io)))"

definition CreateDefault ::
  "'f Float \<Rightarrow> 'key KeyLibrary \<Rightarrow> 'key result \<Rightarrow> string \<Rightarrow> string \<Rightarrow> FileSystem \<Rightarrow> ('f Config result \<times> FileSystem) option" where
  "CreateDefault F K generated configPath identityPath fs =
     (case
        (case path_exists identityPath fs of
           (Inl e, _) \<Rightarrow> Some (Inl e, fs)
         | (Inr True, _) \<Rightarrow> map_option (\<lambda>(r, fs). (res_bind r (\<lambda>_. Inr ()), fs)) (identity_Load K identityPath fs)
         | (Inr False, _) \<Rightarrow>
             (case generated of
                Inl e \<Rightarrow> Some (Inl e, fs)
              | Inr identity \<Rightarrow> create_and_save K identityPath identity DefaultSecurityLevel fs)) of
        None \<Rightarrow> None
      | Some (Inl e, fs) \<Rightarrow> Some (Inl e, fs)
      | Some (Inr _, fs) \<Rightarrow> Some (write_config F configPath DefaultProfile fs))"

section \<open>Setup returns\<close>

lemma find_result: "FindOffset encode_block sha1 key level start stop \<noteq> None"
  by (simp add: FindOffset_def find_loop_returns GetLevel_returns del: not_None_eq split: sum.splits)

lemma check_offset_returns: "check_offset K li \<noteq> None"
  by (simp add: check_offset_def ValidateOffset_def GetLevel_returns del: not_None_eq split: sum.splits)

lemma identity_Load_returns: "identity_Load K path fs \<noteq> None"
proof -
  have "parse_identity K data \<noteq> None" for data
    by (auto simp: parse_identity_def identity_of_fields_def Let_def check_offset_returns simp del: not_None_eq
        split: sum.splits prod.splits option.splits)
  then show ?thesis
    by (simp add: identity_Load_def del: not_None_eq split: prod.splits sum.splits)
qed

lemma create_and_save_returns: "create_and_save K path identity level fs \<noteq> None"
proof -
  have "FindOffset_from_zero encode_block sha1 key level \<noteq> None" for encode_block sha1 key
    using find_result [of encode_block sha1 key level 0 "\<lambda>_. False"]
    by (auto simp: FindOffset_from_zero_def split: option.splits sum.splits prod.splits)
  then have "identity_Create K identity level \<noteq> None"
    by (simp add: identity_Create_def split: sum.splits)
  moreover have "identity_Save K path li fs \<noteq> None" for li
    using check_offset_returns [of K li] by (auto simp: identity_Save_def split: option.splits)
  ultimately show ?thesis
    by (auto simp: create_and_save_def split: option.splits sum.splits)
qed

section \<open>What the prompts leave alone\<close>

lemma read_line_files: "op_keeps (\<lambda>io. io_files io = fs) read_line"
  by (auto simp: op_keeps_def read_line_def split: list.splits)

lemma say_files [simp]: "io_files (say s io) = io_files io"
  by (simp add: say_def)

lemma modify_say_files: "op_keeps (\<lambda>io. io_files io = fs) (op_modify (say s))"
  by (simp add: op_keeps_def)

lemma yes_no_files: "yes_no_loop label d ls io = (r, io') \<Longrightarrow> io_files io' = io_files io"
  by (induction label d ls io arbitrary: r io' rule: yes_no_loop.induct) (auto simp: Let_def split: if_splits)

lemma unsigned_files: "unsigned_loop label d m ls io = (r, io') \<Longrightarrow> io_files io' = io_files io"
  by (induction label d m ls io arbitrary: r io' rule: unsigned_loop.induct)
    (auto simp: Let_def split: if_splits sum.splits)

lemma import_files: "import_loop K read_file ls io = (r, io') \<Longrightarrow> io_files io' = io_files io"
  by (induction K read_file ls io arbitrary: r io' rule: import_loop.induct)
    (auto simp: Let_def split: if_splits sum.splits)

lemma keeps_files: "(\<And>io r io'. m io = (r, io') \<Longrightarrow> io_files io' = io_files io) \<Longrightarrow> op_keeps (\<lambda>io. io_files io = fs) m"
  unfolding op_keeps_def by (metis prod.collapse)

lemma prompt_files:
  "op_keeps (\<lambda>io. io_files io = fs) (Prompt label d)"
  "op_keeps (\<lambda>io. io_files io = fs) (PromptYesNo label b)"
  "op_keeps (\<lambda>io. io_files io = fs) (PromptUnsigned label n m)"
  "op_keeps (\<lambda>io. io_files io = fs) (\<lambda>io. import_loop K read_file (io_input io) io)"
proof -
  show "op_keeps (\<lambda>io. io_files io = fs) (Prompt label d)"
    unfolding Prompt_def by (intro op_keeps_bind modify_say_files read_line_files op_keeps_return)
  show "op_keeps (\<lambda>io. io_files io = fs) (PromptYesNo label b)"
    by (rule keeps_files) (simp add: PromptYesNo_def yes_no_files)
  show "op_keeps (\<lambda>io. io_files io = fs) (PromptUnsigned label n m)"
    by (rule keeps_files) (simp add: PromptUnsigned_def unsigned_files)
  show "op_keeps (\<lambda>io. io_files io = fs) (\<lambda>io. import_loop K read_file (io_input io) io)"
    by (rule keeps_files) (simp add: import_files)
qed

lemma PromptIdentity_files: "op_keeps (\<lambda>io. io_files io = fs) (PromptIdentity K generated read_file)"
  unfolding PromptIdentity_def
  by (intro op_keeps_bind) (auto intro!: prompt_files op_keeps_bind modify_say_files op_keeps_lift)

lemma prompt_profile_files: "op_keeps (\<lambda>io. io_files io = fs) prompt_profile"
  unfolding prompt_profile_def prompt_version_def
  by (intro op_keeps_bind prompt_files modify_say_files op_keeps_return)
    (auto intro!: op_keeps_bind prompt_files modify_say_files op_keeps_return)

section \<open>What setup does to the files\<close>

text \<open>
  \<open>mkstemp\<close> finds a name that is not taken, as long as there are finitely many files.
\<close>

definition mkstemp_fresh :: "FileSystem \<Rightarrow> bool" where
  "mkstemp_fresh fs \<longleftrightarrow>
     finite (dom (fs_files fs)) \<and>
     (\<forall>files path. finite (dom files) \<longrightarrow> files (path @ ''.tmp.'' @ fs_suffix fs files path) = None)"

lemma mkstemp_fresh_temporary: "mkstemp_fresh fs \<Longrightarrow> fresh_temporary fs path"
  by (simp add: mkstemp_fresh_def fresh_temporary_def temporary_name_def)

lemma set_file_fresh: "op_keeps mkstemp_fresh (set_file path node)"
  by (simp add: op_keeps_def set_file_def mkstemp_fresh_def)

lemma sys_call_fresh: "op_keeps mkstemp_fresh (sys_call call action path)"
  by (auto simp: op_keeps_def sys_call_def split: option.splits)

lemma read_fresh: "op_keeps mkstemp_fresh (ReadSecureFile path m)"
  unfolding ReadSecureFile_def
  by (intro op_keeps_bind sys_call_fresh op_keeps_gets)
    (auto intro!: op_keeps_bind sys_call_fresh set_file_fresh split: option.splits FileNode.splits)

lemma write_fresh: "op_keeps mkstemp_fresh (WriteSecureFile path data)"
proof -
  have body: "op_keeps mkstemp_fresh (op_bind (set_file t (Some (RegularFile [] True))) (\<lambda>_. write_temporary t path data))" for t
    unfolding write_temporary_def by (intro op_keeps_bind sys_call_fresh set_file_fresh)
  have "op_keeps mkstemp_fresh (\<lambda>fs. let t = temporary_name fs path in
      case op_bind (set_file t (Some (RegularFile [] True))) (\<lambda>_. write_temporary t path data) fs of
        (Inl e, fs) \<Rightarrow> (Inl e, snd (set_file t None fs)) | (Inr x, fs) \<Rightarrow> (Inr x, fs))"
  proof (rule op_keepsI)
    fix fs assume fs: "mkstemp_fresh fs"
    let ?t = "temporary_name fs path"
    obtain r fs' where run: "op_bind (set_file ?t (Some (RegularFile [] True))) (\<lambda>_. write_temporary ?t path data) fs = (r, fs')"
      by fastforce
    then have "mkstemp_fresh fs'"
      using op_keepsD' [OF body fs] by blast
    with run show "mkstemp_fresh (snd (let t = temporary_name fs path in
      case op_bind (set_file t (Some (RegularFile [] True))) (\<lambda>_. write_temporary t path data) fs of
        (Inl e, fs) \<Rightarrow> (Inl e, snd (set_file t None fs)) | (Inr x, fs) \<Rightarrow> (Inr x, fs)))"
      using op_keepsD [OF set_file_fresh, of fs'] by (simp add: Let_def split: sum.splits)
  qed
  then show ?thesis
    unfolding WriteSecureFile_def by (intro op_keeps_bind sys_call_fresh) auto
qed

text \<open>The identity's part: at most the identity's own file changes, and only when it was not there.\<close>

lemma identity_Load_content:
  "identity_Load K path fs = Some (r, fs') \<Longrightarrow> mkstemp_fresh fs \<Longrightarrow> file_content fs' = file_content fs \<and> mkstemp_fresh fs'"
  by (auto simp: identity_Load_def ReadIdentityFile_def op_bind_def op_throw_def op_return_def
      split: prod.splits sum.splits option.splits
      dest: files.read_content op_keepsD' [OF read_fresh])

lemma create_and_save_content:
  assumes "create_and_save K path identity level fs = Some (r, fs')" "mkstemp_fresh fs"
  shows "mkstemp_fresh fs' \<and>
    (r = Inr () \<and> (\<exists>data. file_content fs' = (file_content fs)(path \<mapsto> data)) \<or> (\<exists>e. r = Inl e) \<and> file_content fs' = file_content fs)"
proof -
  note fresh = mkstemp_fresh_temporary [OF assms(2), of path]
  have "(r, fs') = (Inl e, fs) \<Longrightarrow> ?thesis" for e
    using assms(2) by simp
  moreover have ?thesis if "WriteSecureFile path data fs = (r, fs')" for data
    using that files.write_done [OF fresh] files.write_failed [OF fresh] op_keepsD' [OF write_fresh assms(2) that]
    by (cases r) auto
  ultimately show ?thesis
    using assms(1)
    by (auto simp: create_and_save_def identity_Save_def op_bind_def op_lift_def
        split: option.splits sum.splits if_splits prod.splits)
qed

lemma path_exists_cases:
  obtains (fails) e where "path_exists path fs = (Inl e, fs)"
  | (there) "path_exists path fs = (Inr True, fs)" "fs_files fs path \<noteq> None"
  | (absent) "path_exists path fs = (Inr False, fs)" "fs_files fs path = None"
  by (cases "fs_fails fs Stat path"; cases "fs_files fs path = None") (simp_all add: path_exists_def)

lemma setup_identity_content:
  assumes "setup_identity K generated read_file ip io = Some (r, io')" "mkstemp_fresh (io_files io)"
  shows "mkstemp_fresh (io_files io') \<and>
    (r = Inr () \<and> fs_files (io_files io) ip = None \<and>
       (\<exists>data. file_content (io_files io') = (file_content (io_files io))(ip \<mapsto> data)) \<or>
     (r = Inr () \<longrightarrow> fs_files (io_files io) ip \<noteq> None) \<and> file_content (io_files io') = file_content (io_files io))"
proof (cases rule: path_exists_cases [of ip "io_files io"])
  case fails
  then show ?thesis using assms by (auto simp: setup_identity_def)
next
  case there
  then obtain rl fs' where load: "identity_Load K ip (io_files io) = Some (rl, fs')" "io_files io' = fs'"
    using assms(1) by (auto simp: setup_identity_def set_files_def split: option.splits sum.splits prod.splits)
  from identity_Load_content [OF load(1) assms(2)] there(2) load(2) show ?thesis
    by simp
next
  case absent
  obtain ra ioa where ask: "prompt_new_identity K generated read_file io = (ra, ioa)"
    by fastforce
  have "op_keeps (\<lambda>i. io_files i = io_files io) (prompt_new_identity K generated read_file)"
    unfolding prompt_new_identity_def
    by (intro op_keeps_bind prompt_files modify_say_files PromptIdentity_files op_keeps_return)
  from op_keepsD' [OF this _ ask] have same: "io_files ioa = io_files io"
    by simp
  have run: "setup_identity K generated read_file ip io =
      (case ra of
        Inl e \<Rightarrow> Some (Inl e, ioa)
      | Inr (identity, level) \<Rightarrow>
          map_option (\<lambda>(r, fs). (r, set_files fs ioa)) (create_and_save K ip identity level (io_files ioa)))"
    using absent ask by (simp add: setup_identity_def)
  show ?thesis
  proof (cases ra)
    case (Inl e)
    with run assms(1) have "r = Inl e" "io' = ioa"
      by simp_all
    with same assms(2) show ?thesis by simp
  next
    case (Inr p)
    obtain identity level where p: "p = (identity, level)" by fastforce
    then obtain fs' where "create_and_save K ip identity level (io_files io) = Some (r, fs')" "io_files io' = fs'"
      using run assms(1) Inr same
      by (cases "create_and_save K ip identity level (io_files io)") (auto simp: set_files_def)
    with create_and_save_content [of K ip identity level "io_files io" r fs', OF _ assms(2)] absent(2) show ?thesis
      by auto
  qed
qed

lemma write_config_content:
  assumes "write_config F path profile fs = (r, fs')" "mkstemp_fresh fs"
  shows "case r of
      Inr config \<Rightarrow> file_content fs' = (file_content fs)(path \<mapsto> config_text F config)
    | Inl e \<Rightarrow> file_content fs' = file_content fs"
proof (cases "config_Create F profile")
  case (Inl e)
  with assms(1) have "r = Inl e" "fs' = fs"
    by (simp_all add: write_config_def)
  then show ?thesis by simp
next
  case (Inr config)
  note fresh = mkstemp_fresh_temporary [OF assms(2), of path]
  show ?thesis
    using assms(1) Inr files.write_done [OF fresh] files.write_failed [OF fresh]
    by (auto simp: write_config_def config_Save_to_run split: prod.splits sum.splits)
qed

text \<open>
  C34: The first run always returns, for whatever lines are typed, and an identity survives it. It
  gives a configuration only once both files are there, the configuration file holding exactly
  that configuration. When it fails, by the end of the input or otherwise, the configuration
  file and every other file but a new identity are as they were. An identity file that was there
  is never replaced.
\<close>

theorem setup_keeps_identity:
  assumes fresh: "mkstemp_fresh (io_files io)" and paths: "configPath \<noteq> identityPath"
  shows "\<exists>r io'. setup_Run F K generated read_file configPath identityPath io = Some (r, io') \<and>
    (case r of
       Inr config \<Rightarrow> file_content (io_files io') configPath = Some (config_text F config) \<and>
         (fs_files (io_files io) identityPath = None \<longrightarrow> file_content (io_files io') identityPath \<noteq> None)
     | Inl e \<Rightarrow> \<forall>path. path \<noteq> identityPath \<longrightarrow> file_content (io_files io') path = file_content (io_files io) path) \<and>
    (fs_files (io_files io) identityPath \<noteq> None \<longrightarrow>
       file_content (io_files io') identityPath = file_content (io_files io) identityPath)"
proof -
  obtain rp io1 where asked: "prompt_profile io = (rp, io1)"
    by fastforce
  have same: "io_files io1 = io_files io"
    using op_keepsD' [OF prompt_profile_files refl asked] .
  show ?thesis
  proof (cases rp)
    case (Inl e)
    with asked same show ?thesis
      by (simp add: setup_Run_def)
  next
    case (Inr profile)
    have "setup_identity K generated read_file identityPath io1 \<noteq> None"
    proof (cases rule: path_exists_cases [of identityPath "io_files io1"])
      case absent
      then show ?thesis
        by (auto simp: setup_identity_def create_and_save_returns simp del: not_None_eq split: sum.splits prod.splits)
    next
      case there
      then show ?thesis
        using identity_Load_returns [of K identityPath "io_files io1"]
        by (auto simp: setup_identity_def split: option.splits sum.splits prod.splits)
    qed (simp add: setup_identity_def)
    then obtain ri io2 where id: "setup_identity K generated read_file identityPath io1 = Some (ri, io2)"
      by auto
    note changed = setup_identity_content [OF id, unfolded same, OF fresh]
    show ?thesis
    proof (cases ri)
      case (Inl e)
      with asked Inr id changed show ?thesis
        by (simp add: setup_Run_def)
    next
      case (Inr u)
      obtain rc fs' where wrote: "write_config F configPath profile (io_files io2) = (rc, fs')"
        by fastforce
      note content = write_config_content [OF wrote]
      show ?thesis
        using asked \<open>rp = Inr profile\<close> id Inr changed content paths wrote
        by (cases rc) (auto simp: setup_Run_def op_bind_def op_zoom_def set_files_def)
    qed
  qed
qed

text \<open>A file system whose \<open>mkstemp\<close> takes a suffix longer than every name there is.\<close>

definition growing_files :: FileSystem where
  "growing_files = \<lparr>fs_files = [''identity'' \<mapsto> RegularFile ''private_key=x'' True], fs_fails = (\<lambda>_ _. None),
     fs_suffix = (\<lambda>files _. replicate (Suc (Max (insert 0 (length ` dom files)))) CHR ''x'')\<rparr>"

lemma growing_files_fresh: "mkstemp_fresh growing_files"
proof -
  have "files (path @ ''.tmp.'' @ replicate (Suc (Max (insert 0 (length ` dom files)))) CHR ''x'') = None"
    if "finite (dom files)" for files :: "string \<Rightarrow> FileNode option" and path
  proof (rule ccontr)
    let ?n = "path @ ''.tmp.'' @ replicate (Suc (Max (insert 0 (length ` dom files)))) CHR ''x''"
    assume "files ?n \<noteq> None"
    then have "?n \<in> dom files"
      by (simp add: dom_def)
    then have "length ?n \<in> length ` dom files"
      by (rule imageI)
    then have "length ?n \<le> Max (insert 0 (length ` dom files))"
      using that by (intro Max_ge) simp_all
    then show False by simp
  qed
  then show ?thesis
    by (simp add: mkstemp_fresh_def growing_files_def)
qed

theorem setup_keeps_identity_witness:
  "\<exists>r io'. setup_Run whole_numbers one_key (Inr ()) (\<lambda>_. CannotOpen) ''config'' ''identity''
      \<lparr>io_input = [''bob''], io_output = [], io_files = growing_files\<rparr> = Some (r, io') \<and>
    file_content (io_files io') ''identity'' = Some ''private_key=x''"
proof -
  let ?io = "\<lparr>io_input = [''bob''], io_output = [], io_files = growing_files\<rparr>"
  have fresh: "mkstemp_fresh (io_files ?io)"
    by (simp add: growing_files_fresh)
  have paths: "''config'' \<noteq> ''identity''"
    by simp
  have there: "fs_files (io_files ?io) ''identity'' \<noteq> None" "file_content (io_files ?io) ''identity'' = Some ''private_key=x''"
    by (simp_all add: growing_files_def file_content_def)
  from setup_keeps_identity [OF fresh paths, of whole_numbers one_key "Inr ()" "\<lambda>_. CannotOpen"] there show ?thesis
    by (elim exE conjE) (intro exI conjI, assumption, simp)
qed

end
