(* ===== verification/User_Config.thy ===== *)
theory User_Config
  imports Secure_Files
begin

text \<open>
  What the client remembers about another user: \<open>UserConfigStore\<close>
  (\<open>config/src/user_config.cpp\<close>). There is one file per unique identity, whose name is the
  identity with every character that is not safe in a file name written as a percent sign and two
  hexadecimal digits. Settings that are the defaults have no file.

  The names of two users differ, so saving one user's settings never touches another's, and the
  settings are read back as they were saved.
\<close>

unbundle bit_operations_syntax

section \<open>The settings and their file name\<close>

record 'f UserConfig =
  uc_volumeDb :: 'f
  uc_muted :: bool

definition default_UserConfig :: "'f Float \<Rightarrow> 'f UserConfig" where
  "default_UserConfig F = \<lparr>uc_volumeDb = flt_lit F 0, uc_muted = False\<rparr>"

definition MaxUserConfigSize :: nat where
  "MaxUserConfigSize = 64 * 1024"

definition MinVolumeDb :: "'f Float \<Rightarrow> 'f" where
  "MinVolumeDb F = flt_lit F (- 60)"

definition MaxVolumeDb :: "'f Float \<Rightarrow> 'f" where
  "MaxVolumeDb F = flt_lit F 12"

definition IsDefault :: "'f Float \<Rightarrow> 'f UserConfig \<Rightarrow> bool" where
  "IsDefault F config \<longleftrightarrow> flt_eq F (uc_volumeDb config) (flt_lit F 0) \<and> \<not> uc_muted config"

definition Hex_upper :: string where
  "Hex_upper = ''0123456789ABCDEF''"

definition safe_in_name :: "u8 \<Rightarrow> bool" where
  "safe_in_name byte \<longleftrightarrow>
     (byte \<ge> 97 \<and> byte \<le> 122) \<or> (byte \<ge> 65 \<and> byte \<le> 90) \<or> (byte \<ge> 48 \<and> byte \<le> 57) \<or>
     byte = 45 \<or> byte = 95 \<or> byte = 46"

definition encode_character :: "char \<Rightarrow> string" where
  "encode_character character =
     (let byte = of_nat (of_char character) :: u8 in
      if safe_in_name byte then [character]
      else [CHR ''%'', Hex_upper ! unat (drop_bit 4 byte AND 0x0F), Hex_upper ! unat (byte AND 0x0F)])"

definition EncodeFileName :: "string \<Rightarrow> string result" where
  "EncodeFileName uniqueId =
     (let name = concat (map encode_character uniqueId) in
      if name = [] then Inl (RuntimeError ''Remote user identity is empty'') else Inr name)"

text \<open>\<open>m_Directory / ( name + ".conf" )\<close> for a name without a slash.\<close>

definition path_join :: "string \<Rightarrow> string \<Rightarrow> string" where
  "path_join directory name =
     (if directory = [] \<or> last directory = CHR ''/'' then directory @ name else directory @ CHR ''/'' # name)"

definition PathFor :: "string \<Rightarrow> string \<Rightarrow> string result" where
  "PathFor directory uniqueId =
     res_bind (EncodeFileName uniqueId) (\<lambda>name. Inr (path_join directory (name @ ''.conf'')))"

section \<open>Loading and saving\<close>

definition user_Validate :: "'f Float \<Rightarrow> string \<Rightarrow> 'f UserConfig \<Rightarrow> unit result" where
  "user_Validate F uniqueId config =
     (if uniqueId = [] then Inl (RuntimeError ''Remote user identity is empty'')
      else if \<exists>c \<in> set uniqueId. c = NUL \<or> c = LF \<or> c = CR
      then Inl (RuntimeError ''Remote user identity contains an invalid character'')
      else if \<not> flt_finite F (uc_volumeDb config) \<or> flt_less F (uc_volumeDb config) (MinVolumeDb F) \<or>
          flt_less F (MaxVolumeDb F) (uc_volumeDb config)
      then Inl (RuntimeError ''User volume must be between -60 and +12 dB'')
      else Inr ())"

definition ParseBoolean_muted :: "string \<Rightarrow> bool result" where
  "ParseBoolean_muted value =
     (if value = ''true'' then Inr True
      else if value = ''false'' then Inr False
      else Inl (RuntimeError ''Invalid user muted value''))"

definition user_ParseFloat :: "'f Float \<Rightarrow> string \<Rightarrow> 'f result" where
  "user_ParseFloat F value =
     (case flt_from_chars F value of
        (Some result, []) \<Rightarrow>
          if flt_finite F result then Inr result else Inl (RuntimeError ''Invalid user volume value'')
      | _ \<Rightarrow> Inl (RuntimeError ''Invalid user volume value''))"

text \<open>The body of the loop over the lines; the state is \<open>config\<close> and \<open>sawUid\<close>.\<close>

definition load_user_line ::
  "'f Float \<Rightarrow> string \<Rightarrow> string \<Rightarrow> string \<Rightarrow> 'f UserConfig \<times> bool \<Rightarrow> ('f UserConfig \<times> bool) result" where
  "load_user_line F uniqueId path line state =
     (let line = pop_CR line; (config, sawUid) = state in
      if line = [] \<or> hd line = CHR ''#'' then Inr (config, sawUid)
      else if CHR ''='' \<notin> set line then Inl (RuntimeError (''Invalid user config: '' @ path))
      else
        let name = before_equals line; value = after_equals line in
        if name = ''identity_uid'' then
          if value \<noteq> uniqueId then Inl (RuntimeError ''User config identity does not match its filename'')
          else Inr (config, True)
        else if name = ''volume_db'' then
          res_bind (user_ParseFloat F value) (\<lambda>volumeDb. Inr (config\<lparr>uc_volumeDb := volumeDb\<rparr>, sawUid))
        else if name = ''muted'' then
          res_bind (ParseBoolean_muted value) (\<lambda>muted. Inr (config\<lparr>uc_muted := muted\<rparr>, sawUid))
        else Inl (RuntimeError (''Unknown user config key: '' @ name)))"

fun load_user_lines ::
  "'f Float \<Rightarrow> string \<Rightarrow> string \<Rightarrow> string list \<Rightarrow> 'f UserConfig \<times> bool \<Rightarrow> ('f UserConfig \<times> bool) result" where
  "load_user_lines F uniqueId path [] state = Inr state"
| "load_user_lines F uniqueId path (line # ls) state =
     res_bind (load_user_line F uniqueId path line state) (load_user_lines F uniqueId path ls)"

definition parse_user_config :: "'f Float \<Rightarrow> string \<Rightarrow> string \<Rightarrow> string \<Rightarrow> 'f UserConfig result" where
  "parse_user_config F uniqueId path data =
     res_bind (load_user_lines F uniqueId path (getlines data) (default_UserConfig F, False)) (\<lambda>(config, sawUid).
       if \<not> sawUid then Inl (RuntimeError ''User config is missing identity_uid'')
       else res_bind (user_Validate F uniqueId config) (\<lambda>_. Inr config))"

definition user_Load :: "'f Float \<Rightarrow> string \<Rightarrow> string \<Rightarrow> (FileSystem, 'f UserConfig) op" where
  "user_Load F directory uniqueId =
     op_bind (op_lift (user_Validate F uniqueId (default_UserConfig F))) (\<lambda>_.
     op_bind (op_lift (PathFor directory uniqueId)) (\<lambda>path.
     op_bind (ReadSecureFile path MaxUserConfigSize) (\<lambda>data.
     case data of
       None \<Rightarrow> op_return (default_UserConfig F)
     | Some text \<Rightarrow> op_lift (parse_user_config F uniqueId path text))))"

definition user_config_text :: "'f Float \<Rightarrow> string \<Rightarrow> 'f UserConfig \<Rightarrow> string" where
  "user_config_text F uniqueId config =
     concat (map (\<lambda>line. line @ [LF])
       [''# ts-cli remote user settings'',
        ''identity_uid='' @ uniqueId,
        ''volume_db='' @ flt_print_fixed F 2 (uc_volumeDb config),
        ''muted='' @ (if uc_muted config then ''true'' else ''false'')])"

text \<open>\<open>std::filesystem::remove( path, error )\<close>: a file that is not there is no error.\<close>

definition remove_file :: "string \<Rightarrow> (FileSystem, unit) op" where
  "remove_file path fs =
     (case fs_fails fs Remove path of
        Some strerror \<Rightarrow> (Inl (RuntimeError (''Failed to remove default user config: '' @ strerror)), fs)
      | None \<Rightarrow> set_file path None fs)"

definition user_Save :: "'f Float \<Rightarrow> string \<Rightarrow> string \<Rightarrow> 'f UserConfig \<Rightarrow> (FileSystem, unit) op" where
  "user_Save F directory uniqueId config =
     op_bind (op_lift (user_Validate F uniqueId config)) (\<lambda>_.
     op_bind (op_lift (PathFor directory uniqueId)) (\<lambda>path.
     if IsDefault F config then remove_file path
     else WriteSecureFile path (user_config_text F uniqueId config)))"

section \<open>One file per user\<close>

definition hex_index :: "char \<Rightarrow> nat" where
  "hex_index h = length (takeWhile (\<lambda>c. c \<noteq> h) Hex_upper)"

text \<open>A reader of the encoding, which shows that the name determines the identity.\<close>

fun decode_name :: "string \<Rightarrow> string" where
  "decode_name [] = []"
| "decode_name (c # cs) =
     (if c = CHR ''%'' then
        (case cs of h # l # rest \<Rightarrow> char_of (16 * hex_index h + hex_index l) # decode_name rest | _ \<Rightarrow> [])
      else c # decode_name cs)"

lemma hex_index_nth: "d < 16 \<Longrightarrow> hex_index (Hex_upper ! d) = d"
proof -
  have "\<forall>d \<in> set [0..<16]. hex_index (Hex_upper ! d) = d"
    by code_simp
  then show "d < 16 \<Longrightarrow> hex_index (Hex_upper ! d) = d"
    by auto
qed

lemma nibbles:
  fixes byte :: u8
  shows "unat (drop_bit 4 byte AND 0x0F) = unat byte div 16" "unat (byte AND 0x0F) = unat byte mod 16"
proof -
  have mask: "(0x0F :: u8) = mask 4" by (simp add: mask_eq_exp_minus_1)
  have low: "unat (w AND mask 4) = unat w mod 16" for w :: u8
    by (simp only: take_bit_eq_mask [symmetric] unsigned_take_bit_eq) (simp add: take_bit_eq_mod)
  have "unat (drop_bit 4 byte) = unat byte div 16"
    unfolding unat_drop_bit_eq by (subst drop_bit_eq_div) simp
  moreover have "unat byte div 16 < 16"
    using unsigned_less [of byte, where 'a = nat] by (simp add: less_mult_imp_div_less)
  ultimately show "unat (drop_bit 4 byte AND 0x0F) = unat byte div 16"
    unfolding mask low by (simp only: mod_less)
  show "unat (byte AND 0x0F) = unat byte mod 16"
    unfolding mask by (rule low)
qed

lemma decode_character: "decode_name (encode_character c @ rest) = c # decode_name rest"
proof -
  let ?b = "of_nat (of_char c) :: u8"
  have byte: "unat ?b = of_char c"
    by (simp add: unat_of_nat of_char_mod_256 take_bit_eq_mod)
  show ?thesis
  proof (cases "safe_in_name ?b")
    case True
    have "\<not> safe_in_name (of_nat (of_char CHR ''%''))"
      by (simp add: safe_in_name_def)
    with True have "c \<noteq> CHR ''%''" by auto
    with True show ?thesis by (simp add: encode_character_def)
  next
    case False
    have "of_char c < (256 :: nat)" by simp
    then have "hex_index (Hex_upper ! (of_char c div 16)) = of_char c div 16"
      "hex_index (Hex_upper ! (of_char c mod 16)) = of_char c mod 16"
      by (auto intro!: hex_index_nth simp: less_mult_imp_div_less)
    then show ?thesis
      unfolding encode_character_def Let_def nibbles(1) if_not_P [OF False] unfolding nibbles(2) byte by simp
  qed
qed

lemma decode_encoded: "decode_name (concat (map encode_character uniqueId)) = uniqueId"
  by (induction uniqueId) (simp_all add: decode_character)

lemma PathFor_inj: "PathFor d u = Inr p \<Longrightarrow> PathFor d u' = Inr p \<Longrightarrow> u = u'"
  by (auto simp: PathFor_def EncodeFileName_def Let_def path_join_def res_bind_eq_Inr split: if_splits)
    (metis decode_encoded)+

lemma encode_nonempty: "uniqueId \<noteq> [] \<Longrightarrow> concat (map encode_character uniqueId) \<noteq> []"
  by (cases uniqueId) (simp_all add: encode_character_def Let_def)

lemma PathFor_valid: "user_Validate F uniqueId config = Inr () \<Longrightarrow> \<exists>p. PathFor d uniqueId = Inr p"
  using encode_nonempty [of uniqueId]
  by (auto simp: user_Validate_def PathFor_def EncodeFileName_def Let_def split: if_splits)

section \<open>Reading back what was saved\<close>

text \<open>What the settings' number must satisfy: its text with two decimals is read back as itself.\<close>

definition volume_text_ok :: "'f Float \<Rightarrow> 'f \<Rightarrow> bool" where
  "volume_text_ok F volume \<longleftrightarrow>
     (let s = flt_print_fixed F 2 volume in
      s \<noteq> [] \<and> LF \<notin> set s \<and> last s \<noteq> CR \<and> flt_from_chars F s = (Some volume, []))"

lemma parse_user_text:
  assumes valid: "user_Validate F uniqueId config = Inr ()" and volume: "volume_text_ok F (uc_volumeDb config)"
  shows "parse_user_config F uniqueId path (user_config_text F uniqueId config) = Inr config"
proof -
  let ?v = "flt_print_fixed F 2 (uc_volumeDb config)"
  let ?m = "if uc_muted config then ''true'' else ''false''"
  have u: "uniqueId \<noteq> []" "LF \<notin> set uniqueId" "last uniqueId \<noteq> CR" and fin: "flt_finite F (uc_volumeDb config)"
    using valid by (auto simp: user_Validate_def split: if_splits)
  have v: "?v \<noteq> []" "LF \<notin> set ?v" "last ?v \<noteq> CR" "flt_from_chars F ?v = (Some (uc_volumeDb config), [])"
    using volume by (simp_all add: volume_text_ok_def Let_def)
  have "getlines (user_config_text F uniqueId config) =
      [''# ts-cli remote user settings'', ''identity_uid='' @ uniqueId, ''volume_db='' @ ?v, ''muted='' @ ?m]"
    unfolding user_config_text_def using u v by (intro getlines_concat) simp
  moreover have "load_user_line F uniqueId path ''# ts-cli remote user settings'' s = Inr s" for s
    by (cases s) (simp add: load_user_line_def pop_CR_def)
  moreover have "load_user_line F uniqueId path (''identity_uid='' @ uniqueId) (c, s) = Inr (c, True)" for c s
    using u equals_split [of "''identity_uid''" uniqueId] by (simp add: load_user_line_def pop_CR_def)
  moreover have "load_user_line F uniqueId path (''volume_db='' @ ?v) (c, s) =
      Inr (c\<lparr>uc_volumeDb := uc_volumeDb config\<rparr>, s)" for c s
    using v fin equals_split [of "''volume_db''" ?v] by (simp add: load_user_line_def pop_CR_def user_ParseFloat_def)
  moreover have "load_user_line F uniqueId path (''muted='' @ ?m) (c, s) = Inr (c\<lparr>uc_muted := uc_muted config\<rparr>, s)" for c s
    using equals_split [of "''muted''" ?m] by (auto simp: load_user_line_def pop_CR_def ParseBoolean_muted_def)
  ultimately show ?thesis
    using valid by (cases config) (simp add: parse_user_config_def default_UserConfig_def)
qed

text \<open>
  A user's settings are kept, and only theirs. Where no system call fails, saving valid
  settings for a user returns; loading that user's settings then gives the saved ones (the
  defaults, which have no file, when the settings are the defaults), and the file of every other
  user is untouched, because no two identities have the same file name. The volume's text with
  two decimals is assumed to be read back as the volume.
\<close>

theorem user_config_saved_and_loaded:
  assumes valid: "user_Validate F u config = Inr ()" "user_Validate F u (default_UserConfig F) = Inr ()"
    and volume: "volume_text_ok F (uc_volumeDb config)"
    and size: "length (user_config_text F u config) \<le> MaxUserConfigSize"
    and env: "no_failures fs" "\<forall>p. fresh_temporary fs p"
  shows "\<exists>fs' fs''. user_Save F d u config fs = (Inr (), fs') \<and>
    user_Load F d u fs' = (Inr (if IsDefault F config then default_UserConfig F else config), fs'') \<and>
    (\<forall>u' p. u' \<noteq> u \<longrightarrow> PathFor d u' = Inr p \<longrightarrow> fs_files fs' p = fs_files fs p)"
proof -
  obtain p where p: "PathFor d u = Inr p"
    using PathFor_valid [OF valid(1)] by blast
  then have other: "u' \<noteq> u \<Longrightarrow> PathFor d u' = Inr q \<Longrightarrow> q \<noteq> p" for u' q
    by (metis PathFor_inj)
  show ?thesis
  proof (cases "IsDefault F config")
    case True
    let ?fs' = "fs\<lparr>fs_files := (fs_files fs)(p := None)\<rparr>"
    have "user_Save F d u config fs = (Inr (), ?fs')"
      using env True by (simp add: user_Save_def valid p remove_file_def no_failures_def set_file_def)
    moreover have "user_Load F d u ?fs' = (Inr (default_UserConfig F), ?fs')"
      using read_missing [of ?fs' p MaxUserConfigSize] env
      by (simp add: user_Load_def valid p op_bind_run no_failures_def)
    ultimately show ?thesis
      using True other by fastforce
  next
    case False
    let ?text = "user_config_text F u config"
    obtain fs' where saved: "WriteSecureFile p ?text fs = (Inr (), fs')" "no_failures fs'"
      "fs_files fs' = (fs_files fs)(p \<mapsto> RegularFile ?text True)"
      using write_returns [of fs p] env by blast
    then obtain fs'' where "ReadSecureFile p MaxUserConfigSize fs' = (Inr (Some ?text), fs'')"
      using read_returns [of fs' p ?text True] size by auto
    then have "user_Load F d u fs' = (Inr config, fs'')"
      by (simp add: user_Load_def valid p op_bind_run parse_user_text volume)
    moreover have "user_Save F d u config fs = (Inr (), fs')"
      using False saved by (simp add: user_Save_def valid p)
    ultimately show ?thesis
      using False other saved(3) by fastforce
  qed
qed

theorem user_config_saved_and_loaded_witness:
  "\<exists>fs' fs''. user_Save whole_numbers ''users'' ''aB/1='' \<lparr>uc_volumeDb = - 8, uc_muted = True\<rparr> empty_files = (Inr (), fs') \<and>
    user_Load whole_numbers ''users'' ''aB/1='' fs' = (Inr \<lparr>uc_volumeDb = - 8, uc_muted = True\<rparr>, fs'')"
proof -
  let ?c = "\<lparr>uc_volumeDb = - 8, uc_muted = True\<rparr> :: int UserConfig"
  have "user_Validate whole_numbers ''aB/1='' ?c = Inr ()"
    "user_Validate whole_numbers ''aB/1='' (default_UserConfig whole_numbers) = Inr ()"
    by (simp_all add: user_Validate_def whole_numbers_def MinVolumeDb_def MaxVolumeDb_def default_UserConfig_def)
  moreover have "print_int (- 8) = ''-8''"
    by code_simp
  then have "volume_text_ok whole_numbers (uc_volumeDb ?c)"
    using read_print_int [of "- 8"] by (simp add: volume_text_ok_def whole_numbers_def)
  moreover have "length (user_config_text whole_numbers ''aB/1='' ?c) \<le> MaxUserConfigSize"
    using \<open>print_int (- 8) = ''-8''\<close> by (simp add: user_config_text_def whole_numbers_def MaxUserConfigSize_def)
  moreover have "no_failures empty_files" "\<forall>p. fresh_temporary empty_files p"
    by (simp_all add: empty_files_ok)
  moreover have "\<not> IsDefault whole_numbers ?c"
    by (simp add: IsDefault_def)
  ultimately show ?thesis
    using user_config_saved_and_loaded [of whole_numbers "''aB/1=''" ?c empty_files "''users''"] by auto
qed

end
