(* ===== verification/Endpoint.thy ===== *)
theory Endpoint
  imports Char_Class
begin

text \<open>
  Where to connect: \<open>ParseEndpoint\<close> (\<open>net/src/endpoint.cpp\<close>), the choice among SRV records
  (\<open>net/src/posix/posix_srv_record.cpp\<close>) and \<open>ResolveEndpoint\<close>
  (\<open>net/src/endpoint_resolution.cpp\<close>). The resolver is a parameter: the records of an answer,
  whether it came within the time allowed, and the addresses of a host and port.

  A host and a port are read back from the text that joins them by a colon; the record chosen is
  the first of those with the lowest priority and, among these, the highest weight.
\<close>

section \<open>ParseEndpoint\<close>

record Endpoint =
  ep_host :: string
  ep_port :: u16

text \<open>
  \<open>std::stoul( text, &processed )\<close> in base 10: white space, one sign, then digits; a number below
  a minus sign is negated in the 64 bits of \<open>unsigned long\<close>.
\<close>

datatype stoul = StoulInvalid | StoulOutOfRange | Stoul nat nat

definition std_stoul :: "string \<Rightarrow> stoul" where
  "std_stoul text =
     (let unspaced = dropWhile isspace text;
          signed = unspaced \<noteq> [] \<and> (hd unspaced = CHR ''+'' \<or> hd unspaced = CHR ''-'');
          rest = (if signed then tl unspaced else unspaced);
          digits = takeWhile is_digit rest;
          n = number_of_digits digits
      in if digits = [] then StoulInvalid
         else if n \<ge> 2 ^ 64 then StoulOutOfRange
         else Stoul (if signed \<and> hd unspaced = CHR ''-'' then (2 ^ 64 - n) mod 2 ^ 64 else n)
                (length text - length rest + length digits))"

text \<open>The text before and after the last colon, which \<open>rfind\<close> finds.\<close>

definition after_colon :: "string \<Rightarrow> string" where
  "after_colon input = rev (takeWhile (\<lambda>c. c \<noteq> CHR '':'') (rev input))"

definition before_colon :: "string \<Rightarrow> string" where
  "before_colon input = take (length input - length (after_colon input) - 1) input"

definition ParseEndpoint :: "string \<Rightarrow> Endpoint result" where
  "ParseEndpoint input =
     (if CHR '':'' \<notin> set input then Inr \<lparr>ep_host = input, ep_port = 9987\<rparr>
      else
        let host = before_colon input; port_string = after_colon input in
        if host = [] then Inl (InvalidArgument ''Endpoint is missing host'')
        else if port_string = [] then Inl (InvalidArgument ''Endpoint is missing port'')
        else case std_stoul port_string of
            StoulInvalid \<Rightarrow> Inl (InvalidArgument ''Endpoint port is not a number'')
          | StoulOutOfRange \<Rightarrow> Inl (InvalidArgument ''Endpoint port is out of range'')
          | Stoul port processed \<Rightarrow>
              if processed \<noteq> length port_string then Inl (InvalidArgument ''Endpoint port is not a number'')
              else if port > 2 ^ 16 - 1 then Inl (InvalidArgument ''Endpoint port is out of range'')
              else Inr \<lparr>ep_host = host, ep_port = of_nat port\<rparr>)"

section \<open>SRV records\<close>

record SrvRecord =
  srv_target :: string
  srv_port :: u16
  srv_priority :: u16
  srv_weight :: u16

definition IsBetter :: "SrvRecord \<Rightarrow> SrvRecord \<Rightarrow> bool" where
  "IsBetter candidate best =
     (if srv_priority candidate \<noteq> srv_priority best then srv_priority candidate < srv_priority best
      else srv_weight candidate > srv_weight best)"

text \<open>
  A resource record of the answer: its type and data, and the name \<open>dn_expand\<close> reads after the
  first six bytes; \<open>None\<close> in the answer is a record that \<open>ns_parserr\<close> refuses.
\<close>

record DnsRecord =
  rr_srv :: bool
  rr_data :: bytes
  rr_name :: "string option"

definition ns_get16 :: "bytes \<Rightarrow> nat \<Rightarrow> u16" where
  "ns_get16 data i = push_bit 8 (ucast (data ! i)) OR ucast (data ! (i + 1))"

definition srv_candidate :: "DnsRecord option \<Rightarrow> SrvRecord option" where
  "srv_candidate record =
     (case record of
        None \<Rightarrow> None
      | Some rr \<Rightarrow>
          if \<not> rr_srv rr \<or> length (rr_data rr) < 6 then None
          else map_option (\<lambda>target.
              \<lparr>srv_target = target, srv_port = ns_get16 (rr_data rr) 4, srv_priority = ns_get16 (rr_data rr) 0,
               srv_weight = ns_get16 (rr_data rr) 2\<rparr>) (rr_name rr))"

text \<open>The loop over the answer, with \<open>best\<close>.\<close>

fun best_record :: "DnsRecord option list \<Rightarrow> SrvRecord option \<Rightarrow> SrvRecord option" where
  "best_record [] best = best"
| "best_record (record # records) best =
     best_record records
       (case srv_candidate record of
          None \<Rightarrow> best
        | Some candidate \<Rightarrow>
            (case best of
               None \<Rightarrow> Some candidate
             | Some b \<Rightarrow> if IsBetter candidate b then Some candidate else best))"

text \<open>\<open>res_query\<close> and \<open>ns_initparse\<close> answer the records of a query name, or nothing.\<close>

definition ResolveSrvRecord :: "(string \<Rightarrow> DnsRecord option list option) \<Rightarrow> string \<Rightarrow> string \<Rightarrow> string \<Rightarrow> SrvRecord option" where
  "ResolveSrvRecord res_query service proto domain =
     (case res_query (service @ ''.'' @ proto @ ''.'' @ domain) of
        None \<Rightarrow> None
      | Some records \<Rightarrow> best_record records None)"

text \<open>\<open>in_time\<close>: the lookup's thread finished before \<open>SrvLookupTimeout\<close>.\<close>

definition ResolveSrvRecordWithTimeout ::
  "(string \<Rightarrow> DnsRecord option list option) \<Rightarrow> bool \<Rightarrow> string \<Rightarrow> SrvRecord option" where
  "ResolveSrvRecordWithTimeout res_query in_time domain =
     (if in_time then ResolveSrvRecord res_query ''_ts3'' ''_udp'' domain else None)"

definition ResolveEndpoint ::
  "(string \<Rightarrow> DnsRecord option list option) \<Rightarrow> bool \<Rightarrow> (Endpoint \<Rightarrow> 'a list result) \<Rightarrow> Endpoint \<Rightarrow> 'a list result" where
  "ResolveEndpoint res_query in_time resolve_host_port endpoint =
     (case ResolveSrvRecordWithTimeout res_query in_time (ep_host endpoint) of
        Some srv \<Rightarrow> resolve_host_port \<lparr>ep_host = srv_target srv, ep_port = srv_port srv\<rparr>
      | None \<Rightarrow> resolve_host_port endpoint)"

section \<open>The text of an endpoint\<close>

lemma colon_split:
  "CHR '':'' \<notin> set port \<Longrightarrow> after_colon (host @ CHR '':'' # port) = port \<and> before_colon (host @ CHR '':'' # port) = host"
  using takeWhile_dropWhile_at [of "CHR '':''" "rev port" "rev host"]
  by (simp add: after_colon_def before_colon_def)

lemma colon_parts: "CHR '':'' \<in> set input \<Longrightarrow> \<exists>host port. input = host @ CHR '':'' # port \<and> CHR '':'' \<notin> set port"
  by (metis split_list_last)

lemma stoul_to_string: "n < 2 ^ 64 \<Longrightarrow> std_stoul (to_string n) = Stoul n (length (to_string n))"
proof -
  assume n: "n < 2 ^ 64"
  have digits: "list_all is_digit (to_string n)" by (rule to_string_digits)
  obtain c s where cs: "to_string n = c # s"
    using to_string_nonempty [of n] by (cases "to_string n") auto
  then have "is_digit c" using digits by simp
  then have c: "\<not> isspace c" "c \<noteq> CHR ''+''" "c \<noteq> CHR ''-''"
    by (auto simp: is_digit_def isspace_def)
  have "takeWhile is_digit (to_string n) = to_string n"
    using digits by (simp add: list_all_iff)
  then show ?thesis
    using n c number_of_to_string [of n] by (simp add: std_stoul_def cs)
qed

text \<open>
  What an endpoint's text means. A host without a colon gets the port 9987; a host that is not
  empty, a colon and a port number give that host and port, whatever colons the host itself
  holds; a larger number is refused as out of range; and a text whose part after the last colon,
  or before it, is empty is refused, naming what is missing. So a bare IPv6 address is never read
  as an address: what follows its last colon is taken as the port.
\<close>

theorem endpoint_text:
  shows "(CHR '':'' \<notin> set host \<longrightarrow> ParseEndpoint host = Inr \<lparr>ep_host = host, ep_port = 9987\<rparr>) \<and>
    (host \<noteq> [] \<longrightarrow> n < 2 ^ 64 \<longrightarrow>
      ParseEndpoint (host @ CHR '':'' # to_string n) =
        (if n < 2 ^ 16 then Inr \<lparr>ep_host = host, ep_port = of_nat n\<rparr>
         else Inl (InvalidArgument ''Endpoint port is out of range''))) \<and>
    (host \<noteq> [] \<longrightarrow> ParseEndpoint (host @ '':'') = Inl (InvalidArgument ''Endpoint is missing port'')) \<and>
    (CHR '':'' \<notin> set port \<longrightarrow> ParseEndpoint (CHR '':'' # port) = Inl (InvalidArgument ''Endpoint is missing host''))"
proof (intro conjI impI)
  assume host: "host \<noteq> []" and n: "n < 2 ^ 64"
  have "CHR '':'' \<notin> set (to_string n)"
    by (rule to_string_no) (simp add: is_digit_def)
  note parts = colon_split [OF this, of host]
  show "ParseEndpoint (host @ CHR '':'' # to_string n) =
      (if n < 2 ^ 16 then Inr \<lparr>ep_host = host, ep_port = of_nat n\<rparr>
       else Inl (InvalidArgument ''Endpoint port is out of range''))"
    using host n parts by (simp add: ParseEndpoint_def stoul_to_string)
next
  assume "host \<noteq> []"
  then show "ParseEndpoint (host @ '':'') = Inl (InvalidArgument ''Endpoint is missing port'')"
    using colon_split [of "[]" host] by (simp add: ParseEndpoint_def)
next
  assume "CHR '':'' \<notin> set port"
  then show "ParseEndpoint (CHR '':'' # port) = Inl (InvalidArgument ''Endpoint is missing host'')"
    using colon_split [of port "[]"] by (simp add: ParseEndpoint_def)
qed (simp add: ParseEndpoint_def)

theorem endpoint_text_witness:
  "ParseEndpoint ''voice.example.net:9988'' = Inr \<lparr>ep_host = ''voice.example.net'', ep_port = 9988\<rparr> \<and>
   ParseEndpoint ''voice.example.net'' = Inr \<lparr>ep_host = ''voice.example.net'', ep_port = 9987\<rparr> \<and>
   ParseEndpoint ''2001:db8::1'' = Inr \<lparr>ep_host = ''2001:db8:'', ep_port = 1\<rparr>"
proof -
  have "to_string 9988 = ''9988''" "to_string 1 = ''1''"
    by (simp_all add: to_string.simps digit_chars)
  then show ?thesis
    using endpoint_text [of "''voice.example.net''" 9988 "[]"] endpoint_text [of "''2001:db8:''" 1 "[]"] by simp
qed

section \<open>The record chosen\<close>

definition srv_rank :: "SrvRecord \<Rightarrow> nat" where
  "srv_rank r = unat (srv_priority r) * 2 ^ 16 + (2 ^ 16 - 1 - unat (srv_weight r))"

lemma IsBetter_rank: "IsBetter a b \<longleftrightarrow> srv_rank a < srv_rank b"
proof -
  have "unat (srv_weight a) < 2 ^ 16" "unat (srv_weight b) < 2 ^ 16"
    using unsigned_less [of "srv_weight a", where 'a = nat] unsigned_less [of "srv_weight b", where 'a = nat] by simp_all
  then show ?thesis
    by (auto simp: IsBetter_def srv_rank_def word_less_nat_alt word_unat_eq_iff)
qed

lemma best_record_rank:
  "best_record records best = None \<longleftrightarrow> best = None \<and> (\<forall>r \<in> set records. srv_candidate r = None)"
  "best_record records best = Some b \<Longrightarrow>
   (best = Some b \<or> Some b \<in> srv_candidate ` set records) \<and>
   (\<forall>c. (best = Some c \<or> Some c \<in> srv_candidate ` set records) \<longrightarrow> srv_rank b \<le> srv_rank c)"
proof (induction records arbitrary: best)
  case (Cons r records)
  {
    case 1
    show ?case by (simp add: Cons.IH(1) split: option.splits)
  next
    case 2
    let ?best = "case srv_candidate r of None \<Rightarrow> best
      | Some candidate \<Rightarrow> (case best of None \<Rightarrow> Some candidate | Some b \<Rightarrow> if IsBetter candidate b then Some candidate else best)"
    have "best_record records ?best = Some b" using 2 by simp
    note IH = Cons.IH(2) [OF this]
    show ?case
    proof (cases "srv_candidate r")
      case None
      then show ?thesis using IH by (auto simp: image_iff)
    next
      case (Some c)
      then show ?thesis
        using IH by (cases best) (auto simp: IsBetter_rank image_iff split: if_splits)
    qed
  }
qed auto

text \<open>
  The SRV record a connection follows is the preferred one of the answer: no usable record of
  the answer has a lower priority number, and none with the same priority has a higher weight. The
  connection goes to its target and port; without a usable record in time, to the host and port
  that were given.
\<close>

theorem srv_choice:
  shows "case ResolveSrvRecordWithTimeout res_query in_time (ep_host endpoint) of
      None \<Rightarrow> ResolveEndpoint res_query in_time resolve endpoint = resolve endpoint \<and>
        (\<not> in_time \<or> (\<forall>records. res_query (''_ts3._udp.'' @ ep_host endpoint) = Some records \<longrightarrow>
          (\<forall>r \<in> set records. srv_candidate r = None)))
    | Some srv \<Rightarrow>
        ResolveEndpoint res_query in_time resolve endpoint =
          resolve \<lparr>ep_host = srv_target srv, ep_port = srv_port srv\<rparr> \<and>
        (\<exists>records. res_query (''_ts3._udp.'' @ ep_host endpoint) = Some records \<and> Some srv \<in> srv_candidate ` set records \<and>
          (\<forall>other. Some other \<in> srv_candidate ` set records \<longrightarrow>
            srv_priority srv < srv_priority other \<or>
            srv_priority srv = srv_priority other \<and> srv_weight srv \<ge> srv_weight other))"
proof (cases "ResolveSrvRecordWithTimeout res_query in_time (ep_host endpoint)")
  case None
  then show ?thesis
    by (auto simp: ResolveEndpoint_def ResolveSrvRecordWithTimeout_def ResolveSrvRecord_def best_record_rank(1)
        split: if_splits option.splits)
next
  case (Some srv)
  then obtain records where records: "res_query (''_ts3._udp.'' @ ep_host endpoint) = Some records"
    "best_record records None = Some srv"
    by (auto simp: ResolveSrvRecordWithTimeout_def ResolveSrvRecord_def split: if_splits option.splits)
  have "srv_priority srv < srv_priority other \<or> srv_priority srv = srv_priority other \<and> srv_weight srv \<ge> srv_weight other"
    if "srv_rank srv \<le> srv_rank other" for other
    using that IsBetter_rank [of other srv] by (auto simp: IsBetter_def split: if_splits)
  with Some records best_record_rank(2) [OF records(2)] show ?thesis
    by (auto simp: ResolveEndpoint_def)
qed

theorem srv_choice_witness:
  "let rr = (\<lambda>priority weight port name. Some \<lparr>rr_srv = True, rr_data = [0, priority, 0, weight, 0, port], rr_name = Some name\<rparr>);
       answer = (\<lambda>_. Some [rr 10 5 1 ''slow'', rr 1 5 2 ''light'', None, rr 1 9 3 ''heavy'']) in
   ResolveEndpoint answer True (\<lambda>e. Inr [e]) \<lparr>ep_host = ''ts.example'', ep_port = 9987\<rparr> =
     Inr [\<lparr>ep_host = ''heavy'', ep_port = 3\<rparr>]"
  using srv_choice [of "\<lambda>_. Some
      [Some \<lparr>rr_srv = True, rr_data = [0, 10, 0, 5, 0, 1], rr_name = Some ''slow''\<rparr>,
       Some \<lparr>rr_srv = True, rr_data = [0, 1, 0, 5, 0, 2], rr_name = Some ''light''\<rparr>, None,
       Some \<lparr>rr_srv = True, rr_data = [0, 1, 0, 9, 0, 3], rr_name = Some ''heavy''\<rparr>]"
    True "\<lambda>e. Inr [e]" "\<lparr>ep_host = ''ts.example'', ep_port = 9987\<rparr>"]
  by (simp add: ResolveEndpoint_def ResolveSrvRecordWithTimeout_def ResolveSrvRecord_def srv_candidate_def IsBetter_def ns_get16_def)

end
