(* ===== verification/Command_Line.thy ===== *)
theory Command_Line
  imports Secure_Files Char_Class
begin

text \<open>
  What the user types: \<open>CommandParser\<close> (\<open>client/src/cli/command_parser.cpp\<close>) and
  \<open>TargetResolver\<close> (\<open>client/src/cli/target_resolver.cpp\<close>). A \<open>string_view\<close> is its text; numbers
  are read by the \<open>Float\<close> of \<open>Secure_Files\<close>.

  A line that starts with a slash is never sent as a message; a quoted name reaches its command
  letter for letter; numbers in commands are in their ranges; and a client is picked for its
  settings only where the name leaves one choice.
\<close>

section \<open>Commands\<close>

datatype AudioCommandKind = Devices | Status | Input | Output | Filter | Threshold | Transmit

datatype UserCommandKind = Inspect | VolumeDb | VolumePercent | VolumeReset | MuteUser | UnmuteUser

datatype 'f InputCommand =
    SendChannelCommand string
  | PrivateMessageCommand string string
  | ReplyCommand string
  | JoinCommand string
  | NickCommand string
  | ListCommand "string option"
  | UserCommand string UserCommandKind 'f
  | AudioCommand AudioCommandKind string 'f
  | ClearCommand
  | HelpCommand
  | QuitCommand

definition Trim :: "string \<Rightarrow> string" where
  "Trim = strip isspace"

definition LowerAscii :: "string \<Rightarrow> string" where
  "LowerAscii = map tolower"

definition is_separator :: "char \<Rightarrow> bool" where
  "is_separator c \<longleftrightarrow> c = CHR '' '' \<or> c = CHR 0x09"

definition usage :: "string \<Rightarrow> 'a result" where
  "usage text = Inl (RuntimeError text)"

section \<open>Arguments\<close>

text \<open>The loop over a quoted argument, from the character after the opening quote.\<close>

fun quoted_argument :: "string \<Rightarrow> bool \<Rightarrow> string \<Rightarrow> (string \<times> string) result" where
  "quoted_argument [] escaped so_far = Inl (RuntimeError ''Unterminated quoted command argument'')"
| "quoted_argument (c # cs) escaped so_far =
     (if escaped then quoted_argument cs False (so_far @ [c])
      else if c = backslash then quoted_argument cs True so_far
      else if c = CHR 0x22 then Inr (so_far, Trim cs)
      else quoted_argument cs False (so_far @ [c]))"

text \<open>\<open>ParsedArgument\<close> is the pair of \<open>value\<close> and \<open>remainder\<close>.\<close>

definition ParseArgument :: "string \<Rightarrow> (string \<times> string) result" where
  "ParseArgument value =
     (let value = Trim value in
      if value = [] then Inl (RuntimeError ''Missing command argument'')
      else if hd value \<noteq> CHR 0x22 then
        Inr (takeWhile (\<lambda>c. \<not> is_separator c) value, Trim (tl (dropWhile (\<lambda>c. \<not> is_separator c) value)))
      else quoted_argument (tl value) False [])"

definition ParseWholeValue :: "string \<Rightarrow> string \<Rightarrow> string result" where
  "ParseWholeValue value text =
     (let value = Trim value in
      if value = [] then usage text
      else if hd value \<noteq> CHR 0x22 then Inr value
      else res_bind (ParseArgument value) (\<lambda>(parsed, remainder).
        if remainder \<noteq> [] then usage text
        else if parsed = [] then usage text
        else Inr parsed))"

definition ParseFloatValue :: "'f Float \<Rightarrow> string \<Rightarrow> string \<Rightarrow> 'f result" where
  "ParseFloatValue F value text =
     (let value = Trim value in
      if value = [] then usage text
      else case flt_from_chars F value of
          (Some result, []) \<Rightarrow> if flt_finite F result then Inr result else usage text
        | _ \<Rightarrow> usage text)"

definition outside :: "'f Float \<Rightarrow> int \<Rightarrow> int \<Rightarrow> 'f \<Rightarrow> bool" where
  "outside F low high x \<longleftrightarrow> flt_less F x (flt_lit F low) \<or> flt_less F (flt_lit F high) x"

section \<open>Parse\<close>

definition ParsePrivateMessage :: "string \<Rightarrow> 'f InputCommand result" where
  "ParsePrivateMessage arguments =
     (let text = ''Usage: /pm|/message <client> <message>'' in
      if arguments = [] then usage text
      else res_bind (ParseArgument arguments) (\<lambda>(target, remainder).
        if target = [] \<or> remainder = [] then usage text
        else Inr (PrivateMessageCommand target remainder)))"

definition user_usage :: string where
  "user_usage = ''Usage: /user <client> [volume <dB|percent|reset>|mute|unmute]''"

definition parse_volume :: "'f Float \<Rightarrow> string \<Rightarrow> string \<Rightarrow> 'f InputCommand result" where
  "parse_volume F target remainder =
     res_bind (ParseWholeValue remainder ''Usage: /user <client> volume <dB|percent|reset>'') (\<lambda>value.
     if LowerAscii value = ''reset'' then Inr (UserCommand target VolumeReset (flt_lit F 0))
     else if value \<noteq> [] \<and> last value = CHR ''%'' then
       res_bind (ParseFloatValue F (butlast value) ''Usage: /user <client> volume <0..398%>'') (\<lambda>percent.
         if outside F 0 398 percent then Inl (RuntimeError ''User volume percent must be between 0 and 398'')
         else Inr (UserCommand target VolumePercent percent))
     else
       res_bind (ParseFloatValue F value ''Usage: /user <client> volume <-60..12 dB>'') (\<lambda>volumeDb.
         if outside F (- 60) 12 volumeDb then Inl (RuntimeError ''User volume must be between -60 and +12 dB'')
         else Inr (UserCommand target VolumeDb volumeDb)))"

definition parse_user :: "'f Float \<Rightarrow> string \<Rightarrow> 'f InputCommand result" where
  "parse_user F arguments =
     res_bind (ParseArgument arguments) (\<lambda>(target, remainder).
     if target = [] then usage user_usage
     else if remainder = [] then Inr (UserCommand target Inspect (flt_lit F 0))
     else res_bind (ParseArgument remainder) (\<lambda>(operation, rest).
       let userCommand = LowerAscii operation in
       if userCommand = ''mute'' \<or> userCommand = ''unmute'' then
         if rest \<noteq> [] then usage ''Usage: /user <client> mute|unmute''
         else Inr (UserCommand target (if userCommand = ''mute'' then MuteUser else UnmuteUser) (flt_lit F 0))
       else if userCommand = ''volume'' then parse_volume F target rest
       else usage user_usage))"

definition parse_audio :: "'f Float \<Rightarrow> string \<Rightarrow> 'f InputCommand result" where
  "parse_audio F arguments =
     (let command = (\<lambda>kind value. Inr (AudioCommand kind value (flt_lit F 0))) in
      if arguments = [] then command Status []
      else res_bind (ParseArgument arguments) (\<lambda>(subcommand, remainder).
        let audioCommand = LowerAscii subcommand in
        if audioCommand = ''devices'' then
          if remainder \<noteq> [] then usage ''Usage: /audio devices'' else command Devices []
        else if audioCommand = ''status'' then
          if remainder \<noteq> [] then usage ''Usage: /audio status'' else command Status []
        else if audioCommand = ''input'' then
          res_bind (ParseWholeValue remainder ''Usage: /audio input <default|id|name>'') (\<lambda>value. command Input value)
        else if audioCommand = ''output'' then
          res_bind (ParseWholeValue remainder ''Usage: /audio output <default|id|name>'') (\<lambda>value. command Output value)
        else if audioCommand = ''filter'' then
          if remainder = [] then command Filter []
          else res_bind (ParseWholeValue remainder ''Usage: /audio filter [none|name]'') (\<lambda>value. command Filter (LowerAscii value))
        else if audioCommand = ''threshold'' then
          res_bind (ParseFloatValue F remainder ''Usage: /audio threshold <-100..0 dBFS>'') (\<lambda>threshold.
            if outside F (- 100) 0 threshold then usage ''Usage: /audio threshold <-100..0 dBFS>''
            else Inr (AudioCommand Threshold [] threshold))
        else if audioCommand = ''transmit'' then
          res_bind (ParseWholeValue remainder ''Usage: /audio transmit <on|off>'') (\<lambda>whole.
            let value = LowerAscii whole in
            if value \<noteq> ''on'' \<and> value \<noteq> ''off'' then usage ''Usage: /audio transmit <on|off>''
            else command Transmit value)
        else Inl (RuntimeError ''Unknown /audio command; use /help'')))"

definition parse_slash :: "'f Float \<Rightarrow> string \<Rightarrow> string \<Rightarrow> 'f InputCommand result" where
  "parse_slash F command arguments =
     (if command = ''pm'' \<or> command = ''message'' then ParsePrivateMessage arguments
      else if command = ''r'' then
        if arguments = [] then usage ''Usage: /r <message>'' else Inr (ReplyCommand arguments)
      else if command = ''join'' then
        res_bind (ParseWholeValue arguments ''Usage: /join <channel>'') (\<lambda>channel. Inr (JoinCommand channel))
      else if command = ''nick'' then
        res_bind (ParseWholeValue arguments ''Usage: /nick <new name>'') (\<lambda>nickname. Inr (NickCommand nickname))
      else if command = ''list'' then
        if arguments = [] then Inr (ListCommand None)
        else res_bind (ParseWholeValue arguments ''Usage: /list [channel]'') (\<lambda>start. Inr (ListCommand (Some start)))
      else if command = ''user'' then parse_user F arguments
      else if command = ''mute'' \<or> command = ''unmute'' then
        if arguments \<noteq> [] then usage (if command = ''mute'' then ''Usage: /mute'' else ''Usage: /unmute'')
        else Inr (AudioCommand Transmit (if command = ''unmute'' then ''on'' else ''off'') (flt_lit F 0))
      else if command = ''audio'' then parse_audio F arguments
      else if command = ''clear'' then Inr ClearCommand
      else if command = ''help'' then
        if arguments \<noteq> [] then usage ''Usage: /help'' else Inr HelpCommand
      else if command = ''quit'' \<or> command = ''exit'' then
        if arguments \<noteq> [] then usage ''Usage: /quit'' else Inr QuitCommand
      else Inl (RuntimeError (''Unknown command: /'' @ command @ ''; use /help'')))"

definition input_Parse :: "'f Float \<Rightarrow> string \<Rightarrow> 'f InputCommand option result" where
  "input_Parse F line =
     (let line = Trim line in
      if line = [] then Inr None
      else if hd line \<noteq> CHR ''/'' then Inr (Some (SendChannelCommand line))
      else
        let line = Trim (tl line) in
        if line = [] then Inl (RuntimeError ''Empty command; use /help'')
        else
          let commandName = takeWhile (\<lambda>c. \<not> is_separator c) line;
              arguments = Trim (tl (dropWhile (\<lambda>c. \<not> is_separator c) line))
          in res_bind (parse_slash F (LowerAscii commandName) arguments) (\<lambda>command. Inr (Some command)))"

section \<open>TargetResolver\<close>

datatype TargetKind = ClientTarget | ChannelTarget

record TargetCandidate =
  tc_kind :: TargetKind
  tc_id :: u64
  tc_name :: string

datatype UniqueTargetResolution = NoMatch | Ambiguous | Match TargetCandidate

definition EqualAsciiInsensitive :: "string \<Rightarrow> string \<Rightarrow> bool" where
  "EqualAsciiInsensitive left right \<longleftrightarrow>
     length left = length right \<and> list_all2 (\<lambda>l r. tolower l = tolower r) left right"

definition target_allowed :: "bool \<Rightarrow> bool \<Rightarrow> TargetKind \<Rightarrow> bool" where
  "target_allowed allowClients allowChannels kind = (if kind = ClientTarget then allowClients else allowChannels)"

definition target_Resolve :: "TargetCandidate list \<Rightarrow> string \<Rightarrow> bool \<Rightarrow> bool \<Rightarrow> TargetCandidate option" where
  "target_Resolve candidates name allowClients allowChannels =
     (case List.find (\<lambda>c. target_allowed allowClients allowChannels (tc_kind c) \<and> tc_name c = name) candidates of
        Some c \<Rightarrow> Some c
      | None \<Rightarrow> List.find (\<lambda>c. target_allowed allowClients allowChannels (tc_kind c) \<and>
          EqualAsciiInsensitive (tc_name c) name) candidates)"

definition ResolvePrivate :: "TargetCandidate list \<Rightarrow> string \<Rightarrow> TargetCandidate option" where
  "ResolvePrivate candidates name = target_Resolve candidates name True False"

definition ResolveChannel :: "TargetCandidate list \<Rightarrow> string \<Rightarrow> TargetCandidate option" where
  "ResolveChannel candidates name = target_Resolve candidates name False True"

definition find_matches :: "TargetCandidate list \<Rightarrow> string \<Rightarrow> bool \<Rightarrow> TargetCandidate list" where
  "find_matches candidates name insensitive =
     filter (\<lambda>c. tc_kind c = ClientTarget \<and>
       (if insensitive then EqualAsciiInsensitive (tc_name c) name else tc_name c = name)) candidates"

text \<open>The number after the number sign, when all of the name is one.\<close>

definition requested_id :: "string \<Rightarrow> u64 option" where
  "requested_id name =
     (if length name > 1 \<and> hd name = CHR ''#'' then
        (case from_chars (2 ^ 64) (tl name) of (Some i, []) \<Rightarrow> Some (of_nat i) | _ \<Rightarrow> None)
      else None)"

definition ResolveUniqueClient :: "TargetCandidate list \<Rightarrow> string \<Rightarrow> UniqueTargetResolution" where
  "ResolveUniqueClient candidates name =
     (case requested_id name of
        Some i \<Rightarrow>
          (case List.find (\<lambda>c. tc_kind c = ClientTarget \<and> tc_id c = i) candidates of
             Some c \<Rightarrow> Match c
           | None \<Rightarrow> NoMatch)
      | None \<Rightarrow>
          (let exact = find_matches candidates name False;
               matches = (if exact = [] then find_matches candidates name True else exact)
           in case matches of [] \<Rightarrow> NoMatch | [c] \<Rightarrow> Match c | _ \<Rightarrow> Ambiguous))"

section \<open>Slashes\<close>

lemma usage_not_Inr [simp]: "usage text \<noteq> Inr x"
  by (simp add: usage_def)

lemma parse_volume_kind: "parse_volume F target r = Inr c \<Longrightarrow> \<exists>k v. c = UserCommand target k v"
  by (auto simp: parse_volume_def res_bind_eq_Inr split: if_splits)

lemma parse_user_kind: "parse_user F a = Inr c \<Longrightarrow> \<exists>target k v. c = UserCommand target k v \<and> target \<noteq> []"
  by (auto simp: parse_user_def res_bind_eq_Inr Let_def split: if_splits dest: parse_volume_kind)

lemma parse_audio_kind: "parse_audio F a = Inr c \<Longrightarrow> \<exists>k s v. c = AudioCommand k s v"
  by (auto simp: parse_audio_def res_bind_eq_Inr Let_def split: if_splits)

lemma ParsePrivateMessage_kind: "ParsePrivateMessage a = Inr c \<Longrightarrow> \<exists>t s. c = PrivateMessageCommand t s"
  by (auto simp: ParsePrivateMessage_def res_bind_eq_Inr Let_def split: if_splits)

text \<open>Every command a step may give satisfies \<open>P\<close>; the conditions of a chain of branches do not matter.\<close>

definition gives :: "('a \<Rightarrow> bool) \<Rightarrow> 'a result \<Rightarrow> bool" where
  "gives P r \<longleftrightarrow> (\<forall>x. r = Inr x \<longrightarrow> P x)"

lemma gives_intros:
  "gives P r1 \<Longrightarrow> gives P r2 \<Longrightarrow> gives P (if b then r1 else r2)"
  "gives P (usage text)" "gives P (Inl e)"
  by (simp_all add: gives_def)

lemma gives_bind: "(\<And>x. r = Inr x \<Longrightarrow> gives P (f x)) \<Longrightarrow> gives P (res_bind r f)"
  by (cases r) (simp_all add: gives_def)

lemma gives_Inr: "P x \<Longrightarrow> gives P (Inr x)"
  by (simp add: gives_def)

definition no_message :: "'f InputCommand \<Rightarrow> bool" where
  "no_message c \<longleftrightarrow> (\<forall>t. c \<noteq> SendChannelCommand t)"

lemma parts_no_message:
  "gives no_message (parse_user F a)" "gives no_message (parse_audio F a)" "gives no_message (ParsePrivateMessage a)"
  using parse_user_kind parse_audio_kind ParsePrivateMessage_kind
  by (fastforce simp: gives_def no_message_def)+

lemma parse_slash_no_message: "parse_slash F command a \<noteq> Inr (SendChannelCommand t)"
proof -
  have "gives no_message (parse_slash F command a)"
    unfolding parse_slash_def
    by (intro gives_intros gives_bind gives_Inr parts_no_message) (simp_all add: no_message_def)
  then show ?thesis
    by (auto simp: gives_def no_message_def)
qed

text \<open>
  What is typed after a slash never reaches the channel as a message. A line is sent to the
  channel exactly when, without the white space around it, it is not empty and does not start
  with a slash, and it is sent as that text; a line of white space does nothing; every other line
  is a command or an error.
\<close>

theorem slash_never_sent:
  "(input_Parse F line = Inr (Some (SendChannelCommand t)) \<longleftrightarrow>
      t = Trim line \<and> Trim line \<noteq> [] \<and> hd (Trim line) \<noteq> CHR ''/'') \<and>
   (input_Parse F line = Inr None \<longleftrightarrow> Trim line = [])"
proof (intro conjI)
  show "input_Parse F line = Inr (Some (SendChannelCommand t)) \<longleftrightarrow>
      t = Trim line \<and> Trim line \<noteq> [] \<and> hd (Trim line) \<noteq> CHR ''/''"
    by (auto simp: input_Parse_def Let_def res_bind_eq_Inr parse_slash_no_message split: if_splits)
  show "input_Parse F line = Inr None \<longleftrightarrow> Trim line = []"
    by (auto simp: input_Parse_def Let_def res_bind_eq_Inr split: if_splits)
qed

section \<open>Quoted names\<close>

definition quote :: "string \<Rightarrow> string" where
  "quote s = CHR 0x22 # concat (map (\<lambda>c. if c = CHR 0x22 \<or> c = backslash then [backslash, c] else [c]) s) @ [CHR 0x22]"

lemma quoted_argument_quote:
  "quoted_argument (concat (map (\<lambda>c. if c = CHR 0x22 \<or> c = backslash then [backslash, c] else [c]) s) @ CHR 0x22 # rest) False so_far =
     Inr (so_far @ s, Trim rest)"
  by (induction s arbitrary: so_far) auto

lemma Trim_fixed: "s \<noteq> [] \<Longrightarrow> \<not> isspace (hd s) \<Longrightarrow> \<not> isspace (last s) \<Longrightarrow> Trim s = s"
  unfolding Trim_def by (rule strip_fixed) blast

lemma not_spaces: "\<not> isspace (CHR 0x22)" "\<not> isspace (CHR ''/'')" "isspace (CHR '' '')"
  by (simp_all add: isspace_def)

lemma ParseArgument_quote:
  assumes "rest = [] \<or> \<not> isspace (last rest)"
  shows "ParseArgument (quote s @ rest) = Inr (s, Trim rest)"
proof -
  have "last (quote s @ rest) = (if rest = [] then CHR 0x22 else last rest)"
    by (simp add: quote_def)
  then have "Trim (quote s @ rest) = quote s @ rest"
    using assms not_spaces by (intro Trim_fixed) (auto simp: quote_def)
  then show ?thesis
    by (simp add: ParseArgument_def quote_def quoted_argument_quote)
qed

lemma ParseWholeValue_quote: "s \<noteq> [] \<Longrightarrow> ParseWholeValue (quote s) text = Inr s"
proof -
  assume s: "s \<noteq> []"
  have trim: "Trim (quote s) = quote s"
    using not_spaces by (intro Trim_fixed) (auto simp: quote_def)
  have "ParseArgument (quote s) = Inr (s, [])"
    using ParseArgument_quote [of "[]" s] by (simp add: Trim_def strip_def)
  moreover have "quote s \<noteq> []" "hd (quote s) = CHR 0x22"
    by (simp_all add: quote_def)
  ultimately show ?thesis
    using s by (simp add: ParseWholeValue_def trim)
qed

text \<open>A typed command line: a slash, its name, a blank and arguments that need no trimming.\<close>

lemma input_Parse_command:
  assumes name: "name \<noteq> []" "list_all (\<lambda>c. \<not> isspace c) name" "LowerAscii name = name"
    and a: "a \<noteq> []" "\<not> isspace (hd a)" "\<not> isspace (last a)"
  shows "input_Parse F (CHR ''/'' # name @ CHR '' '' # a) = res_bind (parse_slash F name a) (\<lambda>c. Inr (Some c))"
proof -
  let ?line = "name @ CHR '' '' # a"
  have "isspace (hd ?line) = False" "last ?line = last a" "?line \<noteq> []"
    using name(1,2) a(1) by (cases name, simp_all)
  then have trims: "Trim (CHR ''/'' # ?line) = CHR ''/'' # ?line" "Trim ?line = ?line"
    using a(3) not_spaces(2) by (intro Trim_fixed; simp)+
  have args: "Trim a = a"
    using a by (intro Trim_fixed)
  have "\<forall>c \<in> set name. \<not> is_separator c"
    using name(2) unfolding list_all_iff is_separator_def isspace_def by fastforce
  then have "takeWhile (\<lambda>c. \<not> is_separator c) ?line = name @ takeWhile (\<lambda>c. \<not> is_separator c) (CHR '' '' # a)"
    "dropWhile (\<lambda>c. \<not> is_separator c) ?line = dropWhile (\<lambda>c. \<not> is_separator c) (CHR '' '' # a)"
    by (intro takeWhile_append2 dropWhile_append2, simp)+
  then have cut: "takeWhile (\<lambda>c. \<not> is_separator c) ?line = name" "tl (dropWhile (\<lambda>c. \<not> is_separator c) ?line) = a"
    by (simp_all add: is_separator_def)
  show ?thesis
    unfolding input_Parse_def Let_def trims list.sel cut name(3) args
    using \<open>?line \<noteq> []\<close> by simp
qed

text \<open>
  C35: any name can be typed. Put between quotes, with a backslash before each quote and backslash
  of its own, a name - blanks, quotes and all - reaches its command letter for letter, and the
  message after it reaches \<open>/pm\<close> as it is.
\<close>

theorem quoted_names_reach:
  assumes name: "name \<noteq> []" and message: "message \<noteq> []" "\<not> isspace (hd message)" "\<not> isspace (last message)"
  shows "input_Parse F (''/pm '' @ quote name @ '' '' @ message) = Inr (Some (PrivateMessageCommand name message)) \<and>
    input_Parse F (''/join '' @ quote name) = Inr (Some (JoinCommand name)) \<and>
    input_Parse F (''/nick '' @ quote name) = Inr (Some (NickCommand name)) \<and>
    input_Parse F (''/list '' @ quote name) = Inr (Some (ListCommand (Some name))) \<and>
    input_Parse F (''/user '' @ quote name) = Inr (Some (UserCommand name Inspect (flt_lit F 0)))"
proof -
  have q: "quote name \<noteq> []" "hd (quote name) = CHR 0x22" "last (quote name) = CHR 0x22"
    by (simp_all add: quote_def)
  have one: "input_Parse F (CHR ''/'' # c @ CHR '' '' # quote name) = res_bind (parse_slash F c (quote name)) (\<lambda>c. Inr (Some c))"
    if "c \<noteq> []" "list_all (\<lambda>c. \<not> isspace c) c" "LowerAscii c = c" for c
    using that q not_spaces by (intro input_Parse_command) simp_all
  have lower: "LowerAscii ''pm'' = ''pm''" "LowerAscii ''join'' = ''join''" "LowerAscii ''nick'' = ''nick''"
    "LowerAscii ''list'' = ''list''" "LowerAscii ''user'' = ''user''"
    by (simp_all add: LowerAscii_def tolower_def)
  have solid: "list_all (\<lambda>c. \<not> isspace c) ''pm''" "list_all (\<lambda>c. \<not> isspace c) ''join''"
    "list_all (\<lambda>c. \<not> isspace c) ''nick''" "list_all (\<lambda>c. \<not> isspace c) ''list''" "list_all (\<lambda>c. \<not> isspace c) ''user''"
    by (simp_all add: isspace_def)
  have arg: "ParseArgument (quote name @ CHR '' '' # message) = Inr (name, message)"
    using ParseArgument_quote [of "CHR '' '' # message" name] message not_spaces(3)
    by (simp add: Trim_def strip_front strip_fixed)
  have "ParseArgument (quote name) = Inr (name, [])"
    using ParseArgument_quote [of "[]" name] by (simp add: Trim_def strip_def)
  moreover have "input_Parse F (CHR ''/'' # ''pm'' @ CHR '' '' # quote name @ CHR '' '' # message) =
      res_bind (parse_slash F ''pm'' (quote name @ CHR '' '' # message)) (\<lambda>c. Inr (Some c))"
    using q message not_spaces lower solid by (intro input_Parse_command) simp_all
  ultimately show ?thesis
    using one [of "''join''"] one [of "''nick''"] one [of "''list''"] one [of "''user''"] lower solid arg name message(1) q(1)
    by (simp add: parse_slash_def ParsePrivateMessage_def parse_user_def ParseWholeValue_quote)
qed

theorem quoted_names_reach_witness:
  "input_Parse whole_numbers (''/pm '' @ quote (CHR 0x22 # ''ann x'') @ '' '' @ ''hi there'') =
     Inr (Some (PrivateMessageCommand (CHR 0x22 # ''ann x'') ''hi there''))"
  using quoted_names_reach [of "CHR 0x22 # ''ann x''" "''hi there''" whole_numbers] by (simp add: isspace_def)

section \<open>Ranges\<close>

definition command_in_range :: "'f Float \<Rightarrow> 'f InputCommand \<Rightarrow> bool" where
  "command_in_range F c =
     (case c of
        UserCommand target kind v \<Rightarrow> target \<noteq> [] \<and>
          (kind = VolumeDb \<longrightarrow> flt_finite F v \<and> \<not> outside F (- 60) 12 v) \<and>
          (kind = VolumePercent \<longrightarrow> flt_finite F v \<and> \<not> outside F 0 398 v)
      | AudioCommand kind value v \<Rightarrow>
          (kind = Threshold \<longrightarrow> flt_finite F v \<and> \<not> outside F (- 100) 0 v) \<and>
          (kind = Transmit \<longrightarrow> value = ''on'' \<or> value = ''off'') \<and>
          (kind \<in> {Input, Output} \<longrightarrow> value \<noteq> [])
      | PrivateMessageCommand target text \<Rightarrow> target \<noteq> [] \<and> text \<noteq> []
      | ReplyCommand text \<Rightarrow> text \<noteq> []
      | JoinCommand channel \<Rightarrow> channel \<noteq> []
      | NickCommand nickname \<Rightarrow> nickname \<noteq> []
      | ListCommand start \<Rightarrow> start \<noteq> Some []
      | SendChannelCommand text \<Rightarrow> text \<noteq> []
      | _ \<Rightarrow> True)"

lemma ParseWholeValue_nonempty: "ParseWholeValue v u = Inr x \<Longrightarrow> x \<noteq> []"
  by (auto simp: ParseWholeValue_def Let_def res_bind_eq_Inr split: if_splits)

lemma ParseFloatValue_finite: "ParseFloatValue F v u = Inr x \<Longrightarrow> flt_finite F x"
  by (auto simp: ParseFloatValue_def Let_def split: if_splits option.splits list.splits prod.splits)

lemma parse_volume_range: "parse_volume F target r = Inr c \<Longrightarrow> target \<noteq> [] \<Longrightarrow> command_in_range F c"
  by (auto simp: parse_volume_def command_in_range_def res_bind_eq_Inr split: if_splits dest: ParseFloatValue_finite)

lemma parse_user_range: "parse_user F a = Inr c \<Longrightarrow> command_in_range F c"
  by (auto simp: parse_user_def res_bind_eq_Inr Let_def split: if_splits intro: parse_volume_range)
    (simp_all add: command_in_range_def)

lemma parse_audio_range: "parse_audio F a = Inr c \<Longrightarrow> command_in_range F c"
  by (auto simp: parse_audio_def command_in_range_def res_bind_eq_Inr Let_def split: if_splits
      dest: ParseFloatValue_finite ParseWholeValue_nonempty)

lemma parse_slash_range: "parse_slash F command a = Inr c \<Longrightarrow> command_in_range F c"
proof -
  have parts: "gives (command_in_range F) (parse_user F a)" "gives (command_in_range F) (parse_audio F a)"
    using parse_user_range parse_audio_range by (auto simp: gives_def)
  have message: "gives (command_in_range F) (ParsePrivateMessage a)"
    by (auto simp: ParsePrivateMessage_def gives_def command_in_range_def res_bind_eq_Inr Let_def split: if_splits)
  have reply: "gives (command_in_range F) (if a = [] then usage u else Inr (ReplyCommand a))" for u
    by (simp add: gives_def command_in_range_def)
  have "gives (command_in_range F) (parse_slash F command a)"
    unfolding parse_slash_def
    by (intro reply message parts gives_intros gives_bind gives_Inr)
      (auto simp: command_in_range_def dest: ParseWholeValue_nonempty)
  then show "parse_slash F command a = Inr c \<Longrightarrow> command_in_range F c"
    by (simp add: gives_def)
qed

text \<open>
  C36: Every command the parser gives is complete and in range: names and texts are not empty, a
  volume is a finite number between -60 and 12 dB or between 0 and 398 percent, a threshold
  between -100 and 0, and transmission is either on or off.
\<close>

theorem commands_in_range:
  assumes "input_Parse F line = Inr (Some c)"
  shows "command_in_range F c"
  using assms
  by (auto simp: input_Parse_def Let_def res_bind_eq_Inr split: if_splits intro: parse_slash_range)
    (simp add: command_in_range_def)

theorem commands_in_range_witness:
  "command_in_range whole_numbers (UserCommand ''bob'' VolumeDb (- 8))"
proof -
  have "print_int (- 8) = ''-8''"
    by code_simp
  then have "read_int ''-8'' = (Some (- 8), [])"
    using read_print_int [of "- 8"] by simp
  then have "input_Parse whole_numbers ''/user bob volume -8'' = Inr (Some (UserCommand ''bob'' VolumeDb (- 8)))"
    by (simp add: input_Parse_def Trim_def strip_def isspace_def is_separator_def LowerAscii_def tolower_def
        parse_slash_def parse_user_def ParseArgument_def parse_volume_def ParseWholeValue_def ParseFloatValue_def
        outside_def whole_numbers_def)
  then show ?thesis
    by (rule commands_in_range)
qed

section \<open>The client a name means\<close>

text \<open>
  A client is chosen for its settings only where there is one choice. \<open>#\<close> and a number mean
  the first client with that id, and nothing else; any other name means the only client of
  exactly that name, or, when there is none, the only client of that name in any case. More than
  one is reported as ambiguous, none as no match.
\<close>

theorem unique_client_is_unique:
  "ResolveUniqueClient candidates name =
     (case requested_id name of
        Some i \<Rightarrow>
          (case filter (\<lambda>c. tc_kind c = ClientTarget \<and> tc_id c = i) candidates of [] \<Rightarrow> NoMatch | c # _ \<Rightarrow> Match c)
      | None \<Rightarrow>
          (let named = (\<lambda>same. filter (\<lambda>c. tc_kind c = ClientTarget \<and> same (tc_name c) name) candidates);
               lower = (\<lambda>a b. LowerAscii a = LowerAscii b)
           in if length (named (=)) = 1 then Match (hd (named (=)))
              else if length (named (=)) > 1 then Ambiguous
              else if length (named lower) = 1 then Match (hd (named lower))
              else if length (named lower) > 1 then Ambiguous
              else NoMatch))"
proof -
  have same: "EqualAsciiInsensitive a b \<longleftrightarrow> LowerAscii a = LowerAscii b" for a b
    by (auto simp: EqualAsciiInsensitive_def LowerAscii_def list_all2_conv_all_nth list_eq_iff_nth_eq)
  have find: "List.find P xs = (case filter P xs of [] \<Rightarrow> None | x # _ \<Rightarrow> Some x)" for P and xs :: "TargetCandidate list"
    by (induction xs) auto
  show ?thesis
    by (auto simp: ResolveUniqueClient_def find_matches_def same find Let_def split: option.splits list.splits)
qed

end
