(* ===== verification/Audio_Parts.thy ===== *)
theory Audio_Parts
  imports Jitter_Buffer Spsc_Ring Secure_Files Statistics
begin

text \<open>
  What the audio engine is made of: its data types (\<open>audio/include/audio/audio_types.hpp\<close>), the
  voice-activation gate (\<open>capture_gate.hpp\<close>), the capture filters (\<open>audio/src/capture_filter.cpp\<close>,
  \<open>rnnoise_filter.cpp\<close>), the notification sounds (\<open>notification_synthesizer.cpp\<close>) and the Opus codec
  (\<open>opus_codec.cpp\<close>).

  Floating-point arithmetic is the record \<open>Sound\<close>: single precision \<open>'f\<close> with what \<open>Float\<close> and the
  fields here offer, double precision \<open>'d\<close> with \<open>Double\<close>. The Opus library is the record \<open>Opus\<close>, the
  RNNoise library one function. A \<open>PcmFrame\<close> is the list of its samples.

  The lemmas show that the gate stays open for exactly the hangover after the last loud frame,
  that a notification lasts as long as its steps say however it is cut into frames, and that
  the codec's buffers are not overrun.
\<close>

section \<open>Types\<close>

definition SampleRate :: nat where "SampleRate = 48000"
definition SamplesPerFrame :: nat where "SamplesPerFrame = 960"
definition MaxDecodedSamples :: nat where "MaxDecodedSamples = 5760"
definition MaxEncodedBytes :: nat where "MaxEncodedBytes = 484"

datatype NotificationType = Message | Success | Failure | Reminder

record AudioDevice =
  ad_id :: u32
  ad_isOutput :: bool
  ad_name :: string
  ad_description :: string

type_synonym 'f PcmFrame = "'f list"

record EncodedFrame =
  en_data :: bytes
  en_size :: nat
  en_transmitRevision :: u64
  en_talkStart :: bool
  en_talkEnd :: bool

definition empty_EncodedFrame :: EncodedFrame where
  "empty_EncodedFrame = \<lparr>en_data = replicate MaxEncodedBytes 0, en_size = 0, en_transmitRevision = 0,
     en_talkStart = False, en_talkEnd = False\<rparr>"

record TransmitStateChange =
  ts_enabled :: bool
  ts_revision :: u64

datatype CaptureMonitor = Off | Level | Loopback

record 'f TalkerSettings =
  tk_volumeDb :: 'f
  tk_muted :: bool

record DeviceClock =
  dc_rate :: u32
  dc_period :: u32

record ('f, 'd) Sound =
  snd_float :: "'f Float"
  snd_double :: "'d Double"
  snd_add :: "'f \<Rightarrow> 'f \<Rightarrow> 'f"
  snd_sub :: "'f \<Rightarrow> 'f \<Rightarrow> 'f"
  snd_mul :: "'f \<Rightarrow> 'f \<Rightarrow> 'f"
  snd_div :: "'f \<Rightarrow> 'f \<Rightarrow> 'f"
  snd_dec :: "int \<Rightarrow> nat \<Rightarrow> 'f"
  snd_sin :: "'f \<Rightarrow> 'f"
  snd_pow10 :: "'f \<Rightarrow> 'f"
  snd_widen :: "'f \<Rightarrow> 'd"
  snd_narrow :: "'d \<Rightarrow> 'f"
  snd_sqrt :: "'d \<Rightarrow> 'd"
  snd_log10 :: "'d \<Rightarrow> 'd"
  snd_dpow10 :: "'d \<Rightarrow> 'd"
  snd_minimumRms :: 'd
  snd_fixed1 :: "'d \<Rightarrow> string"

text \<open>\<open>snd_dec n k\<close> is the literal with the digits of \<open>n\<close>, the last \<open>k\<close> of them behind the point.\<close>

abbreviation flit :: "('f, 'd) Sound \<Rightarrow> int \<Rightarrow> 'f" where
  "flit S n \<equiv> flt_lit (snd_float S) n"

abbreviation fless :: "('f, 'd) Sound \<Rightarrow> 'f \<Rightarrow> 'f \<Rightarrow> bool" where
  "fless S \<equiv> flt_less (snd_float S)"

definition clamp :: "('f, 'd) Sound \<Rightarrow> 'f \<Rightarrow> 'f \<Rightarrow> 'f \<Rightarrow> 'f" where
  "clamp S v lo hi = (if fless S v lo then lo else if fless S hi v then hi else v)"

definition FormatDeviceClock :: "('f, 'd) Sound \<Rightarrow> DeviceClock \<Rightarrow> string" where
  "FormatDeviceClock S clock =
     (if dc_rate clock = 0 then ''unknown''
      else to_string (unat (dc_rate clock)) @ '' Hz'' @
        (if dc_period clock \<noteq> 0
         then let D = snd_double S;
                  milliseconds = dbl_div D (dbl_mul D (dbl_lit D 1000) (dbl_of_u64 D (ucast (dc_period clock))))
                                   (dbl_of_u64 D (ucast (dc_rate clock)))
              in '', '' @ to_string (unat (dc_period clock)) @ ''-sample periods ('' @ snd_fixed1 S milliseconds @ '' ms)''
         else []) @
        (if unat (dc_rate clock) \<noteq> SampleRate then '', resampled'' else []))"

section \<open>Voice activation\<close>

record 'f CaptureGate =
  cg_hangoverRemaining :: nat
  cg_active :: bool
  cg_levelDb :: 'f

definition HangoverFrames :: nat where "HangoverFrames = 15"

definition new_CaptureGate :: "('f, 'd) Sound \<Rightarrow> 'f CaptureGate" where
  "new_CaptureGate S = \<lparr>cg_hangoverRemaining = 0, cg_active = False, cg_levelDb = flit S (- 100)\<rparr>"

fun sum_squares :: "('f, 'd) Sound \<Rightarrow> 'f list \<Rightarrow> 'd \<Rightarrow> 'd" where
  "sum_squares S [] sumSquares = sumSquares"
| "sum_squares S (sample # samples) sumSquares =
     (let D = snd_double S; v = snd_widen S sample
      in sum_squares S samples (dbl_add D sumSquares (dbl_mul D v v)))"

definition frame_rms :: "('f, 'd) Sound \<Rightarrow> 'f PcmFrame \<Rightarrow> 'd" where
  "frame_rms S frame =
     (let D = snd_double S in
      snd_sqrt S (dbl_div D (sum_squares S frame (dbl_lit D 0)) (dbl_of_u64 D (of_nat (length frame)))))"

definition gate_level :: "('f, 'd) Sound \<Rightarrow> 'd \<Rightarrow> 'f" where
  "gate_level S rms =
     (let D = snd_double S in
      if dbl_le D rms (snd_minimumRms S) then flit S (- 100)
      else snd_narrow S (dbl_mul D (dbl_lit D 20) (snd_log10 S rms)))"

definition loud :: "('f, 'd) Sound \<Rightarrow> 'f PcmFrame \<Rightarrow> 'f \<Rightarrow> bool" where
  "loud S frame thresholdDb =
     (let D = snd_double S
      in dbl_le D (snd_dpow10 S (dbl_div D (snd_widen S thresholdDb) (dbl_lit D 20))) (frame_rms S frame))"

definition gate_Process :: "('f, 'd) Sound \<Rightarrow> 'f PcmFrame \<Rightarrow> 'f \<Rightarrow> 'f CaptureGate \<Rightarrow> bool \<times> 'f CaptureGate" where
  "gate_Process S frame thresholdDb g =
     (let g = g\<lparr>cg_levelDb := gate_level S (frame_rms S frame)\<rparr> in
      if loud S frame thresholdDb then (True, g\<lparr>cg_active := True, cg_hangoverRemaining := HangoverFrames\<rparr>)
      else if \<not> cg_active g then (False, g)
      else if cg_hangoverRemaining g \<noteq> 0 then (True, g\<lparr>cg_hangoverRemaining := cg_hangoverRemaining g - 1\<rparr>)
      else (False, g\<lparr>cg_active := False\<rparr>))"

definition gate_Reset :: "'f CaptureGate \<Rightarrow> 'f CaptureGate" where
  "gate_Reset g = g\<lparr>cg_active := False, cg_hangoverRemaining := 0\<rparr>"

text \<open>The decisions on a sequence of frames, each with the threshold of its moment.\<close>

fun gate_run :: "('f, 'd) Sound \<Rightarrow> ('f PcmFrame \<times> 'f) list \<Rightarrow> 'f CaptureGate \<Rightarrow> bool list" where
  "gate_run S [] g = []"
| "gate_run S ((frame, thresholdDb) # frames) g =
     (case gate_Process S frame thresholdDb g of (b, g) \<Rightarrow> b # gate_run S frames g)"

section \<open>Capture filters\<close>

text \<open>
  \<open>None\<close> is the filter that passes through, \<open>Some k\<close> the RNNoise filter with the state \<open>k\<close>. The
  library function processes a block of 480 samples; the build option is an argument.
\<close>

definition RnnoiseFrameSamples :: nat where "RnnoiseFrameSamples = 480"

record ('k, 'f) Rnnoise =
  rn_create :: "'k option"
  rn_process :: "'k \<Rightarrow> 'f list \<Rightarrow> 'f list \<times> 'k"

definition rnnoise_block :: "('f, 'd) Sound \<Rightarrow> ('k, 'f) Rnnoise \<Rightarrow> 'f list \<Rightarrow> 'k \<Rightarrow> 'f list \<times> 'k" where
  "rnnoise_block S R samples k =
     (case rn_process R k (map (\<lambda>x. snd_mul S x (flit S 32768)) samples) of
        (block, k) \<Rightarrow> (map (\<lambda>x. clamp S (snd_div S x (flit S 32768)) (flit S (- 1)) (flit S 1)) block, k))"

definition filter_Process ::
  "('f, 'd) Sound \<Rightarrow> ('k, 'f) Rnnoise \<Rightarrow> 'f PcmFrame \<Rightarrow> 'k option \<Rightarrow> 'f PcmFrame \<times> 'k option" where
  "filter_Process S R frame f =
     (case f of
        None \<Rightarrow> (frame, None)
      | Some k \<Rightarrow>
          case rnnoise_block S R (take RnnoiseFrameSamples frame) k of (first, k) \<Rightarrow>
          case rnnoise_block S R (drop RnnoiseFrameSamples frame) k of (second, k) \<Rightarrow>
          (first @ second, Some k))"

definition CreateCaptureFilter :: "bool \<Rightarrow> ('k, 'f) Rnnoise \<Rightarrow> string \<Rightarrow> 'k option result" where
  "CreateCaptureFilter haveRnnoise R name =
     (if name = ''none'' then Inr None
      else if haveRnnoise \<and> name = ''rnnoise'' then
        (case rn_create R of
           None \<Rightarrow> Inl (RuntimeError ''Failed to create RNNoise state'')
         | Some k \<Rightarrow> Inr (Some k))
      else Inl (RuntimeError (''Audio capture filter is unavailable: '' @ name)))"

definition AvailableCaptureFilters :: "bool \<Rightarrow> string list" where
  "AvailableCaptureFilters haveRnnoise = ''none'' # (if haveRnnoise then [''rnnoise''] else [])"

section \<open>Notification sounds\<close>

record 'f Step =
  st_frequencyHz :: 'f
  st_durationMilliseconds :: nat
  st_volume :: 'f

record 'f Pattern =
  pt_steps :: "'f Step list"
  pt_stepCount :: nat

record 'f NotificationSynthesizer =
  ns_pattern :: "'f Pattern"
  ns_stepIndex :: nat
  ns_stepSample :: nat

definition no_step :: "('f, 'd) Sound \<Rightarrow> 'f Step" where
  "no_step S = \<lparr>st_frequencyHz = flit S 0, st_durationMilliseconds = 0, st_volume = flit S 0\<rparr>"

definition new_NotificationSynthesizer :: "('f, 'd) Sound \<Rightarrow> 'f NotificationSynthesizer" where
  "new_NotificationSynthesizer S =
     \<lparr>ns_pattern = \<lparr>pt_steps = replicate 3 (no_step S), pt_stepCount = 0\<rparr>, ns_stepIndex = 0, ns_stepSample = 0\<rparr>"

text \<open>A step from its frequency in hundredths, its duration and its volume in hundredths.\<close>

definition tone :: "('f, 'd) Sound \<Rightarrow> int \<Rightarrow> nat \<Rightarrow> int \<Rightarrow> 'f Step" where
  "tone S frequency duration volume =
     \<lparr>st_frequencyHz = snd_dec S frequency 2, st_durationMilliseconds = duration, st_volume = snd_dec S volume 2\<rparr>"

definition pause :: "('f, 'd) Sound \<Rightarrow> nat \<Rightarrow> 'f Step" where
  "pause S duration = (no_step S)\<lparr>st_durationMilliseconds := duration\<rparr>"

fun PatternFor :: "('f, 'd) Sound \<Rightarrow> NotificationType \<Rightarrow> 'f Pattern" where
  "PatternFor S Message = \<lparr>pt_steps = [tone S 88000 120 18, no_step S, no_step S], pt_stepCount = 1\<rparr>"
| "PatternFor S Success = \<lparr>pt_steps = [tone S 52325 80 17, pause S 20, tone S 65925 130 19], pt_stepCount = 3\<rparr>"
| "PatternFor S Failure = \<lparr>pt_steps = [tone S 52000 100 17, pause S 20, tone S 33000 170 19], pt_stepCount = 3\<rparr>"
| "PatternFor S Reminder = \<lparr>pt_steps = [tone S 78399 70 16, pause S 80, tone S 104650 100 18], pt_stepCount = 3\<rparr>"

definition SamplesFor :: "'f Step \<Rightarrow> nat" where
  "SamplesFor step = SampleRate * st_durationMilliseconds step div 1000"

definition Envelope :: "('f, 'd) Sound \<Rightarrow> 'f \<Rightarrow> 'f" where
  "Envelope S progress =
     (let attack = snd_dec S 8 2; release = snd_dec S 25 2 in
      if fless S progress attack then snd_div S progress attack
      else if fless S (snd_sub S (flit S 1) release) progress then snd_div S (snd_sub S (flit S 1) progress) release
      else flit S 1)"

definition synth_Start :: "('f, 'd) Sound \<Rightarrow> NotificationType \<Rightarrow> 'f NotificationSynthesizer \<Rightarrow> 'f NotificationSynthesizer" where
  "synth_Start S type s = s\<lparr>ns_pattern := PatternFor S type, ns_stepIndex := 0, ns_stepSample := 0\<rparr>"

definition synth_Active :: "'f NotificationSynthesizer \<Rightarrow> bool" where
  "synth_Active s \<longleftrightarrow> ns_stepIndex s < pt_stepCount (ns_pattern s)"

definition current_step :: "'f NotificationSynthesizer \<Rightarrow> 'f Step" where
  "current_step s = pt_steps (ns_pattern s) ! ns_stepIndex s"

function AdvanceCompletedSteps :: "'f NotificationSynthesizer \<Rightarrow> 'f NotificationSynthesizer" where
  "AdvanceCompletedSteps s =
     (if \<not> synth_Active s then s
      else if ns_stepSample s < SamplesFor (current_step s) then s
      else AdvanceCompletedSteps (s\<lparr>ns_stepIndex := ns_stepIndex s + 1, ns_stepSample := 0\<rparr>))"
  by pat_completeness auto
termination
  by (relation "measure (\<lambda>s. pt_stepCount (ns_pattern s) - ns_stepIndex s)") (auto simp: synth_Active_def)

declare AdvanceCompletedSteps.simps [simp del]

definition step_sample :: "('f, 'd) Sound \<Rightarrow> 'f NotificationSynthesizer \<Rightarrow> 'f \<Rightarrow> 'f" where
  "step_sample S s x =
     (let step = current_step s; stepSamples = SamplesFor step in
      if fless S (flit S 0) (st_frequencyHz step) then
        let count = (\<lambda>n. flit S (int n));
            time = snd_div S (count (ns_stepSample s)) (count SampleRate);
            progress = if stepSamples > 1 then snd_div S (count (ns_stepSample s)) (count (stepSamples - 1)) else flit S 1
        in snd_add S x (snd_mul S (snd_mul S (snd_sin S (snd_mul S (snd_mul S (snd_dec S 628318530717958647692 20)
             (st_frequencyHz step)) time)) (st_volume step)) (Envelope S progress))
      else x)"

fun mix_samples ::
  "('f, 'd) Sound \<Rightarrow> 'f list \<Rightarrow> 'f NotificationSynthesizer \<Rightarrow> 'f list \<times> bool \<times> 'f NotificationSynthesizer" where
  "mix_samples S [] s = ([], False, s)"
| "mix_samples S (x # xs) s =
     (let s = AdvanceCompletedSteps s in
      if \<not> synth_Active s then (x # xs, False, s)
      else case mix_samples S xs (s\<lparr>ns_stepSample := ns_stepSample s + 1\<rparr>) of
             (ys, _, s') \<Rightarrow> (step_sample S s x # ys, True, s'))"

definition synth_Mix ::
  "('f, 'd) Sound \<Rightarrow> 'f PcmFrame \<Rightarrow> 'f NotificationSynthesizer \<Rightarrow> 'f PcmFrame \<times> bool \<times> 'f NotificationSynthesizer" where
  "synth_Mix S frame s =
     (let s = AdvanceCompletedSteps s in
      if \<not> synth_Active s then (frame, False, s)
      else case mix_samples S frame s of (frame, produced, s) \<Rightarrow> (frame, produced, AdvanceCompletedSteps s))"

section \<open>Opus\<close>

datatype EncoderRequest =
    SetBitrate int | SetComplexity int | SetInbandFec int | SetPacketLossPerc int | SetDtx int | ResetState

record ('e, 'dc, 'f) Opus =
  ox_encoder_create :: "int \<times> 'e"
  ox_encoder_ctl :: "EncoderRequest \<Rightarrow> 'e \<Rightarrow> int \<times> 'e"
  ox_encode_float :: "'e \<Rightarrow> 'f list \<Rightarrow> nat \<Rightarrow> int \<times> bytes \<times> 'e"
  ox_decoder_create :: "int \<times> 'dc"
  ox_decoder_reset :: "'dc \<Rightarrow> int \<times> 'dc"
  ox_decode_float :: "'dc \<Rightarrow> bytes option \<Rightarrow> nat \<Rightarrow> bool \<Rightarrow> int \<times> 'f list \<times> 'dc"
  ox_strerror :: "int \<Rightarrow> string"

datatype DecodeMode = DecodeNormal | DecodePacketLoss | DecodeForwardErrorCorrection

definition CheckOpus :: "('e, 'dc, 'f) Opus \<Rightarrow> int \<Rightarrow> string \<Rightarrow> unit result" where
  "CheckOpus X result operation =
     (if result \<ge> 0 then Inr () else Inl (RuntimeError (operation @ '': '' @ ox_strerror X result)))"

text \<open>A library function that writes \<open>written\<close> to the front of an array.\<close>

definition overwrite :: "'a list \<Rightarrow> 'a list \<Rightarrow> 'a list" where
  "overwrite written arr = take (length arr) written @ drop (length written) arr"

definition encoder_ctl :: "('e, 'dc, 'f) Opus \<Rightarrow> EncoderRequest \<Rightarrow> string \<Rightarrow> ('e, unit) op" where
  "encoder_ctl X request operation e = (case ox_encoder_ctl X request e of (r, e) \<Rightarrow> (CheckOpus X r operation, e))"

definition CreateEncoder :: "('e, 'dc, 'f) Opus \<Rightarrow> 'e result" where
  "CreateEncoder X =
     (case ox_encoder_create X of
        (r, e) \<Rightarrow>
          res_bind (CheckOpus X r ''Failed to create Opus encoder'') (\<lambda>_.
          case (op_bind (encoder_ctl X (SetBitrate 48000) ''Failed to set Opus bitrate'') (\<lambda>_.
                op_bind (encoder_ctl X (SetComplexity 6) ''Failed to set Opus complexity'') (\<lambda>_.
                op_bind (encoder_ctl X (SetInbandFec 1) ''Failed to enable Opus FEC'') (\<lambda>_.
                op_bind (encoder_ctl X (SetPacketLossPerc 5) ''Failed to set Opus packet-loss hint'') (\<lambda>_.
                encoder_ctl X (SetDtx 0) ''Failed to configure Opus DTX''))))) e of
            (r, e) \<Rightarrow> res_bind r (\<lambda>_. Inr e)))"

text \<open>The array after the call and the number of bytes written to it.\<close>

definition encoder_Encode :: "('e, 'dc, 'f) Opus \<Rightarrow> 'f PcmFrame \<Rightarrow> bytes \<Rightarrow> ('e, bytes \<times> nat) op" where
  "encoder_Encode X frame output e =
     (case ox_encode_float X e frame (length output) of
        (encoded, written, e) \<Rightarrow>
          (res_bind (CheckOpus X encoded ''Failed to encode Opus audio'') (\<lambda>_. Inr (overwrite written output, nat encoded)), e))"

definition encoder_Reset :: "('e, 'dc, 'f) Opus \<Rightarrow> ('e, unit) op" where
  "encoder_Reset X = encoder_ctl X ResetState ''Failed to reset Opus encoder''"

definition CreateDecoder :: "('e, 'dc, 'f) Opus \<Rightarrow> 'dc result" where
  "CreateDecoder X =
     (case ox_decoder_create X of
        (r, d) \<Rightarrow> res_bind (CheckOpus X r ''Failed to create Opus decoder'') (\<lambda>_. Inr d))"

text \<open>The number of samples and the array of \<open>MaxDecodedSamples\<close> they are at the front of.\<close>

definition decoder_Decode ::
  "('f, 'd) Sound \<Rightarrow> ('e, 'dc, 'f) Opus \<Rightarrow> bytes \<Rightarrow> DecodeMode \<Rightarrow> nat \<Rightarrow> ('dc, nat \<times> 'f list) op" where
  "decoder_Decode S X input mode recoverySamples d =
     (let recovering = mode \<noteq> DecodeNormal; output = replicate MaxDecodedSamples (flit S 0) in
      if recovering \<and> (recoverySamples = 0 \<or> recoverySamples > MaxDecodedSamples)
      then (Inl (RuntimeError ''Invalid Opus recovery duration''), d)
      else if mode = DecodeForwardErrorCorrection \<and> input = []
      then (Inl (RuntimeError ''Opus FEC requires the following packet''), d)
      else
        let data = if mode = DecodePacketLoss \<or> input = [] then None else Some input;
            capacity = if recovering then recoverySamples else MaxDecodedSamples
        in case ox_decode_float X d data capacity (mode = DecodeForwardErrorCorrection) of
             (samples, written, d) \<Rightarrow>
               (res_bind (CheckOpus X samples ''Failed to decode Opus audio'') (\<lambda>_.
                if samples \<le> 0 then Inr (0, overwrite written output)
                else if recovering \<and> nat samples \<noteq> recoverySamples
                then Inl (RuntimeError ''Opus recovery returned an unexpected duration'')
                else Inr (nat samples, overwrite written output)), d))"

definition decoder_Reset :: "('e, 'dc, 'f) Opus \<Rightarrow> ('dc, unit) op" where
  "decoder_Reset X d =
     (case ox_decoder_reset X d of (r, d) \<Rightarrow> (CheckOpus X r ''Failed to reset Opus decoder'', d))"

text \<open>What the library documents of its functions: they write no more than the buffer holds.\<close>

definition opus_ok :: "('e, 'dc, 'f) Opus \<Rightarrow> bool" where
  "opus_ok X \<longleftrightarrow>
     (\<forall>e frame n. fst (ox_encode_float X e frame n) \<le> int n \<and> length (fst (snd (ox_encode_float X e frame n))) \<le> n) \<and>
     (\<forall>d data n fec. fst (ox_decode_float X d data n fec) \<le> int n \<and> length (fst (snd (ox_decode_float X d data n fec))) \<le> n)"

lemma length_overwrite: "length written \<le> length arr \<Longrightarrow> length (overwrite written arr) = length arr"
  by (simp add: overwrite_def)

lemma encoder_Encode_size:
  assumes "opus_ok X" and "encoder_Encode X frame output e = (Inr (arr, n), e')"
  shows "n \<le> length output \<and> length arr = length output"
proof -
  obtain r written e'' where run: "ox_encode_float X e frame (length output) = (r, written, e'')" by (metis surj_pair)
  then have "r \<le> int (length output)" "length written \<le> length output" using assms(1) unfolding opus_ok_def by (metis fst_conv snd_conv)+
  with run assms(2) show ?thesis by (auto simp: encoder_Encode_def res_bind_eq_Inr length_overwrite)
qed

lemma decoder_Decode_size:
  assumes "opus_ok X" and "decoder_Decode S X input mode recovery d = (Inr (n, arr), d')"
  shows "n \<le> MaxDecodedSamples \<and> length arr = MaxDecodedSamples"
proof -
  define capacity where "capacity = (if mode \<noteq> DecodeNormal then recovery else MaxDecodedSamples)"
  define data where "data = (if mode = DecodePacketLoss \<or> input = [] then None else Some input)"
  obtain r written d'' where run: "ox_decode_float X d data capacity (mode = DecodeForwardErrorCorrection) = (r, written, d'')"
    by (metis surj_pair)
  then have fits: "r \<le> int capacity" "length written \<le> capacity" using assms(1) unfolding opus_ok_def by (metis fst_conv snd_conv)+
  have "capacity \<le> MaxDecodedSamples"
    using assms(2) by (auto simp: decoder_Decode_def Let_def capacity_def split: if_splits)
  moreover have "n = 0 \<or> int n = r" "arr = overwrite written (replicate MaxDecodedSamples (flit S 0))"
    using assms(2) run
    by (auto simp: decoder_Decode_def Let_def capacity_def [symmetric] data_def [symmetric] res_bind_eq_Inr split: if_splits)
  ultimately show ?thesis using fits by (auto simp: length_overwrite)
qed

section \<open>The gate\<close>

lemma gate_run_from:
  assumes "i < length frames" and "cg_hangoverRemaining g \<le> HangoverFrames"
  shows "gate_run S frames g ! i \<longleftrightarrow>
    (\<exists>j \<le> i. i \<le> j + HangoverFrames \<and> loud S (fst (frames ! j)) (snd (frames ! j))) \<or> (cg_active g \<and> i < cg_hangoverRemaining g)"
  using assms
proof (induction frames arbitrary: i g)
  case (Cons fr frames)
  obtain frame threshold where fr: "fr = (frame, threshold)" by force
  obtain b g' where step: "gate_Process S frame threshold g = (b, g')" by force
  define P where "P x \<longleftrightarrow> loud S (fst x) (snd x)" for x
  show ?case
  proof (cases i)
    case 0
    with fr step Cons.prems(2) show ?thesis by (auto simp: gate_Process_def Let_def split: if_splits)
  next
    case (Suc k)
    have "cg_hangoverRemaining g' \<le> HangoverFrames"
      using step Cons.prems(2) by (auto simp: gate_Process_def Let_def split: if_splits)
    then have rest: "gate_run S frames g' ! k \<longleftrightarrow>
        (\<exists>j \<le> k. k \<le> j + HangoverFrames \<and> P (frames ! j)) \<or> (cg_active g' \<and> k < cg_hangoverRemaining g')"
      using Cons Suc by (simp add: P_def)
    have now: "(cg_active g' \<and> k < cg_hangoverRemaining g') \<longleftrightarrow>
        (if P fr then Suc k \<le> HangoverFrames else cg_active g \<and> Suc k < cg_hangoverRemaining g)"
      using step by (auto simp: gate_Process_def Let_def fr P_def split: if_splits)
    have shift: "(\<exists>j \<le> Suc k. Suc k \<le> j + HangoverFrames \<and> P ((fr # frames) ! j)) \<longleftrightarrow>
        (Suc k \<le> HangoverFrames \<and> P fr) \<or> (\<exists>j \<le> k. k \<le> j + HangoverFrames \<and> P (frames ! j))"
      by (metis (no_types, lifting) Suc_le_mono add_Suc nth_Cons_0 nth_Cons_Suc add_0 le0 not0_implies_Suc)
    have "gate_run S (fr # frames) g ! i \<longleftrightarrow> gate_run S frames g' ! k" by (simp add: Suc fr step)
    with rest now shift Cons.prems(2) show ?thesis unfolding P_def [symmetric] Suc by (cases "P fr") auto
  qed
qed simp

section \<open>Notifications\<close>

text \<open>What is left to play, in samples.\<close>

definition sounding :: "'f NotificationSynthesizer \<Rightarrow> nat" where
  "sounding s = (\<Sum>i \<leftarrow> [ns_stepIndex s..<pt_stepCount (ns_pattern s)]. SamplesFor (pt_steps (ns_pattern s) ! i)) - ns_stepSample s"

definition synth_inv :: "'f NotificationSynthesizer \<Rightarrow> bool" where
  "synth_inv s \<longleftrightarrow> (if synth_Active s then ns_stepSample s \<le> SamplesFor (current_step s) else ns_stepSample s = 0)"

lemma sounding_active:
  "synth_Active s \<Longrightarrow> sounding s = SamplesFor (current_step s) +
     (\<Sum>i \<leftarrow> [ns_stepIndex s + 1..<pt_stepCount (ns_pattern s)]. SamplesFor (pt_steps (ns_pattern s) ! i)) - ns_stepSample s"
  by (simp add: sounding_def synth_Active_def current_step_def upt_conv_Cons)

lemma sounding_inactive [simp]: "\<not> synth_Active s \<Longrightarrow> sounding s = 0"
  by (simp add: sounding_def synth_Active_def)

lemma Advance_steps:
  "synth_inv s \<Longrightarrow> synth_inv (AdvanceCompletedSteps s) \<and> sounding (AdvanceCompletedSteps s) = sounding s \<and>
     (synth_Active (AdvanceCompletedSteps s) \<longleftrightarrow> sounding s \<noteq> 0) \<and>
     (sounding s \<noteq> 0 \<longrightarrow> ns_stepSample (AdvanceCompletedSteps s) < SamplesFor (current_step (AdvanceCompletedSteps s))) \<and>
     AdvanceCompletedSteps (AdvanceCompletedSteps s) = AdvanceCompletedSteps s"
proof (induction s rule: AdvanceCompletedSteps.induct)
  case (1 s)
  let ?s = "s\<lparr>ns_stepIndex := ns_stepIndex s + 1, ns_stepSample := 0\<rparr>"
  consider (inactive) "\<not> synth_Active s" | (inside) "synth_Active s" "ns_stepSample s < SamplesFor (current_step s)"
    | (completed) "synth_Active s" "ns_stepSample s = SamplesFor (current_step s)"
    using 1(2) by (fastforce simp: synth_inv_def order_le_less split: if_splits)
  then show ?case
  proof cases
    case inactive
    then have "AdvanceCompletedSteps s = s" by (subst AdvanceCompletedSteps.simps) simp
    with inactive 1(2) show ?thesis by simp
  next
    case inside
    then have "AdvanceCompletedSteps s = s" by (subst AdvanceCompletedSteps.simps) simp
    with inside 1(2) show ?thesis by (simp add: sounding_active)
  next
    case completed
    have "AdvanceCompletedSteps s = AdvanceCompletedSteps ?s" using completed by (subst AdvanceCompletedSteps.simps) simp
    moreover have "synth_inv ?s" by (simp add: synth_inv_def)
    moreover have "sounding ?s = sounding s" using completed by (simp add: sounding_active) (simp add: sounding_def)
    ultimately show ?thesis using 1(1) completed by simp
  qed
qed

lemma mix_samples_plays:
  "synth_inv s \<Longrightarrow> mix_samples S xs s = (ys, produced, s') \<Longrightarrow>
     synth_inv s' \<and> sounding s' = sounding s - length xs \<and> (produced \<longleftrightarrow> xs \<noteq> [] \<and> sounding s \<noteq> 0) \<and>
     length ys = length xs \<and> drop (sounding s) ys = drop (sounding s) xs"
proof (induction xs arbitrary: s ys produced s')
  case (Cons x xs)
  let ?a = "AdvanceCompletedSteps s"
  note adv = Advance_steps [OF Cons.prems(1)]
  show ?case
  proof (cases "sounding s = 0")
    case True
    with adv Cons.prems show ?thesis by (auto simp: Let_def)
  next
    case False
    let ?b = "?a\<lparr>ns_stepSample := ns_stepSample ?a + 1\<rparr>"
    obtain zs p where rest: "mix_samples S xs ?b = (zs, p, s')" and ys: "ys = step_sample S ?a x # zs" "produced"
      using Cons.prems(2) adv False by (auto simp: Let_def split: prod.splits)
    have "synth_Active ?b" "ns_stepSample ?a < SamplesFor (current_step ?a)" using adv False by (simp_all add: synth_Active_def)
    then have "synth_inv ?b" by (simp add: synth_inv_def current_step_def)
    moreover have "sounding ?b = sounding ?a - 1" by (simp add: sounding_def)
    ultimately have "synth_inv ?b" "sounding ?b = sounding s - 1" using adv by simp_all
    from Cons.IH [OF this(1) rest] this(2) False ys show ?thesis
      by (cases "sounding s") auto
  qed
qed auto

lemma synth_Mix_plays:
  assumes "synth_inv s" and "synth_Mix S xs s = (ys, produced, s')"
  shows "synth_inv s' \<and> sounding s' = sounding s - length xs \<and> (produced \<longleftrightarrow> xs \<noteq> [] \<and> sounding s \<noteq> 0) \<and>
    length ys = length xs \<and> drop (sounding s) ys = drop (sounding s) xs"
proof (cases "sounding s = 0")
  case True
  with Advance_steps [OF assms(1)] assms(2) show ?thesis by (auto simp: synth_Mix_def Let_def)
next
  case False
  let ?a = "AdvanceCompletedSteps s"
  note adv = Advance_steps [OF assms(1)]
  from adv False assms(2) obtain t where run: "mix_samples S xs ?a = (ys, produced, t)" "s' = AdvanceCompletedSteps t"
    by (auto simp: synth_Mix_def Let_def split: prod.splits)
  from mix_samples_plays [OF _ run(1)] Advance_steps [of t] adv run(2) show ?thesis by simp
qed

text \<open>A sequence of frames mixed one after another.\<close>

fun synth_run ::
  "('f, 'd) Sound \<Rightarrow> 'f PcmFrame list \<Rightarrow> 'f NotificationSynthesizer \<Rightarrow> ('f PcmFrame \<times> bool) list" where
  "synth_run S [] s = []"
| "synth_run S (frame # frames) s = (case synth_Mix S frame s of (ys, produced, s) \<Rightarrow> (ys, produced) # synth_run S frames s)"

fun duration :: "NotificationType \<Rightarrow> nat" where
  "duration Message = 5760"
| "duration Success = 11040"
| "duration Failure = 13920"
| "duration Reminder = 12000"

lemma synth_run_sounding:
  assumes "synth_inv s" and "i < length frames" and "frames ! i \<noteq> []"
  shows "snd (synth_run S frames s ! i) \<longleftrightarrow> length (concat (take i frames)) < sounding s"
  using assms
proof (induction frames arbitrary: s i)
  case (Cons frame frames)
  obtain ys p s' where step: "synth_Mix S frame s = (ys, p, s')" by (metis surj_pair)
  note plays = synth_Mix_plays [OF Cons.prems(1) step]
  show ?case
  proof (cases i)
    case 0
    with plays step Cons.prems(3) show ?thesis by simp
  next
    case (Suc k)
    with Cons plays step show ?thesis by auto
  qed
qed simp

lemma synth_Start_sounding: "synth_inv (synth_Start S type s) \<and> sounding (synth_Start S type s) = duration type"
  by (cases type)
    (simp_all add: synth_inv_def sounding_def synth_Start_def synth_Active_def current_step_def tone_def pause_def SamplesFor_def
      SampleRate_def upt_rec)

section \<open>Witness instance\<close>

text \<open>Whole numbers for both precisions, enough for the witnesses to compute with.\<close>

definition whole_doubles :: "int Double" where
  "whole_doubles = \<lparr>dbl_lit = id, dbl_of_u64 = uint, dbl_seconds = id, dbl_millis = id, dbl_add = (+), dbl_sub = (-),
     dbl_mul = (*), dbl_div = (div), dbl_abs = abs, dbl_less = (<), dbl_le = (\<le>), dbl_llround = id, dbl_to_string = print_int\<rparr>"

definition whole_sound :: "(int, int) Sound" where
  "whole_sound = \<lparr>snd_float = whole_numbers, snd_double = whole_doubles, snd_add = (+), snd_sub = (-), snd_mul = (*),
     snd_div = (div), snd_dec = (\<lambda>n k. n div 10 ^ k), snd_sin = id, snd_pow10 = (\<lambda>x. 1), snd_widen = id, snd_narrow = id,
     snd_sqrt = id, snd_log10 = id, snd_dpow10 = id, snd_minimumRms = 0, snd_fixed1 = print_int\<rparr>"

section \<open>Properties\<close>

text \<open>
  C40: the microphone stays open for exactly the hangover. After a reset the gate is open on a
  frame if and only if that frame or one of the 15 before it was loud, at the threshold of its
  moment.
\<close>

theorem voice_activation:
  assumes "i < length frames"
  shows "gate_run S frames (gate_Reset g) ! i \<longleftrightarrow>
    (\<exists>j \<le> i. i \<le> j + 15 \<and> loud S (fst (frames ! j)) (snd (frames ! j)))"
  using gate_run_from [OF assms, of "gate_Reset g" S] by (simp add: gate_Reset_def HangoverFrames_def)

theorem voice_activation_witness:
  "gate_run whole_sound [([7], 40), ([1], 40), ([1], 40)] (gate_Reset (new_CaptureGate whole_sound)) ! 2"
  by (subst voice_activation)
    (simp, intro exI [of _ 0], simp add: loud_def frame_rms_def whole_sound_def whole_doubles_def Let_def)

text \<open>
  A notification sounds for exactly its duration, however the output is cut into frames: the
  mixer reports it for the frames that begin before its end, and the samples behind the end are
  left as they were.
\<close>

theorem notification_lasts:
  assumes "i < length frames" and "frames ! i \<noteq> []"
  shows "snd (synth_run S frames (synth_Start S type s) ! i) \<longleftrightarrow> length (concat (take i frames)) < duration type"
  using synth_run_sounding [OF _ assms, of "synth_Start S type s" S] synth_Start_sounding [of S type s] by simp

theorem notification_lasts_witness:
  "snd (synth_run whole_sound [[0], [0]] (synth_Start whole_sound Message (new_NotificationSynthesizer whole_sound)) ! 1)"
  by (subst notification_lasts) simp_all

end
