(* ===== verification/Audio_Engine.thy ===== *)
theory Audio_Engine
  imports Audio_Parts Config Handshake_Commands
begin

text \<open>
  \<open>AudioEngine\<close> (\<open>audio/src/audio_engine.cpp\<close>): the controls the client calls, the capture path from
  the device's samples to encoded frames, and the playback path from received frames to the
  mixed output. One record holds the members; a member function is one step on it.

  The engine is used from five threads. The rings between them are queues for one producer and
  one consumer (\<open>Spsc_Ring\<close>), the atomics and the members under a mutex are read and written as a
  whole, so a run of the engine is a sequence of the steps here; \<open>SetTransmitEnabled\<close> is one step
  because its compare-and-exchange either fails without an effect or sees the value it replaces.

  Device, codec, filter and arithmetic are the record \<open>AudioLib\<close>. \<open>ae_wakes\<close> counts the calls of the
  callback \<open>m_NetworkWake\<close>. A loop over a ring is a partial function, since it ends only because
  the ring is well formed.
\<close>

section \<open>State\<close>

record 'b Backend =
  ab_devices :: "'b \<Rightarrow> AudioDevice list result"
  ab_setInput :: "string \<Rightarrow> ('b, unit) op"
  ab_setOutput :: "string \<Rightarrow> ('b, unit) op"
  ab_inputClock :: "'b \<Rightarrow> DeviceClock"
  ab_outputClock :: "'b \<Rightarrow> DeviceClock"

record ('f, 'd, 'e, 'dc, 'k, 'b) AudioLib =
  al_sound :: "('f, 'd) Sound"
  al_opus :: "('e, 'dc, 'f) Opus"
  al_haveRnnoise :: bool
  al_rnnoise :: "('k, 'f) Rnnoise"
  al_backend :: "'b Backend"

record ('f, 'dc) TalkerState =
  tl_decoder :: "'dc option"
  tl_jitter :: VoiceJitterBuffer
  tl_decodedSamples :: "'f list"
  tl_lastPacketSamples :: nat

definition new_TalkerState :: "('f, 'dc) TalkerState" where
  "new_TalkerState = \<lparr>tl_decoder = None, tl_jitter = initial_jitter, tl_decodedSamples = [],
     tl_lastPacketSamples = SamplesPerFrame\<rparr>"

record 'f TalkerMixSettings =
  mx_gain :: 'f
  mx_muted :: bool

definition CaptureQueueCapacity :: nat where "CaptureQueueCapacity = 16"
definition OutgoingQueueCapacity :: nat where "OutgoingQueueCapacity = 16"
definition IncomingQueueCapacity :: nat where "IncomingQueueCapacity = 128"
definition PlaybackQueueCapacity :: nat where "PlaybackQueueCapacity = 32"
definition TalkStartPackets :: nat where "TalkStartPackets = 5"
definition NoNotificationRequested :: u8 where "NoNotificationRequested = 0xFF"
definition PlaybackIdleTimeout :: time where "PlaybackIdleTimeout = milliseconds 250"
definition LoopbackTalkerId :: u16 where "LoopbackTalkerId = 0"

lemmas audio_limits = CaptureQueueCapacity_def OutgoingQueueCapacity_def IncomingQueueCapacity_def PlaybackQueueCapacity_def
  SamplesPerFrame_def MaxDecodedSamples_def

record ('f, 'dc, 'k, 'b) AudioEngine =
  ae_backend :: "'b option"
  ae_wakes :: nat
  ae_captureQueue :: "'f PcmFrame SpscRing"
  ae_outgoingQueue :: "EncodedFrame SpscRing"
  ae_incomingQueue :: "IncomingEncodedFrame SpscRing"
  ae_playbackQueue :: "'f PcmFrame SpscRing"
  ae_captureAssembly :: "'f PcmFrame"
  ae_captureAssemblyOffset :: nat
  ae_playbackCurrent :: "'f PcmFrame"
  ae_playbackOffset :: nat
  ae_playbackRequestSamples :: nat
  ae_lastPlaybackRequest :: time
  ae_talkers :: "(u16, ('f, 'dc) TalkerState) smap"
  ae_mixSettings :: "(u16, 'f TalkerMixSettings) smap"
  ae_talkerResetQueue :: "u16 SpscRing"
  ae_notificationRequested :: u8
  ae_transmitState :: u64
  ae_activationThresholdDb :: 'f
  ae_playbackMuted :: bool
  ae_captureMonitor :: CaptureMonitor
  ae_inputLevelDb :: 'f
  ae_inputVoiceActive :: bool
  ae_loopbackVoiceId :: u16
  ae_networkTransmitRevision :: u64
  ae_workSignal :: u64
  ae_captureDrops :: u64
  ae_encodedDrops :: u64
  ae_receiveDrops :: u64
  ae_playbackUnderruns :: u64
  ae_synthesizer :: "'f NotificationSynthesizer"
  ae_filter :: "'k option"
  ae_captureFilterName :: string
  ae_available :: bool
  ae_inputSelector :: string
  ae_outputSelector :: string
  ae_error :: string

type_synonym ('f, 'dc, 'k, 'b, 'a) audio_op = "(('f, 'dc, 'k, 'b) AudioEngine, 'a) op"

text \<open>
  The members' initial values; the constructor starts the backend, whose outcome is the device or
  an error message.
\<close>

definition new_AudioEngine :: "('f, 'd) Sound \<Rightarrow> 'b result \<Rightarrow> ('f, 'dc, 'k, 'b) AudioEngine" where
  "new_AudioEngine S backend =
     (let silence = replicate SamplesPerFrame (flit S 0) in
      \<lparr>ae_backend = (case backend of Inl _ \<Rightarrow> None | Inr b \<Rightarrow> Some b), ae_wakes = 0,
       ae_captureQueue = make_SpscRing CaptureQueueCapacity silence,
       ae_outgoingQueue = make_SpscRing OutgoingQueueCapacity empty_EncodedFrame,
       ae_incomingQueue = make_SpscRing IncomingQueueCapacity default_frame,
       ae_playbackQueue = make_SpscRing PlaybackQueueCapacity silence,
       ae_captureAssembly = silence, ae_captureAssemblyOffset = 0,
       ae_playbackCurrent = silence, ae_playbackOffset = SamplesPerFrame,
       ae_playbackRequestSamples = SamplesPerFrame, ae_lastPlaybackRequest = 0,
       ae_talkers = [], ae_mixSettings = [], ae_talkerResetQueue = make_SpscRing IncomingQueueCapacity 0,
       ae_notificationRequested = NoNotificationRequested, ae_transmitState = 2, ae_activationThresholdDb = flit S (- 45),
       ae_playbackMuted = False, ae_captureMonitor = Off, ae_inputLevelDb = flit S (- 100), ae_inputVoiceActive = False,
       ae_loopbackVoiceId = 0, ae_networkTransmitRevision = 0, ae_workSignal = 0,
       ae_captureDrops = 0, ae_encodedDrops = 0, ae_receiveDrops = 0, ae_playbackUnderruns = 0,
       ae_synthesizer = new_NotificationSynthesizer S, ae_filter = None, ae_captureFilterName = ''none'',
       ae_available = (case backend of Inl _ \<Rightarrow> False | Inr _ \<Rightarrow> True),
       ae_inputSelector = ''default'', ae_outputSelector = ''default'',
       ae_error = (case backend of Inl e \<Rightarrow> what e | Inr _ \<Rightarrow> [])\<rparr>)"

section \<open>Controls\<close>

definition WakeWorker :: "('f, 'dc, 'k, 'b) AudioEngine \<Rightarrow> ('f, 'dc, 'k, 'b) AudioEngine" where
  "WakeWorker s = s\<lparr>ae_workSignal := ae_workSignal s + 1\<rparr>"

definition NotifyNetwork :: "('f, 'dc, 'k, 'b) AudioEngine \<Rightarrow> ('f, 'dc, 'k, 'b) AudioEngine" where
  "NotifyNetwork s = s\<lparr>ae_wakes := ae_wakes s + 1\<rparr>"

definition RequireAvailable :: "('f, 'dc, 'k, 'b, unit) audio_op" where
  "RequireAvailable s =
     (if ae_available s \<and> ae_backend s \<noteq> None then (Inr (), s)
      else if ae_error s = [] then (Inl (RuntimeError ''Audio backend is unavailable''), s)
      else (Inl (RuntimeError (''Audio backend is unavailable: '' @ ae_error s)), s))"

text \<open>A call of the backend, after \<open>RequireAvailable\<close>.\<close>

definition on_backend :: "('b, 'a) op \<Rightarrow> ('f, 'dc, 'k, 'b, 'a) audio_op" where
  "on_backend m s =
     (case ae_backend s of
        None \<Rightarrow> (Inl (UndefinedBehaviour ''m_Backend''), s)
      | Some b \<Rightarrow> (case m b of (r, b) \<Rightarrow> (r, s\<lparr>ae_backend := Some b\<rparr>)))"

definition engine_Devices :: "('f, 'd, 'e, 'dc, 'k, 'b) AudioLib \<Rightarrow> ('f, 'dc, 'k, 'b, AudioDevice list) audio_op" where
  "engine_Devices A = op_bind RequireAvailable (\<lambda>_. on_backend (\<lambda>b. (ab_devices (al_backend A) b, b)))"

definition SetInputDevice :: "('f, 'd, 'e, 'dc, 'k, 'b) AudioLib \<Rightarrow> string \<Rightarrow> ('f, 'dc, 'k, 'b, unit) audio_op" where
  "SetInputDevice A selector =
     op_bind RequireAvailable (\<lambda>_.
     op_bind (on_backend (ab_setInput (al_backend A) selector)) (\<lambda>_.
     op_modify (\<lambda>s. s\<lparr>ae_inputSelector := selector\<rparr>)))"

definition SetOutputDevice :: "('f, 'd, 'e, 'dc, 'k, 'b) AudioLib \<Rightarrow> string \<Rightarrow> ('f, 'dc, 'k, 'b, unit) audio_op" where
  "SetOutputDevice A selector =
     op_bind RequireAvailable (\<lambda>_.
     op_bind (on_backend (ab_setOutput (al_backend A) selector)) (\<lambda>_.
     op_modify (\<lambda>s. s\<lparr>ae_outputSelector := selector\<rparr>)))"

definition SetCaptureFilter :: "('f, 'd, 'e, 'dc, 'k, 'b) AudioLib \<Rightarrow> string \<Rightarrow> ('f, 'dc, 'k, 'b, unit) audio_op" where
  "SetCaptureFilter A name =
     op_bind (op_lift (CreateCaptureFilter (al_haveRnnoise A) (al_rnnoise A) name)) (\<lambda>f.
     op_modify (\<lambda>s. s\<lparr>ae_filter := f, ae_captureFilterName := name\<rparr>))"

definition SetActivationThresholdDb ::
  "('f, 'd, 'e, 'dc, 'k, 'b) AudioLib \<Rightarrow> 'f \<Rightarrow> ('f, 'dc, 'k, 'b, unit) audio_op" where
  "SetActivationThresholdDb A thresholdDb =
     (let S = al_sound A in
      if \<not> flt_finite (snd_float S) thresholdDb \<or> fless S thresholdDb (flit S (- 100)) \<or> fless S (flit S 0) thresholdDb
      then op_throw (RuntimeError ''Audio activation threshold must be between -100 and 0 dBFS'')
      else op_modify (\<lambda>s. WakeWorker (s\<lparr>ae_activationThresholdDb := thresholdDb\<rparr>)))"

definition Settings :: "('f, 'dc, 'k, 'b) AudioEngine \<Rightarrow> 'f AudioSettings" where
  "Settings s = \<lparr>as_input = ae_inputSelector s, as_output = ae_outputSelector s, as_captureFilter = ae_captureFilterName s,
     as_activationThresholdDb = ae_activationThresholdDb s\<rparr>"

definition LoadTransmitState :: "('f, 'dc, 'k, 'b) AudioEngine \<Rightarrow> TransmitStateChange" where
  "LoadTransmitState s = \<lparr>ts_enabled = (ae_transmitState s AND 1 \<noteq> 0), ts_revision = drop_bit 1 (ae_transmitState s)\<rparr>"

definition TransmitEnabled :: "('f, 'dc, 'k, 'b) AudioEngine \<Rightarrow> bool" where
  "TransmitEnabled s = ts_enabled (LoadTransmitState s)"

definition transmit_word :: "u64 \<Rightarrow> bool \<Rightarrow> u64" where
  "transmit_word revision enabled = push_bit 1 revision OR (if enabled then 1 else 0)"

definition SetTransmitEnabled :: "bool \<Rightarrow> ('f, 'dc, 'k, 'b, unit) audio_op" where
  "SetTransmitEnabled enabled =
     op_bind (if enabled then RequireAvailable else op_return ()) (\<lambda>_.
     op_modify (\<lambda>s.
       let state = ae_transmitState s; revision = drop_bit 1 state in
       if (state AND 1 \<noteq> 0) = enabled then s
       else NotifyNetwork (WakeWorker (s\<lparr>ae_transmitState := transmit_word (revision + 1) enabled\<rparr>))))"

definition TakeTransmitStateChange :: "('f, 'dc, 'k, 'b, TransmitStateChange option) audio_op" where
  "TakeTransmitStateChange s =
     (let state = LoadTransmitState s in
      if ts_revision state = ae_networkTransmitRevision s then (Inr None, s)
      else (Inr (Some state), s\<lparr>ae_networkTransmitRevision := ts_revision state\<rparr>))"

definition SetPlaybackMuted :: "bool \<Rightarrow> ('f, 'dc, 'k, 'b, unit) audio_op" where
  "SetPlaybackMuted muted =
     op_modify (\<lambda>s. if ae_playbackMuted s \<noteq> muted then NotifyNetwork (s\<lparr>ae_playbackMuted := muted\<rparr>) else s)"

definition SetCaptureMonitor :: "CaptureMonitor \<Rightarrow> ('f, 'dc, 'k, 'b, unit) audio_op" where
  "SetCaptureMonitor monitor =
     op_bind (if monitor \<noteq> Off then RequireAvailable else op_return ()) (\<lambda>_.
     op_modify (\<lambda>s. WakeWorker (s\<lparr>ae_captureMonitor := monitor\<rparr>)))"

record 'f AudioStatus =
  au_available :: bool
  au_transmitEnabled :: bool
  au_playbackMuted :: bool
  au_input :: string
  au_output :: string
  au_captureFilter :: string
  au_activationThresholdDb :: 'f
  au_error :: string
  au_captureDrops :: u64
  au_encodedDrops :: u64
  au_receiveDrops :: u64
  au_playbackUnderruns :: u64
  au_inputClock :: DeviceClock
  au_outputClock :: DeviceClock

definition engine_Status :: "('f, 'd, 'e, 'dc, 'k, 'b) AudioLib \<Rightarrow> ('f, 'dc, 'k, 'b) AudioEngine \<Rightarrow> 'f AudioStatus" where
  "engine_Status A s =
     (let clock = (\<lambda>read. case ae_backend s of
            Some b \<Rightarrow> if ae_available s then read b else \<lparr>dc_rate = 0, dc_period = 0\<rparr>
          | None \<Rightarrow> \<lparr>dc_rate = 0, dc_period = 0\<rparr>)
      in \<lparr>au_available = ae_available s, au_transmitEnabled = TransmitEnabled s, au_playbackMuted = ae_playbackMuted s,
          au_input = ae_inputSelector s, au_output = ae_outputSelector s, au_captureFilter = ae_captureFilterName s,
          au_activationThresholdDb = ae_activationThresholdDb s, au_error = ae_error s,
          au_captureDrops = ae_captureDrops s, au_encodedDrops = ae_encodedDrops s, au_receiveDrops = ae_receiveDrops s,
          au_playbackUnderruns = ae_playbackUnderruns s,
          au_inputClock = clock (ab_inputClock (al_backend A)), au_outputClock = clock (ab_outputClock (al_backend A))\<rparr>)"

definition notification_number :: "NotificationType \<Rightarrow> u8" where
  "notification_number type = (case type of Message \<Rightarrow> 0 | Success \<Rightarrow> 1 | Failure \<Rightarrow> 2 | Reminder \<Rightarrow> 3)"

definition engine_Notify :: "NotificationType \<Rightarrow> ('f, 'dc, 'k, 'b) AudioEngine \<Rightarrow> ('f, 'dc, 'k, 'b) AudioEngine" where
  "engine_Notify type s = WakeWorker (s\<lparr>ae_notificationRequested := notification_number type\<rparr>)"

section \<open>The network's side\<close>

definition TryPopOutgoing :: "('f, 'dc, 'k, 'b) AudioEngine \<Rightarrow> EncodedFrame option \<times> ('f, 'dc, 'k, 'b) AudioEngine" where
  "TryPopOutgoing s =
     (case TryPop OutgoingQueueCapacity (ae_outgoingQueue s) of (frame, q) \<Rightarrow> (frame, s\<lparr>ae_outgoingQueue := q\<rparr>))"

definition SubmitIncoming :: "IncomingEncodedFrame \<Rightarrow> ('f, 'dc, 'k, 'b) AudioEngine \<Rightarrow> bool \<times> ('f, 'dc, 'k, 'b) AudioEngine" where
  "SubmitIncoming frame s =
     (if ef_codec frame \<noteq> 4 \<and> ef_codec frame \<noteq> 5 then (False, s)
      else case TryPush IncomingQueueCapacity frame (ae_incomingQueue s) of
             (False, q) \<Rightarrow> (False, s\<lparr>ae_incomingQueue := q, ae_receiveDrops := ae_receiveDrops s + 1\<rparr>)
           | (True, q) \<Rightarrow> (True, WakeWorker (s\<lparr>ae_incomingQueue := q\<rparr>)))"

definition SetTalkerSettings ::
  "('f, 'd, 'e, 'dc, 'k, 'b) AudioLib \<Rightarrow> u16 \<Rightarrow> 'f TalkerSettings \<Rightarrow> ('f, 'dc, 'k, 'b, unit) audio_op" where
  "SetTalkerSettings A clientId settings =
     (let S = al_sound A; volume = tk_volumeDb settings in
      if clientId = 0 then op_throw (RuntimeError ''Talker client ID cannot be zero'')
      else if \<not> flt_finite (snd_float S) volume \<or> fless S volume (flit S (- 60)) \<or> fless S (flit S 12) volume
      then op_throw (RuntimeError ''Talker volume must be between -60 and +12 dB'')
      else op_modify (\<lambda>s. s\<lparr>ae_mixSettings := sm_put clientId
             \<lparr>mx_gain = snd_pow10 S (snd_div S volume (flit S 20)), mx_muted = tk_muted settings\<rparr> (ae_mixSettings s)\<rparr>))"

definition RemoveTalker :: "u16 \<Rightarrow> ('f, 'dc, 'k, 'b) AudioEngine \<Rightarrow> ('f, 'dc, 'k, 'b) AudioEngine" where
  "RemoveTalker clientId s =
     (let s = s\<lparr>ae_mixSettings := sm_erase clientId (ae_mixSettings s)\<rparr> in
      case TryPush IncomingQueueCapacity clientId (ae_talkerResetQueue s) of
        (False, q) \<Rightarrow> WakeWorker (s\<lparr>ae_talkerResetQueue := q, ae_receiveDrops := ae_receiveDrops s + 1\<rparr>)
      | (True, q) \<Rightarrow> WakeWorker (s\<lparr>ae_talkerResetQueue := q\<rparr>))"

definition MutedTalkers :: "('f, 'dc, 'k, 'b) AudioEngine \<Rightarrow> u16 list" where
  "MutedTalkers s = map fst (filter (\<lambda>(_, settings). mx_muted settings) (ae_mixSettings s))"

section \<open>Invariant\<close>

definition frame_ok :: "'f PcmFrame \<Rightarrow> bool" where
  "frame_ok frame \<longleftrightarrow> length frame = SamplesPerFrame"

text \<open>The bytes of a received frame are in its array.\<close>

definition voice_frame_ok :: "IncomingEncodedFrame \<Rightarrow> bool" where
  "voice_frame_ok frame \<longleftrightarrow> length (ef_data frame) = MaxEncodedBytes \<and> ef_size frame \<le> MaxEncodedBytes"

definition talker_ok :: "('f, 'dc) TalkerState \<Rightarrow> bool" where
  "talker_ok t \<longleftrightarrow> jitter_inv (tl_jitter t) \<and> pending_all voice_frame_ok (tl_jitter t) \<and> tl_lastPacketSamples t \<in> {1..MaxDecodedSamples} \<and>
     length (tl_decodedSamples t) < SamplesPerFrame + MaxDecodedSamples"

definition rings_ok :: "('f, 'dc, 'k, 'b) AudioEngine \<Rightarrow> bool" where
  "rings_ok s \<longleftrightarrow> ring_inv CaptureQueueCapacity (ae_captureQueue s) \<and> ring_inv OutgoingQueueCapacity (ae_outgoingQueue s) \<and>
     ring_inv IncomingQueueCapacity (ae_incomingQueue s) \<and> ring_inv PlaybackQueueCapacity (ae_playbackQueue s) \<and>
     ring_inv IncomingQueueCapacity (ae_talkerResetQueue s)"

definition buffers_ok :: "('f, 'dc, 'k, 'b) AudioEngine \<Rightarrow> bool" where
  "buffers_ok s \<longleftrightarrow> frame_ok (ae_captureAssembly s) \<and> ae_captureAssemblyOffset s < SamplesPerFrame \<and>
     frame_ok (ae_playbackCurrent s) \<and> ae_playbackOffset s \<le> SamplesPerFrame \<and>
     list_all frame_ok (contents CaptureQueueCapacity (ae_captureQueue s)) \<and>
     list_all frame_ok (contents PlaybackQueueCapacity (ae_playbackQueue s)) \<and>
     list_all voice_frame_ok (contents IncomingQueueCapacity (ae_incomingQueue s))"

definition engine_ok :: "('f, 'dc, 'k, 'b) AudioEngine \<Rightarrow> bool" where
  "engine_ok s \<longleftrightarrow> rings_ok s \<and> buffers_ok s \<and> sm_ok (ae_talkers s) \<and> list_all (\<lambda>(_, t). talker_ok t) (ae_talkers s) \<and>
     sm_ok (ae_mixSettings s) \<and> synth_inv (ae_synthesizer s) \<and> (ae_available s \<longrightarrow> ae_backend s \<noteq> None)"

lemmas engine_ok_parts = engine_ok_def rings_ok_def buffers_ok_def

lemma new_ring_ok: "2 \<le> N \<Longrightarrow> ring_inv N (make_SpscRing N d) \<and> contents N (make_SpscRing N d) = []"
  by (simp add: ring_inv_def make_SpscRing_def contents_def ring_Size_def slots_def)

lemma default_frame_ok [simp]: "voice_frame_ok default_frame"
  by (simp add: voice_frame_ok_def default_frame_def MaxEncodedBytes_def)

lemma new_jitter_ok [simp]: "jitter_inv initial_jitter" "pending_all P initial_jitter"
  by (simp_all add: jitter_inv_def pending_all_def initial_jitter_def)

lemma new_AudioEngine_ok: "engine_ok (new_AudioEngine S backend)"
  using new_ring_ok [of 16 "replicate SamplesPerFrame (flit S 0)"] new_ring_ok [of 16 empty_EncodedFrame]
    new_ring_ok [of 128 default_frame] new_ring_ok [of 32 "replicate SamplesPerFrame (flit S 0)"] new_ring_ok [of 128 "0 :: u16"]
  by (auto simp: engine_ok_parts new_AudioEngine_def Let_def audio_limits frame_ok_def synth_inv_def
      new_NotificationSynthesizer_def synth_Active_def split: sum.splits)

section \<open>The transmit state\<close>

lemma transmit_word_fields [simp]:
  "drop_bit 1 (transmit_word r b) = take_bit 63 r"
  "(transmit_word r b AND 1 = 0) = (\<not> b)"
proof -
  have "drop_bit k (push_bit k r) = take_bit (64 - k) r" for k
    by (rule bit_word_eqI) (auto simp: bit_simps)
  from this [of 1] have "drop_bit 1 (push_bit 1 r) = take_bit 63 r" by (simp only: numeral_One diff_numeral_special) simp
  moreover have "drop_bit 1 (if b then 1 else 0 :: u64) = 0" by simp
  ultimately show "drop_bit 1 (transmit_word r b) = take_bit 63 r"
    by (simp only: transmit_word_def drop_bit_or or.right_neutral)
  have "push_bit k r AND 1 = 0" if "0 < k" for k
    using that by (intro bit_word_eqI) (auto simp: bit_simps)
  from this [of 1] have "push_bit 1 r AND 1 = 0" by (simp only: zero_less_one simp_thms)
  then have "transmit_word r b AND 1 = (if b then 1 else 0)"
    by (simp only: transmit_word_def bit.conj_disj_distrib2) simp
  then show "(transmit_word r b AND 1 = 0) = (\<not> b)" by simp
qed

lemma next_revision: "take_bit 63 (r + 1) \<noteq> (r :: u64)"
proof
  assume "take_bit 63 (r + 1) = r"
  then have "bit (take_bit 63 (r + 1)) 0 = bit r 0" by simp
  then show False by (simp add: bit_simps bit_0)
qed

lemma SetTransmitEnabled_outcome:
  assumes "SetTransmitEnabled enabled s = (Inr (), s')"
  shows "TransmitEnabled s' = enabled \<and> ae_networkTransmitRevision s' = ae_networkTransmitRevision s \<and>
    ae_outgoingQueue s' = ae_outgoingQueue s \<and>
    (if TransmitEnabled s = enabled then s' = s
     else ts_revision (LoadTransmitState s') = take_bit 63 (ts_revision (LoadTransmitState s) + 1) \<and> ae_wakes s' = ae_wakes s + 1)"
  using assms
  by (auto simp: SetTransmitEnabled_def op_bind_eq_Inr Let_def TransmitEnabled_def LoadTransmitState_def NotifyNetwork_def WakeWorker_def
      RequireAvailable_def transmit_word_fields [unfolded One_nat_def] split: if_splits)

text \<open>
  A change of the transmit state is never missed: unless the state is what it was, the network
  thread is woken and is told the new state the next time it asks.
\<close>

theorem transmit_change_reported:
  assumes "SetTransmitEnabled enabled s = (Inr (), s')" and "TransmitEnabled s \<noteq> enabled"
    and "ae_networkTransmitRevision s = ts_revision (LoadTransmitState s)"
  shows "ae_wakes s' = ae_wakes s + 1 \<and>
    (\<exists>change s''. TakeTransmitStateChange s' = (Inr (Some change), s'') \<and> ts_enabled change = enabled \<and>
       TakeTransmitStateChange s'' = (Inr None, s''))"
  using SetTransmitEnabled_outcome [OF assms(1)] assms(2,3) next_revision [of "ts_revision (LoadTransmitState s)"]
  by (auto simp: TakeTransmitStateChange_def Let_def TransmitEnabled_def LoadTransmitState_def)

end
