(* ===== verification/Audio_Capture.thy ===== *)
theory Audio_Capture
  imports Audio_Engine
begin

text \<open>
  The capture path of \<open>AudioEngine\<close> (\<open>audio/src/audio_engine.cpp\<close>): \<open>OnCapturedSamples\<close> cuts the
  device's samples into frames, \<open>ProcessCapture\<close> takes them through filter, gate and encoder to the
  outgoing queue. The worker thread's local variables are the record \<open>Worker\<close>.

  The lemmas show that no sample is lost or moved on the way into the capture queue as long as
  it has room, and what the frames handed to the network say about the transmit state.
\<close>

section \<open>Draining a ring\<close>

text \<open>\<open>while ( ring.TryPop( x ) ) body\<close>, for a ring that is a part of the state.\<close>

partial_function (option) pop_loop ::
  "nat \<Rightarrow> ('s \<Rightarrow> 'a SpscRing) \<Rightarrow> ('a SpscRing \<Rightarrow> 's \<Rightarrow> 's) \<Rightarrow> ('a \<Rightarrow> ('s, unit) op) \<Rightarrow> 's \<Rightarrow> (unit result \<times> 's) option" where
  "pop_loop N get put body s =
     (case TryPop N (get s) of
        (None, q) \<Rightarrow> Some (Inr (), put q s)
      | (Some x, q) \<Rightarrow>
          (case body x (put q s) of
             (Inl e, s) \<Rightarrow> Some (Inl e, s)
           | (Inr _, s) \<Rightarrow> pop_loop N get put body s))"

text \<open>
  The loop ends when the body leaves the ring alone, and then an invariant of popping and of the
  body holds.
\<close>

lemma pop_loop_invariant:
  assumes "ring_inv N (get s)" and lens: "\<And>q s. get (put q s) = q"
    and body: "\<And>x q s. I s \<Longrightarrow> TryPop N (get s) = (Some x, q) \<Longrightarrow> ring_inv N (get s) \<Longrightarrow>
      get (snd (body x (put q s))) = q \<and> I (snd (body x (put q s)))"
    and empty: "\<And>s q. I s \<Longrightarrow> ring_inv N (get s) \<Longrightarrow> TryPop N (get s) = (None, q) \<Longrightarrow> I (put q s)"
    and "I s"
  shows "\<exists>r s'. pop_loop N get put body s = Some (r, s') \<and> I s' \<and> ring_inv N (get s') \<and>
    ((\<forall>x q s. I s \<longrightarrow> ring_inv N (get s) \<longrightarrow> TryPop N (get s) = (Some x, q) \<longrightarrow> fst (body x (put q s)) = Inr ()) \<longrightarrow> r = Inr ())"
  using assms(1,5)
proof (induction "contents N (get s)" arbitrary: s)
  case Nil
  then have "TryPop N (get s) = (None, get s)" using ring.pop_none [of N "get s"] by simp
  with empty [OF Nil(3,2) this] Nil lens show ?case by (subst pop_loop.simps) simp
next
  case (Cons x xs)
  obtain q where q: "TryPop N (get s) = (Some x, q)" "ring_inv N q" "contents N q = xs"
    using ring.pop_some [OF Cons(3) Cons(2) [symmetric]] by blast
  obtain r t where run: "body x (put q s) = (r, t)" by force
  have t: "get t = q" "I t" using body [OF Cons(4) q(1) Cons(3)] run by simp_all
  show ?case
  proof (cases r)
    case (Inl e)
    then have "pop_loop N get put body s = Some (Inl e, t)" using q(1) run by (subst pop_loop.simps) simp
    moreover have "fst (body x (put q s)) \<noteq> Inr ()" using run Inl by simp
    ultimately show ?thesis using t q(1,2) Cons(3,4) by blast
  next
    case (Inr u)
    then have "pop_loop N get put body s = pop_loop N get put body t" using q(1) run by (subst pop_loop.simps) simp
    with Cons(1) [of t] q(2,3) t show ?thesis by simp
  qed
qed

lemma pop_loop_outcome:
  assumes "ring_inv N (get s)" and lens: "\<And>q s. get (put q s) = q"
    and body: "\<And>x s. I s \<Longrightarrow> get (snd (body x s)) = get s \<and> I (snd (body x s))"
    and pop: "\<And>s x q. I s \<Longrightarrow> ring_inv N (get s) \<Longrightarrow> TryPop N (get s) = (x, q) \<Longrightarrow> I (put q s)"
    and "I s"
  shows "\<exists>r s'. pop_loop N get put body s = Some (r, s') \<and> I s' \<and> ring_inv N (get s') \<and>
    ((\<forall>x s. I s \<longrightarrow> fst (body x s) = Inr ()) \<longrightarrow> r = Inr ())"
proof -
  have step: "get (snd (body x (put q s))) = q \<and> I (snd (body x (put q s)))"
    if "I s" "TryPop N (get s) = (Some x, q)" "ring_inv N (get s)" for x q s
    using body [OF pop [OF that(1,3,2)], of x] lens by simp
  have empty: "I (put q s)" if "I s" "ring_inv N (get s)" "TryPop N (get s) = (None, q)" for s q
    using pop [OF that] .
  obtain r s' where "pop_loop N get put body s = Some (r, s')" "I s'" "ring_inv N (get s')"
    and ok: "(\<forall>x q s. I s \<longrightarrow> ring_inv N (get s) \<longrightarrow> TryPop N (get s) = (Some x, q) \<longrightarrow> fst (body x (put q s)) = Inr ()) \<longrightarrow> r = Inr ()"
    using pop_loop_invariant [of N get s put I body, OF assms(1) lens step empty assms(5)] by blast
  moreover have "r = Inr ()" if "\<forall>x s. I s \<longrightarrow> fst (body x s) = Inr ()"
    using ok that pop by blast
  ultimately show ?thesis by blast
qed

section \<open>The device's side\<close>

definition store_samples :: "nat \<Rightarrow> 'f list \<Rightarrow> 'f PcmFrame \<Rightarrow> 'f PcmFrame" where
  "store_samples offset samples frame = take offset frame @ samples @ drop (offset + length samples) frame"

definition push_captured :: "('f, 'dc, 'k, 'b) AudioEngine \<Rightarrow> ('f, 'dc, 'k, 'b) AudioEngine" where
  "push_captured s =
     (case TryPush CaptureQueueCapacity (ae_captureAssembly s) (ae_captureQueue s) of
        (False, q) \<Rightarrow> s\<lparr>ae_captureQueue := q, ae_captureDrops := ae_captureDrops s + 1\<rparr>
      | (True, q) \<Rightarrow> WakeWorker (s\<lparr>ae_captureQueue := q\<rparr>))"

text \<open>The loop over the samples; an offset past the frame would make \<open>remaining\<close> wrap around.\<close>

function capture_samples :: "'f list \<Rightarrow> ('f, 'dc, 'k, 'b, unit) audio_op" where
  "capture_samples samples s =
     (if samples = [] then (Inr (), s)
      else if ae_captureAssemblyOffset s > SamplesPerFrame then (Inl (UndefinedBehaviour ''m_CaptureAssembly''), s)
      else
        let remaining = SamplesPerFrame - ae_captureAssemblyOffset s;
            count = min remaining (length samples);
            s = s\<lparr>ae_captureAssembly := store_samples (ae_captureAssemblyOffset s) (take count samples) (ae_captureAssembly s),
                  ae_captureAssemblyOffset := ae_captureAssemblyOffset s + count\<rparr>
        in if ae_captureAssemblyOffset s \<noteq> SamplesPerFrame then capture_samples (drop count samples) s
           else capture_samples (drop count samples) ((push_captured s)\<lparr>ae_captureAssemblyOffset := 0\<rparr>))"
  by pat_completeness auto
termination
  by (relation "measures [\<lambda>(samples, s). length samples, \<lambda>(samples, s). ae_captureAssemblyOffset s]")
    (auto simp: SamplesPerFrame_def min_def)

declare capture_samples.simps [simp del]

definition OnCapturedSamples :: "'f list \<Rightarrow> ('f, 'dc, 'k, 'b, unit) audio_op" where
  "OnCapturedSamples samples s =
     (if \<not> TransmitEnabled s \<and> ae_captureMonitor s = Off then (Inr (), s\<lparr>ae_captureAssemblyOffset := 0\<rparr>)
      else capture_samples samples s)"

section \<open>The worker's side\<close>

record ('f, 'e) Worker =
  wk_encoder :: 'e
  wk_state :: TransmitStateChange
  wk_monitor :: CaptureMonitor
  wk_gate :: "'f CaptureGate"
  wk_talkStartRemaining :: nat

definition new_Worker :: "('f, 'd) Sound \<Rightarrow> 'e \<Rightarrow> ('f, 'e) Worker" where
  "new_Worker S e = \<lparr>wk_encoder = e, wk_state = \<lparr>ts_enabled = False, ts_revision = 0\<rparr>, wk_monitor = Off,
     wk_gate = new_CaptureGate S, wk_talkStartRemaining = 0\<rparr>"

type_synonym ('f, 'e, 'dc, 'k, 'b, 'a) capture_op = "(('f, 'dc, 'k, 'b) AudioEngine \<times> ('f, 'e) Worker, 'a) op"

definition on_engine :: "('f, 'dc, 'k, 'b, 'a) audio_op \<Rightarrow> ('f, 'e, 'dc, 'k, 'b, 'a) capture_op" where
  "on_engine = op_zoom fst (\<lambda>s p. (s, snd p))"

definition on_encoder :: "('e, 'a) op \<Rightarrow> ('f, 'e, 'dc, 'k, 'b, 'a) capture_op" where
  "on_encoder = op_zoom (\<lambda>p. wk_encoder (snd p)) (\<lambda>e p. (fst p, (snd p)\<lparr>wk_encoder := e\<rparr>))"

definition set_worker :: "(('f, 'e) Worker \<Rightarrow> ('f, 'e) Worker) \<Rightarrow> ('f, 'e, 'dc, 'k, 'b, unit) capture_op" where
  "set_worker h = op_modify (\<lambda>p. (fst p, h (snd p)))"

definition push_outgoing :: "EncodedFrame \<Rightarrow> ('f, 'dc, 'k, 'b) AudioEngine \<Rightarrow> ('f, 'dc, 'k, 'b) AudioEngine" where
  "push_outgoing frame s =
     (case TryPush OutgoingQueueCapacity frame (ae_outgoingQueue s) of
        (False, q) \<Rightarrow> s\<lparr>ae_outgoingQueue := q, ae_encodedDrops := ae_encodedDrops s + 1\<rparr>
      | (True, q) \<Rightarrow> NotifyNetwork (s\<lparr>ae_outgoingQueue := q\<rparr>))"

definition QueueTalkEnd :: "u64 \<Rightarrow> ('f, 'dc, 'k, 'b) AudioEngine \<Rightarrow> ('f, 'dc, 'k, 'b) AudioEngine" where
  "QueueTalkEnd transmitRevision =
     push_outgoing (empty_EncodedFrame\<lparr>en_transmitRevision := transmitRevision, en_talkEnd := True\<rparr>)"

text \<open>\<open>m_Talkers[id]\<close>, a decoder if it has none, and \<open>jitter.Push( frame )\<close>.\<close>

definition push_talker ::
  "('f, 'd, 'e, 'dc, 'k, 'b) AudioLib \<Rightarrow> IncomingEncodedFrame \<Rightarrow> ('f, 'dc, 'k, 'b, unit) audio_op" where
  "push_talker A frame =
     (let id = ef_clientId frame in
      op_bind (op_modify (\<lambda>s. s\<lparr>ae_talkers := sm_try_emplace id new_TalkerState (ae_talkers s)\<rparr>)) (\<lambda>_.
      op_bind (op_gets (\<lambda>s. the (sm_find (ae_talkers s) id))) (\<lambda>talker.
      op_bind (case tl_decoder talker of Some d \<Rightarrow> op_return d | None \<Rightarrow> op_lift (CreateDecoder (al_opus A))) (\<lambda>d.
      op_modify (\<lambda>s. s\<lparr>ae_talkers := sm_put id
        (talker\<lparr>tl_decoder := Some d, tl_jitter := jitter_Push frame (tl_jitter talker)\<rparr>) (ae_talkers s)\<rparr>)))))"

text \<open>\<open>std::copy_n\<close> copies between two arrays of \<open>MaxEncodedBytes\<close>; a larger size would leave them.\<close>

definition PlayLoopback :: "('f, 'd, 'e, 'dc, 'k, 'b) AudioLib \<Rightarrow> EncodedFrame \<Rightarrow> ('f, 'dc, 'k, 'b, unit) audio_op" where
  "PlayLoopback A frame =
     op_bind (op_gets ae_loopbackVoiceId) (\<lambda>voiceId.
     op_bind (op_modify (\<lambda>s. s\<lparr>ae_loopbackVoiceId := voiceId + 1\<rparr>)) (\<lambda>_.
     if en_size frame > length (en_data frame) then op_throw (UndefinedBehaviour ''frame.data'') else
     push_talker A
       \<lparr>ef_clientId = LoopbackTalkerId, ef_voiceId = voiceId, ef_codec = 4,
        ef_data = overwrite (take (en_size frame) (en_data frame)) (replicate MaxEncodedBytes 0),
        ef_size = en_size frame, ef_talkStart = en_talkStart frame, ef_talkEnd = en_talkEnd frame\<rparr>))"

text \<open>What a change of the transmit state or of the monitor resets.\<close>

definition reset_capture :: "'f \<Rightarrow> bool \<Rightarrow> bool \<Rightarrow> u64 \<Rightarrow> ('f, 'dc, 'k, 'b) AudioEngine \<Rightarrow> ('f, 'dc, 'k, 'b) AudioEngine" where
  "reset_capture silence talkEnd wasLoopback revision s =
     (let s = s\<lparr>ae_inputLevelDb := silence, ae_inputVoiceActive := False\<rparr>;
          s = (if talkEnd then QueueTalkEnd revision s else s)
      in if wasLoopback then s\<lparr>ae_talkers := sm_erase LoopbackTalkerId (ae_talkers s)\<rparr> else s)"

definition apply_state_change ::
  "('f, 'd, 'e, 'dc, 'k, 'b) AudioLib \<Rightarrow> ('f, 'dc, 'k, 'b) AudioEngine \<times> ('f, 'e) Worker \<Rightarrow>
     (unit result \<times> ('f, 'dc, 'k, 'b) AudioEngine \<times> ('f, 'e) Worker) option" where
  "apply_state_change A p =
     (let (s, w) = p; desiredState = LoadTransmitState s; desiredMonitor = ae_captureMonitor s in
      if ts_revision desiredState \<noteq> ts_revision (wk_state w) \<or> desiredMonitor \<noteq> wk_monitor w then
        let wasTalking = cg_active (wk_gate w); wasTransmitting = ts_enabled (wk_state w);
            wasLoopback = (wk_monitor w = Loopback) in
        case op_bind (set_worker (\<lambda>w. w\<lparr>wk_state := desiredState, wk_monitor := desiredMonitor\<rparr>)) (\<lambda>_.
             on_encoder (encoder_Reset (al_opus A))) (s, w) of
          (Inl e, p) \<Rightarrow> Some (Inl e, p)
        | (Inr _, s, w) \<Rightarrow>
            (case ring_Clear CaptureQueueCapacity (ae_captureQueue s) of
               None \<Rightarrow> None
             | Some q \<Rightarrow>
                 Some (Inr (),
                   reset_capture (flit (al_sound A) (- 100)) (wasTalking \<and> wasTransmitting) wasLoopback
                     (ts_revision desiredState) (s\<lparr>ae_captureQueue := q\<rparr>),
                   w\<lparr>wk_gate := gate_Reset (wk_gate w), wk_talkStartRemaining := 0\<rparr>))
      else Some (Inr (), p))"

text \<open>One frame of the capture queue: through the filter and the gate, then its two ways on.\<close>

definition gate_frame ::
  "('f, 'd, 'e, 'dc, 'k, 'b) AudioLib \<Rightarrow> 'f PcmFrame \<Rightarrow> ('f, 'e, 'dc, 'k, 'b, 'f PcmFrame \<times> bool) capture_op" where
  "gate_frame A pcm p =
     (let (s, w) = p; S = al_sound A;
          (pcm, f) = filter_Process S (al_rnnoise A) pcm (ae_filter s);
          (shouldTransmit, gate) = gate_Process S pcm (ae_activationThresholdDb s) (wk_gate w)
      in (Inr (pcm, shouldTransmit),
          s\<lparr>ae_filter := f, ae_inputLevelDb := cg_levelDb gate, ae_inputVoiceActive := shouldTransmit\<rparr>,
          w\<lparr>wk_gate := gate\<rparr>))"

definition talk_ended :: "('f, 'd, 'e, 'dc, 'k, 'b) AudioLib \<Rightarrow> ('f, 'e, 'dc, 'k, 'b, unit) capture_op" where
  "talk_ended A =
     op_bind (op_gets snd) (\<lambda>w.
     op_bind (op_when (ts_enabled (wk_state w)) (on_engine (op_modify (QueueTalkEnd (ts_revision (wk_state w)))))) (\<lambda>_.
     op_bind (op_when (wk_monitor w = Loopback) (on_engine (PlayLoopback A (empty_EncodedFrame\<lparr>en_talkEnd := True\<rparr>)))) (\<lambda>_.
     op_bind (on_encoder (encoder_Reset (al_opus A))) (\<lambda>_.
     set_worker (\<lambda>w. w\<lparr>wk_talkStartRemaining := 0\<rparr>)))))"

definition encode_frame ::
  "('f, 'd, 'e, 'dc, 'k, 'b) AudioLib \<Rightarrow> 'f PcmFrame \<Rightarrow> ('f, 'e, 'dc, 'k, 'b, EncodedFrame) capture_op" where
  "encode_frame A pcm =
     op_bind (on_encoder (encoder_Encode (al_opus A) pcm (replicate MaxEncodedBytes 0))) (\<lambda>(data, size).
     op_bind (op_gets snd) (\<lambda>w.
     op_bind (set_worker (\<lambda>w. w\<lparr>wk_talkStartRemaining := wk_talkStartRemaining w - 1\<rparr>)) (\<lambda>_.
     op_return \<lparr>en_data = data, en_size = size, en_transmitRevision = ts_revision (wk_state w),
       en_talkStart = (wk_talkStartRemaining w \<noteq> 0), en_talkEnd = False\<rparr>)))"

definition capture_frame ::
  "('f, 'd, 'e, 'dc, 'k, 'b) AudioLib \<Rightarrow> 'f PcmFrame \<Rightarrow> ('f, 'e, 'dc, 'k, 'b, unit) capture_op" where
  "capture_frame A pcm =
     op_bind (op_gets (\<lambda>p. cg_active (wk_gate (snd p)))) (\<lambda>wasTalking.
     op_bind (gate_frame A pcm) (\<lambda>(pcm, shouldTransmit).
     if \<not> shouldTransmit then op_when wasTalking (talk_ended A)
     else
       op_bind (op_when (\<not> wasTalking) (op_bind (on_encoder (encoder_Reset (al_opus A))) (\<lambda>_.
         set_worker (\<lambda>w. w\<lparr>wk_talkStartRemaining := TalkStartPackets\<rparr>)))) (\<lambda>_.
       op_bind (encode_frame A pcm) (\<lambda>encoded.
       op_bind (op_gets snd) (\<lambda>w.
       op_bind (op_when (wk_monitor w = Loopback) (on_engine (PlayLoopback A encoded))) (\<lambda>_.
       op_when (ts_enabled (wk_state w)) (on_engine (op_modify (push_outgoing encoded)))))))))"

definition ProcessCapture ::
  "('f, 'd, 'e, 'dc, 'k, 'b) AudioLib \<Rightarrow> ('f, 'dc, 'k, 'b) AudioEngine \<times> ('f, 'e) Worker \<Rightarrow>
     (unit result \<times> ('f, 'dc, 'k, 'b) AudioEngine \<times> ('f, 'e) Worker) option" where
  "ProcessCapture A p =
     (case apply_state_change A p of
        None \<Rightarrow> None
      | Some (Inl e, p) \<Rightarrow> Some (Inl e, p)
      | Some (Inr _, p) \<Rightarrow>
          if \<not> ts_enabled (wk_state (snd p)) \<and> wk_monitor (snd p) = Off then Some (Inr (), p)
          else pop_loop CaptureQueueCapacity (\<lambda>p. ae_captureQueue (fst p)) (\<lambda>q p. ((fst p)\<lparr>ae_captureQueue := q\<rparr>, snd p))
                 (capture_frame A) p)"

section \<open>From samples to frames\<close>

text \<open>The complete frames in a sequence of samples, and the samples of the frame begun.\<close>

function frames_of :: "'f list \<Rightarrow> 'f PcmFrame list" where
  "frames_of xs =
     (if length xs < SamplesPerFrame then [] else take SamplesPerFrame xs # frames_of (drop SamplesPerFrame xs))"
  by pat_completeness auto
termination by (relation "measure length") (auto simp: SamplesPerFrame_def)

declare frames_of.simps [simp del]

definition begun_frame :: "'f list \<Rightarrow> 'f list" where
  "begun_frame xs = drop (SamplesPerFrame * (length xs div SamplesPerFrame)) xs"

lemma frames_of_split: "concat (frames_of xs) @ begun_frame xs = xs"
proof (induction xs rule: frames_of.induct)
  case (1 xs)
  show ?case
  proof (cases "length xs < SamplesPerFrame")
    case False
    then have "length xs div SamplesPerFrame = Suc (length (drop SamplesPerFrame xs) div SamplesPerFrame)"
      by (simp add: le_div_geq SamplesPerFrame_def)
    then have "begun_frame xs = begun_frame (drop SamplesPerFrame xs)" by (simp add: begun_frame_def add.commute)
    with 1 False show ?thesis by (subst frames_of.simps) simp
  qed (subst frames_of.simps, simp add: begun_frame_def)
qed

lemma frames_of_short [simp]: "length xs < SamplesPerFrame \<Longrightarrow> frames_of xs = [] \<and> begun_frame xs = xs"
  by (subst frames_of.simps) (simp add: begun_frame_def)

lemma frames_of_long:
  "length xs \<ge> SamplesPerFrame \<Longrightarrow> frames_of xs = take SamplesPerFrame xs # frames_of (drop SamplesPerFrame xs) \<and>
     begun_frame xs = begun_frame (drop SamplesPerFrame xs)"
  by (subst frames_of.simps) (simp add: begun_frame_def le_div_geq SamplesPerFrame_def add.commute)

lemma frames_of_ok: "list_all frame_ok (frames_of xs)"
proof (induction xs rule: frames_of.induct)
  case (1 xs)
  then show ?case by (cases "length xs < SamplesPerFrame") (simp_all add: frames_of_long frame_ok_def not_less)
qed

text \<open>What the capture queue holds together with the frame begun, after \<open>samples\<close> arrived.\<close>

definition captured :: "'f list \<Rightarrow> ('f, 'dc, 'k, 'b) AudioEngine \<Rightarrow> 'f list" where
  "captured samples s = take (ae_captureAssemblyOffset s) (ae_captureAssembly s) @ samples"

definition capture_room :: "('f, 'dc, 'k, 'b) AudioEngine \<Rightarrow> nat" where
  "capture_room s = 15 - length (contents CaptureQueueCapacity (ae_captureQueue s))"

definition takes_in :: "'f list \<Rightarrow> ('f, 'dc, 'k, 'b) AudioEngine \<Rightarrow> ('f, 'dc, 'k, 'b) AudioEngine \<Rightarrow> bool" where
  "takes_in xs s s' \<longleftrightarrow> engine_ok s' \<and>
     contents CaptureQueueCapacity (ae_captureQueue s') =
       contents CaptureQueueCapacity (ae_captureQueue s) @ take (capture_room s) (frames_of xs) \<and>
     ae_captureDrops s' = ae_captureDrops s + of_nat (length (frames_of xs) - capture_room s) \<and>
     captured [] s' = begun_frame xs"

lemma push_captured_takes_in:
  assumes "engine_ok s" and "ae_captureAssembly s = frame"
  shows "takes_in frame s ((push_captured s)\<lparr>ae_captureAssemblyOffset := 0\<rparr>)"
proof -
  have ok: "ring_inv 16 (ae_captureQueue s)" "frame_ok frame" using assms by (simp_all add: engine_ok_parts audio_limits)
  have frames: "frames_of frame = [frame]" "begun_frame frame = []"
    using ok(2) frames_of_long [of frame] by (simp_all add: frame_ok_def SamplesPerFrame_def)
  let ?C = "contents 16 (ae_captureQueue s)"
  show ?thesis
  proof (cases "length ?C < 15")
    case True
    then obtain q where q: "TryPush 16 frame (ae_captureQueue s) = (True, q)" "ring_inv 16 q" "contents 16 q = ?C @ [frame]"
      using ring.push_room [OF ok(1), of frame] by auto
    moreover have "capture_room s = Suc (14 - length ?C)" using True by (simp add: capture_room_def audio_limits)
    ultimately show ?thesis
      using assms frames ok(2)
      by (simp add: takes_in_def push_captured_def engine_ok_parts WakeWorker_def captured_def CaptureQueueCapacity_def SamplesPerFrame_def)
  next
    case False
    then have "TryPush 16 frame (ae_captureQueue s) = (False, ae_captureQueue s)" "capture_room s = 0"
      using ring.push_full [OF ok(1), of frame] by (simp_all add: capture_room_def audio_limits)
    then show ?thesis
      using assms frames
      by (simp add: takes_in_def push_captured_def engine_ok_parts captured_def CaptureQueueCapacity_def SamplesPerFrame_def)
  qed
qed

lemma takes_in_trans:
  assumes "takes_in xs s t" and "length xs = SamplesPerFrame" and "takes_in ys t u"
  shows "takes_in (xs @ ys) s u"
proof -
  have "frames_of (xs @ ys) = xs # frames_of ys" "begun_frame (xs @ ys) = begun_frame ys" "frames_of xs = [xs]"
    using frames_of_long [of "xs @ ys"] frames_of_long [of xs] assms(2) by (simp_all add: SamplesPerFrame_def)
  moreover have "capture_room t = capture_room s - 1"
    using assms(1) \<open>frames_of xs = [xs]\<close> by (cases "capture_room s") (auto simp: takes_in_def capture_room_def)
  ultimately show ?thesis
    using assms(1,3) by (cases "capture_room s") (auto simp: takes_in_def)
qed

lemma capture_samples_takes_in:
  "engine_ok s \<Longrightarrow> \<exists>s'. capture_samples samples s = (Inr (), s') \<and> takes_in (captured samples s) s s'"
proof (induction "length samples" arbitrary: samples s rule: less_induct)
  case less
  note ok_s = less(2)
  let ?o = "ae_captureAssemblyOffset s"
  have ok: "?o < SamplesPerFrame" "frame_ok (ae_captureAssembly s)" using ok_s by (simp_all add: engine_ok_parts)
  then have len: "length (captured samples s) = ?o + length samples" by (simp add: captured_def frame_ok_def)
  let ?n = "min (SamplesPerFrame - ?o) (length samples)"
  let ?t = "s\<lparr>ae_captureAssembly := store_samples ?o (take ?n samples) (ae_captureAssembly s), ae_captureAssemblyOffset := ?o + ?n\<rparr>"
  have stored: "length (store_samples ?o (take ?n samples) (ae_captureAssembly s)) = SamplesPerFrame"
    "take (?o + ?n) (store_samples ?o (take ?n samples) (ae_captureAssembly s)) = take ?o (ae_captureAssembly s) @ take ?n samples"
    using ok by (simp_all add: store_samples_def frame_ok_def)
  consider (none) "samples = []" | (part) "samples \<noteq> []" "?o + length samples < SamplesPerFrame"
    | (full) "samples \<noteq> []" "SamplesPerFrame \<le> ?o + length samples" by force
  then show ?case
  proof cases
    case none
    then show ?thesis
      using ok_s len ok by (subst capture_samples.simps) (simp add: takes_in_def captured_def)
  next
    case part
    then have "?n = length samples" by simp
    then have t: "engine_ok ?t" "captured [] ?t = captured samples s"
      using ok_s stored part(2) by (simp_all add: engine_ok_parts frame_ok_def captured_def)
    have "capture_samples samples s = capture_samples [] ?t"
      using part ok by (subst capture_samples.simps) (simp add: Let_def)
    moreover have "capture_samples [] ?t = (Inr (), ?t)" by (subst capture_samples.simps) simp
    moreover have "takes_in (captured samples s) s ?t"
      using t part(2) len by (simp add: takes_in_def)
    ultimately show ?thesis by simp
  next
    case full
    then have n: "?n = SamplesPerFrame - ?o" using ok by simp
    let ?u = "(push_captured ?t)\<lparr>ae_captureAssemblyOffset := 0\<rparr>"
    let ?f = "take ?o (ae_captureAssembly s) @ take ?n samples"
    have "engine_ok (s\<lparr>ae_captureAssembly := ?f\<rparr>)" using ok_s stored n ok by (simp add: engine_ok_parts frame_ok_def)
    moreover have "store_samples ?o (take ?n samples) (ae_captureAssembly s) = ?f" using stored n ok by simp
    then have "?u = (push_captured (s\<lparr>ae_captureAssembly := ?f\<rparr>))\<lparr>ae_captureAssemblyOffset := 0\<rparr>"
      by (simp add: push_captured_def WakeWorker_def split: prod.split bool.split)
    ultimately have first: "takes_in ?f s ?u"
      using push_captured_takes_in [of "s\<lparr>ae_captureAssembly := ?f\<rparr>" ?f] by (simp add: takes_in_def capture_room_def)
    then have "engine_ok ?u" by (simp add: takes_in_def)
    moreover have run: "capture_samples samples s = capture_samples (drop ?n samples) ?u"
      using full ok by (subst capture_samples.simps) (simp add: Let_def)
    moreover have "length (drop ?n samples) < length samples" using full(1) ok n by (cases samples) simp_all
    ultimately obtain s' where s': "capture_samples samples s = (Inr (), s')" "takes_in (captured (drop ?n samples) ?u) ?u s'"
      using less(1) [of "drop ?n samples" ?u] by metis
    have eq: "captured (drop ?n samples) ?u = drop ?n samples" "captured samples s = ?f @ drop ?n samples"
      by (simp_all add: captured_def)
    have "length ?f = SamplesPerFrame" using n ok full by (simp add: frame_ok_def)
    from takes_in_trans [OF first this s'(2) [unfolded eq(1)]] s'(1) eq(2) show ?thesis by metis
  qed
qed

section \<open>What is handed to the network\<close>

text \<open>An operation keeps \<open>I\<close> and, when it succeeds, returns a value with \<open>Q\<close>.\<close>

definition op_yields :: "('s \<Rightarrow> bool) \<Rightarrow> ('s, 'a) op \<Rightarrow> ('a \<Rightarrow> bool) \<Rightarrow> bool" where
  "op_yields I m Q \<longleftrightarrow> (\<forall>s. I s \<longrightarrow> I (snd (m s)) \<and> (\<forall>x. fst (m s) = Inr x \<longrightarrow> Q x))"

lemma op_yields_bind:
  assumes "op_yields I m Q" and "\<And>x. Q x \<Longrightarrow> op_yields I (f x) R"
  shows "op_yields I (op_bind m f) R"
  unfolding op_yields_def
proof (intro allI impI)
  fix s assume "I s"
  obtain r t where run: "m s = (r, t)" by force
  with assms(1) \<open>I s\<close> have t: "I t" "\<And>x. r = Inr x \<Longrightarrow> Q x" by (auto simp: op_yields_def)
  show "I (snd (op_bind m f s)) \<and> (\<forall>x. fst (op_bind m f s) = Inr x \<longrightarrow> R x)"
  proof (cases r)
    case (Inr x)
    with t assms(2) [of x] run show ?thesis by (simp add: op_bind_run op_yields_def)
  qed (use t run in \<open>simp add: op_bind_run\<close>)
qed

lemmas op_yields_then = op_yields_bind [where Q = "\<lambda>_. True"]

lemma op_yields_simps:
  "op_yields I (op_return x) Q \<longleftrightarrow> (\<forall>s. I s \<longrightarrow> Q x)"
  "op_yields I (op_gets g) Q \<longleftrightarrow> (\<forall>s. I s \<longrightarrow> Q (g s))"
  "op_yields I (op_modify h) (\<lambda>_. True) \<longleftrightarrow> (\<forall>s. I s \<longrightarrow> I (h s))"
  by (auto simp: op_yields_def)

lemma op_yields_when: "(b \<Longrightarrow> op_yields I m (\<lambda>_. True)) \<Longrightarrow> op_yields I (op_when b m) (\<lambda>_. True)"
  by (simp add: op_yields_def)

text \<open>A frame the worker hands to the network in the transmit state \<open>st\<close>.\<close>

definition frame_for :: "TransmitStateChange \<Rightarrow> EncodedFrame \<Rightarrow> bool" where
  "frame_for st f \<longleftrightarrow> en_transmitRevision f = ts_revision st \<and>
     (if en_talkEnd f then en_size f = 0 else ts_enabled st \<and> en_size f \<le> MaxEncodedBytes)"

definition hands_out ::
  "EncodedFrame list \<Rightarrow> TransmitStateChange \<Rightarrow> 'f PcmFrame SpscRing \<Rightarrow> ('f, 'dc, 'k, 'b) AudioEngine \<times> ('f, 'e) Worker \<Rightarrow> bool" where
  "hands_out before st captures p \<longleftrightarrow> ae_captureQueue (fst p) = captures \<and> wk_state (snd p) = st \<and>
     ring_inv OutgoingQueueCapacity (ae_outgoingQueue (fst p)) \<and>
     (\<exists>new. contents OutgoingQueueCapacity (ae_outgoingQueue (fst p)) = before @ new \<and> list_all (frame_for st) new)"

lemma hands_out_push:
  assumes "hands_out before st captures (s, w)" and "frame_for st f"
  shows "hands_out before st captures (push_outgoing f s, w)"
proof -
  have ok: "ring_inv 16 (ae_outgoingQueue s)" using assms(1) by (simp add: hands_out_def audio_limits)
  show ?thesis
  proof (cases "length (contents 16 (ae_outgoingQueue s)) < 15")
    case True
    then obtain q where "TryPush 16 f (ae_outgoingQueue s) = (True, q)" "ring_inv 16 q"
        "contents 16 q = contents 16 (ae_outgoingQueue s) @ [f]"
      using ring.push_room [OF ok, of f] by auto
    with assms show ?thesis
      by (auto simp: hands_out_def push_outgoing_def NotifyNetwork_def OutgoingQueueCapacity_def)
  next
    case False
    then have "TryPush 16 f (ae_outgoingQueue s) = (False, ae_outgoingQueue s)" using ring.push_full [OF ok, of f] by simp
    with assms show ?thesis by (simp add: hands_out_def push_outgoing_def OutgoingQueueCapacity_def)
  qed
qed

lemma hands_out_encoder: "op_yields (hands_out before st captures) (on_encoder m) (\<lambda>_. True)"
  by (auto simp: op_yields_def on_encoder_def op_zoom_def hands_out_def split: prod.split)

lemma hands_out_worker:
  "(\<And>w. wk_state (h w) = wk_state w) \<Longrightarrow> op_yields (hands_out before st captures) (set_worker h) (\<lambda>_. True)"
  by (auto simp: op_yields_def set_worker_def hands_out_def)

lemma push_talker_queues:
  "push_talker A frame s = (r, s') \<Longrightarrow>
     ae_captureQueue s' = ae_captureQueue s \<and> ae_outgoingQueue s' = ae_outgoingQueue s"
  by (cases r) (auto simp: push_talker_def Let_def op_bind_eq_Inl op_bind_eq_Inr op_lift_def split: option.splits)

lemma hands_out_loopback: "op_yields (hands_out before st captures) (on_engine (PlayLoopback A frame)) (\<lambda>_. True)"
  using push_talker_queues [of A]
  by (auto simp: op_yields_def on_engine_def op_zoom_def hands_out_def PlayLoopback_def op_bind_run split: prod.split)

lemma hands_out_push_op:
  "frame_for st f \<Longrightarrow> op_yields (hands_out before st captures) (on_engine (op_modify (push_outgoing f))) (\<lambda>_. True)"
  using hands_out_push by (auto simp: op_yields_def on_engine_def op_zoom_def)

lemmas hands_out_rules = op_yields_then op_yields_when hands_out_encoder hands_out_worker hands_out_loopback hands_out_push_op

lemma hands_out_state: "op_yields (hands_out before st captures) (op_gets snd) (\<lambda>w. wk_state w = st)"
  by (simp add: op_yields_simps hands_out_def)

lemma hands_out_gate: "op_yields (hands_out before st captures) (gate_frame A pcm) (\<lambda>_. True)"
  by (auto simp: op_yields_def gate_frame_def hands_out_def Let_def split: prod.split)

lemma hands_out_talk_ended: "op_yields (hands_out before st captures) (talk_ended A) (\<lambda>_. True)"
  unfolding talk_ended_def QueueTalkEnd_def
  by (rule op_yields_bind [OF hands_out_state]) (auto intro!: hands_out_rules simp: frame_for_def empty_EncodedFrame_def)

lemma hands_out_encode:
  assumes "opus_ok (al_opus A)"
  shows "op_yields (hands_out before st captures) (encode_frame A pcm) (\<lambda>f. ts_enabled st \<longrightarrow> frame_for st f)"
  unfolding encode_frame_def
proof (rule op_yields_bind [where Q = "\<lambda>(data, size). size \<le> MaxEncodedBytes"])
  show "op_yields (hands_out before st captures)
      (on_encoder (encoder_Encode (al_opus A) pcm (replicate MaxEncodedBytes 0))) (\<lambda>(data, size). size \<le> MaxEncodedBytes)"
    using encoder_Encode_size [OF assms, of pcm "replicate MaxEncodedBytes 0"]
    by (auto simp: op_yields_def on_encoder_def op_zoom_def hands_out_def split: prod.splits)
qed (auto intro!: op_yields_bind [OF hands_out_state] op_yields_bind [OF hands_out_worker]
    simp: op_yields_simps frame_for_def)

lemma hands_out_frame:
  assumes "opus_ok (al_opus A)"
  shows "op_yields (hands_out before st captures) (capture_frame A pcm) (\<lambda>_. True)"
  unfolding capture_frame_def
proof (rule op_yields_then)
  show "op_yields (hands_out before st captures) (op_gets (\<lambda>p. cg_active (wk_gate (snd p)))) (\<lambda>_. True)"
    by (simp add: op_yields_simps)
qed (auto intro!: op_yields_then [OF hands_out_gate] op_yields_bind [OF hands_out_encode [OF assms]]
    op_yields_bind [OF hands_out_state] hands_out_talk_ended hands_out_rules split: if_split prod.split)

text \<open>The worker's copy of the transmit state is the one of its revision.\<close>

definition worker_synced :: "('f, 'dc, 'k, 'b) AudioEngine \<Rightarrow> ('f, 'e) Worker \<Rightarrow> bool" where
  "worker_synced s w \<longleftrightarrow> (ts_revision (wk_state w) = ts_revision (LoadTransmitState s) \<longrightarrow> wk_state w = LoadTransmitState s)"

lemma reset_capture_hands_out:
  assumes "ring_inv OutgoingQueueCapacity (ae_outgoingQueue s)"
  shows "hands_out (contents OutgoingQueueCapacity (ae_outgoingQueue s)) (wk_state w) (ae_captureQueue s)
    (reset_capture silence talkEnd wasLoopback (ts_revision (wk_state w)) s, w)"
proof -
  let ?H = "hands_out (contents OutgoingQueueCapacity (ae_outgoingQueue s)) (wk_state w) (ae_captureQueue s)"
  let ?s = "s\<lparr>ae_inputLevelDb := silence, ae_inputVoiceActive := False\<rparr>"
  have "?H (?s, w)" using assms by (simp add: hands_out_def)
  then have "?H (if talkEnd then QueueTalkEnd (ts_revision (wk_state w)) ?s else ?s, w)"
    by (auto simp: QueueTalkEnd_def frame_for_def empty_EncodedFrame_def intro!: hands_out_push)
  then show ?thesis by (auto simp: reset_capture_def Let_def hands_out_def)
qed

lemma apply_state_change_hands_out:
  assumes "engine_ok s" and "worker_synced s w"
  shows "\<exists>r s' w'. apply_state_change A (s, w) = Some (r, s', w') \<and> wk_state w' = LoadTransmitState s \<and>
    ring_inv CaptureQueueCapacity (ae_captureQueue s') \<and>
    hands_out (contents OutgoingQueueCapacity (ae_outgoingQueue s)) (LoadTransmitState s) (ae_captureQueue s') (s', w')"
proof -
  have rings: "ring_inv CaptureQueueCapacity (ae_captureQueue s)" "ring_inv OutgoingQueueCapacity (ae_outgoingQueue s)"
    using assms(1) by (simp_all add: engine_ok_parts)
  show ?thesis
  proof (cases "ts_revision (LoadTransmitState s) \<noteq> ts_revision (wk_state w) \<or> ae_captureMonitor s \<noteq> wk_monitor w")
    case False
    with assms(2) rings show ?thesis by (auto simp: apply_state_change_def worker_synced_def hands_out_def)
  next
    case True
    let ?w = "w\<lparr>wk_state := LoadTransmitState s, wk_monitor := ae_captureMonitor s\<rparr>"
    obtain r e where reset: "encoder_Reset (al_opus A) (wk_encoder w) = (r, e)" by force
    obtain q where q: "ring_Clear CaptureQueueCapacity (ae_captureQueue s) = Some q" "ring_inv CaptureQueueCapacity q"
      using ring_Clear_empties [OF rings(1)] by blast
    show ?thesis
    proof (cases r)
      case (Inl err)
      with True rings reset show ?thesis
        by (simp add: apply_state_change_def Let_def set_worker_def on_encoder_def op_zoom_def op_bind_run hands_out_def)
    next
      case (Inr u)
      with True rings reset q reset_capture_hands_out [of "s\<lparr>ae_captureQueue := q\<rparr>"
          "?w\<lparr>wk_encoder := e, wk_gate := gate_Reset (wk_gate w), wk_talkStartRemaining := 0\<rparr>"]
      show ?thesis
        by (simp add: apply_state_change_def Let_def set_worker_def on_encoder_def op_zoom_def op_bind_run hands_out_def)
    qed
  qed
qed

lemma ProcessCapture_hands_out:
  fixes A :: "('f, 'd, 'e, 'dc, 'k, 'b) AudioLib" and s :: "('f, 'dc, 'k, 'b) AudioEngine" and w :: "('f, 'e) Worker"
  assumes "engine_ok s" and "worker_synced s w" and "opus_ok (al_opus A)"
  shows "\<exists>r s' w' captures. ProcessCapture A (s, w) = Some (r, s', w') \<and>
    hands_out (contents OutgoingQueueCapacity (ae_outgoingQueue s)) (LoadTransmitState s) captures (s', w')"
proof -
  let ?before = "contents OutgoingQueueCapacity (ae_outgoingQueue s)"
  let ?H = "\<lambda>p. \<exists>captures. hands_out ?before (LoadTransmitState s) captures p"
  let ?get = "\<lambda>p :: ('f, 'dc, 'k, 'b) AudioEngine \<times> ('f, 'e) Worker. ae_captureQueue (fst p)"
  let ?put = "\<lambda>q p :: ('f, 'dc, 'k, 'b) AudioEngine \<times> ('f, 'e) Worker. ((fst p)\<lparr>ae_captureQueue := q\<rparr>, snd p)"
  obtain r s1 w1 where start: "apply_state_change A (s, w) = Some (r, s1, w1)"
      "ring_inv CaptureQueueCapacity (ae_captureQueue s1)" "?H (s1, w1)"
    using apply_state_change_hands_out [OF assms(1,2)] by blast
  have "ae_captureQueue (fst (snd (capture_frame A x p))) = ae_captureQueue (fst p) \<and> ?H (snd (capture_frame A x p))" if "?H p" for x p
    using that hands_out_frame [OF assms(3)] unfolding op_yields_def hands_out_def by (metis (no_types, lifting))
  moreover have "?H (?put q p)" if "?H p" for q p using that by (auto simp: hands_out_def)
  ultimately have "\<exists>r' p. pop_loop CaptureQueueCapacity ?get ?put (capture_frame A) (s1, w1) = Some (r', p) \<and> ?H p \<and>
      ring_inv CaptureQueueCapacity (?get p) \<and> ((\<forall>x p. ?H p \<longrightarrow> fst (capture_frame A x p) = Inr ()) \<longrightarrow> r' = Inr ())"
    using start by (intro pop_loop_outcome) simp_all
  with start show ?thesis
    by (cases r) (auto simp: ProcessCapture_def)
qed

section \<open>Properties\<close>

text \<open>
  C39: between the device and the encoder every sample keeps its place. While capturing is on, the
  samples that arrive continue the frame begun; complete frames go to the capture queue in
  order, and only those that find the queue full are left out and counted. The buffers are not
  overrun, however many samples a callback brings.
\<close>

theorem capture_keeps_samples:
  assumes "engine_ok s" and "TransmitEnabled s \<or> ae_captureMonitor s \<noteq> Off"
  shows "\<exists>s'. OnCapturedSamples samples s = (Inr (), s') \<and> engine_ok s' \<and>
    concat (frames_of (captured samples s)) @ captured [] s' = captured [] s @ samples \<and>
    contents CaptureQueueCapacity (ae_captureQueue s') =
      contents CaptureQueueCapacity (ae_captureQueue s) @ take (capture_room s) (frames_of (captured samples s)) \<and>
    ae_captureDrops s' = ae_captureDrops s + of_nat (length (frames_of (captured samples s)) - capture_room s)"
proof -
  obtain s' where "capture_samples samples s = (Inr (), s')" "takes_in (captured samples s) s s'"
    using capture_samples_takes_in [OF assms(1)] by blast
  moreover have "concat (frames_of (captured samples s)) @ begun_frame (captured samples s) = captured [] s @ samples"
    using frames_of_split [of "captured samples s"] by (simp add: captured_def)
  ultimately show ?thesis using assms(2) by (auto simp: OnCapturedSamples_def takes_in_def)
qed

theorem capture_keeps_samples_witness:
  "\<exists>s'. OnCapturedSamples [1, 2, 3 :: int]
      ((new_AudioEngine whole_sound (Inr ()) :: (int, unit, unit, unit) AudioEngine)\<lparr>ae_captureMonitor := Level\<rparr>) = (Inr (), s') \<and>
    engine_ok s' \<and> captured [] s' = [1, 2, 3]"
proof -
  let ?s = "(new_AudioEngine whole_sound (Inr ()) :: (int, unit, unit, unit) AudioEngine)\<lparr>ae_captureMonitor := Level\<rparr>"
  have "engine_ok ?s" using new_AudioEngine_ok [of whole_sound "Inr ()"] by (simp add: engine_ok_parts)
  moreover have "captured [] ?s = []" "captured [1, 2, 3] ?s = [1, 2, 3]" by (simp_all add: captured_def new_AudioEngine_def Let_def)
  ultimately show ?thesis
    using capture_keeps_samples [of ?s "[1, 2, 3]"] by (auto simp: SamplesPerFrame_def)
qed

text \<open>
  C22: what the microphone picks up is handed to the network only in the transmit state it was
  recorded under. Every turn of the capture path returns; the frames it adds to the outgoing
  queue carry the revision of the transmit state the turn started with, and while transmission is
  off they are empty end-of-talk marks.
\<close>

theorem captured_frames_tagged:
  assumes "engine_ok s" and "worker_synced s w" and "opus_ok (al_opus A)"
  shows "\<exists>r s' w' new. ProcessCapture A (s, w) = Some (r, s', w') \<and> wk_state w' = LoadTransmitState s \<and>
    contents OutgoingQueueCapacity (ae_outgoingQueue s') = contents OutgoingQueueCapacity (ae_outgoingQueue s) @ new \<and>
    (\<forall>f \<in> set new. en_transmitRevision f = ts_revision (LoadTransmitState s) \<and> en_size f \<le> MaxEncodedBytes \<and>
       (\<not> TransmitEnabled s \<longrightarrow> en_talkEnd f \<and> en_size f = 0))"
  using ProcessCapture_hands_out [OF assms]
  by (fastforce simp: hands_out_def list_all_iff frame_for_def TransmitEnabled_def split: if_splits)

definition toy_opus :: "(unit, unit, int) Opus" where
  "toy_opus = \<lparr>ox_encoder_create = (0, ()), ox_encoder_ctl = (\<lambda>_ e. (0, e)), ox_encode_float = (\<lambda>e _ n. (min 1 (int n), [], e)),
     ox_decoder_create = (0, ()), ox_decoder_reset = (\<lambda>d. (0, d)),
     ox_decode_float = (\<lambda>d _ n _. (int (min n 960), replicate (min n 960) 3, d)), ox_strerror = print_int\<rparr>"

definition toy_audio :: "(int, int, unit, unit, unit, unit) AudioLib" where
  "toy_audio = \<lparr>al_sound = whole_sound, al_opus = toy_opus, al_haveRnnoise = False,
     al_rnnoise = \<lparr>rn_create = None, rn_process = (\<lambda>k xs. (xs, k))\<rparr>,
     al_backend = \<lparr>ab_devices = (\<lambda>_. Inr []), ab_setInput = (\<lambda>_. op_return ()), ab_setOutput = (\<lambda>_. op_return ()),
       ab_inputClock = (\<lambda>_. \<lparr>dc_rate = 48000, dc_period = 960\<rparr>), ab_outputClock = (\<lambda>_. \<lparr>dc_rate = 48000, dc_period = 960\<rparr>)\<rparr>\<rparr>"

lemma toy_opus_ok: "opus_ok (al_opus toy_audio)"
  by (simp add: opus_ok_def toy_audio_def toy_opus_def)

theorem captured_frames_tagged_witness:
  "\<exists>r s' w'. ProcessCapture toy_audio (new_AudioEngine whole_sound (Inr ()), new_Worker whole_sound ()) = Some (r, s', w') \<and>
     wk_state w' = \<lparr>ts_enabled = False, ts_revision = 1\<rparr>"
proof -
  let ?s = "new_AudioEngine whole_sound (Inr ()) :: (int, unit, unit, unit) AudioEngine"
  have "LoadTransmitState ?s = \<lparr>ts_enabled = False, ts_revision = 1\<rparr>"
    by (simp add: LoadTransmitState_def new_AudioEngine_def Let_def)
  moreover from this have "worker_synced ?s (new_Worker whole_sound ())" by (simp add: worker_synced_def new_Worker_def)
  ultimately show ?thesis
    using captured_frames_tagged [OF new_AudioEngine_ok _ toy_opus_ok, of whole_sound "Inr ()" "new_Worker whole_sound ()"] by auto
qed

end
