(* ===== verification/Audio_Playback.thy ===== *)
theory Audio_Playback
  imports Audio_Capture Voice_Codec
begin

text \<open>
  The playback path of \<open>AudioEngine\<close> (\<open>audio/src/audio_engine.cpp\<close>): \<open>ProcessIncoming\<close> files received
  frames with their talkers, \<open>MixPlayback\<close> decodes one frame's worth of every talker and mixes it,
  \<open>RenderPlayback\<close> answers the output device, and the turns of \<open>Worker\<close> keep the queue between
  them filled. The waiting of the worker for a signal is not modelled.

  The lemmas show that the device gets the mixed samples in order without a gap, that nothing a
  remote client sends makes the mixer fail, loop or read outside a buffer, that the refill
  reaches its target, and that who is muted is not heard.
\<close>

section \<open>The device's side\<close>

definition fetch_frame :: "('f, 'dc, 'k, 'b) AudioEngine \<Rightarrow> bool \<times> ('f, 'dc, 'k, 'b) AudioEngine" where
  "fetch_frame s =
     (if ae_playbackOffset s \<ge> SamplesPerFrame then
        (case TryPop PlaybackQueueCapacity (ae_playbackQueue s) of
           (None, q) \<Rightarrow> (False, s\<lparr>ae_playbackQueue := q\<rparr>)
         | (Some frame, q) \<Rightarrow> (True, s\<lparr>ae_playbackQueue := q, ae_playbackCurrent := frame, ae_playbackOffset := 0\<rparr>))
      else (True, s))"

lemma fetch_frame_offset: "fetch_frame s = (True, s') \<Longrightarrow> ae_playbackOffset s' < SamplesPerFrame"
  by (auto simp: fetch_frame_def SamplesPerFrame_def split: if_splits prod.splits option.splits)

text \<open>The loop that fills the output: the samples, whether the queue ran empty, and the state.\<close>

function render ::
  "'f \<Rightarrow> nat \<Rightarrow> ('f, 'dc, 'k, 'b) AudioEngine \<Rightarrow> 'f list \<times> bool \<times> ('f, 'dc, 'k, 'b) AudioEngine" where
  "render silence needed s =
     (if needed = 0 then ([], False, s)
      else case fetch_frame s of
        (False, s) \<Rightarrow> (replicate needed silence, True, s)
      | (True, s) \<Rightarrow>
          let count = min (SamplesPerFrame - ae_playbackOffset s) needed;
              chunk = take count (drop (ae_playbackOffset s) (ae_playbackCurrent s))
          in case render silence (needed - count) (s\<lparr>ae_playbackOffset := ae_playbackOffset s + count\<rparr>) of
               (out, short, s) \<Rightarrow> (chunk @ out, short, s))"
  by pat_completeness auto
termination
  by (relation "measure (\<lambda>(_, needed, _). needed)") (auto dest: sym [THEN fetch_frame_offset])

declare render.simps [simp del]

definition recently :: "time \<Rightarrow> time \<Rightarrow> bool" where
  "recently now previous \<longleftrightarrow> previous \<noteq> 0 \<and> now - previous < PlaybackIdleTimeout"

definition RenderPlayback ::
  "'f \<Rightarrow> time \<Rightarrow> nat \<Rightarrow> ('f, 'dc, 'k, 'b) AudioEngine \<Rightarrow> 'f list \<times> ('f, 'dc, 'k, 'b) AudioEngine" where
  "RenderPlayback silence now samples s =
     (let wasActive = recently now (ae_lastPlaybackRequest s) in
      case render silence samples (s\<lparr>ae_lastPlaybackRequest := now, ae_playbackRequestSamples := samples\<rparr>) of
        (out, short, s) \<Rightarrow>
          (out, WakeWorker (if short \<and> wasActive then s\<lparr>ae_playbackUnderruns := ae_playbackUnderruns s + 1\<rparr> else s)))"

definition PlaybackBufferFrames :: "nat \<Rightarrow> nat" where
  "PlaybackBufferFrames requestSamples =
     (let requestFrames = (requestSamples + SamplesPerFrame - 1) div SamplesPerFrame
      in max 2 (min (PlaybackQueueCapacity - 1) (requestFrames + 1)))"

definition PlaybackDeviceActive :: "time \<Rightarrow> ('f, 'dc, 'k, 'b) AudioEngine \<Rightarrow> bool" where
  "PlaybackDeviceActive now s \<longleftrightarrow> recently now (ae_lastPlaybackRequest s)"

section \<open>Receiving\<close>

text \<open>
  The way of a received voice frame to the engine: \<open>NetworkRuntime::ProcessVoiceEvent\<close>
  (\<open>client/src/runtime/network_runtime.cpp\<close>) up to the call of \<open>SubmitIncoming\<close>. A frame with more
  bytes than the array of \<open>IncomingEncodedFrame\<close> is left out.
\<close>

definition incoming_frame :: "VoiceFrame \<Rightarrow> IncomingEncodedFrame" where
  "incoming_frame voice =
     \<lparr>ef_clientId = vf_clientId voice, ef_voiceId = vf_voiceId voice, ef_codec = codec_value (vf_codec voice),
      ef_data = overwrite (vf_data voice) (ef_data default_frame), ef_size = length (vf_data voice),
      ef_talkStart = vf_talkStart voice, ef_talkEnd = vf_talkEnd voice\<rparr>"

definition submit_voice :: "VoiceFrame \<Rightarrow> ('f, 'dc, 'k, 'b) AudioEngine \<Rightarrow> ('f, 'dc, 'k, 'b) AudioEngine" where
  "submit_voice voice s =
     (if length (vf_data voice) > MaxEncodedBytes then s else snd (SubmitIncoming (incoming_frame voice) s))"

definition ProcessIncoming ::
  "('f, 'd, 'e, 'dc, 'k, 'b) AudioLib \<Rightarrow> ('f, 'dc, 'k, 'b) AudioEngine \<Rightarrow> (unit result \<times> ('f, 'dc, 'k, 'b) AudioEngine) option" where
  "ProcessIncoming A s =
     (case pop_loop IncomingQueueCapacity ae_talkerResetQueue (\<lambda>q s. s\<lparr>ae_talkerResetQueue := q\<rparr>)
             (\<lambda>clientId. op_modify (\<lambda>s. s\<lparr>ae_talkers := sm_erase clientId (ae_talkers s)\<rparr>)) s of
        None \<Rightarrow> None
      | Some (Inl e, s) \<Rightarrow> Some (Inl e, s)
      | Some (Inr _, s) \<Rightarrow>
          pop_loop IncomingQueueCapacity ae_incomingQueue (\<lambda>q s. s\<lparr>ae_incomingQueue := q\<rparr>) (push_talker A) s)"

section \<open>Decoding one talker\<close>

text \<open>The state is the talker and \<open>m_ReceiveDrops\<close>.\<close>

type_synonym ('f, 'dc, 'a) talker_op = "(('f, 'dc) TalkerState \<times> u64, 'a) op"

definition on_decoder :: "('dc, 'a) op \<Rightarrow> ('f, 'dc, 'a) talker_op" where
  "on_decoder m p =
     (case tl_decoder (fst p) of
        None \<Rightarrow> (Inl (UndefinedBehaviour ''talker.decoder''), p)
      | Some d \<Rightarrow> (case m d of (r, d) \<Rightarrow> (r, (fst p)\<lparr>tl_decoder := Some d\<rparr>, snd p)))"

definition set_talker :: "(('f, 'dc) TalkerState \<Rightarrow> ('f, 'dc) TalkerState) \<Rightarrow> ('f, 'dc, unit) talker_op" where
  "set_talker h = op_modify (\<lambda>p. (h (fst p), snd p))"

definition talk_burst_ended :: "('f, 'd, 'e, 'dc, 'k, 'b) AudioLib \<Rightarrow> ('f, 'dc, unit) talker_op" where
  "talk_burst_ended A =
     op_bind (on_decoder (decoder_Reset (al_opus A))) (\<lambda>_.
     set_talker (\<lambda>t. t\<lparr>tl_lastPacketSamples := SamplesPerFrame,
       tl_decodedSamples := (if tl_decodedSamples t = [] then []
         else take SamplesPerFrame (tl_decodedSamples t @ replicate SamplesPerFrame (flit (al_sound A) 0)))\<rparr>))"

definition stream_started :: "('f, 'd, 'e, 'dc, 'k, 'b) AudioLib \<Rightarrow> ('f, 'dc, unit) talker_op" where
  "stream_started A =
     op_bind (on_decoder (decoder_Reset (al_opus A))) (\<lambda>_.
     set_talker (\<lambda>t. t\<lparr>tl_decodedSamples := [], tl_lastPacketSamples := SamplesPerFrame\<rparr>))"

text \<open>The handler of a packet that does not decode.\<close>

definition decode_failed :: "('f, 'd, 'e, 'dc, 'k, 'b) AudioLib \<Rightarrow> ('f, 'dc, unit) talker_op" where
  "decode_failed A =
     op_bind (on_decoder (decoder_Reset (al_opus A))) (\<lambda>_.
     op_modify (\<lambda>(t, drops).
       (t\<lparr>tl_jitter := jitter_Reset (tl_jitter t), tl_decodedSamples := [], tl_lastPacketSamples := SamplesPerFrame\<rparr>,
        drops + 1)))"

text \<open>\<open>std::span( item.frame.data.data(), item.frame.size )\<close>: reading past the array is undefined.\<close>

definition voice_span :: "IncomingEncodedFrame \<Rightarrow> bytes result" where
  "voice_span frame =
     (if ef_size frame > length (ef_data frame) then Inl (UndefinedBehaviour ''item.frame.data'')
      else Inr (take (ef_size frame) (ef_data frame)))"

definition decode_request :: "JitterPullResult \<Rightarrow> bytes \<Rightarrow> ('f, 'dc) TalkerState \<Rightarrow> bytes \<times> DecodeMode \<times> nat" where
  "decode_request item encoded t =
     (if jp_kind item = PacketLoss then
        (if jp_hasRecoveryFrame item then (encoded, DecodeForwardErrorCorrection, tl_lastPacketSamples t)
         else ([], DecodePacketLoss, tl_lastPacketSamples t))
      else (encoded, DecodeNormal, 0))"

definition store_decoded :: "DecodeMode \<Rightarrow> nat \<Rightarrow> 'f list \<Rightarrow> ('f, 'dc, bool) talker_op" where
  "store_decoded mode n samples =
     (if n = 0 then op_return True
      else if n > length samples then op_throw (RuntimeError ''Audio decoder returned too many samples'')
      else op_bind (set_talker (\<lambda>t. t\<lparr>
          tl_lastPacketSamples := (if mode = DecodeNormal then n else tl_lastPacketSamples t),
          tl_decodedSamples := tl_decodedSamples t @ take n samples\<rparr>)) (\<lambda>_. op_return True))"

definition decode_packet ::
  "('f, 'd, 'e, 'dc, 'k, 'b) AudioLib \<Rightarrow> bytes \<times> DecodeMode \<times> nat \<Rightarrow> ('f, 'dc, bool) talker_op" where
  "decode_packet A request p =
     (case request of (encoded, mode, recovery) \<Rightarrow>
      case on_decoder (decoder_Decode (al_sound A) (al_opus A) encoded mode recovery) p of
        (Inl e, p) \<Rightarrow> if safe_error e then op_bind (decode_failed A) (\<lambda>_. op_return False) p else (Inl e, p)
      | (Inr (n, samples), p) \<Rightarrow> store_decoded mode n samples p)"

text \<open>A frame or a lost packet; \<open>False\<close> leaves the loop over the talker.\<close>

definition decode_item :: "('f, 'd, 'e, 'dc, 'k, 'b) AudioLib \<Rightarrow> JitterPullResult \<Rightarrow> ('f, 'dc, bool) talker_op" where
  "decode_item A item =
     op_bind (op_when (jp_streamStart item) (stream_started A)) (\<lambda>_.
     op_bind (op_lift (voice_span (jp_frame item))) (\<lambda>encoded.
     op_bind (op_gets (\<lambda>p. decode_request item encoded (fst p))) (decode_packet A)))"

text \<open>Every pull that yields something to decode brings the jitter buffer nearer to its end.\<close>

definition jitter_left :: "VoiceJitterBuffer \<Rightarrow> nat" where
  "jitter_left j = 4 * length (jb_pending j) + (3 - jb_consecutiveLosses j)"

lemma Pull_progress:
  assumes "jitter_Pull j = (item, j')" and "jp_kind item \<noteq> Wait" and "jp_kind item \<noteq> End"
  shows "jitter_left j' < jitter_left j"
proof -
  have started: "jitter_left t' < jitter_left t" if "pull_started x t = (item, t')" for x t t'
  proof -
    have "length (sm_erase x (jb_pending t)) < length (jb_pending t)" if "sm_find (jb_pending t) x = Some f" for f
      using that by (intro erase_shorter) (auto simp: sm_find_def dest!: map_of_SomeD intro: rev_image_eqI)
    then show ?thesis
      using that assms(2,3)
      by (auto simp: pull_started_def pull_result_def jitter_left_def MaxConsecutiveLosses_def split: if_splits option.splits)
  qed
  have same: "jitter_left (t\<lparr>jb_started := b\<rparr>) = jitter_left t" for t b by (simp add: jitter_left_def)
  show ?thesis
    using assms started started [of _ "j\<lparr>jb_started := True\<rparr>", unfolded same]
    by (auto simp: jitter_Pull_def pull_result_def split: option.splits if_splits)
qed

lemma on_decoder_rest:
  "on_decoder m p = (r, p') \<Longrightarrow> tl_jitter (fst p') = tl_jitter (fst p) \<and> tl_decodedSamples (fst p') = tl_decodedSamples (fst p) \<and>
     tl_lastPacketSamples (fst p') = tl_lastPacketSamples (fst p) \<and> snd p' = snd p"
  by (auto simp: on_decoder_def split: option.splits prod.splits)

lemma stream_started_jitter: "stream_started A p = (r, p') \<Longrightarrow> tl_jitter (fst p') = tl_jitter (fst p)"
  by (cases r) (auto simp: stream_started_def op_bind_eq_Inr op_bind_eq_Inl set_talker_def dest: on_decoder_rest)

lemma store_decoded_jitter: "store_decoded mode n samples p = (r, p') \<Longrightarrow> tl_jitter (fst p') = tl_jitter (fst p)"
  by (auto simp: store_decoded_def op_bind_def set_talker_def split: if_splits)

lemma decode_packet_jitter:
  assumes "decode_packet A request p = (Inr True, p')"
  shows "tl_jitter (fst p') = tl_jitter (fst p)"
proof -
  obtain encoded mode recovery where request: "request = (encoded, mode, recovery)" by (metis surj_pair)
  obtain r q where run: "on_decoder (decoder_Decode (al_sound A) (al_opus A) encoded mode recovery) p = (r, q)" by (metis surj_pair)
  show ?thesis
  proof (cases r)
    case (Inl e)
    with assms run request show ?thesis by (auto simp: decode_packet_def op_bind_eq_Inr split: if_splits)
  next
    case (Inr d)
    obtain n samples where "d = (n, samples)" by force
    with Inr assms run request have "store_decoded mode n samples q = (Inr True, p')" by (simp add: decode_packet_def)
    with on_decoder_rest [OF run] store_decoded_jitter show ?thesis by metis
  qed
qed

lemma decode_item_jitter:
  assumes "decode_item A item p = (Inr True, p')"
  shows "tl_jitter (fst p') = tl_jitter (fst p)"
proof -
  obtain u q where start: "op_when (jp_streamStart item) (stream_started A) p = (Inr u, q)"
      and packet: "op_bind (op_lift (voice_span (jp_frame item))) (\<lambda>encoded.
        op_bind (op_gets (\<lambda>p. decode_request item encoded (fst p))) (decode_packet A)) q = (Inr True, p')"
    using assms unfolding decode_item_def op_bind_eq_Inr by blast
  have "tl_jitter (fst q) = tl_jitter (fst p)"
    using start stream_started_jitter [of A p] by (cases "jp_streamStart item") auto
  moreover obtain encoded where "decode_packet A (decode_request item encoded (fst q)) q = (Inr True, p')"
    using packet by (auto simp: op_bind_eq_Inr op_lift_def)
  ultimately show ?thesis using decode_packet_jitter by metis
qed

function decode_loop :: "('f, 'd, 'e, 'dc, 'k, 'b) AudioLib \<Rightarrow> ('f, 'dc, unit) talker_op" where
  "decode_loop A p =
     (if length (tl_decodedSamples (fst p)) \<ge> SamplesPerFrame then (Inr (), p)
      else case jitter_Pull (tl_jitter (fst p)) of (item, j) \<Rightarrow>
        let p = ((fst p)\<lparr>tl_jitter := j\<rparr>, snd p) in
        if jp_kind item = Wait then (Inr (), p)
        else if jp_kind item = End then talk_burst_ended A p
        else case decode_item A item p of
            (Inl e, p) \<Rightarrow> (Inl e, p)
          | (Inr again, p) \<Rightarrow> if again then decode_loop A p else (Inr (), p))"
  by pat_completeness auto
termination
  by (relation "measure (\<lambda>(_, p). jitter_left (tl_jitter (fst p)))")
    (auto dest!: decode_item_jitter [OF sym] Pull_progress [OF sym])

declare decode_loop.simps [simp del]

section \<open>Mixing\<close>

record ('f, 'dc, 'k, 'b) MixRun =
  mr_engine :: "('f, 'dc, 'k, 'b) AudioEngine"
  mr_mixed :: "'f PcmFrame"
  mr_contributors :: nat

definition talker_gain :: "('f, 'd) Sound \<Rightarrow> (u16, 'f TalkerMixSettings) smap \<Rightarrow> u16 \<Rightarrow> 'f TalkerMixSettings" where
  "talker_gain S mixSettings clientId =
     (case sm_find mixSettings clientId of Some settings \<Rightarrow> settings | None \<Rightarrow> \<lparr>mx_gain = flit S 1, mx_muted = False\<rparr>)"

definition mix_in :: "('f, 'd) Sound \<Rightarrow> 'f \<Rightarrow> 'f list \<Rightarrow> 'f list \<Rightarrow> 'f list" where
  "mix_in S gain decoded mixed = map2 (\<lambda>m d. snd_add S m (snd_mul S d gain)) mixed decoded"

text \<open>The part of the loop over the talkers behind the decoding.\<close>

definition mix_decoded ::
  "('f, 'd) Sound \<Rightarrow> (u16, 'f TalkerMixSettings) smap \<Rightarrow> bool \<Rightarrow> u16 \<Rightarrow> ('f, 'dc) TalkerState \<Rightarrow>
     ('f, 'dc, 'k, 'b) MixRun \<Rightarrow> ('f, 'dc, 'k, 'b) MixRun" where
  "mix_decoded S mixSettings playbackMuted clientId t m =
     (if length (tl_decodedSamples t) < SamplesPerFrame then m
      else
        let decoded = take SamplesPerFrame (tl_decodedSamples t);
            t = t\<lparr>tl_decodedSamples := drop SamplesPerFrame (tl_decodedSamples t)\<rparr>;
            m = m\<lparr>mr_engine := (mr_engine m)\<lparr>ae_talkers := sm_put clientId t (ae_talkers (mr_engine m))\<rparr>\<rparr>;
            settings = talker_gain S mixSettings clientId
        in if mx_muted settings \<or> (playbackMuted \<and> clientId \<noteq> LoopbackTalkerId) then m
           else m\<lparr>mr_mixed := mix_in S (mx_gain settings) decoded (mr_mixed m), mr_contributors := mr_contributors m + 1\<rparr>)"

definition mix_talker ::
  "('f, 'd, 'e, 'dc, 'k, 'b) AudioLib \<Rightarrow> (u16, 'f TalkerMixSettings) smap \<Rightarrow> bool \<Rightarrow> u16 \<Rightarrow>
     (('f, 'dc, 'k, 'b) MixRun, unit) op" where
  "mix_talker A mixSettings playbackMuted clientId m =
     (case sm_find (ae_talkers (mr_engine m)) clientId of
        None \<Rightarrow> (Inr (), m)
      | Some t \<Rightarrow>
          if tl_decoder t = None then (Inr (), m)
          else case decode_loop A (t, ae_receiveDrops (mr_engine m)) of
            (r, t, drops) \<Rightarrow>
              let m = m\<lparr>mr_engine := (mr_engine m)\<lparr>ae_talkers := sm_put clientId t (ae_talkers (mr_engine m)),
                                                 ae_receiveDrops := drops\<rparr>\<rparr>
              in case r of
                   Inl e \<Rightarrow> (Inl e, m)
                 | Inr _ \<Rightarrow> (Inr (), mix_decoded (al_sound A) mixSettings playbackMuted clientId t m))"

definition notification_of :: "u8 \<Rightarrow> NotificationType" where
  "notification_of n = (if n = 0 then Message else if n = 1 then Success else if n = 2 then Failure else Reminder)"

text \<open>The end of \<open>MixPlayback\<close>, behind the loop over the talkers.\<close>

definition deliver_mix :: "('f, 'd) Sound \<Rightarrow> bool \<Rightarrow> ('f, 'dc, 'k, 'b) MixRun \<Rightarrow> ('f, 'dc, 'k, 'b) AudioEngine" where
  "deliver_mix S deliver m =
     (let s = mr_engine m; request = ae_notificationRequested s;
          synth = (if request \<noteq> NoNotificationRequested then synth_Start S (notification_of request) (ae_synthesizer s)
                   else ae_synthesizer s)
      in case synth_Mix S (mr_mixed m) synth of
           (mixed, notification, synth) \<Rightarrow>
             let s = s\<lparr>ae_notificationRequested := NoNotificationRequested, ae_synthesizer := synth\<rparr> in
             if \<not> deliver then s
             else
               let mixed = (if mr_contributors m \<noteq> 0 \<or> notification
                            then map (\<lambda>x. clamp S x (flit S (- 1)) (flit S 1)) mixed else mixed)
               in s\<lparr>ae_playbackQueue := snd (TryPush PlaybackQueueCapacity mixed (ae_playbackQueue s))\<rparr>)"

definition MixPlayback :: "('f, 'd, 'e, 'dc, 'k, 'b) AudioLib \<Rightarrow> bool \<Rightarrow> ('f, 'dc, 'k, 'b, unit) audio_op" where
  "MixPlayback A deliver s =
     (let S = al_sound A;
          start = \<lparr>mr_engine = s, mr_mixed = replicate SamplesPerFrame (flit S 0), mr_contributors = 0\<rparr>
      in case op_for (map fst (ae_talkers s)) (mix_talker A (ae_mixSettings s) (ae_playbackMuted s)) start of
           (Inl e, m) \<Rightarrow> (Inl e, mr_engine m)
         | (Inr _, m) \<Rightarrow> (Inr (), deliver_mix S deliver m))"

section \<open>The worker\<close>

partial_function (option) refill ::
  "('f, 'd, 'e, 'dc, 'k, 'b) AudioLib \<Rightarrow> nat \<Rightarrow> ('f, 'dc, 'k, 'b) AudioEngine \<Rightarrow>
     (unit result \<times> ('f, 'dc, 'k, 'b) AudioEngine) option" where
  "refill A target s =
     (if ring_Size PlaybackQueueCapacity (ae_playbackQueue s) < target then
        (case MixPlayback A True s of
           (Inl e, s) \<Rightarrow> Some (Inl e, s)
         | (Inr _, s) \<Rightarrow> refill A target s)
      else Some (Inr (), s))"

text \<open>Mixing by the clock; at most three frames are caught up.\<close>

fun catch_up :: "('f, 'd, 'e, 'dc, 'k, 'b) AudioLib \<Rightarrow> time \<Rightarrow> nat \<Rightarrow> time \<Rightarrow> ('f, 'dc, 'k, 'b, time) audio_op" where
  "catch_up A now 0 nextMix s = (Inr nextMix, s)"
| "catch_up A now (Suc n) nextMix s =
     (if now \<ge> nextMix then
        (case MixPlayback A False s of
           (Inl e, s) \<Rightarrow> (Inl e, s)
         | (Inr _, s) \<Rightarrow> catch_up A now n (nextMix + milliseconds 20) s)
      else (Inr nextMix, s))"

definition pace_playback ::
  "('f, 'd, 'e, 'dc, 'k, 'b) AudioLib \<Rightarrow> time \<Rightarrow> time \<Rightarrow> ('f, 'dc, 'k, 'b) AudioEngine \<Rightarrow>
     (time result \<times> ('f, 'dc, 'k, 'b) AudioEngine) option" where
  "pace_playback A now nextMix s =
     (if PlaybackDeviceActive now s then
        (case refill A (PlaybackBufferFrames (ae_playbackRequestSamples s)) s of
           None \<Rightarrow> None
         | Some (r, s) \<Rightarrow> Some (res_bind r (\<lambda>_. Inr (now + milliseconds 20)), s))
      else
        (case catch_up A now 3 nextMix s of
           (r, s) \<Rightarrow> Some (res_bind r (\<lambda>nextMix. Inr (if now \<ge> nextMix + milliseconds 100 then now + milliseconds 20 else nextMix)), s)))"

text \<open>One turn of \<open>Worker\<close>; without an encoder only the playback side runs.\<close>

definition worker_turn ::
  "('f, 'd, 'e, 'dc, 'k, 'b) AudioLib \<Rightarrow> time \<Rightarrow> time \<Rightarrow> ('f, 'dc, 'k, 'b) AudioEngine \<times> ('f, 'e) Worker option \<Rightarrow>
     (time result \<times> ('f, 'dc, 'k, 'b) AudioEngine \<times> ('f, 'e) Worker option) option" where
  "worker_turn A now nextMix p =
     (case (case snd p of
              None \<Rightarrow> Some (Inr (), p)
            | Some w \<Rightarrow> map_option (\<lambda>(r, s, w). (r, s, Some w)) (ProcessCapture A (fst p, w))) of
        None \<Rightarrow> None
      | Some (Inl e, p) \<Rightarrow> Some (Inl e, p)
      | Some (Inr _, s, w) \<Rightarrow>
          (case ProcessIncoming A s of
             None \<Rightarrow> None
           | Some (Inl e, s) \<Rightarrow> Some (Inl e, s, w)
           | Some (Inr _, s) \<Rightarrow> map_option (\<lambda>(r, s). (r, s, w)) (pace_playback A now nextMix s)))"

text \<open>The handler around the loop of \<open>Worker\<close>.\<close>

definition worker_failed :: "error \<Rightarrow> ('f, 'dc, 'k, 'b) AudioEngine \<Rightarrow> ('f, 'dc, 'k, 'b) AudioEngine" where
  "worker_failed e s = (snd (SetTransmitEnabled False s))\<lparr>ae_available := False, ae_error := what e\<rparr>"

section \<open>What the device hears\<close>

text \<open>The samples still to be played, and what the playback side needs of the engine.\<close>

definition playback_ok :: "('f, 'dc, 'k, 'b) AudioEngine \<Rightarrow> bool" where
  "playback_ok s \<longleftrightarrow> ring_inv PlaybackQueueCapacity (ae_playbackQueue s) \<and>
     list_all frame_ok (contents PlaybackQueueCapacity (ae_playbackQueue s)) \<and>
     frame_ok (ae_playbackCurrent s) \<and> ae_playbackOffset s \<le> SamplesPerFrame"

definition playback_stream :: "('f, 'dc, 'k, 'b) AudioEngine \<Rightarrow> 'f list" where
  "playback_stream s = drop (ae_playbackOffset s) (ae_playbackCurrent s) @ concat (contents PlaybackQueueCapacity (ae_playbackQueue s))"

lemma engine_playback_ok: "engine_ok s \<Longrightarrow> playback_ok s"
  by (simp add: engine_ok_parts playback_ok_def)

definition only_played :: "('f, 'dc, 'k, 'b) AudioEngine \<Rightarrow> ('f, 'dc, 'k, 'b) AudioEngine \<Rightarrow> bool" where
  "only_played s s' \<longleftrightarrow> (\<exists>q current n. s' = s\<lparr>ae_playbackQueue := q, ae_playbackCurrent := current, ae_playbackOffset := n\<rparr>)"

lemma only_played_refl: "only_played s s"
proof -
  have "s = s\<lparr>ae_playbackQueue := ae_playbackQueue s, ae_playbackCurrent := ae_playbackCurrent s, ae_playbackOffset := ae_playbackOffset s\<rparr>"
    by simp
  then show ?thesis unfolding only_played_def by metis
qed

lemma only_played_trans: "only_played s t \<Longrightarrow> only_played t u \<Longrightarrow> only_played s u"
  unfolding only_played_def by force

lemma fetch_frame_stream:
  assumes "playback_ok s" and "fetch_frame s = (got, s')"
  shows "playback_ok s' \<and> playback_stream s' = playback_stream s \<and> only_played s s' \<and> (\<not> got \<longrightarrow> playback_stream s = [])"
proof (cases "ae_playbackOffset s \<ge> SamplesPerFrame")
  case False
  with assms show ?thesis by (simp add: fetch_frame_def only_played_refl)
next
  case True
  have ok: "ring_inv PlaybackQueueCapacity (ae_playbackQueue s)" using assms(1) by (simp add: playback_ok_def)
  have played: "drop (ae_playbackOffset s) (ae_playbackCurrent s) = []" using assms(1) True by (simp add: playback_ok_def frame_ok_def)
  show ?thesis
  proof (cases "contents PlaybackQueueCapacity (ae_playbackQueue s)")
    case Nil
    then have "s' = s" "\<not> got" using ring.pop_none [OF ok] assms(2) True by (auto simp: fetch_frame_def)
    with Nil played assms(1) show ?thesis by (simp add: playback_stream_def only_played_refl)
  next
    case (Cons frame frames)
    then obtain q where q: "TryPop PlaybackQueueCapacity (ae_playbackQueue s) = (Some frame, q)" "ring_inv PlaybackQueueCapacity q"
        "contents PlaybackQueueCapacity q = frames"
      using ring.pop_some [OF ok] by blast
    then have "got \<and> s' = s\<lparr>ae_playbackQueue := q, ae_playbackCurrent := frame, ae_playbackOffset := 0\<rparr>"
      using assms(2) True by (simp add: fetch_frame_def)
    with q Cons played assms(1) show ?thesis by (auto simp: playback_stream_def playback_ok_def only_played_def)
  qed
qed

lemma render_stream:
  "playback_ok s \<Longrightarrow> render silence needed s = (out, short, s') \<Longrightarrow>
     playback_ok s' \<and> only_played s s' \<and> playback_stream s' = drop needed (playback_stream s) \<and>
     (short \<longleftrightarrow> length (playback_stream s) < needed) \<and>
     out = take needed (playback_stream s) @ replicate (needed - length (playback_stream s)) silence"
proof (induction needed arbitrary: s out short s' rule: less_induct)
  case (less needed)
  show ?case
  proof (cases "needed = 0")
    case True
    with less.prems show ?thesis by (simp add: render.simps only_played_refl)
  next
    case False
    obtain got t where fetch: "fetch_frame s = (got, t)" by (metis surj_pair)
    note fetched = fetch_frame_stream [OF less.prems(1) fetch]
    show ?thesis
    proof (cases got)
      case False
      with \<open>needed \<noteq> 0\<close> less.prems(2) fetch fetched show ?thesis by (simp add: render.simps)
    next
      case True
      let ?o = "ae_playbackOffset t"
      let ?n = "min (SamplesPerFrame - ?o) needed"
      let ?t = "t\<lparr>ae_playbackOffset := ?o + ?n\<rparr>"
      have o: "?o < SamplesPerFrame" "length (ae_playbackCurrent t) = SamplesPerFrame"
        using fetch_frame_offset [of s t] fetch True fetched by (simp_all add: playback_ok_def frame_ok_def)
      obtain rest where rest: "render silence (needed - ?n) ?t = (rest, short, s')"
        and out: "out = take ?n (drop ?o (ae_playbackCurrent t)) @ rest"
        using less.prems(2) \<open>needed \<noteq> 0\<close> fetch True by (subst (asm) render.simps) (auto simp: Let_def split: prod.splits)
      have "?t = t\<lparr>ae_playbackQueue := ae_playbackQueue t, ae_playbackCurrent := ae_playbackCurrent t, ae_playbackOffset := ?o + ?n\<rparr>"
        by simp
      then have "only_played t ?t" unfolding only_played_def by metis
      then have "only_played s ?t" using fetched only_played_trans by blast
      moreover have "playback_ok ?t" using fetched o by (simp add: playback_ok_def)
      moreover have "playback_stream ?t = drop ?n (playback_stream t)" using o by (simp add: playback_stream_def add.commute)
      ultimately have t: "playback_ok ?t" "playback_stream ?t = drop ?n (playback_stream t)" "only_played s ?t" by blast+
      have chunk: "take ?n (drop ?o (ae_playbackCurrent t)) = take ?n (playback_stream t)" "?n \<le> length (playback_stream t)"
        using o by (simp_all add: playback_stream_def)
      have "needed - ?n < needed" using \<open>needed \<noteq> 0\<close> o by simp
      from less.IH [OF this t(1) rest] t chunk(2) fetched
      have "playback_ok s' \<and> only_played s s' \<and> playback_stream s' = drop needed (playback_stream s) \<and>
          (short \<longleftrightarrow> length (playback_stream s) < needed) \<and>
          rest = drop ?n (take needed (playback_stream s)) @ replicate (needed - length (playback_stream s)) silence"
        using only_played_trans [of s ?t s'] by (auto simp: drop_take)
      moreover have "take ?n (take needed (playback_stream s)) = take ?n (playback_stream s)" by simp
      ultimately show ?thesis
        using out chunk fetched append_take_drop_id [of ?n "take needed (playback_stream s)"] by (metis append_assoc)
    qed
  qed
qed

section \<open>Remote clients cannot stop the mixer\<close>

text \<open>What the library documents of a reset: it always succeeds.\<close>

definition resets_succeed :: "('e, 'dc, 'f) Opus \<Rightarrow> bool" where
  "resets_succeed X \<longleftrightarrow> (\<forall>d. 0 \<le> fst (ox_decoder_reset X d))"

definition decodes :: "('f, 'dc) TalkerState \<times> u64 \<Rightarrow> bool" where
  "decodes p \<longleftrightarrow> tl_decoder (fst p) \<noteq> None \<and> talker_ok (fst p)"

lemma decoder_Decode_error: "decoder_Decode S X input mode recovery d = (Inl e, d') \<Longrightarrow> safe_error e"
  by (auto simp: decoder_Decode_def Let_def CheckOpus_def res_bind_eq_Inl split: if_splits prod.splits)

lemma on_decoder_run:
  assumes "decodes p"
  obtains d r d' where "tl_decoder (fst p) = Some d" "m d = (r, d')"
    "on_decoder m p = (r, (fst p)\<lparr>tl_decoder := Some d'\<rparr>, snd p)" "decodes ((fst p)\<lparr>tl_decoder := Some d'\<rparr>, snd p)"
proof -
  obtain d where d: "tl_decoder (fst p) = Some d" using assms by (auto simp: decodes_def)
  obtain r d' where "m d = (r, d')" by force
  with d assms show thesis by (intro that [of d r d']) (simp_all add: decodes_def on_decoder_def talker_ok_def)
qed

lemma reset_decoder_run:
  assumes "resets_succeed (al_opus A)" and "decodes p"
  shows "\<exists>d. on_decoder (decoder_Reset (al_opus A)) p = (Inr (), (fst p)\<lparr>tl_decoder := Some d\<rparr>, snd p) \<and>
    decodes ((fst p)\<lparr>tl_decoder := Some d\<rparr>, snd p)"
proof -
  obtain d r d' where run: "decoder_Reset (al_opus A) d = (r, d')"
      "on_decoder (decoder_Reset (al_opus A)) p = (r, (fst p)\<lparr>tl_decoder := Some d'\<rparr>, snd p)"
      "decodes ((fst p)\<lparr>tl_decoder := Some d'\<rparr>, snd p)"
    using on_decoder_run [OF assms(2)] by metis
  have "0 \<le> fst (ox_decoder_reset (al_opus A) d)" using assms(1) by (simp add: resets_succeed_def)
  with run(1) have "r = Inr ()" by (auto simp: decoder_Reset_def CheckOpus_def split: prod.splits)
  with run show ?thesis by blast
qed

lemma stream_started_run:
  assumes "resets_succeed (al_opus A)" and "decodes p"
  shows "\<exists>p'. stream_started A p = (Inr (), p') \<and> decodes p' \<and> tl_decodedSamples (fst p') = []"
  using reset_decoder_run [OF assms]
  by (auto simp: stream_started_def op_bind_run set_talker_def decodes_def talker_ok_def audio_limits)

lemma talk_burst_ended_run:
  assumes "resets_succeed (al_opus A)" and "decodes p"
  shows "\<exists>p'. talk_burst_ended A p = (Inr (), p') \<and> decodes p'"
  using reset_decoder_run [OF assms]
  by (auto simp: talk_burst_ended_def op_bind_run set_talker_def decodes_def talker_ok_def audio_limits)

lemma decode_failed_run:
  assumes "resets_succeed (al_opus A)" and "decodes p"
  shows "\<exists>p'. decode_failed A p = (Inr (), p') \<and> decodes p'"
  using reset_decoder_run [OF assms]
  by (auto simp: decode_failed_def op_bind_run decodes_def talker_ok_def audio_limits)

lemma store_decoded_run:
  assumes "decodes p" and "length (tl_decodedSamples (fst p)) < SamplesPerFrame" and "n \<le> MaxDecodedSamples"
    and "length samples = MaxDecodedSamples"
  shows "\<exists>b p'. store_decoded mode n samples p = (Inr b, p') \<and> decodes p'"
  using assms by (cases p) (auto simp: store_decoded_def op_bind_def set_talker_def decodes_def talker_ok_def audio_limits)

lemma decode_packet_run:
  assumes "opus_ok (al_opus A)" and "resets_succeed (al_opus A)" and "decodes p"
    and "length (tl_decodedSamples (fst p)) < SamplesPerFrame"
  shows "\<exists>b p'. decode_packet A request p = (Inr b, p') \<and> decodes p'"
proof -
  obtain encoded mode recovery where request: "request = (encoded, mode, recovery)" by (metis surj_pair)
  let ?m = "decoder_Decode (al_sound A) (al_opus A) encoded mode recovery"
  obtain d r d' where run: "?m d = (r, d')" "on_decoder ?m p = (r, (fst p)\<lparr>tl_decoder := Some d'\<rparr>, snd p)"
      "decodes ((fst p)\<lparr>tl_decoder := Some d'\<rparr>, snd p)"
    using on_decoder_run [OF assms(3)] by metis
  show ?thesis
  proof (cases r)
    case (Inl e)
    with run(1) have "safe_error e" using decoder_Decode_error by metis
    with Inl request run decode_failed_run [OF assms(2) run(3)] show ?thesis
      by (auto simp: decode_packet_def op_bind_run)
  next
    case (Inr x)
    obtain n samples where x: "x = (n, samples)" by (metis surj_pair)
    with run(1) Inr have "n \<le> MaxDecodedSamples \<and> length samples = MaxDecodedSamples"
      using decoder_Decode_size [OF assms(1)] by metis
    with x Inr request run store_decoded_run [OF run(3), of n samples mode] assms(4) show ?thesis
      by (simp add: decode_packet_def)
  qed
qed

lemma decode_item_run:
  assumes "opus_ok (al_opus A)" and "resets_succeed (al_opus A)" and "decodes p"
    and "length (tl_decodedSamples (fst p)) < SamplesPerFrame" and "voice_frame_ok (jp_frame item)"
  shows "\<exists>b p'. decode_item A item p = (Inr b, p') \<and> decodes p'"
proof -
  obtain q where "op_when (jp_streamStart item) (stream_started A) p = (Inr (), q)" "decodes q"
      "length (tl_decodedSamples (fst q)) < SamplesPerFrame"
    using stream_started_run [OF assms(2,3)] assms(3,4) by (cases "jp_streamStart item") (auto simp: SamplesPerFrame_def)
  moreover obtain encoded where "voice_span (jp_frame item) = Inr encoded"
    using assms(5) by (simp add: voice_span_def voice_frame_ok_def)
  ultimately show ?thesis using decode_packet_run [OF assms(1,2)] by (simp add: decode_item_def op_bind_run op_lift_def)
qed

lemma decode_loop_run:
  assumes "opus_ok (al_opus A)" and "resets_succeed (al_opus A)"
  shows "decodes p \<Longrightarrow> \<exists>p'. decode_loop A p = (Inr (), p') \<and> decodes p'"
proof (induction "jitter_left (tl_jitter (fst p))" arbitrary: p rule: less_induct)
  case less
  obtain item j where pull: "jitter_Pull (tl_jitter (fst p)) = (item, j)" by (metis surj_pair)
  let ?p = "((fst p)\<lparr>tl_jitter := j\<rparr>, snd p)"
  have "jitter_inv j" using Pull_inv [of "tl_jitter (fst p)"] pull less.prems by (simp add: decodes_def talker_ok_def)
  moreover have frame: "voice_frame_ok (jp_frame item)" "pending_all voice_frame_ok j"
    using Pull_pending [of voice_frame_ok "tl_jitter (fst p)"] pull less.prems by (simp_all add: decodes_def talker_ok_def)
  ultimately have p: "decodes ?p" using less.prems by (simp add: decodes_def talker_ok_def)
  show ?case
  proof (cases "length (tl_decodedSamples (fst p)) \<ge> SamplesPerFrame \<or> jp_kind item = Wait \<or> jp_kind item = End")
    case True
    with p pull less.prems talk_burst_ended_run [OF assms(2) p] show ?thesis
      by (subst decode_loop.simps) (cases p, auto simp: Let_def)
  next
    case False
    then obtain b p' where item: "decode_item A item ?p = (Inr b, p')" "decodes p'"
      using decode_item_run [OF assms p _ frame(1)] by auto
    show ?thesis
    proof (cases b)
      case True
      then have "jitter_left (tl_jitter (fst p')) < jitter_left (tl_jitter (fst p))"
        using decode_item_jitter [of A item ?p p'] item Pull_progress [OF pull] False by simp
      from less.hyps [OF this item(2)] True item pull False show ?thesis by (subst decode_loop.simps) (simp add: Let_def)
    qed (use item pull False in \<open>subst decode_loop.simps, simp add: Let_def\<close>)
  qed
qed

text \<open>The state while the talkers are mixed.\<close>

definition mixing :: "('f, 'dc, 'k, 'b) AudioEngine \<Rightarrow> ('f, 'dc, 'k, 'b) MixRun \<Rightarrow> bool" where
  "mixing s m \<longleftrightarrow> engine_ok (mr_engine m) \<and> frame_ok (mr_mixed m) \<and>
     (\<exists>talkers drops. mr_engine m = s\<lparr>ae_talkers := talkers, ae_receiveDrops := drops\<rparr>)"

lemma list_all_put: "list_all (\<lambda>(_, t). P t) m \<Longrightarrow> P t \<Longrightarrow> list_all (\<lambda>(_, t). P t) (sm_put k t m)"
  by (induction k t m rule: sm_put.induct) auto

lemma list_all_find: "list_all (\<lambda>(_, t). P t) m \<Longrightarrow> sm_find m k = Some t \<Longrightarrow> P t"
  by (auto simp: sm_find_def list_all_iff dest!: map_of_SomeD)

lemma mixing_put:
  assumes "mixing s m" and "talker_ok t"
  shows "mixing s (m\<lparr>mr_engine := (mr_engine m)\<lparr>ae_talkers := sm_put i t (ae_talkers (mr_engine m)), ae_receiveDrops := drops\<rparr>\<rparr>)"
proof -
  have "engine_ok ((mr_engine m)\<lparr>ae_talkers := sm_put i t (ae_talkers (mr_engine m)), ae_receiveDrops := drops\<rparr>)"
    using assms by (simp add: mixing_def engine_ok_parts list_all_put sm_ok_put)
  then show ?thesis using assms(1) by (force simp: mixing_def)
qed

lemma mix_decoded_mixing:
  assumes "mixing s m" and "talker_ok t"
  shows "mixing s (mix_decoded S mixSettings playbackMuted i t m)"
proof (cases "length (tl_decodedSamples t) < SamplesPerFrame")
  case True
  with assms(1) show ?thesis by (simp add: mix_decoded_def)
next
  case False
  let ?t = "t\<lparr>tl_decodedSamples := drop SamplesPerFrame (tl_decodedSamples t)\<rparr>"
  let ?m = "m\<lparr>mr_engine := (mr_engine m)\<lparr>ae_talkers := sm_put i ?t (ae_talkers (mr_engine m))\<rparr>\<rparr>"
  have "talker_ok ?t" using assms(2) by (auto simp: talker_ok_def)
  from mixing_put [OF assms(1) this, of "ae_receiveDrops (mr_engine m)" i] have m: "mixing s ?m" by simp
  have "frame_ok (mix_in S g (take SamplesPerFrame (tl_decodedSamples t)) (mr_mixed m))" for g
    using m False by (simp add: mixing_def mix_in_def frame_ok_def)
  with m False show ?thesis by (auto simp: mix_decoded_def Let_def mixing_def)
qed

lemma mix_talker_run:
  assumes "opus_ok (al_opus A)" and "resets_succeed (al_opus A)" and "mixing s m"
  shows "\<exists>m'. mix_talker A mixSettings playbackMuted i m = (Inr (), m') \<and> mixing s m'"
proof (cases "sm_find (ae_talkers (mr_engine m)) i")
  case None
  with assms(3) show ?thesis by (simp add: mix_talker_def)
next
  case (Some t)
  show ?thesis
  proof (cases "tl_decoder t")
    case None
    with Some assms(3) show ?thesis by (simp add: mix_talker_def)
  next
    case decoder: (Some d)
    have "talker_ok t" using assms(3) Some by (auto simp: mixing_def engine_ok_parts elim: list_all_find)
    with decoder have "decodes (t, ae_receiveDrops (mr_engine m))" by (simp add: decodes_def)
    then obtain t' drops where run: "decode_loop A (t, ae_receiveDrops (mr_engine m)) = (Inr (), t', drops)" "decodes (t', drops)"
      using decode_loop_run [OF assms(1,2)] by (metis surj_pair)
    then have "talker_ok t'" by (simp add: decodes_def)
    with run Some decoder mix_decoded_mixing [OF mixing_put [OF assms(3)]] show ?thesis by (simp add: mix_talker_def)
  qed
qed

lemma mix_talkers_run:
  assumes "opus_ok (al_opus A)" and "resets_succeed (al_opus A)"
  shows "mixing s m \<Longrightarrow> \<exists>m'. op_for ids (mix_talker A mixSettings playbackMuted) m = (Inr (), m') \<and> mixing s m'"
proof (induction ids arbitrary: m)
  case (Cons i ids)
  obtain t where "mix_talker A mixSettings playbackMuted i m = (Inr (), t)" "mixing s t"
    using mix_talker_run [OF assms Cons.prems] by metis
  with Cons.IH [of t] show ?case by (simp add: op_bind_run)
qed simp

lemma deliver_mix_run:
  assumes "mixing s m"
  shows "\<exists>f. frame_ok f \<and> engine_ok (deliver_mix S deliver m) \<and>
    ae_playbackRequestSamples (deliver_mix S deliver m) = ae_playbackRequestSamples s \<and>
    ae_playbackCurrent (deliver_mix S deliver m) = ae_playbackCurrent s \<and>
    ae_playbackOffset (deliver_mix S deliver m) = ae_playbackOffset s \<and>
    ae_lastPlaybackRequest (deliver_mix S deliver m) = ae_lastPlaybackRequest s \<and>
    ae_playbackUnderruns (deliver_mix S deliver m) = ae_playbackUnderruns s \<and>
    contents PlaybackQueueCapacity (ae_playbackQueue (deliver_mix S deliver m)) =
      contents PlaybackQueueCapacity (ae_playbackQueue s) @
      (if deliver \<and> length (contents PlaybackQueueCapacity (ae_playbackQueue s)) < 31 then [f] else [])"
proof -
  let ?s = "mr_engine m"
  define synth where "synth = (if ae_notificationRequested ?s \<noteq> NoNotificationRequested
    then synth_Start S (notification_of (ae_notificationRequested ?s)) (ae_synthesizer ?s) else ae_synthesizer ?s)"
  obtain mixed notification synth' where mix: "synth_Mix S (mr_mixed m) synth = (mixed, notification, synth')" by (metis surj_pair)
  have ok: "engine_ok ?s" "frame_ok (mr_mixed m)" using assms by (simp_all add: mixing_def)
  have same: "ae_playbackQueue ?s = ae_playbackQueue s" "ae_playbackRequestSamples ?s = ae_playbackRequestSamples s"
      "ae_playbackCurrent ?s = ae_playbackCurrent s" "ae_playbackOffset ?s = ae_playbackOffset s"
      "ae_lastPlaybackRequest ?s = ae_lastPlaybackRequest s" "ae_playbackUnderruns ?s = ae_playbackUnderruns s"
    using assms by (auto simp: mixing_def)
  have "synth_inv synth" using ok(1) synth_Start_sounding by (auto simp: synth_def engine_ok_def)
  note plays = synth_Mix_plays [OF this mix]
  define f where "f = (if mr_contributors m \<noteq> 0 \<or> notification
    then map (\<lambda>x. clamp S x (flit S (- 1)) (flit S 1)) mixed else mixed)"
  have f: "frame_ok f" using plays ok(2) by (simp add: f_def frame_ok_def)
  have ring: "ring_inv 32 (ae_playbackQueue s)" using ok(1) same by (simp add: engine_ok_parts audio_limits)
  define q where "q = snd (TryPush PlaybackQueueCapacity f (ae_playbackQueue s))"
  have q: "ring_inv PlaybackQueueCapacity q \<and> contents PlaybackQueueCapacity q = contents PlaybackQueueCapacity (ae_playbackQueue s) @
      (if length (contents PlaybackQueueCapacity (ae_playbackQueue s)) < 31 then [f] else [])"
    using ring.push_room [OF ring, of f] ring.push_full [OF ring, of f] ring
    by (cases "length (contents 32 (ae_playbackQueue s)) < 31") (auto simp: q_def PlaybackQueueCapacity_def)
  have result: "deliver_mix S deliver m = ?s\<lparr>ae_notificationRequested := NoNotificationRequested, ae_synthesizer := synth',
      ae_playbackQueue := (if deliver then q else ae_playbackQueue s)\<rparr>"
    using mix same by (simp add: deliver_mix_def Let_def synth_def [symmetric] f_def q_def)
  have "engine_ok (deliver_mix S deliver m)"
    using ok(1) q f plays same unfolding result by (auto simp: engine_ok_parts)
  with f q same show ?thesis by (auto simp: result)
qed

lemma MixPlayback_run:
  assumes "opus_ok (al_opus A)" and "resets_succeed (al_opus A)" and "engine_ok s"
  shows "\<exists>s' f. MixPlayback A deliver s = (Inr (), s') \<and> frame_ok f \<and> engine_ok s' \<and>
    ae_playbackRequestSamples s' = ae_playbackRequestSamples s \<and> ae_lastPlaybackRequest s' = ae_lastPlaybackRequest s \<and>
    ae_playbackUnderruns s' = ae_playbackUnderruns s \<and>
    playback_stream s' = playback_stream s @ (if deliver \<and> length (contents PlaybackQueueCapacity (ae_playbackQueue s)) < 31 then f else []) \<and>
    length (contents PlaybackQueueCapacity (ae_playbackQueue s')) = length (contents PlaybackQueueCapacity (ae_playbackQueue s)) +
      (if deliver \<and> length (contents PlaybackQueueCapacity (ae_playbackQueue s)) < 31 then 1 else 0)"
proof -
  let ?start = "\<lparr>mr_engine = s, mr_mixed = replicate SamplesPerFrame (flit (al_sound A) 0), mr_contributors = 0\<rparr>"
  have "\<exists>talkers drops. s = s\<lparr>ae_talkers := talkers, ae_receiveDrops := drops\<rparr>"
    by (intro exI [of _ "ae_talkers s"] exI [of _ "ae_receiveDrops s"]) simp
  then have "mixing s ?start" using assms(3) by (simp add: mixing_def frame_ok_def)
  then obtain m where m: "op_for (map fst (ae_talkers s)) (mix_talker A (ae_mixSettings s) (ae_playbackMuted s)) ?start = (Inr (), m)"
      "mixing s m"
    using mix_talkers_run [OF assms(1,2)] by blast
  obtain f where "frame_ok f" "engine_ok (deliver_mix (al_sound A) deliver m)"
      and rest: "ae_playbackRequestSamples (deliver_mix (al_sound A) deliver m) = ae_playbackRequestSamples s"
      "ae_playbackCurrent (deliver_mix (al_sound A) deliver m) = ae_playbackCurrent s"
      "ae_playbackOffset (deliver_mix (al_sound A) deliver m) = ae_playbackOffset s"
      "ae_lastPlaybackRequest (deliver_mix (al_sound A) deliver m) = ae_lastPlaybackRequest s"
      "ae_playbackUnderruns (deliver_mix (al_sound A) deliver m) = ae_playbackUnderruns s"
      "contents PlaybackQueueCapacity (ae_playbackQueue (deliver_mix (al_sound A) deliver m)) =
        contents PlaybackQueueCapacity (ae_playbackQueue s) @
        (if deliver \<and> length (contents PlaybackQueueCapacity (ae_playbackQueue s)) < 31 then [f] else [])"
    using deliver_mix_run [OF m(2), of "al_sound A" deliver] by blast
  then show ?thesis
    using m(1) by (intro exI [of _ "deliver_mix (al_sound A) deliver m"] exI [of _ f])
      (simp add: MixPlayback_def Let_def playback_stream_def)
qed

section \<open>Receiving and refilling\<close>

text \<open>What the library documents of the creation of a decoder.\<close>

definition decoder_created :: "('e, 'dc, 'f) Opus \<Rightarrow> bool" where
  "decoder_created X \<longleftrightarrow> 0 \<le> fst (ox_decoder_create X)"

text \<open>The playback side is as it was.\<close>

definition same_playback :: "('f, 'dc, 'k, 'b) AudioEngine \<Rightarrow> ('f, 'dc, 'k, 'b) AudioEngine \<Rightarrow> bool" where
  "same_playback s s' \<longleftrightarrow> ae_playbackQueue s' = ae_playbackQueue s \<and> ae_playbackCurrent s' = ae_playbackCurrent s \<and>
     ae_playbackOffset s' = ae_playbackOffset s \<and> ae_playbackRequestSamples s' = ae_playbackRequestSamples s \<and>
     ae_lastPlaybackRequest s' = ae_lastPlaybackRequest s \<and> ae_playbackUnderruns s' = ae_playbackUnderruns s"

lemma same_playback_refl [simp]: "same_playback s s"
  by (simp add: same_playback_def)

lemma same_playback_stream: "same_playback s s' \<Longrightarrow> playback_stream s' = playback_stream s"
  by (simp add: same_playback_def playback_stream_def)

definition keeps_playing :: "('f, 'dc, 'k, 'b) AudioEngine \<Rightarrow> ('f, 'dc, 'k, 'b) AudioEngine \<Rightarrow> bool" where
  "keeps_playing s s' \<longleftrightarrow> engine_ok s' \<and> same_playback s s'"

lemma keeps_playing_refl [simp]: "keeps_playing s s \<longleftrightarrow> engine_ok s"
  by (simp add: keeps_playing_def)

lemma keeps_playing_trans: "keeps_playing s t \<Longrightarrow> keeps_playing t u \<Longrightarrow> keeps_playing s u"
  by (simp add: keeps_playing_def same_playback_def)

lemma push_talker_run:
  assumes "decoder_created (al_opus A)" and "engine_ok s" and "voice_frame_ok frame"
  shows "\<exists>s'. push_talker A frame s = (Inr (), s') \<and> keeps_playing s s' \<and> ae_incomingQueue s' = ae_incomingQueue s"
proof -
  let ?i = "ef_clientId frame"
  let ?m = "sm_try_emplace ?i new_TalkerState (ae_talkers s)"
  have ok: "sm_ok (ae_talkers s)" "list_all (\<lambda>(_, t). talker_ok t) (ae_talkers s)" using assms(2) by (simp_all add: engine_ok_parts)
  have "talker_ok new_TalkerState"
    by (simp add: talker_ok_def new_TalkerState_def audio_limits)
  with ok have m: "sm_ok ?m" "list_all (\<lambda>(_, t). talker_ok t) ?m"
    by (auto simp: sm_ok_try_emplace) (auto simp: sm_try_emplace_def intro!: list_all_put)
  obtain t where t: "sm_find ?m ?i = Some t" by (cases "sm_find (ae_talkers s) ?i") (auto simp: sm_find_try_emplace [OF ok(1)])
  have "talker_ok t" using list_all_find [OF m(2) t] .
  then have "talker_ok (t\<lparr>tl_decoder := d, tl_jitter := jitter_Push frame (tl_jitter t)\<rparr>)" for d
    using assms(3) by (simp add: talker_ok_def Push_inv Push_pending)
  then have put: "keeps_playing s (s\<lparr>ae_talkers := sm_put ?i (t\<lparr>tl_decoder := d, tl_jitter := jitter_Push frame (tl_jitter t)\<rparr>) ?m\<rparr>)" for d
    using assms(2) m by (simp add: engine_ok_parts sm_ok_put list_all_put keeps_playing_def same_playback_def)
  have created: "CreateDecoder (al_opus A) = Inr (snd (ox_decoder_create (al_opus A)))"
    using assms(1) by (simp add: CreateDecoder_def CheckOpus_def decoder_created_def split_beta)
  obtain d where "(case tl_decoder t of Some d \<Rightarrow> op_return d | None \<Rightarrow> op_lift (CreateDecoder (al_opus A)))
      (s\<lparr>ae_talkers := ?m\<rparr>) = (Inr d, s\<lparr>ae_talkers := ?m\<rparr>)"
    using created by (cases "tl_decoder t") auto
  with t put [of "Some d"] show ?thesis
    by (simp add: push_talker_def Let_def op_bind_run)
qed

lemma pop_contents:
  assumes "ring_inv N q" and "TryPop N q = (x, q')"
  shows "ring_inv N q' \<and> (case x of None \<Rightarrow> q' = q | Some y \<Rightarrow> contents N q = y # contents N q')"
proof (cases "contents N q")
  case Nil
  with ring.pop_none [OF assms(1)] assms show ?thesis by simp
next
  case (Cons y ys)
  with ring.pop_some [OF assms(1) Cons] assms show ?thesis by auto
qed

lemma list_all_erase: "list_all P m \<Longrightarrow> list_all P (sm_erase k m)"
  by (auto simp: sm_erase_def list_all_iff)

lemma forget_talker_playing:
  "engine_ok t \<Longrightarrow> keeps_playing t (t\<lparr>ae_talkers := sm_erase i (ae_talkers t)\<rparr>)"
  by (simp add: engine_ok_parts sm_ok_erase list_all_erase keeps_playing_def same_playback_def)

lemma reset_popped_playing:
  assumes "engine_ok t" and "TryPop IncomingQueueCapacity (ae_talkerResetQueue t) = (x, q)"
  shows "keeps_playing t (t\<lparr>ae_talkerResetQueue := q\<rparr>)"
proof -
  have "ring_inv IncomingQueueCapacity q" using assms pop_contents by (auto simp: engine_ok_parts)
  with assms(1) show ?thesis by (simp add: engine_ok_parts keeps_playing_def same_playback_def)
qed

lemma frame_popped_playing:
  assumes "engine_ok t" and "TryPop IncomingQueueCapacity (ae_incomingQueue t) = (x, q)"
  shows "keeps_playing t (t\<lparr>ae_incomingQueue := q\<rparr>) \<and> (\<forall>frame. x = Some frame \<longrightarrow> voice_frame_ok frame)"
proof -
  have t: "ring_inv IncomingQueueCapacity (ae_incomingQueue t)" "list_all voice_frame_ok (contents IncomingQueueCapacity (ae_incomingQueue t))"
    using assms(1) by (simp_all add: engine_ok_parts)
  with pop_contents [OF t(1) assms(2)] have "ring_inv IncomingQueueCapacity q"
      "list_all voice_frame_ok (contents IncomingQueueCapacity q)" "\<forall>frame. x = Some frame \<longrightarrow> voice_frame_ok frame"
    by (cases x; simp)+
  with assms(1) show ?thesis by (simp add: engine_ok_parts keeps_playing_def same_playback_def)
qed

lemma forget_loop_run:
  fixes s :: "('f, 'dc, 'k, 'b) AudioEngine"
  assumes "engine_ok s"
  shows "\<exists>t. pop_loop IncomingQueueCapacity ae_talkerResetQueue (\<lambda>q s. s\<lparr>ae_talkerResetQueue := q\<rparr>)
      (\<lambda>i. op_modify (\<lambda>s. s\<lparr>ae_talkers := sm_erase i (ae_talkers s)\<rparr>)) s = Some (Inr (), t) \<and> keeps_playing s t"
proof -
  let ?put = "\<lambda>q (t :: ('f, 'dc, 'k, 'b) AudioEngine). t\<lparr>ae_talkerResetQueue := q\<rparr>"
  let ?body = "\<lambda>i. op_modify (\<lambda>s :: ('f, 'dc, 'k, 'b) AudioEngine. s\<lparr>ae_talkers := sm_erase i (ae_talkers s)\<rparr>)"
  have body: "ae_talkerResetQueue (snd (?body i t)) = ae_talkerResetQueue t \<and> keeps_playing s (snd (?body i t))"
    if "keeps_playing s t" for i t
    using that keeps_playing_trans [OF that forget_talker_playing] by (simp add: keeps_playing_def)
  have pop: "keeps_playing s (?put q t)"
    if "keeps_playing s t" "TryPop IncomingQueueCapacity (ae_talkerResetQueue t) = (x, q)" for t x q
    using keeps_playing_trans [OF that(1) reset_popped_playing [OF _ that(2)]] that(1) by (simp add: keeps_playing_def)
  have "\<exists>r t. pop_loop IncomingQueueCapacity ae_talkerResetQueue ?put ?body s = Some (r, t) \<and> keeps_playing s t \<and>
      ring_inv IncomingQueueCapacity (ae_talkerResetQueue t) \<and>
      ((\<forall>i u. keeps_playing s u \<longrightarrow> fst (?body i u) = Inr ()) \<longrightarrow> r = Inr ())"
    by (rule pop_loop_outcome) (use assms body pop in \<open>auto simp: engine_ok_parts\<close>)
  then show ?thesis by auto
qed

lemma ProcessIncoming_run:
  fixes s :: "('f, 'dc, 'k, 'b) AudioEngine"
  assumes "decoder_created (al_opus A)" and "engine_ok s"
  shows "\<exists>s'. ProcessIncoming A s = Some (Inr (), s') \<and> keeps_playing s s'"
proof -
  let ?put = "\<lambda>q (t :: ('f, 'dc, 'k, 'b) AudioEngine). t\<lparr>ae_incomingQueue := q\<rparr>"
  obtain t where t: "pop_loop IncomingQueueCapacity ae_talkerResetQueue (\<lambda>q s. s\<lparr>ae_talkerResetQueue := q\<rparr>)
      (\<lambda>i. op_modify (\<lambda>s. s\<lparr>ae_talkers := sm_erase i (ae_talkers s)\<rparr>)) s = Some (Inr (), t)" "keeps_playing s t"
    using forget_loop_run [OF assms(2)] by blast
  have body: "fst (push_talker A x (?put q u)) = Inr () \<and> ae_incomingQueue (snd (push_talker A x (?put q u))) = q \<and>
      keeps_playing s (snd (push_talker A x (?put q u)))"
    if u: "keeps_playing s u" "TryPop IncomingQueueCapacity (ae_incomingQueue u) = (Some x, q)" for x q u
  proof -
    have "engine_ok u" using u(1) by (simp add: keeps_playing_def)
    note popped = frame_popped_playing [OF this u(2)]
    then have "engine_ok (?put q u)" "voice_frame_ok x" by (simp_all add: keeps_playing_def)
    from push_talker_run [OF assms(1) this] obtain v where v: "push_talker A x (?put q u) = (Inr (), v)"
        "keeps_playing (?put q u) v" "ae_incomingQueue v = q" by auto
    have "keeps_playing s v" using u(1) popped v(2) keeps_playing_trans by blast
    with v show ?thesis by simp
  qed
  have empty: "keeps_playing s (?put q u)" if "keeps_playing s u" "TryPop IncomingQueueCapacity (ae_incomingQueue u) = (None, q)" for u q
    using keeps_playing_trans [OF that(1) conjunct1 [OF frame_popped_playing [OF _ that(2)]]] that(1) by (simp add: keeps_playing_def)
  have "\<exists>r u. pop_loop IncomingQueueCapacity ae_incomingQueue ?put (push_talker A) t = Some (r, u) \<and> keeps_playing s u \<and>
      ring_inv IncomingQueueCapacity (ae_incomingQueue u) \<and>
      ((\<forall>x q u. keeps_playing s u \<longrightarrow> ring_inv IncomingQueueCapacity (ae_incomingQueue u) \<longrightarrow>
          TryPop IncomingQueueCapacity (ae_incomingQueue u) = (Some x, q) \<longrightarrow> fst (push_talker A x (?put q u)) = Inr ()) \<longrightarrow> r = Inr ())"
  proof (rule pop_loop_invariant)
    show "ring_inv IncomingQueueCapacity (ae_incomingQueue t)" using t(2) by (simp add: keeps_playing_def engine_ok_parts)
    show "ae_incomingQueue (snd (push_talker A x (?put q u))) = q \<and> keeps_playing s (snd (push_talker A x (?put q u)))"
      if "keeps_playing s u" "TryPop IncomingQueueCapacity (ae_incomingQueue u) = (Some x, q)" for x q u
      using body [OF that] by simp
  qed (use t(2) empty in simp_all)
  then obtain r u where u: "pop_loop IncomingQueueCapacity ae_incomingQueue ?put (push_talker A) t = Some (r, u)" "keeps_playing s u"
    and r: "(\<forall>x q u. keeps_playing s u \<longrightarrow> ring_inv IncomingQueueCapacity (ae_incomingQueue u) \<longrightarrow>
          TryPop IncomingQueueCapacity (ae_incomingQueue u) = (Some x, q) \<longrightarrow> fst (push_talker A x (?put q u)) = Inr ()) \<longrightarrow> r = Inr ()"
    by blast
  have "r = Inr ()" using r body by blast
  with t(1) u show ?thesis by (simp add: ProcessIncoming_def)
qed

lemma SubmitIncoming_ok:
  assumes "engine_ok s" and "voice_frame_ok frame"
  shows "engine_ok (snd (SubmitIncoming frame s))"
proof -
  have ok: "ring_inv 128 (ae_incomingQueue s)" using assms(1) by (simp add: engine_ok_parts audio_limits)
  obtain b q where push: "TryPush IncomingQueueCapacity frame (ae_incomingQueue s) = (b, q)" by force
  then have "ring_inv IncomingQueueCapacity q \<and> set (contents IncomingQueueCapacity q) \<subseteq>
      insert frame (set (contents IncomingQueueCapacity (ae_incomingQueue s)))"
    using ring.push_room [OF ok, of frame] ring.push_full [OF ok, of frame] ok
    by (cases "length (contents 128 (ae_incomingQueue s)) < 127") (auto simp: IncomingQueueCapacity_def)
  with assms push show ?thesis
    by (cases b) (auto simp: SubmitIncoming_def WakeWorker_def engine_ok_parts list_all_iff)
qed

lemma submit_voice_ok: "engine_ok s \<Longrightarrow> engine_ok (submit_voice voice s)"
  by (simp add: submit_voice_def SubmitIncoming_ok voice_frame_ok_def incoming_frame_def length_overwrite
      default_frame_def MaxEncodedBytes_def)

lemma refill_run:
  assumes "opus_ok (al_opus A)" and "resets_succeed (al_opus A)" and "target \<le> 31"
  shows "engine_ok s \<Longrightarrow> \<exists>s' ys. refill A target s = Some (Inr (), s') \<and> engine_ok s' \<and> playback_stream s' = playback_stream s @ ys \<and>
    ae_playbackRequestSamples s' = ae_playbackRequestSamples s \<and> ae_lastPlaybackRequest s' = ae_lastPlaybackRequest s \<and>
    ae_playbackUnderruns s' = ae_playbackUnderruns s \<and>
    target \<le> length (contents PlaybackQueueCapacity (ae_playbackQueue s'))"
proof (induction "target - length (contents PlaybackQueueCapacity (ae_playbackQueue s))" arbitrary: s rule: less_induct)
  case less
  let ?n = "length (contents PlaybackQueueCapacity (ae_playbackQueue s))"
  show ?case
  proof (cases "?n < target")
    case False
    then show ?thesis using less.prems by (subst refill.simps) (simp add: contents_length)
  next
    case True
    obtain t f where t: "MixPlayback A True s = (Inr (), t)" "engine_ok t" "playback_stream t = playback_stream s @ f"
        "ae_playbackRequestSamples t = ae_playbackRequestSamples s" "ae_lastPlaybackRequest t = ae_lastPlaybackRequest s"
        "ae_playbackUnderruns t = ae_playbackUnderruns s"
        "length (contents PlaybackQueueCapacity (ae_playbackQueue t)) = ?n + 1"
      using MixPlayback_run [OF assms(1,2) less.prems, of True] True assms(3) by auto
    have "refill A target s = refill A target t"
      using t(1) True by (subst refill.simps) (simp add: contents_length)
    moreover have "target - length (contents PlaybackQueueCapacity (ae_playbackQueue t)) < target - ?n" using t(7) True by simp
    ultimately show ?thesis using less.hyps [OF _ t(2)] t(3-6) by auto
  qed
qed

lemma stream_length:
  "playback_ok s \<Longrightarrow> SamplesPerFrame * length (contents PlaybackQueueCapacity (ae_playbackQueue s)) \<le> length (playback_stream s)"
proof -
  have "list_all frame_ok fs \<Longrightarrow> length (concat fs) = SamplesPerFrame * length fs" for fs :: "'a PcmFrame list"
    by (induction fs) (auto simp: frame_ok_def)
  moreover assume "playback_ok s"
  ultimately show ?thesis by (simp add: playback_ok_def playback_stream_def)
qed

lemma buffer_frames: "PlaybackBufferFrames n \<le> 31 \<and> min n 29760 \<le> SamplesPerFrame * PlaybackBufferFrames n"
proof -
  define k where "k = (n + 959) div 960"
  have n: "n \<le> 960 * k" unfolding k_def by (rule order_trans [of _ "n + 959 - (n + 959) mod 960"])
    (simp_all add: minus_mod_eq_mult_div)
  define p where "p = PlaybackBufferFrames n"
  have p: "p = max 2 (min 31 (k + 1))" by (simp add: p_def PlaybackBufferFrames_def audio_limits k_def)
  then have "p \<le> 31" "k \<le> p \<or> p = 31" by linarith+
  with n have "p \<le> 31 \<and> min n 29760 \<le> 960 * p" by linarith
  then show ?thesis by (simp add: p_def SamplesPerFrame_def)
qed

section \<open>Muting\<close>

definition silenced :: "('f, 'd) Sound \<Rightarrow> (u16, 'f TalkerMixSettings) smap \<Rightarrow> bool \<Rightarrow> u16 \<Rightarrow> bool" where
  "silenced S mixSettings playbackMuted clientId \<longleftrightarrow>
     mx_muted (talker_gain S mixSettings clientId) \<or> (playbackMuted \<and> clientId \<noteq> LoopbackTalkerId)"

text \<open>Two runs agree on all but the talkers and the count of drops.\<close>

definition same_mix :: "('f, 'dc, 'k, 'b) MixRun \<Rightarrow> ('f, 'dc, 'k, 'b) MixRun \<Rightarrow> bool" where
  "same_mix m m' \<longleftrightarrow> mr_mixed m' = mr_mixed m \<and> mr_contributors m' = mr_contributors m \<and>
     (\<exists>talkers drops. mr_engine m' = (mr_engine m)\<lparr>ae_talkers := talkers, ae_receiveDrops := drops\<rparr>)"

lemma same_mix_refl: "same_mix m m"
  unfolding same_mix_def by (intro conjI refl exI [of _ "ae_talkers (mr_engine m)"] exI [of _ "ae_receiveDrops (mr_engine m)"]) simp

lemma same_mix_trans: "same_mix l m \<Longrightarrow> same_mix m n \<Longrightarrow> same_mix l n"
  unfolding same_mix_def by force

lemma same_mix_put:
  "same_mix m (m\<lparr>mr_engine := (mr_engine m)\<lparr>ae_talkers := talkers, ae_receiveDrops := drops\<rparr>\<rparr>)"
  unfolding same_mix_def by auto

lemma mix_decoded_silenced:
  assumes "silenced S mixSettings playbackMuted i"
  shows "same_mix m (mix_decoded S mixSettings playbackMuted i t m)"
  using assms same_mix_refl [of m] same_mix_put [of m "ae_receiveDrops (mr_engine m)"]
  by (auto simp: mix_decoded_def Let_def silenced_def)

lemma mix_talker_silenced:
  assumes "silenced (al_sound A) mixSettings playbackMuted i" and "mix_talker A mixSettings playbackMuted i m = (r, m')"
  shows "same_mix m m'"
proof (cases "sm_find (ae_talkers (mr_engine m)) i")
  case None
  with assms(2) show ?thesis by (simp add: mix_talker_def same_mix_refl)
next
  case (Some t)
  show ?thesis
  proof (cases "tl_decoder t = None")
    case True
    with Some assms(2) show ?thesis by (simp add: mix_talker_def same_mix_refl)
  next
    case False
    obtain q t' drops where "decode_loop A (t, ae_receiveDrops (mr_engine m)) = (q, t', drops)" by (metis surj_pair)
    with False Some assms(2) same_mix_put [of m] mix_decoded_silenced [OF assms(1)] same_mix_trans show ?thesis
      by (auto simp: mix_talker_def Let_def split: sum.splits) blast
  qed
qed

lemma mix_talkers_silenced:
  "(\<And>i. i \<in> set ids \<Longrightarrow> silenced (al_sound A) mixSettings playbackMuted i) \<Longrightarrow>
   op_for ids (mix_talker A mixSettings playbackMuted) m = (r, m') \<Longrightarrow> same_mix m m'"
proof (induction ids arbitrary: m)
  case (Cons i ids)
  obtain q t where run: "mix_talker A mixSettings playbackMuted i m = (q, t)" by force
  then have "same_mix m t" using mix_talker_silenced Cons.prems(1) by (metis list.set_intros(1))
  moreover have "same_mix t m'"
  proof (cases q)
    case (Inl e)
    with Cons.prems(2) run show ?thesis by (simp add: op_bind_run same_mix_refl)
  next
    case (Inr u)
    with Cons run show ?thesis by (simp add: op_bind_run)
  qed
  ultimately show ?case by (rule same_mix_trans)
qed (simp add: same_mix_refl)

lemma deliver_same_mix:
  assumes "same_mix m m'"
  shows "ae_playbackQueue (deliver_mix S deliver m') = ae_playbackQueue (deliver_mix S deliver m) \<and>
    ae_synthesizer (deliver_mix S deliver m') = ae_synthesizer (deliver_mix S deliver m)"
proof -
  obtain talkers drops where "mr_engine m' = (mr_engine m)\<lparr>ae_talkers := talkers, ae_receiveDrops := drops\<rparr>"
      "mr_mixed m' = mr_mixed m" "mr_contributors m' = mr_contributors m"
    using assms by (auto simp: same_mix_def)
  then show ?thesis by (simp add: deliver_mix_def Let_def split_beta)
qed

section \<open>Properties\<close>

lemma toy_engine_ok: "engine_ok (new_AudioEngine whole_sound (Inr ()) :: (int, unit, unit, unit) AudioEngine)"
  by (rule new_AudioEngine_ok)

lemma render_answer:
  assumes "engine_ok s" and "RenderPlayback silence now n s = (out, s')"
  shows "engine_ok s' \<and> length out = n \<and>
    out = take n (playback_stream s) @ replicate (n - length (playback_stream s)) silence \<and>
    playback_stream s' = drop n (playback_stream s) \<and>
    ae_playbackUnderruns s' = ae_playbackUnderruns s +
      (if length (playback_stream s) < n \<and> recently now (ae_lastPlaybackRequest s) then 1 else 0)"
proof -
  let ?s = "s\<lparr>ae_lastPlaybackRequest := now, ae_playbackRequestSamples := n\<rparr>"
  obtain out' short t where run: "render silence n ?s = (out', short, t)" by (metis surj_pair)
  have ok: "playback_ok ?s" "playback_stream ?s = playback_stream s"
    using engine_playback_ok [OF assms(1)] by (simp_all add: playback_ok_def playback_stream_def)
  note played = render_stream [OF ok(1) run, unfolded ok(2)]
  have s': "out = out'" "s' = WakeWorker (if short \<and> recently now (ae_lastPlaybackRequest s)
      then t\<lparr>ae_playbackUnderruns := ae_playbackUnderruns t + 1\<rparr> else t)"
    using assms(2) run by (simp_all add: RenderPlayback_def Let_def)
  obtain q current k where t: "t = ?s\<lparr>ae_playbackQueue := q, ae_playbackCurrent := current, ae_playbackOffset := k\<rparr>"
    using played by (auto simp: only_played_def)
  have "engine_ok t" using assms(1) played t by (simp add: engine_ok_parts playback_ok_def)
  then have "engine_ok s'" using s'(2) by (auto simp: engine_ok_parts WakeWorker_def)
  moreover have "playback_stream s' = playback_stream t" using s'(2) by (auto simp: playback_stream_def WakeWorker_def)
  moreover have "ae_playbackUnderruns s' = ae_playbackUnderruns s + (if short \<and> recently now (ae_lastPlaybackRequest s) then 1 else 0)"
    using s'(2) t by (auto simp: WakeWorker_def)
  ultimately show ?thesis using played s'(1) by simp
qed

text \<open>
  C38: the output device gets the mixed samples in order, without a gap or a repetition. A request
  is answered with as many samples as it asks for: the next ones of the stream in the playback
  queue, and silence only when the stream has ended, which is counted as an underrun if the
  device was playing.
\<close>

theorem playback_in_order:
  assumes "engine_ok s" and "RenderPlayback silence now n s = (out, s')"
  shows "engine_ok s' \<and> length out = n \<and>
    out = take n (playback_stream s) @ replicate (n - length (playback_stream s)) silence \<and>
    playback_stream s' = drop n (playback_stream s) \<and>
    ae_playbackUnderruns s' = ae_playbackUnderruns s +
      (if length (playback_stream s) < n \<and> recently now (ae_lastPlaybackRequest s) then 1 else 0)"
  using render_answer [OF assms] .

theorem playback_in_order_witness:
  "fst (RenderPlayback (0 :: int) 5 3
     ((new_AudioEngine whole_sound (Inr ()) :: (int, unit, unit, unit) AudioEngine)\<lparr>ae_playbackOffset := 958\<rparr>)) = [0, 0, 0]"
proof -
  let ?s = "(new_AudioEngine whole_sound (Inr ()) :: (int, unit, unit, unit) AudioEngine)\<lparr>ae_playbackOffset := 958\<rparr>"
  have "engine_ok ?s" using toy_engine_ok unfolding engine_ok_parts by (simp add: SamplesPerFrame_def)
  moreover have "playback_stream ?s = [0, 0]"
    using new_ring_ok [of 32 "replicate 960 (0 :: int)"]
    by (simp add: playback_stream_def new_AudioEngine_def Let_def audio_limits whole_sound_def whole_numbers_def numeral_2_eq_2)
  ultimately show ?thesis
    using playback_in_order [of ?s 0 5 3 "fst (RenderPlayback 0 5 3 ?s)" "snd (RenderPlayback 0 5 3 ?s)"]
    by (simp add: numeral_3_eq_3)
qed

text \<open>
  C23: nothing that remote clients send stops the audio engine. Whatever voice frames arrive, of
  any length, order and codec, and however their contents decode, receiving and mixing end
  without an exception and without a read outside a buffer, and every mix for the device adds
  one frame to the playback queue while there is room. What is assumed of Opus is that it stays
  inside the buffers it is given and that creating and resetting a decoder succeed.
\<close>

theorem remote_voice_safe:
  assumes "engine_ok s" and "opus_ok (al_opus A)" and "resets_succeed (al_opus A)" and "decoder_created (al_opus A)"
  shows "\<exists>t s'. ProcessIncoming A (fold submit_voice voices s) = Some (Inr (), t) \<and>
    MixPlayback A deliver t = (Inr (), s') \<and> engine_ok s' \<and>
    length (contents PlaybackQueueCapacity (ae_playbackQueue s')) = length (contents PlaybackQueueCapacity (ae_playbackQueue t)) +
      (if deliver \<and> length (contents PlaybackQueueCapacity (ae_playbackQueue t)) < 31 then 1 else 0)"
proof -
  have "engine_ok (fold submit_voice voices s)"
    using assms(1) by (induction voices arbitrary: s) (simp_all add: submit_voice_ok)
  then obtain t where "ProcessIncoming A (fold submit_voice voices s) = Some (Inr (), t)" "engine_ok t"
    using ProcessIncoming_run [OF assms(4)] by (auto simp: keeps_playing_def)
  with MixPlayback_run [OF assms(2,3), of t deliver] show ?thesis by blast
qed

lemma toy_opus_more: "resets_succeed (al_opus toy_audio)" "decoder_created (al_opus toy_audio)"
  by (simp_all add: resets_succeed_def decoder_created_def toy_audio_def toy_opus_def)

theorem remote_voice_safe_witness:
  "\<exists>t s'. ProcessIncoming toy_audio (submit_voice
        \<lparr>vf_voiceId = 1, vf_clientId = 7, vf_codec = OpusVoice, vf_data = [1, 2, 3], vf_talkStart = True, vf_talkEnd = False, vf_whisper = False\<rparr>
      (new_AudioEngine whole_sound (Inr ()))) = Some (Inr (), t) \<and> MixPlayback toy_audio True t = (Inr (), s') \<and> engine_ok s'"
  using remote_voice_safe [OF toy_engine_ok toy_opus_ok toy_opus_more, of "[\<lparr>vf_voiceId = 1, vf_clientId = 7,
    vf_codec = OpusVoice, vf_data = [1, 2, 3], vf_talkStart = True, vf_talkEnd = False, vf_whisper = False\<rparr>]" True] by auto

text \<open>
  C37: who is muted is not heard. When every talker is either muted by its own settings or, with
  the speakers muted, not the microphone test, the mixer delivers what it would deliver if
  nobody were talking, notification sounds included.
\<close>

theorem muted_not_heard:
  assumes "engine_ok s" and "opus_ok (al_opus A)" and "resets_succeed (al_opus A)"
    and "\<And>i. i \<in> fst ` set (ae_talkers s) \<Longrightarrow>
      mx_muted (talker_gain (al_sound A) (ae_mixSettings s) i) \<or> (ae_playbackMuted s \<and> i \<noteq> LoopbackTalkerId)"
  shows "\<exists>s' quiet. MixPlayback A deliver s = (Inr (), s') \<and> MixPlayback A deliver (s\<lparr>ae_talkers := []\<rparr>) = (Inr (), quiet) \<and>
    ae_playbackQueue s' = ae_playbackQueue quiet \<and> ae_synthesizer s' = ae_synthesizer quiet"
proof -
  let ?start = "\<lambda>s. \<lparr>mr_engine = s, mr_mixed = replicate SamplesPerFrame (flit (al_sound A) 0), mr_contributors = 0\<rparr>"
  obtain r m where run: "op_for (map fst (ae_talkers s)) (mix_talker A (ae_mixSettings s) (ae_playbackMuted s)) (?start s) = (r, m)"
    by force
  have same: "same_mix (?start s) m"
    by (rule mix_talkers_silenced [OF _ run]) (use assms(4) in \<open>auto simp: silenced_def\<close>)
  have "r = Inr ()" using MixPlayback_run [OF assms(2,3,1), of deliver] run by (cases r) (auto simp: MixPlayback_def Let_def)
  then have "MixPlayback A deliver s = (Inr (), deliver_mix (al_sound A) deliver m)" using run by (simp add: MixPlayback_def Let_def)
  moreover have "MixPlayback A deliver (s\<lparr>ae_talkers := []\<rparr>) =
      (Inr (), deliver_mix (al_sound A) deliver (?start (s\<lparr>ae_talkers := []\<rparr>)))" by (simp add: MixPlayback_def Let_def)
  moreover have "same_mix (?start s) (?start (s\<lparr>ae_talkers := []\<rparr>))"
    using same_mix_put [of "?start s" "ae_receiveDrops s" "[]"] by simp
  ultimately show ?thesis using deliver_same_mix [OF same, of "al_sound A" deliver] deliver_same_mix by metis
qed

theorem muted_not_heard_witness:
  "\<exists>s' quiet. MixPlayback toy_audio True ((new_AudioEngine whole_sound (Inr ()))\<lparr>ae_playbackMuted := True,
       ae_talkers := [(7, new_TalkerState\<lparr>tl_decoder := Some ()\<rparr>)]\<rparr>) = (Inr (), s') \<and>
     MixPlayback toy_audio True ((new_AudioEngine whole_sound (Inr ()))\<lparr>ae_playbackMuted := True, ae_talkers := []\<rparr>) = (Inr (), quiet) \<and>
     ae_playbackQueue s' = ae_playbackQueue quiet"
proof -
  let ?s = "(new_AudioEngine whole_sound (Inr ()) :: (int, unit, unit, unit) AudioEngine)\<lparr>ae_playbackMuted := True,
     ae_talkers := [(7, new_TalkerState\<lparr>tl_decoder := Some ()\<rparr>)]\<rparr>"
  have "engine_ok ?s"
    using toy_engine_ok unfolding engine_ok_parts
    by (simp add: sm_ok_Cons talker_ok_def new_TalkerState_def audio_limits)
  then show ?thesis
    using muted_not_heard [OF _ toy_opus_ok toy_opus_more(1), of ?s True] by (simp add: LoopbackTalkerId_def) blast
qed

end
