(* ===== verification/Audio_Worker.thy ===== *)
theory Audio_Worker
  imports Audio_Playback
begin

text \<open>
  A whole turn of \<open>AudioEngine::Worker\<close> (\<open>audio/src/audio_engine.cpp\<close>): capture, reception and
  playback one after the other. The capture path and the reception leave the playback side as
  it is, so what the refill promises holds for the turn.

  The turn is one step here: a request of the output device that comes while it runs is not
  covered.
\<close>

section \<open>The capture path succeeds\<close>

text \<open>Encoding works: the library reports no error.\<close>

definition encoder_works :: "('e, 'dc, 'f) Opus \<Rightarrow> bool" where
  "encoder_works X \<longleftrightarrow> (\<forall>request e. 0 \<le> fst (ox_encoder_ctl X request e)) \<and> (\<forall>e frame n. 0 \<le> fst (ox_encode_float X e frame n))"

definition op_runs :: "('s \<Rightarrow> bool) \<Rightarrow> ('s, 'a) op \<Rightarrow> ('a \<Rightarrow> bool) \<Rightarrow> bool" where
  "op_runs I m Q \<longleftrightarrow> (\<forall>s. I s \<longrightarrow> (\<exists>x s'. m s = (Inr x, s') \<and> I s' \<and> Q x))"

lemma op_runs_bind:
  assumes "op_runs I m Q" and "\<And>x. Q x \<Longrightarrow> op_runs I (f x) R"
  shows "op_runs I (op_bind m f) R"
  unfolding op_runs_def
proof (intro allI impI)
  fix s assume "I s"
  then obtain x t where t: "m s = (Inr x, t)" "I t" "Q x" using assms(1) unfolding op_runs_def by blast
  then obtain y u where "f x t = (Inr y, u)" "I u" "R y" using assms(2) unfolding op_runs_def by blast
  with t(1) show "\<exists>y u. op_bind m f s = (Inr y, u) \<and> I u \<and> R y" by (simp add: op_bind_run)
qed

lemmas op_runs_then = op_runs_bind [where Q = "\<lambda>_. True"]

lemma op_runs_simps:
  "op_runs I (op_return x) Q \<longleftrightarrow> (\<forall>s. I s \<longrightarrow> Q x)"
  "op_runs I (op_gets g) Q \<longleftrightarrow> (\<forall>s. I s \<longrightarrow> Q (g s))"
  by (auto simp: op_runs_def)

lemma op_runs_when: "(b \<Longrightarrow> op_runs I m (\<lambda>_. True)) \<Longrightarrow> op_runs I (op_when b m) (\<lambda>_. True)"
  by (simp add: op_runs_def)

text \<open>What a step of the capture path keeps: the playback side and the capture queue.\<close>

definition capturing ::
  "('f, 'dc, 'k, 'b) AudioEngine \<Rightarrow> 'f PcmFrame SpscRing \<Rightarrow> ('f, 'dc, 'k, 'b) AudioEngine \<times> ('f, 'e) Worker \<Rightarrow> bool" where
  "capturing before captures p \<longleftrightarrow> keeps_playing before (fst p) \<and> ae_captureQueue (fst p) = captures"

lemma capturing_worker: "op_runs (capturing before captures) (set_worker h) (\<lambda>_. True)"
  by (simp add: op_runs_def set_worker_def capturing_def)

lemma capturing_encoder:
  fixes m :: "('e, 'a) op" and before :: "('f, 'dc, 'k, 'b) AudioEngine"
  assumes "\<And>e. \<exists>x e'. m e = (Inr x, e') \<and> Q x"
  shows "op_runs (capturing before captures) (on_encoder m) Q"
  unfolding op_runs_def
proof (intro allI impI)
  fix p :: "('f, 'dc, 'k, 'b) AudioEngine \<times> ('f, 'e) Worker"
  assume "capturing before captures p"
  moreover obtain x e' where "m (wk_encoder (snd p)) = (Inr x, e')" "Q x" using assms by blast
  ultimately show "\<exists>x p'. on_encoder m p = (Inr x, p') \<and> capturing before captures p' \<and> Q x"
    by (simp add: on_encoder_def op_zoom_def capturing_def)
qed

lemma capturing_reset:
  assumes "encoder_works (al_opus A)"
  shows "op_runs (capturing before captures) (on_encoder (encoder_Reset (al_opus A))) (\<lambda>_. True)"
proof (rule capturing_encoder)
  fix e
  show "\<exists>x e'. encoder_Reset (al_opus A) e = (Inr x, e') \<and> True"
    using assms by (simp add: encoder_works_def encoder_Reset_def encoder_ctl_def CheckOpus_def split_beta)
qed

lemma capturing_engine:
  assumes "\<And>s. engine_ok s \<Longrightarrow> \<exists>x s'. m s = (Inr x, s') \<and> keeps_playing s s' \<and> ae_captureQueue s' = ae_captureQueue s"
  shows "op_runs (capturing before captures) (on_engine m) (\<lambda>_. True)"
  unfolding op_runs_def
proof (intro allI impI)
  fix p assume p: "capturing before captures p"
  then have "engine_ok (fst p)" by (simp add: capturing_def keeps_playing_def)
  then obtain x s' where "m (fst p) = (Inr x, s')" "keeps_playing (fst p) s'" "ae_captureQueue s' = ae_captureQueue (fst p)"
    using assms by blast
  moreover from this p have "keeps_playing before s'" unfolding capturing_def using keeps_playing_trans by blast
  ultimately show "\<exists>x p'. on_engine m p = (Inr x, p') \<and> capturing before captures p' \<and> True"
    using p by (simp add: on_engine_def op_zoom_def capturing_def)
qed

lemma push_outgoing_playing:
  assumes "engine_ok s"
  shows "keeps_playing s (push_outgoing f s) \<and> ae_captureQueue (push_outgoing f s) = ae_captureQueue s"
proof -
  have ok: "ring_inv 16 (ae_outgoingQueue s)" using assms by (simp add: engine_ok_parts audio_limits)
  obtain b q where push: "TryPush OutgoingQueueCapacity f (ae_outgoingQueue s) = (b, q)" by force
  then have "ring_inv OutgoingQueueCapacity q"
    using ring.push_room [OF ok, of f] ring.push_full [OF ok, of f] ok
    by (cases "length (contents 16 (ae_outgoingQueue s)) < 15") (auto simp: OutgoingQueueCapacity_def)
  with push assms show ?thesis
    by (cases b) (auto simp: push_outgoing_def NotifyNetwork_def keeps_playing_def same_playback_def engine_ok_parts)
qed

lemma capturing_push: "op_runs (capturing before captures) (on_engine (op_modify (push_outgoing f))) (\<lambda>_. True)"
  by (rule capturing_engine) (simp add: push_outgoing_playing)

lemma loopback_playing:
  assumes "decoder_created (al_opus A)" and "engine_ok s" and "en_size frame \<le> length (en_data frame)"
    and "length (en_data frame) = MaxEncodedBytes"
  shows "\<exists>s'. PlayLoopback A frame s = (Inr (), s') \<and> keeps_playing s s' \<and> ae_captureQueue s' = ae_captureQueue s"
proof -
  let ?s = "s\<lparr>ae_loopbackVoiceId := ae_loopbackVoiceId s + 1\<rparr>"
  let ?f = "\<lparr>ef_clientId = LoopbackTalkerId, ef_voiceId = ae_loopbackVoiceId s, ef_codec = 4,
        ef_data = overwrite (take (en_size frame) (en_data frame)) (replicate MaxEncodedBytes 0),
        ef_size = en_size frame, ef_talkStart = en_talkStart frame, ef_talkEnd = en_talkEnd frame\<rparr>"
  have s: "keeps_playing s ?s" using assms(2) by (simp add: keeps_playing_def same_playback_def engine_ok_parts)
  have "voice_frame_ok ?f" using assms(3,4) by (simp add: voice_frame_ok_def length_overwrite)
  with s obtain s' where s': "push_talker A ?f ?s = (Inr (), s')" "keeps_playing ?s s'"
    using push_talker_run [OF assms(1), of ?s ?f] by (auto simp: keeps_playing_def)
  moreover have "keeps_playing s s'" using s s'(2) keeps_playing_trans by blast
  ultimately show ?thesis
    using assms(3) push_talker_queues [OF s'(1)] by (simp add: PlayLoopback_def op_bind_run)
qed

lemma capturing_loopback:
  assumes "decoder_created (al_opus A)" and "en_size frame \<le> length (en_data frame)" and "length (en_data frame) = MaxEncodedBytes"
  shows "op_runs (capturing before captures) (on_engine (PlayLoopback A frame)) (\<lambda>_. True)"
  by (rule capturing_engine) (use loopback_playing [OF assms(1) _ assms(2,3)] in blast)

lemma capturing_gate: "op_runs (capturing before captures) (gate_frame A pcm) (\<lambda>_. True)"
  by (auto simp: op_runs_def gate_frame_def Let_def capturing_def keeps_playing_def same_playback_def engine_ok_parts split: prod.split)

lemma capturing_state: "op_runs (capturing before captures) (op_gets g) (\<lambda>_. True)"
  by (simp add: op_runs_simps)

lemma capturing_talk_ended:
  assumes "encoder_works (al_opus A)" and "decoder_created (al_opus A)"
  shows "op_runs (capturing before captures) (talk_ended A) (\<lambda>_. True)"
  unfolding talk_ended_def QueueTalkEnd_def
  by (intro op_runs_then op_runs_when capturing_state capturing_push capturing_worker capturing_reset [OF assms(1)]
      capturing_loopback [OF assms(2)]) (simp_all add: empty_EncodedFrame_def)

lemma capturing_encode:
  assumes "opus_ok (al_opus A)" and "encoder_works (al_opus A)"
  shows "op_runs (capturing before captures) (encode_frame A pcm)
    (\<lambda>f. en_size f \<le> length (en_data f) \<and> length (en_data f) = MaxEncodedBytes)"
  unfolding encode_frame_def
proof (rule op_runs_bind [where Q = "\<lambda>(data, n). n \<le> length data \<and> length data = MaxEncodedBytes"])
  let ?m = "encoder_Encode (al_opus A) pcm (replicate MaxEncodedBytes 0)"
  have works: "0 \<le> fst (ox_encode_float (al_opus A) e pcm n)" for e n using assms(2) by (simp add: encoder_works_def)
  have "\<exists>x e'. ?m e = (Inr x, e')" for e
    using works [of e MaxEncodedBytes] by (simp add: encoder_Encode_def CheckOpus_def split_beta)
  moreover have "(\<lambda>(data, n). n \<le> length data \<and> length data = MaxEncodedBytes) x" if "?m e = (Inr x, e')" for x e e'
  proof -
    obtain data n where x: "x = (data, n)" by force
    with that encoder_Encode_size [OF assms(1), of pcm "replicate MaxEncodedBytes 0" e data n e'] show ?thesis by simp
  qed
  ultimately have "\<exists>x e'. ?m e = (Inr x, e') \<and> (\<lambda>(data, n). n \<le> length data \<and> length data = MaxEncodedBytes) x" for e
    by blast
  then show "op_runs (capturing before captures) (on_encoder ?m) (\<lambda>(data, n). n \<le> length data \<and> length data = MaxEncodedBytes)"
    by (rule capturing_encoder)
  fix x :: "bytes \<times> nat"
  assume "case x of (data, n) \<Rightarrow> n \<le> length data \<and> length data = MaxEncodedBytes"
  moreover obtain data n where "x = (data, n)" by force
  ultimately show "op_runs (capturing before captures) (case x of (data, n) \<Rightarrow>
      op_bind (op_gets snd) (\<lambda>w. op_bind (set_worker (\<lambda>w. w\<lparr>wk_talkStartRemaining := wk_talkStartRemaining w - 1\<rparr>)) (\<lambda>_.
      op_return \<lparr>en_data = data, en_size = n, en_transmitRevision = ts_revision (wk_state w),
        en_talkStart = (wk_talkStartRemaining w \<noteq> 0), en_talkEnd = False\<rparr>)))
      (\<lambda>f. en_size f \<le> length (en_data f) \<and> length (en_data f) = MaxEncodedBytes)"
    by (auto intro!: op_runs_then [OF capturing_state] op_runs_then [OF capturing_worker] simp: op_runs_simps)
qed

lemma capturing_frame:
  assumes "opus_ok (al_opus A)" and "encoder_works (al_opus A)" and "decoder_created (al_opus A)"
  shows "op_runs (capturing before captures) (capture_frame A pcm) (\<lambda>_. True)"
  unfolding capture_frame_def
  by (auto intro!: op_runs_then [OF capturing_state] op_runs_then [OF capturing_gate] op_runs_bind [OF capturing_encode [OF assms(1,2)]]
      op_runs_then [OF op_runs_when] op_runs_then [OF capturing_reset [OF assms(2)]] op_runs_when capturing_worker
      capturing_talk_ended [OF assms(2,3)] capturing_loopback [OF assms(3)] capturing_push split: if_split prod.split)

lemma reset_capture_playing:
  assumes "engine_ok s"
  shows "keeps_playing s (reset_capture silence talkEnd wasLoopback revision s)"
proof -
  let ?s = "s\<lparr>ae_inputLevelDb := silence, ae_inputVoiceActive := False\<rparr>"
  let ?t = "if talkEnd then QueueTalkEnd revision ?s else ?s"
  have s: "keeps_playing s ?s" using assms by (simp add: keeps_playing_def same_playback_def engine_ok_parts)
  then have "keeps_playing ?s ?t"
    using push_outgoing_playing [of ?s] by (auto simp: QueueTalkEnd_def keeps_playing_def same_playback_def)
  with s have t: "keeps_playing s ?t" using keeps_playing_trans by blast
  then have "engine_ok ?t" by (simp add: keeps_playing_def)
  from keeps_playing_trans [OF t forget_talker_playing [OF this]] t show ?thesis by (simp add: reset_capture_def Let_def)
qed

lemma state_change_playing:
  assumes "engine_ok s" and "encoder_works (al_opus A)"
  shows "\<exists>s' w'. apply_state_change A (s, w) = Some (Inr (), s', w') \<and> keeps_playing s s'"
proof (cases "ts_revision (LoadTransmitState s) \<noteq> ts_revision (wk_state w) \<or> ae_captureMonitor s \<noteq> wk_monitor w")
  case False
  with assms(1) show ?thesis by (simp add: apply_state_change_def)
next
  case True
  obtain q where q: "ring_Clear CaptureQueueCapacity (ae_captureQueue s) = Some q" "ring_inv CaptureQueueCapacity q"
      "contents CaptureQueueCapacity q = []"
    using ring_Clear_empties assms(1) by (auto simp: engine_ok_parts)
  then have cleared: "keeps_playing s (s\<lparr>ae_captureQueue := q\<rparr>)"
    using assms(1) by (simp add: keeps_playing_def same_playback_def engine_ok_parts)
  then have "engine_ok (s\<lparr>ae_captureQueue := q\<rparr>)" by (simp add: keeps_playing_def)
  note kept = keeps_playing_trans [OF cleared reset_capture_playing [OF this]]
  obtain e where reset: "encoder_Reset (al_opus A) (wk_encoder w) = (Inr (), e)"
    using assms(2) by (simp add: encoder_works_def encoder_Reset_def encoder_ctl_def CheckOpus_def split_beta)
  with True q(1) kept show ?thesis
    by (simp add: apply_state_change_def Let_def set_worker_def on_encoder_def op_zoom_def op_bind_run)
qed

lemma ProcessCapture_playing:
  fixes A :: "('f, 'd, 'e, 'dc, 'k, 'b) AudioLib" and s :: "('f, 'dc, 'k, 'b) AudioEngine" and w :: "('f, 'e) Worker"
  assumes "engine_ok s" and "opus_ok (al_opus A)" and "encoder_works (al_opus A)" and "decoder_created (al_opus A)"
  shows "\<exists>s' w'. ProcessCapture A (s, w) = Some (Inr (), s', w') \<and> keeps_playing s s'"
proof -
  let ?get = "\<lambda>p :: ('f, 'dc, 'k, 'b) AudioEngine \<times> ('f, 'e) Worker. ae_captureQueue (fst p)"
  let ?put = "\<lambda>q p :: ('f, 'dc, 'k, 'b) AudioEngine \<times> ('f, 'e) Worker. ((fst p)\<lparr>ae_captureQueue := q\<rparr>, snd p)"
  let ?I = "\<lambda>p :: ('f, 'dc, 'k, 'b) AudioEngine \<times> ('f, 'e) Worker. keeps_playing s (fst p)"
  obtain s1 w1 where start: "apply_state_change A (s, w) = Some (Inr (), s1, w1)" "keeps_playing s s1"
    using state_change_playing [OF assms(1,3)] by blast
  have popped: "capturing s q (?put q p)" if p: "?I p" "TryPop CaptureQueueCapacity (?get p) = (x, q)" for p x q
  proof -
    have ok: "engine_ok (fst p)" using p(1) by (simp add: keeps_playing_def)
    have ring: "ring_inv CaptureQueueCapacity (?get p)" using ok by (simp add: engine_ok_parts)
    have "ring_inv CaptureQueueCapacity q" "list_all frame_ok (contents CaptureQueueCapacity q)"
      using pop_contents [OF ring p(2)] ok by (cases x; simp add: engine_ok_parts)+
    with ok have "keeps_playing (fst p) ((fst p)\<lparr>ae_captureQueue := q\<rparr>)"
      by (simp add: keeps_playing_def same_playback_def engine_ok_parts)
    with p(1) show ?thesis using keeps_playing_trans by (fastforce simp: capturing_def)
  qed
  have body: "fst (capture_frame A x (?put q p)) = Inr () \<and> ?get (snd (capture_frame A x (?put q p))) = q \<and>
      ?I (snd (capture_frame A x (?put q p)))"
    if p: "?I p" "TryPop CaptureQueueCapacity (?get p) = (y, q)" for x y q p
  proof -
    obtain u p' where "capture_frame A x (?put q p) = (Inr u, p')" "capturing s q p'"
      using capturing_frame [OF assms(2-4), of s q x] popped [OF p] unfolding op_runs_def by blast
    then show ?thesis by (simp add: capturing_def)
  qed
  have "\<exists>r p. pop_loop CaptureQueueCapacity ?get ?put (capture_frame A) (s1, w1) = Some (r, p) \<and> ?I p \<and>
      ring_inv CaptureQueueCapacity (?get p) \<and>
      ((\<forall>x q p. ?I p \<longrightarrow> ring_inv CaptureQueueCapacity (?get p) \<longrightarrow> TryPop CaptureQueueCapacity (?get p) = (Some x, q) \<longrightarrow>
          fst (capture_frame A x (?put q p)) = Inr ()) \<longrightarrow> r = Inr ())"
  proof (rule pop_loop_invariant)
    show "ring_inv CaptureQueueCapacity (?get (s1, w1))" using start(2) by (simp add: keeps_playing_def engine_ok_parts)
    show "?get (snd (capture_frame A x (?put q p))) = q \<and> ?I (snd (capture_frame A x (?put q p)))"
      if "?I p" "TryPop CaptureQueueCapacity (?get p) = (Some x, q)" for x q p
      using body [OF that] by simp
    show "?I (?put q p)" if "?I p" "TryPop CaptureQueueCapacity (?get p) = (None, q)" for q p
      using popped [OF that] by (simp add: capturing_def)
  qed (use start(2) in simp_all)
  then obtain r p where run: "pop_loop CaptureQueueCapacity ?get ?put (capture_frame A) (s1, w1) = Some (r, p)" "?I p"
    and r: "(\<forall>x q p. ?I p \<longrightarrow> ring_inv CaptureQueueCapacity (?get p) \<longrightarrow> TryPop CaptureQueueCapacity (?get p) = (Some x, q) \<longrightarrow>
          fst (capture_frame A x (?put q p)) = Inr ()) \<longrightarrow> r = Inr ()"
    by blast
  have "r = Inr ()" using r body by blast
  with run start show ?thesis by (cases p) (simp add: ProcessCapture_def)
qed

section \<open>Properties\<close>

text \<open>
  C24: the worker keeps ahead of the device. While the device is playing, that is within 250 ms
  of its last request, a whole turn of the worker, with or without an encoder, succeeds and
  leaves enough in the playback queue to answer the next request in full and without an
  underrun, if no request comes in between and the next one asks for no more samples than the last one
  and for no more than 31 frames, 29,760 samples; what was queued before is played first.
  What is assumed of Opus is that it stays inside the buffers it is given and that encoding,
  resets and the creation of a decoder succeed.
\<close>

theorem worker_keeps_ahead:
  assumes "engine_ok s" and "opus_ok (al_opus A)" and "resets_succeed (al_opus A)" and "decoder_created (al_opus A)"
    and "encoder_works (al_opus A)"
    and "PlaybackDeviceActive now s" and "n \<le> ae_playbackRequestSamples s" and "n \<le> 29760"
  shows "\<exists>s' w' out s''. worker_turn A now nextMix (s, w) = Some (Inr (now + milliseconds 20), s', w') \<and> engine_ok s' \<and>
    RenderPlayback silence later n s' = (out, s'') \<and> out = take n (playback_stream s') \<and>
    take (length (playback_stream s)) (playback_stream s') = playback_stream s \<and>
    ae_playbackUnderruns s'' = ae_playbackUnderruns s"
proof -
  obtain s1 w1 where s1: "(case w of None \<Rightarrow> Some (Inr (), s, w)
        | Some w \<Rightarrow> map_option (\<lambda>(r, s, w). (r, s, Some w)) (ProcessCapture A (s, w))) = Some (Inr (), s1, w1)" "keeps_playing s s1"
    using ProcessCapture_playing [OF assms(1,2,5,4)] assms(1) by (cases w) force+
  then have "engine_ok s1" by (simp add: keeps_playing_def)
  then obtain s2 where s2: "ProcessIncoming A s1 = Some (Inr (), s2)" "keeps_playing s1 s2"
    using ProcessIncoming_run [OF assms(4)] by blast
  have kept: "engine_ok s2" "same_playback s s2" using keeps_playing_trans [OF s1(2) s2(2)] by (simp_all add: keeps_playing_def)
  let ?target = "PlaybackBufferFrames (ae_playbackRequestSamples s2)"
  obtain s' ys where s': "refill A ?target s2 = Some (Inr (), s')" "engine_ok s'" "playback_stream s' = playback_stream s2 @ ys"
      "ae_playbackUnderruns s' = ae_playbackUnderruns s2"
      "?target \<le> length (contents PlaybackQueueCapacity (ae_playbackQueue s'))"
    using refill_run [OF assms(2,3) conjunct1 [OF buffer_frames] kept(1)] by blast
  have "min (ae_playbackRequestSamples s2) 29760 \<le> SamplesPerFrame * ?target" using buffer_frames by blast
  also have "\<dots> \<le> SamplesPerFrame * length (contents PlaybackQueueCapacity (ae_playbackQueue s'))" using s'(5) by (intro mult_left_mono) simp_all
  also have "\<dots> \<le> length (playback_stream s')" using stream_length [OF engine_playback_ok [OF s'(2)]] .
  finally have enough: "n \<le> length (playback_stream s')" using assms(7,8) kept(2) by (simp add: same_playback_def)
  obtain out s'' where out: "RenderPlayback silence later n s' = (out, s'')" by force
  note played = render_answer [OF s'(2) out]
  have "PlaybackDeviceActive now s2" using assms(6) kept(2) by (simp add: PlaybackDeviceActive_def same_playback_def)
  then have "worker_turn A now nextMix (s, w) = Some (Inr (now + milliseconds 20), s', w1)"
    unfolding worker_turn_def snd_conv fst_conv s1(1) using s2(1) s'(1) by (simp add: pace_playback_def)
  moreover have "ae_playbackUnderruns s'' = ae_playbackUnderruns s" "out = take n (playback_stream s')"
    using played enough s'(4) kept(2) by (simp_all add: same_playback_def)
  moreover have "playback_stream s2 = playback_stream s" using kept(2) by (rule same_playback_stream)
  ultimately show ?thesis using out s'(2,3) by auto
qed

lemma toy_encoder_works: "encoder_works (al_opus toy_audio)"
  by (simp add: encoder_works_def toy_audio_def toy_opus_def)

theorem worker_keeps_ahead_witness:
  "\<exists>s' w' out s''. worker_turn toy_audio 9 0
      ((new_AudioEngine whole_sound (Inr ()))\<lparr>ae_lastPlaybackRequest := 5\<rparr>, Some (new_Worker whole_sound ())) =
        Some (Inr (9 + milliseconds 20), s', w') \<and>
    RenderPlayback 0 10 960 s' = (out, s'') \<and> out = take 960 (playback_stream s') \<and> ae_playbackUnderruns s'' = 0"
proof -
  let ?s = "(new_AudioEngine whole_sound (Inr ()) :: (int, unit, unit, unit) AudioEngine)\<lparr>ae_lastPlaybackRequest := 5\<rparr>"
  have "engine_ok ?s" using toy_engine_ok by (simp add: engine_ok_parts)
  moreover have "PlaybackDeviceActive 9 ?s" "960 \<le> ae_playbackRequestSamples ?s" "ae_playbackUnderruns ?s = 0"
    by (simp_all add: PlaybackDeviceActive_def recently_def PlaybackIdleTimeout_def milliseconds_def new_AudioEngine_def Let_def SamplesPerFrame_def)
  ultimately show ?thesis
    using worker_keeps_ahead [OF _ toy_opus_ok toy_opus_more toy_encoder_works, of ?s 9 960 0 "Some (new_Worker whole_sound ())" 0 10] by auto
qed

end
